(* ===== verification/Prelude.thy ===== *)
theory Prelude
  imports Complex_Main "HOL-Library.AList" "HOL-Library.Sublist"
begin

text \<open>
  The vocabulary the component theories share.

  \<^item> JavaScript values: \<open>js\<close> has one constructor per kind of value the sources handle.
    A number is a rational: every finite double is one, and the sources modelled here
    compare numbers, add small integers or take ratios of them; where the code rounds, the
    rounding is written out. An object is an association list in insertion order, so that
    \<open>Object.entries\<close>, \<open>Object.keys\<close> and the object spread can be modelled (keys that look
    like array indexes, which JavaScript lists first, do not occur as object keys here).
  \<^item> Failures: \<open>js_error\<close> and the result type \<open>'a res\<close>. A read of a property of
    \<open>undefined\<close> is \<open>Inl TypeError\<close>; a recursion that runs out of the model's fuel is
    \<open>Inl StackOverflow\<close>.
  \<^item> Strings: the string methods the sources use, on \<open>char list\<close>, whose characters are the first 256 of Unicode.
    \<open>toLowerCase\<close> and \<open>trim\<close> are those of JavaScript there; the three letters whose capital is not among
    them (or is two letters) are kept by the conversion to capitals.
  \<^item> Interfaces: the locales that several components instantiate, for machines whose steps keep
    an invariant, for machines that implement an abstract one, and for functions defined by fuel.
\<close>

named_theorems js_simps \<open>evaluation of the JavaScript primitives\<close>

section \<open>Values\<close>

datatype js =
    JUndef
  | JNull
  | JBool bool
  | JNum rat
  | JStr string
  | JArr "js list"
  | JObj "(string \<times> js) list"

type_synonym obj = "(string \<times> js) list"

datatype js_error = TypeError | ReferenceError | StackOverflow

type_synonym 'a res = "js_error + 'a"

definition rbind :: "'a res \<Rightarrow> ('a \<Rightarrow> 'b res) \<Rightarrow> 'b res" where
  "rbind m f = (case m of Inl e \<Rightarrow> Inl e | Inr x \<Rightarrow> f x)"

lemma rbind_simps [simp]:
  "rbind (Inl e) f = Inl e" "rbind (Inr x) f = f x"
  by (simp_all add: rbind_def)

lemma rbind_eq_Inr [simp]:
  "rbind m f = Inr y \<longleftrightarrow> (\<exists>x. m = Inr x \<and> f x = Inr y)"
  by (cases m) auto

lemma rbind_eq_Inl:
  "rbind m f = Inl e \<longleftrightarrow> m = Inl e \<or> (\<exists>x. m = Inr x \<and> f x = Inl e)"
  by (cases m) auto

text \<open>Running a fallible function over a list, stopping at the first error.\<close>

fun rmap :: "('a \<Rightarrow> 'b res) \<Rightarrow> 'a list \<Rightarrow> 'b list res" where
  "rmap f [] = Inr []"
| "rmap f (x # xs) = rbind (f x) (\<lambda>y. rbind (rmap f xs) (\<lambda>ys. Inr (y # ys)))"

lemma rmap_Inr: "(\<And>x. x \<in> set xs \<Longrightarrow> f x = Inr (g x)) \<Longrightarrow> rmap f xs = Inr (map g xs)"
  by (induction xs) auto

lemma rmap_length: "rmap f xs = Inr ys \<Longrightarrow> length ys = length xs"
  by (induction xs arbitrary: ys) auto

text \<open>
  \<open>le_res\<close> orders results by definedness (running out of fuel is the least one), and
  \<open>ran\<close> says a computation did not run out.
\<close>

definition le_res :: "'a res \<Rightarrow> 'a res \<Rightarrow> bool" where
  "le_res a b \<longleftrightarrow> a = Inl StackOverflow \<or> a = b"

definition ran :: "'a res \<Rightarrow> bool" where
  "ran m \<longleftrightarrow> m \<noteq> Inl StackOverflow"

named_theorems fuel_intros \<open>introduction rules for le_res and ran\<close>

lemma le_res_refl [simp, fuel_intros]: "le_res a a"
  by (simp add: le_res_def)

lemma le_res_bind [fuel_intros]:
  assumes "le_res m m'" and "\<And>x. le_res (f x) (f' x)"
  shows "le_res (rbind m f) (rbind m' f')"
  using assms unfolding le_res_def by (cases m) force+

lemma le_res_ran: "le_res a b \<Longrightarrow> ran a \<Longrightarrow> b = a"
  by (auto simp: le_res_def ran_def)

lemma ran_simps [simp]: "ran (Inr x)" "ran (Inl TypeError)" "ran (Inl ReferenceError)"
  by (simp_all add: ran_def)

lemma ran_bind [fuel_intros]:
  "ran m \<Longrightarrow> (\<And>x. m = Inr x \<Longrightarrow> ran (f x)) \<Longrightarrow> ran (rbind m f)"
  by (cases m) (auto simp: ran_def)

text \<open>The same for the errors a component has of its own.\<close>

definition ebind :: "('e + 'a) \<Rightarrow> ('a \<Rightarrow> 'e + 'b) \<Rightarrow> 'e + 'b" where
  "ebind m f = (case m of Inl e \<Rightarrow> Inl e | Inr x \<Rightarrow> f x)"

lemma ebind_simps [simp]: "ebind (Inl e) f = Inl e" "ebind (Inr x) f = f x"
  by (simp_all add: ebind_def)

lemma ebind_Inr [simp]: "ebind m f = Inr y \<longleftrightarrow> (\<exists>x. m = Inr x \<and> f x = Inr y)"
  by (cases m) auto

fun emap :: "('a \<Rightarrow> 'e + 'b) \<Rightarrow> 'a list \<Rightarrow> 'e + 'b list" where
  "emap f [] = Inr []"
| "emap f (x # xs) = ebind (f x) (\<lambda>y. ebind (emap f xs) (\<lambda>ys. Inr (y # ys)))"

lemma emap_Inr: "(\<And>x. x \<in> set xs \<Longrightarrow> f x = Inr (g x)) \<Longrightarrow> emap f xs = Inr (map g xs)"
  by (induction xs) auto

lemma emap_in: "emap f xs = Inr ys \<Longrightarrow> x \<in> set xs \<Longrightarrow> \<exists>y. f x = Inr y"
  by (induction xs arbitrary: ys) auto

section \<open>Primitives\<close>

fun truthy :: "js \<Rightarrow> bool" where
  "truthy JUndef = False"
| "truthy JNull = False"
| "truthy (JBool b) = b"
| "truthy (JNum n) = (n \<noteq> 0)"
| "truthy (JStr s) = (s \<noteq> [])"
| "truthy (JArr xs) = True"
| "truthy (JObj fs) = True"

text \<open>\<open>a || b\<close> and \<open>a ?? b\<close>.\<close>

definition js_or :: "js \<Rightarrow> js \<Rightarrow> js" where
  "js_or a b = (if truthy a then a else b)"

definition nullish :: "js \<Rightarrow> bool" where
  "nullish v \<longleftrightarrow> v = JUndef \<or> v = JNull"

definition is_array :: "js \<Rightarrow> bool" where
  "is_array v = (case v of JArr _ \<Rightarrow> True | _ \<Rightarrow> False)"

definition is_object :: "js \<Rightarrow> bool" where
  "is_object v = (case v of JObj _ \<Rightarrow> True | _ \<Rightarrow> False)"

definition is_string :: "js \<Rightarrow> bool" where
  "is_string v = (case v of JStr _ \<Rightarrow> True | _ \<Rightarrow> False)"

text \<open>\<open>Math.round\<close>.\<close>

definition js_round :: "rat \<Rightarrow> int" where
  "js_round q = \<lfloor>q + 1 / 2\<rfloor>"

subsection \<open>Strings\<close>

definition startsWith :: "string \<Rightarrow> string \<Rightarrow> bool" where
  "startsWith s p \<longleftrightarrow> take (length p) s = p"

definition endsWith :: "string \<Rightarrow> string \<Rightarrow> bool" where
  "endsWith s p \<longleftrightarrow> startsWith (rev s) (rev p)"

fun includes_str :: "string \<Rightarrow> string \<Rightarrow> bool" where
  "includes_str [] p = (p = [])"
| "includes_str (c # s) p = (startsWith (c # s) p \<or> includes_str s p)"

definition lower_char :: "char \<Rightarrow> char" where
  "lower_char c =
     (let n = of_char c :: nat in
      if 65 \<le> n \<and> n \<le> 90 \<or> 192 \<le> n \<and> n \<le> 222 \<and> n \<noteq> 215 then char_of (n + 32) else c)"

definition has_capital :: "nat \<Rightarrow> bool" where
  "has_capital n \<longleftrightarrow> 97 \<le> n \<and> n \<le> 122 \<or> 224 \<le> n \<and> n \<le> 254 \<and> n \<noteq> 247"

definition upper_char :: "char \<Rightarrow> char" where
  "upper_char c =
     (let n = of_char c :: nat in if has_capital n then char_of (n - 32) else c)"

definition toLowerCase :: "string \<Rightarrow> string" where
  "toLowerCase s = map lower_char s"

fun split_on :: "char \<Rightarrow> string \<Rightarrow> string list" where
  "split_on d [] = [[]]"
| "split_on d (c # s) =
     (if c = d then [] # split_on d s
      else case split_on d s of [] \<Rightarrow> [[c]] | p # ps \<Rightarrow> (c # p) # ps)"

fun join :: "string \<Rightarrow> string list \<Rightarrow> string" where
  "join d [] = []"
| "join d [x] = x"
| "join d (x # xs) = x @ d @ join d xs"

function nat_str :: "nat \<Rightarrow> string" where
  "nat_str n =
     (if n < 10 then [char_of (48 + n)] else nat_str (n div 10) @ [char_of (48 + n mod 10)])"
  by pat_completeness auto
termination
  by (relation "measure id") auto

declare nat_str.simps [simp del]

definition is_space :: "char \<Rightarrow> bool" where
  "is_space c \<longleftrightarrow> (let n = of_char c :: nat in n = 32 \<or> n = 160 \<or> n \<in> {9..13})"

definition trim :: "string \<Rightarrow> string" where
  "trim s = rev (dropWhile is_space (rev (dropWhile is_space s)))"

definition is_digit :: "char \<Rightarrow> bool" where
  "is_digit c \<longleftrightarrow> (of_char c :: nat) \<in> {48..57}"

lemma startsWith_append [simp]: "startsWith (p @ s) p"
  by (simp add: startsWith_def)

lemma startsWith_iff_prefix: "startsWith s p \<longleftrightarrow> prefix p s"
  by (auto simp: startsWith_def prefix_def) (metis append_take_drop_id)

lemma endsWith_iff_suffix: "endsWith s p \<longleftrightarrow> suffix p s"
  by (simp add: endsWith_def startsWith_iff_prefix suffix_to_prefix)

lemma upper_code:
  assumes "has_capital (of_char c)"
  shows "of_char (upper_char c) = (of_char c :: nat) - 32"
proof -
  have "((of_char c :: nat) - 32) mod 256 = of_char c - 32" using assms by (intro mod_less) (auto simp: has_capital_def)
  with assms show ?thesis by (simp add: upper_char_def Let_def of_char_of)
qed

lemma upper_kept: "\<not> has_capital (of_char c) \<Longrightarrow> upper_char c = c"
  by (simp add: upper_char_def Let_def)

lemma upper_upper: "upper_char (upper_char c) = upper_char c"
proof (cases "has_capital (of_char c)")
  case True
  then have "\<not> has_capital (of_char (upper_char c))" unfolding upper_code [OF True] has_capital_def by presburger
  then show ?thesis by (rule upper_kept)
qed (simp add: upper_kept)

lemma split_on_nonempty [simp]: "split_on d s \<noteq> []"
  by (induction s) (auto split: list.splits)

lemma join_split_on: "join [d] (split_on d s) = s"
proof (induction s)
  case Nil
  then show ?case by simp
next
  case (Cons c s)
  obtain p ps where "split_on d s = p # ps"
    by (meson split_on_nonempty neq_Nil_conv)
  with Cons.IH show ?case by (cases ps) auto
qed

lemma split_on_no_sep: "d \<notin> set s \<Longrightarrow> split_on d s = [s]"
  by (induction s) auto

lemma split_on_append:
  "d \<notin> set p \<Longrightarrow> split_on d (p @ d # s) = p # split_on d s"
  by (induction p) auto

lemma split_on_parts: "p \<in> set (split_on d s) \<Longrightarrow> d \<notin> set p"
proof (induction s arbitrary: p)
  case (Cons c s)
  then show ?case
    by (cases "split_on d s") (auto split: if_splits)
qed simp

lemma split_on_join:
  "ps \<noteq> [] \<Longrightarrow> \<forall>p\<in>set ps. d \<notin> set p \<Longrightarrow> split_on d (join [d] ps) = ps"
proof (induction ps)
  case (Cons p ps)
  then show ?case by (cases ps) (auto simp: split_on_no_sep split_on_append)
qed simp

subsection \<open>Objects\<close>

text \<open>
  \<open>obj_get o k\<close> is \<open>o[k]\<close>, \<open>AList.update k v o\<close> is the effect of \<open>{...o, [k]: v}\<close>
  (in place for a key that is there, at the end for a new one) and \<open>spread a b\<close> is
  \<open>{...a, ...b}\<close>.
\<close>

definition obj_get :: "obj \<Rightarrow> string \<Rightarrow> js" where
  "obj_get o' k = (case map_of o' k of None \<Rightarrow> JUndef | Some v \<Rightarrow> v)"

definition obj_has :: "obj \<Rightarrow> string \<Rightarrow> bool" where
  "obj_has o' k \<longleftrightarrow> k \<in> fst ` set o'"

definition spread :: "obj \<Rightarrow> obj \<Rightarrow> obj" where
  "spread a b = fold (\<lambda>(k, v). AList.update k v) b a"

definition obj_del :: "string \<Rightarrow> obj \<Rightarrow> obj" where
  "obj_del k o' = filter (\<lambda>e. fst e \<noteq> k) o'"

definition keys_ok :: "obj \<Rightarrow> bool" where
  "keys_ok o' \<longleftrightarrow> distinct (map fst o')"

text \<open>The entries of any value, as a spread \<open>{...v}\<close> sees them.\<close>

definition indexed :: "js list \<Rightarrow> obj" where
  "indexed xs = zip (map nat_str [0..<length xs]) xs"

fun entries :: "js \<Rightarrow> obj" where
  "entries (JObj fs) = fs"
| "entries (JArr xs) = indexed xs"
| "entries (JStr s) = indexed (map (\<lambda>c. JStr [c]) s)"
| "entries _ = []"

text \<open>
  \<open>jprop v k\<close> is the read \<open>v?.[k]\<close> of a data property; \<open>fld v k\<close> is \<open>v[k]\<close>, which throws
  on \<open>undefined\<close> and \<open>null\<close>. Only own properties of objects are data; the other kinds of
  value answer \<open>undefined\<close> for the keys the sources read.
\<close>

definition jprop :: "js \<Rightarrow> string \<Rightarrow> js" where
  "jprop v k = (case v of JObj fs \<Rightarrow> obj_get fs k | _ \<Rightarrow> JUndef)"

definition fld :: "js \<Rightarrow> string \<Rightarrow> js res" where
  "fld v k = (if nullish v then Inl TypeError else Inr (jprop v k))"

lemma obj_get_Nil [simp]: "obj_get [] k = JUndef"
  by (simp add: obj_get_def)

lemma obj_get_Cons [simp]: "obj_get ((k', v) # o') k = (if k' = k then v else obj_get o' k)"
  by (simp add: obj_get_def)

lemma obj_get_update [simp]:
  "obj_get (AList.update k v o') k' = (if k = k' then v else obj_get o' k')"
  by (simp add: obj_get_def update_conv')

lemma obj_has_simps [simp]:
  "\<not> obj_has [] k"
  "obj_has ((k', v) # o') k \<longleftrightarrow> k = k' \<or> obj_has o' k"
  "obj_has (AList.update k' v o') k \<longleftrightarrow> k = k' \<or> obj_has o' k"
  by (auto simp: obj_has_def dom_update)

lemma obj_get_absent: "\<not> obj_has o' k \<Longrightarrow> obj_get o' k = JUndef"
  by (simp add: obj_get_def obj_has_def map_of_eq_None_iff [THEN iffD2])

lemma keys_ok_Cons [simp]: "keys_ok ((k, v) # o') \<longleftrightarrow> \<not> obj_has o' k \<and> keys_ok o'"
  by (auto simp: keys_ok_def obj_has_def image_iff)

lemma keys_ok_Nil [simp]: "keys_ok []"
  by (simp add: keys_ok_def)

lemma keys_ok_update [simp]: "keys_ok (AList.update k v o') = keys_ok o'"
  unfolding keys_ok_def
  by (induction o') (auto simp: update_keys image_iff dest: map_of_SomeD)

lemma spread_Nil [simp]: "spread a [] = a"
  by (simp add: spread_def)

lemma spread_Cons: "spread a ((k, v) # b) = spread (AList.update k v a) b"
  by (simp add: spread_def)

lemma spread_append: "spread a (b @ c) = spread (spread a b) c"
  by (simp add: spread_def)

lemma keys_ok_spread [simp]: "keys_ok (spread a b) = keys_ok a"
proof (induction b arbitrary: a)
  case (Cons e b)
  show ?case
    by (cases e) (simp add: spread_Cons Cons.IH)
qed simp

lemma map_of_spread: "keys_ok b \<Longrightarrow> map_of (spread a b) = map_of a ++ map_of b"
proof (induction b arbitrary: a)
  case (Cons e b)
  obtain k v where e: "e = (k, v)" by (cases e)
  from Cons.prems e have kb: "keys_ok b" and k: "map_of b k = None"
    by (auto simp: keys_ok_def map_of_eq_None_iff)
  have "map_of (spread a (e # b)) = (map_of a)(k \<mapsto> v) ++ map_of b"
    by (simp only: e spread_Cons Cons.IH [OF kb] update_conv')
  also have "\<dots> = map_of a ++ map_of (e # b)"
    using k by (simp add: e fun_eq_iff map_add_def split: option.splits)
  finally show ?case .
qed simp

lemma obj_has_spread [simp]: "obj_has (spread a b) k \<longleftrightarrow> obj_has a k \<or> obj_has b k"
proof (induction b arbitrary: a)
  case (Cons e b)
  then show ?case by (cases e) (auto simp: spread_Cons)
qed simp

lemma obj_get_spread:
  "keys_ok b \<Longrightarrow> obj_get (spread a b) k = (if obj_has b k then obj_get b k else obj_get a k)"
  by (auto simp: obj_get_def obj_has_def map_of_spread map_add_def
      dest: map_of_eq_None_iff [THEN iffD1] split: option.splits)
    (metis image_eqI map_of_eq_None_iff option.distinct(1))+

lemma obj_get_obj_del: "obj_get (obj_del k o') n = (if n = k then JUndef else obj_get o' n)"
  by (induction o') (auto simp: obj_del_def obj_get_def)

lemma obj_get_append: "obj_get (a @ b) k = (if obj_has a k then obj_get a k else obj_get b k)"
  by (induction a) (auto simp: obj_get_def)

lemma jprop_JObj [simp]: "jprop (JObj fs) k = obj_get fs k"
  by (simp add: jprop_def)

lemma fld_JObj [simp]: "fld (JObj fs) k = Inr (obj_get fs k)"
  by (simp add: fld_def nullish_def)

subsection \<open>Lists\<close>

text \<open>The element at an index, with \<open>None\<close> for the \<open>undefined\<close> out of range, and the array of a value, or none.\<close>

definition at_int :: "'a list \<Rightarrow> int \<Rightarrow> 'a option" where
  "at_int xs k = (if 0 \<le> k \<and> k < int (length xs) then Some (xs ! nat k) else None)"

definition array_or_empty :: "js \<Rightarrow> js list" where
  "array_or_empty v = (case v of JArr xs \<Rightarrow> xs | _ \<Rightarrow> [])"

text \<open>An array mapped or filtered by position.\<close>

definition map_at :: "nat \<Rightarrow> ('a \<Rightarrow> 'a) \<Rightarrow> 'a list \<Rightarrow> 'a list" where
  "map_at k f xs = map (\<lambda>(i, x). if i = k then f x else x) (enumerate 0 xs)"

definition drop_at :: "nat \<Rightarrow> 'a list \<Rightarrow> 'a list" where
  "drop_at k xs = map snd (filter (\<lambda>(i, x). i \<noteq> k) (enumerate 0 xs))"

lemma length_map_at [simp]: "length (map_at k f xs) = length xs"
  by (simp add: map_at_def)

lemma nth_map_at: "i < length xs \<Longrightarrow> map_at k f xs ! i = (if i = k then f (xs ! i) else xs ! i)"
  by (simp add: map_at_def nth_enumerate_eq)

lemma enumerate_keeps: "k \<notin> {n..<n + length xs} \<Longrightarrow> map snd (filter (\<lambda>(i, x). i \<noteq> k) (enumerate n xs)) = xs"
  by (subst filter_True) (auto simp: in_set_enumerate_eq)

lemma drop_at_parts: "drop_at k xs = take k xs @ drop (Suc k) xs"
proof -
  have "map snd (filter (\<lambda>(i, x). i \<noteq> n + k) (enumerate n xs)) = take k xs @ drop (Suc k) xs" for n
  proof (induction xs arbitrary: n k)
    case (Cons x xs)
    show ?case
    proof (cases k)
      case 0
      then show ?thesis using enumerate_keeps [of n "Suc n" xs] by simp
    next
      case (Suc j)
      then show ?thesis using Cons.IH [of "Suc n" j] by simp
    qed
  qed simp
  from this [of 0] show ?thesis by (simp add: drop_at_def)
qed

lemma length_drop_at: "length (drop_at k xs) = (if k < length xs then length xs - 1 else length xs)"
  by (simp add: drop_at_parts)

lemma nth_drop_at:
  "i < length (drop_at k xs) \<Longrightarrow> drop_at k xs ! i = (if i < k then xs ! i else xs ! Suc i)"
  by (auto simp: drop_at_parts nth_append min_def)

lemma at_int_Some: "at_int xs k = Some x \<longleftrightarrow> 0 \<le> k \<and> nat k < length xs \<and> xs ! nat k = x"
  by (auto simp: at_int_def)

lemma at_int_None: "at_int xs k = None \<longleftrightarrow> k < 0 \<or> int (length xs) \<le> k"
  by (auto simp: at_int_def)

text \<open>\<open>findIndex\<close>, with \<open>None\<close> for the code's \<open>-1\<close>.\<close>

fun find_index :: "('a \<Rightarrow> bool) \<Rightarrow> 'a list \<Rightarrow> nat option" where
  "find_index P [] = None"
| "find_index P (x # xs) = (if P x then Some 0 else map_option Suc (find_index P xs))"

lemma find_index_Some:
  "find_index P xs = Some i \<Longrightarrow> i < length xs \<and> P (xs ! i) \<and> (\<forall>j < i. \<not> P (xs ! j))"
proof (induction xs arbitrary: i)
  case (Cons x xs)
  then show ?case
    by (cases i) (auto simp: less_Suc_eq_0_disj split: if_splits)
qed simp

lemma find_index_None: "find_index P xs = None \<longleftrightarrow> (\<forall>x\<in>set xs. \<not> P x)"
  by (induction xs) auto

lemma find_append:
  "List.find P (xs @ ys) = (case List.find P xs of None \<Rightarrow> List.find P ys | Some x \<Rightarrow> Some x)"
  by (induction xs) auto

lemma find_SomeD: "List.find P xs = Some x \<Longrightarrow> x \<in> set xs \<and> P x"
  by (induction xs) (auto split: if_splits)

lemma find_None_iff_all: "List.find P xs = None \<longleftrightarrow> (\<forall>x\<in>set xs. \<not> P x)"
  by (induction xs) auto

lemma find_unique:
  assumes "x \<in> set xs" and "P x" and "\<And>y. y \<in> set xs \<Longrightarrow> P y \<Longrightarrow> y = x"
  shows "List.find P xs = Some x"
proof (cases "List.find P xs")
  case None
  with assms(1,2) show ?thesis by (simp add: find_None_iff_all)
next
  case (Some y)
  then have "y \<in> set xs" and "P y" by (auto dest: find_SomeD)
  with Some assms(3) show ?thesis by simp
qed

lemma find_map: "List.find P (map f xs) = map_option f (List.find (\<lambda>x. P (f x)) xs)"
  by (induction xs) auto

lemma nat_str_digits: "\<forall>c \<in> set (nat_str n). of_char c \<in> {48..<58::nat}"
proof (induction n rule: nat_str.induct)
  case (1 n)
  then show ?case
    by (cases "n < 10") (auto simp: nat_str.simps [of n])
qed

lemma fst_indexed: "fst ` set (indexed xs) = nat_str ` {0..<length xs}"
proof -
  have "map fst (indexed xs) = map nat_str [0..<length xs]" by (simp add: indexed_def)
  then show ?thesis by (metis set_map set_upt)
qed

lemma nat_str_inj: "nat_str m = nat_str n \<Longrightarrow> m = n"
proof -
  have digit: "of_char (char_of (48 + d) :: char) = 48 + d" if "d < 10" for d :: nat
    using that by (simp only: of_char_of) simp
  have val: "foldl (\<lambda>a c. 10 * a + (of_char c - 48)) 0 (nat_str m) = m" for m
  proof (induction m rule: nat_str.induct)
    case (1 m)
    show ?case
    proof (cases "m < 10")
      case True
      then have "nat_str m = [char_of (48 + m)]" by (simp add: nat_str.simps [of m])
      with digit [OF True] show ?thesis by simp
    next
      case False
      then have "nat_str m = nat_str (m div 10) @ [char_of (48 + m mod 10)]"
        by (simp add: nat_str.simps [of m])
      with 1 [OF False] digit [of "m mod 10"] show ?thesis by simp
    qed
  qed
  show "nat_str m = nat_str n \<Longrightarrow> m = n" by (metis val)
qed

lemma keys_ok_indexed: "keys_ok (indexed xs)"
  by (auto simp: keys_ok_def indexed_def distinct_map intro!: inj_onI nat_str_inj)

section \<open>Interfaces\<close>

text \<open>
  A machine: a state, a step per event, and an invariant every step keeps. Its runs keep
  the invariant too.
\<close>

locale machine =
  fixes step :: "'s \<Rightarrow> 'e \<Rightarrow> 's"
    and inv :: "'s \<Rightarrow> bool"
  assumes step_inv: "inv s \<Longrightarrow> inv (step s e)"
begin

lemma run_inv: "inv s \<Longrightarrow> inv (foldl step s es)"
  by (induction es arbitrary: s) (auto simp: step_inv)

lemma run_prefix_inv: "inv s \<Longrightarrow> inv (foldl step s (take n es))"
  by (rule run_inv)

end

text \<open>
  A recursion given by fuel: once it has an answer, more fuel gives the same answer, so the
  answer does not depend on the fuel.
\<close>

locale fueled =
  fixes run :: "nat \<Rightarrow> 'a \<Rightarrow> 'b res"
  assumes more_fuel: "run n x \<noteq> Inl StackOverflow \<Longrightarrow> run (Suc n) x = run n x"
begin

lemma fuel_mono: "run n x \<noteq> Inl StackOverflow \<Longrightarrow> n \<le> m \<Longrightarrow> run m x = run n x"
proof (induction m)
  case (Suc m)
  then show ?case
    by (cases "n = Suc m") (auto simp: le_Suc_eq more_fuel)
qed simp

lemma answer_unique:
  assumes "run n x = Inr y" and "run m x = Inr z"
  shows "y = z"
proof -
  have "run (max n m) x = run n x" "run (max n m) x = run m x"
    using assms fuel_mono [of n x "max n m"] fuel_mono [of m x "max n m"] by auto
  with assms show ?thesis by simp
qed

end

text \<open>
  A machine that implements an abstract one: on the states and the events allowed, a step of the
  machine is the step of the specification, seen through the abstraction. So are its runs.
\<close>

locale implements =
  fixes step :: "'s \<Rightarrow> 'e \<Rightarrow> 's"
    and spec :: "'a \<Rightarrow> 'e \<Rightarrow> 'a"
    and abs :: "'s \<Rightarrow> 'a"
    and inv :: "'s \<Rightarrow> bool"
    and allowed :: "'e \<Rightarrow> bool"
  assumes step_keeps: "inv s \<Longrightarrow> allowed e \<Longrightarrow> inv (step s e)"
    and step_abs: "inv s \<Longrightarrow> allowed e \<Longrightarrow> abs (step s e) = spec (abs s) e"
begin

lemma run_keeps: "inv s \<Longrightarrow> list_all allowed es \<Longrightarrow> inv (foldl step s es)"
  by (induction es arbitrary: s) (auto simp: step_keeps)

lemma run_abs: "inv s \<Longrightarrow> list_all allowed es \<Longrightarrow> abs (foldl step s es) = foldl spec (abs s) es"
  by (induction es arbitrary: s) (auto simp: step_keeps step_abs)

end

text \<open>
  A machine that follows a relation: \<open>runs_to\<close> is a run of the relation. The relation says of each event what may be after it,
  in terms of the abstract state alone.
\<close>

fun runs_to :: "('a \<Rightarrow> 'e \<Rightarrow> 'a \<Rightarrow> bool) \<Rightarrow> 'a \<Rightarrow> 'e list \<Rightarrow> 'a \<Rightarrow> bool" where
  "runs_to R a [] b \<longleftrightarrow> b = a"
| "runs_to R a (e # es) b \<longleftrightarrow> (\<exists>c. R a e c \<and> runs_to R c es b)"

locale simulates =
  fixes step :: "'s \<Rightarrow> 'e \<Rightarrow> 's"
    and spec :: "'a \<Rightarrow> 'e \<Rightarrow> 'a \<Rightarrow> bool"
    and abs :: "'s \<Rightarrow> 'a"
    and inv :: "'s \<Rightarrow> bool"
  assumes step_keeps: "inv s \<Longrightarrow> inv (step s e)"
    and step_sim: "inv s \<Longrightarrow> spec (abs s) e (abs (step s e))"
begin

lemma run_stays: "inv s \<Longrightarrow> inv (foldl step s es)"
  by (induction es arbitrary: s) (auto simp: step_keeps)

lemma run_follows: "inv s \<Longrightarrow> runs_to spec (abs s) es (abs (foldl step s es))"
  by (induction es arbitrary: s) (auto intro: step_keeps step_sim)

end

end
