(* ===== verification/Workflow_Catalog.thy ===== *)
theory Workflow_Catalog
  imports Prelude
begin

text \<open>
  The catalogue of workflow nodes (\<open>extensions/workflows/models/Functions.js\<close>): the nodes
  the admin UI overrides, and \<open>NODES\<close>, which merges them with the documentation the server
  sends and with what extensions register. A catalogue entry is an object; its functions
  (renderers) are not data and are left out, and so are its labels and form schemas, which
  no code modelled here reads.
\<close>

section \<open>The overridden nodes\<close>

definition node_entry :: "string \<Rightarrow> string option \<Rightarrow> string list option \<Rightarrow> string list option \<Rightarrow> obj" where
  "node_entry k ty srcs tgts =
     [(''kind'', JStr k)]
     @ (case ty of None \<Rightarrow> [] | Some t \<Rightarrow> [(''type'', JStr t)])
     @ (case srcs of None \<Rightarrow> [] | Some s \<Rightarrow> [(''sources'', JArr (map JStr s))])
     @ (case tgts of None \<Rightarrow> [] | Some s \<Rightarrow> [(''targets'', JArr (map JStr s))])"

definition operator_entry :: "string \<Rightarrow> obj" where
  "operator_entry k = node_entry k None (Some [''output'']) None @ [(''operators'', JBool True)]"

definition ParallelAndSwitchTemplate :: "string \<Rightarrow> obj" where
  "ParallelAndSwitchTemplate k =
     node_entry k (Some ''group'') (Some []) (Some [])
     @ [(''sourcesIsArray'', JBool True), (''handlePrefix'', JStr ''path'')]"

definition OVERLOADED_NODES :: obj where
  "OVERLOADED_NODES = map (\<lambda>(k, e). (k, JObj e))
   [(''assign'', node_entry ''assign'' None (Some [''output'']) None),
    (''parallel'', ParallelAndSwitchTemplate ''parallel''),
    (''switch'', ParallelAndSwitchTemplate ''switch''),
    (''if'', node_entry ''if'' (Some ''group'') (Some [''then'', ''else'']) None),
    (''jump'', node_entry ''jump'' (Some ''group'') (Some [''to'', ''output'']) None),
    (''foreach'', node_entry ''foreach'' (Some ''group'') (Some [''ForEachLoop'', ''output'']) (Some [])),
    (''try'', node_entry ''try'' (Some ''group'') (Some [''try'', ''catch'', ''finally'']) (Some [])),
    (''map'', node_entry ''map'' (Some ''group'') (Some [''Item'', ''output'']) (Some [])),
    (''filter'', node_entry ''filter'' (Some ''group'') None (Some [''predicate''])),
    (''flatmap'', node_entry ''flatmap'' (Some ''group'') (Some [''Item'', ''output'']) (Some [])),
    (''call'', node_entry ''call'' None (Some [''output'']) None),
    (''wait'', node_entry ''wait'' None (Some [''output'']) None),
    (''value'', node_entry ''value'' None (Some [''output'']) None @ [(''name'', JStr ''Value'')]),
    (''returned'', node_entry ''returned'' None (Some [''output'']) None @ [(''name'', JStr ''Returned'')]),
    (''start'', node_entry ''start'' None (Some [''output'']) None @ [(''name'', JStr ''Start'')]),
    (''$mem_ref'', operator_entry ''$mem_ref''),
    (''$array_append'', operator_entry ''$array_append''),
    (''$array_drop'', operator_entry ''$$array_drop''),
    (''$array_prepend'', operator_entry ''$array_prepend''),
    (''$array_at'', operator_entry ''$array_at''),
    (''$array_del'', operator_entry ''$array_del''),
    (''$array_page'', node_entry ''$array_page'' None (Some [''output'']) None),
    (''$projection'', node_entry ''$projection'' None (Some [''output'']) None),
    (''$map_put'', operator_entry ''$map_put''),
    (''$map_get'', operator_entry ''$map_get''),
    (''$map_rename'', operator_entry ''$map_rename''),
    (''$map_is_empty'', operator_entry ''$map_is_empty''),
    (''$array_is_empty'', operator_entry ''$array_is_empty''),
    (''$map_del'', operator_entry ''$map_del''),
    (''$json_parse'', operator_entry ''$json_parse''),
    (''$is_truthy'', operator_entry ''$is_truthy''),
    (''$is_falsy'', operator_entry ''$is_falsy''),
    (''$contains'', operator_entry ''$contains''),
    (''$neq'', operator_entry ''$neq''),
    (''$encode_base64'', operator_entry ''$encode_base64''),
    (''$decode_base64'', operator_entry ''$decode_base64'' @ [(''name'', JStr ''Decode Base64'')]),
    (''$not'', operator_entry ''$not''),
    (''$str_split'', node_entry ''$str_split'' None (Some [''output'']) None),
    (''core.workflow_call'', [(''kind'', JStr ''core.workflow_call'')]),
    (''core.send_mail'', [(''kind'', JStr ''core.send_mail'')]),
    (''core.log'', [(''kind'', JStr ''core.log'')]),
    (''end'', node_entry ''end'' None (Some []) None),
    (''while'', node_entry ''while'' None (Some [''Loop Body'', ''output'']) None),
    (''async'', node_entry ''async'' (Some ''group'') (Some [''Async Task'', ''output'']) None),
    (''error'', node_entry ''error'' None (Some []) None)]"

section \<open>Merging with the documentation and the extensions\<close>

text \<open>What the server documents and what the extensions register, each a list of objects.\<close>

record catalog_input =
  c_nodes :: "obj list"
  c_functions :: "obj list"
  c_operators :: "obj list"

definition name_of :: "obj \<Rightarrow> js" where
  "name_of n = obj_get n ''name''"

text \<open>The property key a value is used as in \<open>o[v]\<close>.\<close>

definition key_of :: "js \<Rightarrow> string" where
  "key_of v = (case v of JStr s \<Rightarrow> s | JUndef \<Rightarrow> ''undefined'' | JNull \<Rightarrow> ''null'' | _ \<Rightarrow> ''[object Object]'')"

definition kind_or_name :: "obj \<Rightarrow> js" where
  "kind_or_name n = js_or (obj_get n ''kind'') (name_of n)"

definition outputs :: js where
  "outputs = JArr [JStr ''output'']"

definition default_values :: "catalog_input \<Rightarrow> obj list" where
  "default_values doc =
     map (\<lambda>n. spread n [(''nodes'', JBool True), (''sources'', outputs),
             (''schema'', obj_get n ''form_schema''), (''kind'', kind_or_name n)]) (c_nodes doc)
   @ map (\<lambda>n. spread n [(''category'', JStr ''functions''), (''sources'', outputs),
             (''schema'', obj_get n ''form_schema''), (''kind'', JStr ''Call'')]) (c_functions doc)
   @ map (\<lambda>n. spread n [(''operators'', JBool True), (''sources'', outputs),
             (''schema'', obj_get n ''form_schema''), (''kind'', kind_or_name n)]) (c_operators doc)"

text \<open>
  The extensions' nodes and operators are folded into an object keyed by name. Their
  functions go through \<open>map\<close> with a callback written for \<open>reduce\<close>: \<open>acc\<close> is the
  function, \<open>func\<close> its index, and the array that results is spread into the object, which
  keys the entries by index.
\<close>

definition ext_nodes :: "string \<Rightarrow> obj list \<Rightarrow> obj" where
  "ext_nodes flag ns = fold (\<lambda>n acc. AList.update (key_of (name_of n))
       (JObj (spread n [(flag, JBool True), (''schema'', obj_get n ''form_schema''),
                        (''kind'', kind_or_name n)])) acc) ns []"

definition ext_functions :: "obj list \<Rightarrow> obj" where
  "ext_functions fs = indexed (map (\<lambda>acc. JObj (spread acc
       [(''undefined'', JObj [(''category'', JStr ''functions''), (''schema'', JUndef)])])) fs)"

definition overload_entries :: "catalog_input \<Rightarrow> obj" where
  "overload_entries ext =
     ext_functions (c_functions ext)
     @ spread (spread OVERLOADED_NODES (ext_nodes ''node'' (c_nodes ext)))
              (ext_nodes ''operators'' (c_operators ext))"

text \<open>
  One entry of the merged object: the documented default with the same name, if any, is
  taken out of the remaining defaults and extended by the entry.
\<close>

definition merge_entry :: "obj option \<Rightarrow> js \<Rightarrow> obj" where
  "merge_entry d node =
     (let dv = (case d of None \<Rightarrow> [] | Some o' \<Rightarrow> o') in
      spread (spread dv (entries node))
        [(''kind'', js_or (obj_get dv ''kind'') (js_or (name_of dv)
            (js_or (jprop node ''name'') (jprop node ''kind''))))])"

fun merge_entries :: "obj list \<Rightarrow> obj \<Rightarrow> obj \<times> obj list" where
  "merge_entries dvs [] = ([], dvs)"
| "merge_entries dvs ((key, node) # rest) =
     (let d = List.find (\<lambda>n. name_of n = JStr key) dvs;
          dvs' = (case d of None \<Rightarrow> dvs | Some _ \<Rightarrow> filter (\<lambda>f. name_of f \<noteq> JStr key) dvs);
          (items, left) = merge_entries dvs' rest
      in ((key, JObj (merge_entry d node)) # items, left))"

text \<open>The defaults no entry took are added under their names, the first of a name winning.\<close>

definition add_default :: "obj \<Rightarrow> obj \<Rightarrow> obj" where
  "add_default node items =
     (if truthy (obj_get items (key_of (name_of node))) then items
      else AList.update (key_of (name_of node)) (JObj (spread node [(''kind'', kind_or_name node)])) items)"

definition NODES :: "catalog_input \<Rightarrow> catalog_input \<Rightarrow> obj" where
  "NODES doc ext =
     (let (items, left) = merge_entries (default_values doc) (overload_entries ext)
      in fold add_default left items)"

definition getNodeFromKind :: "obj \<Rightarrow> js \<Rightarrow> js option" where
  "getNodeFromKind nodes kind =
     List.find (\<lambda>n. jprop n ''kind'' = kind \<or> jprop n ''name'' = kind) (map snd nodes)"

section \<open>Categories\<close>

record category =
  cat_id :: js
  cat_nodes :: "js list"

definition getNodeCategory :: "category list \<Rightarrow> js \<Rightarrow> js" where
  "getNodeCategory cats node =
     (let c = jprop node ''category'' in
      if \<exists>cat \<in> set cats. cat_id cat = c then c
      else case List.find (\<lambda>cat. \<exists>n \<in> set (cat_nodes cat). n = jprop node ''kind'' \<and> truthy n) cats of
             None \<Rightarrow> c
           | Some _ \<Rightarrow> jprop node ''kind'')"

definition add_to_category :: "js \<Rightarrow> js \<Rightarrow> category \<Rightarrow> category" where
  "add_to_category c name cat =
     (if \<not> truthy c \<and> cat_id cat = JStr ''others'' \<or> cat_id cat = c
      then cat\<lparr>cat_nodes := cat_nodes cat @ [name]\<rparr> else cat)"

text \<open>\<open>sorted_cats\<close> are the categories after \<open>categories.sort\<close> by \<open>localeCompare\<close>.\<close>

definition NODES_BY_CATEGORIES :: "obj \<Rightarrow> category list \<Rightarrow> category list" where
  "NODES_BY_CATEGORIES nodes sorted_cats =
     fold (\<lambda>node cats. map (add_to_category (getNodeCategory cats node) (jprop node ''name'')) cats)
       (map snd nodes) sorted_cats"

section \<open>Properties\<close>

lemma key_of_JStr [simp]: "key_of (JStr s) = s"
  by (simp add: key_of_def)

text \<open>Taking the found default out is filtering by name, found or not.\<close>

lemma taken_default:
  "(case List.find (\<lambda>n. name_of n = JStr key) dvs of None \<Rightarrow> dvs
    | Some _ \<Rightarrow> filter (\<lambda>f. name_of f \<noteq> JStr key) dvs) = filter (\<lambda>f. name_of f \<noteq> JStr key) dvs"
proof (cases "List.find (\<lambda>n. name_of n = JStr key) dvs")
  case None
  then have "filter (\<lambda>f. name_of f \<noteq> JStr key) dvs = dvs"
    by (simp add: find_None_iff_all)
  with None show ?thesis by simp
qed simp

lemma merge_entries_Cons:
  "merge_entries dvs ((key, node) # rest) =
     (let r = merge_entries (filter (\<lambda>f. name_of f \<noteq> JStr key) dvs) rest
      in ((key, JObj (merge_entry (List.find (\<lambda>n. name_of n = JStr key) dvs) node)) # fst r, snd r))"
  by (simp add: taken_default Let_def split: prod.splits)

declare merge_entries.simps(2) [simp del]

lemma merge_entries_keys: "map fst (fst (merge_entries dvs es)) = map fst es"
proof (induction es arbitrary: dvs)
  case (Cons e es)
  then show ?case by (cases e) (simp add: merge_entries_Cons Let_def)
qed simp

lemma merge_entries_left:
  "set (snd (merge_entries dvs es)) = {n \<in> set dvs. \<forall>k \<in> fst ` set es. name_of n \<noteq> JStr k}"
proof (induction es arbitrary: dvs)
  case (Cons e es)
  then show ?case by (cases e) (auto simp: merge_entries_Cons Let_def)
qed simp

lemma update_fst_set: "fst ` set (AList.update k v al) = insert k (fst ` set al)"
  by (simp add: dom_update)

lemma obj_get_truthy_key: "truthy (obj_get o' k) \<Longrightarrow> k \<in> fst ` set o'"
  by (auto simp: obj_get_def dest: map_of_SomeD split: option.splits intro: rev_image_eqI)

lemma add_default_keys:
  "fst ` set (add_default n items) = insert (key_of (name_of n)) (fst ` set items)"
  using obj_get_truthy_key [of items "key_of (name_of n)"]
  by (auto simp: add_default_def update_fst_set)

lemma fold_add_default_keys:
  "fst ` set (fold add_default ns items) = (\<lambda>n. key_of (name_of n)) ` set ns \<union> fst ` set items"
  by (induction ns arbitrary: items) (simp_all add: add_default_keys)

text \<open>The keys of the merged catalogue are those of the entries and the documented names.\<close>

lemma NODES_keys:
  "fst ` set (NODES doc ext) = fst ` set (overload_entries ext)
     \<union> (\<lambda>n. key_of (name_of n)) ` set (default_values doc)"
proof -
  let ?dvs = "default_values doc" and ?es = "overload_entries ext"
  obtain items left where m: "merge_entries ?dvs ?es = (items, left)"
    by (cases "merge_entries ?dvs ?es")
  have "map fst items = map fst ?es"
    using merge_entries_keys [of ?dvs ?es] m by simp
  then have items: "fst ` set items = fst ` set ?es" by (metis set_map)
  have left: "set left = {n \<in> set ?dvs. \<forall>k \<in> fst ` set ?es. name_of n \<noteq> JStr k}"
    using merge_entries_left [of ?dvs ?es] m by simp
  have "fst ` set (NODES doc ext) = (\<lambda>n. key_of (name_of n)) ` set left \<union> fst ` set items"
    by (simp add: NODES_def m fold_add_default_keys)
  also have "\<dots> = fst ` set ?es \<union> (\<lambda>n. key_of (name_of n)) ` set ?dvs"
    unfolding items left by (auto simp: image_iff)
      (metis fst_conv key_of_JStr)
  finally show ?thesis .
qed

lemma ext_nodes_keys:
  "fst ` set (ext_nodes flag ns) = (\<lambda>n. key_of (name_of n)) ` set ns"
proof -
  have "fst ` set (fold (\<lambda>n acc. AList.update (key_of (name_of n)) (f n) acc) ns acc)
      = (\<lambda>n. key_of (name_of n)) ` set ns \<union> fst ` set acc" for f and acc :: obj
    by (induction ns arbitrary: acc) (simp_all add: update_fst_set)
  then show ?thesis by (simp add: ext_nodes_def)
qed

lemma spread_fst_set: "fst ` set (spread a b) = fst ` set a \<union> fst ` set b"
proof (induction b arbitrary: a)
  case (Cons e b)
  then show ?case by (cases e) (simp add: spread_Cons update_fst_set)
qed simp

lemma overload_entries_keys:
  "fst ` set (overload_entries ext) = nat_str ` {0..<length (c_functions ext)}
     \<union> fst ` set OVERLOADED_NODES \<union> (\<lambda>n. key_of (name_of n)) ` (set (c_nodes ext) \<union> set (c_operators ext))"
  by (simp add: overload_entries_def ext_functions_def fst_indexed spread_fst_set ext_nodes_keys
      image_Un Un_assoc)

lemma name_of_defaults:
  "name_of ` set (default_values doc)
     = name_of ` (set (c_nodes doc) \<union> set (c_functions doc) \<union> set (c_operators doc))"
proof -
  have n: "name_of (spread n b) = name_of n" if "keys_ok b" "\<not> obj_has b ''name''" for n b
    using that by (simp add: name_of_def obj_get_spread)
  show ?thesis
    by (simp add: default_values_def image_Un image_image n keys_ok_def obj_has_def Un_assoc)
qed

lemma NODES_key_iff:
  "k \<in> fst ` set (NODES doc ext) \<longleftrightarrow>
     k \<in> nat_str ` {0..<length (c_functions ext)} \<or> k \<in> fst ` set OVERLOADED_NODES
     \<or> k \<in> key_of ` name_of ` (set (c_nodes ext) \<union> set (c_operators ext))
     \<or> k \<in> key_of ` name_of ` (set (c_nodes doc) \<union> set (c_functions doc) \<union> set (c_operators doc))"
proof -
  have "(\<lambda>n. key_of (name_of n)) ` A = key_of ` name_of ` A" for A :: "obj set"
    by (simp add: image_image)
  then show ?thesis
    unfolding NODES_keys overload_entries_keys name_of_defaults [symmetric] by blast
qed

text \<open>
  A node kind is in the catalogue exactly when the UI overrides it, the server documents
  it under that name, or an extension registers a node or an operator of that name. (The
  functions an extension registers contribute the indexes of their list, not their names.)
\<close>

lemma catalog_domain:
  "obj_has (NODES doc ext) k \<longleftrightarrow>
     (\<exists>i < length (c_functions ext). k = nat_str i) \<or> obj_has OVERLOADED_NODES k
     \<or> (\<exists>n \<in> set (c_nodes ext) \<union> set (c_operators ext). k = key_of (name_of n))
     \<or> (\<exists>n \<in> set (c_nodes doc) \<union> set (c_functions doc) \<union> set (c_operators doc). k = key_of (name_of n))"
  unfolding obj_has_def NODES_key_iff by auto

text \<open>
  A function that only an extension registers is not in the catalogue under its own
  name: the callback passed to \<open>map\<close> is that of a \<open>reduce\<close>.
\<close>

lemma extension_function_unreachable:
  assumes "f \<in> set (c_functions ext)" and "name_of f = JStr k"
    and "\<forall>i. k \<noteq> nat_str i" and "\<not> obj_has OVERLOADED_NODES k"
    and "\<forall>n \<in> set (c_nodes ext) \<union> set (c_operators ext). key_of (name_of n) \<noteq> k"
    and "\<forall>n \<in> set (c_nodes doc) \<union> set (c_functions doc) \<union> set (c_operators doc). key_of (name_of n) \<noteq> k"
  shows "obj_get (NODES doc ext) k = JUndef"
proof -
  have "k \<notin> fst ` set (NODES doc ext)"
    unfolding NODES_key_iff using assms by (auto simp: obj_has_def)
  then show ?thesis by (simp add: obj_get_def map_of_eq_None_iff [THEN iffD2])
qed

definition no_catalog :: catalog_input where
  "no_catalog = \<lparr>c_nodes = [], c_functions = [], c_operators = []\<rparr>"

end
