(* ===== verification/Workflow_Graph.thy ===== *)
theory Workflow_Graph
  imports Workflow_Catalog
begin

text \<open>
  From a workflow's JSON to the designer's graph
  (\<open>extensions/workflows/WorkflowsDesigner.js\<close>): \<open>createNode\<close>, \<open>buildGraph\<close>,
  \<open>setupTargetsAndSources\<close> and \<open>initializeGraph\<close>.

  \<^item> A node is a record of the fields the designer reads; \<open>n_kind\<close> to \<open>n_content\<close> are
    the fields of its \<open>data\<close> (\<open>n_extra\<close> holds the keys of \<open>data\<close> that no
    other field does). Handles are given by their ids.
  \<^item> An absent \<open>targetId\<close> or \<open>handleId\<close> is the empty string (the code only tests them
    for truth).
  \<^item> \<open>uuid()\<close> is a parameter read at a counter that each call increments.
  \<^item> The extension overloads are parameters: functions of what they are called with.
  \<^item> \<open>buildGraph\<close> recurses on fuel; each of its branches is a definition of its own that
    takes the recursive call as an argument. \<open>buildGraph_terminates\<close> gives the fuel that
    is always enough.
\<close>

section \<open>Nodes and edges\<close>

definition INFORMATION_FIELDS :: "string list" where
  "INFORMATION_FIELDS =
     [''description'', ''kind'', ''enabled'', ''result'', ''name'', ''breakpoint'']"

definition splitInformationAndContent :: "js \<Rightarrow> obj \<times> obj" where
  "splitInformationAndContent v =
     fold (\<lambda>(key, value) (information, content).
             if key \<in> set INFORMATION_FIELDS then (AList.update key value information, content)
             else (information, AList.update key value content))
       (entries v) ([], [])"

record template =
  t_type :: js
  t_kind :: js
  t_category :: js
  t_display_name :: js
  t_description :: js
  t_sources :: "string list option"
  t_targets :: "string list option"

text \<open>A catalogue entry read as a template; \<open>None\<close> is an absent list of handles.\<close>

definition handle_names :: "js \<Rightarrow> string list option" where
  "handle_names v = (case v of JArr xs \<Rightarrow> Some (map key_of xs) | _ \<Rightarrow> None)"

definition template_of :: "js \<Rightarrow> template" where
  "template_of v = \<lparr>t_type = jprop v ''type'', t_kind = jprop v ''kind'',
     t_category = jprop v ''category'',
     t_display_name = jprop v ''display_name'', t_description = jprop v ''description'',
     t_sources = handle_names (jprop v ''sources''), t_targets = handle_names (jprop v ''targets'')\<rparr>"

definition catalog_lookup :: "obj \<Rightarrow> string \<Rightarrow> template option" where
  "catalog_lookup nodes k = map_option template_of (map_of nodes k)"

record wnode =
  n_id :: string
  n_type :: js
  n_position :: js
  n_kind :: js
  n_display_name :: js
  n_sources :: "string list"
  n_targets :: "string list"
  n_information :: obj
  n_content :: obj
  n_targetHandles :: "string list"
  n_sourceHandles :: "string list"
  n_custom :: "string list"
  n_functions :: bool
  n_style :: js
  n_measured :: js
  n_highlighted :: js
  n_error :: bool
  n_extra :: obj

record wedge =
  e_id :: string
  e_source :: string
  e_sourceHandle :: string
  e_target :: string
  e_targetHandle :: string
  e_highlighted :: bool
  e_error :: bool
  e_animated :: bool

type_synonym graph = "wnode list \<times> wedge list"

text \<open>The literal \<open>{id, source, sourceHandle, target, targetHandle, type: 'customEdge', animated: true}\<close>.\<close>

definition mk_edge :: "string \<Rightarrow> string \<Rightarrow> string \<Rightarrow> string \<Rightarrow> string \<Rightarrow> wedge" where
  "mk_edge i s sh t th = \<lparr>e_id = i, e_source = s, e_sourceHandle = sh, e_target = t,
     e_targetHandle = th, e_highlighted = False, e_error = False, e_animated = True\<rparr>"

definition dash :: "string \<Rightarrow> string \<Rightarrow> string" where
  "dash a b = a @ ''-'' @ b"

text \<open>\<open>(information.kind || information.name).toLowerCase()\<close>.\<close>

definition catalog_key :: "obj \<Rightarrow> string res" where
  "catalog_key information =
     (case js_or (obj_get information ''kind'') (obj_get information ''name'') of
        JStr s \<Rightarrow> Inr (toLowerCase s) | _ \<Rightarrow> Inl TypeError)"

definition origin :: js where
  "origin = JObj [(''x'', JNum 0), (''y'', JNum 0)]"

text \<open>The overload of a kind by an extension, called with the workflow, the target and
  handle, the node and its id, and the \<open>uuid\<close> counter.\<close>

type_synonym overload = "js \<Rightarrow> string \<Rightarrow> string \<Rightarrow> wnode \<Rightarrow> string \<Rightarrow> nat \<Rightarrow> (graph \<times> nat) res"

record genv =
  g_catalog :: "string \<Rightarrow> template option"
  g_uuid :: "nat \<Rightarrow> string"
  g_overload :: "string \<Rightarrow> overload option"

definition addInformationsToNode :: "wnode \<Rightarrow> wnode" where
  "addInformationsToNode n = n\<lparr>n_functions := True\<rparr>"

definition createNode :: "genv \<Rightarrow> string \<Rightarrow> js \<Rightarrow> wnode res" where
  "createNode env i child =
     (let (information, content) = splitInformationAndContent child;
          custom = jprop child ''customDisplayName''
      in rbind (catalog_key information) (\<lambda>key.
         let template = g_catalog env key;
             ty = (case template of None \<Rightarrow> JUndef | Some t \<Rightarrow> t_type t);
             node = \<lparr>n_id = i,
               n_type = js_or ty (JStr ''simple''),
               n_position = js_or (jprop child ''position'') origin,
               n_kind = (case template of None \<Rightarrow> JUndef | Some t \<Rightarrow> t_kind t),
               n_display_name = custom,
               n_sources = (case template of None \<Rightarrow> [''output'']
                  | Some t \<Rightarrow> (case t_sources t of None \<Rightarrow> [''output''] | Some s \<Rightarrow> s)),
               n_targets = (case template of None \<Rightarrow> []
                  | Some t \<Rightarrow> (case t_targets t of None \<Rightarrow> [] | Some s \<Rightarrow> s)),
               n_information = information, n_content = content,
               n_targetHandles = [], n_sourceHandles = [], n_custom = [],
               n_functions = False, n_style = JUndef, n_measured = JUndef, n_highlighted = JUndef, n_error = False,
               n_extra = []\<rparr>
         in if truthy custom then Inr (addInformationsToNode node)
            else case template of None \<Rightarrow> Inl TypeError
              | Some t \<Rightarrow> Inr (addInformationsToNode (node\<lparr>n_display_name := t_display_name t\<rparr>))))"

definition setupTargetsAndSources :: "wnode \<Rightarrow> wnode" where
  "setupTargetsAndSources n = n\<lparr>
     n_targetHandles := map (\<lambda>t. dash t (n_id n)) (n_targets n @ [''input'']),
     n_sourceHandles := n_custom n @ map (\<lambda>s. dash s (n_id n)) (n_sources n)\<rparr>"

section \<open>The branches of buildGraph\<close>

text \<open>
  \<open>bg\<close> is the recursive call: counter, workflows, \<open>targetId\<close>, \<open>handleId\<close>. A branch
  returns the current node, the nodes after it, the edges and the counter.
\<close>

type_synonym bg_rec = "nat \<Rightarrow> js list \<Rightarrow> string \<Rightarrow> string \<Rightarrow> (graph \<times> nat) res"
type_synonym bg_out = "(wnode \<times> wnode list \<times> wedge list \<times> nat) res"

definition steps_of :: "js \<Rightarrow> js list res" where
  "steps_of w = (case jprop w ''steps'' of JArr xs \<Rightarrow> Inr xs | _ \<Rightarrow> Inl TypeError)"

definition bg_workflow :: "genv \<Rightarrow> bg_rec \<Rightarrow> nat \<Rightarrow> js \<Rightarrow> string \<Rightarrow> string \<Rightarrow> string \<Rightarrow> (graph \<times> nat) res" where
  "bg_workflow env bg n w me tgt hid =
     (if truthy (jprop w ''returned'') then
        rbind (createNode env (me @ ''-returned-node'')
            (JObj [(''returned'', JObj (entries (jprop w ''returned''))), (''kind'', JStr ''returned'')])) (\<lambda>r.
        let r = r\<lparr>n_targetHandles := [dash ''input'' (n_id r)], n_sourceHandles := []\<rparr> in
        rbind (steps_of w) (\<lambda>steps.
        rbind (bg n (rev steps) (n_id r) '''') (\<lambda>((ns, es), n).
          Inr ((ns @ [r],
                es @ (if tgt \<noteq> [] \<and> hid \<noteq> []
                      then [mk_edge (tgt @ ''-returned-node'') (n_id r) (dash ''output'' (n_id r)) tgt hid]
                      else [])), n))))
      else
        rbind (steps_of w) (\<lambda>steps. bg n (rev steps) tgt hid))"

definition bg_jump :: "wnode \<Rightarrow> nat \<Rightarrow> js \<Rightarrow> string \<Rightarrow> bg_out" where
  "bg_jump cur n w me =
     (let to = jprop w ''to'' in
      Inr (cur, [], if truthy to
         then [mk_edge (dash me ''jump'') me (dash ''to'' me) (key_of to) (dash ''input'' (key_of to))]
         else [], n))"

text \<open>A sub-graph that may be absent: \<open>undefined\<close> without an argument.\<close>

definition bg_opt :: "bg_rec \<Rightarrow> nat \<Rightarrow> js \<Rightarrow> string \<Rightarrow> string \<Rightarrow> (graph \<times> nat) res" where
  "bg_opt bg n sub tgt hid = (if truthy sub then bg n [sub] tgt hid else Inr (([], []), n))"

definition branch_edge :: "string \<Rightarrow> string \<Rightarrow> wnode list \<Rightarrow> string \<Rightarrow> string \<Rightarrow> wedge list" where
  "branch_edge h me ns tgt hid =
     (case ns of
        first # _ \<Rightarrow> [mk_edge (dash me h) me (dash h me) (n_id first) (dash ''input'' (n_id first))]
      | [] \<Rightarrow> if tgt \<noteq> []
              then [mk_edge (dash me h) me (dash h me) tgt (if hid \<noteq> [] then hid else dash ''input'' tgt)]
              else [])"

definition bg_if :: "bg_rec \<Rightarrow> wnode \<Rightarrow> nat \<Rightarrow> js \<Rightarrow> string \<Rightarrow> string \<Rightarrow> string \<Rightarrow> bg_out" where
  "bg_if bg cur n w me tgt hid =
     rbind (bg_opt bg n (jprop w ''then'') tgt hid) (\<lambda>((tns, tes), n).
     rbind (bg_opt bg n (jprop w ''else'') tgt hid) (\<lambda>((ens, ees), n).
       let kt = (if tns \<noteq> [] then tes else []); ke = (if ens \<noteq> [] then ees else []) in
       Inr (cur, tns @ ens,
            kt @ ke @ branch_edge ''then'' me tns tgt hid @ branch_edge ''else'' me ens tgt hid, n)))"

definition first_source :: "wnode \<Rightarrow> string" where
  "first_source cur = (case n_sources cur of s # _ \<Rightarrow> s | [] \<Rightarrow> ''undefined'')"

definition bg_loop :: "bg_rec \<Rightarrow> wnode \<Rightarrow> nat \<Rightarrow> js \<Rightarrow> string \<Rightarrow> bg_out" where
  "bg_loop bg cur n w me =
     rbind (bg_opt bg n (jprop w ''node'') '''' '''') (\<lambda>((ns, es), n).
       case ns of [] \<Rightarrow> Inr (cur, [], [], n)
       | first # _ \<Rightarrow>
           Inr (cur, ns, es @ [mk_edge (dash me (first_source cur)) me (dash (first_source cur) me)
                                  (n_id first) (dash ''input'' (n_id first))], n))"

text \<open>\<open>loadSubNode(field, handle)\<close>.\<close>

definition loadSubNode :: "bg_rec \<Rightarrow> nat \<Rightarrow> js \<Rightarrow> string \<Rightarrow> string \<Rightarrow> string \<Rightarrow> string \<Rightarrow> (graph \<times> nat) res" where
  "loadSubNode bg n w me tgt field handle =
     rbind (bg_opt bg n (jprop w field) tgt '''') (\<lambda>((ns, es), n).
       case ns of [] \<Rightarrow> Inr (([], []), n)
       | first # _ \<Rightarrow>
           Inr ((ns, es @ [mk_edge (dash me handle) me (dash handle me) (n_id first)
                             (dash ''input'' (n_id first))]), n))"

definition bg_try :: "bg_rec \<Rightarrow> wnode \<Rightarrow> nat \<Rightarrow> js \<Rightarrow> string \<Rightarrow> string \<Rightarrow> bg_out" where
  "bg_try bg cur n w me tgt =
     rbind (loadSubNode bg n w me tgt ''node'' ''try'') (\<lambda>((ns1, es1), n).
     rbind (loadSubNode bg n w me tgt ''catch'' ''catch'') (\<lambda>((ns2, es2), n).
     rbind (loadSubNode bg n w me tgt ''finally'' ''finally'') (\<lambda>((ns3, es3), n).
       Inr (cur, ns1 @ ns2 @ ns3, es1 @ es2 @ es3, n))))"

text \<open>
  The elements and the length of \<open>workflow.paths\<close>: of an array, and of the truthy values
  that are not one (a string has characters but no \<open>node\<close> in them; \<open>[...Array(undefined)]\<close>
  has one element).
\<close>

definition paths_view :: "js \<Rightarrow> js list \<times> nat" where
  "paths_view v = (case v of JArr xs \<Rightarrow> (xs, length xs) | JStr s \<Rightarrow> ([], length s) | _ \<Rightarrow> ([], 1))"

definition path_id :: "nat \<Rightarrow> string" where
  "path_id i = ''path-'' @ nat_str i"

fun bg_paths :: "bg_rec \<Rightarrow> nat \<Rightarrow> nat \<Rightarrow> js list \<Rightarrow> string \<Rightarrow> string \<Rightarrow> ((nat \<times> graph) list \<times> nat) res" where
  "bg_paths bg n i [] tgt hid = Inr ([], n)"
| "bg_paths bg n i (p # ps) tgt hid =
     rbind (fld p ''node'') (\<lambda>sub.
     if truthy sub then
       rbind (bg n [sub] tgt hid) (\<lambda>(g, n).
       rbind (bg_paths bg n (Suc i) ps tgt hid) (\<lambda>(gs, n). Inr ((i, g) # gs, n)))
     else bg_paths bg n (Suc i) ps tgt hid)"

definition path_edges :: "string \<Rightarrow> nat \<times> graph \<Rightarrow> wedge list" where
  "path_edges me p = (case p of (i, (ns, es)) \<Rightarrow>
     (case ns of [] \<Rightarrow> []
      | first # _ \<Rightarrow> [mk_edge (dash me (path_id i)) me (path_id i) (n_id first)
                         (dash ''input'' (n_id first))]) @ es)"

definition bg_switch :: "bg_rec \<Rightarrow> wnode \<Rightarrow> nat \<Rightarrow> js \<Rightarrow> string \<Rightarrow> string \<Rightarrow> string \<Rightarrow> bg_out" where
  "bg_switch bg cur n w me tgt hid =
     (if truthy (jprop w ''paths'') then
        (let (ps, len) = paths_view (jprop w ''paths'') in
         rbind (bg_paths bg n 0 ps tgt hid) (\<lambda>(gs, n).
           Inr (cur\<lparr>n_custom := map path_id [0..<len]\<rparr>,
                concat (map (fst \<circ> snd) gs), concat (map (path_edges me) gs), n)))
      else Inr (cur, [], [], n))"

text \<open>\<open>{ kind, ...workflow.predicate[kind] }\<close> for an operator object, the predicate itself otherwise.\<close>

definition predicate_node :: "js \<Rightarrow> js" where
  "predicate_node p =
     (case p of
        JObj fs \<Rightarrow> (case List.find (\<lambda>e. startsWith (fst e) ''$'') fs of
            Some e \<Rightarrow> JObj (spread [(''kind'', JStr (fst e))] (entries (obj_get fs (fst e))))
          | None \<Rightarrow> p)
      | _ \<Rightarrow> p)"

definition bg_filter :: "bg_rec \<Rightarrow> wnode \<Rightarrow> nat \<Rightarrow> js \<Rightarrow> string \<Rightarrow> bg_out" where
  "bg_filter bg cur n w me =
     (if truthy (jprop w ''predicate'') then
        rbind (bg n [predicate_node (jprop w ''predicate'')] '''' '''') (\<lambda>((ns, es), n).
          if ns = [] then Inl TypeError
          else Inr (cur, ns, es @ [mk_edge (dash me ''predicate'') (n_id (last ns))
                 (dash ''output'' (n_id (last ns))) me (dash ''predicate'' me)], n))
      else Inr (cur, [], [], n))"

definition bg_branch :: "genv \<Rightarrow> bg_rec \<Rightarrow> wnode \<Rightarrow> nat \<Rightarrow> js \<Rightarrow> string \<Rightarrow> string \<Rightarrow> string \<Rightarrow> bg_out" where
  "bg_branch env bg cur n w me tgt hid =
     (let kind = jprop w ''kind'' in
      if kind = JStr ''jump'' then bg_jump cur n w me
      else if kind = JStr ''if'' then bg_if bg cur n w me tgt hid
      else if kind \<in> {JStr ''foreach'', JStr ''flatmap'', JStr ''map'', JStr ''async'', JStr ''while''}
      then bg_loop bg cur n w me
      else if kind = JStr ''try'' then bg_try bg cur n w me tgt
      else if kind \<in> {JStr ''switch'', JStr ''parallel''} then bg_switch bg cur n w me tgt hid
      else if kind = JStr ''filter'' then bg_filter bg cur n w me
      else case g_overload env (key_of kind) of
             None \<Rightarrow> Inr (cur, [], [], n)
           | Some ext \<Rightarrow> rbind (ext w tgt hid cur me n) (\<lambda>((ns, es), n). Inr (cur, ns, es, n)))"

text \<open>The edges from the node to \<open>targetId\<close>, once the branch is built.\<close>

fun open_path_edges :: "nat \<Rightarrow> js list \<Rightarrow> string \<Rightarrow> string \<Rightarrow> wedge list res" where
  "open_path_edges i [] me tgt = Inr []"
| "open_path_edges i (p # ps) me tgt =
     rbind (fld p ''node'') (\<lambda>sub.
     rbind (open_path_edges (Suc i) ps me tgt) (\<lambda>es.
       Inr ((if truthy sub then []
             else [mk_edge (dash me tgt) me (path_id i) tgt (dash ''input'' tgt)]) @ es)))"

definition output_edges :: "wnode \<Rightarrow> string \<Rightarrow> string \<Rightarrow> string \<Rightarrow> wedge list res" where
  "output_edges cur me tgt hid =
     (if ''output'' \<in> set (n_sources cur) then
        Inr [mk_edge (dash me tgt) me (dash (if hid \<noteq> [] then hid else ''output'') me) tgt (dash ''input'' tgt)]
      else let paths = obj_get (n_content cur) ''paths'' in
        if truthy paths then
          (case paths of JArr ps \<Rightarrow> open_path_edges 0 ps me tgt | _ \<Rightarrow> Inl TypeError)
        else Inr [])"

definition bg_step :: "genv \<Rightarrow> bg_rec \<Rightarrow> nat \<Rightarrow> js \<Rightarrow> js list \<Rightarrow> string \<Rightarrow> string \<Rightarrow> (graph \<times> nat) res" where
  "bg_step env bg n w rest tgt hid =
     (let fresh = \<not> truthy (jprop w ''id'');
          me = (if fresh then g_uuid env n else key_of (jprop w ''id''));
          n = (if fresh then Suc n else n);
          kind = jprop w ''kind''
      in if kind = JStr ''workflow'' then
           rbind (bg_workflow env bg n w me tgt hid) (\<lambda>((ns, es), n).
             Inr ((map setupTargetsAndSources ns, es), n))
         else
           rbind (createNode env me w) (\<lambda>cur.
           rbind (bg_branch env bg cur n w me tgt hid) (\<lambda>(cur', sub, es, n).
             let ns = map setupTargetsAndSources (cur' # sub);
                 useCurrent = \<not> (g_overload env (key_of kind) \<noteq> None
                    \<and> kind \<notin> {JStr ''jump'', JStr ''if'', JStr ''foreach'', JStr ''flatmap'', JStr ''map'',
                        JStr ''async'', JStr ''while'', JStr ''try'', JStr ''switch'', JStr ''parallel'', JStr ''filter''}
                    \<and> truthy (jprop w ''paths''))
             in if \<not> useCurrent then Inr ((ns, es), n)
                else rbind (if tgt \<noteq> [] then output_edges cur me tgt hid else Inr []) (\<lambda>out.
                     rbind (bg n rest me '''') (\<lambda>((rns, res), n).
                       Inr ((rns @ ns, res @ es @ out), n))))))"

fun buildGraph :: "genv \<Rightarrow> nat \<Rightarrow> nat \<Rightarrow> js list \<Rightarrow> string \<Rightarrow> string \<Rightarrow> (graph \<times> nat) res" where
  "buildGraph env 0 n ws tgt hid = Inl StackOverflow"
| "buildGraph env (Suc fuel) n ws tgt hid =
     (case ws of
        [] \<Rightarrow> Inr (([], []), n)
      | w # rest \<Rightarrow>
          if \<not> truthy w \<or> entries w = [] then Inr (([], []), n)
          else bg_step env (buildGraph env fuel) n w rest tgt hid)"

section \<open>The initial graph\<close>

record orphans =
  o_nodes :: "js list"
  o_edges :: "wedge list"

definition starting_node :: "genv \<Rightarrow> js \<Rightarrow> wnode res" where
  "starting_node env config =
     rbind (createNode env ''start'' (JObj
       [(''kind'', JStr ''start''), (''description'', jprop config ''description''),
        (''position'', js_or (jprop config ''position'') origin),
        (''breakpoint'', js_or (jprop config ''breakpoint'') (JBool False))])) (\<lambda>s.
       Inr (s\<lparr>n_targetHandles := [], n_sourceHandles := [dash ''output'' (n_id s)]\<rparr>))"

definition returned_node :: "genv \<Rightarrow> js \<Rightarrow> wnode res" where
  "returned_node env config =
     (let info = jprop config ''returnedInformation'' in
      rbind (createNode env ''returned-node'' (JObj
        [(''returned'', jprop config ''returned''), (''description'', jprop info ''description''),
         (''position'', jprop info ''position''), (''kind'', JStr ''returned'')])) (\<lambda>r.
        Inr (r\<lparr>n_position := js_or (jprop info ''position'') (n_position r),
               n_targetHandles := [''input-returned-node''], n_sourceHandles := []\<rparr>)))"

definition note_node :: "genv \<Rightarrow> js \<Rightarrow> wnode res" where
  "note_node env note =
     rbind (createNode env (key_of (jprop note ''id'')) note) (\<lambda>node.
       Inr (node\<lparr>n_position := jprop note ''position'',
         n_style := js_or (jprop note ''measured'')
           (JObj [(''width'', JNum 200), (''height'', JNum 200)])\<rparr>))"

definition orphan_node :: "genv \<Rightarrow> js \<Rightarrow> wnode res" where
  "orphan_node env orphan =
     rbind (createNode env (key_of (jprop orphan ''id'')) orphan) (\<lambda>node.
       Inr ((setupTargetsAndSources node)\<lparr>n_position := jprop orphan ''position''\<rparr>))"

definition starting_edge :: "wnode list \<Rightarrow> wedge" where
  "starting_edge ns =
     (case ns of
        [] \<Rightarrow> mk_edge ''start-edge'' ''start'' ''output-start'' ''returned-node'' ''input-returned-node''
      | first # _ \<Rightarrow> mk_edge ''start-edge'' ''start'' ''output-start'' (n_id first) (dash ''input'' (n_id first)))"

definition initializeGraph :: "genv \<Rightarrow> nat \<Rightarrow> nat \<Rightarrow> js \<Rightarrow> orphans \<Rightarrow> js list \<Rightarrow> graph res" where
  "initializeGraph env fuel n config orph notes =
     rbind (starting_node env config) (\<lambda>s.
     rbind (returned_node env config) (\<lambda>r.
     rbind (steps_of config) (\<lambda>steps.
     rbind (buildGraph env fuel n (rev steps) ''returned-node'' '''') (\<lambda>((ns, es), n).
     rbind (rmap (note_node env) notes) (\<lambda>note_ns.
     rbind (rmap (orphan_node env) (filter (\<lambda>f. truthy (jprop f ''kind'')) (o_nodes orph))) (\<lambda>orph_ns.
       Inr ([s] @ ns @ orph_ns @ [r] @ note_ns, es @ o_edges orph @ [starting_edge ns])))))))"

end
