(* ===== verification/Workflow_Json.thy ===== *)
theory Workflow_Json
  imports Workflow_Graph
begin

text \<open>
  From the designer's graph back to the workflow's JSON
  (\<open>extensions/workflows/WorkflowsDesigner.js\<close>): \<open>nodeToJson\<close>, \<open>graphToJson\<close> and what
  \<open>handleSave\<close> hands to the page.

  \<open>nodeToJson\<close> follows the edges and has no guard against cycles, so it recurses on fuel
  (the call stack) and each of its branches takes the recursive call as an argument.
  \<open>alreadySeen\<close> is an array of ids in which some calls nest whole arrays.
\<close>

section \<open>The pieces\<close>

datatype seen = Seen string | Group "seen list"

text \<open>
  (\<open>handleSave\<close> also tests \<open>node.kind !== 'note'\<close>; a node carries its kind in its
  \<open>data\<close>, so that test always passes.)
\<close>

text \<open>\<open>Array.prototype.flat()\<close>: one level.\<close>

fun flat1 :: "seen list \<Rightarrow> seen list" where
  "flat1 [] = []"
| "flat1 (Seen i # xs) = Seen i # flat1 xs"
| "flat1 (Group ys # xs) = ys @ flat1 xs"

text \<open>The canvas: the nodes and edges, and the extensions' \<open>nodeToJson\<close> per kind.\<close>

record canvas =
  c_ns :: "wnode list"
  c_es :: "wedge list"
  c_overload :: "string \<Rightarrow> (wnode \<Rightarrow> seen list \<Rightarrow> (js \<times> seen list) res) option"

type_synonym json_out = "(js \<times> seen list) res"

text \<open>The recursive call: node (\<open>None\<close> if \<open>find\<close> found none), current workflow,
  \<open>disableRecursion\<close>, \<open>alreadySeen\<close>.\<close>

type_synonym json_rec = "wnode option \<Rightarrow> js \<Rightarrow> bool \<Rightarrow> seen list \<Rightarrow> json_out"

definition find_node :: "canvas \<Rightarrow> string \<Rightarrow> wnode option" where
  "find_node g i = List.find (\<lambda>n. n_id n = i) (c_ns g)"

definition find_node_js :: "canvas \<Rightarrow> js \<Rightarrow> wnode option" where
  "find_node_js g v = List.find (\<lambda>n. JStr (n_id n) = v) (c_ns g)"

definition connections :: "canvas \<Rightarrow> wnode \<Rightarrow> wedge list" where
  "connections g node = filter (\<lambda>e. e_source e = n_id node) (c_es g)"

definition find_conn :: "string \<Rightarrow> wedge list \<Rightarrow> wedge option" where
  "find_conn p cs = List.find (\<lambda>c. startsWith (e_sourceHandle c) p) cs"

definition emptyWorkflow :: js where
  "emptyWorkflow = JObj [(''kind'', JStr ''workflow''), (''steps'', JArr [])]"

definition removeReturnedFromWorkflow :: "js \<times> seen list \<Rightarrow> json_out" where
  "removeReturnedFromWorkflow r =
     (case r of (w, seen) \<Rightarrow>
        rbind (fld w ''kind'') (\<lambda>kind.
          if kind = JStr ''workflow'' \<and> jprop w ''id'' \<noteq> JStr ''start''
          then Inr (JObj (spread (entries w) [(''returned'', JUndef)]), seen)
          else Inr (w, seen)))"

definition sub_json :: "canvas \<Rightarrow> json_rec \<Rightarrow> string \<Rightarrow> seen list \<Rightarrow> json_out" where
  "sub_json g rec target seen =
     rbind (rec (find_node g target) emptyWorkflow False seen) removeReturnedFromWorkflow"

text \<open>\<open>getNode(item, alreadySeen)\<close>, which pushes what it saw; \<open>undefined\<close> without an item.\<close>

definition getNode :: "canvas \<Rightarrow> json_rec \<Rightarrow> wedge option \<Rightarrow> seen list \<Rightarrow> json_out" where
  "getNode g rec item seen =
     (case item of None \<Rightarrow> Inr (JUndef, seen)
      | Some e \<Rightarrow> rbind (sub_json g rec (e_target e) seen) (\<lambda>(w, s). Inr (w, seen @ s)))"

text \<open>The same, with what it saw nested as one element.\<close>

definition getNested :: "canvas \<Rightarrow> json_rec \<Rightarrow> wedge option \<Rightarrow> seen list \<Rightarrow> json_out" where
  "getNested g rec item seen =
     (case item of None \<Rightarrow> Inr (JUndef, seen)
      | Some e \<Rightarrow> rbind (sub_json g rec (e_target e) seen) (\<lambda>(w, s). Inr (w, seen @ [Group s])))"

definition step_ids :: "js list \<Rightarrow> js list res" where
  "step_ids steps = rmap (\<lambda>s. fld s ''id'') steps"

section \<open>The branches of nodeToJson\<close>

text \<open>A branch returns the sub-flow, \<open>alreadySeen\<close> and \<open>nextNode\<close>.\<close>

type_synonym branch_out = "(js \<times> seen list \<times> wnode option) res"

definition json_jump :: "wnode \<Rightarrow> wedge list \<Rightarrow> seen list \<Rightarrow> branch_out" where
  "json_jump node cs seen =
     Inr (JObj (spread (n_content node)
       [(''to'', case find_conn ''to'' cs of None \<Rightarrow> JUndef | Some e \<Rightarrow> JStr (e_target e)),
        (''kind'', n_kind node)]), seen, None)"

text \<open>
  The steps both branches of an \<open>if\<close> end with are cut off both and continue after it:
  \<open>common_end\<close> is the index in the \<open>then\<close> steps of the first step the \<open>else\<close> steps have.
\<close>

definition cut_steps :: "js \<Rightarrow> nat \<Rightarrow> js list \<Rightarrow> js" where
  "cut_steps w i steps = JObj (AList.update ''steps'' (JArr (take i steps)) (entries w))"

definition factor_common :: "canvas \<Rightarrow> js \<Rightarrow> js \<Rightarrow> (js \<times> js \<times> wnode option) res" where
  "factor_common g thenNode elseNode =
     rbind (if truthy elseNode then steps_of elseNode else Inr []) (\<lambda>esteps.
     rbind (step_ids esteps) (\<lambda>eids.
     rbind (if truthy thenNode then steps_of thenNode else Inr []) (\<lambda>tsteps.
     rbind (step_ids tsteps) (\<lambda>tids.
       case find_index (\<lambda>i. i \<in> set eids) tids of
         None \<Rightarrow> Inr (thenNode, elseNode, None)
       | Some c \<Rightarrow>
           (case find_index (\<lambda>i. i \<in> set tids) eids of
              None \<Rightarrow> Inr (thenNode, elseNode, None)
            | Some d \<Rightarrow> Inr (cut_steps thenNode c tsteps, cut_steps elseNode d esteps,
                             find_node_js g (tids ! c)))))))"

definition json_if :: "canvas \<Rightarrow> json_rec \<Rightarrow> wnode \<Rightarrow> wedge list \<Rightarrow> seen list \<Rightarrow> branch_out" where
  "json_if g rec node cs seen =
     rbind (getNested g rec (find_conn ''then'' cs) seen) (\<lambda>(thenNode, seen).
     rbind (getNested g rec (find_conn ''else'' cs) seen) (\<lambda>(elseNode, seen).
     rbind (factor_common g thenNode elseNode) (\<lambda>(thenNode, elseNode, next_node).
       Inr (JObj (spread (n_content node)
              [(''then'', thenNode), (''else'', elseNode), (''kind'', n_kind node)]),
            seen, next_node))))"

definition json_try :: "canvas \<Rightarrow> json_rec \<Rightarrow> wnode \<Rightarrow> wedge list \<Rightarrow> seen list \<Rightarrow> branch_out" where
  "json_try g rec node cs seen =
     rbind (getNode g rec (find_conn ''try'' cs) seen) (\<lambda>(tryNode, seen).
     rbind (getNode g rec (find_conn ''catch'' cs) seen) (\<lambda>(catchNode, seen).
     rbind (getNode g rec (find_conn ''finally'' cs) seen) (\<lambda>(finallyNode, seen).
       Inr (JObj (spread (n_content node)
              [(''kind'', n_kind node), (''node'', tryNode), (''catch'', catchNode),
               (''finally'', finallyNode)]), seen, None))))"

definition loop_handle :: "js \<Rightarrow> string" where
  "loop_handle kind =
     (if kind = JStr ''foreach'' then ''ForEachLoop''
      else if kind = JStr ''async'' then ''Async Task'' else ''Loop Body'')"

definition json_loop :: "canvas \<Rightarrow> json_rec \<Rightarrow> wnode \<Rightarrow> wedge list \<Rightarrow> seen list \<Rightarrow> branch_out" where
  "json_loop g rec node cs seen =
     (let item = find_conn (loop_handle (n_kind node)) cs;
          subflow = spread (n_content node) [(''kind'', n_kind node)]
      in rbind (getNode g rec item seen) (\<lambda>(w, seen).
           Inr (JObj (if item = None then subflow else spread subflow [(''node'', w)]), seen, None)))"

definition json_map :: "canvas \<Rightarrow> json_rec \<Rightarrow> wnode \<Rightarrow> wedge list \<Rightarrow> seen list \<Rightarrow> branch_out" where
  "json_map g rec node cs seen =
     (let item = find_conn ''Item'' cs in
      rbind (getNested g rec item seen) (\<lambda>(w, seen).
        if item = None then Inr (JObj (spread (n_content node) [(''kind'', n_kind node)]), seen, None)
        else rbind (steps_of w) (\<lambda>steps.
          Inr (JObj (spread (n_content node)
                 [(''node'', if length steps = 1 then hd steps else w), (''kind'', n_kind node)]),
               seen, None))))"

definition json_filter :: "canvas \<Rightarrow> json_rec \<Rightarrow> wnode \<Rightarrow> seen list \<Rightarrow> branch_out" where
  "json_filter g rec node seen =
     (case List.find (\<lambda>e. startsWith (e_targetHandle e) ''predicate'')
             (filter (\<lambda>e. e_target e = n_id node) (c_es g)) of
        None \<Rightarrow> Inr (JObj (spread (n_content node) [(''kind'', n_kind node)]), seen, None)
      | Some e \<Rightarrow>
          rbind (rec (find_node g (e_source e)) JUndef True seen) (\<lambda>r.
          rbind (removeReturnedFromWorkflow r) (\<lambda>(w, s).
            Inr (JObj (spread (n_content node) [(''predicate'', w), (''kind'', n_kind node)]),
                 seen @ [Group s], None))))"

definition content_path :: "wnode \<Rightarrow> nat \<Rightarrow> js res" where
  "content_path node i =
     (case obj_get (n_content node) ''paths'' of
        JArr ps \<Rightarrow> Inr (if i < length ps then ps ! i else JUndef)
      | JStr s \<Rightarrow> Inr (if i < length s then JStr [s ! i] else JUndef)
      | v \<Rightarrow> if nullish v then Inl TypeError else Inr JUndef)"

definition path_target :: "js \<Rightarrow> js res" where
  "path_target w =
     (if jprop w ''kind'' = JStr ''workflow''
      then rbind (steps_of w) (\<lambda>steps.
             Inr (case steps of [] \<Rightarrow> JUndef | [s] \<Rightarrow> s | _ \<Rightarrow> w))
      else Inr w)"

fun json_paths :: "canvas \<Rightarrow> json_rec \<Rightarrow> wnode \<Rightarrow> wedge list \<Rightarrow> nat \<Rightarrow> string list \<Rightarrow> seen list
    \<Rightarrow> (js list \<times> seen list) res" where
  "json_paths g rec node cs i [] seen = Inr ([], seen)"
| "json_paths g rec node cs i (h # hs) seen =
     (case List.find (\<lambda>c. e_sourceHandle c = h) cs of
        None \<Rightarrow>
          rbind (content_path node i) (\<lambda>p.
            if nullish p then Inl TypeError
            else rbind (json_paths g rec node cs (Suc i) hs seen) (\<lambda>(ps, seen).
                   Inr (JObj (obj_del ''node'' (entries p)) # ps, seen)))
      | Some e \<Rightarrow>
          rbind (sub_json g rec (e_target e) seen) (\<lambda>(w, s).
          rbind (content_path node i) (\<lambda>p.
          rbind (path_target w) (\<lambda>node'.
          rbind (json_paths g rec node cs (Suc i) hs (seen @ [Group s])) (\<lambda>(ps, seen).
            Inr (JObj (spread (entries p) [(''node'', node')]) # ps, seen))))))"

definition path_ids :: "js \<Rightarrow> js list res" where
  "path_ids w =
     (if jprop w ''kind'' = JStr ''workflow''
      then (case jprop w ''steps'' of
              JArr steps \<Rightarrow> step_ids steps
            | v \<Rightarrow> if nullish v then Inr [] else Inl TypeError)
      else Inr [jprop w ''id''])"

text \<open>A set keeps each id where it came first.\<close>

definition findCommonIds :: "js list list \<Rightarrow> js list" where
  "findCommonIds ids =
     (case ids of [] \<Rightarrow> [] | first # others \<Rightarrow>
        fold (\<lambda>cur common. filter (\<lambda>i. i \<in> set cur) common) others (rev (remdups (rev first))))"

text \<open>A path once the common tail is factored out: its sub-flow up to the tail.\<close>

definition cut_path :: "js \<Rightarrow> js \<Rightarrow> js res" where
  "cut_path commonId path =
     rbind (fld path ''node'') (\<lambda>node.
     rbind (fld node ''kind'') (\<lambda>kind.
       if kind = JStr ''workflow'' then
         rbind (steps_of node) (\<lambda>steps.
         rbind (step_ids steps) (\<lambda>ids.
           let kept = (case find_index (\<lambda>i. i = commonId) ids of
                         Some c \<Rightarrow> take c steps | None \<Rightarrow> butlast steps)
           in Inr (JObj [(''node'', JObj (spread (entries node) [(''steps'', JArr kept)]))])))
       else Inr emptyWorkflow))"

definition json_switch :: "canvas \<Rightarrow> json_rec \<Rightarrow> wnode \<Rightarrow> wedge list \<Rightarrow> seen list \<Rightarrow> branch_out" where
  "json_switch g rec node cs seen =
     rbind (json_paths g rec node cs 0 (n_sourceHandles node) seen) (\<lambda>(paths, seen).
     rbind (rmap path_ids (filter truthy (map (\<lambda>p. jprop p ''node'') paths))) (\<lambda>ids.
       let flow = (\<lambda>ps. JObj (spread (n_content node) [(''paths'', JArr ps), (''kind'', n_kind node)])) in
       case findCommonIds ids of
         [] \<Rightarrow> Inr (flow paths, seen, None)
       | commonId # _ \<Rightarrow>
           rbind (rmap (cut_path commonId) paths) (\<lambda>cut.
             Inr (flow cut, seen, find_node_js g commonId))))"

definition json_branch :: "canvas \<Rightarrow> json_rec \<Rightarrow> wnode \<Rightarrow> wedge list \<Rightarrow> seen list \<Rightarrow> branch_out" where
  "json_branch g rec node cs seen =
     (let kind = n_kind node in
      if kind = JStr ''jump'' then json_jump node cs seen
      else if kind = JStr ''if'' then json_if g rec node cs seen
      else if kind = JStr ''try'' then json_try g rec node cs seen
      else if kind \<in> {JStr ''foreach'', JStr ''async'', JStr ''while''} then json_loop g rec node cs seen
      else if kind \<in> {JStr ''map'', JStr ''flatmap''} then json_map g rec node cs seen
      else if kind = JStr ''filter'' then json_filter g rec node seen
      else if kind \<in> {JStr ''parallel'', JStr ''switch''} then json_switch g rec node cs seen
      else case c_overload g (key_of kind) of
             Some ext \<Rightarrow> rbind (ext node seen) (\<lambda>(flow, seen). Inr (flow, seen, None))
           | None \<Rightarrow> Inr (JObj (spread (n_content node) [(''id'', JStr (n_id node)), (''kind'', kind)]),
                         seen, None))"

definition output_workflow :: "wnode \<Rightarrow> js \<Rightarrow> js" where
  "output_workflow node subflow =
     (if truthy subflow then
        JObj (spread (spread (spread (n_content node) (n_information node)) (entries subflow))
          [(''id'', JStr (n_id node)), (''kind'', n_kind node), (''position'', n_position node)])
      else JUndef)"

definition append_step :: "js \<Rightarrow> js \<Rightarrow> js res" where
  "append_step cur out =
     (if truthy cur \<and> jprop cur ''kind'' = JStr ''workflow'' then
        rbind (steps_of cur) (\<lambda>steps.
          Inr (JObj (spread (entries cur) [(''steps'', JArr (steps @ [out]))])))
      else Inr out)"

definition json_step :: "canvas \<Rightarrow> json_rec \<Rightarrow> wnode \<Rightarrow> js \<Rightarrow> bool \<Rightarrow> seen list \<Rightarrow> bool \<Rightarrow> json_out" where
  "json_step g rec node cur disable seen isStart =
     (let cs = connections g node; seen = seen @ [Seen (n_id node)] in
      if endsWith (n_id node) ''returned-node'' then
        Inr (JObj (spread (entries cur)
               [(''returned'', obj_get (n_content node) ''returned''), (''position'', n_position node)]), seen)
      else
        rbind (json_branch g rec node cs seen) (\<lambda>(subflow, seen, next_node).
        rbind (append_step cur (output_workflow node subflow)) (\<lambda>out.
          case next_node of
            Some nx \<Rightarrow> rbind (rec (Some nx) out False seen) removeReturnedFromWorkflow
          | None \<Rightarrow>
              (case (if disable then None else find_conn ''output'' cs) of
                 Some e \<Rightarrow> rbind (rec (find_node g (e_target e)) out False seen) removeReturnedFromWorkflow
               | None \<Rightarrow> if isStart then Inr (out, seen) else removeReturnedFromWorkflow (out, seen)))))"

fun nodeToJson :: "canvas \<Rightarrow> nat \<Rightarrow> wnode option \<Rightarrow> js \<Rightarrow> bool \<Rightarrow> seen list \<Rightarrow> bool \<Rightarrow> json_out" where
  "nodeToJson g 0 node cur disable seen isStart = Inl StackOverflow"
| "nodeToJson g (Suc fuel) None cur disable seen isStart = Inl TypeError"
| "nodeToJson g (Suc fuel) (Some node) cur disable seen isStart =
     json_step g (\<lambda>nd cur dis seen. nodeToJson g fuel nd cur dis seen False) node cur disable seen isStart"

section \<open>Saving\<close>

definition start_json :: "wnode \<Rightarrow> wnode \<Rightarrow> js" where
  "start_json startNode lastNode = JObj
     [(''kind'', JStr ''workflow''), (''steps'', JArr []),
      (''returned'', obj_get (n_content lastNode) ''returned''), (''id'', JStr ''start''),
      (''description'', obj_get (n_information startNode) ''description''),
      (''breakpoint'', obj_get (n_information startNode) ''breakpoint''),
      (''position'', n_position startNode)]"

definition graphToJson :: "canvas \<Rightarrow> nat \<Rightarrow> json_out" where
  "graphToJson g fuel =
     (case (find_node g ''returned-node'', find_node g ''start'') of
        (Some lastNode, Some startNode) \<Rightarrow>
          (let start = start_json startNode lastNode in
           case List.find (\<lambda>e. e_source e = ''start'') (c_es g) of
             None \<Rightarrow> Inr (start, [])
           | Some e \<Rightarrow>
               rbind (nodeToJson g fuel (find_node g (e_target e)) start False [] True) (\<lambda>(w, seen).
               rbind (fld w ''returned'') (\<lambda>ret.
                 Inr (JObj (spread (spread (entries w) [(''position'', n_position startNode)])
                        [(''returned'', ret),
                         (''returnedInformation'', JObj
                            [(''position'', n_position lastNode),
                             (''description'', obj_get (n_information lastNode) ''description'')])]), seen))))
      | _ \<Rightarrow> Inl TypeError)"

record saved =
  s_config :: js
  s_orphans :: "js list"
  s_orphan_edges :: "wedge list"
  s_notes :: "js list"

definition has_out_edge :: "canvas \<Rightarrow> wnode \<Rightarrow> bool" where
  "has_out_edge g n \<longleftrightarrow> (\<exists>e \<in> set (c_es g). e_source e = n_id n)"

definition orphans_of :: "canvas \<Rightarrow> seen list \<Rightarrow> wnode list" where
  "orphans_of g already =
     filter (\<lambda>n. n_id n \<noteq> ''start'' \<and> n_id n \<noteq> ''returned-node'' \<and> Seen (n_id n) \<notin> set already) (c_ns g)"

definition orphan_edges :: "canvas \<Rightarrow> wnode list \<Rightarrow> wedge list" where
  "orphan_edges g orph =
     foldl (\<lambda>es e. if (\<forall>x \<in> set es. e_id x \<noteq> e_id e) \<and> e_id e \<noteq> ''start-edge'' then es @ [e] else es) []
       (concat (map (\<lambda>o'. filter (\<lambda>e. e_target e = n_id o' \<or> e_source e = n_id o') (c_es g))
          (filter (has_out_edge g) orph)))"

definition orphan_json :: "wnode \<Rightarrow> js" where
  "orphan_json r = JObj (spread (spread (spread [(''id'', JStr (n_id r))] (n_content r)) (n_information r))
     [(''position'', n_position r), (''kind'', n_kind r)])"

definition note_json :: "wnode \<Rightarrow> js" where
  "note_json r = JObj (spread (spread [(''id'', JStr (n_id r))] (n_content r))
     [(''position'', n_position r), (''measured'', n_measured r), (''kind'', n_kind r)])"

definition handleSave :: "canvas \<Rightarrow> nat \<Rightarrow> saved res" where
  "handleSave g fuel =
     rbind (graphToJson g fuel) (\<lambda>(config, seen).
       let orph = orphans_of g (flat1 seen);
           notes = filter (\<lambda>n. n_type n = JStr ''note'' \<or> n_kind n = JStr ''note'') (c_ns g)
       in Inr \<lparr>s_config = config,
            s_orphans = map orphan_json (filter (has_out_edge g) orph),
            s_orphan_edges = orphan_edges g orph,
            s_notes = map note_json notes\<rparr>)"

end
