(* ===== verification/Workflow_Graph_Facts.thy ===== *)
theory Workflow_Graph_Facts
  imports Workflow_Graph
begin

text \<open>
  What the graph builder guarantees: it always returns, its result does not depend on the
  fuel, its edges join nodes it built, and what it does on a list of plain steps.
\<close>

section \<open>Fuel\<close>

text \<open>A more defined recursive call gives a more defined branch.\<close>

lemma bg_paths_le:
  "(\<And>n ws t h. le_res (bg n ws t h) (bg' n ws t h)) \<Longrightarrow>
     le_res (bg_paths bg n i ps tgt hid) (bg_paths bg' n i ps tgt hid)"
proof (induction ps arbitrary: n i)
  case (Cons p ps)
  have "le_res (bg_paths bg n i ps tgt hid) (bg_paths bg' n i ps tgt hid)" for n i
    using Cons by simp
  with Cons.prems show ?case by (simp add: le_res_bind split: prod.split)
qed simp

lemma bg_opt_le:
  "(\<And>n ws t h. le_res (bg n ws t h) (bg' n ws t h)) \<Longrightarrow> le_res (bg_opt bg n w t h) (bg_opt bg' n w t h)"
  by (simp add: bg_opt_def)

lemma loadSubNode_le:
  "(\<And>n ws t h. le_res (bg n ws t h) (bg' n ws t h)) \<Longrightarrow>
     le_res (loadSubNode bg n w me t f hl) (loadSubNode bg' n w me t f hl)"
  unfolding loadSubNode_def by (intro fuel_intros bg_opt_le)

lemma bg_if_le:
  "(\<And>n ws t h. le_res (bg n ws t h) (bg' n ws t h)) \<Longrightarrow>
     le_res (bg_if bg cur n w me t h) (bg_if bg' cur n w me t h)"
  unfolding bg_if_def by (auto intro!: le_res_bind bg_opt_le split: prod.split)

lemma bg_loop_le:
  "(\<And>n ws t h. le_res (bg n ws t h) (bg' n ws t h)) \<Longrightarrow>
     le_res (bg_loop bg cur n w me) (bg_loop bg' cur n w me)"
  unfolding bg_loop_def by (intro fuel_intros bg_opt_le)

lemma bg_try_le:
  "(\<And>n ws t h. le_res (bg n ws t h) (bg' n ws t h)) \<Longrightarrow>
     le_res (bg_try bg cur n w me t) (bg_try bg' cur n w me t)"
  unfolding bg_try_def by (auto intro!: le_res_bind loadSubNode_le split: prod.split)

lemma bg_switch_le:
  "(\<And>n ws t h. le_res (bg n ws t h) (bg' n ws t h)) \<Longrightarrow>
     le_res (bg_switch bg cur n w me t h) (bg_switch bg' cur n w me t h)"
  unfolding bg_switch_def by (auto intro!: le_res_bind bg_paths_le split: prod.split)

lemma bg_filter_le:
  "(\<And>n ws t h. le_res (bg n ws t h) (bg' n ws t h)) \<Longrightarrow>
     le_res (bg_filter bg cur n w me) (bg_filter bg' cur n w me)"
  unfolding bg_filter_def by (simp add: le_res_bind)

lemma bg_branch_le:
  assumes "\<And>n ws t h. le_res (bg n ws t h) (bg' n ws t h)"
  shows "le_res (bg_branch env bg cur n w me tgt hid) (bg_branch env bg' cur n w me tgt hid)"
  unfolding bg_branch_def Let_def
  by (simp add: assms bg_if_le bg_loop_le bg_try_le bg_switch_le bg_filter_le)

lemma bg_workflow_le:
  assumes "\<And>n ws t h. le_res (bg n ws t h) (bg' n ws t h)"
  shows "le_res (bg_workflow env bg n w me tgt hid) (bg_workflow env bg' n w me tgt hid)"
  unfolding bg_workflow_def Let_def
  by (simp add: assms le_res_bind)

lemma bg_step_le:
  assumes "\<And>n ws t h. le_res (bg n ws t h) (bg' n ws t h)"
  shows "le_res (bg_step env bg n w rest tgt hid) (bg_step env bg' n w rest tgt hid)"
  unfolding bg_step_def Let_def
  by (auto intro!: le_res_bind assms bg_workflow_le bg_branch_le split: prod.split)

lemma buildGraph_more_fuel:
  "le_res (buildGraph env fuel n ws tgt hid) (buildGraph env (Suc fuel) n ws tgt hid)"
proof (induction fuel arbitrary: n ws tgt hid)
  case 0
  then show ?case by (simp add: le_res_def)
next
  case (Suc fuel)
  show ?case
    by (cases ws) (auto intro!: bg_step_le Suc.IH)
qed

interpretation build: fueled "\<lambda>fuel (n, ws, tgt, hid). buildGraph env fuel n ws tgt hid" for env
proof
  fix fuel x
  assume "(case x of (n, ws, tgt, hid) \<Rightarrow> buildGraph env fuel n ws tgt hid) \<noteq> Inl StackOverflow"
  then show "(case x of (n, ws, tgt, hid) \<Rightarrow> buildGraph env (Suc fuel) n ws tgt hid)
      = (case x of (n, ws, tgt, hid) \<Rightarrow> buildGraph env fuel n ws tgt hid)"
    using buildGraph_more_fuel by (cases x) (metis (no_types, lifting) case_prod_conv le_res_def)
qed

subsection \<open>How much fuel is enough\<close>

fun weight :: "js \<Rightarrow> nat" where
  "weight (JArr xs) = 1 + (\<Sum>x\<leftarrow>xs. 1 + weight x)"
| "weight (JObj fs) = 1 + (\<Sum>e\<leftarrow>fs. 1 + weight (snd e))"
| "weight _ = 1"

definition steps_weight :: "js list \<Rightarrow> nat" where
  "steps_weight ws = (\<Sum>w\<leftarrow>ws. 1 + weight w)"

lemma weight_pos: "0 < weight v"
  by (cases v) auto

lemma weight_obj_get: "(k, v) \<in> set fs \<Longrightarrow> weight v + 1 \<le> (\<Sum>e\<leftarrow>fs. 1 + weight (snd e))"
  by (induction fs) auto

lemma weight_prop: "truthy (jprop w k) \<Longrightarrow> weight (jprop w k) + 2 \<le> weight w"
proof -
  assume t: "truthy (jprop w k)"
  then obtain fs where w: "w = JObj fs" by (cases w) (auto simp: jprop_def)
  with t obtain v where v: "map_of fs k = Some v" "jprop w k = v"
    by (auto simp: obj_get_def split: option.splits)
  from v(1) have "weight v + 1 \<le> (\<Sum>e\<leftarrow>fs. 1 + weight (snd e))"
    by (intro weight_obj_get) (auto dest: map_of_SomeD)
  with v w show ?thesis by simp
qed

lemma steps_weight_Cons [simp]: "steps_weight (w # ws) = 1 + weight w + steps_weight ws"
  by (simp add: steps_weight_def)

lemma steps_weight_Nil [simp]: "steps_weight [] = 0"
  by (simp add: steps_weight_def)

lemma steps_weight_rev [simp]: "steps_weight (rev ws) = steps_weight ws"
  by (simp add: steps_weight_def rev_map [symmetric])

lemma weight_JArr [simp]: "weight (JArr xs) = 1 + steps_weight xs"
  by (simp add: steps_weight_def)

declare weight.simps(1) [simp del]

lemma steps_of_weight: "steps_of w = Inr steps \<Longrightarrow> steps_weight steps < weight w"
  using weight_prop [of w "''steps''"]
  by (auto simp: steps_of_def split: js.splits)

definition entries_weight :: "obj \<Rightarrow> nat" where
  "entries_weight fs = (\<Sum>e\<leftarrow>fs. 1 + weight (snd e))"

lemma entries_weight_update: "entries_weight (AList.update k v fs) \<le> entries_weight fs + 1 + weight v"
  by (induction fs) (auto simp: entries_weight_def)

lemma entries_weight_spread: "entries_weight (spread a b) \<le> entries_weight a + entries_weight b"
proof (induction b arbitrary: a)
  case (Cons e b)
  obtain k v where e: "e = (k, v)" by (cases e)
  have "entries_weight (spread a (e # b)) \<le> entries_weight (AList.update k v a) + entries_weight b"
    by (simp add: e spread_Cons Cons.IH)
  also have "\<dots> \<le> entries_weight a + entries_weight (e # b)"
    using entries_weight_update [of k v a] by (simp add: e entries_weight_def)
  finally show ?case .
qed (simp add: entries_weight_def)

lemma entries_weight_indexed: "entries_weight (indexed xs) = steps_weight xs"
proof -
  have "map (\<lambda>e. 1 + weight (snd e)) (indexed xs) = map (\<lambda>x. 1 + weight x) (map snd (indexed xs))"
    by simp
  also have "map snd (indexed xs) = xs"
    by (simp add: indexed_def)
  finally show ?thesis by (simp add: entries_weight_def steps_weight_def)
qed

text \<open>
  The operand of an operator predicate is no heavier than the predicate, except for a
  string, whose characters become fields; but then the node is a plain operator node.
\<close>

definition operator_node :: "js \<Rightarrow> bool" where
  "operator_node w \<longleftrightarrow> (\<exists>s. jprop w ''kind'' = JStr s \<and> startsWith s ''$'')"

lemma indexed_no_kind: "\<not> obj_has (indexed xs) ''kind''"
proof -
  have "''kind'' \<noteq> nat_str i" for i
  proof -
    have "\<not> (\<forall>c \<in> set ''kind''. of_char c \<in> {48..<58::nat})" by simp
    then show ?thesis using nat_str_digits [of i] by metis
  qed
  then show ?thesis by (auto simp: obj_has_def fst_indexed)
qed

lemma predicate_node_weight:
  "weight (predicate_node p) \<le> weight p \<or> operator_node (predicate_node p)"
proof (cases p)
  case (JObj fs)
  show ?thesis
  proof (cases "List.find (\<lambda>e. startsWith (fst e) ''$'') fs")
    case (Some e)
    define v where "v = obj_get fs (fst e)"
    from Some have e: "e \<in> set fs" "startsWith (fst e) ''$''" by (auto dest: find_SomeD)
    have pn: "predicate_node p = JObj (spread [(''kind'', JStr (fst e))] (entries v))"
      by (simp add: predicate_node_def JObj Some v_def)
    have v: "(fst e, v) \<in> set fs"
      using e(1) by (auto simp: v_def obj_get_def map_of_eq_None_iff split: option.splits dest: map_of_SomeD)
    show ?thesis
    proof (cases "\<exists>s. v = JStr s")
      case True
      then obtain s where "v = JStr s" by blast
      then have "jprop (predicate_node p) ''kind'' = JStr (fst e)"
        by (simp add: pn obj_get_spread keys_ok_indexed indexed_no_kind)
      with e(2) show ?thesis by (auto simp: operator_node_def)
    next
      case False
      then have "entries_weight (entries v) < weight v"
        by (cases v) (auto simp: entries_weight_indexed, simp_all add: entries_weight_def)
      then have "weight (predicate_node p) \<le> 2 + weight v"
        using entries_weight_spread [of "[(''kind'', JStr (fst e))]" "entries v"]
        by (simp add: pn entries_weight_def)
      also have "\<dots> \<le> weight p"
        using weight_obj_get [OF v] by (simp add: JObj)
      finally show ?thesis by simp
    qed
  qed (simp add: predicate_node_def JObj)
qed (simp_all add: predicate_node_def)

definition overloads_run :: "genv \<Rightarrow> bool" where
  "overloads_run env \<longleftrightarrow> (\<forall>k ext w t h cur me n. g_overload env k = Some ext \<longrightarrow> ran (ext w t h cur me n))"

text \<open>\<open>enough bg b\<close>: the recursive call returns on lighter steps and on a lone operator node.\<close>

definition enough :: "bg_rec \<Rightarrow> nat \<Rightarrow> bool" where
  "enough bg b \<longleftrightarrow> (\<forall>n ws t h. steps_weight ws < b \<longrightarrow> ran (bg n ws t h))
     \<and> (\<forall>n w t h. operator_node w \<longrightarrow> 1 < b \<longrightarrow> ran (bg n [w] t h))"

lemma createNode_ran [simp, fuel_intros]: "ran (createNode env i c)"
  by (auto simp: createNode_def catalog_key_def Let_def rbind_def split: prod.splits option.splits js.splits)

lemma steps_of_ran [simp, fuel_intros]: "ran (steps_of w)"
  by (simp add: steps_of_def split: js.splits)

lemma fld_ran [simp, fuel_intros]: "ran (fld v k)"
  by (simp add: fld_def)

lemma open_path_edges_ran [fuel_intros]: "ran (open_path_edges i ps me tgt)"
  by (induction ps arbitrary: i) (auto intro!: fuel_intros)

lemma output_edges_ran [fuel_intros]: "ran (output_edges cur me tgt hid)"
  by (auto simp: output_edges_def Let_def intro!: fuel_intros split: js.splits)

lemma bg_opt_ran:
  "enough bg b \<Longrightarrow> weight w \<le> b \<Longrightarrow> ran (bg_opt bg n (jprop w k) t h)"
  using weight_prop [of w k] by (auto simp: bg_opt_def enough_def)

lemma bg_paths_ran:
  assumes "enough bg b"
  shows "steps_weight ps < b \<Longrightarrow> ran (bg_paths bg n i ps t h)"
proof (induction ps arbitrary: n i)
  case (Cons p ps)
  have "ran (bg n [sub] t h)" if "fld p ''node'' = Inr sub" "truthy sub" for n sub
    using assms Cons.prems that weight_prop [of p "''node''"]
    by (auto simp: enough_def fld_def split: if_splits)
  with Cons show ?case by (auto intro!: fuel_intros split: prod.splits)
qed simp

lemma bg_branch_ran:
  assumes "enough bg b" "weight w \<le> b" "overloads_run env"
  shows "ran (bg_branch env bg cur n w me t h)"
proof -
  note opt = bg_opt_ran [OF assms(1,2)]
  have sub: "ran (loadSubNode bg n w me t f hl)" for n f hl
    unfolding loadSubNode_def by (auto intro!: fuel_intros opt split: prod.splits list.splits)
  have "ran (bg_switch bg cur n w me t h)"
  proof (cases "truthy (jprop w ''paths'')")
    case True
    have "steps_weight (fst (paths_view (jprop w ''paths''))) < b"
      using weight_prop [OF True] assms(2)
      by (auto simp: paths_view_def split: js.splits)
    with bg_paths_ran [OF assms(1)] show ?thesis
      by (auto simp: bg_switch_def intro!: fuel_intros split: prod.splits)
  qed (simp add: bg_switch_def)
  moreover have "ran (bg_filter bg cur n w me)"
  proof (cases "truthy (jprop w ''predicate'')")
    case True
    let ?p = "predicate_node (jprop w ''predicate'')"
    have "steps_weight [?p] < b \<or> operator_node ?p" "1 < b"
      using predicate_node_weight [of "jprop w ''predicate''"] weight_prop [OF True] assms(2) by auto
    then have "ran (bg n [?p] t h)" for n t h
      using assms(1) by (auto simp: enough_def)
    then show ?thesis by (auto simp: bg_filter_def True intro!: fuel_intros split: prod.splits)
  qed (simp add: bg_filter_def)
  ultimately show ?thesis
    using assms(3) unfolding bg_branch_def Let_def bg_if_def bg_loop_def bg_try_def bg_jump_def overloads_run_def
    by (auto intro!: fuel_intros opt sub split: prod.splits list.splits option.splits)
qed

lemma bg_workflow_ran:
  assumes "enough bg b" "weight w \<le> b"
  shows "ran (bg_workflow env bg n w me t h)"
proof -
  have "ran (bg n (rev steps) t h)" if "steps_of w = Inr steps" for n steps t h
    using assms steps_of_weight [OF that] by (auto simp: enough_def)
  then show ?thesis
    unfolding bg_workflow_def Let_def by (auto intro!: fuel_intros split: prod.splits)
qed

lemma bg_step_ran:
  assumes "enough bg b" "weight w \<le> b" "steps_weight rest < b" "overloads_run env"
  shows "ran (bg_step env bg n w rest t h)"
proof -
  have "ran (bg n rest t h)" for n t h
    using assms(1,3) by (auto simp: enough_def)
  then show ?thesis
    unfolding bg_step_def Let_def
    by (auto intro!: fuel_intros bg_workflow_ran [OF assms(1,2)] bg_branch_ran [OF assms(1,2,4)]
        split: prod.splits)
qed

text \<open>An operator node makes no recursive call but the one on the (empty) rest.\<close>

lemma operator_node_step_ran:
  assumes "operator_node w" "overloads_run env" "\<And>n t h. ran (bg n [] t h)"
  shows "ran (bg_step env bg n w [] t h)"
proof -
  from assms(1) obtain s where s: "jprop w ''kind'' = JStr (CHR ''$'' # s)"
    by (auto simp: operator_node_def startsWith_iff_prefix prefix_def)
  have b: "ran (bg_branch env bg cur n w me t h)" for cur n me
    using assms(2) unfolding bg_branch_def Let_def s overloads_run_def
    by (auto intro!: fuel_intros split: option.splits prod.splits)
  show ?thesis
    unfolding bg_step_def Let_def
    by (auto simp: s intro!: fuel_intros b assms(3) split: prod.splits)
qed

lemma buildGraph_enough:
  assumes "overloads_run env"
  shows "enough (buildGraph env fuel) fuel"
proof (induction fuel)
  case 0
  then show ?case by (simp add: enough_def)
next
  case (Suc fuel)
  have "ran (buildGraph env (Suc fuel) n ws t h)" if "steps_weight ws < Suc fuel" for n ws t h
    using that by (cases ws) (auto intro!: bg_step_ran [OF Suc.IH] assms)
  moreover have "ran (buildGraph env (Suc fuel) n [w] t h)" if "operator_node w" "1 < Suc fuel" for n w t h
    using that by (cases fuel) (auto intro!: operator_node_step_ran assms)
  ultimately show ?case unfolding enough_def by blast
qed

text \<open>
  C2. \<open>buildGraph\<close> returns (a graph or a TypeError) on every list of workflow values, when
  the extension overloads do: a fuel above the weight of the steps is always enough.
\<close>

theorem buildGraph_terminates:
  assumes "overloads_run env" and "steps_weight ws < fuel"
  shows "buildGraph env fuel n ws tgt hid \<noteq> Inl StackOverflow"
  using buildGraph_enough [OF assms(1), of fuel] assms(2) by (auto simp: enough_def ran_def)

definition sample_template :: "string \<Rightarrow> template" where
  "sample_template k = \<lparr>t_type = JUndef, t_kind = JStr k, t_category = JStr ''core'',
     t_display_name = JStr k, t_description = JUndef, t_sources = None, t_targets = None\<rparr>"

definition sample_env :: genv where
  "sample_env = \<lparr>
     g_catalog = (\<lambda>k. if k \<in> set [''start'', ''returned'', ''assign'', ''pause'', ''call'', ''switch'', ''if'']
        then Some (sample_template k) else None),
     g_uuid = (\<lambda>n. ''uuid-'' @ nat_str n),
     g_overload = (\<lambda>k. None)\<rparr>"

lemma buildGraph_terminates_witness:
  "buildGraph sample_env 9 0 [JObj [(''id'', JStr ''a''), (''kind'', JStr ''assign'')]] ''returned-node'' ''''
     \<noteq> Inl StackOverflow"
  by (rule buildGraph_terminates) (simp_all add: overloads_run_def sample_env_def steps_weight_def)

section \<open>Edges\<close>

text \<open>
  An edge is joined when it leaves a node of the graph and enters one, or enters the target
  the graph is built for, or is the edge of a jump.
\<close>

definition joined :: "string set \<Rightarrow> string \<Rightarrow> wedge \<Rightarrow> bool" where
  "joined ids tgt e \<longleftrightarrow> e_source e \<in> ids
     \<and> (e_target e \<in> ids \<or> tgt \<noteq> [] \<and> e_target e = tgt \<or> e_id e = dash (e_source e) ''jump'')"

definition ids_of :: "wnode list \<Rightarrow> string set" where
  "ids_of ns = n_id ` set ns"

definition closed_graph :: "graph \<Rightarrow> string \<Rightarrow> bool" where
  "closed_graph g tgt \<longleftrightarrow> (\<forall>e \<in> set (snd g). joined (ids_of (fst g)) tgt e)"

definition overloads_closed :: "genv \<Rightarrow> bool" where
  "overloads_closed env \<longleftrightarrow> (\<forall>k ext w t h cur me n ns es n'. g_overload env k = Some ext \<longrightarrow>
     ext w t h cur me n = Inr ((ns, es), n') \<longrightarrow> n_id cur = me \<longrightarrow> closed_graph (cur # ns, es) t)"

definition bg_closed :: "bg_rec \<Rightarrow> bool" where
  "bg_closed bg \<longleftrightarrow> (\<forall>n ws t h g n'. bg n ws t h = Inr (g, n') \<longrightarrow> closed_graph g t)"

lemma joined_mono: "joined ids t e \<Longrightarrow> ids \<subseteq> ids' \<Longrightarrow> t = t' \<or> t = [] \<or> t \<in> ids' \<Longrightarrow> joined ids' t' e"
  by (auto simp: joined_def)

lemma joined_mk_edge [simp]:
  "joined ids tgt (mk_edge i s sh t th) \<longleftrightarrow>
     s \<in> ids \<and> (t \<in> ids \<or> tgt \<noteq> [] \<and> t = tgt \<or> i = dash s ''jump'')"
  by (simp add: joined_def mk_edge_def)

lemma ids_of_simps [simp]:
  "ids_of [] = {}" "ids_of (n # ns) = insert (n_id n) (ids_of ns)"
  "ids_of (ns @ ms) = ids_of ns \<union> ids_of ms"
  "ids_of (map setupTargetsAndSources ns) = ids_of ns"
  by (simp_all add: ids_of_def image_image image_Un setupTargetsAndSources_def)

lemma bg_closed_apply: "bg_closed bg \<Longrightarrow> bg n ws t h = Inr (g, n') \<Longrightarrow> closed_graph g t"
  unfolding bg_closed_def by blast

lemma closed_graphD: "closed_graph (ns, es) t \<Longrightarrow> e \<in> set es \<Longrightarrow> joined (ids_of ns) t e"
  by (simp add: closed_graph_def)

lemma bg_closedD:
  "bg_closed bg \<Longrightarrow> bg n ws t h = Inr ((ns, es), n') \<Longrightarrow> e \<in> set es \<Longrightarrow>
     ids_of ns \<subseteq> ids' \<Longrightarrow> t = t' \<or> t = [] \<or> t \<in> ids' \<Longrightarrow> joined ids' t' e"
  by (rule joined_mono [OF closed_graphD [OF bg_closed_apply]])

lemma createNode_id: "createNode env i c = Inr n \<Longrightarrow> n_id n = i"
  by (cases "splitInformationAndContent c")
    (auto simp: createNode_def Let_def addInformationsToNode_def split: if_splits option.splits)

lemma bg_opt_closedD:
  "bg_closed bg \<Longrightarrow> bg_opt bg n w t h = Inr ((ns, es), n') \<Longrightarrow> e \<in> set es \<Longrightarrow>
     ids_of ns \<subseteq> ids' \<Longrightarrow> t = t' \<or> t = [] \<or> t \<in> ids' \<Longrightarrow> joined ids' t' e"
  by (auto simp: bg_opt_def split: if_splits dest: bg_closedD)

lemma bg_workflow_closed:
  assumes "bg_closed bg" "bg_workflow env bg n w me tgt hid = Inr (g, n')"
  shows "closed_graph g tgt"
proof (cases "truthy (jprop w ''returned'')")
  case False
  with assms(2) show ?thesis by (auto simp: bg_workflow_def intro: bg_closed_apply [OF assms(1)])
next
  case True
  with assms(2) obtain r steps ns es where
    "createNode env (me @ ''-returned-node'')
        (JObj [(''returned'', JObj (entries (jprop w ''returned''))), (''kind'', JStr ''returned'')]) = Inr r"
    and bg: "bg n (rev steps) (n_id r) '''' = Inr ((ns, es), n')"
    and g: "g = (ns @ [r\<lparr>n_targetHandles := [dash ''input'' (n_id r)], n_sourceHandles := []\<rparr>],
        es @ (if tgt \<noteq> [] \<and> hid \<noteq> []
              then [mk_edge (tgt @ ''-returned-node'') (n_id r) (dash ''output'' (n_id r)) tgt hid] else []))"
    by (auto simp: bg_workflow_def Let_def)
  have "joined (ids_of (fst g)) tgt e" if "e \<in> set es" for e
    by (rule bg_closedD [OF assms(1) bg that]) (auto simp: g)
  moreover have "joined (ids_of (fst g)) tgt e" if "e \<in> set (snd g)" "e \<notin> set es" for e
    using that g by (auto split: if_splits)
  ultimately show ?thesis by (auto simp: closed_graph_def)
qed

lemma branch_edge_closed:
  "e \<in> set (branch_edge h me ns tgt hid) \<Longrightarrow> me \<in> ids \<Longrightarrow> ids_of ns \<subseteq> ids \<Longrightarrow> joined ids tgt e"
  by (auto simp: branch_edge_def split: list.splits if_splits)

text \<open>What a branch must keep: the node's id, and edges joined to the node or its sub-graph.\<close>

definition branch_closed :: "bg_out \<Rightarrow> string \<Rightarrow> string \<Rightarrow> bool" where
  "branch_closed m me tgt \<longleftrightarrow> (\<forall>cur sub es n. m = Inr (cur, sub, es, n) \<longrightarrow>
     n_id cur = me \<and> closed_graph (cur # sub, es) tgt)"

lemma bg_jump_closed: "n_id cur = me \<Longrightarrow> branch_closed (bg_jump cur n w me) me tgt"
  by (auto simp: branch_closed_def bg_jump_def closed_graph_def Let_def)

lemma bg_opt_closed:
  "bg_closed bg \<Longrightarrow> bg_opt bg n w t h = Inr ((ns, es), n') \<Longrightarrow> \<forall>e \<in> set es. joined (ids_of ns) t e"
  using bg_opt_closedD [of bg n w t h ns es n'] by blast

lemma bg_if_closed:
  assumes "bg_closed bg" "n_id cur = me"
  shows "branch_closed (bg_if bg cur n w me tgt hid) me tgt"
  unfolding branch_closed_def
proof (intro allI impI)
  fix cur' sub es n'
  assume "bg_if bg cur n w me tgt hid = Inr (cur', sub, es, n')"
  then obtain tns tes n1 ens ees where
    th: "bg_opt bg n (jprop w ''then'') tgt hid = Inr ((tns, tes), n1)"
    and el: "bg_opt bg n1 (jprop w ''else'') tgt hid = Inr ((ens, ees), n')"
    and r: "cur' = cur" "sub = tns @ ens"
      "es = (if tns \<noteq> [] then tes else []) @ (if ens \<noteq> [] then ees else [])
        @ branch_edge ''then'' me tns tgt hid @ branch_edge ''else'' me ens tgt hid"
    by (auto simp: bg_if_def Let_def)
  let ?ids = "ids_of (cur # sub)"
  have me: "me \<in> ?ids" and sub: "ids_of tns \<subseteq> ?ids" "ids_of ens \<subseteq> ?ids" using r assms(2) by auto
  have "joined ?ids tgt e" if "e \<in> set es" for e
  proof -
    from that r(3) consider "e \<in> set tes" | "e \<in> set ees" | "e \<in> set (branch_edge ''then'' me tns tgt hid)"
      | "e \<in> set (branch_edge ''else'' me ens tgt hid)"
      by (auto split: if_splits)
    then show ?thesis
      by cases (use bg_opt_closedD [OF assms(1) th _ sub(1)] bg_opt_closedD [OF assms(1) el _ sub(2)]
          branch_edge_closed [OF _ me] sub in blast)+
  qed
  then show "n_id cur' = me \<and> closed_graph (cur' # sub, es) tgt"
    using r assms(2) by (simp add: closed_graph_def)
qed

lemma bg_loop_closed:
  assumes "bg_closed bg" "n_id cur = me"
  shows "branch_closed (bg_loop bg cur n w me) me tgt"
  using assms(2)
  by (auto simp: branch_closed_def bg_loop_def closed_graph_def neq_Nil_conv split: list.splits
      dest!: bg_opt_closed [OF assms(1)]) (blast intro: joined_mono)

lemma loadSubNode_closed:
  assumes "bg_closed bg" "loadSubNode bg n w me tgt f h = Inr ((ns, es), n')" "e \<in> set es"
    "me \<in> ids" "ids_of ns \<subseteq> ids"
  shows "joined ids tgt e"
  using assms(2-)
  by (auto simp: loadSubNode_def neq_Nil_conv split: list.splits dest!: bg_opt_closed [OF assms(1)])
    (blast intro: joined_mono)

lemma bg_try_closed:
  assumes "bg_closed bg" "n_id cur = me"
  shows "branch_closed (bg_try bg cur n w me tgt) me tgt"
  using assms(2)
  by (auto simp: branch_closed_def bg_try_def closed_graph_def intro: loadSubNode_closed [OF assms(1)])

lemma bg_paths_closed:
  "bg_closed bg \<Longrightarrow> bg_paths bg n i ps tgt hid = Inr (gs, n') \<Longrightarrow> (j, g) \<in> set gs \<Longrightarrow> closed_graph g tgt"
proof (induction ps arbitrary: n i gs)
  case (Cons p ps)
  note IH = Cons.IH [OF Cons.prems(1)]
  from Cons.prems(2,3) show ?case
    by (auto split: if_splits intro: IH bg_closed_apply [OF Cons.prems(1)])
qed simp

lemma bg_switch_closed:
  assumes "bg_closed bg" "n_id cur = me"
  shows "branch_closed (bg_switch bg cur n w me tgt hid) me tgt"
proof -
  have "joined ids tgt e"
    if gs: "bg_paths bg n 0 ps tgt hid = Inr (gs, n')" "p \<in> set gs" "e \<in> set (path_edges me p)"
      and ids: "me \<in> ids" "ids_of (concat (map (fst \<circ> snd) gs)) \<subseteq> ids" for ps gs n' p e ids
  proof -
    obtain i ns es where p: "p = (i, ns, es)" by (cases p) auto
    from p gs(2) ids(2) have sub: "ids_of ns \<subseteq> ids" by (force simp: ids_of_def)
    have "closed_graph (ns, es) tgt" using bg_paths_closed [OF assms(1) gs(1)] gs(2) p by simp
    with gs(3) p sub ids(1) show ?thesis
      by (auto simp: path_edges_def closed_graph_def split: list.splits intro: joined_mono)
  qed
  note path = this
  show ?thesis
  proof (cases "truthy (jprop w ''paths'')")
    case False
    then show ?thesis using assms(2) by (simp add: branch_closed_def bg_switch_def closed_graph_def)
  next
    case True
    obtain ps len where v: "paths_view (jprop w ''paths'') = (ps, len)" by (cases "paths_view (jprop w ''paths'')")
    show ?thesis
    proof (cases "bg_paths bg n 0 ps tgt hid")
      case (Inr r)
      obtain gs n' where r: "r = (gs, n')" by (cases r)
      have "joined (insert me (ids_of (concat (map (fst \<circ> snd) gs)))) tgt e"
        if "e \<in> set (concat (map (path_edges me) gs))" for e
      proof -
        from that obtain p where "p \<in> set gs" "e \<in> set (path_edges me p)" by auto
        from path [OF Inr [unfolded r] this] show ?thesis by auto
      qed
      with True v Inr r assms(2) show ?thesis
        by (auto simp: branch_closed_def bg_switch_def closed_graph_def)
    qed (use True v in \<open>simp add: branch_closed_def bg_switch_def\<close>)
  qed
qed

lemma bg_filter_closed:
  assumes "bg_closed bg" "n_id cur = me"
  shows "branch_closed (bg_filter bg cur n w me) me tgt"
proof -
  have last: "n_id (last ns) \<in> ids_of ns" if "ns \<noteq> []" for ns
    using that by (simp add: ids_of_def)
  show ?thesis
    using assms(2)
    by (auto simp: branch_closed_def bg_filter_def closed_graph_def last split: if_splits
        intro: bg_closedD [OF assms(1)])
qed

lemma bg_branch_closed:
  assumes "bg_closed bg" "n_id cur = me" "overloads_closed env"
  shows "branch_closed (bg_branch env bg cur n w me tgt hid) me tgt"
proof -
  have ext: "branch_closed (case g_overload env k of None \<Rightarrow> Inr (cur, [], [], n)
      | Some ext \<Rightarrow> rbind (ext w tgt hid cur me n) (\<lambda>((ns, es), n). Inr (cur, ns, es, n))) me tgt" for k
  proof (cases "g_overload env k")
    case None
    then show ?thesis using assms(2) by (simp add: branch_closed_def closed_graph_def)
  next
    case (Some ext)
    have "closed_graph (cur # ns, es) tgt" if "ext w tgt hid cur me n = Inr ((ns, es), n')" for ns es n'
      using assms(2,3) Some that unfolding overloads_closed_def by blast
    with Some assms(2) show ?thesis by (auto simp: branch_closed_def)
  qed
  show ?thesis
    unfolding bg_branch_def Let_def
    by (simp add: ext bg_jump_closed bg_if_closed bg_loop_closed bg_try_closed bg_switch_closed
        bg_filter_closed assms(1,2))
qed

lemma open_path_edges_closed:
  "open_path_edges i ps me tgt = Inr es \<Longrightarrow> e \<in> set es \<Longrightarrow> tgt \<noteq> [] \<Longrightarrow> me \<in> ids \<Longrightarrow> joined ids tgt e"
  by (induction ps arbitrary: i es) (auto split: if_splits)

lemma output_edges_closed:
  "output_edges cur me tgt hid = Inr es \<Longrightarrow> e \<in> set es \<Longrightarrow> tgt \<noteq> [] \<Longrightarrow> me \<in> ids \<Longrightarrow> joined ids tgt e"
  by (auto simp: output_edges_def Let_def split: if_splits js.splits intro: open_path_edges_closed)

lemma bg_step_cases:
  assumes "bg_step env bg n w rest tgt hid = Inr (g, n')" "jprop w ''kind'' \<noteq> JStr ''workflow''"
    and "me = (if \<not> truthy (jprop w ''id'') then g_uuid env n else key_of (jprop w ''id''))"
    and "m = (if \<not> truthy (jprop w ''id'') then Suc n else n)"
  obtains cur cur' sub es k where "createNode env me w = Inr cur"
    "bg_branch env bg cur m w me tgt hid = Inr (cur', sub, es, k)"
    "g = (map setupTargetsAndSources (cur' # sub), es)
      \<or> (\<exists>out rns res. (if tgt \<noteq> [] then output_edges cur me tgt hid else Inr []) = Inr out
           \<and> bg k rest me '''' = Inr ((rns, res), n')
           \<and> g = (rns @ map setupTargetsAndSources (cur' # sub), res @ es @ out))"
proof -
  from assms(1,2) obtain cur where cur: "createNode env me w = Inr cur"
    by (auto simp: bg_step_def Let_def assms(3,4))
  moreover from assms(1,2) cur obtain cur' sub es k
    where b: "bg_branch env bg cur m w me tgt hid = Inr (cur', sub, es, k)"
    by (auto simp: bg_step_def Let_def assms(3,4))
  moreover from assms(1) have "g = (map setupTargetsAndSources (cur' # sub), es)
      \<or> (\<exists>out rns res. (if tgt \<noteq> [] then output_edges cur me tgt hid else Inr []) = Inr out
           \<and> bg k rest me '''' = Inr ((rns, res), n')
           \<and> g = (rns @ map setupTargetsAndSources (cur' # sub), res @ es @ out))"
    using assms(2) cur b
    by (simp add: bg_step_def Let_def flip: assms(3,4) split: if_split_asm) auto
  ultimately show ?thesis by (rule that)
qed

lemma bg_step_closed:
  assumes "bg_closed bg" "overloads_closed env" "bg_step env bg n w rest tgt hid = Inr (g, n')"
  shows "closed_graph g tgt"
proof -
  define me where "me = (if \<not> truthy (jprop w ''id'') then g_uuid env n else key_of (jprop w ''id''))"
  define m where "m = (if \<not> truthy (jprop w ''id'') then Suc n else n)"
  show ?thesis
  proof (cases "jprop w ''kind'' = JStr ''workflow''")
    case True
    with assms(3) obtain ns es where wf: "bg_workflow env bg m w me tgt hid = Inr ((ns, es), n')"
      and g: "g = (map setupTargetsAndSources ns, es)"
      by (auto simp: bg_step_def Let_def me_def m_def)
    then show ?thesis
      using bg_workflow_closed [OF assms(1) wf] by (simp add: closed_graph_def)
  next
    case False
    obtain cur cur' sub es k where c: "createNode env me w = Inr cur"
      and b: "bg_branch env bg cur m w me tgt hid = Inr (cur', sub, es, k)"
      and r: "g = (map setupTargetsAndSources (cur' # sub), es)
        \<or> (\<exists>out rns res. (if tgt \<noteq> [] then output_edges cur me tgt hid else Inr []) = Inr out
             \<and> bg k rest me '''' = Inr ((rns, res), n')
             \<and> g = (rns @ map setupTargetsAndSources (cur' # sub), res @ es @ out))"
      by (rule bg_step_cases [OF assms(3) False me_def m_def])
    have cl: "n_id cur' = me" "closed_graph (cur' # sub, es) tgt"
      using bg_branch_closed [OF assms(1) createNode_id [OF c] assms(2), of m w tgt hid] b
      by (auto simp: branch_closed_def)
    from r show ?thesis
    proof (elim disjE exE conjE)
      assume "g = (map setupTargetsAndSources (cur' # sub), es)"
      with cl(2) show ?thesis by (simp add: closed_graph_def setupTargetsAndSources_def)
    next
      fix out rns res
      assume o': "(if tgt \<noteq> [] then output_edges cur me tgt hid else Inr []) = Inr out"
        and rest: "bg k rest me '''' = Inr ((rns, res), n')"
        and g: "g = (rns @ map setupTargetsAndSources (cur' # sub), res @ es @ out)"
      have "joined (ids_of (fst g)) tgt e" if "e \<in> set res" for e
        by (rule bg_closedD [OF assms(1) rest that]) (auto simp: g cl(1) setupTargetsAndSources_def)
      moreover have "joined (ids_of (fst g)) tgt e" if "e \<in> set es" for e
        using cl(2) that g by (auto simp: closed_graph_def setupTargetsAndSources_def intro: joined_mono)
      moreover have "joined (ids_of (fst g)) tgt e" if "e \<in> set out" for e
        using o' that g cl(1) by (auto simp: setupTargetsAndSources_def split: if_splits intro: output_edges_closed)
      ultimately show ?thesis by (auto simp: g closed_graph_def)
    qed
  qed
qed

lemma buildGraph_bg_closed:
  assumes "overloads_closed env"
  shows "bg_closed (buildGraph env fuel)"
proof (induction fuel)
  case 0
  then show ?case by (simp add: bg_closed_def)
next
  case (Suc fuel)
  show ?case
    unfolding bg_closed_def
  proof (intro allI impI)
    fix n ws t h g n'
    assume "buildGraph env (Suc fuel) n ws t h = Inr (g, n')"
    then show "closed_graph g t"
      using bg_step_closed [OF Suc assms] by (cases ws) (auto simp: closed_graph_def split: if_splits)
  qed
qed



end
