(* ===== verification/Workflow_Roundtrip.thy ===== *)
theory Workflow_Roundtrip
  imports Workflow_Json Workflow_Graph_Facts
begin

text \<open>
  Loading and saving a workflow of plain steps (steps of a kind with no sub-flow and no
  overload) gives the same steps back. The proof goes through \<open>walk\<close>, what the canvas looks
  like from a node to the returned node.
\<close>

section \<open>Information and content\<close>

definition split_entry :: "string \<times> js \<Rightarrow> obj \<times> obj \<Rightarrow> obj \<times> obj" where
  "split_entry = (\<lambda>(key, value) (information, content).
      if key \<in> set INFORMATION_FIELDS then (AList.update key value information, content)
      else (information, AList.update key value content))"

lemma split_entry_fold:
  "keys_ok fs \<Longrightarrow>
     obj_get (fst (fold split_entry fs ab)) k =
        (if k \<in> set INFORMATION_FIELDS \<and> obj_has fs k then obj_get fs k else obj_get (fst ab) k)
   \<and> obj_get (snd (fold split_entry fs ab)) k =
        (if k \<notin> set INFORMATION_FIELDS \<and> obj_has fs k then obj_get fs k else obj_get (snd ab) k)
   \<and> obj_has (fst (fold split_entry fs ab)) k = (obj_has (fst ab) k \<or> k \<in> set INFORMATION_FIELDS \<and> obj_has fs k)
   \<and> obj_has (snd (fold split_entry fs ab)) k = (obj_has (snd ab) k \<or> k \<notin> set INFORMATION_FIELDS \<and> obj_has fs k)
   \<and> keys_ok (fst (fold split_entry fs ab)) = keys_ok (fst ab)
   \<and> keys_ok (snd (fold split_entry fs ab)) = keys_ok (snd ab)"
proof (induction fs arbitrary: ab)
  case (Cons e fs)
  obtain k' v where e: "e = (k', v)" by (cases e)
  have kf: "keys_ok fs" "\<not> obj_has fs k'" using Cons.prems by (simp_all add: e)
  show ?case
  proof (cases "k' \<in> set INFORMATION_FIELDS")
    case True
    then show ?thesis
      using kf Cons.IH [OF kf(1), of "split_entry e ab"]
      by (cases ab; cases "k = k'") (simp_all add: e split_entry_def)
  next
    case False
    then show ?thesis
      using kf Cons.IH [OF kf(1), of "split_entry e ab"]
      by (cases ab; cases "k = k'") (simp_all add: e split_entry_def)
  qed
qed simp

lemma split_fold:
  assumes "splitInformationAndContent (JObj fs) = (info, content)" and "keys_ok fs"
  shows "obj_get info k = (if k \<in> set INFORMATION_FIELDS then obj_get fs k else JUndef)"
    and "obj_get content k = (if k \<in> set INFORMATION_FIELDS then JUndef else obj_get fs k)"
    and "obj_has info k \<longleftrightarrow> k \<in> set INFORMATION_FIELDS \<and> obj_has fs k"
    and "obj_has content k \<longleftrightarrow> k \<notin> set INFORMATION_FIELDS \<and> obj_has fs k"
    and "keys_ok info" and "keys_ok content"
proof -
  have "fold split_entry fs ([], []) = (info, content)"
    using assms(1) by (simp add: splitInformationAndContent_def split_entry_def)
  then show "obj_get info k = (if k \<in> set INFORMATION_FIELDS then obj_get fs k else JUndef)"
    and "obj_get content k = (if k \<in> set INFORMATION_FIELDS then JUndef else obj_get fs k)"
    and "obj_has info k \<longleftrightarrow> k \<in> set INFORMATION_FIELDS \<and> obj_has fs k"
    and "obj_has content k \<longleftrightarrow> k \<notin> set INFORMATION_FIELDS \<and> obj_has fs k"
    and "keys_ok info" and "keys_ok content"
    using split_entry_fold [OF assms(2), of "([], [])" k] obj_get_absent [of fs k] by auto
qed

section \<open>Building plain steps\<close>

definition nested_kinds :: "string list" where
  "nested_kinds = [''workflow'', ''jump'', ''if'', ''foreach'', ''flatmap'', ''map'', ''async'', ''while'',
     ''try'', ''switch'', ''parallel'', ''filter'']"

text \<open>A plain step: its id and kind are strings, its kind is in the catalogue under that
  name with an output, and nothing nests below it.\<close>

definition plain :: "genv \<Rightarrow> js \<Rightarrow> bool" where
  "plain env w \<longleftrightarrow> (\<exists>fs i k t. w = JObj fs \<and> keys_ok fs
     \<and> obj_get fs ''id'' = JStr i \<and> i \<noteq> [] \<and> \<not> endsWith i ''returned-node''
     \<and> obj_get fs ''kind'' = JStr k \<and> k \<noteq> [] \<and> k \<notin> set nested_kinds \<and> g_overload env k = None
     \<and> g_catalog env (toLowerCase k) = Some t \<and> t_kind t = JStr k
     \<and> (case t_sources t of None \<Rightarrow> True | Some s \<Rightarrow> ''output'' \<in> set s))"

definition step_id :: "js \<Rightarrow> string" where
  "step_id w = key_of (jprop w ''id'')"

definition out_edge :: "string \<Rightarrow> string \<Rightarrow> wedge" where
  "out_edge a b = mk_edge (dash a b) a (dash ''output'' a) b (dash ''input'' b)"

fun chain :: "string list \<Rightarrow> string \<Rightarrow> wedge list" where
  "chain [] t = []"
| "chain [a] t = [out_edge a t]"
| "chain (a # b # r) t = out_edge a b # chain (b # r) t"

definition the_node :: "genv \<Rightarrow> js \<Rightarrow> wnode" where
  "the_node env w = (case createNode env (step_id w) w of
     Inr n \<Rightarrow> setupTargetsAndSources n | Inl _ \<Rightarrow> undefined)"

lemma createNode_known:
  assumes "splitInformationAndContent c = (info, content)" and "obj_get info ''kind'' = JStr k" "k \<noteq> []"
    and "g_catalog env (toLowerCase k) = Some t"
  shows "\<exists>n. createNode env i c = Inr n \<and> n_id n = i \<and> n_kind n = t_kind t \<and> n_information n = info
     \<and> n_content n = content \<and> n_position n = js_or (jprop c ''position'') origin
     \<and> n_sources n = (case t_sources t of None \<Rightarrow> [''output''] | Some s \<Rightarrow> s)"
  using assms by (auto simp: createNode_def catalog_key_def js_or_def [of "JStr k"]
      addInformationsToNode_def Let_def)

lemma setup_simps [simp]:
  "n_id (setupTargetsAndSources n) = n_id n" "n_kind (setupTargetsAndSources n) = n_kind n"
  "n_information (setupTargetsAndSources n) = n_information n"
  "n_content (setupTargetsAndSources n) = n_content n"
  "n_position (setupTargetsAndSources n) = n_position n"
  "n_sources (setupTargetsAndSources n) = n_sources n"
  by (simp_all add: setupTargetsAndSources_def)

lemma plain_created:
  assumes "plain env w"
  obtains n where "createNode env (step_id w) w = Inr n" "the_node env w = setupTargetsAndSources n"
    "n_id n = step_id w" "n_kind n = jprop w ''kind''"
    "splitInformationAndContent w = (n_information n, n_content n)"
    "n_position n = js_or (jprop w ''position'') origin" "''output'' \<in> set (n_sources n)"
proof -
  from assms obtain fs k t where w: "w = JObj fs" "keys_ok fs" "obj_get fs ''kind'' = JStr k" "k \<noteq> []"
    and t: "g_catalog env (toLowerCase k) = Some t" "t_kind t = JStr k"
      "case t_sources t of None \<Rightarrow> True | Some s \<Rightarrow> ''output'' \<in> set s"
    by (auto simp: plain_def)
  obtain info content where sp: "splitInformationAndContent w = (info, content)"
    by (cases "splitInformationAndContent w")
  have "obj_get info ''kind'' = JStr k"
    using split_fold(1) [of fs info content "''kind''"] sp w by (simp add: INFORMATION_FIELDS_def)
  from createNode_known [OF sp this w(4) t(1), of "step_id w"] t w sp show ?thesis
    by (auto simp: the_node_def split: option.splits intro: that)
qed

lemma the_node_facts:
  assumes "plain env w"
  shows "n_id (the_node env w) = step_id w" "n_kind (the_node env w) = jprop w ''kind''"
    "splitInformationAndContent w = (n_information (the_node env w), n_content (the_node env w))"
    "n_position (the_node env w) = js_or (jprop w ''position'') origin"
  by (rule plain_created [OF assms]; simp)+

lemma chain_snoc: "chain (xs @ [a]) t = chain xs a @ [out_edge a t]"
proof (induction xs a rule: chain.induct)
  case (1 t)
  then show ?case by simp
qed simp_all

lemma plain_step:
  assumes "plain env w" and "tgt \<noteq> []"
  shows "bg_step env bg n w rest tgt '''' =
     rbind (bg n rest (step_id w) '''') (\<lambda>((rns, res), n).
       Inr ((rns @ [the_node env w], res @ [out_edge (step_id w) tgt]), n))"
proof -
  from assms(1) obtain fs i k where w: "w = JObj fs" "obj_get fs ''id'' = JStr i" "i \<noteq> []"
    and k: "obj_get fs ''kind'' = JStr k" "k \<notin> set nested_kinds" "g_overload env k = None"
    by (auto simp: plain_def)
  from assms(1) obtain cur where cur: "createNode env (step_id w) w = Inr cur"
    "the_node env w = setupTargetsAndSources cur" "''output'' \<in> set (n_sources cur)"
    by (elim plain_created)
  have i: "step_id (JObj fs) = i" "step_id w = i" by (simp_all add: step_id_def w)
  have b: "bg_branch env bg cur n (JObj fs) i tgt '''' = Inr (cur, [], [], n)" for n
    using k by (simp add: bg_branch_def nested_kinds_def)
  have o': "output_edges cur i tgt '''' = Inr [out_edge i tgt]"
    using cur(3) by (simp add: output_edges_def out_edge_def)
  show ?thesis
    using w k cur(1,2) assms(2)
    by (simp add: bg_step_def Let_def b o' i nested_kinds_def)
qed

lemma buildGraph_plain:
  "\<forall>w \<in> set ws. plain env w \<Longrightarrow> length ws < fuel \<Longrightarrow> tgt \<noteq> [] \<Longrightarrow>
     buildGraph env fuel n (rev ws) tgt '''' =
       Inr ((map (the_node env) ws, chain (map step_id ws) tgt), n)"
proof (induction ws arbitrary: fuel tgt rule: rev_induct)
  case Nil
  then show ?case by (cases fuel) simp_all
next
  case (snoc w ws)
  from snoc.prems obtain f where f: "fuel = Suc f" "length ws < f" by (cases fuel) auto
  from snoc.prems have pw: "plain env w" by simp
  then have ne: "truthy w" "entries w \<noteq> []" "step_id w \<noteq> []"
    by (auto simp: plain_def step_id_def)
  have "buildGraph env f n (rev ws) (step_id w) '''' =
      Inr ((map (the_node env) ws, chain (map step_id ws) (step_id w)), n)"
    using snoc.prems f ne by (intro snoc.IH) auto
  with ne show ?case
    by (simp add: f plain_step [OF pw snoc.prems(3)] chain_snoc)
qed

section \<open>Walking a chain of plain nodes\<close>

text \<open>What saving makes of a step: the same fields, with a position.\<close>

definition same_step :: "js \<Rightarrow> js \<Rightarrow> bool" where
  "same_step w r \<longleftrightarrow> (\<forall>k. jprop r k =
     (if k = ''position'' then js_or (jprop w ''position'') origin else jprop w k))"

definition plain_output :: "wnode \<Rightarrow> js" where
  "plain_output node = output_workflow node
     (JObj (spread (n_content node) [(''id'', JStr (n_id node)), (''kind'', n_kind node)]))"

lemma plain_output_same:
  assumes "plain env w"
  shows "same_step w (plain_output (the_node env w))"
proof -
  let ?n = "the_node env w"
  from assms obtain fs i k where w: "w = JObj fs" "keys_ok fs" "obj_get fs ''id'' = JStr i"
      "obj_get fs ''kind'' = JStr k"
    by (auto simp: plain_def)
  note sp = split_fold [OF the_node_facts(3) [OF assms, unfolded w(1)] w(2)]
  have id: "n_id (the_node env w) = i" and kind: "n_kind (the_node env w) = JStr k"
    using the_node_facts [OF assms] w by (simp_all add: step_id_def)
  show ?thesis
    unfolding same_step_def plain_output_def output_workflow_def
    using obj_get_absent [of fs]
    by (auto simp: w obj_get_spread sp id [unfolded w(1)] kind [unfolded w(1)] the_node_facts(4) [OF assms, unfolded w(1)])
qed

text \<open>\<open>keeps cur w acc\<close>: \<open>w\<close> is the start workflow \<open>cur\<close> with the steps \<open>acc\<close>.\<close>

definition keeps :: "js \<Rightarrow> js \<Rightarrow> js list \<Rightarrow> bool" where
  "keeps cur w acc \<longleftrightarrow> is_object w \<and> jprop w ''kind'' = JStr ''workflow'' \<and> jprop w ''id'' = JStr ''start''
     \<and> jprop w ''steps'' = JArr acc
     \<and> (\<forall>k. k \<notin> {''steps'', ''returned'', ''position''} \<longrightarrow> jprop w k = jprop cur k)"

lemma keepsE:
  assumes "keeps cur w acc"
  obtains fs where "w = JObj fs" "obj_get fs ''kind'' = JStr ''workflow''" "obj_get fs ''id'' = JStr ''start''"
    "obj_get fs ''steps'' = JArr acc"
  using assms by (cases w) (simp_all add: keeps_def is_object_def)

lemma keeps_frame: "keeps cur w acc \<Longrightarrow> k \<notin> {''steps'', ''returned'', ''position''} \<Longrightarrow> jprop w k = jprop cur k"
  unfolding keeps_def by blast

lemma keeps_removeReturned: "keeps cur w acc \<Longrightarrow> removeReturnedFromWorkflow (w, seen) = Inr (w, seen)"
  by (elim keepsE) (simp add: removeReturnedFromWorkflow_def)

lemma keeps_spread:
  assumes "keeps cur w acc" and "keys_ok b" and "\<forall>k. obj_has b k \<longrightarrow> k \<in> {''steps'', ''returned'', ''position''}"
    and "acc' = (if obj_has b ''steps'' then acc' else acc)" and "obj_has b ''steps'' \<longrightarrow> obj_get b ''steps'' = JArr acc'"
  shows "keeps cur (JObj (spread (entries w) b)) acc'"
proof -
  from assms(1) obtain fs where w: "w = JObj fs" "obj_get fs ''kind'' = JStr ''workflow''"
    "obj_get fs ''id'' = JStr ''start''" "obj_get fs ''steps'' = JArr acc" by (rule keepsE)
  have nb: "\<not> obj_has b ''kind''" "\<not> obj_has b ''id''" using assms(3) by auto
  have "jprop (JObj (spread fs b)) k = jprop cur k" if "k \<notin> {''steps'', ''returned'', ''position''}" for k
    using keeps_frame [OF assms(1) that] assms(2,3) that by (auto simp: w obj_get_spread)
  moreover have "obj_get (spread fs b) ''steps'' = JArr acc'"
    using assms(2,4,5) w by (auto simp: obj_get_spread split: if_splits)
  ultimately show ?thesis
    unfolding keeps_def using w nb assms(2) by (simp add: obj_get_spread is_object_def)
qed

lemma keeps_append:
  assumes "keeps cur w acc"
  shows "\<exists>w'. append_step w x = Inr w' \<and> keeps cur w' (acc @ [x])"
proof -
  from assms obtain fs where w: "w = JObj fs" "obj_get fs ''kind'' = JStr ''workflow''"
    "obj_get fs ''steps'' = JArr acc" by (rule keepsE)
  have "keeps cur (JObj (spread (entries w) [(''steps'', JArr (acc @ [x]))])) (acc @ [x])"
    by (rule keeps_spread [OF assms]) simp_all
  then show ?thesis
    by (simp add: w append_step_def steps_of_def)
qed

definition plain_json :: "canvas \<Rightarrow> wnode \<Rightarrow> bool" where
  "plain_json g n \<longleftrightarrow> (\<exists>k. n_kind n = JStr k \<and> k \<notin> set nested_kinds \<and> c_overload g k = None)
     \<and> \<not> endsWith (n_id n) ''returned-node''"

fun walk :: "canvas \<Rightarrow> wnode list \<Rightarrow> wnode \<Rightarrow> bool" where
  "walk g [] r = endsWith (n_id r) ''returned-node''"
| "walk g (p # ps) r = (let nx = hd (ps @ [r]) in plain_json g p
     \<and> connections g p = [out_edge (n_id p) (n_id nx)] \<and> find_node g (n_id nx) = Some nx \<and> walk g ps r)"

lemma startsWith_output: "startsWith (dash ''output'' a) ''output''"
  by (simp add: startsWith_def dash_def)

lemma json_branch_plain:
  "plain_json g p \<Longrightarrow> json_branch g rec p cs seen =
     Inr (JObj (spread (n_content p) [(''id'', JStr (n_id p)), (''kind'', n_kind p)]), seen, None)"
  by (auto simp: plain_json_def json_branch_def nested_kinds_def)

lemma walk_json:
  "walk g ps r \<Longrightarrow> keeps cur w acc \<Longrightarrow> length ps < fuel \<Longrightarrow>
     \<exists>w' seen'. nodeToJson g fuel (Some (hd (ps @ [r]))) w False seen st = Inr (w', seen')
       \<and> keeps cur w' (acc @ map plain_output ps)
       \<and> jprop w' ''returned'' = obj_get (n_content r) ''returned''"
proof (induction ps arbitrary: w acc fuel seen st)
  case Nil
  then obtain f where f: "fuel = Suc f" by (cases fuel) auto
  let ?b = "[(''returned'', obj_get (n_content r) ''returned''), (''position'', n_position r)]"
  have "keeps cur (JObj (spread (entries w) ?b)) acc"
    by (rule keeps_spread [OF Nil.prems(2)]) simp_all
  with Nil.prems(1) show ?case
    by (simp add: f json_step_def obj_get_spread)
next
  case (Cons p ps)
  then obtain f where f: "fuel = Suc f" "length ps < f" by (cases fuel) auto
  define nx where "nx = hd (ps @ [r])"
  from Cons.prems have p: "plain_json g p" "connections g p = [out_edge (n_id p) (n_id nx)]"
    "find_node g (n_id nx) = Some nx" "walk g ps r"
    by (auto simp: nx_def Let_def)
  obtain w1 where w1: "append_step w (plain_output p) = Inr w1" "keeps cur w1 (acc @ [plain_output p])"
    using keeps_append [OF Cons.prems(2)] by blast
  obtain w' seen' where w': "nodeToJson g f (Some nx) w1 False (seen @ [Seen (n_id p)]) False = Inr (w', seen')"
    "keeps cur w' ((acc @ [plain_output p]) @ map plain_output ps)"
    "jprop w' ''returned'' = obj_get (n_content r) ''returned''"
    using Cons.IH [OF p(4) w1(2) f(2)] unfolding nx_def by metis
  have "nodeToJson g fuel (Some p) w False seen st = Inr (w', seen')"
    using p w1(1) w'(1) keeps_removeReturned [OF w'(2)]
    by (simp add: f json_step_def Let_def json_branch_plain find_conn_def plain_output_def
        plain_json_def out_edge_def mk_edge_def startsWith_output)
  with w'(2,3) show ?case by auto
qed

section \<open>The canvas of a plain workflow\<close>

lemma chain_Cons: "chain (x # ids) t = out_edge x (hd (ids @ [t])) # chain ids t"
  by (cases ids) simp_all

lemma chain_sources: "e \<in> set (chain ids t) \<Longrightarrow> e_source e \<in> set ids"
  by (induction ids) (auto simp: chain_Cons out_edge_def mk_edge_def)

lemma chain_connection:
  "distinct (xs @ a # ys) \<Longrightarrow> filter (\<lambda>e. e_source e = a) (chain (xs @ a # ys) t) = [out_edge a (hd (ys @ [t]))]"
proof (induction xs)
  case Nil
  then have "filter (\<lambda>e. e_source e = a) (chain ys t) = []"
    by (auto simp: filter_empty_conv dest: chain_sources)
  then show ?case by (simp add: chain_Cons out_edge_def mk_edge_def)
next
  case (Cons x xs)
  then show ?case by (auto simp: chain_Cons out_edge_def mk_edge_def)
qed

definition plain_canvas :: "genv \<Rightarrow> js list \<Rightarrow> wnode \<Rightarrow> wnode
    \<Rightarrow> (string \<Rightarrow> (wnode \<Rightarrow> seen list \<Rightarrow> (js \<times> seen list) res) option) \<Rightarrow> canvas" where
  "plain_canvas env ws s r ovl = \<lparr>c_ns = s # map (the_node env) ws @ [r],
     c_es = chain (map step_id ws) ''returned-node'' @ [starting_edge (map (the_node env) ws)],
     c_overload = ovl\<rparr>"

lemma starting_edge_source [simp]: "e_source (starting_edge ns) = ''start''"
  by (simp add: starting_edge_def mk_edge_def split: list.splits)

lemma plain_canvas_find:
  assumes "\<forall>w \<in> set ws. plain env w" "distinct (map step_id ws)" "''start'' \<notin> step_id ` set ws"
    and "n_id s = ''start''" "n_id r = ''returned-node''"
  shows "find_node (plain_canvas env ws s r ovl) ''start'' = Some s"
    and "find_node (plain_canvas env ws s r ovl) ''returned-node'' = Some r"
    and "w \<in> set ws \<Longrightarrow> find_node (plain_canvas env ws s r ovl) (step_id w) = Some (the_node env w)"
proof -
  have ids: "n_id (the_node env w) = step_id w" if "w \<in> set ws" for w
    using assms(1) that by (simp add: the_node_facts)
  have nr: "step_id w \<noteq> ''returned-node''" if "w \<in> set ws" for w
    using assms(1) that by (force simp: plain_def step_id_def endsWith_def startsWith_def)
  show "find_node (plain_canvas env ws s r ovl) ''start'' = Some s"
    by (simp add: find_node_def plain_canvas_def assms(4))
  show "find_node (plain_canvas env ws s r ovl) ''returned-node'' = Some r"
    unfolding find_node_def
    by (rule find_unique) (use assms(4,5) ids nr in \<open>auto simp: plain_canvas_def\<close>)
  show "find_node (plain_canvas env ws s r ovl) (step_id w) = Some (the_node env w)" if w: "w \<in> set ws"
    unfolding find_node_def
  proof (rule find_unique)
    fix y assume "y \<in> set (c_ns (plain_canvas env ws s r ovl))" and y: "n_id y = step_id w"
    then consider "y = s" | "y = r" | w' where "w' \<in> set ws" "y = the_node env w'"
      by (auto simp: plain_canvas_def)
    then show "y = the_node env w"
    proof cases
      case 3
      with y w ids have "step_id w' = step_id w" by simp
      with assms(2) w 3 have "w' = w" by (auto simp: distinct_map inj_on_def)
      with 3 show ?thesis by simp
    qed (use y w nr assms in auto)
  qed (use w ids in \<open>auto simp: plain_canvas_def\<close>)
qed

lemma plain_canvas_walk:
  assumes "\<forall>w \<in> set ws. plain env w \<and> ovl (key_of (jprop w ''kind'')) = None"
    and "distinct (map step_id ws)" "''start'' \<notin> step_id ` set ws"
    and "n_id s = ''start''" "n_id r = ''returned-node''"
  shows "ws = xs @ ys \<Longrightarrow> walk (plain_canvas env ws s r ovl) (map (the_node env) ys) r"
proof (induction ys arbitrary: xs)
  case Nil
  then show ?case by (simp add: assms(5) endsWith_def startsWith_def)
next
  case (Cons y ys)
  let ?g = "plain_canvas env ws s r ovl" and ?nx = "hd (map (the_node env) ys @ [r])"
  have plains: "\<forall>w \<in> set ws. plain env w" using assms(1) by blast
  note find = plain_canvas_find [OF plains assms(2-5), where ovl = ovl]
  from Cons.prems assms(1) have y: "plain env y" "ovl (key_of (jprop y ''kind'')) = None" "y \<in> set ws"
    by auto
  have nx: "n_id ?nx = hd (map step_id ys @ [''returned-node''])"
    using plains Cons.prems assms(5) by (cases ys) (auto simp: the_node_facts)
  have "find_node ?g (n_id ?nx) = Some ?nx"
  proof (cases ys)
    case Nil
    then show ?thesis using find(2) assms(5) by simp
  next
    case (Cons z zs)
    then show ?thesis using find(3) [of z] Cons.prems plains \<open>ws = xs @ y # ys\<close>
      by (auto simp: the_node_facts)
  qed
  moreover have "plain_json ?g (the_node env y)"
    using y by (auto simp: plain_json_def the_node_facts plain_def step_id_def plain_canvas_def)
  moreover have "connections ?g (the_node env y) = [out_edge (step_id y) (n_id ?nx)]"
    using chain_connection [of "map step_id xs" "step_id y" "map step_id ys" "''returned-node''"]
      assms(2,3) Cons.prems y nx
    by (auto simp: connections_def plain_canvas_def the_node_facts)
  moreover have "walk ?g (map (the_node env) ys) r"
    using Cons.IH [of "xs @ [y]"] Cons.prems by simp
  ultimately show ?case using y by (simp add: Let_def the_node_facts)
qed

section \<open>Loading and saving\<close>

lemma starting_node_ok:
  assumes "g_catalog env ''start'' = Some t"
  shows "\<exists>s. starting_node env config = Inr s \<and> n_id s = ''start''
     \<and> obj_get (n_information s) ''description'' = jprop config ''description''"
proof -
  have "toLowerCase ''start'' = ''start''" by code_simp
  with assms show ?thesis
    by (simp add: starting_node_def createNode_def splitInformationAndContent_def
        INFORMATION_FIELDS_def catalog_key_def js_or_def [of "JStr s" for s] Let_def addInformationsToNode_def)
qed

lemma returned_node_ok:
  assumes "g_catalog env ''returned'' = Some t"
  shows "\<exists>r. returned_node env config = Inr r \<and> n_id r = ''returned-node''
     \<and> obj_get (n_content r) ''returned'' = jprop config ''returned''
     \<and> obj_get (n_information r) ''description'' = jprop (jprop config ''returnedInformation'') ''description''"
proof -
  have "toLowerCase ''returned'' = ''returned''" by code_simp
  with assms show ?thesis
    by (simp add: returned_node_def createNode_def splitInformationAndContent_def
        INFORMATION_FIELDS_def catalog_key_def js_or_def [of "JStr s" for s] Let_def addInformationsToNode_def)
qed

lemma find_start_edge:
  assumes "''start'' \<notin> step_id ` set ws"
  shows "List.find (\<lambda>e. e_source e = ''start'') (c_es (plain_canvas env ws s r ovl))
     = Some (starting_edge (map (the_node env) ws))"
proof -
  have "List.find (\<lambda>e. e_source e = ''start'') (chain (map step_id ws) ''returned-node'') = None"
    using assms by (auto simp: find_None_iff_all dest!: chain_sources)
  then show ?thesis by (simp add: plain_canvas_def find_append)
qed

lemma starting_edge_target:
  "n_id r = ''returned-node'' \<Longrightarrow> e_target (starting_edge ns) = n_id (hd (ns @ [r]))"
  by (cases ns) (simp_all add: starting_edge_def mk_edge_def)

lemma graphToJson_plain:
  assumes "\<forall>w \<in> set ws. plain env w \<and> ovl (key_of (jprop w ''kind'')) = None"
    and "distinct (map step_id ws)" "''start'' \<notin> step_id ` set ws"
    and "n_id s = ''start''" "n_id r = ''returned-node''" and "length ws < fuel"
  shows "\<exists>cfg seen. graphToJson (plain_canvas env ws s r ovl) fuel = Inr (cfg, seen)
     \<and> jprop cfg ''steps'' = JArr (map (plain_output \<circ> the_node env) ws)
     \<and> jprop cfg ''kind'' = JStr ''workflow'' \<and> jprop cfg ''id'' = JStr ''start''
     \<and> jprop cfg ''returned'' = obj_get (n_content r) ''returned''
     \<and> jprop cfg ''description'' = obj_get (n_information s) ''description''
     \<and> jprop (jprop cfg ''returnedInformation'') ''description'' = obj_get (n_information r) ''description''"
proof -
  let ?g = "plain_canvas env ws s r ovl" and ?ns = "map (the_node env) ws"
  have plains: "\<forall>w \<in> set ws. plain env w" using assms(1) by blast
  note find = plain_canvas_find [OF plains assms(2-5), where ovl = ovl]
  have "keeps (start_json s r) (start_json s r) []"
    by (simp add: keeps_def start_json_def is_object_def)
  then obtain w seen where w: "nodeToJson ?g fuel (Some (hd (?ns @ [r]))) (start_json s r) False [] True = Inr (w, seen)"
    "keeps (start_json s r) w (map plain_output ?ns)" "jprop w ''returned'' = obj_get (n_content r) ''returned''"
    using walk_json [OF plain_canvas_walk [OF assms(1-5), of "[]" ws], of "start_json s r" "start_json s r" "[]" fuel "[]" True] assms(6)
    by auto
  have nx: "find_node ?g (n_id (hd (?ns @ [r]))) = Some (hd (?ns @ [r]))"
    using find(2) find(3) plains assms(5) by (cases ws) (simp_all add: the_node_facts)
  from w(2) obtain fs where fs: "w = JObj fs" "obj_get fs ''kind'' = JStr ''workflow''"
    "obj_get fs ''id'' = JStr ''start''" "obj_get fs ''steps'' = JArr (map plain_output ?ns)" by (rule keepsE)
  have "obj_get fs ''description'' = obj_get (n_information s) ''description''"
    using keeps_frame [OF w(2), of "''description''"] by (simp add: fs start_json_def)
  with fs w(1,3) nx show ?thesis
    by (simp add: graphToJson_def find(1,2) find_start_edge [OF assms(3)] Let_def
        starting_edge_target [OF assms(5)] obj_get_spread)
qed

text \<open>C1. Loading a workflow whose steps are plain into the designer and saving it again
  returns the workflow's steps, in order and with every field, each with a position, and
  its returned value and descriptions: for every such workflow, however long.\<close>

theorem load_save_plain:
  assumes "jprop config ''steps'' = JArr ws"
    and "\<forall>w \<in> set ws. plain env w \<and> ovl (key_of (jprop w ''kind'')) = None"
    and "distinct (map step_id ws)" and "''start'' \<notin> step_id ` set ws"
    and "g_catalog env ''start'' = Some ts" and "g_catalog env ''returned'' = Some tr"
    and "length ws < fuel"
  shows "\<exists>ns es cfg seen. initializeGraph env fuel n config \<lparr>o_nodes = [], o_edges = []\<rparr> [] = Inr (ns, es)
     \<and> graphToJson \<lparr>c_ns = ns, c_es = es, c_overload = ovl\<rparr> fuel = Inr (cfg, seen)
     \<and> (\<exists>rs. jprop cfg ''steps'' = JArr rs \<and> list_all2 same_step ws rs)
     \<and> (\<forall>k. k = ''returned'' \<or> k = ''description'' \<longrightarrow> jprop cfg k = jprop config k)
     \<and> jprop (jprop cfg ''returnedInformation'') ''description''
         = jprop (jprop config ''returnedInformation'') ''description''"
proof -
  obtain s where s: "starting_node env config = Inr s" "n_id s = ''start''"
    "obj_get (n_information s) ''description'' = jprop config ''description''"
    using starting_node_ok [OF assms(5)] by blast
  obtain r where r: "returned_node env config = Inr r" "n_id r = ''returned-node''"
    "obj_get (n_content r) ''returned'' = jprop config ''returned''"
    "obj_get (n_information r) ''description'' = jprop (jprop config ''returnedInformation'') ''description''"
    using returned_node_ok [OF assms(6)] by blast
  have plains: "\<forall>w \<in> set ws. plain env w" using assms(2) by blast
  have init: "initializeGraph env fuel n config \<lparr>o_nodes = [], o_edges = []\<rparr> []
      = Inr (s # map (the_node env) ws @ [r],
             chain (map step_id ws) ''returned-node'' @ [starting_edge (map (the_node env) ws)])"
    by (simp add: initializeGraph_def s(1) r(1) steps_of_def assms(1) buildGraph_plain [OF plains assms(7)])
  have "list_all2 same_step ws (map (plain_output \<circ> the_node env) ws)"
    using plains by (simp add: list_all2_conv_all_nth plain_output_same)
  with init graphToJson_plain [OF assms(2-4) s(2) r(2) assms(7)] s(3) r(3,4) show ?thesis
    by (auto simp: plain_canvas_def)
qed

section \<open>An instance\<close>

definition sample_steps :: "js list" where
  "sample_steps = [JObj [(''id'', JStr ''a''), (''kind'', JStr ''assign''), (''values'', JArr [])],
                   JObj [(''id'', JStr ''b''), (''kind'', JStr ''pause''), (''enabled'', JBool False)]]"

lemma sample_lower: "toLowerCase ''assign'' = ''assign''" "toLowerCase ''pause'' = ''pause''"
  by code_simp+

lemma sample_steps_plain: "\<forall>w \<in> set sample_steps. plain sample_env w"
  by (simp add: sample_steps_def plain_def sample_env_def sample_template_def nested_kinds_def
      sample_lower endsWith_def startsWith_def)

lemma load_save_plain_witness:
  "\<exists>ns es cfg seen. initializeGraph sample_env 3 0 (JObj [(''steps'', JArr sample_steps)])
        \<lparr>o_nodes = [], o_edges = []\<rparr> [] = Inr (ns, es)
     \<and> graphToJson \<lparr>c_ns = ns, c_es = es, c_overload = (\<lambda>k. None)\<rparr> 3 = Inr (cfg, seen)
     \<and> (\<exists>rs. jprop cfg ''steps'' = JArr rs \<and> list_all2 same_step sample_steps rs)"
  using load_save_plain [of "JObj [(''steps'', JArr sample_steps)]" sample_steps sample_env
      "\<lambda>k. None" "sample_template ''start''" "sample_template ''returned''" 3 0]
    sample_steps_plain
  by (simp add: sample_steps_def step_id_def sample_env_def) blast

end
