(* ===== verification/Workflow_Json_Facts.thy ===== *)
theory Workflow_Json_Facts
  imports Workflow_Roundtrip
begin

text \<open>
  What saving guarantees and where it does not: the result does not depend on the fuel, a
  cycle of nodes is never saved, and how the common tail of an \<open>if\<close> or a \<open>switch\<close> is
  factored out.
\<close>

section \<open>Fuel\<close>

definition rec_le :: "json_rec \<Rightarrow> json_rec \<Rightarrow> bool" where
  "rec_le rec rec' \<longleftrightarrow> (\<forall>nd cur dis seen. le_res (rec nd cur dis seen) (rec' nd cur dis seen))"

lemma rec_leD: "rec_le rec rec' \<Longrightarrow> le_res (rec nd cur dis seen) (rec' nd cur dis seen)"
  by (simp add: rec_le_def)

lemma sub_json_le: "rec_le rec rec' \<Longrightarrow> le_res (sub_json g rec i seen) (sub_json g rec' i seen)"
  unfolding sub_json_def by (intro fuel_intros rec_leD)

lemma getNode_le: "rec_le rec rec' \<Longrightarrow> le_res (getNode g rec e seen) (getNode g rec' e seen)"
  unfolding getNode_def by (cases e) (auto intro!: fuel_intros sub_json_le)

lemma getNested_le: "rec_le rec rec' \<Longrightarrow> le_res (getNested g rec e seen) (getNested g rec' e seen)"
  unfolding getNested_def by (cases e) (auto intro!: fuel_intros sub_json_le)

lemma json_if_le: "rec_le rec rec' \<Longrightarrow> le_res (json_if g rec node cs seen) (json_if g rec' node cs seen)"
  unfolding json_if_def by (auto intro!: le_res_bind getNested_le split: prod.split)

lemma json_try_le: "rec_le rec rec' \<Longrightarrow> le_res (json_try g rec node cs seen) (json_try g rec' node cs seen)"
  unfolding json_try_def by (auto intro!: le_res_bind getNode_le split: prod.split)

lemma json_loop_le: "rec_le rec rec' \<Longrightarrow> le_res (json_loop g rec node cs seen) (json_loop g rec' node cs seen)"
  unfolding json_loop_def Let_def by (auto intro!: le_res_bind getNode_le split: prod.split)

lemma json_map_le: "rec_le rec rec' \<Longrightarrow> le_res (json_map g rec node cs seen) (json_map g rec' node cs seen)"
  unfolding json_map_def Let_def by (auto intro!: le_res_bind getNested_le split: prod.split)

lemma json_filter_le:
  assumes "rec_le rec rec'"
  shows "le_res (json_filter g rec node seen) (json_filter g rec' node seen)"
  unfolding json_filter_def by (auto intro!: le_res_bind rec_leD [OF assms] split: option.split)

lemma json_paths_le:
  "rec_le rec rec' \<Longrightarrow> le_res (json_paths g rec node cs i hs seen) (json_paths g rec' node cs i hs seen)"
proof (induction hs arbitrary: i seen)
  case (Cons h hs)
  have "le_res (json_paths g rec node cs i hs seen) (json_paths g rec' node cs i hs seen)" for i seen
    using Cons by simp
  then show ?case
    by (auto intro!: le_res_bind sub_json_le Cons.prems split: option.split prod.split)
qed simp

lemma json_switch_le:
  "rec_le rec rec' \<Longrightarrow> le_res (json_switch g rec node cs seen) (json_switch g rec' node cs seen)"
  unfolding json_switch_def by (auto intro!: le_res_bind json_paths_le split: prod.split)

lemma json_branch_le:
  "rec_le rec rec' \<Longrightarrow> le_res (json_branch g rec node cs seen) (json_branch g rec' node cs seen)"
  unfolding json_branch_def Let_def
  by (simp add: json_if_le json_try_le json_loop_le json_map_le json_filter_le json_switch_le)

lemma json_step_le:
  assumes "rec_le rec rec'"
  shows "le_res (json_step g rec node cur dis seen st) (json_step g rec' node cur dis seen st)"
proof -
  have one: "le_res (rbind (rec nd cur dis s) f) (rbind (rec' nd cur dis s) f)" for nd cur dis s and f :: "js \<times> seen list \<Rightarrow> json_out"
    by (rule le_res_bind [OF rec_leD [OF assms] le_res_refl])
  have tail: "le_res
      (case nx of Some nd \<Rightarrow> rbind (rec (Some nd) out False s) removeReturnedFromWorkflow
        | None \<Rightarrow> (case oe of Some e \<Rightarrow> rbind (rec (f e) out False s) removeReturnedFromWorkflow | None \<Rightarrow> z))
      (case nx of Some nd \<Rightarrow> rbind (rec' (Some nd) out False s) removeReturnedFromWorkflow
        | None \<Rightarrow> (case oe of Some e \<Rightarrow> rbind (rec' (f e) out False s) removeReturnedFromWorkflow | None \<Rightarrow> z))"
    for nx out s f z and oe :: "wedge option"
    by (cases nx; cases oe) (simp_all add: one)
  show ?thesis
    unfolding json_step_def Let_def
    by (simp only: le_res_refl split: if_split)
      (intro conjI impI le_res_bind json_branch_le assms, simp_all add: tail le_res_bind split: prod.split)
qed

lemma nodeToJson_more_fuel:
  "le_res (nodeToJson g fuel nd cur dis seen st) (nodeToJson g (Suc fuel) nd cur dis seen st)"
proof (induction fuel arbitrary: nd cur dis seen st)
  case 0
  then show ?case by (simp add: le_res_def)
next
  case (Suc fuel)
  have "rec_le (\<lambda>nd cur dis seen. nodeToJson g fuel nd cur dis seen False)
      (\<lambda>nd cur dis seen. nodeToJson g (Suc fuel) nd cur dis seen False)"
    using Suc by (simp add: rec_le_def)
  then show ?case by (cases nd) (simp_all add: json_step_le)
qed

lemma graphToJson_more_fuel: "le_res (graphToJson g fuel) (graphToJson g (Suc fuel))"
  unfolding graphToJson_def Let_def
  by (auto intro!: le_res_bind nodeToJson_more_fuel split: option.split)

lemma handleSave_more_fuel: "le_res (handleSave g fuel) (handleSave g (Suc fuel))"
  unfolding handleSave_def by (intro fuel_intros graphToJson_more_fuel)

interpretation save: fueled "\<lambda>fuel g. handleSave g fuel"
  using handleSave_more_fuel by unfold_locales (metis le_res_def)

text \<open>
  What is saved does not depend on the depth of the call stack: two runs of \<open>handleSave\<close>
  on one canvas that both return, return the same.
\<close>

lemma handleSave_deterministic:
  assumes "handleSave g n = Inr a" and "handleSave g m = Inr b"
  shows "a = b"
  using assms by (rule save.answer_unique)

definition empty_canvas :: canvas where
  "empty_canvas = \<lparr>
     c_ns = (case (starting_node sample_env (JObj []), returned_node sample_env (JObj [])) of
        (Inr s, Inr r) \<Rightarrow> [s, r] | _ \<Rightarrow> []),
     c_es = [starting_edge []], c_overload = (\<lambda>k. None)\<rparr>"

lemma empty_canvas_runs: "\<not> isl (handleSave empty_canvas 1)" "\<not> isl (handleSave empty_canvas 7)"
  by code_simp+

lemma empty_canvas_saved: "\<exists>a. handleSave empty_canvas 1 = Inr a" "\<exists>a. handleSave empty_canvas 7 = Inr a"
  using empty_canvas_runs by (auto simp: isl_def sum.case_eq_if split: sum.splits) (metis isl_def sum.exhaust_sel)+

lemma handleSave_deterministic_witness:
  "\<exists>a b. handleSave empty_canvas 1 = Inr a \<and> handleSave empty_canvas 7 = Inr b \<and> a = b"
  using empty_canvas_saved handleSave_deterministic [of empty_canvas 1 _ 7] by metis

section \<open>Cycles\<close>

text \<open>A set of plain nodes in which each node's first output edge stays.\<close>

definition cyclic :: "canvas \<Rightarrow> wnode set \<Rightarrow> bool" where
  "cyclic g S \<longleftrightarrow> (\<forall>p \<in> S. plain_json g p \<and> (\<exists>e q. find_conn ''output'' (connections g p) = Some e
     \<and> find_node g (e_target e) = Some q \<and> q \<in> S))"

definition accumulates :: "js \<Rightarrow> bool" where
  "accumulates w \<longleftrightarrow> (\<exists>fs acc. w = JObj fs \<and> obj_get fs ''kind'' = JStr ''workflow'' \<and> obj_get fs ''steps'' = JArr acc)"

lemma accumulates_append: "accumulates w \<Longrightarrow> \<exists>w'. append_step w x = Inr w' \<and> accumulates w'"
  by (auto simp: accumulates_def append_step_def steps_of_def obj_get_spread)

lemma cycle_overflows:
  assumes "cyclic g S"
  shows "p \<in> S \<Longrightarrow> accumulates w \<Longrightarrow> nodeToJson g fuel (Some p) w False seen st = Inl StackOverflow"
proof (induction fuel arbitrary: p w seen st)
  case (Suc fuel)
  from assms Suc.prems(1) obtain e q where p: "plain_json g p" and e: "find_conn ''output'' (connections g p) = Some e"
    "find_node g (e_target e) = Some q" "q \<in> S"
    unfolding cyclic_def by blast
  from p have "\<not> endsWith (n_id p) ''returned-node''" by (simp add: plain_json_def)
  moreover obtain w' where "append_step w (plain_output p) = Inr w'" "accumulates w'"
    using accumulates_append [OF Suc.prems(2)] by blast
  ultimately show ?case
    using e Suc.IH [OF e(3)] by (simp add: json_step_def Let_def json_branch_plain [OF p] plain_output_def)
qed simp

text \<open>
  A workflow whose start leads into a cycle of plain nodes is never saved: \<open>handleSave\<close>
  overflows the stack whatever its depth, as \<open>nodeToJson\<close> follows the output edges without a
  look at the nodes already seen.
\<close>

lemma cycle_never_saved:
  assumes "cyclic g S" and "find_node g ''start'' = Some s" and "find_node g ''returned-node'' = Some r"
    and "List.find (\<lambda>e. e_source e = ''start'') (c_es g) = Some e"
    and "find_node g (e_target e) = Some p" and "p \<in> S"
  shows "handleSave g fuel = Inl StackOverflow"
proof -
  have "accumulates (start_json s r)" by (simp add: accumulates_def start_json_def)
  from cycle_overflows [OF assms(1,6) this] assms(2-5) show ?thesis
    by (simp add: handleSave_def graphToJson_def Let_def)
qed

definition loop_canvas :: canvas where
  "loop_canvas = (let a = the_node sample_env (hd sample_steps) in
     \<lparr>c_ns = a # c_ns empty_canvas, c_es = [starting_edge [a], out_edge (n_id a) (n_id a)], c_overload = (\<lambda>k. None)\<rparr>)"

lemma loop_canvas_facts:
  "the (find_node loop_canvas ''a'') \<in> {the (find_node loop_canvas ''a'')}"
  "find_node loop_canvas ''a'' \<noteq> None" "find_node loop_canvas ''start'' \<noteq> None"
  "find_node loop_canvas ''returned-node'' \<noteq> None"
  "map_option e_target (List.find (\<lambda>e. e_source e = ''start'') (c_es loop_canvas)) = Some ''a''"
  "map_option e_target (find_conn ''output'' (connections loop_canvas (the (find_node loop_canvas ''a'')))) = Some ''a''"
  "n_kind (the (find_node loop_canvas ''a'')) = JStr ''assign''"
  "n_id (the (find_node loop_canvas ''a'')) = ''a''"
  by code_simp+

lemma cycle_never_saved_witness: "handleSave loop_canvas 4000 = Inl StackOverflow"
proof -
  let ?a = "the (find_node loop_canvas ''a'')"
  have "cyclic loop_canvas {?a}"
    using loop_canvas_facts
    by (auto simp: cyclic_def plain_json_def nested_kinds_def endsWith_def startsWith_def loop_canvas_def Let_def)
  then show ?thesis
    using loop_canvas_facts by (auto intro: cycle_never_saved)
qed

section \<open>The common tail of an if\<close>

text \<open>
  Factoring the steps both branches of an \<open>if\<close> end with: the branches keep a prefix of
  their steps each, no step kept in one is a step of the other, and the node the tail starts
  with is the first step of the \<open>then\<close> branch that is cut off. Nothing changes when the
  branches share no step.
\<close>

lemma factor_common_separates:
  assumes "factor_common g thenNode elseNode = Inr (t', e', nx)"
    and "truthy thenNode" "truthy elseNode"
    and "steps_of thenNode = Inr tsteps" "steps_of elseNode = Inr esteps"
    and "step_ids tsteps = Inr tids" "step_ids esteps = Inr eids"
  shows "if set tids \<inter> set eids = {} then t' = thenNode \<and> e' = elseNode \<and> nx = None
     else (\<exists>c d. c < length tids \<and> d < length eids
       \<and> jprop t' ''steps'' = JArr (take c tsteps) \<and> jprop e' ''steps'' = JArr (take d esteps)
       \<and> set (take c tids) \<inter> set eids = {} \<and> set (take d eids) \<inter> set tids = {}
       \<and> nx = find_node_js g (tids ! c) \<and> tids ! c \<in> set eids)"
proof (cases "find_index (\<lambda>i. i \<in> set eids) tids")
  case None
  then have "set tids \<inter> set eids = {}" by (auto simp: find_index_None)
  with None assms show ?thesis by (simp add: factor_common_def)
next
  case (Some c)
  note c = find_index_Some [OF Some]
  then have "tids ! c \<in> set tids" "tids ! c \<in> set eids" by auto
  then obtain d where Some': "find_index (\<lambda>i. i \<in> set tids) eids = Some d"
    by (cases "find_index (\<lambda>i. i \<in> set tids) eids") (auto simp: find_index_None)
  note d = find_index_Some [OF Some']
  have take: "set (take k xs) \<inter> A = {}" if "k < length xs" "\<forall>j < k. xs ! j \<notin> A" for k A and xs :: "js list"
    using that by (auto simp: in_set_conv_nth)
  have "t' = cut_steps thenNode c tsteps" "e' = cut_steps elseNode d esteps" "nx = find_node_js g (tids ! c)"
    using Some Some' assms by (simp_all add: factor_common_def)
  moreover have "set tids \<inter> set eids \<noteq> {}" using \<open>tids ! c \<in> set tids\<close> \<open>tids ! c \<in> set eids\<close> by blast
  ultimately show ?thesis
    using c d take [of c tids "set eids"] take [of d eids "set tids"] by (auto simp: cut_steps_def)
qed

definition sample_flow :: "string list \<Rightarrow> js list" where
  "sample_flow is = map (\<lambda>i. JObj [(''id'', JStr i), (''kind'', JStr ''assign'')]) is"

definition flow_of :: "string list \<Rightarrow> js" where
  "flow_of is = JObj [(''kind'', JStr ''workflow''), (''steps'', JArr (sample_flow is))]"

lemma sample_flow_ids: "step_ids (sample_flow is) = Inr (map JStr is)"
  by (induction "is") (simp_all add: step_ids_def sample_flow_def)

lemma flow_of_facts: "truthy (flow_of is)" "steps_of (flow_of is) = Inr (sample_flow is)"
  by (simp_all add: flow_of_def steps_of_def)

lemma factor_common_separates_witness:
  "\<exists>t' e' nx c d. factor_common loop_canvas (flow_of [''x'', ''y'', ''z'']) (flow_of [''w'', ''z'']) = Inr (t', e', nx)
     \<and> jprop t' ''steps'' = JArr (take c (sample_flow [''x'', ''y'', ''z'']))
     \<and> jprop e' ''steps'' = JArr (take d (sample_flow [''w'', ''z'']))"
proof -
  let ?t = "flow_of [''x'', ''y'', ''z'']" and ?e = "flow_of [''w'', ''z'']"
  obtain t' e' nx where r: "factor_common loop_canvas ?t ?e = Inr (t', e', nx)"
    by (simp add: factor_common_def flow_of_facts sample_flow_ids)
  have "set (map JStr [''x'', ''y'', ''z'']) \<inter> set (map JStr [''w'', ''z'']) \<noteq> {}" by simp
  from factor_common_separates [OF r flow_of_facts(1,1,2,2) sample_flow_ids sample_flow_ids, unfolded if_not_P [OF this]] r
  show ?thesis by blast
qed

section \<open>The common tail of a switch\<close>

lemma cut_path_fields:
  "cut_path i p = Inr q \<Longrightarrow> k \<notin> {''node'', ''kind'', ''steps''} \<Longrightarrow> jprop q k = JUndef"
  by (auto simp: cut_path_def Let_def emptyWorkflow_def split: if_splits)

lemma rmap_set: "rmap f xs = Inr ys \<Longrightarrow> y \<in> set ys \<Longrightarrow> \<exists>x \<in> set xs. f x = Inr y"
  by (induction xs arbitrary: ys) auto

text \<open>
  Factoring the steps all paths of a \<open>switch\<close> end with loses the predicates: when a
  common tail was found (\<open>nextNode\<close> is a node), no saved path has a \<open>predicate\<close>, whatever the
  paths of the node's content were.
\<close>

lemma switch_tail_drops_predicates:
  assumes "json_switch g rec node cs seen = Inr (w, seen', Some nx)"
    and "jprop w ''paths'' = JArr ps" and "p \<in> set ps"
  shows "jprop p ''predicate'' = JUndef"
proof -
  from assms(1) obtain commonId paths cut where "rmap (cut_path commonId) paths = Inr cut"
    and "w = JObj (spread (n_content node) [(''paths'', JArr cut), (''kind'', n_kind node)])"
    by (auto simp: json_switch_def Let_def neq_Nil_conv split: list.splits)
  with assms(2,3) show ?thesis
    by (auto simp: obj_get_spread dest!: rmap_set cut_path_fields [where k = "''predicate''"])
qed

definition sample_switch :: wnode where
  "sample_switch = (the_node sample_env (JObj [(''id'', JStr ''s''), (''kind'', JStr ''switch''),
     (''paths'', JArr [JObj [(''predicate'', JBool True)], JObj [(''predicate'', JBool False)]])]))
       \<lparr>n_sourceHandles := [path_id 0, path_id 1]\<rparr>"

definition sample_rec :: json_rec where
  "sample_rec = (\<lambda>nd cur dis seen. Inr (flow_of [''a'', ''x''], seen))"

definition sample_edges :: "wedge list" where
  "sample_edges = map (\<lambda>i. mk_edge (path_id i) ''s'' (path_id i) ''a'' ''input-a'') [0, 1]"

lemma sample_switch_runs:
  "case json_switch loop_canvas sample_rec sample_switch sample_edges [] of
     Inr (w, seen, Some nx) \<Rightarrow> (case jprop w ''paths'' of JArr [p, q] \<Rightarrow> True | _ \<Rightarrow> False) | _ \<Rightarrow> False"
  by code_simp

lemma switch_tail_drops_predicates_witness:
  "\<exists>w seen nx p q. json_switch loop_canvas sample_rec sample_switch sample_edges [] = Inr (w, seen, Some nx)
     \<and> jprop w ''paths'' = JArr [p, q] \<and> jprop p ''predicate'' = JUndef \<and> jprop q ''predicate'' = JUndef"
proof -
  obtain w seen nx p q where r: "json_switch loop_canvas sample_rec sample_switch sample_edges [] = Inr (w, seen, Some nx)"
    "jprop w ''paths'' = JArr [p, q]"
    using sample_switch_runs by (auto split: sum.splits prod.splits option.splits js.splits list.splits)
  with switch_tail_drops_predicates [OF r, of p] switch_tail_drops_predicates [OF r, of q] show ?thesis
    by auto
qed

end
