(* ===== verification/Workflow_Editor.thy ===== *)
theory Workflow_Editor
  imports Workflow_Json_Facts
begin

text \<open>
  The handlers of the workflow designer (\<open>extensions/workflows/WorkflowsDesigner.js\<close>) as
  steps of a state machine: connecting, adding, editing and deleting nodes and handles, and
  the highlighting the debugger drives.

  \<^item> The state holds the designer's \<open>nodes\<close>, \<open>edges\<close> and \<open>activeNode\<close>, and the counter of
    the \<open>uuid\<close> calls.
  \<^item> React Flow's \<open>addEdge\<close> and \<open>screenToFlowPosition\<close> are parameters; \<open>adds\<close> is what
    its documentation says of \<open>addEdge\<close>.
  \<^item> Element heights and \<open>updateNodeInternals\<close>, which only redraw, are left out.
\<close>

section \<open>State\<close>

text \<open>\<open>activeNode\<close>: \<open>false\<close>, \<open>true\<close> (the new-task button), a node being edited, or a node
  with the handle a connection was dragged from (id, \<open>position === 'left'\<close>) and where it ended.\<close>

datatype active =
    Closed
  | Picker
  | Editing string
  | FromHandle string string bool js

record editor =
  ed_nodes :: "wnode list"
  ed_edges :: "wedge list"
  ed_active :: active
  ed_uuid :: nat

record flow_lib =
  fl_addEdge :: "wedge \<Rightarrow> wedge list \<Rightarrow> wedge list"
  fl_screen :: "js \<Rightarrow> js"

section \<open>Nodes\<close>

definition on_node :: "string \<Rightarrow> (wnode \<Rightarrow> wnode) \<Rightarrow> editor \<Rightarrow> editor" where
  "on_node i f s = s\<lparr>ed_nodes := map (\<lambda>n. if n_id n = i then f n else n) (ed_nodes s)\<rparr>"

definition toggleBreakPoint :: "string \<Rightarrow> editor \<Rightarrow> editor" where
  "toggleBreakPoint nodeId = on_node nodeId (\<lambda>n. n\<lparr>n_information := AList.update ''breakpoint''
     (JBool (\<not> truthy (obj_get (n_information n) ''breakpoint''))) (n_information n)\<rparr>)"

text \<open>\<open>data: {...node.data, ...changes}\<close> for the keys the callers give: \<open>information\<close>,
  \<open>content\<close> and the kind of an operator.\<close>

definition with_data :: "obj \<Rightarrow> wnode \<Rightarrow> wnode" where
  "with_data changes n = n\<lparr>
     n_information := (if obj_has changes ''information'' then entries (obj_get changes ''information'') else n_information n),
     n_content := (if obj_has changes ''content'' then entries (obj_get changes ''content'') else n_content n),
     n_extra := spread (n_extra n) (obj_del ''information'' (obj_del ''content'' changes))\<rparr>"

definition handleDataChange :: "string \<Rightarrow> obj \<Rightarrow> editor \<Rightarrow> editor" where
  "handleDataChange nodeId newData = on_node nodeId (with_data newData)"

text \<open>
  \<open>updateData\<close> edits the nodes of the render that made the function, \<open>captured\<close>, and not those of the state.
\<close>

definition updateData :: "wnode list \<Rightarrow> string \<Rightarrow> obj \<Rightarrow> editor \<Rightarrow> editor" where
  "updateData captured nodeId changes s =
     s\<lparr>ed_nodes := map (\<lambda>n. if n_id n = nodeId then with_data changes n else n) captured\<rparr>"

text \<open>The editor's form (\<open>ModalEditor.js\<close>): what its \<open>onChange\<close> hands over.\<close>

definition modal_change :: "bool \<Rightarrow> string \<Rightarrow> string \<Rightarrow> js \<Rightarrow> editor \<Rightarrow> editor" where
  "modal_change operators kind i newData =
     (let (information, content) = splitInformationAndContent newData in
      if operators then handleDataChange i [(kind, JObj content), (''information'', JObj information)]
      else handleDataChange i [(''information'', JObj information), (''content'', JObj content)])"

section \<open>Handles\<close>

text \<open>
  The elements an array spread \<open>[...(v || [])]\<close> gives; spreading anything but an array or a
  string throws.
\<close>

definition spread_array :: "js \<Rightarrow> js list res" where
  "spread_array v = (case v of JArr xs \<Rightarrow> Inr xs | JStr s \<Rightarrow> Inr (map (\<lambda>c. JStr [c]) s)
     | v \<Rightarrow> if truthy v then Inl TypeError else Inr [])"

text \<open>\<open>appendSourceHandle\<close>: without a prefix the code reads the undeclared name \<open>path\<close>.\<close>

definition append_handle :: "string \<Rightarrow> string \<Rightarrow> wnode \<Rightarrow> wnode res" where
  "append_handle handlePrefix sourcesField n =
     (if handlePrefix = [] then Inl ReferenceError
      else rbind (spread_array (obj_get (n_content n) sourcesField)) (\<lambda>xs.
        Inr (n\<lparr>n_sourceHandles := n_sourceHandles n @ [dash handlePrefix (nat_str (length (n_sourceHandles n)))],
               n_content := AList.update sourcesField (JArr (xs @ [JObj []])) (n_content n)\<rparr>)))"

text \<open>\<open>filter((_, i) => i !== index)\<close>; the index is \<open>-1\<close> when the handle is not there.\<close>

definition remove_at :: "nat option \<Rightarrow> 'a list \<Rightarrow> 'a list" where
  "remove_at k xs = (case k of None \<Rightarrow> xs | Some i \<Rightarrow> take i xs @ drop (Suc i) xs)"

definition delete_handle :: "string \<Rightarrow> string \<Rightarrow> wnode \<Rightarrow> wnode res" where
  "delete_handle handleId sourcesField n =
     (case obj_get (n_content n) sourcesField of
        JArr xs \<Rightarrow> Inr (n\<lparr>n_sourceHandles := filter (\<lambda>h. h \<noteq> handleId) (n_sourceHandles n),
             n_content := AList.update sourcesField
               (JArr (remove_at (find_index (\<lambda>h. h = handleId) (n_sourceHandles n)) xs)) (n_content n)\<rparr>)
      | _ \<Rightarrow> Inl TypeError)"

definition on_node_res :: "string \<Rightarrow> (wnode \<Rightarrow> wnode res) \<Rightarrow> editor \<Rightarrow> editor res" where
  "on_node_res i f s = rbind (rmap (\<lambda>n. if n_id n = i then f n else Inr n) (ed_nodes s)) (\<lambda>ns.
     Inr (s\<lparr>ed_nodes := ns\<rparr>))"

definition appendSourceHandle :: "string \<Rightarrow> string \<Rightarrow> string \<Rightarrow> editor \<Rightarrow> editor res" where
  "appendSourceHandle nodeId handlePrefix sourcesField =
     on_node_res nodeId (append_handle handlePrefix sourcesField)"

definition deleteHandle :: "string \<Rightarrow> string \<Rightarrow> string \<Rightarrow> editor \<Rightarrow> editor res" where
  "deleteHandle nodeId handleId sourcesField s =
     rbind (on_node_res nodeId (delete_handle handleId sourcesField) s) (\<lambda>s.
       Inr (s\<lparr>ed_edges := filter (\<lambda>e. e_sourceHandle e \<noteq> handleId) (ed_edges s)\<rparr>))"

section \<open>Adding, deleting, connecting\<close>

definition onNodeDelete :: "string \<Rightarrow> editor \<Rightarrow> editor" where
  "onNodeDelete nodeId s = s\<lparr>ed_nodes := filter (\<lambda>n. n_id n \<noteq> nodeId) (ed_nodes s),
     ed_edges := filter (\<lambda>e. e_source e \<noteq> nodeId \<and> e_target e \<noteq> nodeId) (ed_edges s)\<rparr>"

text \<open>A connection as React Flow hands it over.\<close>

record connection =
  cn_source :: string
  cn_sourceHandle :: string
  cn_target :: string
  cn_targetHandle :: string

definition onConnect :: "flow_lib \<Rightarrow> connection \<Rightarrow> editor \<Rightarrow> editor" where
  "onConnect lib c s =
     (let edge = mk_edge '''' (cn_source c) (cn_sourceHandle c) (cn_target c) (cn_targetHandle c) in
      if \<forall>e \<in> set (ed_edges s). e_sourceHandle e \<noteq> e_sourceHandle edge
      then s\<lparr>ed_edges := fl_addEdge lib edge (ed_edges s)\<rparr> else s)"

definition onConnectEnd :: "bool \<Rightarrow> string \<Rightarrow> string \<Rightarrow> bool \<Rightarrow> js \<Rightarrow> editor \<Rightarrow> editor" where
  "onConnectEnd isValid fromNode fromHandle left event s =
     (if isValid then s else s\<lparr>ed_active := FromHandle fromNode fromHandle left event\<rparr>)"

definition createNodeFromUI :: "genv \<Rightarrow> string \<Rightarrow> js \<Rightarrow> wnode res" where
  "createNodeFromUI env i item =
     (let (information, _) = splitInformationAndContent item;
          functionData = (if jprop item ''category'' = JStr ''functions'' then [(''function'', jprop item ''name'')]
            else if jprop item ''category'' = JStr ''udfs''
            then [(''function'', JStr (''self.'' @ key_of (jprop item ''name'')))] else [])
      in rbind (catalog_key information) (\<lambda>key.
         case g_catalog env key of None \<Rightarrow> Inl TypeError
         | Some t \<Rightarrow> Inr \<lparr>n_id = i, n_type = js_or (t_type t) (JStr ''simple''),
             n_position = js_or (jprop item ''position'') origin,
             n_kind = t_kind t, n_display_name = t_display_name t,
             n_sources = (case t_sources t of None \<Rightarrow> [] | Some xs \<Rightarrow> xs),
             n_targets = (case t_targets t of None \<Rightarrow> [] | Some xs \<Rightarrow> xs),
             n_information = AList.update ''description''
               (js_or (obj_get information ''description'') (t_description t)) information,
             n_content = functionData, n_targetHandles = [], n_sourceHandles = [], n_custom = [],
             n_functions = False, n_style = JUndef, n_measured = JUndef, n_highlighted = JUndef,
             n_error = False, n_extra = []\<rparr>))"

text \<open>\<open>{ x: startPosition.x, y: startPosition.y - 150 }\<close>; a coordinate that is no number gives
  a \<open>NaN\<close>, which \<open>JUndef\<close> stands for.\<close>

definition above :: "js \<Rightarrow> js" where
  "above p = JObj [(''x'', jprop p ''x''),
     (''y'', case jprop p ''y'' of JNum y \<Rightarrow> JNum (y - 150) | _ \<Rightarrow> JUndef)]"

definition picked_edge :: "string \<Rightarrow> string \<Rightarrow> active \<Rightarrow> wedge list" where
  "picked_edge uuid new_id a =
     (case a of
        FromHandle i h left _ \<Rightarrow>
          [if left then mk_edge uuid new_id (dash ''output'' new_id) i h
           else mk_edge uuid i h new_id (dash ''input'' new_id)]
      | _ \<Rightarrow> [])"

definition handleSelectNode :: "genv \<Rightarrow> flow_lib \<Rightarrow> js \<Rightarrow> editor \<Rightarrow> editor res" where
  "handleSelectNode env lib item s =
     (case find_node \<lparr>c_ns = ed_nodes s, c_es = [], c_overload = (\<lambda>_. None)\<rparr> ''start'' of
        None \<Rightarrow> Inl TypeError
      | Some st \<Rightarrow>
          (let n = ed_uuid s;
               new_id = (if truthy (jprop item ''operator'') then dash (g_uuid env n) ''operator'' else g_uuid env n);
               position = (case ed_active s of FromHandle _ _ _ p \<Rightarrow> fl_screen lib p | _ \<Rightarrow> above (n_position st))
           in rbind (createNodeFromUI env (g_uuid env (n + 1)) item) (\<lambda>node.
              let node = (addInformationsToNode node)\<lparr>n_id := new_id,
                    n_type := js_or (jprop item ''type'') (JStr ''simple''), n_position := position,
                    n_targetHandles := map (\<lambda>t. dash t new_id) (''input'' # n_targets node),
                    n_sourceHandles := map (\<lambda>t. dash t new_id) (n_sources node)\<rparr>
              in Inr \<lparr>ed_nodes = ed_nodes s @ [node],
                   ed_edges = ed_edges s @ picked_edge (g_uuid env (n + 2)) new_id (ed_active s),
                   ed_active = Closed,
                   ed_uuid = (case ed_active s of FromHandle _ _ _ _ \<Rightarrow> n + 3 | _ \<Rightarrow> n + 2)\<rparr>)))"

section \<open>Highlighting\<close>

definition highlightNode :: "string \<Rightarrow> editor \<Rightarrow> editor" where
  "highlightNode i = on_node i (\<lambda>n. if truthy (n_highlighted n) then n else n\<lparr>n_highlighted := JBool True\<rparr>)"

text \<open>\<open>edge.target\<close> is a string, so the test \<open>!edge.target.data?.highlighted\<close> always passes;
  the new \<open>data\<close> has one key, so the other flag goes.\<close>

definition highlightEdge :: "string \<Rightarrow> editor \<Rightarrow> editor" where
  "highlightEdge i s = s\<lparr>ed_edges := map (\<lambda>e. if e_target e = i
     then e\<lparr>e_highlighted := True, e_error := False\<rparr> else e) (ed_edges s)\<rparr>"

definition setErrorEdge :: "string \<Rightarrow> editor \<Rightarrow> editor" where
  "setErrorEdge i s = s\<lparr>ed_edges := map (\<lambda>e. if e_target e = i
     then e\<lparr>e_error := True, e_highlighted := False\<rparr> else e) (ed_edges s)\<rparr>"

definition setErrorNode :: "string \<Rightarrow> editor \<Rightarrow> editor" where
  "setErrorNode i = on_node i (\<lambda>n. n\<lparr>n_highlighted := JBool False, n_error := True\<rparr>)"

definition unhighlighNode :: "string \<Rightarrow> editor \<Rightarrow> editor" where
  "unhighlighNode i = on_node i (\<lambda>n. n\<lparr>n_highlighted := JStr ''END''\<rparr>)"

definition resetFlow :: "editor \<Rightarrow> editor" where
  "resetFlow s = s\<lparr>
     ed_edges := map (\<lambda>e. e\<lparr>e_highlighted := False, e_error := False, e_animated := False\<rparr>) (ed_edges s),
     ed_nodes := map (\<lambda>n. n\<lparr>n_highlighted := JBool False, n_error := False\<rparr>) (ed_nodes s)\<rparr>"

text \<open>What \<open>applyLayout\<close> (\<open>ElkOptions.js\<close>) hands to the layout library.\<close>

definition layout_edges :: "wnode list \<Rightarrow> wedge list \<Rightarrow> wedge list" where
  "layout_edges ns es = filter (\<lambda>e. e_target e \<in> n_id ` set ns \<and> e_source e \<in> n_id ` set ns)
     (filter (\<lambda>e. e_target e \<noteq> [] \<and> e_source e \<noteq> []) es)"

text \<open>\<open>autoLayout\<close>: notes keep their place (\<open>layout\<close> is the library's answer; a note it did
  not return a namesake for is \<open>undefined\<close>, here dropped).\<close>

definition autoLayout :: "(wnode list \<Rightarrow> wedge list \<Rightarrow> wnode list \<times> wedge list) \<Rightarrow> editor \<Rightarrow> editor" where
  "autoLayout layout s =
     (case layout (ed_nodes s) (layout_edges (ed_nodes s) (ed_edges s)) of (ns, es) \<Rightarrow>
        s\<lparr>ed_nodes := List.map_filter (\<lambda>n. if n_kind n = JStr ''note''
            then List.find (\<lambda>m. n_id m = n_id n) (ed_nodes s) else Some n) ns,
          ed_edges := es\<rparr>)"

section \<open>The machine\<close>

datatype ed_event =
    Connect connection
  | ConnectEnd bool string string bool js
  | SelectNode js
  | NodeDelete string
  | DeleteHandle string string string
  | AppendHandle string string string
  | ToggleBreakPoint string
  | ModalChange bool string string js
  | HighlightNode string
  | HighlightEdge string
  | ErrorEdge string
  | ErrorNode string
  | UnhighlightNode string
  | Reset

fun ed_handle :: "genv \<Rightarrow> flow_lib \<Rightarrow> ed_event \<Rightarrow> editor \<Rightarrow> editor res" where
  "ed_handle env lib (Connect c) s = Inr (onConnect lib c s)"
| "ed_handle env lib (ConnectEnd v i h l p) s = Inr (onConnectEnd v i h l p s)"
| "ed_handle env lib (SelectNode item) s = handleSelectNode env lib item s"
| "ed_handle env lib (NodeDelete i) s = Inr (onNodeDelete i s)"
| "ed_handle env lib (DeleteHandle i h f) s = deleteHandle i h f s"
| "ed_handle env lib (AppendHandle i p f) s = appendSourceHandle i p f s"
| "ed_handle env lib (ToggleBreakPoint i) s = Inr (toggleBreakPoint i s)"
| "ed_handle env lib (ModalChange b k i v) s = Inr (modal_change b k i v s)"
| "ed_handle env lib (HighlightNode i) s = Inr (highlightNode i s)"
| "ed_handle env lib (HighlightEdge i) s = Inr (highlightEdge i s)"
| "ed_handle env lib (ErrorEdge i) s = Inr (setErrorEdge i s)"
| "ed_handle env lib (ErrorNode i) s = Inr (setErrorNode i s)"
| "ed_handle env lib (UnhighlightNode i) s = Inr (unhighlighNode i s)"
| "ed_handle env lib Reset s = Inr (resetFlow s)"

definition ids :: "editor \<Rightarrow> string set" where
  "ids s = n_id ` set (ed_nodes s)"

text \<open>
  The events React Flow sends join nodes that are there; \<open>tame\<close> also leaves out the deletion
  of the node a connection was dragged from while the picker is open
  (\<open>select_after_delete_dangles\<close> is what happens then).
\<close>

fun tame :: "editor \<Rightarrow> ed_event \<Rightarrow> bool" where
  "tame s (Connect c) = (cn_source c \<in> ids s \<and> cn_target c \<in> ids s)"
| "tame s (ConnectEnd v i h l p) = (i \<in> ids s)"
| "tame s (NodeDelete i) = (case ed_active s of FromHandle j _ _ _ \<Rightarrow> j \<noteq> i | _ \<Rightarrow> True)"
| "tame s _ = True"

text \<open>A handler that throws leaves the state as it was.\<close>

definition ed_step :: "genv \<Rightarrow> flow_lib \<Rightarrow> editor \<Rightarrow> ed_event \<Rightarrow> editor" where
  "ed_step env lib s e =
     (if tame s e then (case ed_handle env lib e s of Inr s' \<Rightarrow> s' | Inl _ \<Rightarrow> s) else s)"

section \<open>Edges join nodes\<close>

text \<open>React Flow's \<open>addEdge\<close>: the edges it returns were there, or join what the new edge joins.\<close>

definition adds :: "flow_lib \<Rightarrow> bool" where
  "adds lib \<longleftrightarrow> (\<forall>e es. \<forall>x \<in> set (fl_addEdge lib e es). x \<in> set es
     \<or> e_source x = e_source e \<and> e_sourceHandle x = e_sourceHandle e
       \<and> e_target x = e_target e \<and> e_targetHandle x = e_targetHandle e)"

text \<open>The ends \<open>loose\<close> are those the graph was loaded with although a node is missing.\<close>

definition edges_joined :: "(string \<times> string) set \<Rightarrow> editor \<Rightarrow> bool" where
  "edges_joined loose s \<longleftrightarrow>
     (\<forall>e \<in> set (ed_edges s). e_source e \<in> ids s \<and> e_target e \<in> ids s \<or> (e_source e, e_target e) \<in> loose)
     \<and> (\<forall>i h l p. ed_active s = FromHandle i h l p \<longrightarrow> i \<in> ids s)"

text \<open>A step that keeps the ids, the active node and where the edges go keeps the invariant.\<close>

lemma edges_joined_frame:
  assumes "edges_joined loose s" "ids s' = ids s" "ed_active s' = ed_active s"
    and "\<And>e. e \<in> set (ed_edges s') \<Longrightarrow> \<exists>x \<in> set (ed_edges s). e_source x = e_source e \<and> e_target x = e_target e"
  shows "edges_joined loose s'"
  using assms unfolding edges_joined_def by metis

lemma on_node_frame:
  assumes "\<And>n. n_id (f n) = n_id n"
  shows "ids (on_node i f s) = ids s" "ed_edges (on_node i f s) = ed_edges s" "ed_active (on_node i f s) = ed_active s"
proof -
  have "map n_id (ed_nodes (on_node i f s)) = map n_id (ed_nodes s)"
    by (simp add: on_node_def assms)
  then show "ids (on_node i f s) = ids s"
    unfolding ids_def by (metis set_map)
qed (simp_all add: on_node_def)

lemma on_node_joined:
  assumes "edges_joined loose s" "\<And>n. n_id (f n) = n_id n"
  shows "edges_joined loose (on_node i f s)"
  by (rule edges_joined_frame [OF assms(1)]) (auto simp: on_node_frame assms(2))

lemma rmap_ids:
  "rmap f ns = Inr ms \<Longrightarrow> (\<And>n m. f n = Inr m \<Longrightarrow> n_id m = n_id n) \<Longrightarrow> map n_id ms = map n_id ns"
  by (induction ns arbitrary: ms) auto

lemma on_node_res_frame:
  assumes "on_node_res i f s = Inr s'" "\<And>n m. f n = Inr m \<Longrightarrow> n_id m = n_id n"
  shows "ids s' = ids s" "ed_edges s' = ed_edges s" "ed_active s' = ed_active s"
proof -
  from assms(1) obtain ms where ms: "rmap (\<lambda>n. if n_id n = i then f n else Inr n) (ed_nodes s) = Inr ms"
    and s': "s' = s\<lparr>ed_nodes := ms\<rparr>" by (auto simp: on_node_res_def)
  have "map n_id ms = map n_id (ed_nodes s)"
    by (rule rmap_ids [OF ms]) (use assms(2) in \<open>auto split: if_splits\<close>)
  then show "ids s' = ids s" by (simp add: s' ids_def flip: set_map)
  show "ed_edges s' = ed_edges s" "ed_active s' = ed_active s" by (simp_all add: s')
qed

lemma append_handle_id: "append_handle p f n = Inr m \<Longrightarrow> n_id m = n_id n"
  by (auto simp: append_handle_def split: if_splits)

lemma delete_handle_id: "delete_handle h f n = Inr m \<Longrightarrow> n_id m = n_id n"
  by (auto simp: delete_handle_def split: js.splits)

lemma onConnect_joined:
  assumes "edges_joined loose s" "adds lib" "cn_source c \<in> ids s" "cn_target c \<in> ids s"
  shows "edges_joined loose (onConnect lib c s)"
proof -
  let ?e = "mk_edge '''' (cn_source c) (cn_sourceHandle c) (cn_target c) (cn_targetHandle c)"
  have "e_source x \<in> ids s \<and> e_target x \<in> ids s \<or> (e_source x, e_target x) \<in> loose"
    if x: "x \<in> set (fl_addEdge lib ?e (ed_edges s))" for x
  proof -
    from assms(2) x have "x \<in> set (ed_edges s) \<or> e_source x = e_source ?e \<and> e_target x = e_target ?e"
      unfolding adds_def by blast
    with assms(1,3,4) show ?thesis unfolding edges_joined_def mk_edge_def by auto
  qed
  with assms(1) show ?thesis
    by (simp add: onConnect_def Let_def edges_joined_def ids_def)
qed

lemma handleSelectNode_result:
  assumes "handleSelectNode env lib item s = Inr s'"
  obtains node new_id u where "ed_nodes s' = ed_nodes s @ [node]" "n_id node = new_id"
    "new_id = (if truthy (jprop item ''operator'') then dash (g_uuid env (ed_uuid s)) ''operator'' else g_uuid env (ed_uuid s))"
    "ed_edges s' = ed_edges s @ picked_edge u new_id (ed_active s)" "ed_active s' = Closed"
  using assms that by (auto simp: handleSelectNode_def Let_def split: option.splits)

lemma handleSelectNode_joined:
  assumes "edges_joined loose s" "handleSelectNode env lib item s = Inr s'"
  shows "edges_joined loose s'"
  using assms(1)
  by (rule_tac handleSelectNode_result [OF assms(2)])
    (auto simp: edges_joined_def ids_def picked_edge_def mk_edge_def split: active.splits if_splits)

lemma onNodeDelete_joined:
  assumes "edges_joined loose s" "\<forall>h l p. ed_active s \<noteq> FromHandle i h l p"
  shows "edges_joined loose (onNodeDelete i s)"
  using assms by (auto simp: edges_joined_def ids_def onNodeDelete_def)

lemma with_data_id [simp]: "n_id (with_data ch n) = n_id n"
  by (simp add: with_data_def)

lemma ed_handle_joined:
  assumes "edges_joined loose s" "adds lib" "tame s e" "ed_handle env lib e s = Inr s'"
  shows "edges_joined loose s'"
proof (cases e)
  case (DeleteHandle i h f)
  with assms(4) obtain s1 where "on_node_res i (delete_handle h f) s = Inr s1"
    and s': "s' = s1\<lparr>ed_edges := filter (\<lambda>e. e_sourceHandle e \<noteq> h) (ed_edges s1)\<rparr>"
    by (auto simp: deleteHandle_def)
  note fr = on_node_res_frame [OF this(1) delete_handle_id]
  show ?thesis
    by (rule edges_joined_frame [OF assms(1)]) (use fr s' in \<open>auto simp: ids_def\<close>)
next
  case (AppendHandle i p f)
  with assms(4) have "on_node_res i (append_handle p f) s = Inr s'" by (simp add: appendSourceHandle_def)
  note fr = on_node_res_frame [OF this append_handle_id]
  show ?thesis
    by (rule edges_joined_frame [OF assms(1)]) (use fr in auto)
next
  case (ModalChange b k i v)
  with assms(1,4) show ?thesis
    by (auto simp: modal_change_def handleDataChange_def Let_def split: prod.splits intro!: on_node_joined)
next
  case (Reset)
  with assms(4) show ?thesis
    by (intro edges_joined_frame [OF assms(1)]) (force simp: resetFlow_def ids_def image_image)+
next
  case (Connect c)
  with assms show ?thesis by (auto intro: onConnect_joined)
next
  case (ConnectEnd v i h l p)
  with assms show ?thesis by (cases v) (auto simp: edges_joined_def onConnectEnd_def ids_def)
next
  case (SelectNode item)
  with assms(1,4) show ?thesis by (auto intro: handleSelectNode_joined)
next
  case (NodeDelete i)
  with assms(3) have "\<forall>h l p. ed_active s \<noteq> FromHandle i h l p" by auto
  with NodeDelete assms show ?thesis by (auto intro: onNodeDelete_joined)
next
  case (HighlightEdge i)
  with assms(4) show ?thesis by (intro edges_joined_frame [OF assms(1)]) (force simp: highlightEdge_def ids_def)+
next
  case (ErrorEdge i)
  with assms(4) show ?thesis by (intro edges_joined_frame [OF assms(1)]) (force simp: setErrorEdge_def ids_def)+
qed (use assms(1,4) in \<open>auto simp: toggleBreakPoint_def highlightNode_def setErrorNode_def unhighlighNode_def
      intro!: on_node_joined\<close>)

interpretation designer: machine "ed_step env lib" "\<lambda>s. adds lib \<and> edges_joined loose s" for env lib loose
  by unfold_locales (auto simp: ed_step_def intro: ed_handle_joined split: sum.split)

text \<open>The graph as it was loaded.\<close>

lemma starting_edge_ends: "e_source (starting_edge ns) = ''start''" "e_target (starting_edge ns) \<in> insert ''returned-node'' (n_id ` set ns)"
  by (auto simp: starting_edge_def mk_edge_def split: list.splits)

lemma loaded_ends:
  assumes "overloads_closed env" and "initializeGraph env fuel n config orph notes = Inr (ns, es)" and "e \<in> set es"
  shows "e_source e \<in> n_id ` set ns \<and> e_target e \<in> n_id ` set ns
    \<or> e \<in> set (o_edges orph) \<or> e_id e = dash (e_source e) ''jump''"
proof -
  note load = assms(2) [unfolded initializeGraph_def]
  from load obtain st where st: "starting_node env config = Inr st" by auto
  from load obtain rt where rt: "returned_node env config = Inr rt" by auto
  from load obtain steps where steps: "steps_of config = Inr steps" by auto
  from load steps obtain bns bes k where b: "buildGraph env fuel n (rev steps) ''returned-node'' '''' = Inr ((bns, bes), k)" by auto
  from load b steps obtain nn where nn: "rmap (note_node env) notes = Inr nn" by auto
  from load b steps nn obtain orph_ns where "rmap (orphan_node env) (filter (\<lambda>f. truthy (jprop f ''kind'')) (o_nodes orph)) = Inr orph_ns"
    by auto
  with load st rt steps b nn have ns: "ns = [st] @ bns @ orph_ns @ [rt] @ nn" and es: "es = bes @ o_edges orph @ [starting_edge bns]"
    by simp_all
  have i: "n_id st = ''start''" "n_id rt = ''returned-node''"
    using st rt by (auto simp: starting_node_def returned_node_def Let_def dest: createNode_id)
  have "closed_graph (bns, bes) ''returned-node''"
    using b buildGraph_bg_closed [OF assms(1), of fuel] unfolding bg_closed_def by blast
  then have "e_source x \<in> n_id ` set ns \<and> e_target x \<in> n_id ` set ns \<or> e_id x = dash (e_source x) ''jump''" if "x \<in> set bes" for x
    using that i(2) by (auto simp: closed_graph_def joined_def ids_of_def ns image_Un image_iff)
  moreover have "e_source (starting_edge bns) \<in> n_id ` set ns \<and> e_target (starting_edge bns) \<in> n_id ` set ns"
    using i starting_edge_ends [of bns] by (auto simp: ns)
  ultimately show ?thesis using assms(3) by (auto simp: es)
qed

definition loose_ends :: "wnode list \<Rightarrow> wedge list \<Rightarrow> (string \<times> string) set" where
  "loose_ends ns es = (\<lambda>e. (e_source e, e_target e)) `
     {e \<in> set es. \<not> (e_source e \<in> n_id ` set ns \<and> e_target e \<in> n_id ` set ns)}"


definition sample_lib :: flow_lib where
  "sample_lib = \<lparr>fl_addEdge = (\<lambda>e es. es @ [e\<lparr>e_id := ''xy-edge__'' @ e_source e @ e_sourceHandle e\<rparr>]),
     fl_screen = (\<lambda>p. p)\<rparr>"

lemma sample_lib_adds: "adds sample_lib"
  by (auto simp: adds_def sample_lib_def)

definition sample_editor :: editor where
  "sample_editor = \<lparr>ed_nodes = c_ns loop_canvas, ed_edges = [], ed_active = Closed, ed_uuid = 0\<rparr>"

text \<open>A workflow of two steps whose first node is deleted, and the start connected to the second.\<close>

definition sample_loaded :: "graph res" where
  "sample_loaded = initializeGraph sample_env 9 0 (JObj [(''steps'', JArr sample_steps)]) \<lparr>o_nodes = [], o_edges = []\<rparr> []"

definition sample_events :: "ed_event list" where
  "sample_events = [NodeDelete ''a'',
     Connect \<lparr>cn_source = ''start'', cn_sourceHandle = ''output-start'', cn_target = ''b'', cn_targetHandle = ''input-b''\<rparr>]"


text \<open>An update through a function of an older render drops the nodes added since.\<close>

lemma updateData_forgets: "ids (updateData captured i changes s) = n_id ` set captured"
proof -
  have "map n_id (ed_nodes (updateData captured i changes s)) = map n_id captured" by (simp add: updateData_def)
  then show ?thesis unfolding ids_def by (metis set_map)
qed

text \<open>
  The order the tame events exclude: when the node a connection was dragged from is deleted
  with the picker open, picking a node adds an edge with an end that is no node.
\<close>

lemma select_after_delete_dangles:
  assumes "ed_active s = FromHandle i h left p"
    and "handleSelectNode env lib item (onNodeDelete i s) = Inr s'"
    and "g_uuid env (ed_uuid s) \<noteq> i" and "dash (g_uuid env (ed_uuid s)) ''operator'' \<noteq> i"
  shows "\<exists>e \<in> set (ed_edges s'). (e_source e = i \<or> e_target e = i) \<and> i \<notin> n_id ` set (ed_nodes s')"
  using assms(1,3,4)
  by (rule_tac handleSelectNode_result [OF assms(2)])
    (auto simp: onNodeDelete_def picked_edge_def mk_edge_def)

lemma select_after_delete_dangles_witness:
  "\<exists>s'. handleSelectNode sample_env sample_lib (JObj [(''kind'', JStr ''assign'')])
        (onNodeDelete ''a'' (sample_editor\<lparr>ed_active := FromHandle ''a'' ''output-a'' False origin\<rparr>)) = Inr s'
     \<and> (\<exists>e \<in> set (ed_edges s'). (e_source e = ''a'' \<or> e_target e = ''a'') \<and> ''a'' \<notin> n_id ` set (ed_nodes s'))"
proof -
  let ?r = "handleSelectNode sample_env sample_lib (JObj [(''kind'', JStr ''assign'')])
        (onNodeDelete ''a'' (sample_editor\<lparr>ed_active := FromHandle ''a'' ''output-a'' False origin\<rparr>))"
  have "\<not> isl ?r" by code_simp
  then obtain s' where r: "?r = Inr s'" by (cases ?r) auto
  have "nat_str 0 = ''0''" by code_simp
  then have u: "g_uuid sample_env 0 \<noteq> ''a''" "dash (g_uuid sample_env 0) ''operator'' \<noteq> ''a''"
    by (simp_all add: sample_env_def dash_def)
  have "\<exists>e \<in> set (ed_edges s'). (e_source e = ''a'' \<or> e_target e = ''a'') \<and> ''a'' \<notin> n_id ` set (ed_nodes s')"
    by (rule select_after_delete_dangles [OF _ r]) (use u in \<open>simp_all add: sample_editor_def\<close>)
  with r show ?thesis by blast
qed

section \<open>Handles and paths\<close>

text \<open>A node with as many paths as handles, each handle once.\<close>

definition aligned :: "string \<Rightarrow> wnode \<Rightarrow> bool" where
  "aligned f n \<longleftrightarrow> distinct (n_sourceHandles n)
     \<and> (\<exists>xs. obj_get (n_content n) f = JArr xs \<and> length xs = length (n_sourceHandles n))"

lemma filter_zip_remove:
  "distinct hs \<Longrightarrow> length xs = length hs \<Longrightarrow>
     zip (filter (\<lambda>h. h \<noteq> k) hs) (remove_at (find_index (\<lambda>h. h = k) hs) xs) = filter (\<lambda>p. fst p \<noteq> k) (zip hs xs)
   \<and> length (remove_at (find_index (\<lambda>h. h = k) hs) xs) = length (filter (\<lambda>h. h \<noteq> k) hs)"
proof (induction hs arbitrary: xs)
  case (Cons h hs)
  then obtain y ys where xs: "xs = y # ys" by (cases xs) auto
  show ?case
  proof (cases "h = k")
    case True
    then have "filter (\<lambda>h. h \<noteq> k) hs = hs" "filter (\<lambda>p. fst p \<noteq> k) (zip hs ys) = zip hs ys"
      using Cons.prems by (auto simp: filter_id_conv dest: set_zip_leftD)
    with True Cons.prems xs show ?thesis by (simp add: remove_at_def)
  next
    case False
    then show ?thesis
      using Cons xs by (cases "find_index (\<lambda>h. h = k) hs") (auto simp: remove_at_def)
  qed
qed (simp add: remove_at_def)

text \<open>
  Deleting a handle of a node whose handles are distinct and match its paths takes the
  handle's path with it and leaves every other handle with the path it had.
\<close>

lemma delete_handle_takes_its_path:
  assumes "aligned f n" and "obj_get (n_content n) f = JArr xs"
  shows "\<exists>n' xs'. delete_handle h f n = Inr n' \<and> aligned f n' \<and> obj_get (n_content n') f = JArr xs'
     \<and> zip (n_sourceHandles n') xs' = filter (\<lambda>p. fst p \<noteq> h) (zip (n_sourceHandles n) xs)"
  using assms filter_zip_remove [of "n_sourceHandles n" xs h] by (auto simp: aligned_def delete_handle_def)

lemma delete_handle_takes_its_path_witness:
  "\<exists>n' xs'. delete_handle (path_id 0) ''paths'' sample_switch = Inr n' \<and> obj_get (n_content n') ''paths'' = JArr xs'
     \<and> zip (n_sourceHandles n') xs' = [(path_id 1, JObj [(''predicate'', JBool False)])]"
proof -
  let ?xs = "[JObj [(''predicate'', JBool True)], JObj [(''predicate'', JBool False)]]"
  have c: "obj_get (n_content sample_switch) ''paths'' = JArr ?xs"
    and h: "n_sourceHandles sample_switch = [path_id 0, path_id 1]" and d: "path_id 0 \<noteq> path_id 1"
    by code_simp+
  have "aligned ''paths'' sample_switch" using c h d by (simp add: aligned_def)
  from delete_handle_takes_its_path [OF this c, of "path_id 0"] show ?thesis
    using d by (auto simp: h)
qed

text \<open>
  Adding a handle keeps handles and paths matched, but its id is made from the number of
  handles: after deleting a handle that was not the last one, the new id is one that is in
  use, and the two handles can only be deleted together, after which paths are left without
  a handle.
\<close>

lemma append_after_delete_clashes:
  assumes "n_sourceHandles n = map path_id [0..<m]" and "obj_get (n_content n) ''paths'' = JArr xs"
    and "length xs = m" and "1 < m"
  shows "\<exists>n1 n2 n3 ys. delete_handle (path_id 0) ''paths'' n = Inr n1
     \<and> append_handle ''path'' ''paths'' n1 = Inr n2 \<and> \<not> distinct (n_sourceHandles n2)
     \<and> delete_handle (path_id (m - 1)) ''paths'' n2 = Inr n3
     \<and> obj_get (n_content n3) ''paths'' = JArr ys \<and> length ys = m - 1
     \<and> length (n_sourceHandles n3) = m - 2"
proof -
  have pid [simp]: "path_id i = path_id j \<longleftrightarrow> i = j" for i j
    by (auto simp: path_id_def dest: nat_str_inj)
  have dash: "dash ''path'' (nat_str i) = path_id i" for i by (simp add: dash_def path_id_def)
  have up: "n_sourceHandles n = path_id 0 # map path_id [1..<m]"
    using assms(1,4) by (simp add: upt_rec [of 0 m])
  have keep: "filter (\<lambda>h. h \<noteq> path_id 0) (map path_id [1..<m]) = map path_id [1..<m]"
    by (auto simp: filter_id_conv)
  define n1 where "n1 = n\<lparr>n_sourceHandles := map path_id [1..<m],
      n_content := AList.update ''paths'' (JArr (tl xs)) (n_content n)\<rparr>"
  have d1: "delete_handle (path_id 0) ''paths'' n = Inr n1"
    unfolding n1_def delete_handle_def assms(2) up using keep assms(3,4)
    by (cases xs) (simp_all add: remove_at_def)
  define n2 where "n2 = n1\<lparr>n_sourceHandles := map path_id [1..<m] @ [path_id (m - 1)],
      n_content := AList.update ''paths'' (JArr (tl xs @ [JObj []])) (n_content n1)\<rparr>"
  have d2: "append_handle ''path'' ''paths'' n1 = Inr n2"
    unfolding append_handle_def n2_def n1_def by (simp add: spread_array_def dash)
  have len: "length (filter (\<lambda>h. h \<noteq> path_id (m - 1)) (n_sourceHandles n2)) = m - 2"
  proof -
    have "[1..<m] = [1..<m - 1] @ [m - 1]" using assms(4) by (cases m) (auto simp: upt_Suc_append)
    then show ?thesis by (simp add: n2_def filter_id_conv [THEN iffD2])
  qed
  obtain i where i: "find_index (\<lambda>h. h = path_id (m - 1)) (n_sourceHandles n2) = Some i"
    by (cases "find_index (\<lambda>h. h = path_id (m - 1)) (n_sourceHandles n2)") (auto simp: find_index_None n2_def)
  with assms(4) have "i < m" by (auto simp: n2_def dest!: find_index_Some)
  with i assms(3,4) have d3: "\<exists>n3 ys. delete_handle (path_id (m - 1)) ''paths'' n2 = Inr n3
      \<and> obj_get (n_content n3) ''paths'' = JArr ys \<and> length ys = m - 1
      \<and> n_sourceHandles n3 = filter (\<lambda>h. h \<noteq> path_id (m - 1)) (n_sourceHandles n2)"
    by (auto simp: delete_handle_def remove_at_def n2_def)
  have "\<not> distinct (n_sourceHandles n2)" using assms(4) by (auto simp: n2_def)
  with d1 d2 d3 len show ?thesis by metis
qed

lemma append_after_delete_clashes_witness:
  "\<exists>n1 n2. delete_handle (path_id 0) ''paths'' sample_switch = Inr n1
     \<and> append_handle ''path'' ''paths'' n1 = Inr n2 \<and> \<not> distinct (n_sourceHandles n2)"
proof -
  have "obj_get (n_content sample_switch) ''paths'' = JArr [JObj [(''predicate'', JBool True)], JObj [(''predicate'', JBool False)]]"
    "n_sourceHandles sample_switch = map path_id [0..<2]"
    by code_simp+
  from append_after_delete_clashes [OF this(2,1)] show ?thesis by auto
qed

section \<open>The debugger's marks\<close>

definition marks :: "ed_event \<Rightarrow> bool" where
  "marks e \<longleftrightarrow> (case e of HighlightNode _ \<Rightarrow> True | HighlightEdge _ \<Rightarrow> True | ErrorEdge _ \<Rightarrow> True
     | ErrorNode _ \<Rightarrow> True | UnhighlightNode _ \<Rightarrow> True | Reset \<Rightarrow> True | _ \<Rightarrow> False)"

lemma reset_mark: "marks e \<Longrightarrow> resetFlow (ed_step env lib s e) = resetFlow s"
  by (auto simp: marks_def ed_step_def resetFlow_def highlightNode_def highlightEdge_def setErrorEdge_def
      setErrorNode_def unhighlighNode_def on_node_def split: ed_event.splits)

text \<open>
  What the debugger draws is undone by \<open>resetFlow\<close>: after any sequence of highlights and
  error marks it gives what it would have given at the start.
\<close>

lemma reset_undoes_marks:
  assumes "\<forall>e \<in> set evs. marks e"
  shows "resetFlow (foldl (ed_step env lib) s evs) = resetFlow s"
  using assms by (induction evs arbitrary: s) (auto simp: reset_mark)

lemma reset_undoes_marks_witness:
  "resetFlow (foldl (ed_step sample_env sample_lib) sample_editor [HighlightNode ''a'', ErrorNode ''a'', UnhighlightNode ''start''])
     = resetFlow sample_editor"
  by (rule reset_undoes_marks) (simp add: marks_def)

section \<open>Edits\<close>

text \<open>
  An edit in the editor's form reaches the node's content only when the node is no operator:
  the form of an operator stores its values under the operator's kind, so the contents of the
  nodes, which \<open>nodeToJson\<close> saves, are what they were.
\<close>

lemma modal_change_content:
  assumes "splitInformationAndContent v = (info, content)" and "kind \<notin> {''information'', ''content''}"
  shows "map n_content (ed_nodes (modal_change True kind i v s)) = map n_content (ed_nodes s)
     \<and> map n_content (ed_nodes (modal_change False kind i v s))
         = map (\<lambda>n. if n_id n = i then content else n_content n) (ed_nodes s)
     \<and> (\<forall>b. map n_information (ed_nodes (modal_change b kind i v s))
         = map (\<lambda>n. if n_id n = i then info else n_information n) (ed_nodes s))"
  using assms by (auto simp: modal_change_def handleDataChange_def on_node_def with_data_def)

lemma modal_change_content_witness:
  "map n_content (ed_nodes (modal_change True ''$array_at'' ''a'' (JObj [(''idx'', JNum 1)]) sample_editor))
     = map n_content (c_ns loop_canvas)"
  using modal_change_content [of "JObj [(''idx'', JNum 1)]" "[]" "[(''idx'', JNum 1)]" "''$array_at''" "''a''" sample_editor]
  by (simp add: splitInformationAndContent_def INFORMATION_FIELDS_def sample_editor_def)

end
