(* ===== verification/Workflow_Debugger.thy ===== *)
theory Workflow_Debugger
  imports Workflow_Editor
begin

text \<open>
  Around the canvas: the debugger's terminal (\<open>Terminal.js\<close>), the report of a run
  (\<open>ReportInformation.js\<close>), the node picker (\<open>WhatsNextItemsSelector.js\<close>), the handles a
  node shows (\<open>flow/Handles.js\<close>) and what the page sends to the server
  (\<open>WorkflowsContainer.js\<close>).

  The web socket is the pair of a flag (is \<open>wsRef.current\<close> set) and the list of what was sent;
  its timer is an event of its own.
\<close>

section \<open>The terminal\<close>

record terminal =
  t_tab :: string
  t_saved_tab :: string
  t_size :: rat
  t_action :: "string option"
  t_running :: bool
  t_log :: "js list"
  t_memory :: js
  t_report :: js
  t_ws :: bool
  t_sent :: "js list"
  t_editor :: editor

definition setTab :: "string \<Rightarrow> terminal \<Rightarrow> terminal" where
  "setTab newTab t = t\<lparr>t_tab := newTab, t_saved_tab := newTab\<rparr>"

definition handleTabChange :: "string \<Rightarrow> terminal \<Rightarrow> terminal" where
  "handleTabChange newTab t = setTab newTab (if t_size t = 0 then t\<lparr>t_size := 3/10\<rparr> else t)"

definition handleReportChange :: "js \<Rightarrow> terminal \<Rightarrow> terminal" where
  "handleReportChange newReport t = setTab ''report'' (t\<lparr>t_report := newReport\<rparr>)"

definition on_editor :: "(editor \<Rightarrow> editor) \<Rightarrow> terminal \<Rightarrow> terminal" where
  "on_editor f t = t\<lparr>t_editor := f (t_editor t)\<rparr>"

text \<open>\<open>(event?.data?.message || '').toLowerCase()\<close>.\<close>

definition event_message :: "js \<Rightarrow> string res" where
  "event_message event =
     (let m = jprop (jprop event ''data'') ''message'' in
      if truthy m then (case m of JStr s \<Rightarrow> Inr (toLowerCase s) | _ \<Rightarrow> Inl TypeError) else Inr [])"

definition on_progress :: "js \<Rightarrow> terminal \<Rightarrow> terminal res" where
  "on_progress event t =
     (let event_id = jprop (jprop (jprop event ''data'') ''node'') ''id'';
          t = t\<lparr>t_log := event # t_log t\<rparr>
      in rbind (event_message event) (\<lambda>m.
         Inr (if startsWith m ''starting''
              then (if truthy event_id
                    then on_editor (highlightEdge (key_of event_id)) (on_editor (highlightNode (key_of event_id)) t)
                    else t)
              else if startsWith m ''ending''
              then (if truthy event_id then on_editor (unhighlighNode (key_of event_id)) t else t)
              else t)))"

definition on_result :: "js \<Rightarrow> terminal \<Rightarrow> terminal res" where
  "on_result event t =
     (let err = jprop (jprop event ''data'') ''error'' in
      Inr (handleReportChange (jprop event ''data'')
        (if \<not> truthy err
         then on_editor (unhighlighNode ''returned-node'') (on_editor (highlightEdge ''returned-node'') t)
         else on_editor (setErrorNode (key_of (jprop err ''nodeId''))) t)))"

definition eventCallback :: "js \<Rightarrow> terminal \<Rightarrow> terminal res" where
  "eventCallback event t =
     (let kind = jprop event ''kind'' in
      if kind = JStr ''progress'' then on_progress event t
      else if kind = JStr ''result'' then on_result event t
      else if kind = JStr ''debugger-state''
      then rbind (fld (jprop event ''data'') ''memory'') (\<lambda>m. Inr (t\<lparr>t_memory := m\<rparr>))
      else Inr t)"

definition send :: "string \<Rightarrow> obj \<Rightarrow> terminal \<Rightarrow> terminal" where
  "send kind data t = t\<lparr>t_sent := t_sent t @ [JObj [(''kind'', JStr kind), (''data'', JObj data)]]\<rparr>"

definition runWsAction :: "obj \<Rightarrow> string \<Rightarrow> obj \<Rightarrow> terminal \<Rightarrow> terminal res" where
  "runWsAction payload action data t =
     (if \<not> t_ws t then Inl TypeError
      else Inr (if action \<in> {''start'', ''step_by_step''}
                then (send ''start'' (spread payload data) t)\<lparr>t_running := True\<rparr>
                else if action = ''stop''
                then (send action [] t)\<lparr>t_running := False, t_ws := False\<rparr>
                else send action [] t))"

text \<open>\<open>runWs\<close>: with no socket it opens one and leaves the action to a timer (\<open>Timer\<close> below).\<close>

definition runWs :: "obj \<Rightarrow> string \<Rightarrow> obj \<Rightarrow> terminal \<Rightarrow> terminal res" where
  "runWs payload action data t =
     (let t = (if action = ''start''
               then (let t = (setTab ''memory'' (on_editor resetFlow t))\<lparr>t_report := JUndef, t_log := []\<rparr>
                     in if t_size t = 0 then t\<lparr>t_size := 3/10\<rparr> else t)
               else t)
      in if \<not> t_ws t then Inr (t\<lparr>t_ws := True\<rparr>) else runWsAction payload action data t)"

definition on_message :: "js \<Rightarrow> terminal \<Rightarrow> terminal res" where
  "on_message json t =
     rbind (eventCallback json t) (\<lambda>t.
       Inr (if jprop json ''kind'' = JStr ''result''
            then (handleReportChange (jprop json ''data'') (t\<lparr>t_running := False, t_action := None\<rparr>))\<lparr>t_ws := False\<rparr>
            else t))"

definition handleFlowStop :: "obj \<Rightarrow> terminal \<Rightarrow> terminal res" where
  "handleFlowStop payload t =
     rbind (runWs payload ''stop'' [] t) (\<lambda>t.
       Inr (on_editor resetFlow (t\<lparr>t_running := False, t_action := None\<rparr>)))"

datatype t_event =
    Run
  | Debug js
  | Next
  | Resume
  | Stop
  | Timer string obj
  | Message js
  | Tab string
  | ClearLog

fun t_handle :: "obj \<Rightarrow> t_event \<Rightarrow> terminal \<Rightarrow> terminal res" where
  "t_handle p Run t = runWs p ''start'' [] (t\<lparr>t_action := Some ''play''\<rparr>)"
| "t_handle p (Debug v) t = runWs p ''start'' [(''step_by_step'', v)] (t\<lparr>t_action := Some ''debug''\<rparr>)"
| "t_handle p Next t = runWs p ''next'' [] t"
| "t_handle p Resume t = runWs p ''resume'' [] t"
| "t_handle p Stop t = handleFlowStop p t"
| "t_handle p (Timer a d) t = runWsAction p a d t"
| "t_handle p (Message m) t = on_message m t"
| "t_handle p (Tab n) t = Inr (handleTabChange n t)"
| "t_handle p ClearLog t = Inr (t\<lparr>t_log := []\<rparr>)"

definition t_step :: "obj \<Rightarrow> terminal \<Rightarrow> t_event \<Rightarrow> terminal" where
  "t_step p t e = (case t_handle p e t of Inr t' \<Rightarrow> t' | Inl _ \<Rightarrow> t)"

lemma terminal_frames [simp]:
  "t_ws (setTab n t) = t_ws t" "t_running (setTab n t) = t_running t"
  "t_ws (handleReportChange r t) = t_ws t" "t_running (handleReportChange r t) = t_running t"
  "t_ws (on_editor f t) = t_ws t" "t_running (on_editor f t) = t_running t"
  "t_ws (send k d t) = t_ws t" "t_running (send k d t) = t_running t"
  by (simp_all add: setTab_def handleReportChange_def on_editor_def send_def)

lemma eventCallback_frame:
  "eventCallback e t = Inr t' \<Longrightarrow> t_ws t' = t_ws t \<and> t_running t' = t_running t"
  by (auto simp: eventCallback_def on_progress_def on_result_def Let_def split: if_splits)

lemma runWs_running:
  "runWs p a d t = Inr t' \<Longrightarrow> t_running t \<longrightarrow> t_ws t \<Longrightarrow> t_running t' \<longrightarrow> t_ws t'"
  by (auto simp: runWs_def runWsAction_def Let_def split: if_splits)

lemma t_step_running: "t_running t \<longrightarrow> t_ws t \<Longrightarrow> t_running (t_step p t e) \<longrightarrow> t_ws (t_step p t e)"
proof (cases "t_handle p e t")
  case (Inr t')
  assume inv: "t_running t \<longrightarrow> t_ws t"
  have "t_running t' \<longrightarrow> t_ws t'"
  proof (cases e)
    case Run
    with Inr inv show ?thesis by (auto dest!: runWs_running)
  next
    case (Debug v)
    with Inr inv show ?thesis by (auto dest!: runWs_running)
  next
    case (Message m)
    with Inr inv show ?thesis by (auto simp: on_message_def dest!: eventCallback_frame split: if_splits)
  next
    case (Timer a d)
    with Inr inv show ?thesis by (auto simp: runWsAction_def split: if_splits)
  qed (use Inr inv in \<open>auto simp: handleFlowStop_def handleTabChange_def dest: runWs_running split: if_splits\<close>)
  with Inr show ?thesis by (simp add: t_step_def)
qed (simp add: t_step_def)

interpretation terminal: machine "t_step p" "\<lambda>t. t_running t \<longrightarrow> t_ws t" for p
  using t_step_running by unfold_locales blast

text \<open>
  The terminal never shows a run without a connection to the server: after any sequence of
  buttons, timers and messages, \<open>running\<close> means the web socket is there.
\<close>

lemma running_has_socket:
  assumes "\<not> t_running t" and "t_running (foldl (t_step p) t evs)"
  shows "t_ws (foldl (t_step p) t evs)"
  using terminal.run_inv [of t p evs] assms by simp

definition sample_terminal :: terminal where
  "sample_terminal = \<lparr>t_tab = ''input'', t_saved_tab = '''', t_size = 0, t_action = None, t_running = False,
     t_log = [], t_memory = JUndef, t_report = JUndef, t_ws = False, t_sent = [], t_editor = sample_editor\<rparr>"

lemma running_has_socket_witness:
  "t_ws (foldl (t_step []) sample_terminal [Run, Timer ''start'' []])"
proof (rule running_has_socket)
  show "\<not> t_running sample_terminal" by (simp add: sample_terminal_def)
  show "t_running (foldl (t_step []) sample_terminal [Run, Timer ''start'' []])"
    by (simp add: t_step_def runWs_def runWsAction_def Let_def)
qed

text \<open>
  The server's \<open>result\<close> ends the run: whatever the terminal was doing, it then runs nothing,
  has no action and no socket, and shows the report it was sent.
\<close>

lemma result_ends_the_run:
  assumes "jprop json ''kind'' = JStr ''result''"
  shows "\<exists>t'. on_message json t = Inr t' \<and> \<not> t_running t' \<and> t_action t' = None \<and> \<not> t_ws t'
     \<and> t_tab t' = ''report'' \<and> t_report t' = jprop json ''data'' \<and> t_log t' = t_log t"
  using assms by (simp add: on_message_def eventCallback_def on_result_def handleReportChange_def setTab_def
      on_editor_def Let_def)

section \<open>The report\<close>

record log_entry =
  l_message :: string
  l_node_id :: js
  l_function :: js
  l_kind :: js
  l_timestamp :: rat
  l_error :: js

record report_step =
  r_task :: string
  r_start :: rat
  r_stop :: "rat option"
  r_duration :: rat
  r_error :: js

definition id_char :: "char \<Rightarrow> bool" where
  "id_char c \<longleftrightarrow> (let n = of_char c :: nat in n \<in> {48..57} \<or> n \<in> {65..90} \<or> n \<in> {97..122} \<or> n = 45)"

text \<open>\<open>message.match(/^starting '([a-zA-Z0-9-]+)'/)\<close>.\<close>

definition starting_id :: "string \<Rightarrow> string option" where
  "starting_id m =
     (if startsWith m (''starting '' @ [CHR 0x27]) then
        (let r = drop 10 m; i = takeWhile id_char r; t = dropWhile id_char r in
         if i \<noteq> [] \<and> startsWith t [CHR 0x27] then Some i else None)
      else None)"

definition log_starting :: "log_entry list \<Rightarrow> log_entry list" where
  "log_starting lg = filter (\<lambda>l. \<not> includes_str (l_message l) ''ending'') lg"

definition log_ending :: "log_entry list \<Rightarrow> log_entry list" where
  "log_ending lg = filter (\<lambda>l. includes_str (l_message l) ''ending'') lg"

text \<open>\<open>lookup\<close> is \<open>getNodeFromKind(f)?.display_name\<close>.\<close>

definition step_label :: "(js \<Rightarrow> js) \<Rightarrow> log_entry \<Rightarrow> string" where
  "step_label lookup l =
     (let f = (if truthy (l_function l) then lookup (l_function l) else l_function l) in
      if truthy f then key_of f else if truthy (l_kind l) then key_of (l_kind l) else l_message l)"

definition report_step_of :: "(js \<Rightarrow> js) \<Rightarrow> log_entry list \<Rightarrow> nat \<Rightarrow> log_entry \<Rightarrow> report_step option" where
  "report_step_of lookup ending idx l =
     (case starting_id (l_message l) of None \<Rightarrow> None
      | Some i \<Rightarrow>
          (let stop = map_option l_timestamp (List.find (\<lambda>e. l_node_id e = JStr i) ending) in
           Some \<lparr>r_task = nat_str (idx + 1) @ ''-'' @ step_label lookup l, r_start = l_timestamp l, r_stop = stop,
             r_duration = \<bar>(case stop of None \<Rightarrow> 0 | Some s \<Rightarrow> if s \<noteq> 0 then s - l_timestamp l else 0) * 1000000\<bar>,
             r_error = l_error l\<rparr>))"

definition report_steps :: "(js \<Rightarrow> js) \<Rightarrow> log_entry list \<Rightarrow> report_step list" where
  "report_steps lookup lg =
     List.map_filter (\<lambda>(idx, l). report_step_of lookup (log_ending lg) idx l)
       (zip [0..<length (log_starting lg)] (log_starting lg))"

text \<open>\<open>stepsByCategory\<close>: a row and the later steps of the same task (\<open>ctx.plugins\<close>).\<close>

definition add_row :: "(string \<times> report_step \<times> report_step list) list \<Rightarrow> report_step
    \<Rightarrow> (string \<times> report_step \<times> report_step list) list" where
  "add_row acc st = (case map_of acc (r_task st) of
      Some (row, plugins) \<Rightarrow> AList.update (r_task st) (row, plugins @ [st]) acc
    | None \<Rightarrow> AList.update (r_task st) (st, []) acc)"

definition stepsByCategory :: "report_step list \<Rightarrow> (string \<times> report_step \<times> report_step list) list" where
  "stepsByCategory steps = foldl add_row [] steps"

text \<open>The task shown: \<open>value.task.split('-')[1]\<close>.\<close>

definition shown_task :: "string \<Rightarrow> string option" where
  "shown_task task = (case split_on CHR ''-'' task of _ # t # _ \<Rightarrow> Some t | _ \<Rightarrow> None)"

lemma nat_str_no_dash: "CHR ''-'' \<notin> set (nat_str n)"
  using nat_str_digits [of n] by auto

lemma takeWhile_dash: "takeWhile (\<lambda>c. c \<noteq> CHR ''-'') (nat_str n @ CHR ''-'' # s) = nat_str n"
  using nat_str_no_dash [of n] by (subst takeWhile_append2) auto

lemma report_task: "report_step_of lookup e i l = Some st \<Longrightarrow> r_task st = nat_str (i + 1) @ ''-'' @ step_label lookup l"
  by (auto simp: report_step_of_def Let_def split: option.splits)

lemma map_filter_distinct:
  assumes "\<And>x y. x \<in> set xs \<Longrightarrow> f x = Some y \<Longrightarrow> g y = h x" and "distinct (map h xs)"
  shows "distinct (map g (List.map_filter f xs))"
  using assms
proof (induction xs)
  case (Cons x xs)
  have IH: "distinct (map g (List.map_filter f xs))" using Cons by simp
  have "g ` set (List.map_filter f xs) \<subseteq> h ` set xs"
    using Cons.prems(1) by (force simp: List.map_filter_def)
  moreover have "g a = h x" if "f x = Some a" for a using Cons.prems(1) [OF _ that] by simp
  ultimately show ?case
    using IH Cons.prems(2) by (cases "f x") (auto simp: List.map_filter_simps)
qed (simp add: List.map_filter_simps)

lemma report_tasks_distinct: "distinct (map r_task (report_steps lookup lg))"
proof -
  let ?ls = "log_starting lg"
  have "distinct (map (takeWhile (\<lambda>c. c \<noteq> CHR ''-'') \<circ> r_task) (report_steps lookup lg))"
    unfolding report_steps_def
  proof (rule map_filter_distinct [where h = "\<lambda>(i, l). nat_str (i + 1)"])
    fix x y assume "(case x of (i, l) \<Rightarrow> report_step_of lookup (log_ending lg) i l) = Some y"
    then show "(takeWhile (\<lambda>c. c \<noteq> CHR ''-'') \<circ> r_task) y = (case x of (i, l) \<Rightarrow> nat_str (i + 1))"
      by (cases x) (simp add: report_task takeWhile_dash)
  next
    have "map (\<lambda>(i, l). nat_str (i + 1)) (zip [0..<length ?ls] ?ls) = map (\<lambda>i. nat_str (i + 1)) [0..<length ?ls]"
      by (rule nth_equalityI) auto
    then show "distinct (map (\<lambda>(i, l). nat_str (i + 1)) (zip [0..<length ?ls] ?ls))"
      by (simp add: distinct_map inj_on_def) (meson Suc_inject nat_str_inj)
  qed
  then show ?thesis by (metis distinct_map map_map)
qed

lemma update_append_new: "k \<notin> fst ` set al \<Longrightarrow> AList.update k v al = al @ [(k, v)]"
  by (induction al) auto

lemma add_rows:
  "distinct (map fst acc @ map r_task steps) \<Longrightarrow>
     foldl add_row acc steps = acc @ map (\<lambda>st. (r_task st, st, [])) steps"
proof (induction steps arbitrary: acc)
  case (Cons st steps)
  then have "r_task st \<notin> fst ` set acc" by auto
  then have "add_row acc st = acc @ [(r_task st, st, [])]"
    by (simp add: add_row_def map_of_eq_None_iff [THEN iffD2] update_append_new)
  with Cons show ?case by simp
qed simp

text \<open>
  The report has one row per step: the rows are keyed by a label that starts with the
  step's index, so no step is ever gathered under an earlier one of the same node, and no
  row has inner steps.
\<close>

lemma report_one_row_per_step:
  "stepsByCategory (report_steps lookup lg) = map (\<lambda>st. (r_task st, st, [])) (report_steps lookup lg)"
  unfolding stepsByCategory_def using report_tasks_distinct by (subst add_rows) simp_all

text \<open>
  The task a row shows is its label up to the first dash: a node whose name has a dash
  shows only the part before it.
\<close>

lemma report_label_cut:
  assumes "report_step_of lookup ending idx l = Some st"
  shows "shown_task (r_task st) = Some (takeWhile (\<lambda>c. c \<noteq> CHR ''-'') (step_label lookup l))"
proof -
  have cut: "hd (split_on d s) = takeWhile (\<lambda>c. c \<noteq> d) s" for d s
    by (induction s) (auto split: list.split simp: hd_append)
  have "split_on CHR ''-'' (r_task st) = nat_str (idx + 1) # split_on CHR ''-'' (step_label lookup l)"
    using report_task [OF assms] split_on_append [OF nat_str_no_dash] by simp
  then show ?thesis
    using cut [of "CHR ''-''" "step_label lookup l"] split_on_nonempty [of "CHR ''-''" "step_label lookup l"]
    by (cases "split_on CHR ''-'' (step_label lookup l)") (simp_all add: shown_task_def)
qed

definition sample_log :: log_entry where
  "sample_log = \<lparr>l_message = ''starting '' @ [CHR 0x27] @ ''b1'' @ [CHR 0x27], l_node_id = JStr ''b1'',
     l_function = JUndef, l_kind = JStr ''http-call'', l_timestamp = 4, l_error = JUndef\<rparr>"

section \<open>The picker\<close>

definition FORBIDDEN_KINDS :: "string list" where
  "FORBIDDEN_KINDS = [''workflow'', ''start'']"

text \<open>\<open>lookup\<close> is \<open>getNodeFromKind\<close>: \<open>undefined\<close> for an unknown kind.\<close>

definition picker_items :: "(string \<Rightarrow> js) \<Rightarrow> (string \<times> string list) list \<Rightarrow> (string \<times> js list) list" where
  "picker_items lookup categories =
     filter (\<lambda>c. snd c \<noteq> [])
       (map (\<lambda>(i, kinds). (i, filter truthy (map lookup (filter (\<lambda>k. k \<notin> set FORBIDDEN_KINDS) kinds))))
         (filter (\<lambda>c. fst c \<noteq> ''transformations'') categories))"

definition matches :: "string \<Rightarrow> js \<Rightarrow> bool" where
  "matches query value \<longleftrightarrow> (\<exists>f \<in> set [''name'', ''description'', ''kind'', ''display_name''].
     case jprop value f of JStr s \<Rightarrow> includes_str (toLowerCase s) (toLowerCase query) | _ \<Rightarrow> False)"

definition add_by_name :: "js list \<Rightarrow> js \<Rightarrow> js list" where
  "add_by_name acc node = (if \<exists>f \<in> set acc. jprop f ''name'' = jprop node ''name'' then acc else acc @ [node])"

definition picker_search :: "string \<Rightarrow> (string \<times> js list) list \<Rightarrow> js list" where
  "picker_search query items = foldl add_by_name [] (filter (matches query) (concat (map snd items)))"

lemma add_by_name_fold:
  "distinct (map (\<lambda>n. jprop n ''name'') acc) \<Longrightarrow>
     distinct (map (\<lambda>n. jprop n ''name'') (foldl add_by_name acc xs))
   \<and> (\<lambda>n. jprop n ''name'') ` set (foldl add_by_name acc xs) = (\<lambda>n. jprop n ''name'') ` (set acc \<union> set xs)
   \<and> set acc \<subseteq> set (foldl add_by_name acc xs) \<and> set (foldl add_by_name acc xs) \<subseteq> set acc \<union> set xs"
proof (induction xs arbitrary: acc)
  case (Cons x xs)
  have "distinct (map (\<lambda>n. jprop n ''name'') (add_by_name acc x))"
    using Cons.prems by (auto simp: add_by_name_def)
  note IH = Cons.IH [OF this]
  have im: "(\<lambda>n. jprop n ''name'') ` set (add_by_name acc x) = (\<lambda>n. jprop n ''name'') ` (set acc \<union> {x})"
    by (auto simp: add_by_name_def image_iff) metis
  have sub: "set acc \<subseteq> set (add_by_name acc x)" "set (add_by_name acc x) \<subseteq> set acc \<union> {x}"
    by (auto simp: add_by_name_def)
  show ?case using IH im sub by (auto simp: image_Un)
qed simp

text \<open>
  A search in the picker finds every name once: the nodes found are nodes of the categories
  that match, no two have the same name, and the name of every matching node is found.
\<close>

lemma picker_search_sound_complete:
  "distinct (map (\<lambda>n. jprop n ''name'') (picker_search q items))
   \<and> (\<forall>n. n \<in> set (picker_search q items) \<longrightarrow> matches q n \<and> (\<exists>c \<in> set items. n \<in> set (snd c)))
   \<and> (\<forall>c n. c \<in> set items \<longrightarrow> n \<in> set (snd c) \<longrightarrow> matches q n \<longrightarrow>
        (\<exists>m \<in> set (picker_search q items). jprop m ''name'' = jprop n ''name''))"
proof -
  define ms where "ms = filter (matches q) (concat (map snd items))"
  have ms: "n \<in> set ms \<longleftrightarrow> matches q n \<and> (\<exists>c \<in> set items. n \<in> set (snd c))" for n
    by (auto simp: ms_def)
  note f = add_by_name_fold [of "[]" ms]
  have "\<exists>m \<in> set (foldl add_by_name [] ms). jprop m ''name'' = jprop n ''name''" if "n \<in> set ms" for n
  proof -
    from that f have "jprop n ''name'' \<in> (\<lambda>n. jprop n ''name'') ` set (foldl add_by_name [] ms)" by simp
    then show ?thesis by (auto simp: image_iff)
  qed
  moreover have "n \<in> set ms" if "n \<in> set (foldl add_by_name [] ms)" for n using f that by auto
  moreover have "distinct (map (\<lambda>n. jprop n ''name'') (foldl add_by_name [] ms))" using f by simp
  ultimately show ?thesis
    unfolding picker_search_def ms_def [symmetric] using ms by blast
qed

lemma picker_search_sound_complete_witness:
  "\<exists>m \<in> set (picker_search ''LOG'' [(''core'', [JObj [(''name'', JStr ''log''), (''kind'', JStr ''log'')]])]).
     jprop m ''name'' = JStr ''log''"
proof -
  have "matches ''LOG'' (JObj [(''name'', JStr ''log''), (''kind'', JStr ''log'')])" by code_simp
  then show ?thesis
    using picker_search_sound_complete
      [of "''LOG''" "[(''core'', [JObj [(''name'', JStr ''log''), (''kind'', JStr ''log'')]])]"] by auto
qed

section \<open>Handles and the page\<close>

text \<open>The last handle whose id starts with \<open>output\<close> is drawn apart, the others in order.\<close>

definition split_handles :: "string list \<Rightarrow> string option \<times> string list" where
  "split_handles hs = fold (\<lambda>h (out, acc). if startsWith h ''output'' then (Some h, acc) else (out, acc @ [h])) hs (None, [])"

text \<open>What \<open>Container.handleSave\<close> sends: the whole workflow, or the function being edited.
  \<open>latest\<close> is the signal's \<open>rawWorkflow\<close>, \<open>raw\<close> the page's own.\<close>

definition container_save :: "string \<Rightarrow> obj \<Rightarrow> obj \<Rightarrow> js \<Rightarrow> js \<Rightarrow> js \<Rightarrow> obj" where
  "container_save functionName latest raw config orph notes =
     (if functionName \<noteq> [] then
        spread latest [(''functions'', JObj (map (\<lambda>(key, value). (key, if key = functionName then config else value))
          (entries (obj_get raw ''functions''))))]
      else spread latest [(''config'', config), (''orphans'', orph), (''notes'', notes)])"

definition delete_function :: "string \<Rightarrow> obj \<Rightarrow> obj" where
  "delete_function name workflow =
     spread workflow [(''functions'', JObj (filter (\<lambda>e. fst e \<noteq> name) (entries (obj_get workflow ''functions''))))]"

end
