(* ===== verification/Sidecar.thy ===== *)
theory Sidecar
  imports Prelude
begin

text \<open>
  The Kubernetes sidecar (\<open>src/tools/sidecar/src\<close>): \<open>sidecar.js\<close> reads its configuration and
  keeps it in \<open>contextExtractor\<close>; \<open>proxy.js\<close> has the two proxies, from the pod to Otoroshi
  (\<open>InternalProxy\<close>) and from Otoroshi to the pod (\<open>ExternalProxy\<close>).

  \<^item> A request handler is a function from the request to what it does: answer, or forward with
    the options handed to \<open>http.request\<close>. Relaying the answer is a machine over the events of
    the forwarded response.
  \<^item> \<open>jsonwebtoken\<close>, \<open>JSON.stringify\<close>, the messages of the engine's exceptions, the clock, the
    environment and the files are parameters.
  \<^item> Headers are an object with lower-case keys, as Node gives them. Logging is left out.
\<close>

section \<open>Primitives\<close>

definition digits_value :: "string \<Rightarrow> int" where
  "digits_value ds = fold (\<lambda>c n. 10 * n + (of_char c - 48)) ds 0"

text \<open>\<open>parseInt(s, 10)\<close>; \<open>None\<close> is \<open>NaN\<close>.\<close>

definition parse_int :: "string \<Rightarrow> int option" where
  "parse_int s =
     (let s = dropWhile is_space s;
          neg = startsWith s ''-'';
          r = (if neg \<or> startsWith s ''+'' then tl s else s);
          ds = takeWhile is_digit r
      in if ds = [] then None else Some (if neg then - digits_value ds else digits_value ds))"

text \<open>\<open>s.replace(p, r)\<close> with a string pattern: the first occurrence.\<close>

fun replace_first :: "string \<Rightarrow> string \<Rightarrow> string \<Rightarrow> string" where
  "replace_first p r [] = (if p = [] then r else [])"
| "replace_first p r (c # s) = (if startsWith (c # s) p then r @ drop (length p) (c # s) else c # replace_first p r s)"

section \<open>Configuration\<close>

record sidecar_context =
  OTOROSHI_DOMAIN :: string
  OTOROSHI_HOST :: string
  OTOROSHI_PORT :: "int option"
  LOCAL_PORT :: "int option"
  CLIENT_ID :: string
  CLIENT_SECRET :: string
  CLIENT_CA :: string
  CLIENT_CERT :: string
  CLIENT_KEY :: string
  BACKEND_CA :: string
  BACKEND_CERT :: string
  BACKEND_KEY :: string
  TOKEN_SECRET :: string
  ENABLE_CLIENT_CERT_CHECK :: bool
  EXPECTED_DN :: string

record options =
  o_rejectUnauthorized :: bool
  o_requestCert :: bool
  o_enableOriginCheck :: bool
  o_disableTokensCheck :: bool
  o_enableTrace :: bool

type_synonym environment = "string \<Rightarrow> string option"

text \<open>\<open>process.env.X || d\<close>: an empty value counts as none.\<close>

definition env_or :: "environment \<Rightarrow> string \<Rightarrow> string \<Rightarrow> string" where
  "env_or env x d = (case env x of Some v \<Rightarrow> if v = [] then d else v | None \<Rightarrow> d)"

definition env_flag :: "environment \<Rightarrow> string \<Rightarrow> bool" where
  "env_flag env x \<longleftrightarrow> env_or env x ''true'' = ''true''"

text \<open>\<open>process.env.X || fs.readFileSync(process.env.X_PATH || d)\<close>; reading throws when the file is
  not there.\<close>

definition env_or_file :: "environment \<Rightarrow> environment \<Rightarrow> string \<Rightarrow> string \<Rightarrow> string option" where
  "env_or_file env file x d =
     (if env_or env x [] \<noteq> [] then Some (env_or env x []) else file (env_or env (x @ ''_PATH'') d))"

definition secrets_dir :: string where
  "secrets_dir = ''/var/run/secrets/kubernetes.io/otoroshi.io/''"

definition extract_env :: "environment \<Rightarrow> environment \<Rightarrow> sidecar_context option" where
  "extract_env env file =
     (case (env_or_file env file ''CLIENT_ID'' (secrets_dir @ ''apikeys/clientId''),
            env_or_file env file ''CLIENT_SECRET'' (secrets_dir @ ''apikeys/clientSecret''),
            env_or_file env file ''CLIENT_CA'' (secrets_dir @ ''certs/client/ca.crt''),
            env_or_file env file ''CLIENT_CERT'' (secrets_dir @ ''certs/client/tls.crt''),
            env_or_file env file ''CLIENT_KEY'' (secrets_dir @ ''certs/client/tls.key''),
            env_or_file env file ''BACKEND_CA'' (secrets_dir @ ''certs/backend/ca.crt''),
            env_or_file env file ''BACKEND_CERT'' (secrets_dir @ ''certs/backend/tls.crt''),
            env_or_file env file ''BACKEND_KEY'' (secrets_dir @ ''certs/backend/tls.key'')) of
        (Some i, Some s, Some ca, Some c, Some k, Some bca, Some bc, Some bk) \<Rightarrow>
          Some \<lparr>OTOROSHI_DOMAIN = env_or env ''OTOROSHI_DOMAIN'' ''otoroshi.mesh'',
            OTOROSHI_HOST = env_or env ''OTOROSHI_HOST'' ''otoroshi-service.otoroshi.svc.cluster.local'',
            OTOROSHI_PORT = parse_int (env_or env ''OTOROSHI_PORT'' ''8443''),
            LOCAL_PORT = parse_int (env_or env ''LOCAL_PORT'' ''8081''),
            CLIENT_ID = i, CLIENT_SECRET = s, CLIENT_CA = ca, CLIENT_CERT = c, CLIENT_KEY = k,
            BACKEND_CA = bca, BACKEND_CERT = bc, BACKEND_KEY = bk,
            TOKEN_SECRET = env_or env ''TOKEN_SECRET'' ''secret'',
            ENABLE_CLIENT_CERT_CHECK = env_flag env ''ENABLE_CLIENT_CERT_CHECK'',
            EXPECTED_DN = env_or env ''EXPECTED_DN'' []\<rparr>
      | _ \<Rightarrow> None)"

definition proxy_options :: "environment \<Rightarrow> options" where
  "proxy_options env = \<lparr>o_rejectUnauthorized = env_flag env ''REJECT_UNAUTHORIZED'',
     o_requestCert = env_flag env ''REQUEST_CERT'', o_enableOriginCheck = env_flag env ''ENABLE_ORIGIN_CHECK'',
     o_disableTokensCheck = env_flag env ''DISABLE_TOKENS_CHECK'', o_enableTrace = env_flag env ''ENABLE_TRACE''\<rparr>"

text \<open>The closure of \<open>contextExtractor\<close>: \<open>latest\<close> and \<open>next\<close>. A call that throws leaves the
  refreshed \<open>next\<close> behind.\<close>

record cache =
  latest :: sidecar_context
  next_at :: int

definition cache_init :: "int \<Rightarrow> sidecar_context \<Rightarrow> cache" where
  "cache_init now c = \<lparr>latest = c, next_at = now + 60000\<rparr>"

definition cache_call :: "cache \<Rightarrow> int \<times> sidecar_context option \<Rightarrow> cache \<times> sidecar_context option" where
  "cache_call s call =
     (case call of (now, extracted) \<Rightarrow>
        if now > next_at s then (s, Some (latest s))
        else (case extracted of
                Some c \<Rightarrow> (s\<lparr>next_at := now + 60000, latest := c\<rparr>, Some c)
              | None \<Rightarrow> (s\<lparr>next_at := now + 60000\<rparr>, None)))"

fun cache_outputs :: "cache \<Rightarrow> (int \<times> sidecar_context option) list \<Rightarrow> sidecar_context option list" where
  "cache_outputs s [] = []"
| "cache_outputs s (c # cs) = (case cache_call s c of (s', out) \<Rightarrow> out # cache_outputs s' cs)"

section \<open>Requests and answers\<close>

text \<open>The peer certificate: none, one without subject, or its subject; a field that occurs
  several times is an array.\<close>

record request =
  rq_method :: string
  rq_url :: string
  rq_headers :: obj
  rq_localAddress :: "string option"
  rq_peer :: "obj option option"

record forward =
  f_host :: string
  f_port :: "int option"
  f_path :: string
  f_method :: string
  f_headers :: obj
  f_cert :: "(string \<times> string \<times> string) option"
  f_streams_body :: bool
  f_claims :: string
  f_state :: string

datatype outcome =
    Answer int string string
  | Forward forward

text \<open>The libraries: \<open>jwt.verify\<close> (throws on a bad token), \<open>jwt.sign\<close>, \<open>JSON.stringify\<close>, the
  message of an exception.\<close>

record libs =
  verify :: "string \<Rightarrow> string \<Rightarrow> obj option"
  sign :: "obj \<Rightarrow> string \<Rightarrow> string"
  stringify :: "js \<Rightarrow> string"
  message_of :: "js_error \<Rightarrow> string"

definition json_type :: string where
  "json_type = ''application/json''"

definition bad_origin :: outcome where
  "bad_origin = Answer 500 ''{\"error\":\"bad origin\"}'' json_type"

text \<open>The test of the two proxies: is the local address that of the loop-back? \<open>None\<close> is the
  \<open>undefined\<close> of a socket that is gone, whose \<open>indexOf\<close> throws.\<close>

definition is_local :: "string option \<Rightarrow> bool res" where
  "is_local a = (case a of None \<Rightarrow> Inl TypeError
     | Some a \<Rightarrow> Inr (a = ''127.0.0.1'' \<or> a = ''localhost'' \<or> includes_str a ''127.0.0.1''))"

text \<open>\<open>req.headers.host.split(':')[0]\<close>.\<close>

definition host_domain :: "request \<Rightarrow> string res" where
  "host_domain req = (case obj_get (rq_headers req) ''host'' of
     JStr h \<Rightarrow> Inr (hd (split_on CHR '':'' h)) | _ \<Rightarrow> Inl TypeError)"

definition header :: "obj \<Rightarrow> string \<Rightarrow> string \<Rightarrow> string \<Rightarrow> string" where
  "header hs a b d =
     (case js_or (obj_get hs a) (js_or (obj_get hs b) (JStr d)) of JStr s \<Rightarrow> s | _ \<Rightarrow> d)"

definition has_body :: "obj \<Rightarrow> bool" where
  "has_body hs \<longleftrightarrow>
     (case parse_int (header hs ''Content-Length'' ''content-length'' ''0'') of Some n \<Rightarrow> n > 0 | None \<Rightarrow> False)
     \<or> header hs ''Transfer-Encoding'' ''transfer-encoding'' ''none'' = ''chunked''"

text \<open>The answer the outer \<open>catch\<close> writes.\<close>

definition caught :: "libs \<Rightarrow> string \<Rightarrow> string \<Rightarrow> outcome res \<Rightarrow> outcome" where
  "caught lib what kind r =
     (case r of Inr o' \<Rightarrow> o'
      | Inl e \<Rightarrow> Answer 502 (''{\"error\": \"'' @ what @ ''\", \"type\":\"'' @ kind @ ''\", \"message\":\"''
          @ message_of lib e @ ''\" }'') json_type)"

section \<open>From the pod to Otoroshi\<close>

definition mesh_host :: "string \<Rightarrow> string" where
  "mesh_host h = replace_first ''otoroshi.tools'' ''otoroshi.mesh'' (replace_first ''oto.tools'' ''otoroshi.mesh'' h)"

definition handled_by_otoroshi :: "sidecar_context \<Rightarrow> string \<Rightarrow> bool" where
  "handled_by_otoroshi ctx domain \<longleftrightarrow> includes_str domain (OTOROSHI_DOMAIN ctx)
     \<or> includes_str domain ''oto.tools'' \<or> includes_str domain ''otoroshi.tools''"

definition internal_headers :: "sidecar_context \<Rightarrow> obj \<Rightarrow> obj" where
  "internal_headers ctx hs = spread hs
     [(''host'', JStr (mesh_host (case obj_get hs ''host'' of JStr h \<Rightarrow> h | _ \<Rightarrow> []))),
      (''Otoroshi-Client-Id'', JStr (CLIENT_ID ctx)), (''Otoroshi-Client-Secret'', JStr (CLIENT_SECRET ctx))]"

definition internal_try :: "libs \<Rightarrow> options \<Rightarrow> sidecar_context \<Rightarrow> request \<Rightarrow> outcome res" where
  "internal_try lib opts ctx req =
     rbind (if o_enableOriginCheck opts then is_local (rq_localAddress req) else Inr True) (\<lambda>local.
     if \<not> local then Inr bad_origin
     else rbind (host_domain req) (\<lambda>domain.
       if \<not> handled_by_otoroshi ctx domain
       then Inr (Answer 400 (stringify lib (JObj [(''error'', JStr (''not an otoroshi request '' @ domain))])) json_type)
       else Inr (Forward \<lparr>f_host = OTOROSHI_HOST ctx, f_port = OTOROSHI_PORT ctx, f_path = rq_url req,
              f_method = rq_method req, f_headers = internal_headers ctx (rq_headers req),
              f_cert = Some (CLIENT_CERT ctx, CLIENT_KEY ctx, CLIENT_CA ctx),
              f_streams_body = has_body (rq_headers req), f_claims = [], f_state = []\<rparr>)))"

definition InternalProxy :: "libs \<Rightarrow> options \<Rightarrow> sidecar_context \<Rightarrow> request \<Rightarrow> outcome" where
  "InternalProxy lib opts ctx req = caught lib ''Internal error'' ''INTERNAL-PROXY'' (internal_try lib opts ctx req)"

section \<open>From Otoroshi to the pod\<close>

text \<open>\<open>EXPECTED_DN\<close> as an object: the upper-case key of each part and what follows its first
  \<open>=\<close> up to the next one.\<close>

definition toUpperCase :: "string \<Rightarrow> string" where
  "toUpperCase s = map upper_char s"

definition dn_entry :: "string \<Rightarrow> string \<times> js" where
  "dn_entry p = (case split_on CHR ''='' p of
     k # v # _ \<Rightarrow> (toUpperCase k, JStr v) | [k] \<Rightarrow> (toUpperCase k, JUndef) | [] \<Rightarrow> ([], JUndef))"

definition expected_dn :: "string \<Rightarrow> obj" where
  "expected_dn dn = (if dn = [] then []
     else fold (\<lambda>p o'. AList.update (fst (dn_entry p)) (snd (dn_entry p)) o')
            (map trim (split_on CHR '','' dn)) [])"

text \<open>The predicate on the peer certificate.\<close>

definition dn_ok :: "obj \<Rightarrow> obj option option \<Rightarrow> bool" where
  "dn_ok expected peer = (case peer of Some (Some subject) \<Rightarrow>
       filter (\<lambda>v. v = False) (map (\<lambda>(k, v). v = obj_get expected k) subject) = []
     | _ \<Rightarrow> False)"

definition jwt_like :: "string \<Rightarrow> bool" where
  "jwt_like t \<longleftrightarrow> length (split_on CHR ''.'' t) = 3"

text \<open>The claims and the state the answer will carry, or the body of the refusal.\<close>

definition check_tokens :: "libs \<Rightarrow> options \<Rightarrow> sidecar_context \<Rightarrow> int \<Rightarrow> obj \<Rightarrow> string + string \<times> string" where
  "check_tokens lib opts ctx now hs =
     (if o_disableTokensCheck opts then Inr (''{}'', nat_str (nat now))
      else case (obj_get hs ''otoroshi-claim'', obj_get hs ''otoroshi-state'') of
        (JStr claimToken, JStr stateToken) \<Rightarrow>
          if claimToken = [] \<or> stateToken = [] then Inl ''{\"error\":\"no tokens\"}''
          else if jwt_like stateToken then
            (case (verify lib stateToken (TOKEN_SECRET ctx), verify lib claimToken (TOKEN_SECRET ctx)) of
               (Some state, Some claims) \<Rightarrow>
                 Inr (stringify lib (JObj claims),
                   sign lib [(''state-resp'', obj_get state ''state''), (''aud'', JStr ''Otoroshi''),
                     (''iat'', JNum (of_int (now div 1000))), (''exp'', JNum (of_int (now div 1000 + 10)))]
                     (TOKEN_SECRET ctx))
             | _ \<Rightarrow> Inl ''{\"error\":\"bad tokens\"}'')
          else (case verify lib claimToken (TOKEN_SECRET ctx) of
               Some claims \<Rightarrow> Inr (stringify lib (JObj claims), stateToken)
             | None \<Rightarrow> Inl ''{\"error\":\"bad tokens\"}'')
      | _ \<Rightarrow> Inl ''{\"error\":\"no tokens\"}'')"

definition external_try :: "libs \<Rightarrow> options \<Rightarrow> obj \<Rightarrow> sidecar_context \<Rightarrow> int \<Rightarrow> request \<Rightarrow> outcome res" where
  "external_try lib opts expected ctx now req =
     rbind (if o_enableOriginCheck opts then is_local (rq_localAddress req) else Inr False) (\<lambda>local.
     if local then Inr bad_origin
     else rbind (host_domain req) (\<lambda>domain.
       case check_tokens lib opts ctx now (rq_headers req) of
         Inl body \<Rightarrow> Inr (Answer 400 body json_type)
       | Inr (claims, state) \<Rightarrow>
           if o_requestCert opts \<and> ENABLE_CLIENT_CERT_CHECK ctx \<and> EXPECTED_DN ctx \<noteq> [] \<and> \<not> dn_ok expected (rq_peer req)
           then Inr (Answer 400 ''{\"error\":\"bad client cert\"}'' json_type)
           else Inr (Forward \<lparr>f_host = ''127.0.0.1'', f_port = LOCAL_PORT ctx, f_path = rq_url req,
                  f_method = rq_method req, f_headers = rq_headers req, f_cert = None,
                  f_streams_body = has_body (rq_headers req), f_claims = claims, f_state = state\<rparr>)))"

text \<open>\<open>expected\<close> is read from the configuration when the proxy starts, the rest at each request.\<close>

definition ExternalProxy :: "libs \<Rightarrow> options \<Rightarrow> sidecar_context \<Rightarrow> sidecar_context \<Rightarrow> int \<Rightarrow> request \<Rightarrow> outcome" where
  "ExternalProxy lib opts start ctx now req =
     caught lib ''EXTERNAL error'' ''EXTERNAL-PROXY'' (external_try lib opts (expected_dn (EXPECTED_DN start)) ctx now req)"

section \<open>Relaying the answer\<close>

record relayed =
  r_status :: int
  r_headers :: obj
  r_body :: "string list"
  r_ended :: bool

datatype relay_event = Data string | Close | End

text \<open>Headers of the pod's answer, with the claims and the state.\<close>

definition external_answer :: "forward \<Rightarrow> int \<Rightarrow> obj \<Rightarrow> relayed" where
  "external_answer f status hs = \<lparr>r_status = status,
     r_headers = spread hs [(''otoroshi-claim'', JStr (f_claims f)), (''otoroshi-state-resp'', JStr (f_state f))],
     r_body = [], r_ended = False\<rparr>"

definition internal_answer :: "int \<Rightarrow> obj \<Rightarrow> relayed" where
  "internal_answer status hs = \<lparr>r_status = status, r_headers = hs, r_body = [], r_ended = False\<rparr>"

text \<open>\<open>res.end()\<close> a second time does nothing; Node refuses a write after it.\<close>

fun relay :: "relayed \<Rightarrow> relay_event \<Rightarrow> relayed" where
  "relay r (Data chunk) = (if r_ended r then r else r\<lparr>r_body := r_body r @ [chunk]\<rparr>)"
| "relay r Close = r\<lparr>r_ended := True\<rparr>"
| "relay r End = r\<lparr>r_ended := True\<rparr>"

section \<open>Properties\<close>

text \<open>
  Once a request comes more than a minute after the configuration was last read, the sidecar
  never reads it again: that request and every later one get the configuration of before,
  whatever could be read.
\<close>

lemma context_frozen_after_idle:
  assumes "\<forall>c \<in> set calls. fst c > next_at s"
  shows "cache_outputs s calls = map (\<lambda>_. Some (latest s)) calls"
  using assms by (induction calls) (auto simp: cache_call_def)

definition sample_context :: sidecar_context where
  "sample_context = \<lparr>OTOROSHI_DOMAIN = ''otoroshi.mesh'', OTOROSHI_HOST = ''otoroshi'', OTOROSHI_PORT = Some 8443,
     LOCAL_PORT = Some 8081, CLIENT_ID = ''id'', CLIENT_SECRET = ''secret'', CLIENT_CA = [], CLIENT_CERT = [],
     CLIENT_KEY = [], BACKEND_CA = [], BACKEND_CERT = [], BACKEND_KEY = [], TOKEN_SECRET = ''s'',
     ENABLE_CLIENT_CERT_CHECK = True, EXPECTED_DN = ''CN=otoroshi,O=maif''\<rparr>"

lemma context_frozen_after_idle_witness:
  "cache_outputs (cache_init 0 sample_context)
      [(60001, Some (sample_context\<lparr>CLIENT_ID := ''new''\<rparr>)), (60002, Some (sample_context\<lparr>CLIENT_ID := ''new''\<rparr>))]
     = [Some sample_context, Some sample_context]"
  using context_frozen_after_idle
    [of "[(60001, Some (sample_context\<lparr>CLIENT_ID := ''new''\<rparr>)), (60002, Some (sample_context\<lparr>CLIENT_ID := ''new''\<rparr>))]"
      "cache_init 0 sample_context"]
  by (simp add: cache_init_def)

text \<open>
  While no two requests are more than a minute apart, each request reads the configuration
  anew.
\<close>

lemma context_fresh_when_busy:
  assumes "successively (\<lambda>a b. fst b \<le> fst a + 60000) calls" and "calls \<noteq> [] \<longrightarrow> fst (hd calls) \<le> next_at s"
  shows "cache_outputs s calls = map snd calls"
  using assms
proof (induction calls arbitrary: s)
  case (Cons c cs)
  obtain now x where c: "c = (now, x)" by (cases c)
  from Cons.prems c have "now \<le> next_at s" by simp
  then obtain s' where s': "cache_call s c = (s', x)" "next_at s' = now + 60000"
    by (cases x) (auto simp: cache_call_def c)
  have "successively (\<lambda>a b. fst b \<le> fst a + 60000) cs" "cs \<noteq> [] \<longrightarrow> fst (hd cs) \<le> next_at s'"
    using Cons.prems(1) s'(2) c by (auto simp: successively_Cons)
  from Cons.IH [OF this] s'(1) c show ?case by simp
qed simp

lemma context_fresh_when_busy_witness:
  "cache_outputs (cache_init 0 sample_context) [(50000, Some (sample_context\<lparr>CLIENT_ID := ''new''\<rparr>)), (100000, None)]
     = [Some (sample_context\<lparr>CLIENT_ID := ''new''\<rparr>), None]"
  using context_fresh_when_busy
    [of "[(50000, Some (sample_context\<lparr>CLIENT_ID := ''new''\<rparr>)), (100000, None)]" "cache_init 0 sample_context"]
  by (simp add: cache_init_def)

lemma caught_Forward: "caught lib w k r = Forward f \<longleftrightarrow> r = Inr (Forward f)"
  by (auto simp: caught_def split: sum.splits)

lemma check_tokens_verified:
  assumes "check_tokens lib opts ctx now hs = Inr (c, st)" "\<not> o_disableTokensCheck opts"
  shows "\<exists>claim claims state. obj_get hs ''otoroshi-claim'' = JStr claim \<and> verify lib claim (TOKEN_SECRET ctx) = Some claims
     \<and> c = stringify lib (JObj claims) \<and> obj_get hs ''otoroshi-state'' = JStr state
     \<and> (if jwt_like state
        then (\<exists>s. verify lib state (TOKEN_SECRET ctx) = Some s
          \<and> st = sign lib [(''state-resp'', obj_get s ''state''), (''aud'', JStr ''Otoroshi''),
               (''iat'', JNum (of_int (now div 1000))), (''exp'', JNum (of_int (now div 1000 + 10)))] (TOKEN_SECRET ctx))
        else st = state)"
  using assms by (auto simp: check_tokens_def split: js.splits if_splits option.splits)

text \<open>
  C39. The external proxy forwards a request to the pod only when its tokens are good: unless the
  check is disabled, the claim was verified with the shared secret and is handed back in the
  answer; and the state either looks like a token, was verified, and is answered by a token signed with the
  secret that expires ten seconds later, or does not look like one, and is echoed without being verified.
\<close>

theorem external_forwards_verified:
  assumes "ExternalProxy lib opts start ctx now req = Forward f" and "\<not> o_disableTokensCheck opts"
  shows "\<exists>claim claims state. obj_get (rq_headers req) ''otoroshi-claim'' = JStr claim
     \<and> verify lib claim (TOKEN_SECRET ctx) = Some claims \<and> f_claims f = stringify lib (JObj claims)
     \<and> obj_get (rq_headers req) ''otoroshi-state'' = JStr state
     \<and> (if jwt_like state
        then (\<exists>s. verify lib state (TOKEN_SECRET ctx) = Some s
          \<and> f_state f = sign lib [(''state-resp'', obj_get s ''state''), (''aud'', JStr ''Otoroshi''),
               (''iat'', JNum (of_int (now div 1000))), (''exp'', JNum (of_int (now div 1000 + 10)))] (TOKEN_SECRET ctx))
        else f_state f = state)
     \<and> f_host f = ''127.0.0.1'' \<and> f_port f = LOCAL_PORT ctx \<and> f_headers f = rq_headers req"
proof -
  from assms(1) obtain c st where t: "check_tokens lib opts ctx now (rq_headers req) = Inr (c, st)"
    and f: "f_claims f = c" "f_state f = st" "f_host f = ''127.0.0.1''" "f_port f = LOCAL_PORT ctx"
      "f_headers f = rq_headers req"
    by (auto simp: ExternalProxy_def caught_Forward external_try_def bad_origin_def split: if_splits sum.splits)
  from check_tokens_verified [OF t assms(2)] show ?thesis unfolding f by blast
qed

definition sample_libs :: libs where
  "sample_libs = \<lparr>verify = (\<lambda>t s. if t = ''c'' then Some [(''sub'', JStr ''me'')]
        else if t = ''a.b.c'' then Some [(''state'', JStr ''42'')] else None),
     sign = (\<lambda>o' s. ''signed''), stringify = (\<lambda>v. ''{}''), message_of = (\<lambda>e. ''error'')\<rparr>"

definition sample_request :: request where
  "sample_request = \<lparr>rq_method = ''GET'', rq_url = ''/'', rq_headers = [(''host'', JStr ''api.oto.tools:8080''),
     (''otoroshi-state'', JStr ''a.b.c''), (''otoroshi-claim'', JStr ''c'')], rq_localAddress = Some ''127.0.0.1'',
     rq_peer = Some (Some [(''CN'', JStr ''otoroshi'')])\<rparr>"

definition checked :: options where
  "checked = \<lparr>o_rejectUnauthorized = True, o_requestCert = True, o_enableOriginCheck = False,
     o_disableTokensCheck = False, o_enableTrace = False\<rparr>"

definition forwarded :: "outcome \<Rightarrow> bool" where
  "forwarded o' = (case o' of Forward _ \<Rightarrow> True | Answer _ _ _ \<Rightarrow> False)"

lemma forwardedD: "forwarded o' \<Longrightarrow> \<exists>f. o' = Forward f"
  by (cases o') (simp_all add: forwarded_def)

lemma sample_forwarded:
  "forwarded (ExternalProxy sample_libs checked sample_context sample_context 0 sample_request)"
  "forwarded (InternalProxy sample_libs checked sample_context sample_request)"
  by code_simp+

lemma external_forwards_verified_witness:
  "\<exists>f. ExternalProxy sample_libs checked sample_context sample_context 0 sample_request = Forward f
     \<and> f_state f = ''signed'' \<and> f_headers f = rq_headers sample_request"
proof -
  from forwardedD [OF sample_forwarded(1)]
  obtain f where f: "ExternalProxy sample_libs checked sample_context sample_context 0 sample_request = Forward f" by blast
  have j: "jwt_like ''a.b.c''" by code_simp
  have "\<not> o_disableTokensCheck checked" by (simp add: checked_def)
  from external_forwards_verified [OF f this] j show ?thesis
    using f by (auto simp: sample_request_def sample_libs_def)
qed

text \<open>
  The internal proxy only forwards requests of the pod (when it checks their origin) for a
  host that Otoroshi handles, and then sends them to Otoroshi with the configured API key and
  client certificate and, the host apart, with the headers they came with.
\<close>

lemma internal_forwards_with_credentials:
  assumes "InternalProxy lib opts ctx req = Forward f"
  shows "obj_get (f_headers f) ''Otoroshi-Client-Id'' = JStr (CLIENT_ID ctx)
     \<and> obj_get (f_headers f) ''Otoroshi-Client-Secret'' = JStr (CLIENT_SECRET ctx)
     \<and> f_cert f = Some (CLIENT_CERT ctx, CLIENT_KEY ctx, CLIENT_CA ctx)
     \<and> f_host f = OTOROSHI_HOST ctx \<and> f_port f = OTOROSHI_PORT ctx \<and> f_path f = rq_url req
     \<and> (\<forall>k. k = ''host'' \<or> k = ''Otoroshi-Client-Id'' \<or> k = ''Otoroshi-Client-Secret''
          \<or> obj_get (f_headers f) k = obj_get (rq_headers req) k)
     \<and> (\<exists>h. obj_get (rq_headers req) ''host'' = JStr h \<and> handled_by_otoroshi ctx (hd (split_on CHR '':'' h))
          \<and> obj_get (f_headers f) ''host'' = JStr (mesh_host h))
     \<and> (o_enableOriginCheck opts \<longrightarrow> is_local (rq_localAddress req) = Inr True)"
proof -
  from assms obtain domain where d: "host_domain req = Inr domain" "handled_by_otoroshi ctx domain"
    and l: "o_enableOriginCheck opts \<longrightarrow> is_local (rq_localAddress req) = Inr True"
    and f: "f = \<lparr>f_host = OTOROSHI_HOST ctx, f_port = OTOROSHI_PORT ctx, f_path = rq_url req,
              f_method = rq_method req, f_headers = internal_headers ctx (rq_headers req),
              f_cert = Some (CLIENT_CERT ctx, CLIENT_KEY ctx, CLIENT_CA ctx),
              f_streams_body = has_body (rq_headers req), f_claims = [], f_state = []\<rparr>"
    by (auto simp: InternalProxy_def caught_Forward internal_try_def bad_origin_def split: if_splits)
  from d obtain h where h: "obj_get (rq_headers req) ''host'' = JStr h" "domain = hd (split_on CHR '':'' h)"
    by (auto simp: host_domain_def split: js.splits)
  show ?thesis
    using d h l by (auto simp: f internal_headers_def obj_get_spread)
qed

lemma internal_forwards_with_credentials_witness:
  "\<exists>f. InternalProxy sample_libs checked sample_context sample_request = Forward f
     \<and> obj_get (f_headers f) ''Otoroshi-Client-Secret'' = JStr ''secret''"
  using forwardedD [OF sample_forwarded(2)] internal_forwards_with_credentials [of sample_libs checked sample_context sample_request]
  by (auto simp: sample_context_def)

text \<open>
  The check of the client certificate looks only at the fields the certificate has: if a
  subject is accepted, so is every subject with fewer of its fields, down to an empty one.
\<close>

lemma dn_check_ignores_missing_fields:
  assumes "dn_ok (expected_dn (EXPECTED_DN start)) (Some (Some subject))" and "set sub \<subseteq> set subject"
  shows "ExternalProxy lib opts start ctx now (req\<lparr>rq_peer := Some (Some sub)\<rparr>)
       = ExternalProxy lib opts start ctx now (req\<lparr>rq_peer := Some (Some subject)\<rparr>)"
proof -
  have "dn_ok (expected_dn (EXPECTED_DN start)) (Some (Some sub))"
    using assms by (auto simp: dn_ok_def filter_empty_conv)
  with assms(1) show ?thesis
    by (simp add: ExternalProxy_def external_try_def host_domain_def cong: if_cong sum.case_cong prod.case_cong)
qed

lemma dn_check_ignores_missing_fields_witness:
  "ExternalProxy sample_libs checked sample_context sample_context 0 (sample_request\<lparr>rq_peer := Some (Some [])\<rparr>)
     = ExternalProxy sample_libs checked sample_context sample_context 0 sample_request"
proof -
  have "dn_ok (expected_dn (EXPECTED_DN sample_context)) (Some (Some [(''CN'', JStr ''otoroshi'')]))" by code_simp
  from dn_check_ignores_missing_fields [OF this, of "[]" sample_libs checked sample_context 0 sample_request]
  show ?thesis by (simp add: sample_request_def)
qed

definition is_data :: "relay_event \<Rightarrow> bool" where
  "is_data e = (case e of Data _ \<Rightarrow> True | _ \<Rightarrow> False)"

definition chunk_of :: "relay_event \<Rightarrow> string" where
  "chunk_of e = (case e of Data c \<Rightarrow> c | _ \<Rightarrow> [])"

text \<open>
  The answer is relayed whole and in order: the client gets the status and the headers of the
  pod with the claims and the state, and the chunks that came before the answer ended, in
  their order; what comes after the end is not sent.
\<close>

lemma relay_in_order:
  "foldl relay (external_answer f status hs) evs =
     (external_answer f status hs)\<lparr>r_body := map chunk_of (takeWhile is_data evs), r_ended := (\<exists>e \<in> set evs. \<not> is_data e)\<rparr>"
proof -
  have ended: "foldl relay r es = r" if "r_ended r" for r es
    using that
  proof (induction es arbitrary: r)
    case (Cons e es)
    then show ?case by (cases e) auto
  qed simp
  have "foldl relay r evs = r\<lparr>r_body := r_body r @ map chunk_of (takeWhile is_data evs),
      r_ended := (\<exists>e \<in> set evs. \<not> is_data e)\<rparr>" if "\<not> r_ended r" for r
    using that
  proof (induction evs arbitrary: r)
    case (Cons e es)
    then show ?case by (cases e) (auto simp: is_data_def chunk_of_def ended)
  qed simp
  then show ?thesis by (simp add: external_answer_def)
qed

text \<open>
  \<open>EXPECTED_DN\<close> is read field by field: for fields with distinct names, without separators and
  without blanks at their ends, the expected value of a field is the one written for it,
  under its upper-case name.
\<close>

lemma expected_dn_lookup:
  assumes "kvs \<noteq> []" and "distinct (map (toUpperCase \<circ> fst) kvs)" and "(k, v) \<in> set kvs"
    and "\<forall>(k, v) \<in> set kvs. trim (k @ ''='' @ v) = k @ ''='' @ v
       \<and> CHR '','' \<notin> set (k @ v) \<and> CHR ''='' \<notin> set (k @ v)"
  shows "obj_get (expected_dn (join '','' (map (\<lambda>(k, v). k @ ''='' @ v) kvs))) (toUpperCase k) = JStr v"
proof -
  define ps where "ps = map (\<lambda>(k, v). k @ ''='' @ v) kvs"
  have ne: "join '','' ps \<noteq> []" unfolding ps_def using assms(1) by (cases kvs; cases "tl kvs") auto
  have sp: "split_on CHR '','' (join '','' ps) = ps"
    unfolding ps_def using assms(1,4) by (intro split_on_join) auto
  have tr: "map trim ps = ps" unfolding ps_def using assms(4) by (auto simp: map_idI)
  have en: "dn_entry (k @ ''='' @ v) = (toUpperCase k, JStr v)" if "(k, v) \<in> set kvs" for k v
    using assms(4) that by (auto simp: dn_entry_def split_on_append split_on_no_sep)
  have "map dn_entry ps = map (\<lambda>(k, v). (toUpperCase k, JStr v)) kvs"
    unfolding ps_def using en by auto
  moreover have "fold (\<lambda>p o'. AList.update (fst (dn_entry p)) (snd (dn_entry p)) o') ps [] = spread [] (map dn_entry ps)" for ps
    by (simp add: spread_def fold_map comp_def case_prod_beta)
  ultimately have e: "expected_dn (join '','' ps) = spread [] (map (\<lambda>(k, v). (toUpperCase k, JStr v)) kvs)"
    using ne by (simp add: expected_dn_def sp tr)
  have d: "keys_ok (map (\<lambda>(k, v). (toUpperCase k, JStr v)) kvs)"
    using assms(2) by (simp add: keys_ok_def comp_def case_prod_beta)
  then have "map_of (map (\<lambda>(k, v). (toUpperCase k, JStr v)) kvs) (toUpperCase k) = Some (JStr v)"
    using assms(3) by (intro map_of_is_SomeI) (force simp: keys_ok_def)+
  then show ?thesis by (simp add: e [unfolded ps_def, simplified] obj_get_def map_of_spread [OF d])
qed

lemma expected_dn_lookup_witness:
  "obj_get (expected_dn ''cn=otoroshi,O=maif'') ''CN'' = JStr ''otoroshi''"
proof -
  have f: "toUpperCase ''cn'' = ''CN''" "toUpperCase ''O'' = ''O''"
    "trim ''cn=otoroshi'' = ''cn=otoroshi''" "trim ''O=maif'' = ''O=maif''" by code_simp+
  show ?thesis
    using expected_dn_lookup [of "[(''cn'', ''otoroshi''), (''O'', ''maif'')]" "''cn''" "''otoroshi''"]
    by (simp add: f)
qed

text \<open>
  With no configuration the tokens are not checked: the default of \<open>DISABLE_TOKENS_CHECK\<close> is
  to disable the check, so every request passes it.
\<close>

lemma tokens_unchecked_by_default:
  assumes "env ''DISABLE_TOKENS_CHECK'' = None \<or> env ''DISABLE_TOKENS_CHECK'' = Some []"
  shows "check_tokens lib (proxy_options env) ctx now hs = Inr (''{}'', nat_str (nat now))"
  using assms by (auto simp: check_tokens_def proxy_options_def env_flag_def env_or_def)

end
