(* ===== verification/Drafts_Compare.thy ===== *)
theory Drafts_Compare
  imports Prelude
begin

text \<open>
  The comparison of a draft with what is published (\<open>components/Drafts/Compare/utils.js\<close>):
  \<open>mergeData\<close> turns two JSON values into the tree of lines the page shows.

  \<^item> The line counter \<open>start\<close> is passed along; \<open>changed\<close> is what the code sets to \<open>true\<close>.
  \<^item> \<open>===\<close> on two arrays or objects compares identities, which a value does not have: it is a
    parameter (\<open>same\<close>), as is the text of a number. Regular expressions and functions, which are
    not JSON, are left out.
  \<^item> \<open>isArray\<close> answers \<open>true\<close> for the string \<open>'array'\<close> too, which the model keeps.
\<close>

section \<open>Types\<close>

definition isArray :: "js \<Rightarrow> bool" where
  "isArray item \<longleftrightarrow> item = JStr ''array'' \<or> is_array item"

definition isObject :: "js \<Rightarrow> bool" where
  "isObject item = is_object item"

definition isComplexType :: "js \<Rightarrow> bool" where
  "isComplexType param \<longleftrightarrow> isObject param \<or> isArray param"

fun getType :: "js \<Rightarrow> string" where
  "getType JUndef = ''undefined''"
| "getType JNull = ''null''"
| "getType (JBool _) = ''boolean''"
| "getType (JNum _) = ''number''"
| "getType (JStr _) = ''string''"
| "getType (JArr _) = ''array''"
| "getType (JObj _) = ''object''"

definition needFormat :: "string \<Rightarrow> bool" where
  "needFormat ty \<longleftrightarrow> ty = ''array'' \<or> ty = ''object''"

definition isTheSametype :: "js \<Rightarrow> js \<Rightarrow> bool" where
  "isTheSametype a b \<longleftrightarrow> getType a = getType b"

text \<open>How deep a value is for \<open>mergeData\<close>, the measure of its recursions.\<close>

fun depth :: "js \<Rightarrow> nat" where
  "depth (JArr xs) = Suc (foldr max (map depth xs) 0)"
| "depth (JObj fs) = Suc (foldr max (map (\<lambda>e. depth (snd e)) fs) 0)"
| "depth (JStr s) = (if s = ''array'' then 1 else 0)"
| "depth _ = 0"

definition max_depth :: "js list \<Rightarrow> nat" where
  "max_depth vs = foldr max (map depth vs) 0"

lemma max_depth_simps [simp]:
  "max_depth [] = 0" "max_depth (v # vs) = max (depth v) (max_depth vs)"
  by (simp_all add: max_depth_def)

lemma max_depth_le: "v \<in> set vs \<Longrightarrow> depth v \<le> max_depth vs"
  by (induction vs) auto

lemma depth_complex: "isComplexType v \<Longrightarrow> depth v = Suc (max_depth (map snd (entries v)))"
proof -
  have "max_depth (map (\<lambda>c. JStr [c]) s) = 0" for s
    by (induction s) auto
  then show "isComplexType v \<Longrightarrow> depth v = Suc (max_depth (map snd (entries v)))"
    by (cases v) (auto simp: isComplexType_def isArray_def isObject_def is_array_def is_object_def
        max_depth_def indexed_def comp_def)
qed

section \<open>Lines\<close>

datatype mark = NoMark | Del | Add

datatype dline =
  DLine (d_name: string) (d_line: nat) (d_value: "string + dline list") (d_type: string)
    (d_showIndex: bool) (d_needComma: bool) (d_lineType: mark) (d_lastLineType: mark) (d_lastLine: "nat option")

record compare_env =
  same :: "js \<Rightarrow> js \<Rightarrow> bool"
  num_text :: "rat \<Rightarrow> string"

fun text_of :: "compare_env \<Rightarrow> js \<Rightarrow> string" where
  "text_of env (JNum n) = num_text env n"
| "text_of env (JBool b) = (if b then ''true'' else ''false'')"
| "text_of env JNull = ''null''"
| "text_of env JUndef = ''undefined''"
| "text_of env (JStr s) = ''\"'' @ s @ ''\"''"
| "text_of env v = []"

text \<open>\<open>convertObject\<close> and its loop over the keys.\<close>

function convertObject :: "compare_env \<Rightarrow> js \<Rightarrow> mark \<Rightarrow> nat \<Rightarrow> (string + dline list) \<times> nat"
  and convertKeys :: "compare_env \<Rightarrow> bool \<Rightarrow> obj \<Rightarrow> mark \<Rightarrow> nat \<Rightarrow> dline list \<times> nat" where
  "convertObject env param lineType start =
     (if isComplexType param then
        (let (ls, start) = convertKeys env (getType param = ''object'') (entries param) lineType start in (Inr ls, start))
      else (Inl (text_of env param), start))"
| "convertKeys env showIndex [] lineType start = ([], start)"
| "convertKeys env showIndex ((key, v) # rest) lineType start =
     (let (val, s) = convertObject env v lineType (start + 1);
          (lastLine, s) = (if isComplexType v then (Some s, s + 1) else (None, s));
          (ls, s) = convertKeys env showIndex rest lineType s
      in (DLine key start val (getType v) showIndex (rest \<noteq> []) lineType lineType lastLine # ls, s))"
  by pat_completeness auto
termination
  by (relation "inv_image (less_than <*lex*> less_than) (\<lambda>x. case x of
        Inl (env, v, l, s) \<Rightarrow> (2 * depth v + 1, 0)
      | Inr (env, i, es, l, s) \<Rightarrow> (2 * max_depth (map snd es) + 2, length es))")
    (auto simp: depth_complex)

declare convertObject.simps [simp del]

definition parseValue :: "compare_env \<Rightarrow> string \<Rightarrow> js \<Rightarrow> bool \<Rightarrow> bool \<Rightarrow> mark \<Rightarrow> nat \<Rightarrow> dline \<times> nat" where
  "parseValue env key v showIndex needComma lineType start =
     (let (val, s) = convertObject env v lineType (start + 1);
          (lastLine, s) = (if isComplexType v then (Some s, s + 1) else (None, s))
      in (DLine key start val (getType v) showIndex needComma lineType lineType lastLine, s))"

text \<open>The deleted and the added keys, in order; \<open>comma\<close> is the comma of the last one.\<close>

fun parseValues :: "compare_env \<Rightarrow> bool \<Rightarrow> bool \<Rightarrow> mark \<Rightarrow> obj \<Rightarrow> nat \<Rightarrow> dline list \<times> nat" where
  "parseValues env showIndex comma lineType [] start = ([], start)"
| "parseValues env showIndex comma lineType ((key, v) # rest) start =
     (let (l, s) = parseValue env key v showIndex (if rest = [] then comma else True) lineType start;
          (ls, s) = parseValues env showIndex comma lineType rest s
      in (l # ls, s))"

definition same_js :: "compare_env \<Rightarrow> js \<Rightarrow> js \<Rightarrow> bool" where
  "same_js env a b \<longleftrightarrow> (if is_object a \<or> is_array a then same env a b else a = b)"

definition pick :: "obj \<Rightarrow> string list \<Rightarrow> obj" where
  "pick o' ks = map (\<lambda>k. (k, obj_get o' k)) ks"

definition keys_of :: "js \<Rightarrow> string list" where
  "keys_of v = map fst (entries v)"

text \<open>\<open>parseData\<close>, whose loop over the kept keys is \<open>parseKept\<close>: a key with its two values.\<close>

function parseData :: "compare_env \<Rightarrow> js \<Rightarrow> js \<Rightarrow> nat \<Rightarrow> dline list \<times> nat \<times> bool"
  and parseKept :: "compare_env \<Rightarrow> bool \<Rightarrow> bool \<Rightarrow> (string \<times> js \<times> js) list \<Rightarrow> nat \<Rightarrow> dline list \<times> nat \<times> bool" where
  "parseData env a b start =
     (let del = filter (\<lambda>k. k \<notin> set (keys_of b)) (keys_of a);
          stl = filter (\<lambda>k. k \<in> set (keys_of b)) (keys_of a);
          add = filter (\<lambda>k. k \<notin> set (keys_of a)) (keys_of b);
          showIndex = isObject b;
          (ls1, s) = parseValues env showIndex (stl \<noteq> [] \<or> add \<noteq> []) Del (pick (entries a) del) start;
          (ls2, s, c) = parseKept env showIndex (add \<noteq> [])
             (map (\<lambda>k. (k, obj_get (entries a) k, obj_get (entries b) k)) stl) s;
          (ls3, s) = parseValues env showIndex False Add (pick (entries b) add) s
      in (ls1 @ ls2 @ ls3, s, del \<noteq> [] \<or> c \<or> add \<noteq> []))"
| "parseKept env showIndex comma [] start = ([], start, False)"
| "parseKept env showIndex comma ((key, va, vb) # rest) start =
     (let needComma = (if rest = [] then comma else True) in
      if same_js env va vb then
        (let (l, s) = parseValue env key vb showIndex needComma NoMark start;
             (ls, s, c) = parseKept env showIndex comma rest s
         in (l # ls, s, c))
      else if isTheSametype va vb \<and> isComplexType vb then
        (let (inner, s, c) = parseData env va vb (start + 1);
             (ls, s', c') = parseKept env showIndex comma rest (s + 1)
         in (DLine key start (Inr inner) (if isArray va then ''array'' else ''object'') showIndex needComma
               NoMark NoMark (Some s) # ls, s', c \<or> c'))
      else
        (let (l1, s) = parseValue env key va showIndex True Del start;
             (l2, s) = parseValue env key vb showIndex needComma Add s;
             (ls, s, c) = parseKept env showIndex comma rest s
         in (l1 # l2 # ls, s, True)))"
  by pat_completeness auto

lemma obj_get_in: "obj_has o' k \<Longrightarrow> (k, obj_get o' k) \<in> set o'"
  by (auto simp: obj_get_def obj_has_def map_of_eq_None_iff split: option.splits dest: map_of_SomeD)

lemma kept_depth:
  assumes "k \<in> set (keys_of b)" "isComplexType (obj_get (entries b) k)"
  shows "depth (obj_get (entries b) k) < depth b"
proof -
  from assms(1) have "(k, obj_get (entries b) k) \<in> set (entries b)"
    by (intro obj_get_in) (simp add: keys_of_def obj_has_def)
  then have m: "obj_get (entries b) k \<in> set (map snd (entries b))" by force
  show ?thesis
  proof (cases "isComplexType b")
    case True
    with max_depth_le [OF m] show ?thesis by (simp add: depth_complex)
  next
    case False
    with m have "\<exists>c. obj_get (entries b) k = JStr [c]"
      by (cases b) (auto simp: isComplexType_def isArray_def isObject_def is_array_def is_object_def
          indexed_def set_zip)
    with assms(2) show ?thesis
      by (auto simp: isComplexType_def isArray_def isObject_def is_array_def is_object_def)
  qed
qed

definition kept_measure :: "(string \<times> js \<times> js) list \<Rightarrow> nat" where
  "kept_measure ts = foldr max (map (\<lambda>(k, va, vb). if isComplexType vb then Suc (depth vb) else 0) ts) 0"

lemma kept_measure_simps [simp]:
  "kept_measure [] = 0"
  "kept_measure ((k, va, vb) # ts) = max (if isComplexType vb then Suc (depth vb) else 0) (kept_measure ts)"
  by (simp_all add: kept_measure_def)

lemma kept_measure_le:
  "set ks \<subseteq> set (keys_of b) \<Longrightarrow>
     kept_measure (map (\<lambda>k. (k, f k, obj_get (entries b) k)) ks) \<le> depth b"
  using kept_depth by (induction ks) (auto simp: Suc_le_eq)

lemma kept_measure_less:
  "kept_measure (map (\<lambda>k. (k, f k, obj_get (entries b) k)) (filter (\<lambda>k. k \<in> set (keys_of b)) ks)) < Suc (depth b)"
  using kept_measure_le [of "filter (\<lambda>k. k \<in> set (keys_of b)) ks" b f] by (simp add: le_imp_less_Suc subset_iff)

termination parseData
proof (relation "inv_image (less_than <*lex*> less_than) (\<lambda>x. case x of
        Inl (env, a, b, s) \<Rightarrow> (2 * depth b + 1, 0)
      | Inr (env, i, c, ts, s) \<Rightarrow> (2 * kept_measure ts, length ts))", goal_cases)
  case (2 env a b s)
  then show ?case using kept_measure_less [of "\<lambda>k. obj_get (entries a) k" b "keys_of a"] by simp
qed (auto simp: max_def)

declare parseData.simps [simp del]

definition mergeData :: "compare_env \<Rightarrow> js \<Rightarrow> js \<Rightarrow> dline list \<times> bool" where
  "mergeData env old new =
     (if isTheSametype old new \<and> isComplexType new then
        (let (ls, s, c) = parseData env old new 1 in (ls, c))
      else if same_js env old new then ([fst (parseValue env ''0'' new False False NoMark 1)], False)
      else (let (l1, s) = parseValue env ''0'' old False True Del 1;
                (l2, s) = parseValue env ''1'' new False False Add s
            in ([l1, l2], True)))"

section \<open>Line numbers\<close>

text \<open>The line numbers of a line, in the order the page shows them.\<close>

fun numbers :: "dline \<Rightarrow> nat list" where
  "numbers (DLine key l val ty sh cm lt llt lastLine) =
     l # (case val of Inl _ \<Rightarrow> [] | Inr ls \<Rightarrow> concat (map numbers ls))
     @ (case lastLine of None \<Rightarrow> [] | Some n \<Rightarrow> [n])"

definition all_numbers :: "dline list \<Rightarrow> nat list" where
  "all_numbers ls = concat (map numbers ls)"

definition value_numbers :: "string + dline list \<Rightarrow> nat list" where
  "value_numbers v = (case v of Inl _ \<Rightarrow> [] | Inr ls \<Rightarrow> all_numbers ls)"

lemma all_numbers_simps [simp]:
  "all_numbers [] = []" "all_numbers (l # ls) = numbers l @ all_numbers ls"
  "all_numbers (ls @ ms) = all_numbers ls @ all_numbers ms"
  by (simp_all add: all_numbers_def)

lemma numbers_value:
  "numbers (DLine key l val ty sh cm lt llt lastLine) =
     l # value_numbers val @ (case lastLine of None \<Rightarrow> [] | Some n \<Rightarrow> [n])"
  by (cases val) (simp_all add: value_numbers_def all_numbers_def)

declare numbers.simps [simp del]

lemma upt_join: "i \<le> j \<Longrightarrow> j \<le> k \<Longrightarrow> [i..<j] @ [j..<k] = [i..<k]"
  by (metis le_add_diff_inverse upt_add_eq_append)

text \<open>\<open>runs ns s s'\<close>: the numbers from \<open>s\<close> up to \<open>s'\<close>.\<close>

definition runs :: "nat list \<Rightarrow> nat \<Rightarrow> nat \<Rightarrow> bool" where
  "runs ns s s' \<longleftrightarrow> s \<le> s' \<and> ns = [s..<s']"

lemma runs_Nil [simp]: "runs [] s s' \<longleftrightarrow> s = s'"
  by (auto simp: runs_def dest: sym)

lemma runs_append: "runs ns i j \<Longrightarrow> runs ms j k \<Longrightarrow> runs (ns @ ms) i k"
  by (auto simp: runs_def upt_join)

lemma runs_one: "runs [s] s (Suc s)"
  by (simp add: runs_def)

lemma runs_leaf:
  assumes "runs (value_numbers val) (Suc i) s" "runs ms s k"
  shows "runs (numbers (DLine key i val ty sh cm lt llt None) @ ms) i k"
  using runs_append [OF runs_one runs_append [OF assms]] by (simp add: numbers_value)

lemma runs_node:
  assumes "runs (value_numbers val) (Suc i) s" "runs ms (Suc s) k"
  shows "runs (numbers (DLine key i val ty sh cm lt llt (Some s)) @ ms) i k"
  using runs_append [OF runs_one runs_append [OF assms(1) runs_append [OF runs_one assms(2)]]]
  by (simp add: numbers_value)

lemma convert_runs:
  "convertObject env v lt s = (val, s') \<Longrightarrow> runs (value_numbers val) s s'"
  "convertKeys env sh es lt s = (ls, s') \<Longrightarrow> runs (all_numbers ls) s s'"
proof (induction env v lt s and env sh es lt s arbitrary: val s' and ls s' rule: convertObject_convertKeys.induct)
  case (1 env v lt s)
  then show ?case
    by (auto simp: convertObject.simps [of env v] value_numbers_def split: if_splits prod.splits)
next
  case (3 env sh key v rest lt start)
  obtain val s1 where v: "convertObject env v lt (start + 1) = (val, s1)" by (cases "convertObject env v lt (start + 1)")
  define s2 where "s2 = (if isComplexType v then Suc s1 else s1)"
  obtain ls' s3 where r: "convertKeys env sh rest lt s2 = (ls', s3)" by (cases "convertKeys env sh rest lt s2")
  have "runs (value_numbers val) (Suc start) s1" using 3(1) v by simp
  moreover have e: "(if isComplexType v then Some s1 else None, s2)
      = (if isComplexType v then (Some s1, s1 + 1) else (None, s1))" by (simp add: s2_def)
  have "runs (all_numbers ls') s2 s3"
    using 3(2) [OF refl v [symmetric] refl e r] .
  ultimately show ?case
    using 3(3) v r by (cases "isComplexType v") (auto simp: s2_def intro: runs_leaf runs_node)
qed simp

lemma parseValue_runs:
  assumes "parseValue env key v sh cm lt s = (l, s')" and "runs ms s' k"
  shows "runs (numbers l @ ms) s k"
proof -
  obtain val s1 where v: "convertObject env v lt (s + 1) = (val, s1)" by (cases "convertObject env v lt (s + 1)")
  from convert_runs(1) [OF v] have "runs (value_numbers val) (Suc s) s1" by simp
  with assms v show ?thesis
    by (auto simp: parseValue_def intro: runs_leaf runs_node split: if_splits)
qed

lemma parseValues_runs:
  "parseValues env sh cm lt es s = (ls, s') \<Longrightarrow> runs (all_numbers ls) s s'"
proof (induction es arbitrary: s ls s')
  case (Cons e es)
  obtain key v where e: "e = (key, v)" by (cases e)
  define c where "c = (if es = [] then cm else True)"
  obtain l s1 where v: "parseValue env key v sh c lt s = (l, s1)" by (cases "parseValue env key v sh c lt s")
  obtain ls' s2 where r: "parseValues env sh cm lt es s1 = (ls', s2)" by (cases "parseValues env sh cm lt es s1")
  have "ls = l # ls'" "s' = s2" using Cons.prems v r by (simp_all add: e flip: c_def)
  with parseValue_runs [OF v Cons.IH [OF r]] show ?case by simp
qed simp

text \<open>The parts of a call of \<open>parseData\<close> and the three cases of \<open>parseKept\<close>.\<close>

definition deleted :: "js \<Rightarrow> js \<Rightarrow> string list" where
  "deleted a b = filter (\<lambda>k. k \<notin> set (keys_of b)) (keys_of a)"

definition kept :: "js \<Rightarrow> js \<Rightarrow> (string \<times> js \<times> js) list" where
  "kept a b = map (\<lambda>k. (k, obj_get (entries a) k, obj_get (entries b) k)) (filter (\<lambda>k. k \<in> set (keys_of b)) (keys_of a))"

definition added :: "js \<Rightarrow> js \<Rightarrow> string list" where
  "added a b = filter (\<lambda>k. k \<notin> set (keys_of a)) (keys_of b)"

lemma parseData_parts:
  assumes "parseData env a b s = (ls, s', c)"
  obtains ls1 s1 ls2 s2 c2 ls3 cm where
    "parseValues env (isObject b) cm Del (pick (entries a) (deleted a b)) s = (ls1, s1)"
    "parseKept env (isObject b) (added a b \<noteq> []) (kept a b) s1 = (ls2, s2, c2)"
    "parseValues env (isObject b) False Add (pick (entries b) (added a b)) s2 = (ls3, s')"
    "ls = ls1 @ ls2 @ ls3" "c = (deleted a b \<noteq> [] \<or> c2 \<or> added a b \<noteq> [])"
proof -
  have "parseData env a b s =
     (let (ls1, s) = parseValues env (isObject b) (kept a b \<noteq> [] \<or> added a b \<noteq> []) Del (pick (entries a) (deleted a b)) s;
          (ls2, s, c) = parseKept env (isObject b) (added a b \<noteq> []) (kept a b) s;
          (ls3, s) = parseValues env (isObject b) False Add (pick (entries b) (added a b)) s
      in (ls1 @ ls2 @ ls3, s, deleted a b \<noteq> [] \<or> c \<or> added a b \<noteq> []))"
    by (simp add: parseData.simps(1) [of env a b] deleted_def kept_def added_def Let_def)
  with assms that show ?thesis by (auto simp del: parseKept.simps split: prod.splits)
qed

lemma parseKept_cases:
  assumes "parseKept env sh cm ((key, va, vb) # rest) s = (ls, s', c)"
  obtains
    (eq) l s1 ls' cm' where "same_js env va vb" "parseValue env key vb sh cm' NoMark s = (l, s1)"
      "parseKept env sh cm rest s1 = (ls', s', c)" "ls = l # ls'"
  | (inside) inner s1 c1 ls' c2 cm' where "\<not> same_js env va vb" "isTheSametype va vb" "isComplexType vb"
      "parseData env va vb (Suc s) = (inner, s1, c1)" "parseKept env sh cm rest (Suc s1) = (ls', s', c2)"
      "ls = DLine key s (Inr inner) (if isArray va then ''array'' else ''object'') sh cm' NoMark NoMark (Some s1) # ls'"
      "c = (c1 \<or> c2)"
  | (differ) l1 s1 l2 s2 ls' c2 cm' where "\<not> same_js env va vb" "\<not> (isTheSametype va vb \<and> isComplexType vb)"
      "parseValue env key va sh True Del s = (l1, s1)" "parseValue env key vb sh cm' Add s1 = (l2, s2)"
      "parseKept env sh cm rest s2 = (ls', s', c2)" "ls = l1 # l2 # ls'" "c"
  using assms by (auto simp: Let_def split: prod.splits if_splits)

text \<open>The induction both recursions follow.\<close>

lemma parse_induct:
  assumes data: "\<And>a b. Q (kept a b) \<Longrightarrow> P a b"
    and nil: "Q []"
    and cons: "\<And>k va vb rest. (isTheSametype va vb \<Longrightarrow> isComplexType vb \<Longrightarrow> P va vb) \<Longrightarrow> Q rest \<Longrightarrow> Q ((k, va, vb) # rest)"
  shows "P a b" and "Q ts"
proof -
  have kept: "kept_measure (kept a b) \<le> depth b" for a b
    unfolding kept_def using kept_measure_less by (metis less_Suc_eq_le)
  have both: "(\<forall>a b. depth b \<le> n \<longrightarrow> P a b) \<and> (\<forall>ts. kept_measure ts \<le> n \<longrightarrow> Q ts)" for n
  proof (induction n)
    case 0
    have q: "Q ts" if "kept_measure ts \<le> 0" for ts
      using that by (induction ts) (auto intro!: nil cons split: if_splits)
    then show ?case using data kept by (metis le_zero_eq)
  next
    case (Suc n)
    have q: "Q ts" if "kept_measure ts \<le> Suc n" for ts
      using that
    proof (induction ts)
      case (Cons t ts)
      obtain k va vb where t: "t = (k, va, vb)" by (cases t)
      have "P va vb" if "isComplexType vb" using Cons.prems that Suc.IH by (auto simp: t)
      then show ?case using Cons by (auto simp: t intro: cons)
    qed (rule nil)
    then show ?case using data kept by (meson le_trans)
  qed
  then show "P a b" and "Q ts" by blast+
qed

lemma parse_runs:
  "\<forall>s ls s' c. parseData env a b s = (ls, s', c) \<longrightarrow> runs (all_numbers ls) s s'"
  "\<forall>sh cm s ls s' c. parseKept env sh cm ts s = (ls, s', c) \<longrightarrow> runs (all_numbers ls) s s'"
proof (induction a b and ts rule: parse_induct)
  case (1 a b)
  show ?case
  proof (intro allI impI)
    fix s ls s' c assume "parseData env a b s = (ls, s', c)"
    then show "runs (all_numbers ls) s s'"
    proof (cases rule: parseData_parts)
      case (1 ls1 s1 ls2 s2 c2 ls3 cm)
      with \<open>\<forall>sh cm s ls s' c. parseKept env sh cm (kept a b) s = (ls, s', c) \<longrightarrow> runs (all_numbers ls) s s'\<close>
      have "runs (all_numbers ls2) s1 s2" by blast
      with runs_append [OF parseValues_runs [OF 1(1)] runs_append [OF this parseValues_runs [OF 1(3)]]] 1(4)
      show ?thesis by simp
    qed
  qed
next
  case (3 k va vb rest)
  show ?case
  proof (intro allI impI)
    fix sh cm s ls s' c assume "parseKept env sh cm ((k, va, vb) # rest) s = (ls, s', c)"
    then show "runs (all_numbers ls) s s'"
    proof (cases rule: parseKept_cases)
      case (eq l s1 ls' cm')
      with 3(2) have "runs (all_numbers ls') s1 s'" by blast
      from parseValue_runs [OF eq(2) this] eq(4) show ?thesis by simp
    next
      case (inside inner s1 c1 ls' c2 cm')
      with 3 have "runs (all_numbers inner) (Suc s) s1" "runs (all_numbers ls') (Suc s1) s'" by blast+
      with inside(6) show ?thesis by (auto simp: value_numbers_def intro!: runs_node)
    next
      case (differ l1 s1 l2 s2 ls' c2 cm')
      with 3(2) have "runs (all_numbers ls') s2 s'" by blast
      from parseValue_runs [OF differ(3) parseValue_runs [OF differ(4) this]] differ(6) show ?thesis by simp
    qed
  qed
qed simp

text \<open>
  The lines of a comparison are numbered from 1 without a gap or a repetition, in the order
  the page shows them, the closing lines of arrays and objects included.
\<close>

lemma merge_numbers_consecutive:
  "all_numbers (fst (mergeData env old new)) = [1..<Suc (length (all_numbers (fst (mergeData env old new))))]"
proof -
  have len: "ns = [1..<Suc (length ns)]" if "runs ns 1 s" for ns s
    using that by (auto simp: runs_def)
  have one: "runs (numbers l) s s'" if "parseValue env key v sh cm lt s = (l, s')" for key v sh cm lt s l s'
    using parseValue_runs [OF that, of "[]" s'] by simp
  have "\<exists>s. runs (all_numbers (fst (mergeData env old new))) 1 s"
  proof -
    consider "isTheSametype old new \<and> isComplexType new" | "\<not> (isTheSametype old new \<and> isComplexType new)" "same_js env old new"
      | "\<not> (isTheSametype old new \<and> isComplexType new)" "\<not> same_js env old new" by blast
    then show ?thesis
    proof cases
      case 1
      obtain ls s c where p: "parseData env old new 1 = (ls, s, c)" by (rule prod_cases3)
      then have "runs (all_numbers ls) 1 s" using parse_runs(1) by blast
      with p 1 show ?thesis by (auto simp: mergeData_def)
    next
      case 2
      obtain l s where "parseValue env ''0'' new False False NoMark 1 = (l, s)" by (rule prod.exhaust)
      with one [OF this] 2 show ?thesis by (auto simp: mergeData_def)
    next
      case 3
      obtain l1 s1 where p1: "parseValue env ''0'' old False True Del 1 = (l1, s1)" by (rule prod.exhaust)
      obtain l2 s2 where p2: "parseValue env ''1'' new False False Add s1 = (l2, s2)" by (rule prod.exhaust)
      show ?thesis
        using parseValue_runs [OF p1 one [OF p2]] p1 p2 3 by (auto simp: mergeData_def)
    qed
  qed
  then show ?thesis using len by blast
qed

section \<open>Both sides can be read back\<close>

definition on :: "mark \<Rightarrow> dline \<Rightarrow> bool" where
  "on side l \<longleftrightarrow> d_lineType l = NoMark \<or> d_lineType l = side"

text \<open>A line shows a value on a side (\<open>Del\<close>: what was there, \<open>Add\<close>: what is new): it has its type
  and its text, or its lines of that side have the names and the values of its keys.\<close>

fun line_shows :: "compare_env \<Rightarrow> mark \<Rightarrow> dline \<Rightarrow> js \<Rightarrow> bool" where
  "line_shows env side (DLine key n val ty sh cm lt llt ll) v \<longleftrightarrow> ty = getType v \<and>
     (case val of
        Inl t \<Rightarrow> \<not> isComplexType v \<and> t = text_of env v
      | Inr ls \<Rightarrow> isComplexType v \<and> distinct (map d_name (filter (on side) ls))
          \<and> set (map d_name (filter (on side) ls)) = set (keys_of v)
          \<and> (\<forall>l \<in> set ls. on side l \<longrightarrow> line_shows env side l (obj_get (entries v) (d_name l))))"

definition lines_show :: "compare_env \<Rightarrow> mark \<Rightarrow> dline list \<Rightarrow> js \<Rightarrow> bool" where
  "lines_show env side ls v \<longleftrightarrow> distinct (map d_name (filter (on side) ls))
     \<and> set (map d_name (filter (on side) ls)) = set (keys_of v)
     \<and> (\<forall>l \<in> set ls. on side l \<longrightarrow> line_shows env side l (obj_get (entries v) (d_name l)))"

definition value_shows :: "compare_env \<Rightarrow> mark \<Rightarrow> string + dline list \<Rightarrow> js \<Rightarrow> bool" where
  "value_shows env side val v \<longleftrightarrow> (case val of Inl t \<Rightarrow> \<not> isComplexType v \<and> t = text_of env v
     | Inr ls \<Rightarrow> isComplexType v \<and> lines_show env side ls v)"

lemma line_shows_value:
  "line_shows env side (DLine key n val ty sh cm lt llt ll) v \<longleftrightarrow> ty = getType v \<and> value_shows env side val v"
  by (simp add: value_shows_def lines_show_def split: sum.split)

declare line_shows.simps [simp del]

text \<open>Objects with distinct keys, at every level.\<close>

fun wf_js :: "js \<Rightarrow> bool" where
  "wf_js (JObj fs) \<longleftrightarrow> keys_ok fs \<and> (\<forall>e \<in> set fs. wf_js (snd e))"
| "wf_js (JArr xs) \<longleftrightarrow> (\<forall>x \<in> set xs. wf_js x)"
| "wf_js _ \<longleftrightarrow> True"

text \<open>No string \<open>'array'\<close>, at any level.\<close>

fun clean :: "js \<Rightarrow> bool" where
  "clean (JObj fs) \<longleftrightarrow> (\<forall>e \<in> set fs. clean (snd e))"
| "clean (JArr xs) \<longleftrightarrow> (\<forall>x \<in> set xs. clean x)"
| "clean (JStr s) \<longleftrightarrow> s \<noteq> ''array''"
| "clean _ \<longleftrightarrow> True"

lemma indexed_member: "(k, x) \<in> set (indexed xs) \<Longrightarrow> x \<in> set xs"
  by (auto simp: indexed_def dest: set_zip_rightD)

lemma wf_entries: "wf_js v \<Longrightarrow> keys_ok (entries v) \<and> (\<forall>(k, x) \<in> set (entries v). wf_js x)"
  by (cases v) (auto simp: keys_ok_indexed dest!: indexed_member)

lemma clean_entries: "clean v \<Longrightarrow> isComplexType v \<Longrightarrow> \<forall>(k, x) \<in> set (entries v). clean x"
  by (cases v) (auto simp: isComplexType_def isArray_def isObject_def is_array_def is_object_def dest!: indexed_member)

lemma obj_get_member: "keys_ok o' \<Longrightarrow> (k, v) \<in> set o' \<Longrightarrow> obj_get o' k = v"
  by (simp add: obj_get_def keys_ok_def)

text \<open>Lines that show entries, in order.\<close>

definition show_entries :: "compare_env \<Rightarrow> mark \<Rightarrow> dline list \<Rightarrow> obj \<Rightarrow> bool" where
  "show_entries env side ls es \<longleftrightarrow>
     list_all2 (\<lambda>l (k, v). d_name l = k \<and> line_shows env side l v) (filter (on side) ls) es"

lemma show_entries_append:
  "show_entries env side ls es \<Longrightarrow> show_entries env side ls' es' \<Longrightarrow> show_entries env side (ls @ ls') (es @ es')"
  by (simp add: show_entries_def list_all2_appendI)

lemma show_entries_show:
  assumes "show_entries env side ls es" "keys_ok es" "keys_ok (entries v)" "set es = set (entries v)"
  shows "lines_show env side ls v"
proof -
  have names: "map d_name (filter (on side) ls) = map fst es"
    using assms(1) unfolding show_entries_def
    by (auto simp: list_all2_conv_all_nth case_prod_beta intro!: nth_equalityI)
  have "line_shows env side l (obj_get (entries v) (d_name l))" if "l \<in> set ls" "on side l" for l
  proof -
    from that have "l \<in> set (filter (on side) ls)" by simp
    then obtain i where i: "i < length (filter (on side) ls)" "filter (on side) ls ! i = l"
      by (metis in_set_conv_nth)
    with assms(1) have e: "i < length es" "d_name l = fst (es ! i)" "line_shows env side l (snd (es ! i))"
      by (auto simp: show_entries_def list_all2_conv_all_nth case_prod_beta)
    have "(fst (es ! i), snd (es ! i)) \<in> set (entries v)" using e(1) assms(4) by (metis nth_mem prod.collapse)
    from obj_get_member [OF assms(3) this] e show ?thesis by simp
  qed
  moreover have "set (map fst es) = set (keys_of v)" using assms(4) by (simp add: keys_of_def)
  ultimately show ?thesis
    using assms(2) unfolding lines_show_def names by (simp add: keys_ok_def)
qed

lemma on_mark: "lt = NoMark \<or> lt = side \<Longrightarrow> on side (DLine key n val ty sh cm lt llt ll)"
  by (auto simp: on_def)

lemma convert_shows:
  "wf_js v \<Longrightarrow> lt = NoMark \<or> lt = side \<Longrightarrow> value_shows env side (fst (convertObject env v lt s)) v"
  "\<forall>(k, x) \<in> set es. wf_js x \<Longrightarrow> lt = NoMark \<or> lt = side \<Longrightarrow>
     show_entries env side (fst (convertKeys env sh es lt s)) es"
proof (induction env v lt s and env sh es lt s rule: convertObject_convertKeys.induct)
  case (1 env v lt s)
  show ?case
  proof (cases "isComplexType v")
    case True
    from 1(1) [OF True] wf_entries [OF 1(2)] 1(3)
    have "show_entries env side (fst (convertKeys env (getType v = ''object'') (entries v) lt s)) (entries v)" by auto
    from show_entries_show [OF this] wf_entries [OF 1(2)] True show ?thesis
      by (simp add: convertObject.simps [of env v] value_shows_def case_prod_beta)
  qed (simp add: convertObject.simps [of env v] value_shows_def)
next
  case (3 env sh key v rest lt start)
  have v: "value_shows env side (fst (convertObject env v lt (Suc start))) v"
    using 3(1,3,4) by simp
  have rest: "show_entries env side (fst (convertKeys env sh rest lt s2)) rest" 
    if "s2 = (if isComplexType v then Suc (snd (convertObject env v lt (Suc start))) else snd (convertObject env v lt (Suc start)))" for s2
    using 3(2) [OF refl prod.collapse refl, of "if isComplexType v then Some (snd (convertObject env v lt (Suc start))) else None" s2]
      3(3,4) that by auto
  show ?case
    using v rest [OF refl] 3(4)
    by (cases "isComplexType v") (simp_all add: Let_def case_prod_beta show_entries_def line_shows_value on_mark)
qed (simp add: show_entries_def)

lemma parseValue_shows:
  assumes "parseValue env key v sh cm lt s = (l, s')" "wf_js v" "lt = NoMark \<or> lt = side"
  shows "d_name l = key \<and> line_shows env side l v \<and> on side l"
  using assms(1) convert_shows(1) [OF assms(2,3), of env "Suc s"] assms(3)
  by (cases "convertObject env v lt (Suc s)") (auto simp: parseValue_def line_shows_value on_def split: if_splits)

lemma parseValue_mark: "parseValue env key v sh cm lt s = (l, s') \<Longrightarrow> d_lineType l = lt"
  by (auto simp: parseValue_def split: prod.splits if_splits)

lemma parseValues_shows:
  "parseValues env sh cm lt es s = (ls, s') \<Longrightarrow> \<forall>(k, x) \<in> set es. wf_js x \<Longrightarrow>
     show_entries env lt ls es \<and> (lt \<noteq> NoMark \<longrightarrow> side \<noteq> lt \<longrightarrow> show_entries env side ls [])"
proof (induction es arbitrary: s ls s')
  case (Cons e es)
  obtain key v where e: "e = (key, v)" by (cases e)
  define c where "c = (if es = [] then cm else True)"
  obtain l s1 where v: "parseValue env key v sh c lt s = (l, s1)" by (rule prod.exhaust)
  obtain ls' s2 where r: "parseValues env sh cm lt es s1 = (ls', s2)" by (rule prod.exhaust)
  have ls: "ls = l # ls'" using Cons.prems(1) v r by (simp add: e flip: c_def)
  have "wf_js v" using Cons.prems(2) e by auto
  with parseValue_shows [OF v this] parseValue_mark [OF v] Cons.IH [OF r] Cons.prems(2) show ?case
    by (auto simp: ls e show_entries_def on_def)
qed (simp add: show_entries_def)

lemma clean_complex: "clean v \<Longrightarrow> isComplexType v \<longleftrightarrow> getType v = ''object'' \<or> getType v = ''array''"
  by (cases v) (auto simp: isComplexType_def isArray_def isObject_def is_array_def is_object_def)

definition sound :: "compare_env \<Rightarrow> bool" where
  "sound env \<longleftrightarrow> (\<forall>a b. same env a b \<longrightarrow> a = b)"

lemma same_js_eq: "sound env \<Longrightarrow> same_js env a b \<Longrightarrow> a = b"
  by (auto simp: sound_def same_js_def split: if_splits)

lemma child_ok:
  assumes "k \<in> set (keys_of v)" "wf_js v" "clean v" "isComplexType v"
  shows "wf_js (obj_get (entries v) k)" "clean (obj_get (entries v) k)"
proof -
  have "(k, obj_get (entries v) k) \<in> set (entries v)"
    using assms(1) by (intro obj_get_in) (simp add: keys_of_def obj_has_def)
  with wf_entries [OF assms(2)] clean_entries [OF assms(3,4)]
  show "wf_js (obj_get (entries v) k)" "clean (obj_get (entries v) k)" by auto
qed

lemma pick_append: "pick o' ks @ pick o' ks' = pick o' (ks @ ks')"
  by (simp add: pick_def)

lemma pick_all:
  assumes "keys_ok (entries v)" "distinct ks" "set ks = set (keys_of v)"
  shows "keys_ok (pick (entries v) ks)" "set (pick (entries v) ks) = set (entries v)"
proof -
  show "keys_ok (pick (entries v) ks)" using assms(2) by (simp add: pick_def keys_ok_def comp_def)
  have "(k, obj_get (entries v) k) \<in> set (entries v)" if "k \<in> set ks" for k
    using that assms(3) by (intro obj_get_in) (simp add: keys_of_def obj_has_def)
  moreover have "(k, x) \<in> set (pick (entries v) ks)" if "(k, x) \<in> set (entries v)" for k x
    using that assms(3) obj_get_member [OF assms(1) that] by (force simp: pick_def keys_of_def)
  ultimately show "set (pick (entries v) ks) = set (entries v)" by (auto simp: pick_def)
qed

lemma parse_shows:
  assumes "sound env"
  shows "wf_js a \<longrightarrow> wf_js b \<longrightarrow> clean a \<longrightarrow> clean b \<longrightarrow> isTheSametype a b \<longrightarrow> isComplexType b \<longrightarrow>
      (\<forall>s ls s' c. parseData env a b s = (ls, s', c) \<longrightarrow> lines_show env Del ls a \<and> lines_show env Add ls b)"
    and "(\<forall>(k, va, vb) \<in> set ts. wf_js va \<and> wf_js vb \<and> clean va \<and> clean vb) \<longrightarrow>
      (\<forall>sh cm s ls s' c. parseKept env sh cm ts s = (ls, s', c) \<longrightarrow>
         show_entries env Del ls (map (\<lambda>(k, va, vb). (k, va)) ts) \<and> show_entries env Add ls (map (\<lambda>(k, va, vb). (k, vb)) ts))"
proof (induction a b and ts rule: parse_induct)
  case (1 a b)
  show ?case
  proof (intro allI impI)
    fix s ls s' c
    assume wf: "wf_js a" "wf_js b" and cl: "clean a" "clean b" and ty: "isTheSametype a b" "isComplexType b"
      and p: "parseData env a b s = (ls, s', c)"
    have ca: "isComplexType a" using cl ty by (simp add: clean_complex isTheSametype_def)
    have wa: "keys_ok (entries a)" and wb: "keys_ok (entries b)" using wf wf_entries by blast+
    note oka = child_ok [OF _ wf(1) cl(1) ca] and okb = child_ok [OF _ wf(2) cl(2) ty(2)]
    let ?stl = "filter (\<lambda>k. k \<in> set (keys_of b)) (keys_of a)"
    have kept_ok: "\<forall>(k, va, vb) \<in> set (kept a b). wf_js va \<and> wf_js vb \<and> clean va \<and> clean vb"
      using oka okb by (auto simp: kept_def)
    have keptDel: "map (\<lambda>(k, va, vb). (k, va)) (kept a b) = pick (entries a) ?stl"
      and keptAdd: "map (\<lambda>(k, va, vb). (k, vb)) (kept a b) = pick (entries b) ?stl"
      by (simp_all add: kept_def pick_def comp_def)
    have dist: "distinct (keys_of a)" "distinct (keys_of b)" using wa wb by (simp_all add: keys_of_def keys_ok_def)
    have perm: "distinct (deleted a b @ ?stl)" "set (deleted a b @ ?stl) = set (keys_of a)"
      "distinct (?stl @ added a b)" "set (?stl @ added a b) = set (keys_of b)"
      using dist by (auto simp: deleted_def added_def)
    from p show "lines_show env Del ls a \<and> lines_show env Add ls b"
    proof (cases rule: parseData_parts)
      case (1 ls1 s1 ls2 s2 c2 ls3 cm)
      have "\<forall>(k, x) \<in> set (pick (entries a) (deleted a b)). wf_js x" "\<forall>(k, x) \<in> set (pick (entries b) (added a b)). wf_js x"
        using oka(1) okb(1) by (auto simp: pick_def deleted_def added_def)
      note d = parseValues_shows [OF 1(1) this(1), of Add] and e = parseValues_shows [OF 1(3) this(2), of Del]
      have k: "show_entries env Del ls2 (pick (entries a) ?stl)" "show_entries env Add ls2 (pick (entries b) ?stl)"
        using kept_ok 1(2) \<open>_ \<longrightarrow> (\<forall>sh cm s ls s' c. parseKept env sh cm (kept a b) s = (ls, s', c) \<longrightarrow> _)\<close>
        unfolding keptDel keptAdd by blast+
      have "show_entries env Del ls (pick (entries a) (deleted a b @ ?stl))"
        using show_entries_append [OF _ show_entries_append [OF k(1)]] d e unfolding 1(4)
        by (fastforce simp flip: pick_append)
      then have "lines_show env Del ls a"
        using pick_all [OF wa perm(1,2)] by (intro show_entries_show [OF _ _ wa])
      moreover have "show_entries env Add ls (pick (entries b) (?stl @ added a b))"
        using show_entries_append [OF _ show_entries_append [OF k(2)]] d e unfolding 1(4)
        by (fastforce simp flip: pick_append)
      then have "lines_show env Add ls b"
        using pick_all [OF wb perm(3,4)] by (intro show_entries_show [OF _ _ wb])
      ultimately show ?thesis by blast
    qed
  qed
next
  case (3 k va vb rest)
  show ?case
  proof (intro allI impI)
    fix sh cm s ls s' c
    assume ok: "\<forall>(k, va, vb) \<in> set ((k, va, vb) # rest). wf_js va \<and> wf_js vb \<and> clean va \<and> clean vb"
      and p: "parseKept env sh cm ((k, va, vb) # rest) s = (ls, s', c)"
    let ?Q = "\<lambda>ls ts. show_entries env Del ls (map (\<lambda>(k, va, vb). (k, va)) ts)
       \<and> show_entries env Add ls (map (\<lambda>(k, va, vb). (k, vb)) ts)"
    from ok have v: "wf_js va" "wf_js vb" "clean va" "clean vb" by auto
    have rest: "?Q ls' rest" if "parseKept env sh cm rest s1 = (ls', s', c')" for ls' s1 c'
    proof -
      from ok have "\<forall>(k, va, vb) \<in> set rest. wf_js va \<and> wf_js vb \<and> clean va \<and> clean vb" by simp
      with 3(2) that show ?thesis by blast
    qed
    from p show "?Q ls ((k, va, vb) # rest)"
    proof (cases rule: parseKept_cases)
      case (eq l s1 ls' cm')
      with same_js_eq [OF assms] have "va = vb" by blast
      with parseValue_shows [OF eq(2) v(2), of Del] parseValue_shows [OF eq(2) v(2), of Add] rest [OF eq(3)] eq(4)
      show ?thesis by (simp add: show_entries_def)
    next
      case (inside inner s1 c1 ls' c2 cm')
      have i: "lines_show env Del inner va \<and> lines_show env Add inner vb"
        using 3(1) [OF inside(2,3)] v inside(2-4) by blast
      have "isComplexType va" "getType vb = getType va" using inside(2,3) v by (auto simp: clean_complex isTheSametype_def)
      moreover have "(if isArray va then ''array'' else ''object'') = getType va"
        using v(3) \<open>isComplexType va\<close>
        by (cases va) (auto simp: isComplexType_def isArray_def isObject_def is_array_def is_object_def)
      ultimately show ?thesis
        using i rest [OF inside(5)] inside(3)
        by (simp add: inside(6) show_entries_def on_def line_shows_value value_shows_def)
    next
      case (differ l1 s1 l2 s2 ls' c2 cm')
      with parseValue_shows [OF differ(3) v(1), of Del] parseValue_shows [OF differ(4) v(2), of Add]
        parseValue_mark [OF differ(3)] parseValue_mark [OF differ(4)] rest [OF differ(5)]
      show ?thesis by (simp add: show_entries_def on_def)
    qed
  qed
qed (simp add: show_entries_def)

text \<open>
  Both documents can be read off a comparison of two objects or two arrays (without the word
  \<open>array\<close> as a string): leaving out the added lines, its lines show what there was, and leaving
  out the deleted ones what is new, with every key once, at every level.
\<close>

lemma merge_shows_both:
  assumes "sound env" and "wf_js old" "wf_js new" "clean old" "clean new"
    and "isTheSametype old new" "isComplexType new"
  shows "lines_show env Del (fst (mergeData env old new)) old \<and> lines_show env Add (fst (mergeData env old new)) new"
proof -
  obtain ls s c where p: "parseData env old new 1 = (ls, s, c)" by (rule prod_cases3)
  with parse_shows(1) [OF assms(1), of old new] assms(2-)
  have "lines_show env Del ls old \<and> lines_show env Add ls new" by blast
  with p assms show ?thesis by (simp add: mergeData_def)
qed

definition sample_compare :: compare_env where
  "sample_compare = \<lparr>same = (\<lambda>a b. False), num_text = (\<lambda>n. ''1'')\<rparr>"

lemma merge_shows_both_witness:
  "lines_show sample_compare Add (fst (mergeData sample_compare
      (JObj [(''a'', JBool True), (''b'', JArr [JStr ''x''])]) (JObj [(''b'', JArr [JStr ''y'', JNull]), (''c'', JNull)])))
    (JObj [(''b'', JArr [JStr ''y'', JNull]), (''c'', JNull)])"
  by (rule merge_shows_both [THEN conjunct2])
    (simp_all add: sound_def sample_compare_def isTheSametype_def isComplexType_def isObject_def is_object_def)

section \<open>The changed flag\<close>

fun unmarked :: "dline \<Rightarrow> bool" where
  "unmarked (DLine key n val ty sh cm lt llt ll) \<longleftrightarrow> lt = NoMark
     \<and> (case val of Inl _ \<Rightarrow> True | Inr ls \<Rightarrow> (\<forall>l \<in> set ls. unmarked l))"

lemma unmarked_line: "unmarked l \<Longrightarrow> d_lineType l = NoMark"
  by (cases l) simp

lemma convert_unmarked:
  "lt = NoMark \<Longrightarrow> convertObject env v lt s = (Inr ls, s') \<Longrightarrow> \<forall>l \<in> set ls. unmarked l"
  "lt = NoMark \<Longrightarrow> convertKeys env sh es lt s = (ls', s') \<Longrightarrow> \<forall>l \<in> set ls'. unmarked l"
proof (induction env v lt s and env sh es lt s arbitrary: ls s' and ls' s' rule: convertObject_convertKeys.induct)
  case (1 env v lt s)
  then show ?case by (auto simp: convertObject.simps [of env v] split: if_splits prod.splits)
next
  case (3 env sh key v rest lt start)
  obtain val s1 where v: "convertObject env v lt (start + 1) = (val, s1)" by (rule prod.exhaust)
  obtain ls2 s3 where r: "convertKeys env sh rest lt (if isComplexType v then s1 + 1 else s1) = (ls2, s3)" by (rule prod.exhaust)
  have e: "(if isComplexType v then Some s1 else None, if isComplexType v then s1 + 1 else s1)
      = (if isComplexType v then (Some s1, s1 + 1) else (None, s1))" by simp
  have "\<forall>l \<in> set ls2. unmarked l" using 3(2) [OF refl v [symmetric] refl e 3(3) r] .
  moreover have "\<forall>l \<in> set ls. unmarked l" if "val = Inr ls" for ls using 3(1) 3(3) v that by simp
  ultimately show ?case
    using 3(3,4) v r by (auto split: if_splits sum.splits)
qed simp

lemma parseValue_unmarked: "parseValue env key v sh cm lt s = (l, s') \<Longrightarrow> unmarked l \<longleftrightarrow> lt = NoMark"
  using convert_unmarked(1) [OF refl, of env v "Suc s"]
  by (auto simp: parseValue_def split: prod.splits if_splits sum.splits)

lemma parseValues_unmarked:
  "parseValues env sh cm lt es s = (ls, s') \<Longrightarrow> lt \<noteq> NoMark \<Longrightarrow> (\<forall>l \<in> set ls. unmarked l) \<longleftrightarrow> es = []"
proof (induction es arbitrary: s ls s')
  case (Cons e es)
  then show ?case by (cases e) (auto dest: parseValue_unmarked split: prod.splits)
qed simp

lemma parse_changed:
  "\<forall>s ls s' c. parseData env a b s = (ls, s', c) \<longrightarrow> (c \<longleftrightarrow> \<not> (\<forall>l \<in> set ls. unmarked l))"
  "\<forall>sh cm s ls s' c. parseKept env sh cm ts s = (ls, s', c) \<longrightarrow> (c \<longleftrightarrow> \<not> (\<forall>l \<in> set ls. unmarked l))"
proof (induction a b and ts rule: parse_induct)
  case (1 a b)
  show ?case
  proof (intro allI impI)
    fix s ls s' c assume "parseData env a b s = (ls, s', c)"
    then show "c \<longleftrightarrow> \<not> (\<forall>l \<in> set ls. unmarked l)"
    proof (cases rule: parseData_parts)
      case (1 ls1 s1 ls2 s2 c2 ls3 cm)
      with \<open>\<forall>sh cm s ls s' c. parseKept env sh cm (kept a b) s = (ls, s', c) \<longrightarrow> _\<close>
      have "c2 \<longleftrightarrow> \<not> (\<forall>l \<in> set ls2. unmarked l)" by blast
      with parseValues_unmarked [OF 1(1)] parseValues_unmarked [OF 1(3)] 1(4,5) show ?thesis
        by (auto simp: pick_def)
    qed
  qed
next
  case (3 k va vb rest)
  show ?case
  proof (intro allI impI)
    fix sh cm s ls s' c assume "parseKept env sh cm ((k, va, vb) # rest) s = (ls, s', c)"
    then show "c \<longleftrightarrow> \<not> (\<forall>l \<in> set ls. unmarked l)"
    proof (cases rule: parseKept_cases)
      case (eq l s1 ls' cm')
      with 3(2) have "c \<longleftrightarrow> \<not> (\<forall>l \<in> set ls'. unmarked l)" by blast
      with parseValue_unmarked [OF eq(2)] eq(4) show ?thesis by auto
    next
      case (inside inner s1 c1 ls' c2 cm')
      with 3 have "c1 \<longleftrightarrow> \<not> (\<forall>l \<in> set inner. unmarked l)" "c2 \<longleftrightarrow> \<not> (\<forall>l \<in> set ls'. unmarked l)" by blast+
      with inside(6,7) show ?thesis by auto
    next
      case (differ l1 s1 l2 s2 ls' c2 cm')
      with parseValue_unmarked [OF differ(3)] show ?thesis by auto
    qed
  qed
qed simp

text \<open>
  \<open>changed\<close> says whether any line, at any level, is marked as deleted or added.
\<close>

lemma merge_changed_iff_marked:
  "snd (mergeData env old new) \<longleftrightarrow> \<not> list_all unmarked (fst (mergeData env old new))"
proof -
  have one: "unmarked (fst (parseValue env key v sh cm lt s)) \<longleftrightarrow> lt = NoMark" for key v sh cm lt s
    using parseValue_unmarked by (metis prod.collapse)
  have "c \<longleftrightarrow> \<not> (\<forall>l \<in> set ls. unmarked l)" if "parseData env old new 1 = (ls, s, c)" for ls s c
    using parse_changed(1) that by blast
  then show ?thesis
    by (auto simp: mergeData_def Let_def case_prod_beta one prod_eq_iff list_all_iff)
qed

text \<open>
  The word \<open>array\<close> as a string is taken for an array: its line has the type \<open>string\<close>, which
  the page draws as text, and five lines, one per letter, for a value.
\<close>

lemma word_array_taken_for_an_array:
  "\<exists>ls. d_value (fst (parseValue env key (JStr ''array'') sh cm lt s)) = Inr ls \<and> length ls = 5
     \<and> d_type (fst (parseValue env key (JStr ''array'') sh cm lt s)) = ''string'' \<and> \<not> needFormat ''string''"
proof -
  have c: "isComplexType (JStr ''array'')" by (simp add: isComplexType_def isArray_def)
  have n: "\<not> isComplexType (JStr [x])" for x
    by (simp add: isComplexType_def isArray_def isObject_def is_array_def is_object_def)
  show ?thesis
    by (simp add: parseValue_def convertObject.simps [of env "JStr ''array''"] c indexed_def
        convertObject.simps [of env "JStr [x]" for x] n needFormat_def upt_rec)
qed

end
