(* ===== verification/Api_Quality.thy ===== *)
theory Api_Quality
  imports Prelude
begin

text \<open>
  The quality score of an API (\<open>pages/ApiEditor/quality/rules.js\<close> and \<open>grades.js\<close>): the rules,
  the score of a list of rules, the grade and the report with its categories.

  \<^item> A rule's \<open>failed\<close> and \<open>applies\<close> are functions from the API, any JSON value, to a result:
    reading through a value of the wrong kind throws, which \<open>ruleFailed\<close> and \<open>ruleApplies\<close> catch.
  \<^item> Weights and scores are exact rationals; the code adds doubles, so a score within rounding
    error of a half may differ.
  \<^item> A list that is no array but an object with a \<open>length\<close> of its own counts with that length
    when it is a number.
\<close>

section \<open>Reading an API\<close>

definition length_js :: "js \<Rightarrow> js" where
  "length_js v = (case v of JArr xs \<Rightarrow> JNum (of_nat (length xs)) | JStr s \<Rightarrow> JNum (of_nat (length s))
     | JObj fs \<Rightarrow> obj_get fs ''length'' | _ \<Rightarrow> JUndef)"

definition array_of :: "js \<Rightarrow> js list res" where
  "array_of v = (case v of JArr xs \<Rightarrow> Inr xs | _ \<Rightarrow> Inl TypeError)"

text \<open>\<open>xs.some(f)\<close>: stops at the first element that satisfies \<open>f\<close> or throws.\<close>

fun any_res :: "('a \<Rightarrow> bool res) \<Rightarrow> 'a list \<Rightarrow> bool res" where
  "any_res f [] = Inr False"
| "any_res f (x # xs) = rbind (f x) (\<lambda>b. if b then Inr True else any_res f xs)"

definition or_list :: "js \<Rightarrow> js" where
  "or_list v = js_or v (JArr [])"

definition routesOf :: "js \<Rightarrow> js" where
  "routesOf api = or_list (jprop api ''routes'')"

definition backendsOf :: "js \<Rightarrow> js" where
  "backendsOf api = or_list (jprop api ''backends'')"

definition flowsOf :: "js \<Rightarrow> js" where
  "flowsOf api = or_list (jprop api ''flows'')"

definition plansOf :: "js \<Rightarrow> js" where
  "plansOf api = or_list (jprop api ''plans'')"

definition pluginIds :: "js \<Rightarrow> js list res" where
  "pluginIds api =
     rbind (array_of (flowsOf api)) (\<lambda>fs.
     rbind (rmap (\<lambda>f. rbind (array_of (or_list (jprop f ''plugins''))) (\<lambda>ps.
              Inr (map (\<lambda>p. js_or (jprop p ''plugin'') (JStr [])) ps))) fs) (\<lambda>ids.
       Inr (concat ids)))"

definition hasPluginMatching :: "js \<Rightarrow> string \<Rightarrow> bool res" where
  "hasPluginMatching api needle =
     rbind (pluginIds api) (any_res (\<lambda>i. case i of
        JStr s \<Rightarrow> Inr (includes_str (toLowerCase s) (toLowerCase needle)) | _ \<Rightarrow> Inl TypeError))"

definition empty_length :: "js \<Rightarrow> bool" where
  "empty_length v \<longleftrightarrow> length_js v = JNum 0"

definition some_length :: "js \<Rightarrow> bool" where
  "some_length v \<longleftrightarrow> (case length_js v of JNum n \<Rightarrow> n > 0 | _ \<Rightarrow> False)"

text \<open>\<open>(v?.length || 0) === 0\<close>.\<close>

definition no_length :: "js \<Rightarrow> bool" where
  "no_length v \<longleftrightarrow> \<not> truthy (length_js v)"

section \<open>The rules\<close>

datatype severity = SError | SWarn | SInfo | SHint

definition SEVERITY_WEIGHTS :: "severity \<Rightarrow> rat" where
  "SEVERITY_WEIGHTS s = (case s of SError \<Rightarrow> 1 | SWarn \<Rightarrow> 1/2 | SInfo \<Rightarrow> 1/5 | SHint \<Rightarrow> 1/10)"

datatype rule_area = Documentation | Security | Routing | Governance

definition CATEGORIES :: "rule_area list" where
  "CATEGORIES = [Documentation, Security, Routing, Governance]"

record rule =
  r_id :: string
  r_category :: rule_area
  r_severity :: severity
  r_to :: string
  r_failed :: "js \<Rightarrow> bool res"
  r_applies :: "(js \<Rightarrow> bool res) option"

definition mk_rule :: "string \<Rightarrow> rule_area \<Rightarrow> severity \<Rightarrow> string \<Rightarrow> (js \<Rightarrow> bool res) \<Rightarrow> rule" where
  "mk_rule i c s to f = \<lparr>r_id = i, r_category = c, r_severity = s, r_to = to, r_failed = f, r_applies = None\<rparr>"

definition applies_when :: "(js \<Rightarrow> js) \<Rightarrow> rule \<Rightarrow> rule" where
  "applies_when f r = r\<lparr>r_applies := Some (\<lambda>api. Inr (some_length (f api)))\<rparr>"

definition description_missing :: "js \<Rightarrow> bool res" where
  "description_missing api =
     (let d = jprop api ''description'' in
      if \<not> truthy d then Inr True else (case d of JStr s \<Rightarrow> Inr (trim s = []) | _ \<Rightarrow> Inl TypeError))"

definition description_short :: "js \<Rightarrow> bool res" where
  "description_short api =
     (case js_or (jprop api ''description'') (JStr []) of
        JStr s \<Rightarrow> Inr (0 < length (trim s) \<and> length (trim s) < 20) | _ \<Rightarrow> Inl TypeError)"

definition documentation_disabled :: "js \<Rightarrow> bool res" where
  "documentation_disabled api =
     (let d = jprop api ''documentation'' in Inr (\<not> truthy d \<or> jprop d ''enabled'' = JBool False))"

definition KEYLESS_TYPES :: "js list" where
  "KEYLESS_TYPES = [JStr ''keyless'', JStr ''public'']"

definition keyless_plan :: "js \<Rightarrow> bool res" where
  "keyless_plan api = rbind (array_of (plansOf api)) (any_res (\<lambda>p.
     Inr (jprop p ''access_mode_configuration_type'' \<in> set KEYLESS_TYPES)))"

definition no_rate_limiting :: "js \<Rightarrow> bool res" where
  "no_rate_limiting api = rbind (array_of (plansOf api)) (\<lambda>ps.
     rbind (any_res (\<lambda>p. Inr (truthy (jprop p ''rateLimiting'')
         \<and> truthy (jprop (jprop p ''rateLimiting'') ''strategy''))) ps) (\<lambda>b. Inr (\<not> b)))"

definition backend_without_targets :: "js \<Rightarrow> bool res" where
  "backend_without_targets api =
     (if empty_length (backendsOf api) then Inr True
      else rbind (array_of (backendsOf api)) (any_res (\<lambda>b.
        Inr (no_length (jprop (jprop b ''backend'') ''targets'')))))"

definition no_healthcheck :: "js \<Rightarrow> bool res" where
  "no_healthcheck api = rbind (array_of (backendsOf api)) (\<lambda>bs.
     rbind (any_res (\<lambda>b. Inr (jprop (jprop (jprop b ''backend'') ''health_check'') ''enabled'' = JBool True)) bs)
       (\<lambda>b. Inr (\<not> b)))"

definition all_methods :: "js \<Rightarrow> bool res" where
  "all_methods api = rbind (array_of (routesOf api)) (any_res (\<lambda>r.
     rbind (array_of (or_list (jprop (jprop r ''frontend'') ''methods''))) (\<lambda>ms.
       Inr (filter (\<lambda>m. truthy (length_js (js_or m (JStr [])))) ms = []))))"

definition route_disabled :: "js \<Rightarrow> bool res" where
  "route_disabled api = rbind (array_of (routesOf api)) (any_res (\<lambda>r. Inr (jprop r ''enabled'' = JBool False)))"

text \<open>\<open>/^\d+\.\d+\.\d+$/.test(version || '')\<close>: the test takes the text of a value, which for an
  array of one element is the text of the element, and has no two dots for the other kinds.\<close>

definition semver :: "string \<Rightarrow> bool" where
  "semver s \<longleftrightarrow> length (split_on CHR ''.'' s) = 3 \<and> (\<forall>p \<in> set (split_on CHR ''.'' s). p \<noteq> [] \<and> (\<forall>c \<in> set p. is_digit c))"

fun version_text :: "js \<Rightarrow> string" where
  "version_text (JStr s) = s"
| "version_text (JArr [v]) = version_text v"
| "version_text _ = []"

definition RULES :: "rule list" where
  "RULES = [
     mk_rule ''doc-description-missing'' Documentation SError ''informations'' description_missing,
     mk_rule ''doc-description-short'' Documentation SWarn ''informations'' description_short,
     mk_rule ''doc-disabled'' Documentation SWarn ''documentation'' documentation_disabled,
     mk_rule ''doc-no-pages'' Documentation SInfo ''documentation''
       (\<lambda>api. Inr (no_length (jprop (jprop api ''documentation'') ''resources''))),
     mk_rule ''doc-no-openapi'' Documentation SInfo ''documentation''
       (\<lambda>api. Inr (no_length (jprop (jprop api ''documentation'') ''references''))),
     mk_rule ''sec-no-plans'' Security SWarn ''plans'' (\<lambda>api. Inr (empty_length (plansOf api))),
     mk_rule ''sec-keyless-plan'' Security SWarn ''plans'' keyless_plan,
     applies_when plansOf (mk_rule ''sec-no-rate-limiting'' Security SInfo ''plans'' no_rate_limiting),
     mk_rule ''sec-no-https'' Security SInfo ''plugin-chains''
       (\<lambda>api. rbind (hasPluginMatching api ''ForceHttpsTraffic'') (\<lambda>b. Inr (\<not> b))),
     mk_rule ''route-none'' Routing SError ''endpoints'' (\<lambda>api. Inr (empty_length (routesOf api))),
     mk_rule ''backend-no-targets'' Routing SError ''backends'' backend_without_targets,
     applies_when backendsOf (mk_rule ''backend-no-healthcheck'' Routing SInfo ''backends'' no_healthcheck),
     applies_when routesOf (mk_rule ''route-all-methods'' Routing SInfo ''endpoints'' all_methods),
     applies_when routesOf (mk_rule ''route-disabled'' Routing SHint ''endpoints'' route_disabled),
     mk_rule ''gov-no-owner'' Governance SWarn ''informations''
       (\<lambda>api. Inr (\<not> truthy (jprop (jprop api ''owner'') ''ref''))),
     mk_rule ''gov-no-tags'' Governance SInfo ''informations'' (\<lambda>api. Inr (no_length (jprop api ''tags''))),
     mk_rule ''gov-no-metadata'' Governance SHint ''informations''
       (\<lambda>api. Inr (entries (js_or (jprop api ''metadata'') (JObj [])) = [])),
     mk_rule ''gov-version-semver'' Governance SInfo ''informations''
       (\<lambda>api. Inr (\<not> semver (version_text (js_or (jprop api ''version'') (JStr [])))))]"

definition ruleFailed :: "rule \<Rightarrow> js \<Rightarrow> bool" where
  "ruleFailed r api = (case r_failed r api of Inr b \<Rightarrow> b | Inl _ \<Rightarrow> False)"

definition ruleApplies :: "rule \<Rightarrow> js \<Rightarrow> bool" where
  "ruleApplies r api = (case r_applies r of None \<Rightarrow> True
     | Some f \<Rightarrow> (case f api of Inr b \<Rightarrow> b | Inl _ \<Rightarrow> True))"

section \<open>Scores and grades\<close>

record issue =
  i_id :: string
  i_category :: rule_area
  i_severity :: severity
  i_to :: string

definition issue_of :: "rule \<Rightarrow> issue" where
  "issue_of r = \<lparr>i_id = r_id r, i_category = r_category r, i_severity = r_severity r, i_to = r_to r\<rparr>"

record score =
  s_percent :: int
  s_counts :: "severity \<Rightarrow> nat"
  s_issues :: "issue list"

record tally =
  t_total :: rat
  t_earned :: rat
  t_counts :: "severity \<Rightarrow> nat"
  t_issues :: "issue list"

definition tally_rule :: "js \<Rightarrow> tally \<Rightarrow> rule \<Rightarrow> tally" where
  "tally_rule api t r =
     (if \<not> ruleApplies r api then t
      else let w = SEVERITY_WEIGHTS (r_severity r); t = t\<lparr>t_total := t_total t + w\<rparr> in
        if ruleFailed r api
        then t\<lparr>t_counts := (t_counts t)(r_severity r := t_counts t (r_severity r) + 1),
               t_issues := t_issues t @ [issue_of r]\<rparr>
        else t\<lparr>t_earned := t_earned t + w\<rparr>)"

text \<open>\<open>Math.round(x)\<close> is \<open>floor (x + 1/2)\<close>.\<close>

definition scoreRules :: "rule list \<Rightarrow> js \<Rightarrow> score" where
  "scoreRules rules api =
     (let t = foldl (tally_rule api) \<lparr>t_total = 0, t_earned = 0, t_counts = (\<lambda>_. 0), t_issues = []\<rparr> rules
      in \<lparr>s_percent = (if t_total t = 0 then 100 else \<lfloor>100 * t_earned t / t_total t + 1/2\<rfloor>),
          s_counts = t_counts t, s_issues = t_issues t\<rparr>)"

datatype grade = A | B | C | D | F

definition QUALITY_GRADES :: "(grade \<times> int) list" where
  "QUALITY_GRADES = [(A, 90), (B, 75), (C, 60), (D, 40), (F, 0)]"

definition gradeFor :: "int \<Rightarrow> grade" where
  "gradeFor percent = (case List.find (\<lambda>g. percent \<ge> snd g) QUALITY_GRADES of
     Some g \<Rightarrow> fst g | None \<Rightarrow> fst (last QUALITY_GRADES))"

record quality_category =
  qc_key :: rule_area
  qc_score :: score
  qc_grade :: grade
  qc_total :: nat

record quality =
  q_score :: score
  q_grade :: grade
  q_categories :: "quality_category list"

definition rules_of :: "rule_area \<Rightarrow> rule list" where
  "rules_of key = filter (\<lambda>r. r_category r = key) RULES"

definition computeApiQuality :: "js \<Rightarrow> quality" where
  "computeApiQuality api =
     (let global = scoreRules RULES api in
      \<lparr>q_score = global, q_grade = gradeFor (s_percent global),
       q_categories = map (\<lambda>key. let cat = scoreRules (rules_of key) api in
         \<lparr>qc_key = key, qc_score = cat, qc_grade = gradeFor (s_percent cat), qc_total = length (rules_of key)\<rparr>)
         CATEGORIES\<rparr>)"

section \<open>What a score says\<close>

definition weight_of :: "rule list \<Rightarrow> rat" where
  "weight_of rs = sum_list (map (\<lambda>r. SEVERITY_WEIGHTS (r_severity r)) rs)"

definition applicable :: "js \<Rightarrow> rule list \<Rightarrow> rule list" where
  "applicable api rs = filter (\<lambda>r. ruleApplies r api) rs"

definition failing :: "js \<Rightarrow> rule list \<Rightarrow> rule list" where
  "failing api rs = filter (\<lambda>r. ruleFailed r api) (applicable api rs)"

definition passing :: "js \<Rightarrow> rule list \<Rightarrow> rule list" where
  "passing api rs = filter (\<lambda>r. \<not> ruleFailed r api) (applicable api rs)"

lemma tally_fold:
  "foldl (tally_rule api) t rs = \<lparr>t_total = t_total t + weight_of (applicable api rs),
     t_earned = t_earned t + weight_of (passing api rs),
     t_counts = (\<lambda>s. t_counts t s + length (filter (\<lambda>r. r_severity r = s) (failing api rs))),
     t_issues = t_issues t @ map issue_of (failing api rs)\<rparr>"
proof (induction rs arbitrary: t)
  case (Cons r rs)
  then show ?case
    by (auto simp: tally_rule_def Let_def weight_of_def applicable_def failing_def passing_def fun_eq_iff)
qed (simp add: weight_of_def applicable_def failing_def passing_def)

lemma scoreRules_eq:
  "scoreRules rs api = \<lparr>
     s_percent = (if weight_of (applicable api rs) = 0 then 100
       else \<lfloor>100 * weight_of (passing api rs) / weight_of (applicable api rs) + 1/2\<rfloor>),
     s_counts = (\<lambda>s. length (filter (\<lambda>r. r_severity r = s) (failing api rs))),
     s_issues = map issue_of (failing api rs)\<rparr>"
  by (simp add: scoreRules_def tally_fold Let_def)

lemma rule_weight_pos: "1/10 \<le> SEVERITY_WEIGHTS s"
  by (cases s) (simp_all add: SEVERITY_WEIGHTS_def)

lemma rule_weight_nonneg: "0 \<le> SEVERITY_WEIGHTS s"
  by (cases s) (simp_all add: SEVERITY_WEIGHTS_def)

lemma weight_of_nonneg: "0 \<le> weight_of rs"
  unfolding weight_of_def by (induction rs) (simp_all add: rule_weight_nonneg)

lemma weight_split: "weight_of (applicable api rs) = weight_of (passing api rs) + weight_of (failing api rs)"
proof -
  have "weight_of xs = weight_of (filter (\<lambda>r. \<not> P r) xs) + weight_of (filter P xs)" for xs and P :: "rule \<Rightarrow> bool"
    unfolding weight_of_def by (induction xs) simp_all
  then show ?thesis by (simp add: passing_def failing_def)
qed

lemma weight_failing: "failing api rs \<noteq> [] \<Longrightarrow> 1/10 \<le> weight_of (failing api rs)"
  using rule_weight_pos weight_of_nonneg [of "tl (failing api rs)"]
  by (cases "failing api rs") (auto simp: weight_of_def intro: add_increasing2)

lemma weight_filter: "weight_of (filter P rs) \<le> weight_of rs"
  unfolding weight_of_def by (induction rs) (auto intro: add_mono add_increasing rule_weight_nonneg)

text \<open>A score is a percentage, and 100 only without an issue, as long as the rules weigh less
  than 20 together.\<close>

lemma score_range: "s_percent (scoreRules rs api) \<in> {0..100}"
proof (cases "weight_of (applicable api rs) = 0")
  case False
  then have pos: "0 < weight_of (applicable api rs)"
    using weight_of_nonneg [of "applicable api rs"] by linarith
  have le: "weight_of (passing api rs) \<le> weight_of (applicable api rs)"
    using weight_split [of api rs] weight_of_nonneg [of "failing api rs"] by linarith
  have "0 \<le> 100 * weight_of (passing api rs) / weight_of (applicable api rs)"
    using pos weight_of_nonneg [of "passing api rs"] by simp
  moreover have "100 * weight_of (passing api rs) / weight_of (applicable api rs) \<le> 100"
    using pos le by (simp add: field_simps)
  ultimately show ?thesis using False by (simp add: scoreRules_eq floor_le_iff le_floor_iff)
qed (simp add: scoreRules_eq)

lemma score_full_iff:
  assumes "weight_of rs < 20"
  shows "s_percent (scoreRules rs api) = 100 \<longleftrightarrow> s_issues (scoreRules rs api) = []"
proof (cases "weight_of (applicable api rs) = 0")
  case True
  then have "failing api rs = []"
    using weight_failing [of api rs] weight_split [of api rs] weight_of_nonneg [of "passing api rs"] by force
  with True show ?thesis by (simp add: scoreRules_eq)
next
  case False
  then have pos: "0 < weight_of (applicable api rs)"
    using weight_of_nonneg [of "applicable api rs"] by linarith
  show ?thesis
  proof (cases "failing api rs = []")
    case True
    then have "weight_of (passing api rs) = weight_of (applicable api rs)"
      using weight_split [of api rs] by (simp add: weight_of_def)
    with True pos show ?thesis by (simp add: scoreRules_eq floor_eq_iff)
  next
    case F: False
    have lt: "weight_of (applicable api rs) < 20"
      using assms weight_filter [of "\<lambda>r. ruleApplies r api" rs] by (simp add: applicable_def)
    have "weight_of (passing api rs) \<le> weight_of (applicable api rs) - 1/10"
      using weight_failing [OF F] weight_split [of api rs] by linarith
    then have "100 * weight_of (passing api rs) / weight_of (applicable api rs) < 100 - 1/2"
      using pos lt by (simp add: field_simps)
    then have "\<lfloor>100 * weight_of (passing api rs) / weight_of (applicable api rs) + 1/2\<rfloor> \<noteq> 100"
      by (simp add: floor_eq_iff)
    with F False show ?thesis by (simp add: scoreRules_eq)
  qed
qed

lemma RULES_weight: "weight_of RULES < 20" "weight_of (rules_of c) < 20"
proof -
  show "weight_of RULES < 20"
    by (simp add: weight_of_def RULES_def mk_rule_def applies_when_def SEVERITY_WEIGHTS_def)
  then show "weight_of (rules_of c) < 20"
    using weight_filter [of "\<lambda>r. r_category r = c" RULES] by (simp add: rules_of_def)
qed

text \<open>
  The quality of an API, and of each category, is a percentage that is 100 exactly when no
  applicable rule fails: rounding never hides an issue.
\<close>

lemma quality_full_iff_no_issue:
  "s_percent (q_score (computeApiQuality api)) \<in> {0..100}
   \<and> (s_percent (q_score (computeApiQuality api)) = 100 \<longleftrightarrow> s_issues (q_score (computeApiQuality api)) = [])
   \<and> list_all (\<lambda>c. s_percent (qc_score c) \<in> {0..100}
        \<and> (s_percent (qc_score c) = 100 \<longleftrightarrow> s_issues (qc_score c) = [])) (q_categories (computeApiQuality api))"
  using score_range [of RULES api] score_full_iff [OF RULES_weight(1), of api]
    score_range [of "rules_of c" api for c] score_full_iff [OF RULES_weight(2), of _ api]
  by (auto simp: computeApiQuality_def Let_def list_all_iff)

lemma rules_grouped: "concat (map rules_of CATEGORIES) = RULES"
  by (simp add: rules_of_def CATEGORIES_def RULES_def mk_rule_def applies_when_def)

lemma failing_concat: "failing api (concat xss) = concat (map (failing api) xss)"
  by (induction xss) (simp_all add: failing_def applicable_def)

text \<open>
  The categories tell the whole report: their issues, one category after the other, are the
  issues of the API, their rules are all the rules, and the issues are those of the rules that
  apply and fail, in the order of the rules.
\<close>

lemma quality_categories_partition:
  "concat (map (\<lambda>c. s_issues (qc_score c)) (q_categories (computeApiQuality api)))
      = s_issues (q_score (computeApiQuality api))
   \<and> sum_list (map qc_total (q_categories (computeApiQuality api))) = length RULES
   \<and> s_issues (q_score (computeApiQuality api))
      = map issue_of (filter (\<lambda>r. ruleApplies r api \<and> ruleFailed r api) RULES)"
proof -
  have "concat (map (\<lambda>c. map issue_of (failing api (rules_of c))) CATEGORIES) = map issue_of (failing api RULES)"
    by (simp add: failing_concat map_concat comp_def flip: rules_grouped)
  moreover have "sum_list (map (\<lambda>c. length (rules_of c)) CATEGORIES) = length RULES"
    by (simp add: length_concat comp_def flip: rules_grouped)
  ultimately show ?thesis
    by (simp add: computeApiQuality_def Let_def scoreRules_eq comp_def failing_def applicable_def conj_commute)
qed

definition rank :: "grade \<Rightarrow> nat" where
  "rank g = (case g of A \<Rightarrow> 0 | B \<Rightarrow> 1 | C \<Rightarrow> 2 | D \<Rightarrow> 3 | F \<Rightarrow> 4)"

lemma gradeFor_cases:
  "gradeFor p = (if p \<ge> 90 then A else if p \<ge> 75 then B else if p \<ge> 60 then C else if p \<ge> 40 then D else F)"
  by (simp add: gradeFor_def QUALITY_GRADES_def)

text \<open>
  Grades are monotone: a better percentage never has a worse grade (\<open>A\<close> is the first of the
  table).
\<close>

lemma grades_monotone:
  assumes "p \<le> q"
  shows "rank (gradeFor q) \<le> rank (gradeFor p)"
  using assms by (simp add: gradeFor_cases rank_def)

text \<open>
  A rule that cannot read the API counts as passed: an API whose description is a value of
  another kind than a string (and not empty) has no issue with its description.
\<close>

lemma unreadable_description_passes:
  assumes "truthy (jprop api ''description'')" and "\<not> is_string (jprop api ''description'')"
    and "i \<in> set (s_issues (q_score (computeApiQuality api)))"
  shows "i_id i \<noteq> ''doc-description-missing'' \<and> i_id i \<noteq> ''doc-description-short''"
proof -
  have d: "description_missing api = Inl TypeError" "description_short api = Inl TypeError"
    using assms(1,2) by (cases "jprop api ''description''";
      simp add: description_missing_def description_short_def js_or_def is_string_def)+
  from assms(3) obtain r where r: "r \<in> set RULES" "ruleFailed r api" "i = issue_of r"
    by (auto simp: computeApiQuality_def Let_def scoreRules_eq failing_def applicable_def)
  have "r_id r = ''doc-description-missing'' \<longrightarrow> r_failed r = description_missing"
    "r_id r = ''doc-description-short'' \<longrightarrow> r_failed r = description_short"
    using r(1) by (auto simp: RULES_def mk_rule_def applies_when_def)
  with r d show ?thesis by (auto simp: issue_of_def ruleFailed_def)
qed

definition sample_api :: js where
  "sample_api = JObj [(''description'', JNum 42), (''version'', JStr ''1.0'')]"

lemma unreadable_description_passes_witness:
  "\<exists>i \<in> set (s_issues (q_score (computeApiQuality sample_api))).
     i_id i = ''doc-disabled'' \<and> i_id i \<noteq> ''doc-description-missing''"
proof -
  have "\<exists>i \<in> set (s_issues (q_score (computeApiQuality sample_api))). i_id i = ''doc-disabled''"
  proof -
    let ?r = "mk_rule ''doc-disabled'' Documentation SWarn ''documentation'' documentation_disabled"
    have "?r \<in> set RULES" by (simp add: RULES_def)
    moreover have "ruleApplies ?r sample_api" "ruleFailed ?r sample_api"
      by (simp_all add: mk_rule_def ruleFailed_def ruleApplies_def documentation_disabled_def sample_api_def)
    ultimately have "issue_of ?r \<in> set (s_issues (q_score (computeApiQuality sample_api)))"
      by (simp add: computeApiQuality_def Let_def scoreRules_eq failing_def applicable_def)
    then show ?thesis by (rule bexI [rotated]) (simp add: issue_of_def mk_rule_def)
  qed
  then obtain i where i: "i \<in> set (s_issues (q_score (computeApiQuality sample_api)))" "i_id i = ''doc-disabled''" by blast
  have "truthy (jprop sample_api ''description'')" "\<not> is_string (jprop sample_api ''description'')"
    by (simp_all add: sample_api_def is_string_def)
  from unreadable_description_passes [OF this i(1)] i show ?thesis by blast
qed

end
