(* ===== verification/Route_Designer.thy ===== *)
theory Route_Designer
  imports Prelude "HOL-Library.Multiset"
begin

text \<open>
  The route designer (\<open>pages/RouteDesigner/Designer.js\<close>): the plugins of a route, drawn as nodes in
  the steps of the request, and the editor of one of them.

  \<^item> \<open>ref\<close> is an entry of \<open>route.plugins\<close>, \<open>node\<close> the node drawn for it, \<open>plugin\<close> an entry of the
    palette. The fields the component computes with are typed; the others are in \<open>r_rest\<close>,
    \<open>n_rest\<close> and \<open>pl_rest\<close>. \<open>plugin_index\<close> is an association list from steps to integers.
  \<^item> \<open>designer\<close> is the part of the component's state its handlers change, \<open>d_step\<close> one handler.
  \<^item> \<open>camelCase\<close> and \<open>snakeCase\<close> of lodash are parameters, and so are the answers of the server.
    The palette is the list \<open>loadData\<close> has formatted.
\<close>

section \<open>Steps and indexes\<close>

definition REQUEST_STEPS_FLOW :: "string list" where
  "REQUEST_STEPS_FLOW = [''MatchRoute'', ''PreRoute'', ''ValidateAccess'', ''TransformRequest'']"

definition STEPS :: "string list" where
  "STEPS = REQUEST_STEPS_FLOW @ [''TransformResponse'']"

fun firstLetterUppercase :: "string \<Rightarrow> string" where
  "firstLetterUppercase [] = []"
| "firstLetterUppercase (c # s) = upper_char c # s"

type_synonym index = "(string \<times> int) list"

text \<open>\<open>Object.fromEntries\<close>: the last entry of a key wins.\<close>

definition from_entries :: "index \<Rightarrow> index" where
  "from_entries es = fold (\<lambda>(k, v). AList.update k v) es []"

record plugin =
  pl_id :: string
  pl_name :: "string option"
  pl_steps :: "string list"
  pl_categories :: "string list"
  pl_visibility :: "string option"
  pl_multi_inst :: bool
  pl_legacy :: bool
  pl_type :: "string option"
  pl_config :: js
  pl_rest :: obj
  pl_selected :: bool
  pl_filtered :: bool

record ref =
  r_plugin :: "string option"
  r_nodeId :: "string option"
  r_index :: "index option"
  r_config :: js
  r_rest :: obj

record node =
  n_id :: "string option"
  n_nodeId :: "string option"
  n_index :: index
  n_steps :: "string list"
  n_legacy :: bool
  n_type :: "string option"
  n_config :: js
  n_field :: "string option"
  n_rest :: obj

record route =
  rt_id :: string
  rt_frontend :: js
  rt_backend :: js
  rt_backend_ref :: "string option"
  rt_plugins :: "ref list"

record designer =
  d_nodes :: "node list"
  d_plugins :: "plugin list"
  d_route :: route
  d_original :: route
  d_selected :: "node option"
  d_alert :: bool
  d_searched :: string

definition has_step :: "string \<Rightarrow> node \<Rightarrow> bool" where
  "has_step step n \<longleftrightarrow> map_of (n_index n) step \<noteq> None"

definition step_index :: "string \<Rightarrow> node \<Rightarrow> int" where
  "step_index step n = (case map_of (n_index n) step of Some i \<Rightarrow> i | None \<Rightarrow> 0)"

text \<open>The nodes of a step in the order they run: the \<open>filter\<close> and \<open>sort\<close> of \<open>calculateIndexFor\<close>,
  \<open>swap\<close>, \<open>renderInBound\<close> and \<open>showArrows\<close> (the sort is stable).\<close>

definition run_order :: "string \<Rightarrow> node list \<Rightarrow> node list" where
  "run_order step ns = sort_key (step_index step) (filter (has_step step) ns)"

definition normal_index :: "(string \<Rightarrow> string) \<Rightarrow> node \<Rightarrow> node" where
  "normal_index camel n =
     n\<lparr>n_index := from_entries (map (\<lambda>(k, v). (firstLetterUppercase (camel k), v)) (n_index n))\<rparr>"

definition last_index :: "node list \<Rightarrow> string \<Rightarrow> int" where
  "last_index ns step = fold max (map (step_index step) (filter (has_step step) ns)) (- 1)"

definition missing_steps :: "node \<Rightarrow> string list" where
  "missing_steps n = filter (\<lambda>step. step \<in> set (n_steps n) \<and> \<not> has_step step n) STEPS"

text \<open>The \<open>reduce\<close> over the missing steps; \<open>lasts\<close> is the object \<open>lastIndexes\<close> it increments.\<close>

definition fill_step :: "string \<Rightarrow> index \<times> (string \<Rightarrow> int) \<Rightarrow> index \<times> (string \<Rightarrow> int)" where
  "fill_step step p = (case p of (ix, lasts) \<Rightarrow>
     (AList.update step (lasts step + 1) ix, lasts(step := lasts step + 1)))"

fun fill_nodes :: "node list \<Rightarrow> (string \<Rightarrow> int) \<Rightarrow> node list" where
  "fill_nodes [] lasts = []"
| "fill_nodes (n # ns) lasts =
     (case fold fill_step (missing_steps n) (n_index n, lasts) of
        (ix, lasts') \<Rightarrow> n\<lparr>n_index := ix\<rparr> # fill_nodes ns lasts')"

definition withPluginIndexes :: "(string \<Rightarrow> string) \<Rightarrow> node list \<Rightarrow> node list" where
  "withPluginIndexes camel ns =
     (let ns' = map (normal_index camel) ns in fill_nodes ns' (last_index ns'))"

definition calculateIndexFor :: "node list \<Rightarrow> string list \<Rightarrow> index" where
  "calculateIndexFor nodes plugin_steps =
     fold (\<lambda>step ix. AList.update step
         (let ns = run_order step nodes in if ns = [] then 0 else step_index step (List.last ns) + 1) ix)
       (filter (\<lambda>step. step \<in> set plugin_steps) STEPS) []"

section \<open>Identifiers of nodes\<close>

definition id_text :: "string option \<Rightarrow> string" where
  "id_text i = (case i of Some s \<Rightarrow> s | None \<Rightarrow> ''undefined'')"

definition numbered :: "string option \<Rightarrow> nat \<Rightarrow> string option" where
  "numbered i k = Some (id_text i @ ''-'' @ nat_str k)"

fun generate_ids :: "node list \<Rightarrow> node list \<Rightarrow> node list res" where
  "generate_ids acc [] = Inr acc"
| "generate_ids acc (n # ns) =
     rbind (if \<exists>a \<in> set acc. n_nodeId a = n_id n
            then if \<exists>c \<in> set acc. n_id c = None then Inl TypeError
                 else Inr (numbered (n_id n)
                   (length (filter (\<lambda>c. startsWith (id_text (n_id c)) (id_text (n_id n))) acc)))
            else Inr (n_id n))
       (\<lambda>i. generate_ids (acc @ [n\<lparr>n_nodeId := i\<rparr>]) ns)"

definition generateInternalNodeId :: "node list \<Rightarrow> node list res" where
  "generateInternalNodeId ns = generate_ids [] ns"

definition generateNewInternalNodeId :: "node list \<Rightarrow> string option \<Rightarrow> string option" where
  "generateNewInternalNodeId nodes i = numbered i
     (length (filter (\<lambda>c. case n_id c of Some s \<Rightarrow> startsWith s (id_text i) | None \<Rightarrow> False) nodes))"

section \<open>Loading a route\<close>

definition EXCLUDED_VISIBILITY :: "string list" where
  "EXCLUDED_VISIBILITY = [''internal'']"

definition EXCLUDED_IDS :: "string list" where
  "EXCLUDED_IDS = [''otoroshi.next.proxy.ProxyEngine'']"

text \<open>\<open>id.replace('cp:', '')\<close> takes the first occurrence away.\<close>

fun without_cp :: "string \<Rightarrow> string" where
  "without_cp [] = []"
| "without_cp (c # s) = (if startsWith (c # s) ''cp:'' then drop 3 (c # s) else c # without_cp s)"

definition filterSpecificPlugin :: "plugin \<Rightarrow> bool" where
  "filterSpecificPlugin p \<longleftrightarrow> ''Sink'' \<notin> set (pl_steps p)
     \<and> pl_type p \<noteq> Some ''job'' \<and> pl_type p \<noteq> Some ''sink''
     \<and> (case pl_visibility p of Some v \<Rightarrow> v \<notin> set EXCLUDED_VISIBILITY | None \<Rightarrow> True)
     \<and> without_cp (pl_id p) \<notin> set EXCLUDED_IDS"

text \<open>\<open>formattedPlugins.find\<close>: the second comparison reads \<open>ref.config.plugin\<close>, which throws when
  the entry has no configuration.\<close>

fun find_plugin :: "plugin list \<Rightarrow> ref \<Rightarrow> plugin option res" where
  "find_plugin [] r = Inr None"
| "find_plugin (p # ps) r =
     (if r_plugin r = Some (pl_id p) then Inr (Some p)
      else rbind (fld (r_config r) ''plugin'') (\<lambda>v.
        if v = JStr (pl_id p) then Inr (Some p) else find_plugin ps r))"

definition is_lower :: "char \<Rightarrow> bool" where
  "is_lower c \<longleftrightarrow> (of_char c :: nat) \<in> {97..122}"

definition is_upper :: "char \<Rightarrow> bool" where
  "is_upper c \<longleftrightarrow> (of_char c :: nat) \<in> {65..90}"

text \<open>\<open>replace(/([a-z])([A-Z])/g, '$1 $2')\<close>.\<close>

fun spaced :: "string \<Rightarrow> string" where
  "spaced (a # b # s) =
     (if is_lower a \<and> is_upper b then a # CHR '' '' # b # spaced s else a # spaced (b # s))"
| "spaced s = s"

definition known_node :: "ref \<Rightarrow> plugin \<Rightarrow> node" where
  "known_node r p = \<lparr>n_id = Some (pl_id p), n_nodeId = None,
     n_index = (case r_index r of Some ix \<Rightarrow> ix | None \<Rightarrow> []), n_steps = pl_steps p,
     n_legacy = pl_legacy p, n_type = pl_type p, n_config = pl_config p, n_field = None,
     n_rest = spread (r_rest r) (pl_rest p)\<rparr>"

definition unknown_node :: "ref \<Rightarrow> node" where
  "unknown_node r = \<lparr>n_id = map_option (\<lambda>i. spaced (List.last (split_on CHR ''.'' i))) (r_plugin r),
     n_nodeId = None, n_index = [], n_steps = [], n_legacy = False, n_type = None,
     n_config = r_config r, n_field = None, n_rest = r_rest r\<rparr>"

definition route_node :: "plugin list \<Rightarrow> ref \<Rightarrow> node res" where
  "route_node palette r = rbind (find_plugin palette r) (\<lambda>found.
     Inr (case found of Some p \<Rightarrow> known_node r p | None \<Rightarrow> unknown_node r))"

definition getSelectedNodeFromLocation :: "string option \<Rightarrow> ref list \<Rightarrow> plugin list \<Rightarrow> node option" where
  "getSelectedNodeFromLocation location refs plugins =
     (case (List.find (\<lambda>r. r_plugin r = location) refs,
            List.find (\<lambda>p. Some (pl_id p) = location) plugins) of
        (Some r, Some p) \<Rightarrow> Some ((known_node r p)\<lparr>n_nodeId := r_nodeId r\<rparr>)
      | _ \<Rightarrow> None)"

definition loadData :: "(string \<Rightarrow> string) \<Rightarrow> string list \<Rightarrow> plugin list \<Rightarrow> string option \<Rightarrow> route \<Rightarrow> designer res" where
  "loadData camel backends palette location route =
     rbind (rmap (route_node palette) (rt_plugins route)) (\<lambda>ns.
     rbind (generateInternalNodeId ns) (\<lambda>ns.
       let refs = map (\<lambda>(r, n). r\<lparr>r_nodeId := n_nodeId n\<rparr>) (zip (rt_plugins route) ns);
           route' = route\<lparr>rt_plugins := refs,
             rt_backend_ref := (case rt_backend_ref route of None \<Rightarrow> None
               | Some b \<Rightarrow> if b \<noteq> [] \<and> b \<notin> set backends then None else Some b)\<rparr>
       in Inr \<lparr>d_nodes = withPluginIndexes camel ns,
            d_plugins = map (\<lambda>p. p\<lparr>pl_selected :=
              \<not> pl_multi_inst p \<and> (\<exists>r \<in> set refs. r_plugin r = Some (pl_id p))\<rparr>) palette,
            d_route = route', d_original = route',
            d_selected = getSelectedNodeFromLocation location refs palette,
            d_alert = False, d_searched = []\<rparr>))"

section \<open>Changing the plugins\<close>

text \<open>\<open>updateRoute\<close> sets the route and hands it to the parent.\<close>

definition updateRoute :: "route \<Rightarrow> designer \<Rightarrow> designer" where
  "updateRoute r s = s\<lparr>d_route := r\<rparr>"

definition with_plugins :: "ref list \<Rightarrow> designer \<Rightarrow> designer" where
  "with_plugins refs s = updateRoute ((d_route s)\<lparr>rt_plugins := refs\<rparr>) s"

text \<open>\<open>removeNode\<close> opens the question, \<open>onCancel\<close> closes it, \<open>remove_ok\<close> is its \<open>onOk\<close>.\<close>

definition removeNode :: "designer \<Rightarrow> designer" where
  "removeNode s = s\<lparr>d_alert := True\<rparr>"

definition remove_cancel :: "designer \<Rightarrow> designer" where
  "remove_cancel s = s\<lparr>d_alert := False\<rparr>"

definition remove_ok :: "designer \<Rightarrow> designer res" where
  "remove_ok s = (case d_selected s of None \<Rightarrow> Inl TypeError
     | Some sel \<Rightarrow> Inr (with_plugins (filter (\<lambda>r. r_nodeId r \<noteq> n_nodeId sel) (rt_plugins (d_route s)))
         (s\<lparr>d_nodes := filter (\<lambda>n. n_nodeId n \<noteq> n_nodeId sel) (d_nodes s),
            d_plugins := map (\<lambda>p. if Some (pl_id p) = n_id sel then p\<lparr>pl_selected := False\<rparr> else p) (d_plugins s),
            d_selected := None, d_alert := False\<rparr>)))"

definition LEGACY_PLUGINS_WRAPPER :: "(string \<times> string) list" where
  "LEGACY_PLUGINS_WRAPPER =
     [(''app'', ''cp:otoroshi.next.plugins.wrappers.RequestTransformerWrapper''),
      (''transformer'', ''cp:otoroshi.next.plugins.wrappers.RequestTransformerWrapper''),
      (''validator'', ''cp:otoroshi.next.plugins.wrappers.AccessValidatorWrapper''),
      (''preroute'', ''cp:otoroshi.next.plugins.wrappers.PreRoutingWrapper''),
      (''sink'', ''cp:otoroshi.next.plugins.wrappers.RequestSinkWrapper''),
      (''composite'', ''cp:otoroshi.next.plugins.wrappers.CompositeWrapper''),
      (''listener'', []), (''job'', []), (''exporter'', []), (''request-handler'', [])]"

definition plugin_name :: "node \<Rightarrow> string option" where
  "plugin_name n = (if n_legacy n
     then (case n_type n of Some t \<Rightarrow> map_of LEGACY_PLUGINS_WRAPPER t | None \<Rightarrow> None) else n_id n)"

definition id_js :: "string option \<Rightarrow> js" where
  "id_js i = (case i of Some s \<Rightarrow> JStr s | None \<Rightarrow> JUndef)"

definition status_of :: "js \<Rightarrow> obj \<Rightarrow> obj" where
  "status_of enabled o' = [(''enabled'', enabled), (''debug'', js_or (obj_get o' ''debug'') (JBool False)),
     (''include'', js_or (obj_get o' ''include'') (JArr [])), (''exclude'', js_or (obj_get o' ''exclude'') (JArr [])),
     (''bound_listeners'', js_or (obj_get o' ''bound_listeners'') (JArr []))]"

text \<open>A palette entry as a node, and the entry \<open>addNode\<close> writes in the route for a node.\<close>

definition palette_node :: "plugin \<Rightarrow> node" where
  "palette_node p = \<lparr>n_id = Some (pl_id p), n_nodeId = None, n_index = [], n_steps = pl_steps p,
     n_legacy = pl_legacy p, n_type = pl_type p, n_config = pl_config p, n_field = None, n_rest = pl_rest p\<rparr>"

definition added_ref :: "node \<Rightarrow> ref" where
  "added_ref n = \<lparr>r_plugin = plugin_name n, r_nodeId = n_nodeId n, r_index = Some (n_index n),
     r_config = JObj (if n_legacy n then spread [(''plugin'', id_js (n_id n))] (entries (n_config n))
                      else spread [] (entries (n_config n))),
     r_rest = status_of (js_or (obj_get (n_rest n) ''enabled'') (JBool True)) (n_rest n)\<rparr>"

definition addNode :: "plugin \<Rightarrow> designer \<Rightarrow> designer" where
  "addNode p s =
     (let n = (palette_node p)\<lparr>n_nodeId := generateNewInternalNodeId (d_nodes s) (Some (pl_id p)),
                n_index := calculateIndexFor (d_nodes s) (pl_steps p)\<rparr>
      in (with_plugins (rt_plugins (d_route s) @ [added_ref n])
           (s\<lparr>d_nodes := d_nodes s @ [n],
              d_plugins := map (\<lambda>q. if pl_id q = pl_id p then q\<lparr>pl_selected := \<not> pl_multi_inst q\<rparr> else q) (d_plugins s)\<rparr>))
         \<lparr>d_selected := Some n\<rparr>)"

definition clearPlugins :: "designer \<Rightarrow> designer" where
  "clearPlugins s = with_plugins [] (s\<lparr>d_nodes := [],
     d_plugins := map (\<lambda>p. p\<lparr>pl_selected := False\<rparr>) (d_plugins s)\<rparr>)"

text \<open>The loop \<open>addNodes\<close> and \<open>setNodes\<close> share: every identifier is made from the nodes that were
  there before. A missing entry of the list is dropped.\<close>

definition batch_nodes :: "(string \<Rightarrow> string) \<Rightarrow> node list \<Rightarrow> node option list \<Rightarrow> node list" where
  "batch_nodes camel before new_nodes =
     map (\<lambda>n. n\<lparr>n_nodeId := generateNewInternalNodeId before (n_id n)\<rparr>)
       (withPluginIndexes camel (List.map_filter id new_nodes))"

definition batch_ref :: "node \<Rightarrow> ref" where
  "batch_ref n = \<lparr>r_plugin = plugin_name n, r_nodeId = n_nodeId n, r_index = Some (n_index n),
     r_config = JObj (AList.update ''plugin'' (if n_legacy n then id_js (n_id n) else JUndef) (spread [] (entries (n_config n)))),
     r_rest = status_of (JBool (obj_get (n_rest n) ''enabled'' \<noteq> JBool False)) (n_rest n)\<rparr>"

definition addNodes :: "(string \<Rightarrow> string) \<Rightarrow> node option list \<Rightarrow> designer \<Rightarrow> designer" where
  "addNodes camel new_nodes s =
     (let ns = batch_nodes camel (d_nodes s) new_nodes
      in with_plugins (map batch_ref ns) (s\<lparr>d_selected := None, d_nodes := ns,
           d_plugins := map (\<lambda>p. p\<lparr>pl_selected := (\<not> pl_multi_inst p
               \<and> (\<exists>r \<in> set (rt_plugins (d_route s)). obj_get (r_rest r) ''id'' = JStr (pl_id p)))\<rparr>) (d_plugins s)\<rparr>))"

definition setNodes :: "(string \<Rightarrow> string) \<Rightarrow> node option list \<Rightarrow> designer \<Rightarrow> designer" where
  "setNodes camel new_nodes s =
     (let ns = batch_nodes camel (d_nodes s) new_nodes
      in with_plugins (map batch_ref ns) (s\<lparr>d_selected := None, d_nodes := ns,
           d_plugins := map (\<lambda>p. p\<lparr>pl_selected := False\<rparr>) (d_plugins s)\<rparr>))"

section \<open>Moving a plugin in a step\<close>

text \<open>\<open>{...ix, [step]: v}\<close>, where an \<open>undefined\<close> index is no index.\<close>

definition set_index :: "string \<Rightarrow> int option \<Rightarrow> index \<Rightarrow> index" where
  "set_index step v ix = (case v of Some i \<Rightarrow> AList.update step i ix | None \<Rightarrow> AList.delete step ix)"

definition swap_one :: "node \<Rightarrow> node \<Rightarrow> string \<Rightarrow> node \<Rightarrow> node" where
  "swap_one a other step n =
     (if n_nodeId n = n_nodeId a then n\<lparr>n_index := set_index step (map_of (n_index other) step) (n_index n)\<rparr>
      else if n_nodeId n = n_nodeId other then n\<lparr>n_index := set_index step (map_of (n_index a) step) (n_index n)\<rparr>
      else n)"

definition swap_position :: "node \<Rightarrow> string \<Rightarrow> node list \<Rightarrow> int" where
  "swap_position a step nodes =
     (case find_index (\<lambda>n. n_nodeId n = n_nodeId a) (run_order step nodes) of Some i \<Rightarrow> int i | None \<Rightarrow> - 1)"

definition swap_nodes :: "node \<Rightarrow> string \<Rightarrow> int \<Rightarrow> node list \<Rightarrow> node list res" where
  "swap_nodes a step offset nodes =
     (case at_int (run_order step nodes) (swap_position a step nodes + offset) of
        Some other \<Rightarrow> Inr (map (swap_one a other step) nodes)
      | None \<Rightarrow> if nodes = [] then Inr [] else Inl TypeError)"

definition swap_node :: "node \<Rightarrow> string \<Rightarrow> int \<Rightarrow> designer \<Rightarrow> designer res" where
  "swap_node a step offset s = rbind (swap_nodes a step offset (d_nodes s)) (\<lambda>ns.
     Inr (with_plugins
       (map (\<lambda>r. r\<lparr>r_index := map_option n_index (List.find (\<lambda>n. n_nodeId n = r_nodeId r) ns)\<rparr>) (rt_plugins (d_route s)))
       (s\<lparr>d_nodes := ns\<rparr>)))"

definition onUp :: "node \<Rightarrow> string \<Rightarrow> designer \<Rightarrow> designer res" where
  "onUp n step s = swap_node n step (- 1) s"

definition onDown :: "node \<Rightarrow> string \<Rightarrow> designer \<Rightarrow> designer res" where
  "onDown n step s = swap_node n step 1 s"

record arrows =
  a_up :: bool
  a_down :: bool

text \<open>\<open>None\<close> when the node is alone; the two arrows trade places in the response. The last node of
  an empty step has no \<open>nodeId\<close> to read.\<close>

definition showArrows :: "node list \<Rightarrow> node \<Rightarrow> string \<Rightarrow> arrows option res" where
  "showArrows nodes n step =
     (let ns = run_order step nodes
      in if length ns = 1 then Inr None
         else if ns = [] then Inl TypeError
         else let up = map_of (n_index n) step \<noteq> Some 0; down = n_nodeId (List.last ns) \<noteq> n_nodeId n
              in Inr (Some (if step = ''TransformResponse'' then \<lparr>a_up = down, a_down = up\<rparr> else \<lparr>a_up = up, a_down = down\<rparr>)))"

section \<open>Drawing the route\<close>

definition inbound :: "node list \<Rightarrow> (string \<times> node list) list" where
  "inbound nodes = filter (\<lambda>(step, ns). ns \<noteq> []) (map (\<lambda>step. (step, run_order step nodes)) REQUEST_STEPS_FLOW)"

text \<open>The response is drawn from the bottom up: its \<open>sort\<close> compares the other way round.\<close>

definition outbound :: "node list \<Rightarrow> node list" where
  "outbound nodes = sort_key (\<lambda>n. - step_index ''TransformResponse'' n) (filter (has_step ''TransformResponse'') nodes)"

definition unknown_nodes :: "node list \<Rightarrow> node list" where
  "unknown_nodes nodes = filter (\<lambda>n. n_steps n = []) nodes"

definition find_ref :: "string option \<Rightarrow> designer \<Rightarrow> ref option" where
  "find_ref nodeId s = List.find (\<lambda>r. r_nodeId r = nodeId) (rt_plugins (d_route s))"

definition isPluginEnabled :: "node \<Rightarrow> designer \<Rightarrow> js" where
  "isPluginEnabled n s = (case find_ref (n_nodeId n) s of Some r \<Rightarrow> obj_get (r_rest r) ''enabled'' | None \<Rightarrow> JUndef)"

text \<open>\<open>backendCallNodes\<close> and \<open>tunnelNodes\<close>: the entries whose plugin has the step.\<close>

definition nodes_with_step :: "string \<Rightarrow> designer \<Rightarrow> node list" where
  "nodes_with_step step s = List.map_filter (\<lambda>r.
     case List.find (\<lambda>p. Some (pl_id p) = r_plugin r) (d_plugins s) of
       Some p \<Rightarrow> if step \<in> set (pl_steps p) then Some ((known_node r p)\<lparr>n_nodeId := r_nodeId r\<rparr>) else None
     | None \<Rightarrow> None) (rt_plugins (d_route s))"

definition matches_search :: "string \<Rightarrow> plugin \<Rightarrow> bool" where
  "matches_search searched p \<longleftrightarrow>
     pl_id p \<noteq> [] \<and> includes_str (toLowerCase (pl_id p)) (toLowerCase searched)
     \<or> (case pl_name p of Some name \<Rightarrow> name \<noteq> [] \<and> includes_str (toLowerCase name) (toLowerCase searched) | None \<Rightarrow> False)"

definition handleSearch :: "string \<Rightarrow> designer \<Rightarrow> designer" where
  "handleSearch searched s = s\<lparr>d_searched := searched,
     d_plugins := map (\<lambda>p. p\<lparr>pl_filtered := \<not> matches_search searched p\<rparr>) (d_plugins s)\<rparr>"

text \<open>The palette, by category.\<close>

definition palette_add :: "(string \<times> plugin list) list \<Rightarrow> plugin \<Rightarrow> (string \<times> plugin list) list" where
  "palette_add acc p = (if pl_selected p \<or> pl_filtered p then acc
     else map (\<lambda>(g, es). (g, if g \<in> set (pl_categories p) then es @ [p] else es)) acc)"

definition palette_groups :: "bool \<Rightarrow> string list \<Rightarrow> plugin list \<Rightarrow> (string \<times> plugin list) list" where
  "palette_groups showLegacy categories ps =
     foldl palette_add (map (\<lambda>c. (c, [])) categories) (filter (\<lambda>p. showLegacy \<or> \<not> pl_legacy p) ps)"

section \<open>Saving\<close>

definition snake_index :: "(string \<Rightarrow> string) \<Rightarrow> index \<Rightarrow> index" where
  "snake_index snake ix = from_entries (map (\<lambda>(k, v). (snake k, v)) ix)"

definition processRouteBeforeUpdate :: "(string \<Rightarrow> string) \<Rightarrow> node list \<Rightarrow> route \<Rightarrow> route" where
  "processRouteBeforeUpdate snake nodes r = r\<lparr>rt_plugins := map (\<lambda>p. p\<lparr>r_index := Some (snake_index snake
       (case r_index p of Some ix \<Rightarrow> ix
        | None \<Rightarrow> (case List.find (\<lambda>n. n_nodeId n = r_nodeId p) nodes of Some n \<Rightarrow> n_index n | None \<Rightarrow> [])))\<rparr>)
     (rt_plugins r)\<rparr>"

text \<open>What is sent, and the state once the server has answered without an error.\<close>

definition saveRoute :: "(string \<Rightarrow> string) \<Rightarrow> designer \<Rightarrow> route \<times> designer" where
  "saveRoute snake s = (processRouteBeforeUpdate snake (d_nodes s) (d_route s), s\<lparr>d_original := d_route s\<rparr>)"

section \<open>Editing a plugin\<close>

record form_value =
  fv_plugin :: js
  fv_status :: js

definition updatePlugin :: "string option \<Rightarrow> string option \<Rightarrow> form_value \<Rightarrow> designer \<Rightarrow> designer" where
  "updatePlugin nodeId pluginId item s =
     updateRoute ((d_route s)
       \<lparr>rt_frontend := (if pluginId = Some ''Frontend'' then fv_plugin item else rt_frontend (d_route s)),
        rt_backend := (if pluginId = Some ''Backend'' then fv_plugin item else rt_backend (d_route s)),
        rt_plugins := map (\<lambda>r. if r_nodeId r = nodeId
            then r\<lparr>r_rest := spread (r_rest r) (entries (fv_status item)), r_config := fv_plugin item\<rparr> else r)
          (rt_plugins (d_route s))\<rparr>) s"

definition or_default :: "js \<Rightarrow> js \<Rightarrow> js" where
  "or_default v d = (if v = JUndef then d else v)"

definition status_form :: "obj \<Rightarrow> js" where
  "status_form o' = JObj [(''enabled'', or_default (obj_get o' ''enabled'') (JBool True)),
     (''debug'', or_default (obj_get o' ''debug'') (JBool False)),
     (''include'', or_default (obj_get o' ''include'') (JArr [])),
     (''exclude'', or_default (obj_get o' ''exclude'') (JArr [])),
     (''bound_listeners'', or_default (obj_get o' ''bound_listeners'') (JArr []))]"

text \<open>\<open>route[selectedNode.field]\<close>: only the front and the back end have a field.\<close>

definition route_field :: "route \<Rightarrow> string option \<Rightarrow> js" where
  "route_field r f = (if f = Some ''frontend'' then rt_frontend r
     else if f = Some ''backend'' then rt_backend r else JUndef)"

text \<open>The value \<open>loadForm\<close> gives the form.\<close>

definition form_of :: "node \<Rightarrow> designer \<Rightarrow> form_value option" where
  "form_of sel s =
     (if truthy (route_field (d_route s) (n_field sel))
      then Some \<lparr>fv_plugin = JObj (spread [] (entries (route_field (d_route s) (n_field sel)))), fv_status = JUndef\<rparr>
      else case find_ref (n_nodeId sel) s of
        Some r \<Rightarrow> Some \<lparr>fv_plugin = r_config r, fv_status = status_form (r_rest r)\<rparr>
      | None \<Rightarrow> (case List.find (\<lambda>p. Some (pl_id p) = n_id sel) (d_plugins s) of
          Some p \<Rightarrow> Some \<lparr>fv_plugin = pl_config p, fv_status = status_form (pl_rest p)\<rparr>
        | None \<Rightarrow> None))"

record edit_view =
  ev_selected :: node
  ev_value :: "form_value option"
  ev_errors :: "string list"

definition onValidate :: "form_value option \<Rightarrow> edit_view \<times> designer \<Rightarrow> edit_view \<times> designer" where
  "onValidate newValue vs = (case (newValue, vs) of
     (None, _) \<Rightarrow> vs
   | (Some v, (ev, s)) \<Rightarrow>
       (ev\<lparr>ev_value := Some v\<rparr>,
        updatePlugin (n_nodeId (ev_selected ev)) (n_id (ev_selected ev))
          \<lparr>fv_plugin = js_or (fv_plugin v) (case ev_value ev of Some old \<Rightarrow> fv_plugin old | None \<Rightarrow> JUndef),
           fv_status = fv_status v\<rparr> s))"

text \<open>The raw editor; \<open>parse\<close> is \<open>JSON.parse\<close> followed by the reads of \<open>plugin\<close> and \<open>status\<close>.\<close>

definition onJsonInputChange :: "(string \<Rightarrow> form_value option option) \<Rightarrow> string + form_value option
    \<Rightarrow> edit_view \<times> designer \<Rightarrow> edit_view \<times> designer" where
  "onJsonInputChange parse value vs = (case vs of (ev, s) \<Rightarrow>
     (case (case value of Inl t \<Rightarrow> parse t | Inr v \<Rightarrow> Some v) of
        None \<Rightarrow> (ev\<lparr>ev_errors := [''Invalid JSON'']\<rparr>, s)
      | Some v \<Rightarrow> onValidate v (ev\<lparr>ev_errors := []\<rparr>, s)))"

end
