(* ===== verification/Route_Designer_Facts.thy ===== *)
theory Route_Designer_Facts
  imports Route_Designer
begin

text \<open>
  What the route designer guarantees: the order in which plugins run after loading, adding and
  moving them, the identifiers of the nodes, and the agreement of the nodes with the route.
\<close>

section \<open>Stable sorting\<close>

lemma sort_key_split:
  assumes "\<And>x y. x \<in> set xs \<Longrightarrow> y \<in> set xs \<Longrightarrow> \<not> P x \<Longrightarrow> P y \<Longrightarrow> (f y :: 'b :: linorder) < f x"
    and "sorted (map f (filter (\<lambda>x. \<not> P x) xs))"
  shows "sort_key f xs = sort_key f (filter P xs) @ filter (\<lambda>x. \<not> P x) xs"
proof (rule properties_for_sort_key)
  show "mset (sort_key f (filter P xs) @ filter (\<lambda>x. \<not> P x) xs) = mset xs"
    by (simp add: mset_filter flip: multiset_partition)
next
  fix k assume "k \<in> set (sort_key f (filter P xs) @ filter (\<lambda>x. \<not> P x) xs)"
  then have k: "k \<in> set xs" by auto
  show "filter (\<lambda>x. f k = f x) (sort_key f (filter P xs) @ filter (\<lambda>x. \<not> P x) xs) = filter (\<lambda>x. f k = f x) xs"
  proof (cases "P k")
    case True
    then have "filter (\<lambda>x. f k = f x) (filter (\<lambda>x. \<not> P x) xs) = []"
      using assms(1) k by (fastforce simp: filter_empty_conv)
    moreover have "filter (\<lambda>x. f k = f x) (filter P xs) = filter (\<lambda>x. f k = f x) xs"
      using assms(1) k True unfolding filter_filter by (intro filter_cong refl) fastforce
    moreover have "filter (\<lambda>x. f k = f x) (sort_key f (filter P xs)) = filter (\<lambda>x. f k = f x) (filter P xs)"
      using sort_key_stable [of f "f k" "filter P xs"] by (simp only: eq_commute [of "f k"])
    ultimately show ?thesis by (simp only: filter_append append_Nil2)
  next
    case False
    then have "filter (\<lambda>x. f k = f x) (filter P xs) = []"
      using assms(1) k by (fastforce simp: filter_empty_conv)
    moreover have "filter (\<lambda>x. f k = f x) (filter (\<lambda>x. \<not> P x) xs) = filter (\<lambda>x. f k = f x) xs"
      using assms(1) k False unfolding filter_filter by (intro filter_cong refl) fastforce
    ultimately show ?thesis by (simp add: filter_sort)
  qed
next
  show "sorted (map f (sort_key f (filter P xs) @ filter (\<lambda>x. \<not> P x) xs))"
    using assms by (fastforce simp: sorted_append less_imp_le)
qed

lemma sort_key_snoc:
  assumes "\<And>y. y \<in> set xs \<Longrightarrow> (f y :: 'b :: linorder) < f x"
  shows "sort_key f (xs @ [x]) = sort_key f xs @ [x]"
proof -
  have "x \<notin> set xs" using assms by blast
  then have "filter (\<lambda>y. y \<noteq> x) xs = xs" "filter (\<lambda>y. \<not> y \<noteq> x) xs = []"
    by (auto simp: filter_id_conv filter_empty_conv)
  then show ?thesis
    using sort_key_split [of "xs @ [x]" "\<lambda>y. y \<noteq> x" f] assms by auto
qed

lemma insort_key_rel:
  assumes "list_all2 (\<lambda>x y. f x = f' y \<and> g x = h y) xs ys" and "f x = f' y" and "g x = h y"
  shows "list_all2 (\<lambda>x y. f x = (f' y :: 'b :: linorder) \<and> g x = h y) (insort_key f x xs) (insort_key f' y ys)"
  using assms by (induction rule: list_all2_induct) auto

lemma sort_key_rel:
  assumes "list_all2 (\<lambda>x y. f x = (f' y :: 'b :: linorder) \<and> g x = h y) xs ys"
  shows "map g (sort_key f xs) = map h (sort_key f' ys)"
proof -
  have "list_all2 (\<lambda>x y. f x = f' y \<and> g x = h y) (sort_key f xs) (sort_key f' ys)"
    using assms by (induction rule: list_all2_induct) (auto intro: insort_key_rel)
  then show ?thesis by (induction rule: list_all2_induct) auto
qed

section \<open>Indexes the designer fills in\<close>

lemma distinct_STEPS: "distinct STEPS"
  by (simp add: STEPS_def REQUEST_STEPS_FLOW_def)

lemma fill_step_fold:
  assumes "distinct ss" and "fold fill_step ss (ix, l) = (ix', l')"
  shows "map_of ix' s = (if s \<in> set ss then Some (l s + 1) else map_of ix s)
    \<and> l' s = (if s \<in> set ss then l s + 1 else l s)"
  using assms
proof (induction ss arbitrary: ix l)
  case (Cons t ss)
  have "fold fill_step ss (AList.update t (l t + 1) ix, l(t := l t + 1)) = (ix', l')"
    using Cons.prems(2) by (simp add: fill_step_def [of t])
  from Cons.IH [OF _ this] Cons.prems(1) show ?case by (auto simp: update_conv')
qed simp

text \<open>A node without its indexes: the filling leaves the rest alone.\<close>

definition erase :: "node \<Rightarrow> node" where
  "erase n = n\<lparr>n_index := []\<rparr>"

definition unplaced :: "string \<Rightarrow> node \<Rightarrow> bool" where
  "unplaced step n \<longleftrightarrow> step \<in> set (n_steps n) \<and> \<not> has_step step n"

lemma fill_nodes_order:
  assumes "s \<in> set STEPS" and "\<And>n. n \<in> set ns \<Longrightarrow> has_step s n \<Longrightarrow> step_index s n \<le> L" and "L \<le> l s"
  shows "list_all2 (\<lambda>x y. step_index s x = step_index s y \<and> erase x = erase y)
        (filter (\<lambda>n. step_index s n \<le> L) (filter (has_step s) (fill_nodes ns l))) (filter (has_step s) ns)"
    and "map erase (filter (\<lambda>n. \<not> step_index s n \<le> L) (filter (has_step s) (fill_nodes ns l)))
        = map erase (filter (unplaced s) ns)"
    and "sorted (map (step_index s) (filter (\<lambda>n. \<not> step_index s n \<le> L) (filter (has_step s) (fill_nodes ns l))))"
    and "\<And>n. n \<in> set (fill_nodes ns l) \<Longrightarrow> has_step s n \<Longrightarrow> \<not> step_index s n \<le> L \<Longrightarrow> l s < step_index s n"
proof -
  have "list_all2 (\<lambda>x y. step_index s x = step_index s y \<and> erase x = erase y)
        (filter (\<lambda>n. step_index s n \<le> L) (filter (has_step s) (fill_nodes ns l))) (filter (has_step s) ns)
    \<and> map erase (filter (\<lambda>n. \<not> step_index s n \<le> L) (filter (has_step s) (fill_nodes ns l)))
        = map erase (filter (unplaced s) ns)
    \<and> sorted (map (step_index s) (filter (\<lambda>n. \<not> step_index s n \<le> L) (filter (has_step s) (fill_nodes ns l))))
    \<and> (\<forall>n \<in> set (fill_nodes ns l). has_step s n \<longrightarrow> \<not> step_index s n \<le> L \<longrightarrow> l s < step_index s n)"
    (is "?G ns l")
    using assms(2,3)
  proof (induction ns arbitrary: l)
    case (Cons n ns)
    obtain ix l' where f: "fold fill_step (missing_steps n) (n_index n, l) = (ix, l')" by (rule prod.exhaust)
    have d: "distinct (missing_steps n)" by (simp add: missing_steps_def distinct_STEPS)
    have m: "s \<in> set (missing_steps n) \<longleftrightarrow> unplaced s n" using assms(1) by (auto simp: missing_steps_def unplaced_def)
    note e = fill_step_fold [OF d f, of s, unfolded m]
    let ?n = "n\<lparr>n_index := ix\<rparr>"
    have fn: "fill_nodes (n # ns) l = ?n # fill_nodes ns l'" using f by simp
    have er: "erase ?n = erase n" by (simp add: erase_def)
    have IH: "?G ns l'" using Cons.prems e by (intro Cons.IH) (auto split: if_splits)
    show ?case
    proof (cases "unplaced s n")
      case True
      then have "has_step s ?n" "step_index s ?n = l s + 1" "l' s = l s + 1" "\<not> has_step s n"
        using e by (simp_all add: has_step_def step_index_def unplaced_def)
      with IH fn er True Cons.prems(2) show ?thesis by fastforce
    next
      case False
      then have "has_step s ?n = has_step s n" "step_index s ?n = step_index s n" "l' s = l s"
        using e by (simp_all add: has_step_def step_index_def)
      with IH fn er False Cons.prems(1) [of n] show ?thesis by (cases "has_step s n") auto
    qed
  qed simp
  then show "list_all2 (\<lambda>x y. step_index s x = step_index s y \<and> erase x = erase y)
        (filter (\<lambda>n. step_index s n \<le> L) (filter (has_step s) (fill_nodes ns l))) (filter (has_step s) ns)"
    and "map erase (filter (\<lambda>n. \<not> step_index s n \<le> L) (filter (has_step s) (fill_nodes ns l)))
        = map erase (filter (unplaced s) ns)"
    and "sorted (map (step_index s) (filter (\<lambda>n. \<not> step_index s n \<le> L) (filter (has_step s) (fill_nodes ns l))))"
    and "\<And>n. n \<in> set (fill_nodes ns l) \<Longrightarrow> has_step s n \<Longrightarrow> \<not> step_index s n \<le> L \<Longrightarrow> l s < step_index s n"
    by blast+
qed

lemma fold_max_start: "(a :: int) \<le> fold max xs a"
proof (induction xs arbitrary: a)
  case (Cons x xs)
  from Cons.IH [of "max x a"] show ?case by simp
qed simp

lemma fold_max_ge: "x \<in> set xs \<Longrightarrow> x \<le> fold max xs (a :: int)"
proof (induction xs arbitrary: a)
  case (Cons y xs)
  with fold_max_start [of "max y a" xs] show ?case by auto
qed simp

lemma fill_order:
  assumes "s \<in> set STEPS"
  shows "map erase (run_order s (fill_nodes ns (last_index ns)))
    = map erase (run_order s ns) @ map erase (filter (unplaced s) ns)"
proof -
  define L where "L = last_index ns s"
  have le: "step_index s n \<le> L" if "n \<in> set ns" "has_step s n" for n
    using that by (auto simp: L_def last_index_def intro!: fold_max_ge)
  let ?rs = "filter (has_step s) (fill_nodes ns (last_index ns))"
  let ?P = "\<lambda>n. step_index s n \<le> L"
  note F = fill_nodes_order [of s ns L "last_index ns", OF assms le]
  have "sort_key (step_index s) ?rs = sort_key (step_index s) (filter ?P ?rs) @ filter (\<lambda>n. \<not> ?P n) ?rs"
    using F(3) by (intro sort_key_split) (auto simp: L_def)
  moreover have "map erase (sort_key (step_index s) (filter ?P ?rs)) = map erase (run_order s ns)"
    unfolding run_order_def using F(1) by (intro sort_key_rel) (simp add: L_def)
  ultimately show ?thesis using F(2) by (simp add: run_order_def L_def)
qed

text \<open>
  C37. The order in which the plugins of a step run, once the designer has filled the missing indexes
  in: first the plugins with an index for the step, by index, then those of the step without one, in
  the order of the route. Nothing but the indexes changes.
\<close>

theorem indexed_first_then_declared:
  "list_all (\<lambda>s. map erase (run_order s (withPluginIndexes camel ns))
     = map erase (run_order s (map (normal_index camel) ns))
       @ map erase (filter (unplaced s) (map (normal_index camel) ns))) STEPS"
  unfolding withPluginIndexes_def Let_def list_all_iff using fill_order by blast

section \<open>A plugin added at the end\<close>

lemma calculateIndexFor_get:
  "map_of (calculateIndexFor nodes ss) s =
     (if s \<in> set STEPS \<and> s \<in> set ss
      then Some (if run_order s nodes = [] then 0 else step_index s (List.last (run_order s nodes)) + 1) else None)"
proof -
  have "map_of (fold (\<lambda>step ix. AList.update step (f step) ix) ts ix) s
      = (if s \<in> set ts then Some (f s) else map_of ix s)" for f :: "string \<Rightarrow> int" and ts ix
    by (induction ts arbitrary: ix) (auto simp: update_conv')
  then show ?thesis by (simp add: calculateIndexFor_def Let_def)
qed

lemma run_order_last:
  assumes "n \<in> set nodes" and "has_step s n"
  shows "run_order s nodes \<noteq> [] \<and> step_index s n \<le> step_index s (List.last (run_order s nodes))"
proof -
  have n: "n \<in> set (run_order s nodes)" using assms by (simp add: run_order_def)
  then have ne: "run_order s nodes \<noteq> []" by auto
  have "sorted (map (step_index s) xs) \<Longrightarrow> n \<in> set xs \<Longrightarrow> step_index s n \<le> step_index s (List.last xs)" for xs
    by (cases xs rule: rev_cases) (auto simp: sorted_append)
  from this [of "run_order s nodes"] n ne show ?thesis by (simp add: run_order_def)
qed

text \<open>
  A plugin added from the palette runs last in each of its steps and nowhere else; the order of
  the plugins that were there does not change. Its entry closes the list of the route.
\<close>

lemma added_plugin_runs_last:
  "\<exists>n r. n_id n = Some (pl_id p) \<and> r_nodeId r = n_nodeId n \<and> r_index r = Some (n_index n)
     \<and> rt_plugins (d_route (addNode p s)) = rt_plugins (d_route s) @ [r]
     \<and> list_all (\<lambda>t. run_order t (d_nodes (addNode p s))
          = run_order t (d_nodes s) @ (if t \<in> set (pl_steps p) then [n] else [])) STEPS"
proof -
  define n where "n = (palette_node p)\<lparr>n_nodeId := generateNewInternalNodeId (d_nodes s) (Some (pl_id p)),
                n_index := calculateIndexFor (d_nodes s) (pl_steps p)\<rparr>"
  have ix: "n_index n = calculateIndexFor (d_nodes s) (pl_steps p)" by (simp add: n_def)
  have d: "d_nodes (addNode p s) = d_nodes s @ [n]"
    by (simp add: addNode_def with_plugins_def updateRoute_def n_def Let_def)
  have r: "rt_plugins (d_route (addNode p s)) = rt_plugins (d_route s) @ [added_ref n]"
    by (simp add: addNode_def with_plugins_def updateRoute_def n_def Let_def)
  have "run_order t (d_nodes s @ [n]) = run_order t (d_nodes s) @ (if t \<in> set (pl_steps p) then [n] else [])"
    if t: "t \<in> set STEPS" for t
  proof (cases "t \<in> set (pl_steps p)")
    case True
    with t have h: "has_step t n" by (simp add: has_step_def n_def calculateIndexFor_get)
    have "step_index t m < step_index t n" if "m \<in> set (filter (has_step t) (d_nodes s))" for m
    proof -
      have "step_index t n = step_index t (List.last (run_order t (d_nodes s))) + 1"
        using run_order_last [of m "d_nodes s" t] that t True
        by (simp add: step_index_def [of t n] ix calculateIndexFor_get)
      with run_order_last [of m "d_nodes s" t] that show ?thesis by simp
    qed
    then have "sort_key (step_index t) (filter (has_step t) (d_nodes s) @ [n])
        = sort_key (step_index t) (filter (has_step t) (d_nodes s)) @ [n]" by (rule sort_key_snoc)
    with h True show ?thesis by (simp add: run_order_def)
  next
    case False
    then have "\<not> has_step t n" by (simp add: has_step_def n_def calculateIndexFor_get)
    with False show ?thesis by (simp add: run_order_def)
  qed
  then show ?thesis
    by (intro exI [of _ n] exI [of _ "added_ref n"]) (simp add: d r list_all_iff n_def palette_node_def added_ref_def)
qed

section \<open>The identifiers of a loaded route\<close>

definition prefix_count :: "string \<Rightarrow> node list \<Rightarrow> nat" where
  "prefix_count i ns = length (filter (\<lambda>c. startsWith (id_text (n_id c)) i) ns)"

definition plain_id :: "node \<Rightarrow> bool" where
  "plain_id n \<longleftrightarrow> (\<exists>i. n_id n = Some i \<and> CHR ''-'' \<notin> set i)"

definition numbered_below :: "node list \<Rightarrow> bool" where
  "numbered_below acc \<longleftrightarrow> (\<forall>c \<in> set acc. \<exists>i. n_id c = Some i \<and> CHR ''-'' \<notin> set i
     \<and> (n_nodeId c = Some i \<or> (\<exists>k < prefix_count i acc. n_nodeId c = numbered (Some i) k)))"

lemma numbered_inj:
  assumes "CHR ''-'' \<notin> set i" and "CHR ''-'' \<notin> set j"
  shows "numbered (Some i) k = numbered (Some j) l \<longleftrightarrow> i = j \<and> k = l"
    and "numbered (Some i) k \<noteq> Some j"
proof -
  have "i @ CHR ''-'' # nat_str k = j @ CHR ''-'' # nat_str l \<Longrightarrow> i = j \<and> k = l"
  proof -
    assume e: "i @ CHR ''-'' # nat_str k = j @ CHR ''-'' # nat_str l"
    then have "hd (split_on CHR ''-'' (i @ CHR ''-'' # nat_str k)) = hd (split_on CHR ''-'' (j @ CHR ''-'' # nat_str l))"
      by (rule arg_cong)
    then have "i = j" using assms by (simp add: split_on_append)
    with e show "i = j \<and> k = l" by (auto dest: nat_str_inj)
  qed
  then show "numbered (Some i) k = numbered (Some j) l \<longleftrightarrow> i = j \<and> k = l" by (auto simp: numbered_def id_text_def)
  show "numbered (Some i) k \<noteq> Some j" using assms(2) by (auto simp: numbered_def id_text_def)
qed

lemma numbered_below_snoc:
  assumes "numbered_below acc" and "n_id n = Some i" and "CHR ''-'' \<notin> set i"
    and "j = Some i \<or> j = numbered (Some i) (prefix_count i acc)"
  shows "numbered_below (acc @ [n\<lparr>n_nodeId := j\<rparr>])"
proof -
  have c: "prefix_count i (acc @ [n\<lparr>n_nodeId := j\<rparr>]) = Suc (prefix_count i acc)"
    using assms(2) by (simp add: prefix_count_def id_text_def startsWith_def)
  have m: "k < prefix_count i' acc \<Longrightarrow> k < prefix_count i' (acc @ [n\<lparr>n_nodeId := j\<rparr>])" for k i'
    by (simp add: prefix_count_def)
  show ?thesis unfolding numbered_below_def
  proof
    fix x assume "x \<in> set (acc @ [n\<lparr>n_nodeId := j\<rparr>])"
    then consider "x \<in> set acc" | "x = n\<lparr>n_nodeId := j\<rparr>" by auto
    then show "\<exists>i. n_id x = Some i \<and> CHR ''-'' \<notin> set i
      \<and> (n_nodeId x = Some i \<or> (\<exists>k < prefix_count i (acc @ [n\<lparr>n_nodeId := j\<rparr>]). n_nodeId x = numbered (Some i) k))"
    proof cases
      case 1
      with assms(1) m show ?thesis unfolding numbered_below_def by meson
    next
      case 2
      with assms(2-4) c show ?thesis by auto
    qed
  qed
qed

lemma generate_ids_distinct:
  assumes "numbered_below acc" and "distinct (map n_nodeId acc)" and "\<forall>n \<in> set ns. plain_id n"
  shows "\<exists>ms. generate_ids acc ns = Inr ms \<and> distinct (map n_nodeId ms)"
  using assms
proof (induction ns arbitrary: acc)
  case (Cons n ns)
  from Cons.prems(3) obtain i where i: "n_id n = Some i" "CHR ''-'' \<notin> set i" by (auto simp: plain_id_def)
  have ids: "(\<exists>c \<in> set acc. n_id c = None) = False" using Cons.prems(1) by (fastforce simp: numbered_below_def)
  define j where "j = (if \<exists>a \<in> set acc. n_nodeId a = Some i then numbered (Some i) (prefix_count i acc) else Some i)"
  have "j \<notin> n_nodeId ` set acc"
  proof (cases "\<exists>a \<in> set acc. n_nodeId a = Some i")
    case True
    { fix c assume "c \<in> set acc"
      with Cons.prems(1) obtain i' where "CHR ''-'' \<notin> set i'"
          "n_nodeId c = Some i' \<or> (\<exists>k < prefix_count i' acc. n_nodeId c = numbered (Some i') k)"
        unfolding numbered_below_def by meson
      with numbered_inj [of i i'] i have "numbered (Some i) (prefix_count i acc) \<noteq> n_nodeId c" by auto }
    with True show ?thesis by (auto simp: j_def)
  qed (auto simp: j_def)
  moreover have "numbered_below (acc @ [n\<lparr>n_nodeId := j\<rparr>])"
    using Cons.prems(1) i by (rule numbered_below_snoc) (simp add: j_def)
  ultimately have "\<exists>ms. generate_ids (acc @ [n\<lparr>n_nodeId := j\<rparr>]) ns = Inr ms \<and> distinct (map n_nodeId ms)"
    using Cons.prems by (intro Cons.IH) auto
  moreover have "generate_ids acc (n # ns) = generate_ids (acc @ [n\<lparr>n_nodeId := j\<rparr>]) ns"
    using i(1) by (simp add: ids j_def prefix_count_def id_text_def)
  ultimately show ?case by simp
qed simp

lemma generate_ids_fields:
  "generate_ids acc ns = Inr ms \<Longrightarrow> map (\<lambda>n. n\<lparr>n_nodeId := None\<rparr>) ms = map (\<lambda>n. n\<lparr>n_nodeId := None\<rparr>) (acc @ ns)"
proof (induction ns arbitrary: acc)
  case (Cons n ns)
  then obtain i where "generate_ids (acc @ [n\<lparr>n_nodeId := i\<rparr>]) ns = Inr ms" by auto
  from Cons.IH [OF this] show ?case by simp
qed simp

lemma fill_nodes_erase: "map erase (fill_nodes ns l) = map erase ns"
  by (induction ns l rule: fill_nodes.induct) (auto simp: erase_def split: prod.splits)

lemma withPluginIndexes_erase: "map erase (withPluginIndexes camel ns) = map erase ns"
  by (simp add: withPluginIndexes_def Let_def fill_nodes_erase) (simp add: erase_def normal_index_def)

lemma erase_fields:
  assumes "map erase xs = map erase ys"
  shows "map n_nodeId xs = map n_nodeId ys" "map n_id xs = map n_id ys" "map n_steps xs = map n_steps ys" "length xs = length ys"
proof -
  have f: "n_nodeId = n_nodeId \<circ> erase" "n_id = n_id \<circ> erase" "n_steps = n_steps \<circ> erase" by (auto simp: erase_def)
  show "map n_nodeId xs = map n_nodeId ys" "map n_id xs = map n_id ys" "map n_steps xs = map n_steps ys"
    using arg_cong [OF assms, of "map n_nodeId"] arg_cong [OF assms, of "map n_id"] arg_cong [OF assms, of "map n_steps"]
    by (simp_all flip: f)
  show "length xs = length ys" using assms by (rule map_eq_imp_length_eq)
qed

lemma loadData_nodes:
  assumes "loadData camel backends palette location route = Inr s"
  obtains ns ms where "rmap (route_node palette) (rt_plugins route) = Inr ns" "generateInternalNodeId ns = Inr ms"
    "d_nodes s = withPluginIndexes camel ms" "map r_nodeId (rt_plugins (d_route s)) = map n_nodeId ms"
    "length ms = length (rt_plugins route)"
proof -
  from assms obtain ns ms where g: "rmap (route_node palette) (rt_plugins route) = Inr ns" "generateInternalNodeId ns = Inr ms"
    and s: "d_nodes s = withPluginIndexes camel ms"
      "rt_plugins (d_route s) = map (\<lambda>(r, n). r\<lparr>r_nodeId := n_nodeId n\<rparr>) (zip (rt_plugins route) ms)"
    unfolding loadData_def Let_def by fastforce
  have "length ms = length ns"
    using generate_ids_fields [OF g(2) [unfolded generateInternalNodeId_def]] by (auto dest: map_eq_imp_length_eq)
  with rmap_length [OF g(1)] have l: "length ms = length (rt_plugins route)" by simp
  have "map r_nodeId (rt_plugins (d_route s)) = map n_nodeId (map snd (zip (rt_plugins route) ms))"
    by (simp add: s(2) comp_def case_prod_beta)
  with l have "map r_nodeId (rt_plugins (d_route s)) = map n_nodeId ms" by simp
  then show thesis using that g s(1) l by metis
qed

text \<open>
  The nodes of a loaded route have distinct identifiers, whatever plugins it repeats, as long as
  no plugin has a dash in its identifier.
\<close>

lemma loaded_ids_distinct:
  assumes "loadData camel backends palette location route = Inr s"
    and "\<forall>n \<in> set (d_nodes s). plain_id n"
  shows "distinct (map n_nodeId (d_nodes s)) \<and> distinct (map r_nodeId (rt_plugins (d_route s)))"
proof -
  obtain ns ms where g: "generateInternalNodeId ns = Inr ms" "d_nodes s = withPluginIndexes camel ms"
      "map r_nodeId (rt_plugins (d_route s)) = map n_nodeId ms"
    using loadData_nodes [OF assms(1)] by metis
  note e = erase_fields [OF withPluginIndexes_erase [of camel ms], folded g(2)]
  have "map n_id ms = map n_id ns"
    using arg_cong [OF generate_ids_fields [OF g(1) [unfolded generateInternalNodeId_def]], of "map n_id"] by (simp add: comp_def)
  with e(2) have "map n_id ns = map n_id (d_nodes s)" by simp
  then have eq: "set (map n_id ns) = set (map n_id (d_nodes s))" by (rule arg_cong)
  have "\<forall>i \<in> set (map n_id (d_nodes s)). \<exists>j. i = Some j \<and> CHR ''-'' \<notin> set j"
    using assms(2) by (simp add: plain_id_def)
  then have "\<forall>n \<in> set ns. plain_id n" unfolding eq [symmetric] by (simp add: plain_id_def)
  then obtain ms' where "generate_ids [] ns = Inr ms' \<and> distinct (map n_nodeId ms')"
    using generate_ids_distinct [of "[]" ns] by (auto simp: numbered_below_def)
  with g(1,3) e(1) show ?thesis by (simp add: generateInternalNodeId_def)
qed

section \<open>The nodes and the route\<close>

datatype d_event =
    AskRemove
  | CancelRemove
  | ConfirmRemove
  | AddPlugin plugin
  | ClearPlugins
  | AddNodes "node option list"
  | SetNodes "node option list"
  | Up node string
  | Down node string
  | Search string
  | Edit "string option" "string option" form_value
  | Select "node option"
  | Click_outside
  | Save

text \<open>A handler that throws leaves the state as it was. Selecting a node is refused while the question is
  open; a click that reaches the container drops the selection all the same.\<close>

definition d_step :: "(string \<Rightarrow> string) \<Rightarrow> (string \<Rightarrow> string) \<Rightarrow> designer \<Rightarrow> d_event \<Rightarrow> designer" where
  "d_step camel snake s e =
     (let keep = (\<lambda>r. case r of Inr s' \<Rightarrow> s' | Inl _ \<Rightarrow> s) in
      case e of
        AskRemove \<Rightarrow> removeNode s
      | CancelRemove \<Rightarrow> remove_cancel s
      | ConfirmRemove \<Rightarrow> keep (remove_ok s)
      | AddPlugin p \<Rightarrow> addNode p s
      | ClearPlugins \<Rightarrow> clearPlugins s
      | AddNodes ns \<Rightarrow> addNodes camel ns s
      | SetNodes ns \<Rightarrow> setNodes camel ns s
      | Up n step \<Rightarrow> keep (onUp n step s)
      | Down n step \<Rightarrow> keep (onDown n step s)
      | Search t \<Rightarrow> handleSearch t s
      | Edit nodeId pluginId item \<Rightarrow> updatePlugin nodeId pluginId item s
      | Select n \<Rightarrow> if d_alert s then s else s\<lparr>d_selected := n\<rparr>
      | Click_outside \<Rightarrow> s\<lparr>d_selected := None\<rparr>
      | Save \<Rightarrow> snd (saveRoute snake s))"

definition nodes_match :: "designer \<Rightarrow> bool" where
  "nodes_match s \<longleftrightarrow> map n_nodeId (d_nodes s) = map r_nodeId (rt_plugins (d_route s))"

lemma swap_one_id [simp]: "n_nodeId (swap_one a b step n) = n_nodeId n"
  by (simp add: swap_one_def)

lemma swap_nodes_ids: "swap_nodes a step k ns = Inr ns' \<Longrightarrow> map n_nodeId ns' = map n_nodeId ns"
  by (auto simp: swap_nodes_def comp_def split: option.splits if_splits)

lemma swap_node_match: "nodes_match s \<Longrightarrow> swap_node a step k s = Inr s' \<Longrightarrow> nodes_match s'"
  by (auto simp: swap_node_def nodes_match_def with_plugins_def updateRoute_def comp_def swap_nodes_ids)

lemma remove_ok_match: "nodes_match s \<Longrightarrow> remove_ok s = Inr s' \<Longrightarrow> nodes_match s'"
  using filter_map [of "\<lambda>i. i \<noteq> n_nodeId (the (d_selected s))" n_nodeId "d_nodes s"]
    filter_map [of "\<lambda>i. i \<noteq> n_nodeId (the (d_selected s))" r_nodeId "rt_plugins (d_route s)"]
  by (auto simp: remove_ok_def nodes_match_def with_plugins_def updateRoute_def comp_def split: option.splits)

lemma updatePlugin_match: "nodes_match s \<Longrightarrow> nodes_match (updatePlugin i j item s)"
  by (simp add: nodes_match_def updatePlugin_def updateRoute_def comp_def if_distrib cong: if_cong)

lemma d_step_match: "nodes_match s \<Longrightarrow> nodes_match (d_step camel snake s e)"
proof (cases e)
  case (Edit i j item)
  assume "nodes_match s"
  then have "nodes_match (updatePlugin i j item s)" by (rule updatePlugin_match)
  with Edit show ?thesis by (simp add: d_step_def)
qed (auto simp: d_step_def Let_def removeNode_def remove_cancel_def addNode_def clearPlugins_def addNodes_def setNodes_def
    handleSearch_def saveRoute_def onUp_def onDown_def nodes_match_def with_plugins_def updateRoute_def added_ref_def
    batch_ref_def comp_def split: sum.splits
    dest: swap_node_match [unfolded nodes_match_def] remove_ok_match [unfolded nodes_match_def])

interpretation route_machine: machine "d_step camel snake" nodes_match
  by unfold_locales (rule d_step_match)

lemma loadData_match: "loadData camel backends palette location route = Inr s \<Longrightarrow> nodes_match s"
  by (erule loadData_nodes) (use erase_fields(1) [OF withPluginIndexes_erase] in \<open>simp add: nodes_match_def\<close>)


section \<open>Moving a plugin\<close>

lemma map_of_set_index: "map_of (set_index step (Some v) ix) t = (if t = step then Some v else map_of ix t)"
  by (simp add: set_index_def update_conv')

lemma nth_by_id:
  assumes "distinct (map n_nodeId xs)" and "i < length xs"
  shows "find_index (\<lambda>n. n_nodeId n = n_nodeId (xs ! i)) xs = Some i"
proof -
  have u: "j = i" if "j < length xs" "n_nodeId (xs ! j) = n_nodeId (xs ! i)" for j
    using that assms nth_eq_iff_index_eq [OF assms(1), of j i] by simp
  show ?thesis
  proof (cases "find_index (\<lambda>n. n_nodeId n = n_nodeId (xs ! i)) xs")
    case None
    with assms(2) show ?thesis by (auto simp: find_index_None)
  next
    case (Some j)
    then have "j < length xs" "n_nodeId (xs ! j) = n_nodeId (xs ! i)" by (auto dest: find_index_Some)
    with u Some show ?thesis by simp
  qed
qed

lemma run_order_distinct:
  assumes "distinct (map n_nodeId ns)"
  shows "distinct (map n_nodeId (run_order step ns))"
proof -
  have "mset (map n_nodeId (run_order step ns)) = mset (map n_nodeId (filter (has_step step) ns))"
    by (simp add: run_order_def)
  then show ?thesis using assms by (metis distinct_map_filter mset_eq_imp_distinct_iff)
qed

lemma swap_position_nth:
  assumes "distinct (map n_nodeId ns)" and "i < length (run_order step ns)"
  shows "swap_position (run_order step ns ! i) step ns = int i"
  using nth_by_id [OF run_order_distinct [OF assms(1)] assms(2)] by (simp add: swap_position_def)

lemma run_order_mem: "i < length (run_order step ns) \<Longrightarrow> run_order step ns ! i \<in> set ns \<and> has_step step (run_order step ns ! i)"
  by (drule nth_mem) (simp add: run_order_def)

lemma swap_one_steps:
  assumes "has_step step a" and "has_step step b"
  shows "has_step t (swap_one a b step n) = (has_step t n \<or> (t = step \<and> (n_nodeId n = n_nodeId a \<or> n_nodeId n = n_nodeId b)))"
    and "step_index t (swap_one a b step n) = (if t = step \<and> n_nodeId n = n_nodeId a then step_index step b
      else if t = step \<and> n_nodeId n = n_nodeId b then step_index step a else step_index t n)"
  using assms by (auto simp: swap_one_def has_step_def step_index_def map_of_set_index)

lemma swap_order:
  fixes ns step i
  defines "ro \<equiv> run_order step ns"
  assumes ids: "distinct (map n_nodeId ns)" and ixs: "distinct (map (step_index step) ro)" and i: "Suc i < length ro"
  defines "g \<equiv> swap_one (ro ! i) (ro ! Suc i) step"
  shows "run_order step (map g ns) = map g (ro[i := ro ! Suc i, Suc i := ro ! i])"
    and "t \<noteq> step \<Longrightarrow> map n_nodeId (run_order t (map g ns)) = map n_nodeId (run_order t ns)"
proof -
  let ?a = "ro ! i" and ?b = "ro ! Suc i" and ?ys = "ro[i := ro ! Suc i, Suc i := ro ! i]"
  have mem: "?a \<in> set ns" "?b \<in> set ns" "has_step step ?a" "has_step step ?b"
    using run_order_mem [of i step ns] run_order_mem [of "Suc i" step ns] i by (auto simp: ro_def)
  have dro: "distinct (map n_nodeId ro)" unfolding ro_def using ids by (rule run_order_distinct)
  have same: "n_nodeId n = n_nodeId m \<Longrightarrow> n = m" if "n \<in> set ns" "m \<in> set ns" for n m
    using ids that by (auto simp: distinct_map inj_on_def)
  note st = swap_one_steps [OF mem(3,4), folded g_def]
  have has: "has_step t (g n) = has_step t n" if "n \<in> set ns" for t n
    using st(1) [of t n] same [OF that mem(1)] same [OF that mem(2)] mem(3,4) by auto
  have fm: "filter (has_step t) (map g ns) = map g (filter (has_step t) ns)" for t
    unfolding filter_map comp_def using has by (intro arg_cong [of _ _ "map g"] filter_cong) auto
  { assume t: "t \<noteq> step"
    have "list_all2 (\<lambda>x y. step_index t x = step_index t y \<and> n_nodeId x = n_nodeId y)
        (map g (filter (has_step t) ns)) (filter (has_step t) ns)"
      using t st(2) [of t] by (simp add: list_all2_map1 list_all2_same) (simp add: g_def)
    from sort_key_rel [OF this] show "map n_nodeId (run_order t (map g ns)) = map n_nodeId (run_order t ns)"
      by (simp add: run_order_def fm) }
  have dj: "j = k" if "j < length ro" "k < length ro" "n_nodeId (ro ! j) = n_nodeId (ro ! k)" for j k
    using nth_eq_iff_index_eq [OF dro, of j k] that by simp
  have key: "map (step_index step \<circ> g) ?ys = map (step_index step) ro"
  proof (rule nth_equalityI)
    fix j assume "j < length (map (step_index step \<circ> g) ?ys)"
    then have j: "j < length ro" by simp
    show "map (step_index step \<circ> g) ?ys ! j = map (step_index step) ro ! j"
      using j i st(2) [of step] dj [of j i] dj [of j "Suc i"] dj [of i "Suc i"]
      by (auto simp: nth_list_update)
  qed simp
  have "mset ?ys = mset ro" using i by (intro mset_swap) auto
  then have ms: "mset (map g ?ys) = mset (filter (has_step step) (map g ns))"
    by (simp add: fm ro_def run_order_def)
  show "run_order step (map g ns) = map g ?ys"
    unfolding run_order_def
  proof (rule sort_key_inj_key_eq)
    show "mset (filter (has_step step) (map g ns)) = mset (map g ?ys)" using ms by simp
    have "distinct (map (step_index step) (map g ?ys))" using key ixs by simp
    then have "inj_on (step_index step) (set (map g ?ys))" by (simp only: distinct_map)
    then show "inj_on (step_index step) (set (filter (has_step step) (map g ns)))"
      using mset_eq_setD [OF ms] by simp
    show "sorted (map (step_index step) (map g ?ys))"
      using key by (simp add: ro_def run_order_def)
  qed
qed

lemma swap_one_commute:
  "n_nodeId a \<noteq> n_nodeId b \<Longrightarrow> swap_one a b step = swap_one b a step"
  by (auto simp: swap_one_def fun_eq_iff)

definition order_ids :: "string \<Rightarrow> designer \<Rightarrow> string option list" where
  "order_ids step s = map n_nodeId (run_order step (d_nodes s))"

text \<open>
  When the nodes of a step have distinct indexes the two arrows move a plugin by one place: the
  down arrow of a node and the up arrow of the next one both exchange the two, and the order of the
  other steps stays.
\<close>

lemma arrows_move_one_place:
  assumes "distinct (map n_nodeId (d_nodes s))"
    and "distinct (map (step_index step) (run_order step (d_nodes s)))"
    and "Suc i < length (run_order step (d_nodes s))"
  shows "\<exists>s'. onDown (run_order step (d_nodes s) ! i) step s = Inr s'
     \<and> onUp (run_order step (d_nodes s) ! Suc i) step s = Inr s'
     \<and> order_ids step s' = (order_ids step s)[i := order_ids step s ! Suc i, Suc i := order_ids step s ! i]
     \<and> (\<forall>t. t \<noteq> step \<longrightarrow> order_ids t s' = order_ids t s)"
proof -
  let ?ro = "run_order step (d_nodes s)"
  let ?g = "swap_one (?ro ! i) (?ro ! Suc i) step"
  note sw = swap_order [OF assms]
  have ne: "n_nodeId (?ro ! i) \<noteq> n_nodeId (?ro ! Suc i)"
    using nth_eq_iff_index_eq [OF run_order_distinct [OF assms(1), of step], of i "Suc i"] assms(3) by simp
  have down: "swap_nodes (?ro ! i) step 1 (d_nodes s) = Inr (map ?g (d_nodes s))"
    using swap_position_nth [OF assms(1), of i step] assms(3) by (simp add: swap_nodes_def at_int_def nat_add_distrib)
  have up: "swap_nodes (?ro ! Suc i) step (- 1) (d_nodes s) = Inr (map ?g (d_nodes s))"
    using swap_position_nth [OF assms(1), of "Suc i" step] assms(3) swap_one_commute [OF ne, of step]
    by (simp add: swap_nodes_def at_int_def)
  have "order_ids step (s\<lparr>d_nodes := map ?g (d_nodes s)\<rparr>) = (order_ids step s)[i := order_ids step s ! Suc i, Suc i := order_ids step s ! i]"
    using sw(1) assms(3) by (simp add: order_ids_def map_update comp_def)
  moreover have "order_ids t (s\<lparr>d_nodes := map ?g (d_nodes s)\<rparr>) = order_ids t s" if "t \<noteq> step" for t
    using sw(2) [OF that] by (simp add: order_ids_def)
  ultimately show ?thesis
    by (simp add: onDown_def onUp_def swap_node_def down up order_ids_def with_plugins_def updateRoute_def)
qed

text \<open>
  The arrows a node shows in a step of the request: pressing one moves the node, except that the
  first node still shows an up arrow when its index is not zero, as after the removal of the plugin
  above it, and pressing it throws.
\<close>

lemma arrows_throw_on_first:
  assumes "distinct (map n_nodeId (d_nodes s))" and "step \<noteq> ''TransformResponse''"
    and "i < length (run_order step (d_nodes s))"
    and "showArrows (d_nodes s) (run_order step (d_nodes s) ! i) step = Inr (Some arr)"
  shows "(a_down arr \<longrightarrow> (\<exists>s'. onDown (run_order step (d_nodes s) ! i) step s = Inr s'))
     \<and> (a_up arr \<and> onUp (run_order step (d_nodes s) ! i) step s = Inl TypeError
        \<longleftrightarrow> i = 0 \<and> step_index step (run_order step (d_nodes s) ! i) \<noteq> 0)"
proof -
  let ?ro = "run_order step (d_nodes s)"
  have ne: "d_nodes s \<noteq> []" using assms(3) by (auto simp: run_order_def)
  have h: "map_of (n_index (?ro ! i)) step = Some (step_index step (?ro ! i))"
    using run_order_mem [OF assms(3)] by (auto simp: has_step_def step_index_def)
  have arr: "a_up arr \<longleftrightarrow> step_index step (?ro ! i) \<noteq> 0" "a_down arr \<longleftrightarrow> n_nodeId (List.last ?ro) \<noteq> n_nodeId (?ro ! i)"
    using assms(2,4) h by (auto simp: showArrows_def Let_def split: if_splits)
  have pos: "swap_position (?ro ! i) step (d_nodes s) = int i" using assms(1,3) by (rule swap_position_nth)
  have "\<exists>s'. onDown (?ro ! i) step s = Inr s'" if "a_down arr"
  proof -
    have "i \<noteq> length ?ro - 1"
    proof
      assume e: "i = length ?ro - 1"
      have "?ro \<noteq> []" using assms(3) by auto
      with e have "?ro ! i = List.last ?ro" by (simp add: last_conv_nth)
      with that arr(2) show False by simp
    qed
    with assms(3) pos show ?thesis
      by (auto simp: onDown_def swap_node_def swap_nodes_def at_int_def nat_add_distrib)
  qed
  moreover have "onUp (?ro ! i) step s = Inl TypeError \<longleftrightarrow> i = 0"
    using assms(3) pos ne by (cases "i = 0") (auto simp: onUp_def swap_node_def swap_nodes_def at_int_def)
  ultimately show ?thesis using arr by auto
qed

lemma find_by_id:
  assumes "distinct (map n_nodeId ns)" and "k < length ns"
  shows "List.find (\<lambda>n. n_nodeId n = n_nodeId (ns ! k)) ns = Some (ns ! k)"
  using assms by (intro find_unique) (auto simp: distinct_map inj_on_def)

lemma swap_rewrites_indexes:
  assumes "nodes_match s" and "distinct (map n_nodeId (d_nodes s))" and "swap_node a step k s = Inr s'"
  shows "map r_index (rt_plugins (d_route s')) = map (Some \<circ> n_index) (d_nodes s')"
proof -
  obtain ns where ns: "swap_nodes a step k (d_nodes s) = Inr ns" "d_nodes s' = ns"
      "rt_plugins (d_route s') = map (\<lambda>r. r\<lparr>r_index := map_option n_index (List.find (\<lambda>n. n_nodeId n = r_nodeId r) ns)\<rparr>)
         (rt_plugins (d_route s))"
    using assms(3) by (auto simp: swap_node_def with_plugins_def updateRoute_def)
  have ids: "map n_nodeId ns = map r_nodeId (rt_plugins (d_route s))"
    using assms(1) swap_nodes_ids [OF ns(1)] by (simp add: nodes_match_def)
  have d: "distinct (map n_nodeId ns)" using assms(2) swap_nodes_ids [OF ns(1)] by simp
  show ?thesis
  proof (rule nth_equalityI)
    show l: "length (map r_index (rt_plugins (d_route s'))) = length (map (Some \<circ> n_index) (d_nodes s'))"
      using map_eq_imp_length_eq [OF ids] by (simp add: ns)
    fix j assume "j < length (map r_index (rt_plugins (d_route s')))"
    then have j: "j < length (rt_plugins (d_route s))" "j < length ns" using l by (simp_all add: ns)
    then have "r_nodeId (rt_plugins (d_route s) ! j) = n_nodeId (ns ! j)" using arg_cong [OF ids, of "\<lambda>xs. xs ! j"] by simp
    with j find_by_id [OF d j(2)] show "map r_index (rt_plugins (d_route s')) ! j = map (Some \<circ> n_index) (d_nodes s') ! j"
      by (simp add: ns)
  qed
qed

lemma fill_nodes_steps: "n \<in> set (fill_nodes ns l) \<Longrightarrow> n_steps n = [] \<Longrightarrow> n \<in> set ns"
  by (induction ns l rule: fill_nodes.induct)
    (auto simp: missing_steps_def STEPS_def REQUEST_STEPS_FLOW_def split: prod.splits)

lemma route_node_unknown:
  "find_plugin palette r = Inr None \<Longrightarrow> route_node palette r = Inr (unknown_node r)"
  by (simp add: route_node_def)

lemma rmap_nth: "rmap f xs = Inr ys \<Longrightarrow> k < length xs \<Longrightarrow> f (xs ! k) = Inr (ys ! k)"
  by (induction xs arbitrary: ys k) (auto simp: nth_Cons split: nat.splits)

lemma fill_nodes_nth: "k < length ns \<Longrightarrow> n_steps (ns ! k) = [] \<Longrightarrow> fill_nodes ns l ! k = ns ! k"
  by (induction ns l arbitrary: k rule: fill_nodes.induct)
    (auto simp: missing_steps_def nth_Cons split: prod.splits nat.splits)

lemma loaded_unknown:
  assumes "loadData camel backends palette location route = Inr s"
    and "k < length (rt_plugins route)" and "find_plugin palette (rt_plugins route ! k) = Inr None"
  shows "n_index (d_nodes s ! k) = [] \<and> k < length (d_nodes s)"
proof -
  obtain ns ms where g: "rmap (route_node palette) (rt_plugins route) = Inr ns" "generateInternalNodeId ns = Inr ms"
      "d_nodes s = withPluginIndexes camel ms" "length ms = length (rt_plugins route)"
    using loadData_nodes [OF assms(1)] by metis
  note f = generate_ids_fields [OF g(2) [unfolded generateInternalNodeId_def]]
  have "ns ! k = unknown_node (rt_plugins route ! k)"
    using rmap_nth [OF g(1) assms(2)] assms(3) by (simp add: route_node_unknown)
  moreover have "length ns = length ms" using map_eq_imp_length_eq [OF f] by simp
  ultimately have u: "n_index (ms ! k) = []" "n_steps (ms ! k) = []"
    using arg_cong [OF f, of "\<lambda>xs. n_index (xs ! k)"] arg_cong [OF f, of "\<lambda>xs. n_steps (xs ! k)"] assms(2) g(4)
    by (simp_all add: unknown_node_def)
  have "d_nodes s ! k = normal_index camel (ms ! k)"
    using fill_nodes_nth [of k "map (normal_index camel) ms"] assms(2) g(3,4) u
    by (simp add: withPluginIndexes_def Let_def) (simp add: normal_index_def)
  with u(1) have "n_index (d_nodes s ! k) = []" by (simp add: normal_index_def from_entries_def)
  moreover have "length (d_nodes s) = length ms"
    using erase_fields(4) [OF withPluginIndexes_erase] g(3) by simp
  ultimately show ?thesis using assms(2) g(4) by simp
qed

text \<open>
  An entry of the route whose plugin is not in the palette is to keep its index on save, but any
  move of another plugin writes an empty index over it.
\<close>

lemma move_forgets_unknown_index:
  assumes "loadData camel backends palette location route = Inr s" and "distinct (map n_nodeId (d_nodes s))"
    and "k < length (rt_plugins route)" and "find_plugin palette (rt_plugins route ! k) = Inr None"
    and "a \<in> set (d_nodes s)" and "has_step step a" and "swap_node a step offset s = Inr s'"
  shows "r_index (rt_plugins (d_route s') ! k) = Some []"
proof -
  from loaded_unknown [OF assms(1,3,4)] have u: "n_index (d_nodes s ! k) = []" "k < length (d_nodes s)" by auto
  then have noh: "\<not> has_step step (d_nodes s ! k)" by (simp add: has_step_def)
  have same: "n_nodeId n = n_nodeId m \<Longrightarrow> n = m" if "n \<in> set (d_nodes s)" "m \<in> set (d_nodes s)" for n m
    using assms(2) that by (auto simp: distinct_map inj_on_def)
  obtain b where b: "d_nodes s' = map (swap_one a b step) (d_nodes s)" "b \<in> set (run_order step (d_nodes s))"
  proof -
    obtain ns where ns: "swap_nodes a step offset (d_nodes s) = Inr ns" "d_nodes s' = ns"
      using assms(7) by (auto simp: swap_node_def with_plugins_def updateRoute_def)
    have "d_nodes s \<noteq> []" using assms(5) by auto
    with ns(1) obtain b where "at_int (run_order step (d_nodes s)) (swap_position a step (d_nodes s) + offset) = Some b"
        "ns = map (swap_one a b step) (d_nodes s)"
      by (simp add: swap_nodes_def split: option.splits)
    then show thesis using ns(2) by (intro that [of b]) (auto simp: at_int_def split: if_splits)
  qed
  then have hb: "b \<in> set (d_nodes s)" "has_step step b" by (auto simp: run_order_def)
  have "swap_one a b step (d_nodes s ! k) = d_nodes s ! k"
    using same [OF nth_mem [OF u(2)] assms(5)] same [OF nth_mem [OF u(2)] hb(1)] noh hb(2) assms(6)
    by (auto simp: swap_one_def)
  with b(1) u have n: "n_index (d_nodes s' ! k) = []" by simp
  have len: "length (rt_plugins (d_route s')) = length (d_nodes s')"
    using map_eq_imp_length_eq [OF swap_rewrites_indexes [OF loadData_match [OF assms(1)] assms(2,7)]] by simp
  have "map r_index (rt_plugins (d_route s')) ! k = map (Some \<circ> n_index) (d_nodes s') ! k"
    using swap_rewrites_indexes [OF loadData_match [OF assms(1)] assms(2,7)] by simp
  with n len b(1) u(2) show ?thesis by simp
qed

section \<open>Adding a plugin again\<close>

lemma new_id_fresh:
  assumes "\<forall>n \<in> set ns. \<not> startsWith (id_text (n_id n)) i"
  shows "generateNewInternalNodeId (ns @ ms) (Some i) = numbered (Some i)
     (length (filter (\<lambda>c. case n_id c of Some s \<Rightarrow> startsWith s i | None \<Rightarrow> False) ms))"
proof -
  have "filter (\<lambda>c. case n_id c of Some s \<Rightarrow> startsWith s i | None \<Rightarrow> False) ns = []"
    using assms by (auto simp: filter_empty_conv id_text_def split: option.splits)
  moreover have "id_text (Some i) = i" by (simp add: id_text_def)
  ultimately show ?thesis by (simp add: generateNewInternalNodeId_def cong: option.case_cong)
qed

lemma addNode_nodes:
  "\<exists>n. d_nodes (addNode p s) = d_nodes s @ [n] \<and> n_id n = Some (pl_id p)
     \<and> n_nodeId n = generateNewInternalNodeId (d_nodes s) (Some (pl_id p)) \<and> d_selected (addNode p s) = Some n"
  by (simp add: addNode_def with_plugins_def updateRoute_def Let_def palette_node_def)

text \<open>
  The number in the identifier of a new node counts the nodes there are. Adding a plugin twice,
  removing the first and adding it again gives two nodes the same identifier, and removing one then
  removes both.
\<close>

lemma readded_plugin_shares_id:
  assumes "\<forall>n \<in> set (d_nodes s). \<not> startsWith (id_text (n_id n)) (pl_id p) \<and> \<not> startsWith (id_text (n_nodeId n)) (pl_id p)"
    and "remove_ok ((addNode p (addNode p s))\<lparr>d_selected := d_selected (addNode p s)\<rparr>) = Inr s3"
  shows "\<exists>n m. d_nodes (addNode p s3) = d_nodes s @ [n, m] \<and> n_nodeId n = n_nodeId m
     \<and> (\<exists>s5. remove_ok (addNode p s3) = Inr s5 \<and> d_nodes s5 = d_nodes s)"
proof -
  let ?i = "Some (pl_id p)"
  have fresh: "\<forall>n \<in> set (d_nodes s). \<not> startsWith (id_text (n_id n)) (pl_id p)" using assms(1) by blast
  have pre: "startsWith (pl_id p) (pl_id p)" by (simp add: startsWith_def)
  have ids: "n_nodeId m \<noteq> numbered ?i k" if "m \<in> set (d_nodes s)" for m k
    using assms(1) that by (auto simp: numbered_def id_text_def)
  obtain n1 where n1: "d_nodes (addNode p s) = d_nodes s @ [n1]" "n_id n1 = ?i" "n_nodeId n1 = numbered ?i 0"
      "d_selected (addNode p s) = Some n1"
    using addNode_nodes [of p s] new_id_fresh [OF fresh, of "[]"] by auto
  obtain n2 where n2: "d_nodes (addNode p (addNode p s)) = d_nodes s @ [n1, n2]" "n_id n2 = ?i" "n_nodeId n2 = numbered ?i 1"
    using addNode_nodes [of p "addNode p s"] new_id_fresh [OF fresh, of "[n1]"] n1 pre by auto
  have d: "numbered ?i (Suc 0) \<noteq> numbered ?i 0"
    using nat_str_inj [of 1 0] by (auto simp: numbered_def)
  have keep: "filter (\<lambda>n. n_nodeId n \<noteq> numbered ?i k) (d_nodes s) = d_nodes s" for k
    using ids by (simp add: filter_id_conv)
  have s3: "d_nodes s3 = d_nodes s @ [n2]"
    using assms(2) n1 n2 d keep by (auto simp: remove_ok_def with_plugins_def updateRoute_def)
  obtain n3 where n3: "d_nodes (addNode p s3) = d_nodes s @ [n2, n3]" "n_nodeId n3 = numbered ?i 1" "d_selected (addNode p s3) = Some n3"
    using addNode_nodes [of p s3] new_id_fresh [OF fresh, of "[n2]"] n2 pre by (auto simp: s3)
  moreover have "\<exists>s5. remove_ok (addNode p s3) = Inr s5 \<and> d_nodes s5 = d_nodes s"
    using n3 n2 keep by (simp add: remove_ok_def with_plugins_def updateRoute_def)
  ultimately show ?thesis using n2 by auto
qed

section \<open>Opening and closing the form\<close>

lemma spread_same:
  "\<forall>(k, v) \<in> set b. map_of a k = Some v \<Longrightarrow> spread a b = a"
  by (induction b) (auto simp: spread_Cons update_triv)

text \<open>
  Opening the form of a plugin and validating it as it is leaves the route as it is, when the
  entry has all its status fields.
\<close>

lemma validating_unchanged_form_keeps_route:
  assumes "r \<in> set (rt_plugins (d_route s))" and "r_nodeId r = n_nodeId sel" and "distinct (map r_nodeId (rt_plugins (d_route s)))"
    and "n_field sel = None" and "n_id sel \<noteq> Some ''Frontend'' \<and> n_id sel \<noteq> Some ''Backend''"
    and "list_all (\<lambda>k. obj_get (r_rest r) k \<noteq> JUndef) [''enabled'', ''debug'', ''include'', ''exclude'', ''bound_listeners'']"
  shows "snd (onValidate (form_of sel s) (\<lparr>ev_selected = sel, ev_value = form_of sel s, ev_errors = []\<rparr>, s)) = s"
proof -
  have same: "x = r" if "x \<in> set (rt_plugins (d_route s))" "r_nodeId x = n_nodeId sel" for x
    using assms(1-3) that by (auto simp: distinct_map inj_on_def)
  then have "find_ref (n_nodeId sel) s = Some r"
    unfolding find_ref_def using assms(1,2) by (intro find_unique)
  then have f: "form_of sel s = Some \<lparr>fv_plugin = r_config r, fv_status = status_form (r_rest r)\<rparr>"
    using assms(4) by (simp add: form_of_def route_field_def)
  have get: "obj_get (r_rest r) k \<noteq> JUndef \<Longrightarrow> map_of (r_rest r) k = Some (obj_get (r_rest r) k)" for k
    by (cases "map_of (r_rest r) k") (simp_all add: obj_get_def)
  have st: "spread (r_rest r) (entries (status_form (r_rest r))) = r_rest r"
    using assms(6) by (intro spread_same) (simp add: status_form_def or_default_def get)
  have "map (\<lambda>x. if r_nodeId x = n_nodeId sel
      then x\<lparr>r_rest := spread (r_rest x) (entries (status_form (r_rest r))), r_config := js_or (r_config r) (r_config r)\<rparr> else x)
      (rt_plugins (d_route s)) = rt_plugins (d_route s)"
    by (rule map_idI) (auto dest: same simp: st js_or_def)
  then show ?thesis
    using assms(5) by (simp add: f onValidate_def updatePlugin_def updateRoute_def cong: if_cong)
qed

section \<open>A route with two instances of a plugin and an unknown one\<close>

definition sample_camel :: "string \<Rightarrow> string" where
  "sample_camel k = (if k = ''pre_route'' then ''preRoute'' else k)"

definition sample_snake :: "string \<Rightarrow> string" where
  "sample_snake k = (if k = ''PreRoute'' then ''pre_route'' else k)"

definition sample_plugin :: plugin where
  "sample_plugin = \<lparr>pl_id = ''cp:a.Headers'', pl_name = Some ''headers'', pl_steps = [''PreRoute''], pl_categories = [],
     pl_visibility = None, pl_multi_inst = True, pl_legacy = False, pl_type = None, pl_config = JObj [], pl_rest = [],
     pl_selected = False, pl_filtered = False\<rparr>"

definition sample_ref :: "index option \<Rightarrow> string \<Rightarrow> ref" where
  "sample_ref ix p = \<lparr>r_plugin = Some p, r_nodeId = None, r_index = ix, r_config = JObj [],
     r_rest = [(''enabled'', JBool True), (''debug'', JBool False), (''include'', JArr []), (''exclude'', JArr []),
       (''bound_listeners'', JArr [])]\<rparr>"

definition sample_route :: route where
  "sample_route = \<lparr>rt_id = ''r'', rt_frontend = JObj [], rt_backend = JObj [], rt_backend_ref = None,
     rt_plugins = [sample_ref None ''cp:a.Headers'', sample_ref (Some [(''pre_route'', 1)]) ''cp:a.Headers'',
       sample_ref (Some [(''pre_route'', 5)]) ''cp:b.Gone'']\<rparr>"

definition sample_load :: "designer res" where
  "sample_load = loadData sample_camel [] [sample_plugin] None sample_route"

definition sample_designer :: designer where
  "sample_designer = (case sample_load of Inr s \<Rightarrow> s
     | Inl _ \<Rightarrow> \<lparr>d_nodes = [], d_plugins = [], d_route = sample_route, d_original = sample_route, d_selected = None,
         d_alert = False, d_searched = []\<rparr>)"

lemma sample_loaded: "loadData sample_camel [] [sample_plugin] None sample_route = Inr sample_designer"
proof -
  have "case sample_load of Inr _ \<Rightarrow> True | Inl _ \<Rightarrow> False" by code_simp
  then show ?thesis by (simp add: sample_designer_def sample_load_def split: sum.splits)
qed

lemma sample_facts:
  "map n_nodeId (d_nodes sample_designer) = [Some ''cp:a.Headers'', Some ''cp:a.Headers-1'', Some ''Gone'']"
  "map n_nodeId (run_order ''PreRoute'' (d_nodes sample_designer)) = [Some ''cp:a.Headers-1'', Some ''cp:a.Headers'']"
  "map (step_index ''PreRoute'') (run_order ''PreRoute'' (d_nodes sample_designer)) = [1, 2]"
  "map r_nodeId (rt_plugins (d_route sample_designer)) = [Some ''cp:a.Headers'', Some ''cp:a.Headers-1'', Some ''Gone'']"
  "map n_id (d_nodes sample_designer) = [Some ''cp:a.Headers'', Some ''cp:a.Headers'', Some ''Gone'']"
  by code_simp+

lemma sample_order: "length (run_order ''PreRoute'' (d_nodes sample_designer)) = 2"
  using arg_cong [OF sample_facts(3), of length] by simp

lemma sample_distinct: "distinct (map n_nodeId (d_nodes sample_designer))"
  "distinct (map (step_index ''PreRoute'') (run_order ''PreRoute'' (d_nodes sample_designer)))"
  "distinct (map r_nodeId (rt_plugins (d_route sample_designer)))"
  unfolding sample_facts by simp_all

lemma loaded_ids_distinct_witness:
  "distinct (map n_nodeId (d_nodes sample_designer)) \<and> distinct (map r_nodeId (rt_plugins (d_route sample_designer)))"
proof (rule loaded_ids_distinct [OF sample_loaded])
  have "\<forall>i \<in> set (map n_id (d_nodes sample_designer)). \<exists>j. i = Some j \<and> CHR ''-'' \<notin> set j"
    unfolding sample_facts by simp
  then show "\<forall>n \<in> set (d_nodes sample_designer). plain_id n" by (simp add: plain_id_def)
qed


lemma arrows_move_one_place_witness:
  "\<exists>s'. onDown (run_order ''PreRoute'' (d_nodes sample_designer) ! 0) ''PreRoute'' sample_designer = Inr s'
     \<and> order_ids ''PreRoute'' s' = [Some ''cp:a.Headers'', Some ''cp:a.Headers-1'']"
  using arrows_move_one_place [OF sample_distinct(1,2), of 0] sample_order sample_facts(2)
  by (auto simp: order_ids_def)

lemma arrows_throw_on_first_witness:
  "onUp (run_order ''PreRoute'' (d_nodes sample_designer) ! 0) ''PreRoute'' sample_designer = Inl TypeError"
proof -
  have "showArrows (d_nodes sample_designer) (run_order ''PreRoute'' (d_nodes sample_designer) ! 0) ''PreRoute''
      = Inr (Some \<lparr>a_up = True, a_down = True\<rparr>)" by code_simp
  moreover have "step_index ''PreRoute'' (run_order ''PreRoute'' (d_nodes sample_designer) ! 0) \<noteq> 0" by code_simp
  ultimately show ?thesis
    using arrows_throw_on_first [OF sample_distinct(1), of "''PreRoute''" 0] sample_order by auto
qed

definition swapped :: "designer" where
  "swapped = (case swap_node (d_nodes sample_designer ! 0) ''PreRoute'' (- 1) sample_designer of Inr s \<Rightarrow> s | Inl _ \<Rightarrow> sample_designer)"

lemma move_forgets_unknown_index_witness:
  "r_index (rt_plugins sample_route ! 2) = Some [(''pre_route'', 5)] \<and> r_index (rt_plugins (d_route swapped) ! 2) = Some []"
proof -
  have "case swap_node (d_nodes sample_designer ! 0) ''PreRoute'' (- 1) sample_designer of Inr _ \<Rightarrow> True | Inl _ \<Rightarrow> False"
    by code_simp
  then have sw: "swap_node (d_nodes sample_designer ! 0) ''PreRoute'' (- 1) sample_designer = Inr swapped"
    by (simp add: swapped_def split: sum.splits)
  have u: "find_plugin [sample_plugin] (rt_plugins sample_route ! 2) = Inr None" by code_simp
  have h: "has_step ''PreRoute'' (d_nodes sample_designer ! 0)" by code_simp
  have m: "d_nodes sample_designer ! 0 \<in> set (d_nodes sample_designer)"
    using arg_cong [OF sample_facts(1), of length] by (intro nth_mem) simp
  have l: "2 < length (rt_plugins sample_route)" "r_index (rt_plugins sample_route ! 2) = Some [(''pre_route'', 5)]"
    by (simp_all add: sample_route_def sample_ref_def)
  show ?thesis
    using move_forgets_unknown_index [OF sample_loaded sample_distinct(1) l(1) u m h sw] l(2) by simp
qed

definition removed_first :: "designer" where
  "removed_first = (let p = sample_plugin\<lparr>pl_id := ''z''\<rparr>; s1 = addNode p sample_designer in
     case remove_ok ((addNode p s1)\<lparr>d_selected := d_selected s1\<rparr>) of Inr s \<Rightarrow> s | Inl _ \<Rightarrow> sample_designer)"

lemma readded_plugin_shares_id_witness:
  "\<exists>n m. d_nodes (addNode (sample_plugin\<lparr>pl_id := ''z''\<rparr>) removed_first) = d_nodes sample_designer @ [n, m] \<and> n_nodeId n = n_nodeId m"
proof -
  let ?p = "sample_plugin\<lparr>pl_id := ''z''\<rparr>"
  have "case remove_ok ((addNode ?p (addNode ?p sample_designer))\<lparr>d_selected := d_selected (addNode ?p sample_designer)\<rparr>)
      of Inr _ \<Rightarrow> True | Inl _ \<Rightarrow> False" by code_simp
  then have r: "remove_ok ((addNode ?p (addNode ?p sample_designer))\<lparr>d_selected := d_selected (addNode ?p sample_designer)\<rparr>)
      = Inr removed_first" by (simp add: removed_first_def Let_def split: sum.splits)
  have "list_all (\<lambda>n. \<not> startsWith (id_text (n_id n)) (pl_id ?p) \<and> \<not> startsWith (id_text (n_nodeId n)) (pl_id ?p)) (d_nodes sample_designer)"
    by code_simp
  then show ?thesis using readded_plugin_shares_id [OF _ r] by (auto simp: list_all_iff)
qed

lemma validating_unchanged_form_keeps_route_witness:
  "snd (onValidate (form_of (d_nodes sample_designer ! 1) sample_designer)
     (\<lparr>ev_selected = d_nodes sample_designer ! 1, ev_value = form_of (d_nodes sample_designer ! 1) sample_designer, ev_errors = []\<rparr>,
      sample_designer)) = sample_designer"
proof (rule validating_unchanged_form_keeps_route [OF _ _ sample_distinct(3)])
  show "rt_plugins (d_route sample_designer) ! 1 \<in> set (rt_plugins (d_route sample_designer))"
    using arg_cong [OF sample_facts(4), of length] by (intro nth_mem) simp
  show "r_nodeId (rt_plugins (d_route sample_designer) ! 1) = n_nodeId (d_nodes sample_designer ! 1)" by code_simp
  show "n_field (d_nodes sample_designer ! 1) = None" by code_simp
  show "n_id (d_nodes sample_designer ! 1) \<noteq> Some ''Frontend'' \<and> n_id (d_nodes sample_designer ! 1) \<noteq> Some ''Backend''" by code_simp
  show "list_all (\<lambda>k. obj_get (r_rest (rt_plugins (d_route sample_designer) ! 1)) k \<noteq> JUndef)
      [''enabled'', ''debug'', ''include'', ''exclude'', ''bound_listeners'']" by code_simp
qed

end
