(* ===== verification/Route_Patterns.thy ===== *)
theory Route_Patterns
  imports Route_Designer_Facts
begin

text \<open>
  The ready-made chains of the designer (\<open>pages/RouteDesigner/patterns.js\<close>): the three patterns, the
  user's templates, and what applying one does; also the labels of the forms (\<open>toUpperCaseLabels\<close> of
  \<open>util.js\<close>) and the steps the user has folded (\<open>hidden_steps\<close> of the local storage).
\<close>

section \<open>Patterns\<close>

text \<open>An entry: is the plugin enabled, its name after \<open>cp:otoroshi.next.plugins.\<close>, its indexes.\<close>

type_synonym pattern_entry = "bool \<times> string \<times> index"

definition CLASSIC_PATTERN :: "pattern_entry list" where
  "CLASSIC_PATTERN = [
     (False, ''Redirection'', [(''PreRoute'', 0)]),
     (True, ''ForceHttpsTraffic'', [(''PreRoute'', 1)]),
     (False, ''BuildMode'', [(''PreRoute'', 2)]),
     (False, ''MaintenanceMode'', [(''PreRoute'', 3)]),
     (False, ''Cors'', [(''PreRoute'', 4), (''TransformResponse'', 6)]),
     (True, ''DisableHttp10'', [(''ValidateAccess'', 0)]),
     (False, ''IpAddressAllowedList'', [(''ValidateAccess'', 1)]),
     (False, ''IpAddressBlockList'', [(''ValidateAccess'', 2)]),
     (False, ''ReadOnlyCalls'', [(''ValidateAccess'', 3)]),
     (False, ''NgLegacyApikeyCall'', [(''ValidateAccess'', 4), (''MatchRoute'', 0), (''TransformRequest'', 7)]),
     (False, ''JwtVerification'', [(''ValidateAccess'', 5), (''TransformRequest'', 6)]),
     (False, ''NgLegacyAuthModuleCall'', [(''ValidateAccess'', 6)]),
     (False, ''RoutingRestrictions'', [(''ValidateAccess'', 7)]),
     (False, ''HeadersValidation'', [(''ValidateAccess'', 8)]),
     (False, ''AdditionalHeadersIn'', [(''TransformRequest'', 0)]),
     (False, ''MissingHeadersIn'', [(''TransformRequest'', 1)]),
     (False, ''RemoveHeadersIn'', [(''TransformRequest'', 2)]),
     (True, ''OverrideHost'', [(''TransformRequest'', 3)]),
     (False, ''XForwardedHeaders'', [(''TransformRequest'', 4)]),
     (False, ''OtoroshiInfos'', [(''TransformRequest'', 5)]),
     (False, ''AdditionalHeadersOut'', [(''TransformResponse'', 0)]),
     (False, ''MissingHeadersOut'', [(''TransformResponse'', 1)]),
     (False, ''RemoveHeadersOut'', [(''TransformResponse'', 2)]),
     (False, ''SendOtoroshiHeadersBack'', [(''TransformResponse'', 3)]),
     (False, ''OtoroshiChallenge'', [(''TransformResponse'', 4), (''TransformRequest'', 8)]),
     (False, ''GzipResponseCompressor'', [(''TransformResponse'', 7)])]"

definition EXPOSE_API_PATTERN :: "pattern_entry list" where
  "EXPOSE_API_PATTERN = [
     (True, ''ForceHttpsTraffic'', [(''PreRoute'', 1)]),
     (False, ''Cors'', [(''PreRoute'', 4), (''TransformResponse'', 6)]),
     (True, ''DisableHttp10'', [(''ValidateAccess'', 0)]),
     (True, ''ApikeyCalls'', [(''ValidateAccess'', 4), (''MatchRoute'', 0), (''TransformRequest'', 7)]),
     (False, ''OverrideHost'', [(''TransformRequest'', 3)]),
     (True, ''XForwardedHeaders'', [(''TransformRequest'', 4)]),
     (False, ''OtoroshiInfos'', [(''TransformRequest'', 5)]),
     (True, ''SendOtoroshiHeadersBack'', [(''TransformResponse'', 3)]),
     (False, ''OtoroshiChallenge'', [(''TransformResponse'', 4), (''TransformRequest'', 8)])]"

definition AUTH_WEBAPP_PATTERN :: "pattern_entry list" where
  "AUTH_WEBAPP_PATTERN = [
     (True, ''ForceHttpsTraffic'', [(''PreRoute'', 1)]),
     (False, ''BuildMode'', [(''PreRoute'', 2)]),
     (False, ''MaintenanceMode'', [(''PreRoute'', 3)]),
     (True, ''DisableHttp10'', [(''ValidateAccess'', 0)]),
     (True, ''AuthModule'', [(''ValidateAccess'', 6)]),
     (False, ''OverrideHost'', [(''TransformRequest'', 3)]),
     (True, ''OtoroshiInfos'', [(''TransformRequest'', 5)]),
     (False, ''OtoroshiChallenge'', [(''TransformResponse'', 4), (''TransformRequest'', 8)]),
     (False, ''GzipResponseCompressor'', [(''TransformResponse'', 7)])]"

definition plugin_id :: "string \<Rightarrow> string" where
  "plugin_id name = ''cp:otoroshi.next.plugins.'' @ name"

definition findPlugin :: "plugin list \<Rightarrow> string \<Rightarrow> plugin option" where
  "findPlugin plugins i = List.find (\<lambda>p. pl_id p = i) plugins"

text \<open>\<open>{enabled, ...findPlugin(id), plugin_index}\<close>; the spread of \<open>undefined\<close> adds nothing.\<close>

definition pattern_node :: "plugin list \<Rightarrow> pattern_entry \<Rightarrow> node" where
  "pattern_node plugins e = (case e of (enabled, name, ix) \<Rightarrow>
     (case findPlugin plugins (plugin_id name) of
        Some p \<Rightarrow> (palette_node p)\<lparr>n_index := ix, n_rest := spread [(''enabled'', JBool enabled)] (pl_rest p)\<rparr>
      | None \<Rightarrow> \<lparr>n_id = None, n_nodeId = None, n_index = ix, n_steps = [], n_legacy = False, n_type = None,
          n_config = JUndef, n_field = None, n_rest = [(''enabled'', JBool enabled)]\<rparr>))"

record pattern =
  pt_id :: string
  pt_name :: string
  pt_shortcut :: "plugin list \<Rightarrow> node option list"

definition getPluginsPatterns :: "pattern list" where
  "getPluginsPatterns =
     [\<lparr>pt_id = plugin_id ''ClassicPluginsPattern'', pt_name = ''Classic plugins'',
        pt_shortcut = (\<lambda>plugins. map (Some \<circ> pattern_node plugins) CLASSIC_PATTERN)\<rparr>,
      \<lparr>pt_id = plugin_id ''ExposeApiPattern'', pt_name = ''Expose an API'',
        pt_shortcut = (\<lambda>plugins. map (Some \<circ> pattern_node plugins) EXPOSE_API_PATTERN)\<rparr>,
      \<lparr>pt_id = plugin_id ''AuthWebappPattern'', pt_name = ''Expose webapp with auth.'',
        pt_shortcut = (\<lambda>plugins. map (Some \<circ> pattern_node plugins) AUTH_WEBAPP_PATTERN)\<rparr>]"

text \<open>\<open>{enabled: true, ...findPlugin(plugin.plugin), ...plugin}\<close>: the entry of the template wins.\<close>

definition template_node :: "plugin list \<Rightarrow> ref \<Rightarrow> node" where
  "template_node plugins r =
     (let ix = (case r_index r of Some ix \<Rightarrow> ix | None \<Rightarrow> []); enabled = [(''enabled'', JBool True)] in
      case (case r_plugin r of Some i \<Rightarrow> findPlugin plugins i | None \<Rightarrow> None) of
        Some p \<Rightarrow> (palette_node p)\<lparr>n_nodeId := r_nodeId r, n_index := ix, n_config := r_config r,
          n_rest := spread (spread enabled (pl_rest p)) (r_rest r)\<rparr>
      | None \<Rightarrow> \<lparr>n_id = None, n_nodeId = r_nodeId r, n_index = ix, n_steps = [], n_legacy = False, n_type = None,
          n_config = r_config r, n_field = None, n_rest = spread enabled (r_rest r)\<rparr>)"

text \<open>The shortcut of a template: the front and back ends, then the nodes.\<close>

definition apply_template :: "(string \<Rightarrow> string) \<Rightarrow> route \<Rightarrow> designer \<Rightarrow> designer" where
  "apply_template camel t s = setNodes camel (map (Some \<circ> template_node (d_plugins s)) (rt_plugins t))
     (s\<lparr>d_route := (d_route s)
        \<lparr>rt_frontend := JObj (spread (entries (rt_frontend (d_route s))) (entries (rt_frontend t))),
         rt_backend := JObj (spread (entries (rt_backend (d_route s))) (entries (rt_backend t)))\<rparr>\<rparr>)"

definition apply_pattern :: "(string \<Rightarrow> string) \<Rightarrow> pattern \<Rightarrow> designer \<Rightarrow> designer" where
  "apply_pattern camel p s = setNodes camel (pt_shortcut p (d_plugins s)) s"

section \<open>Labels of the forms\<close>

definition capital :: "string \<Rightarrow> string" where
  "capital s = (case s of [] \<Rightarrow> [] | c # r \<Rightarrow> upper_char c # r)"

definition label_text :: "string \<Rightarrow> string" where
  "label_text s = capital (map (\<lambda>c. if c = CHR ''_'' then CHR '' '' else c) s)"

fun toUpperCaseLabels :: "obj \<Rightarrow> obj" and upper_entry :: "string \<times> js \<Rightarrow> string \<times> js" where
  "toUpperCaseLabels [] = []"
| "toUpperCaseLabels (e # es) = upper_entry e # toUpperCaseLabels es"
| "upper_entry (k, JStr v) = (k, if v = [] then JNull else if k = ''label'' then JStr (label_text v) else JStr v)"
| "upper_entry (k, JObj fs) = (k, if k = ''transformer'' \<or> k = ''optionsTransformer'' then JObj fs else JObj (toUpperCaseLabels fs))"
| "upper_entry (k, v) = (k, if truthy v then v else JNull)"

section \<open>Folded steps\<close>

text \<open>The item \<open>hidden_steps\<close> of the local storage: nothing, a text that is not JSON, or an object
  from routes to their steps.\<close>

datatype stored = Nothing | Broken | Stored obj

definition loadHiddenSteps :: "stored \<Rightarrow> string \<Rightarrow> js \<Rightarrow> js" where
  "loadHiddenSteps st routeId current = (case st of
     Stored o' \<Rightarrow> if truthy (obj_get o' routeId) then obj_get o' routeId else current | _ \<Rightarrow> current)"

definition storeHiddenSteps :: "stored \<Rightarrow> string \<Rightarrow> js \<Rightarrow> stored" where
  "storeHiddenSteps st routeId steps = (case st of
     Nothing \<Rightarrow> Stored [(routeId, steps)]
   | Broken \<Rightarrow> Broken
   | Stored o' \<Rightarrow> Stored (AList.update routeId steps o'))"

definition toggle_step :: "obj \<Rightarrow> string \<Rightarrow> obj" where
  "toggle_step hidden step = AList.update step (JBool (\<not> truthy (obj_get hidden step))) hidden"

section \<open>Properties\<close>

lemma upper_underscore: "upper_char c = CHR ''_'' \<longleftrightarrow> c = CHR ''_''"
proof (cases "has_capital (of_char c)")
  case True
  with upper_code [OF True] have "(of_char (upper_char c) :: nat) \<noteq> 95" "(of_char c :: nat) \<noteq> 95"
    by (auto simp: has_capital_def)
  then show ?thesis by auto
qed (simp add: upper_kept)

lemma label_text_idem: "label_text (label_text s) = label_text s"
proof (cases s)
  case (Cons c r)
  let ?f = "\<lambda>c. if c = CHR ''_'' then CHR '' '' else c"
  have "?f (upper_char (?f c)) = upper_char (?f c)" using upper_underscore [of "?f c"] by simp
  with Cons show ?thesis by (simp add: label_text_def capital_def upper_upper)
qed (simp add: label_text_def capital_def)

lemma label_text_empty: "label_text s = [] \<longleftrightarrow> s = []"
  by (cases s) (simp_all add: label_text_def capital_def)

text \<open>Formatting the labels of a schema twice is formatting them once.\<close>

lemma toUpperCaseLabels_idem:
  "toUpperCaseLabels (toUpperCaseLabels o') = toUpperCaseLabels o'"
  "upper_entry (upper_entry e) = upper_entry e"
  by (induction o' and e rule: toUpperCaseLabels_upper_entry.induct)
    (auto simp: label_text_idem label_text_empty)

text \<open>What is folded for a route is read back, whatever is stored, unless the storage holds a text
  that is not JSON: then nothing is ever stored again.\<close>

lemma hidden_steps_read_back:
  "truthy steps \<Longrightarrow> st \<noteq> Broken \<Longrightarrow> loadHiddenSteps (storeHiddenSteps st i steps) i d = steps"
  "i \<noteq> j \<Longrightarrow> st \<noteq> Broken \<Longrightarrow> loadHiddenSteps (storeHiddenSteps st i steps) j d = loadHiddenSteps st j d"
  "loadHiddenSteps (storeHiddenSteps Broken i steps) i d = d"
  by (cases st; simp add: loadHiddenSteps_def storeHiddenSteps_def)+

section \<open>What a pattern does\<close>

text \<open>The index the classic pattern has for a plugin.\<close>

definition classic_index :: "string \<Rightarrow> index option" where
  "classic_index name = map_option (\<lambda>(b, n, ix). ix) (List.find (\<lambda>(b, n, ix). n = name) CLASSIC_PATTERN)"

definition indexes_at :: "string \<Rightarrow> pattern_entry list \<Rightarrow> int list" where
  "indexes_at step es = List.map_filter (\<lambda>(b, n, ix). map_of ix step) es"

text \<open>
  The patterns are consistent: in each of them no two plugins have the same index for a step, no
  plugin occurs twice, every index is for one of the five steps, and the plugins the two smaller ones
  share with the classic pattern have its indexes, so they run in its order.
\<close>

lemma patterns_consistent:
  "list_all (\<lambda>es. distinct (map (\<lambda>(b, n, ix). n) es)
      \<and> list_all (\<lambda>step. distinct (indexes_at step es)) STEPS
      \<and> list_all (\<lambda>(b, n, ix). list_all (\<lambda>(k, v). k \<in> set STEPS \<and> 0 \<le> v) ix) es
      \<and> list_all (\<lambda>(b, n, ix). classic_index n \<in> {None, Some ix}) es)
     [CLASSIC_PATTERN, EXPOSE_API_PATTERN, AUTH_WEBAPP_PATTERN]"
proof -
  let ?ok = "\<lambda>es. distinct (map (\<lambda>(b, n, ix). n) es)
      \<and> list_all (\<lambda>step. distinct (indexes_at step es)) STEPS
      \<and> list_all (\<lambda>(b, n, ix). list_all (\<lambda>(k, v). k \<in> set STEPS \<and> 0 \<le> v) ix) es
      \<and> list_all (\<lambda>(b, n, ix). classic_index n \<in> {None, Some ix}) es"
  have "?ok CLASSIC_PATTERN" by code_simp
  moreover have "?ok EXPOSE_API_PATTERN" by code_simp
  moreover have "?ok AUTH_WEBAPP_PATTERN" by code_simp
  ultimately show ?thesis by simp
qed

text \<open>
  Applying a pattern replaces the plugins of the route by the entries of the pattern, one each
  and in order, switched on as the pattern says. An entry whose plugin the palette does not have is
  not dropped: it becomes an entry of the route with no plugin.
\<close>

lemma pattern_entries:
  "map (\<lambda>r. (r_plugin r, obj_get (r_rest r) ''enabled''))
       (rt_plugins (d_route (setNodes camel (map (Some \<circ> pattern_node plugins) es) s)))
   = map (\<lambda>(enabled, name, ix). case findPlugin plugins (plugin_id name) of
        Some p \<Rightarrow> (plugin_name (palette_node p),
          JBool (obj_get (spread [(''enabled'', JBool enabled)] (pl_rest p)) ''enabled'' \<noteq> JBool False))
      | None \<Rightarrow> (None, JBool enabled)) es"
proof -
  let ?ns = "map (pattern_node plugins) es"
  have m: "List.map_filter id (map Some ns) = ns" for ns :: "node list" by (induction ns) (simp_all add: map_filter_simps)
  have rest: "map (\<lambda>n. (plugin_name n, n_rest n)) (batch_nodes camel before (map Some ns)) = map (\<lambda>n. (plugin_name n, n_rest n)) ns"
    for before ns
  proof -
    have e: "(plugin_name n, n_rest n) = (\<lambda>m. (plugin_name m, n_rest m)) (erase n)" for n
      by (simp add: erase_def plugin_name_def)
    have "map (\<lambda>n. (plugin_name n, n_rest n)) (withPluginIndexes camel ns) = map (\<lambda>n. (plugin_name n, n_rest n)) ns"
      using arg_cong [OF withPluginIndexes_erase [of camel ns], of "map (\<lambda>m. (plugin_name m, n_rest m))"]
      by (simp add: comp_def flip: e)
    moreover have "plugin_name (n\<lparr>n_nodeId := i\<rparr>) = plugin_name n" for n i by (simp add: plugin_name_def)
    ultimately show ?thesis by (simp add: batch_nodes_def m comp_def)
  qed
  have "map (\<lambda>r. (r_plugin r, obj_get (r_rest r) ''enabled''))
       (rt_plugins (d_route (setNodes camel (map (Some \<circ> pattern_node plugins) es) s)))
     = map (\<lambda>(i, o'). (i, JBool (obj_get o' ''enabled'' \<noteq> JBool False)))
         (map (\<lambda>n. (plugin_name n, n_rest n)) (batch_nodes camel (d_nodes s) (map Some ?ns)))"
    by (simp add: setNodes_def Let_def with_plugins_def updateRoute_def batch_ref_def status_of_def comp_def)
  also have "\<dots> = map (\<lambda>(i, o'). (i, JBool (obj_get o' ''enabled'' \<noteq> JBool False))) (map (\<lambda>n. (plugin_name n, n_rest n)) ?ns)"
    by (simp only: rest)
  also have "\<dots> = map (\<lambda>(enabled, name, ix). case findPlugin plugins (plugin_id name) of
        Some p \<Rightarrow> (plugin_name (palette_node p),
          JBool (obj_get (spread [(''enabled'', JBool enabled)] (pl_rest p)) ''enabled'' \<noteq> JBool False))
      | None \<Rightarrow> (None, JBool enabled)) es"
    by (auto simp: pattern_node_def plugin_name_def palette_node_def split: option.splits prod.splits)
  finally show ?thesis .
qed

end
