(* ===== verification/Form_Engine.thy ===== *)
theory Form_Engine
  imports Prelude
begin

text \<open>
  The form engine of the console (\<open>components/nginputs/form.js\<close>): a form is drawn from a schema (an
  object of fields), a flow (the fields to draw, and how they are grouped) and a value.

  \<^item> Schemas and flows are JavaScript values; a function in them is an object whose only key is the
    internal slot \<open>[[Call]]\<close>. The entries of a flow are strings, objects or functions.
  \<^item> \<open>form_env\<close> is what the engine relies on: what calling such a function returns, what the
    validation library says of a value, the names of the custom forms and the text of a number.
  \<^item> Drawing a form yields the tree of the steps drawn, each with the path, the schema and the value
    handed to it. What a renderer does with them is left out. The drawing recurses on fuel, as a
    function in a flow may return a flow that holds the function again.
\<close>

section \<open>Functions among the values\<close>

definition fn_name :: "js \<Rightarrow> string option" where
  "fn_name v = (case v of JObj [(k, JStr n)] \<Rightarrow> if k = ''[[Call]]'' then Some n else None | _ \<Rightarrow> None)"

definition isFunction :: "js \<Rightarrow> bool" where
  "isFunction v \<longleftrightarrow> fn_name v \<noteq> None"

definition isAnObject :: "js \<Rightarrow> bool" where
  "isAnObject v \<longleftrightarrow> is_object v \<and> \<not> isFunction v"

record form_env =
  fe_call :: "string \<Rightarrow> js list \<Rightarrow> js res"
  fe_sync :: "js \<Rightarrow> js \<Rightarrow> js option"
  fe_forms :: "string set"
  fe_num :: "rat \<Rightarrow> string"

definition call_fn :: "form_env \<Rightarrow> js \<Rightarrow> js list \<Rightarrow> js res" where
  "call_fn env f args = (case fn_name f of Some n \<Rightarrow> fe_call env n args | None \<Rightarrow> Inl TypeError)"

text \<open>\<open>isFunction(f) ? f(args) : f\<close>.\<close>

definition applied :: "form_env \<Rightarrow> js \<Rightarrow> js list \<Rightarrow> js res" where
  "applied env f args = (if isFunction f then call_fn env f args else Inr f)"

text \<open>
  \<open>idx v k\<close> is \<open>v[k]\<close> where \<open>v\<close> may be an array or a string read by index, and \<open>js_text\<close> the
  conversion of a value to a string, as it is used when a value is a key or is joined.
\<close>

definition idx :: "js \<Rightarrow> string \<Rightarrow> js" where
  "idx v k = obj_get (entries v) k"

definition idx_res :: "js \<Rightarrow> string \<Rightarrow> js res" where
  "idx_res v k = (if nullish v then Inl TypeError else Inr (idx v k))"

fun js_text :: "form_env \<Rightarrow> js \<Rightarrow> string" where
  "js_text env JUndef = ''undefined''"
| "js_text env JNull = ''null''"
| "js_text env (JBool b) = (if b then ''true'' else ''false'')"
| "js_text env (JNum n) = fe_num env n"
| "js_text env (JStr s) = s"
| "js_text env (JArr xs) = join '','' (map (\<lambda>v. if nullish v then [] else js_text env v) xs)"
| "js_text env (JObj fs) = ''[object Object]''"

definition join_js :: "form_env \<Rightarrow> string \<Rightarrow> js list \<Rightarrow> string" where
  "join_js env d xs = join d (map (\<lambda>v. if nullish v then [] else js_text env v) xs)"

section \<open>Renderers\<close>

text \<open>\<open>Component x\<close> is \<open>components.x\<close>; \<open>NoLabel r\<close> wraps \<open>r\<close> with \<open>spread: true\<close>.\<close>

datatype renderer =
    Component string
  | NoLabel renderer
  | SubForm
  | CustomForm
  | Given js
  | RendererNotFound

definition no_label :: string where
  "no_label = ''-no-label''"

text \<open>\<open>type.replace('-no-label', '')\<close>.\<close>

fun drop_first :: "string \<Rightarrow> string \<Rightarrow> string" where
  "drop_first p [] = []"
| "drop_first p (c # s) = (if startsWith (c # s) p then drop (length p) (c # s) else c # drop_first p s)"

definition RENDERERS :: "(string \<times> string) list" where
  "RENDERERS = [(''string'', ''StringRenderer''), (''bool'', ''BooleanRenderer''), (''boolean'', ''BooleanRenderer''),
     (''box-bool'', ''BoxBooleanRenderer''), (''box-boolean'', ''BoxBooleanRenderer''), (''number'', ''NumberRenderer''),
     (''array'', ''ArrayRenderer''), (''object'', ''ObjectRenderer''), (''date'', ''DateRenderer''),
     (''select'', ''SelectRenderer''), (''array-select'', ''ArraySelectRenderer''),
     (''object-select'', ''ObjectSelectRenderer''), (''code'', ''CodeRenderer''), (''any'', ''AnyRenderer''),
     (''json'', ''JsonRenderer''), (''single-line-of-code'', ''SingleCodeLineRenderer''), (''text'', ''TextRenderer''),
     (''hidden'', ''HiddenRenderer''), (''password'', ''PasswordRenderer''), (''dots'', ''DotsRenderer''),
     (''location'', ''LocationRenderer'')]"

lemma drop_first_shorter: "p \<noteq> [] \<Longrightarrow> includes_str s p \<Longrightarrow> length (drop_first p s) < length s"
  by (induction s) auto

lemma includes_append: "includes_str (a @ p @ b) p"
proof (induction a)
  case Nil
  have "startsWith (p @ b) p" by simp
  then show ?case by (cases "p @ b") auto
next
  case (Cons c a)
  then show ?case by simp
qed

lemma endsWith_includes: "endsWith s p \<Longrightarrow> includes_str s p"
  using includes_append [of _ p "[]"] by (auto simp: endsWith_iff_suffix suffix_def)

text \<open>\<open>Helpers.rendererFor\<close>; \<open>forms\<close> are the names of \<open>Forms\<close>, and \<open>None\<close> is \<open>undefined\<close>.\<close>

function rendererFor :: "string set \<Rightarrow> string option \<Rightarrow> renderer" where
  "rendererFor forms None = RendererNotFound"
| "rendererFor forms (Some type) =
     (if endsWith type no_label then NoLabel (rendererFor forms (Some (drop_first no_label type)))
      else case map_of RENDERERS type of
        Some c \<Rightarrow> Component c
      | None \<Rightarrow> if type = ''form'' then SubForm
                else if type \<in> forms then CustomForm else RendererNotFound)"
  by pat_completeness auto
termination
  by (relation "measure (\<lambda>(forms, t). case t of Some t \<Rightarrow> length t | None \<Rightarrow> 0)")
    (auto simp: no_label_def intro!: drop_first_shorter endsWith_includes)

text \<open>The type of a schema is read by \<open>type?.endsWith\<close>, so it has to be a string if it is there.\<close>

definition rendererFor_js :: "form_env \<Rightarrow> js \<Rightarrow> renderer res" where
  "rendererFor_js env v =
     (case v of JStr s \<Rightarrow> Inr (rendererFor (fe_forms env) (Some s))
      | _ \<Rightarrow> if nullish v then Inr (rendererFor (fe_forms env) None) else Inl TypeError)"

section \<open>Reading and writing the value of a step\<close>

fun newValueFrom :: "js \<Rightarrow> string list \<Rightarrow> js \<Rightarrow> js res" where
  "newValueFrom v [] x = Inl TypeError"
| "newValueFrom v [p] x = Inr (JObj (AList.update p x (entries v)))"
| "newValueFrom v (p # q # ps) x =
     rbind (idx_res v p) (\<lambda>sub. rbind (newValueFrom sub (q # ps) x) (\<lambda>y.
       Inr (JObj (AList.update p y (entries v)))))"

definition path_step :: "js \<Rightarrow> string \<Rightarrow> js" where
  "path_step acc p =
     (if truthy acc then js_or (idx acc p) (idx (js_or (idx acc ''schema'') (JObj [])) p) else JObj [])"

text \<open>The path of a name: \<open>name.includes('.') ? name.split('.') : [name]\<close>.\<close>

definition name_path :: "string \<Rightarrow> string list" where
  "name_path name = (if CHR ''.'' \<in> set name then split_on CHR ''.'' name else [name])"

definition extractValue :: "js \<Rightarrow> string \<Rightarrow> js" where
  "extractValue v name =
     (if truthy v
      then if CHR ''.'' \<in> set name then foldl path_step v (split_on CHR ''.'' name) else idx v name
      else JNull)"

text \<open>The schema of a step; an absent field of a schema without \<open>schema\<close> is \<open>{}\<close>.\<close>

definition schema_step :: "js res \<Rightarrow> string \<Rightarrow> js res" where
  "schema_step acc p = rbind acc (\<lambda>acc. rbind (idx_res acc p) (\<lambda>v.
     Inr (if truthy v then v
          else if truthy (idx acc ''schema'') then idx (idx acc ''schema'') p else JObj [])))"

definition stepSchema :: "js \<Rightarrow> string list \<Rightarrow> js res" where
  "stepSchema schema paths = foldl schema_step (Inr schema) paths"

section \<open>The schema handed to a step\<close>

definition possible :: "(string \<times> string) list" where
  "possible = [(''select'', ''select''), (''code'', ''code''), (''singleLineCode'', ''single-line-of-code''),
     (''markdown'', ''code''), (''text'', ''text''), (''hidden'', ''hidden''), (''password'', ''password''), (''form'', ''form'')]"

definition FORMATTED :: "string list" where
  "FORMATTED = [''array'', ''format'', ''createOption'', ''isMulti'', ''defaultKeyValue'', ''label'', ''placeholder'',
     ''defaultValue'', ''help'', ''className'', ''style'', ''render'', ''itemRenderer'', ''customRenderer'',
     ''conditionalSchema'', ''props'']"

text \<open>
  A converted schema; \<open>cv_itemRenderer\<close> is the renderer of the items the conversion chose, which
  stands before the \<open>itemRenderer\<close> of the schema.
\<close>

record converted =
  cv_schema :: js
  cv_itemRenderer :: "renderer option"

definition format_renderer :: "form_env \<Rightarrow> js \<Rightarrow> js" where
  "format_renderer env format =
     (case map_of possible (js_text env format) of Some r \<Rightarrow> JStr r | None \<Rightarrow> JNull)"

definition item_renderer :: "form_env \<Rightarrow> js \<Rightarrow> renderer option res" where
  "item_renderer env s =
     (if truthy (jprop s ''array'') \<and> jprop s ''format'' = JStr ''form''
      then rbind (rendererFor_js env (format_renderer env (jprop s ''format''))) (\<lambda>r. Inr (Some r))
      else if truthy (jprop s ''array'') \<and> jprop s ''type'' \<noteq> JStr ''array''
      then rbind (rendererFor_js env (jprop s ''type'')) (\<lambda>r. Inr (Some r))
      else Inr None)"

definition convertSchema :: "form_env \<Rightarrow> js \<Rightarrow> converted res" where
  "convertSchema env s =
     (if \<exists>k \<in> set FORMATTED. truthy (jprop s k)
      then rbind (item_renderer env s) (\<lambda>item.
           let array = truthy (jprop s ''array''); type = jprop s ''type''
           in Inr \<lparr>cv_schema = JObj
                 [(''type'', if array then JStr ''array'' else if jprop s ''format'' = JStr ''form'' then JStr ''form'' else type),
                  (''of'', if array then type else js_or (jprop s ''of'') JNull),
                  (''constraints'', jprop s ''constraints''), (''visible'', jprop s ''visible''),
                  (''renderer'', if array then JNull else format_renderer env (jprop s ''format'')),
                  (''schema'', jprop s ''schema''), (''flow'', jprop s ''flow''),
                  (''collapsable'', jprop s ''collapsable''), (''collapsed'', jprop s ''collapsed''),
                  (''label'', jprop s ''label''), (''itemRenderer'', jprop s ''itemRenderer''),
                  (''customRenderer'', jprop s ''customRenderer''),
                  (''props'', JObj (spread (entries (jprop s ''props''))
                     [(''label'', jprop s ''label''), (''placeholder'', jprop s ''placeholder''),
                      (''help'', jprop s ''help''), (''disabled'', jprop s ''disabled'')]))],
               cv_itemRenderer = item\<rparr>)
      else Inr \<lparr>cv_schema = s, cv_itemRenderer = None\<rparr>)"

text \<open>\<open>NgStep.renderer\<close>.\<close>

definition step_renderer :: "form_env \<Rightarrow> js \<Rightarrow> renderer res" where
  "step_renderer env s =
     (if truthy (jprop s ''component'') then Inr (Given (jprop s ''component''))
      else if truthy (jprop s ''customRenderer'') then Inr (Given (jprop s ''customRenderer''))
      else if truthy (jprop s ''renderer'')
      then (if is_string (jprop s ''renderer'') then rendererFor_js env (jprop s ''renderer'')
            else Inr (Given (jprop s ''renderer'')))
      else rendererFor_js env (jprop s ''type''))"

section \<open>The flow of a form\<close>

record flow_fields =
  fl_fields :: js
  fl_full :: js

fun recursiveSearch :: "string list \<Rightarrow> js \<Rightarrow> js" where
  "recursiveSearch [] v = v"
| "recursiveSearch (p # ps) v = recursiveSearch ps (idx (js_or v (JObj [])) p)"

definition is_empty :: "js \<Rightarrow> bool" where
  "is_empty v \<longleftrightarrow> v = JArr [] \<or> v = JStr [] \<or> jprop v ''length'' = JNum 0"

definition getFlow :: "form_env \<Rightarrow> js \<Rightarrow> js \<Rightarrow> js \<Rightarrow> js \<Rightarrow> js \<Rightarrow> flow_fields res" where
  "getFlow env flow rootValue props value schema =
     (if isFunction flow
      then rbind (call_fn env flow [value, props]) (\<lambda>fs. Inr \<lparr>fl_fields = fs, fl_full = JUndef\<rparr>)
      else if isAnObject flow \<and> truthy (jprop flow ''otoroshi_flow'') \<and> truthy (jprop flow ''otoroshi_full_flow'')
      then Inr \<lparr>fl_fields = jprop flow ''otoroshi_flow'', fl_full = jprop flow ''otoroshi_full_flow''\<rparr>
      else if isAnObject flow \<and> truthy (jprop flow ''field'') \<and> truthy (jprop flow ''flow'')
      then (case jprop flow ''field'' of
              JStr f \<Rightarrow>
                let branch = (\<lambda>v. idx (jprop flow ''flow'')
                      (js_text env (recursiveSearch (split_on CHR ''.'' f) (js_or v (JObj [])))));
                    chosen = js_or (branch value) (branch rootValue)
                in Inr \<lparr>fl_fields = (if truthy chosen then chosen
                      else case entries (jprop flow ''flow'') of (k, v) # _ \<Rightarrow> v | [] \<Rightarrow> JUndef),
                    fl_full = JUndef\<rparr>
            | _ \<Rightarrow> Inl TypeError)
      else if \<not> truthy flow \<or> is_empty flow
      then Inr \<lparr>fl_fields = JArr (map (JStr \<circ> fst) (entries schema)), fl_full = JUndef\<rparr>
      else Inr \<lparr>fl_fields = flow, fl_full = JUndef\<rparr>)"

section \<open>Drawing\<close>

record form_config =
  cf_schema :: js
  cf_value :: js
  cf_root :: bool
  cf_path :: "js list"
  cf_breadcrumb :: "js list option"
  cf_useBreadcrumb :: bool
  cf_readOnly :: bool
  cf_parent :: js

record form_step =
  fs_name :: string
  fs_path :: "js list"
  fs_schema :: converted
  fs_value :: js
  fs_renderer :: renderer
  fs_readOnly :: bool

datatype drawn =
    Step form_step
  | Group "js list" js bool bool "drawn list" bool
  | Grid js "drawn list"
  | Custom js js
  | StepNotFound js
  | FlowNotFound js
  | Nothing

text \<open>
  What a function in a flow sees of the configuration (the components and the validation, which it
  is handed too, are not data).
\<close>

definition config_js :: "form_config \<Rightarrow> js" where
  "config_js c = JObj
     [(''schema'', cf_schema c), (''value'', cf_value c), (''root'', JBool (cf_root c)),
      (''path'', JArr (cf_path c)),
      (''breadcrumb'', case cf_breadcrumb c of None \<Rightarrow> JUndef | Some b \<Rightarrow> JArr b),
      (''useBreadcrumb'', JBool (cf_useBreadcrumb c)), (''readOnly'', JBool (cf_readOnly c)),
      (''parent'', cf_parent c)]"

text \<open>\<open>visible\<close>: a function of the value, a value, or absent.\<close>

definition shown :: "form_env \<Rightarrow> js \<Rightarrow> js \<Rightarrow> bool res" where
  "shown env visible value =
     (if isFunction visible then rbind (call_fn env visible [value]) (\<lambda>r. Inr (truthy r))
      else Inr (visible = JUndef \<or> truthy visible))"

definition crumb :: "form_env \<Rightarrow> js list \<Rightarrow> string" where
  "crumb env p = toLowerCase (join_js env ''-'' p)"

definition match :: "form_env \<Rightarrow> js list \<Rightarrow> js list \<Rightarrow> bool" where
  "match env test breadcrumb \<longleftrightarrow>
     startsWith (crumb env test) (crumb env breadcrumb) \<or> startsWith (crumb env breadcrumb) (crumb env test)"

subsection \<open>A step\<close>

text \<open>\<open>'visible' in stepSchema\<close>, which throws on a value that is neither an object nor an array.\<close>

definition step_shown :: "form_env \<Rightarrow> js \<Rightarrow> js \<Rightarrow> bool res" where
  "step_shown env s value =
     (if \<not> is_object s \<and> \<not> is_array s then Inl TypeError
      else if obj_has (entries s) ''visible''
      then (if isFunction (jprop s ''visible'')
            then rbind (call_fn env (jprop s ''visible'') [value]) (\<lambda>r. Inr (truthy r))
            else Inr (truthy (jprop s ''visible'')))
      else Inr True)"

definition step_path :: "form_config \<Rightarrow> string list \<Rightarrow> js list" where
  "step_path c paths = (if cf_root c then map JStr paths else cf_path c @ map JStr paths)"

definition core_path :: "form_config \<Rightarrow> string list \<Rightarrow> js list" where
  "core_path c paths =
     (if truthy (cf_parent c) \<and> \<not> cf_root c then cf_path c @ [cf_parent c] @ map JStr paths
      else step_path c paths)"

definition off_breadcrumb :: "form_env \<Rightarrow> form_config \<Rightarrow> string list \<Rightarrow> bool" where
  "off_breadcrumb env c paths =
     (case cf_breadcrumb c of None \<Rightarrow> False
      | Some b \<Rightarrow> \<not> match env (step_path c paths) b \<and> \<not> match env (core_path c paths) b)"

definition draw_step :: "form_env \<Rightarrow> string \<Rightarrow> js \<Rightarrow> form_config \<Rightarrow> drawn res" where
  "draw_step env name s c =
     rbind (convertSchema env s) (\<lambda>converted.
     rbind (step_renderer env (cv_schema converted)) (\<lambda>r.
       Inr (Step \<lparr>fs_name = name, fs_path = step_path c (name_path name), fs_schema = converted,
                   fs_value = extractValue (cf_value c) name, fs_renderer = r, fs_readOnly = cf_readOnly c\<rparr>)))"

definition renderInlineStepFlow :: "form_env \<Rightarrow> js \<Rightarrow> form_config \<Rightarrow> drawn res" where
  "renderInlineStepFlow env name c =
     (case name of
        JStr nm \<Rightarrow>
          rbind (stepSchema (cf_schema c) (name_path nm)) (\<lambda>s.
            if truthy s
            then rbind (step_shown env s (cf_value c)) (\<lambda>visible.
                   if \<not> visible \<or> off_breadcrumb env c (name_path nm) then Inr Nothing
                   else draw_step env nm s c)
            else Inr (StepNotFound name))
      | _ \<Rightarrow> Inl TypeError)"

subsection \<open>Composed flows\<close>

text \<open>What \<open>map\<close> runs over, and what a spread lists.\<close>

definition elements :: "js \<Rightarrow> js list res" where
  "elements v = (case v of JArr xs \<Rightarrow> Inr xs | _ \<Rightarrow> Inl TypeError)"

definition iterated :: "js \<Rightarrow> js list res" where
  "iterated v = (case v of JArr xs \<Rightarrow> Inr xs | JStr s \<Rightarrow> Inr (map (\<lambda>c. JStr [c]) s) | _ \<Rightarrow> Inl TypeError)"

definition has_more :: "js \<Rightarrow> bool" where
  "has_more v \<longleftrightarrow> (case v of JArr xs \<Rightarrow> xs \<noteq> [] | JStr s \<Rightarrow> s \<noteq> []
     | _ \<Rightarrow> (case jprop v ''length'' of JNum n \<Rightarrow> n > 0 | _ \<Rightarrow> False))"

definition default_js :: "js \<Rightarrow> js \<Rightarrow> js" where
  "default_js v d = (if v = JUndef then d else v)"

text \<open>
  \<open>SubFlow\<close>: the entries to draw, and whether the button for the advanced settings is there. When
  the fields are an object, \<open>fields\<close> is assigned before \<open>full_fields\<close> is read from it.
\<close>

definition sub_fields :: "js \<Rightarrow> js \<Rightarrow> (js \<times> js) res" where
  "sub_fields fs full =
     (if isAnObject fs
      then rbind (idx_res (jprop fs ''otoroshi_flow'') ''otoroshi_full_flow'') (\<lambda>full'.
             Inr (jprop fs ''otoroshi_flow'', full'))
      else Inr (fs, full))"

definition on_breadcrumb :: "form_env \<Rightarrow> form_config \<Rightarrow> bool" where
  "on_breadcrumb env c =
     (case cf_breadcrumb c of None \<Rightarrow> True | Some b \<Rightarrow> crumb env (cf_path c) = crumb env b)"

definition SubFlow :: "form_env \<Rightarrow> js \<Rightarrow> js \<Rightarrow> bool \<Rightarrow> form_config \<Rightarrow> (js list \<times> bool) res" where
  "SubFlow env fs full moreFields c =
     rbind (sub_fields (default_js fs (JArr [])) (default_js full (JArr []))) (\<lambda>(fs, full).
     rbind (applied env fs [config_js c]) (\<lambda>processedFields.
     rbind (applied env full [config_js c]) (\<lambda>processedAllFields.
       let hasMoreFields = has_more processedAllFields in
       if cf_readOnly c
       then (if hasMoreFields then rbind (elements processedAllFields) (\<lambda>xs. Inr (xs, False))
             else rbind (iterated processedFields) (\<lambda>xs. rbind (iterated processedAllFields) (\<lambda>ys.
                    Inr (xs @ ys, False))))
       else rbind (if moreFields then Inr [] else elements processedFields) (\<lambda>xs.
            rbind (if hasMoreFields \<and> moreFields then elements processedAllFields else Inr []) (\<lambda>ys.
              Inr (xs @ ys, hasMoreFields \<and> \<not> moreFields \<and> on_breadcrumb env c))))))"

definition group_path :: "form_config \<Rightarrow> js \<Rightarrow> js list" where
  "group_path c part =
     map (\<lambda>n. if isFunction n then JStr [] else n)
       (filter truthy (if cf_root c then [part] else cf_path c @ [if isFunction part then JUndef else part]))"

definition last_or_undefined :: "js list \<Rightarrow> js" where
  "last_or_undefined xs = (if xs = [] then JUndef else List.last xs)"

definition group_config :: "form_config \<Rightarrow> js list \<Rightarrow> form_config" where
  "group_config c fullPath = c\<lparr>cf_root := False, cf_parent := last_or_undefined fullPath\<rparr>"

text \<open>
  The drawing of one entry of a flow. \<open>adv\<close> says which of the sub-flows, by path, show their
  advanced settings.
\<close>

type_synonym draw = "js \<Rightarrow> form_config \<Rightarrow> drawn res"

definition renderGroupFlow :: "form_env \<Rightarrow> (js list \<Rightarrow> bool) \<Rightarrow> draw \<Rightarrow> draw" where
  "renderGroupFlow env adv draw g c =
     rbind (shown env (jprop g ''visible'') (cf_value c)) (\<lambda>show.
       if \<not> show then Inr Nothing
       else let fullPath = group_path c (js_or (jprop g ''groupId'') (jprop g ''name''));
                c' = group_config c fullPath
            in rbind (applied env (jprop g ''name'') [config_js c]) (\<lambda>label.
               rbind (SubFlow env (jprop g ''fields'') (jprop g ''full_fields'') (adv fullPath) c') (\<lambda>(flds, button).
               rbind (rmap (\<lambda>f. draw f c') flds) (\<lambda>children.
                 Inr (Group fullPath label
                        (\<not> cf_readOnly c \<and> truthy (default_js (jprop g ''collapsable'') (JBool True)))
                        (\<not> cf_readOnly c \<and> truthy (default_js (jprop g ''collapsed'') (JBool False)))
                        children button)))))"

definition renderGridFlow :: "form_env \<Rightarrow> draw \<Rightarrow> draw" where
  "renderGridFlow env draw g c =
     rbind (applied env (jprop g ''name'') [config_js c]) (\<lambda>label.
     rbind (shown env (jprop g ''visible'') (cf_value c)) (\<lambda>show.
       if \<not> show then Inr Nothing
       else rbind (elements (jprop g ''fields'')) (\<lambda>flds.
            rbind (rmap (\<lambda>f. draw f c) flds) (\<lambda>children. Inr (Grid label children)))))"

fun renderStepFlow :: "form_env \<Rightarrow> (js list \<Rightarrow> bool) \<Rightarrow> nat \<Rightarrow> draw" where
  "renderStepFlow env adv 0 name c = Inl StackOverflow"
| "renderStepFlow env adv (Suc n) name c =
     (if isAnObject name
      then if jprop name ''type'' = JStr ''grid'' then renderGridFlow env (renderStepFlow env adv n) name c
           else if jprop name ''type'' = JStr ''group'' then renderGroupFlow env adv (renderStepFlow env adv n) name c
           else if jprop name ''type'' = JStr ''custom''
           then (if isFunction (jprop name ''renderer'') then Inr (Custom (jprop name ''name'') (jprop name ''fields''))
                 else Inl TypeError)
           else Inr (FlowNotFound (jprop name ''type''))
      else renderInlineStepFlow env name c)"

text \<open>\<open>NgForm.render\<close>, from the properties the form gets; \<open>None\<close> is a form without its fields.\<close>

record form_props =
  fp_value :: js
  fp_schema :: js
  fp_flow :: js
  fp_rootValue :: js
  fp_embedded :: bool
  fp_path :: "js list"
  fp_breadcrumb :: "js list option"
  fp_useBreadcrumb :: bool
  fp_readOnly :: bool
  fp_all :: js

definition getValue :: "form_env \<Rightarrow> js \<Rightarrow> js res" where
  "getValue env v = (if truthy v then applied env v [] else Inr JNull)"

definition form_config_of :: "form_props \<Rightarrow> js \<Rightarrow> js \<Rightarrow> form_config" where
  "form_config_of p schema value =
     \<lparr>cf_schema = schema, cf_value = value, cf_root = \<not> fp_embedded p, cf_path = fp_path p,
      cf_breadcrumb = fp_breadcrumb p, cf_useBreadcrumb = fp_useBreadcrumb p,
      cf_readOnly = fp_readOnly p, cf_parent = JUndef\<rparr>"

definition render_form :: "form_env \<Rightarrow> (js list \<Rightarrow> bool) \<Rightarrow> nat \<Rightarrow> form_props \<Rightarrow> (drawn list \<times> bool) option res" where
  "render_form env adv n p =
     rbind (getValue env (fp_value p)) (\<lambda>value.
     rbind (applied env (fp_schema p) [value]) (\<lambda>s.
     rbind (getFlow env (fp_flow p) (fp_rootValue p) (fp_all p) value (js_or s (JObj []))) (\<lambda>fl.
       let c = form_config_of p (js_or s (JObj [])) value in
       if \<not> truthy (fl_fields fl) then Inr None
       else rbind (SubFlow env (fl_fields fl) (fl_full fl) (adv (fp_path p)) c) (\<lambda>(flds, button).
            rbind (rmap (\<lambda>f. renderStepFlow env adv n f c) flds) (\<lambda>ds. Inr (Some (ds, button)))))))"

section \<open>Editing a step\<close>

record report =
  rp_valid :: bool
  rp_errors :: "js list"

definition no_errors :: report where
  "no_errors = \<lparr>rp_valid = True, rp_errors = []\<rparr>"

text \<open>
  \<open>NgStep.validate\<close>. The library \<open>yup\<close> is used but never imported; the mention of it throws.
\<close>

definition mentions_yup :: "js \<Rightarrow> bool" where
  "mentions_yup s \<longleftrightarrow> (truthy (jprop s ''typechecks'') \<or> truthy (jprop s ''required'')) \<and>
     jprop s ''type'' \<in> {JStr ''string'', JStr ''number'', JStr ''bool'', JStr ''boolean''}"

definition run_validator :: "form_env \<Rightarrow> js \<Rightarrow> report res \<Rightarrow> js \<Rightarrow> report res" where
  "run_validator env value acc validator =
     rbind acc (\<lambda>res. rbind (idx_res validator ''validateSync'') (\<lambda>sync.
       if truthy sync
       then (case fe_sync env validator value of None \<Rightarrow> Inr res
             | Some m \<Rightarrow> Inr \<lparr>rp_valid = False, rp_errors = rp_errors res @ [m]\<rparr>)
       else if isFunction validator
       then rbind (call_fn env validator [value]) (\<lambda>r.
            rbind (idx_res r ''valid'') (\<lambda>valid.
            rbind (iterated (idx r ''errors'')) (\<lambda>errors.
              Inr \<lparr>rp_valid = rp_valid res \<and> truthy valid, rp_errors = rp_errors res @ errors\<rparr>)))
       else Inr res))"

definition validate :: "form_env \<Rightarrow> js \<Rightarrow> js \<Rightarrow> report res" where
  "validate env s value =
     (if mentions_yup s then Inl ReferenceError
      else if truthy (jprop s ''constraints'') \<and> has_more (jprop s ''constraints'')
      then rbind (elements (jprop s ''constraints'')) (\<lambda>cs. foldl (run_validator env value) (Inr no_errors) cs)
      else Inr no_errors)"

text \<open>\<open>NgStep.handleValidation\<close>, and the report it hands to the form.\<close>

definition handleValidation :: "form_env \<Rightarrow> js \<Rightarrow> js \<Rightarrow> report option res" where
  "handleValidation env s value =
     (if truthy (jprop s ''constraints'') \<and> has_more (jprop s ''constraints'')
      then rbind (validate env s value) (\<lambda>r. Inr (Some r)) else Inr None)"

text \<open>
  \<open>NgStep.onChange\<close> with the handler the form gave it: the report, if there is one, and the value
  of the form handed to \<open>rootOnChange\<close>.
\<close>

definition onChange :: "form_env \<Rightarrow> js \<Rightarrow> form_step \<Rightarrow> js \<Rightarrow> (report option \<times> js) res" where
  "onChange env form_value st e =
     rbind (handleValidation env (cv_schema (fs_schema st)) e) (\<lambda>r.
     rbind (newValueFrom form_value (name_path (fs_name st)) e) (\<lambda>v. Inr (r, v)))"

end
