(* ===== verification/Form_Facts.thy ===== *)
theory Form_Facts
  imports Form_Engine
begin

text \<open>
  What holds of the form engine (\<open>Form_Engine\<close>): reading back an edit and leaving the other fields
  alone, when an edit throws, which steps a flow draws, and how the breadcrumb and the checks of a
  step behave.
\<close>

section \<open>Editing\<close>

lemma in_obj_get: "keys_ok fs \<Longrightarrow> e \<in> set fs \<Longrightarrow> obj_get fs (fst e) = snd e"
proof -
  assume "keys_ok fs" "e \<in> set fs"
  then have "map_of fs (fst e) = Some (snd e)"
    by (intro map_of_is_SomeI) (auto simp: keys_ok_def)
  then show "obj_get fs (fst e) = snd e" by (simp add: obj_get_def)
qed

lemma idx_JObj [simp]: "idx (JObj fs) k = obj_get fs k"
  by (simp add: idx_def)

lemma idx_res_JObj [simp]: "idx_res (JObj fs) k = Inr (obj_get fs k)"
  by (simp add: idx_res_def nullish_def)

lemma path_step_JObj:
  "truthy (obj_get fs p) \<Longrightarrow> path_step (JObj fs) p = obj_get fs p"
  by (simp add: path_step_def js_or_def)

lemma newValueFrom_object: "newValueFrom v ps x = Inr v' \<Longrightarrow> is_object v'"
  by (induction v ps x arbitrary: v' rule: newValueFrom.induct) (auto simp: is_object_def)

lemma object_truthy: "is_object v \<Longrightarrow> truthy v"
  by (cases v) (auto simp: is_object_def)

lemma newValueFrom_path_step:
  "newValueFrom v ps x = Inr v' \<Longrightarrow> truthy x \<Longrightarrow> foldl path_step v' ps = x"
proof (induction v ps x arbitrary: v' rule: newValueFrom.induct)
  case (2 v p x)
  then show ?case by (auto simp: path_step_JObj)
next
  case (3 v p q ps x)
  then obtain sub y where y: "newValueFrom sub (q # ps) x = Inr y" and sub: "idx_res v p = Inr sub"
    and v': "v' = JObj (AList.update p y (entries v))"
    by auto
  have "path_step v' p = y"
    using object_truthy [OF newValueFrom_object [OF y]] by (simp add: v' path_step_JObj)
  with 3(1) [OF y] 3(3) show ?case by simp
qed simp

lemma name_path_nonempty [simp]: "name_path name \<noteq> []"
  by (simp add: name_path_def)

lemma newValueFrom_head:
  assumes "newValueFrom v ps x = Inr v'"
  obtains y where "v' = JObj (AList.update (hd ps) y (entries v))"
  using assms that by (cases "(v, ps, x)" rule: newValueFrom.cases) auto

lemma foldl_path_step_cong:
  "ps \<noteq> [] \<Longrightarrow> path_step v (hd ps) = path_step w (hd ps) \<Longrightarrow> foldl path_step v ps = foldl path_step w ps"
  by (cases ps) auto

text \<open>
  C3. A field reads back what an edit that did not throw put into it, when the value is truthy or the name has no dot. (A dotted
  field does not read a falsy value back: the read falls back to the schema of the object around it.)
\<close>

theorem form_edit_read_back:
  assumes "newValueFrom v (name_path name) x = Inr v'" and "truthy x \<or> CHR ''.'' \<notin> set name"
  shows "extractValue v' name = x"
proof (cases "CHR ''.'' \<in> set name")
  case True
  with assms newValueFrom_path_step [OF assms(1)] object_truthy [OF newValueFrom_object [OF assms(1)]]
  show ?thesis by (simp add: extractValue_def name_path_def)
next
  case False
  with assms show ?thesis by (auto simp: extractValue_def name_path_def)
qed

theorem form_edit_read_back_witness:
  "newValueFrom (JObj [(''a'', JObj [(''b'', JNum 1)])]) (name_path ''a.b'') (JNum 2)
     = Inr (JObj [(''a'', JObj [(''b'', JNum 2)])])
   \<and> extractValue (JObj [(''a'', JObj [(''b'', JNum 2)])]) ''a.b'' = JNum 2"
  using form_edit_read_back [of "JObj [(''a'', JObj [(''b'', JNum 1)])]" "''a.b''" "JNum 2" "JObj [(''a'', JObj [(''b'', JNum 2)])]"]
  by (simp add: name_path_def)

text \<open>
  An edit leaves the fields of the other names alone, when it is not under \<open>schema\<close>, the key the
  reads fall back to.
\<close>

lemma form_edit_frame:
  assumes "newValueFrom v (name_path name) x = Inr v'" and "truthy v"
    and "hd (name_path other) \<noteq> hd (name_path name)" and "hd (name_path name) \<noteq> ''schema''"
  shows "extractValue v' other = extractValue v other"
proof -
  obtain y where v': "v' = JObj (AList.update (hd (name_path name)) y (entries v))"
    by (rule newValueFrom_head [OF assms(1)])
  have read: "idx v' k = idx v k" if "k \<noteq> hd (name_path name)" for k
    using that by (simp add: v' idx_def)
  have truthy: "truthy v'" by (simp add: v')
  show ?thesis
  proof (cases "CHR ''.'' \<in> set other")
    case True
    then have "name_path other = split_on CHR ''.'' other" by (simp add: name_path_def)
    with assms(3) have hd: "hd (split_on CHR ''.'' other) \<noteq> hd (name_path name)" by simp
    have "path_step v' (hd (split_on CHR ''.'' other)) = path_step v (hd (split_on CHR ''.'' other))"
      using truthy assms(2) by (simp add: path_step_def read [OF hd] read [OF assms(4) [symmetric]])
    then have "foldl path_step v' (split_on CHR ''.'' other) = foldl path_step v (split_on CHR ''.'' other)"
      by (rule foldl_path_step_cong [OF split_on_nonempty])
    with True truthy assms(2) show ?thesis by (simp add: extractValue_def)
  next
    case False
    with assms(3) have "idx v' other = idx v other" by (intro read) (simp add: name_path_def)
    with False truthy assms(2) show ?thesis by (simp add: extractValue_def)
  qed
qed

lemma form_edit_frame_witness:
  "newValueFrom (JObj [(''a'', JNum 1), (''b'', JNum 3)]) (name_path ''a'') (JNum 2)
     = Inr (JObj [(''a'', JNum 2), (''b'', JNum 3)])
   \<and> extractValue (JObj [(''a'', JNum 2), (''b'', JNum 3)]) ''b'' = JNum 3"
  using form_edit_frame [of "JObj [(''a'', JNum 1), (''b'', JNum 3)]" "''a''" "JNum 2" "JObj [(''a'', JNum 2), (''b'', JNum 3)]" "''b''"]
  by (simp add: name_path_def extractValue_def)

text \<open>
  C36. An edit throws exactly when something above the parent of the field is \<open>undefined\<close> or \<open>null\<close>, the value of the form
  included: a parent that is absent is created, and the edit of a name without a dot never throws.
\<close>

theorem form_edit_throws_iff:
  "newValueFrom v (name_path name) x = Inl TypeError \<longleftrightarrow>
     (\<exists>i < length (name_path name) - 1. nullish (foldl idx v (take i (name_path name))))"
proof -
  have "ps \<noteq> [] \<Longrightarrow> newValueFrom v ps x = Inl TypeError \<longleftrightarrow>
      (\<exists>i < length ps - 1. nullish (foldl idx v (take i ps)))" for ps
  proof (induction v ps x rule: newValueFrom.induct)
    case (3 v p q ps x)
    show ?case
    proof (cases "nullish v")
      case True
      then show ?thesis by (auto simp: idx_res_def intro!: exI [of _ 0])
    next
      case False
      have "newValueFrom v (p # q # ps) x = Inl TypeError \<longleftrightarrow>
          newValueFrom (idx v p) (q # ps) x = Inl TypeError"
        using False by (simp add: idx_res_def rbind_eq_Inl)
      also have "\<dots> \<longleftrightarrow> (\<exists>i < length ps. nullish (foldl idx (idx v p) (take i (q # ps))))"
        using 3 False by (simp add: idx_res_def)
      also have "\<dots> \<longleftrightarrow> (\<exists>i < length ps. nullish (foldl idx v (take (Suc i) (p # q # ps))))"
        by simp
      also have "\<dots> \<longleftrightarrow> (\<exists>i < Suc (length ps). nullish (foldl idx v (take i (p # q # ps))))"
        using False by (auto simp: less_Suc_eq_0_disj)
      finally show ?thesis by simp
    qed
  qed auto
  then show ?thesis by simp
qed

section \<open>Which steps are drawn\<close>

text \<open>
  Drawing keeps its answer when it gets more fuel, and a flow without functions among its fields
  needs no more fuel than its size.
\<close>

lemma le_res_rmap [fuel_intros]:
  "(\<And>x. le_res (f x) (g x)) \<Longrightarrow> le_res (rmap f xs) (rmap g xs)"
  by (induction xs) (auto intro!: fuel_intros)

lemma ran_rmap: "(\<And>x. x \<in> set xs \<Longrightarrow> ran (f x)) \<Longrightarrow> ran (rmap f xs)"
  by (induction xs) (auto intro!: fuel_intros)

lemma renderGroupFlow_mono [fuel_intros]:
  "(\<And>f c. le_res (d f c) (d' f c)) \<Longrightarrow> le_res (renderGroupFlow env adv d g c) (renderGroupFlow env adv d' g c)"
  unfolding renderGroupFlow_def Let_def
  by (intro fuel_intros) (auto split: prod.splits intro!: fuel_intros)

lemma renderGridFlow_mono [fuel_intros]:
  "(\<And>f c. le_res (d f c) (d' f c)) \<Longrightarrow> le_res (renderGridFlow env d g c) (renderGridFlow env d' g c)"
  unfolding renderGridFlow_def by (intro fuel_intros) (auto intro!: fuel_intros)

lemma renderStepFlow_mono: "le_res (renderStepFlow env adv n f c) (renderStepFlow env adv (Suc n) f c)"
proof (induction n arbitrary: f c)
  case 0
  show ?case by (simp add: le_res_def)
next
  case (Suc n)
  then show ?case
    unfolding renderStepFlow.simps(2) [of env adv "Suc n"] renderStepFlow.simps(2) [of env adv n]
    by (auto intro!: fuel_intros)
qed

definition draw_run :: "form_env \<Rightarrow> (js list \<Rightarrow> bool) \<Rightarrow> nat \<Rightarrow> js \<times> form_config \<Rightarrow> drawn res" where
  "draw_run env adv n fc = renderStepFlow env adv n (fst fc) (snd fc)"

interpretation drawing: fueled "draw_run env adv" for env adv
proof
  fix n and x :: "js \<times> form_config"
  assume "draw_run env adv n x \<noteq> Inl StackOverflow"
  with renderStepFlow_mono [of env adv n "fst x" "snd x"]
  show "draw_run env adv (Suc n) x = draw_run env adv n x" by (auto simp: draw_run_def le_res_def)
qed

definition FLOW_KEYS :: "string set" where
  "FLOW_KEYS = {''fields'', ''full_fields'', ''otoroshi_flow'', ''otoroshi_full_flow''}"

fun static_flow :: "js \<Rightarrow> bool" where
  "static_flow (JArr xs) = (\<forall>x \<in> set xs. static_flow x)"
| "static_flow (JObj fs) = (\<forall>e \<in> set fs. fst e \<in> FLOW_KEYS \<longrightarrow> \<not> isFunction (snd e) \<and> static_flow (snd e))"
| "static_flow v = True"

lemma elements_smaller: "elements v = Inr xs \<Longrightarrow> x \<in> set xs \<Longrightarrow> size x < size v \<and> (static_flow v \<longrightarrow> static_flow x)"
  by (auto simp: elements_def size_list_estimation' less_Suc_eq_le split: js.splits)

lemma jprop_smaller:
  "jprop v k \<noteq> JUndef \<Longrightarrow> size (jprop v k) < size v"
proof -
  assume "jprop v k \<noteq> JUndef"
  then obtain fs x where v: "v = JObj fs" and fs: "map_of fs k = Some x"
    by (cases v) (auto simp: jprop_def obj_get_def split: option.splits)
  from fs have "(k, x) \<in> set fs" by (rule map_of_SomeD)
  then have "size x < size v"
    using size_list_estimation' [of "(k, x)" fs "size x" "size_prod (\<lambda>_. 0) size"] by (simp add: v)
  with v fs show ?thesis by (simp add: obj_get_def)
qed

lemma jprop_static:
  assumes "static_flow v" and "k \<in> FLOW_KEYS"
  shows "static_flow (jprop v k) \<and> \<not> isFunction (jprop v k)"
proof (cases v)
  case (JObj fs)
  show ?thesis
  proof (cases "map_of fs k")
    case None
    with JObj show ?thesis by (simp add: obj_get_def isFunction_def fn_name_def)
  next
    case (Some x)
    then have "(k, x) \<in> set fs" by (rule map_of_SomeD)
    with assms JObj Some show ?thesis by (auto simp: obj_get_def)
  qed
qed (auto simp: jprop_def isFunction_def fn_name_def)

definition calls_ran :: "form_env \<Rightarrow> bool" where
  "calls_ran env \<longleftrightarrow> (\<forall>n args. ran (fe_call env n args))"

lemma ran_applied [fuel_intros]: "calls_ran env \<Longrightarrow> ran (applied env f args)"
  by (auto simp: applied_def call_fn_def calls_ran_def split: option.splits)

lemma ran_shown [fuel_intros]: "calls_ran env \<Longrightarrow> ran (shown env v x)"
  by (auto simp: shown_def call_fn_def calls_ran_def split: option.splits intro!: fuel_intros)

lemma ran_elements [fuel_intros]: "ran (elements v)" "ran (iterated v)" "ran (idx_res v k)"
  by (auto simp: elements_def iterated_def idx_res_def split: js.splits)

lemma ran_sub_fields [fuel_intros]: "ran (sub_fields fs full)"
  unfolding sub_fields_def by (auto intro!: fuel_intros)

lemma ran_SubFlow [fuel_intros]: "calls_ran env \<Longrightarrow> ran (SubFlow env fs full m c)"
  unfolding SubFlow_def Let_def by (intro fuel_intros) (auto intro!: fuel_intros)

lemma ran_rendererFor [fuel_intros]: "ran (rendererFor_js env v)"
  by (auto simp: rendererFor_js_def split: js.splits)

lemma ran_convertSchema [fuel_intros]: "ran (convertSchema env s)"
  unfolding convertSchema_def item_renderer_def Let_def by (auto intro!: fuel_intros)

lemma ran_schema_step: "ran acc \<Longrightarrow> ran (schema_step acc p)"
  unfolding schema_step_def by (auto intro!: fuel_intros)

lemma ran_stepSchema [fuel_intros]: "ran acc \<Longrightarrow> ran (foldl schema_step acc ps)"
  by (induction ps arbitrary: acc) (simp_all add: ran_schema_step)

lemma ran_inline: "calls_ran env \<Longrightarrow> ran (renderInlineStepFlow env name c)"
  unfolding renderInlineStepFlow_def stepSchema_def step_shown_def draw_step_def step_renderer_def
  by (auto simp: call_fn_def calls_ran_def split: js.splits option.splits intro!: fuel_intros)

definition plain_flow :: "js \<Rightarrow> bool" where
  "plain_flow v \<longleftrightarrow> static_flow v \<and> \<not> isFunction v"

lemma idx_named: "\<not> (\<forall>c \<in> set k. of_char c \<in> {48..<58::nat}) \<Longrightarrow> idx v k = jprop v k"
proof -
  assume k: "\<not> (\<forall>c \<in> set k. of_char c \<in> {48..<58::nat})"
  have "k \<notin> fst ` set (indexed xs)" for xs :: "js list"
  proof
    assume "k \<in> fst ` set (indexed xs)"
    then obtain n where "k = nat_str n" unfolding fst_indexed by blast
    with k nat_str_digits [of n] show False by blast
  qed
  then have "obj_get (indexed xs) k = JUndef" for xs :: "js list"
    by (intro obj_get_absent) (simp add: obj_has_def)
  then show ?thesis by (cases v) (simp_all add: idx_def jprop_def)
qed

lemma plain_part:
  "plain_flow v \<Longrightarrow> k \<in> FLOW_KEYS \<Longrightarrow> plain_flow (jprop v k) \<and> size (jprop v k) \<le> size v"
  using jprop_static [of v k] jprop_smaller [of v k] by (cases "jprop v k = JUndef") (auto simp: plain_flow_def)

lemma sub_fields_plain:
  assumes "sub_fields fs full = Inr (a, b)" and "plain_flow fs" and "plain_flow full"
  shows "plain_flow a \<and> plain_flow b \<and> size a \<le> size fs \<and> (size b \<le> size fs \<or> size b \<le> size full)"
proof (cases "isAnObject fs")
  case True
  have a: "plain_flow (jprop fs ''otoroshi_flow'') \<and> size (jprop fs ''otoroshi_flow'') \<le> size fs"
    using assms(2) by (intro plain_part) (auto simp: FLOW_KEYS_def)
  have b: "plain_flow (jprop (jprop fs ''otoroshi_flow'') ''otoroshi_full_flow'') \<and>
      size (jprop (jprop fs ''otoroshi_flow'') ''otoroshi_full_flow'') \<le> size (jprop fs ''otoroshi_flow'')"
    using a by (intro plain_part) (auto simp: FLOW_KEYS_def)
  have "idx v ''otoroshi_full_flow'' = jprop v ''otoroshi_full_flow''" for v
    by (rule idx_named) simp
  with True assms(1) a b show ?thesis
    by (auto simp: sub_fields_def idx_res_def split: if_splits)
next
  case False
  with assms show ?thesis by (auto simp: sub_fields_def)
qed

lemma plain_applied [simp]: "plain_flow v \<Longrightarrow> applied env v args = Inr v"
  by (simp add: plain_flow_def applied_def)

lemma plain_elements: "elements v = Inr xs \<Longrightarrow> x \<in> set xs \<Longrightarrow> plain_flow v \<Longrightarrow> static_flow x \<and> size x < size v"
  using elements_smaller [of v xs x] by (simp add: plain_flow_def)

lemma plain_iterated:
  "iterated v = Inr xs \<Longrightarrow> x \<in> set xs \<Longrightarrow> plain_flow v \<Longrightarrow> is_string x \<or> static_flow x \<and> size x < size v"
  using plain_elements [of v xs x] by (cases v) (auto simp only: iterated_def elements_def is_string_def js.case sum.inject set_map)

lemma SubFlow_elements:
  assumes sub: "SubFlow env fs full m c = Inr (xs, b)" and x: "x \<in> set xs"
    and fs: "plain_flow (default_js fs (JArr []))" and full: "plain_flow (default_js full (JArr []))"
  shows "is_string x \<or> static_flow x \<and>
    (size x < size (default_js fs (JArr [])) \<or> size x < size (default_js full (JArr [])))"
proof -
  let ?fs = "default_js fs (JArr [])" and ?full = "default_js full (JArr [])"
  from sub obtain a b where ab: "sub_fields ?fs ?full = Inr (a, b)"
    by (auto simp: SubFlow_def)
  note p = sub_fields_plain [OF ab fs full]
  have "\<exists>v \<in> {a, b}. \<exists>ys. x \<in> set ys \<and> (elements v = Inr ys \<or> iterated v = Inr ys)"
    using sub x p by (auto simp: SubFlow_def ab Let_def split: if_splits)
  then have "\<exists>v \<in> {a, b}. is_string x \<or> static_flow x \<and> size x < size v"
    using p plain_elements plain_iterated by blast
  with p show ?thesis by auto
qed

lemma default_plain:
  "static_flow g \<Longrightarrow> isAnObject g \<Longrightarrow> k \<in> FLOW_KEYS \<Longrightarrow>
     plain_flow (default_js (jprop g k) (JArr [])) \<and> size (default_js (jprop g k) (JArr [])) \<le> size g"
  using jprop_static [of g k] jprop_smaller [of g k]
  by (cases g) (auto simp: default_js_def plain_flow_def isAnObject_def isFunction_def fn_name_def is_object_def)

lemma ran_renderGridFlow:
  assumes env: "calls_ran env" and g: "static_flow g"
    and draw: "\<And>x c'. static_flow x \<Longrightarrow> size x < size g \<Longrightarrow> ran (draw x c')"
  shows "ran (renderGridFlow env draw g c)"
proof -
  have "ran (rmap (\<lambda>x. draw x c) xs)" if el: "elements (jprop g ''fields'') = Inr xs" for xs
  proof (rule ran_rmap)
    fix x assume "x \<in> set xs"
    note x = elements_smaller [OF el this]
    have "jprop g ''fields'' \<noteq> JUndef" using el by (auto simp: elements_def)
    then have "size x < size g" using x jprop_smaller [of g "''fields''"] by simp
    with x jprop_static [OF g, of "''fields''"] show "ran (draw x c)" by (intro draw) (auto simp: FLOW_KEYS_def)
  qed
  with env show ?thesis
    unfolding renderGridFlow_def by (auto intro!: fuel_intros)
qed

lemma ran_renderGroupFlow:
  assumes env: "calls_ran env" and g: "static_flow g" "isAnObject g"
    and draw: "\<And>x c'. is_string x \<or> static_flow x \<and> size x < size g \<Longrightarrow> ran (draw x c')"
  shows "ran (renderGroupFlow env adv draw g c)"
proof -
  have "ran (rmap (\<lambda>x. draw x c') xs)"
    if sub: "SubFlow env (jprop g ''fields'') (jprop g ''full_fields'') m c' = Inr (xs, b)" for m c' xs b
  proof (rule ran_rmap)
    fix x assume x: "x \<in> set xs"
    have p: "plain_flow (default_js (jprop g k) (JArr [])) \<and> size (default_js (jprop g k) (JArr [])) \<le> size g"
      if "k \<in> {''fields'', ''full_fields''}" for k
      using that by (intro default_plain g) (auto simp: FLOW_KEYS_def)
    show "ran (draw x c')"
      using SubFlow_elements [OF sub x] p by (intro draw) fastforce
  qed
  with env show ?thesis
    unfolding renderGroupFlow_def Let_def by (auto split: prod.splits intro!: fuel_intros)
qed

text \<open>
  Drawing ends: an entry of a flow without functions among its fields is drawn, or throws, within
  as much fuel as its size, whatever the advanced settings shown, when the functions called end.
\<close>

lemma static_flow_drawn:
  assumes "static_flow f" and "size f < n" and "\<forall>m args. fe_call env m args \<noteq> Inl StackOverflow"
  shows "renderStepFlow env adv n f c \<noteq> Inl StackOverflow"
proof -
  from assms(3) have env: "calls_ran env" by (simp add: calls_ran_def ran_def)
  have "static_flow f \<Longrightarrow> size f < n \<or> 0 < n \<and> is_string f \<Longrightarrow> ran (renderStepFlow env adv n f c)"
  proof (induction n arbitrary: f c)
    case (Suc n)
    show ?case
    proof (cases "isAnObject f")
      case True
      then have sz: "size f \<le> n" and n: "0 < n"
        using Suc.prems(2) by (cases f; auto simp: isAnObject_def is_object_def is_string_def)+
      have sub: "ran (renderStepFlow env adv n x c')"
        if "is_string x \<or> static_flow x \<and> size x < size f" for x c'
        using that sz n by (intro Suc.IH) (auto simp: is_string_def split: js.splits)
      with ran_renderGridFlow [OF env Suc.prems(1)] ran_renderGroupFlow [OF env Suc.prems(1) True] True
      show ?thesis by simp
    next
      case False
      then show ?thesis by (simp add: ran_inline env)
    qed
  qed simp
  with assms show ?thesis by (simp add: ran_def)
qed

definition sample_form :: form_env where
  "sample_form = \<lparr>fe_call = \<lambda>n args. Inr (JBool True), fe_sync = \<lambda>c v. None, fe_forms = {}, fe_num = \<lambda>n. []\<rparr>"

lemma static_flow_drawn_witness:
  "renderStepFlow sample_form (\<lambda>p. False) 100
     (JObj [(''type'', JStr ''group''), (''name'', JStr ''g''), (''fields'', JArr [JStr ''a''])])
     (form_config_of \<lparr>fp_value = JNull, fp_schema = JNull, fp_flow = JNull, fp_rootValue = JNull, fp_embedded = False,
        fp_path = [], fp_breadcrumb = None, fp_useBreadcrumb = False, fp_readOnly = False, fp_all = JNull\<rparr> (JObj []) JNull)
     \<noteq> Inl StackOverflow"
  by (rule static_flow_drawn) (auto simp: sample_form_def FLOW_KEYS_def isFunction_def fn_name_def)

text \<open>The steps the form itself draws for an entry, in order; a custom flow draws what it likes, which is not counted.\<close>

fun steps_in :: "drawn \<Rightarrow> form_step list" where
  "steps_in (Step s) = [s]"
| "steps_in (Group p l a b ds m) = concat (map steps_in ds)"
| "steps_in (Grid l ds) = concat (map steps_in ds)"
| "steps_in _ = []"

definition sound_step :: "form_env \<Rightarrow> form_config \<Rightarrow> form_step \<Rightarrow> bool" where
  "sound_step env c st \<longleftrightarrow>
     (\<exists>s. stepSchema (cf_schema c) (name_path (fs_name st)) = Inr s
        \<and> step_shown env s (cf_value c) = Inr True
        \<and> convertSchema env s = Inr (fs_schema st))
     \<and> fs_value st = extractValue (cf_value c) (fs_name st)
     \<and> fs_readOnly st = cf_readOnly c
     \<and> suffix (map JStr (name_path (fs_name st))) (fs_path st)"

lemma sound_step_group [simp]: "sound_step env (group_config c p) st = sound_step env c st"
  by (simp add: sound_step_def group_config_def)

lemma rmap_in: "rmap f xs = Inr ys \<Longrightarrow> y \<in> set ys \<Longrightarrow> \<exists>x \<in> set xs. f x = Inr y"
  by (induction xs arbitrary: ys) auto

lemma step_path_suffix: "suffix (map JStr ps) (step_path c ps)"
  by (simp add: step_path_def suffixI)

lemma inline_sound:
  assumes "renderInlineStepFlow env name c = Inr d" and "st \<in> set (steps_in d)"
  shows "sound_step env c st"
proof -
  obtain nm where nm: "name = JStr nm"
    using assms(1) by (cases name) (auto simp: renderInlineStepFlow_def)
  with assms obtain s where "stepSchema (cf_schema c) (name_path nm) = Inr s" "step_shown env s (cf_value c) = Inr True"
    and draw: "draw_step env nm s c = Inr d"
    by (auto simp: renderInlineStepFlow_def split: if_splits)
  moreover from draw obtain cv r where "convertSchema env s = Inr cv"
    and "d = Step \<lparr>fs_name = nm, fs_path = step_path c (name_path nm), fs_schema = cv,
                   fs_value = extractValue (cf_value c) nm, fs_renderer = r, fs_readOnly = cf_readOnly c\<rparr>"
    by (auto simp: draw_step_def)
  ultimately show ?thesis
    using assms(2) by (auto simp: sound_step_def step_path_suffix)
qed

text \<open>
  C7. Every step the form itself draws (outside the custom flows), however deep in groups and grids, carries the converted schema of
  what the schema of the form gives for its name (an empty schema for a name that it does not have), passes the condition of
  visibility of that schema, and has the value the form has for the name, the read-only flag of the form and a path that ends with
  the name.
\<close>

theorem drawn_steps_sound:
  assumes "renderStepFlow env adv n f c = Inr d" and "st \<in> set (steps_in d)"
  shows "sound_step env c st"
  using assms
proof (induction n arbitrary: f c d)
  case (Suc n)
  show ?case
  proof (cases "isAnObject f")
    case True
    have children: "\<lbrakk>rmap (\<lambda>x. renderStepFlow env adv n x c') xs = Inr ds; st \<in> set (concat (map steps_in ds))\<rbrakk>
        \<Longrightarrow> sound_step env c' st" for c' xs ds
      using Suc.IH rmap_in by fastforce
    with True Suc.prems show ?thesis
      by (auto simp: renderGridFlow_def renderGroupFlow_def Let_def simp del: set_concat split: if_splits)
        (metis sound_step_group)+
  next
    case False
    with Suc.prems inline_sound show ?thesis by simp
  qed
qed simp

definition sample_config :: "obj \<Rightarrow> js \<Rightarrow> form_config" where
  "sample_config schema value = form_config_of \<lparr>fp_value = value, fp_schema = JObj schema, fp_flow = JNull, fp_rootValue = JNull,
     fp_embedded = False, fp_path = [], fp_breadcrumb = None, fp_useBreadcrumb = False, fp_readOnly = False, fp_all = JNull\<rparr>
     (JObj schema) value"

definition sample_step :: "string \<Rightarrow> js \<Rightarrow> js \<Rightarrow> form_step" where
  "sample_step nm s v = \<lparr>fs_name = nm, fs_path = [JStr nm], fs_schema = \<lparr>cv_schema = s, cv_itemRenderer = None\<rparr>,
     fs_value = v, fs_renderer = Component ''StringRenderer'', fs_readOnly = False\<rparr>"

theorem drawn_steps_sound_witness:
  "sound_step sample_form (sample_config [(''a'', JObj [(''type'', JStr ''string'')])] (JObj [(''a'', JStr ''x'')]))
     (sample_step ''a'' (JObj [(''type'', JStr ''string'')]) (JStr ''x''))"
proof (rule drawn_steps_sound [of _ "\<lambda>p. False" 3 "JObj [(''type'', JStr ''grid''), (''fields'', JArr [JStr ''a''])]"])
  show "renderStepFlow sample_form (\<lambda>p. False) 3 (JObj [(''type'', JStr ''grid''), (''fields'', JArr [JStr ''a''])])
      (sample_config [(''a'', JObj [(''type'', JStr ''string'')])] (JObj [(''a'', JStr ''x'')]))
    = Inr (Grid JUndef [Step (sample_step ''a'' (JObj [(''type'', JStr ''string'')]) (JStr ''x''))])"
    by code_simp
qed simp

lemma rmap_all2:
  "(\<And>x. x \<in> set xs \<Longrightarrow> \<exists>y. f x = Inr y \<and> P x y) \<Longrightarrow> \<exists>ys. rmap f xs = Inr ys \<and> list_all2 P xs ys"
proof (induction xs)
  case (Cons x xs)
  from Cons.prems [of x] obtain y where "f x = Inr y" "P x y" by auto
  moreover from Cons.IH Cons.prems obtain ys where "rmap f xs = Inr ys" "list_all2 P xs ys" by auto
  ultimately show ?case by auto
qed simp

definition drawn_field :: "drawn \<Rightarrow> (string \<times> js list \<times> js) option" where
  "drawn_field d = (case d of Step st \<Rightarrow> Some (fs_name st, fs_path st, fs_value st) | _ \<Rightarrow> None)"

definition plain_field :: "form_env \<Rightarrow> string \<times> js \<Rightarrow> bool" where
  "plain_field env e \<longleftrightarrow> CHR ''.'' \<notin> set (fst e) \<and> is_object (snd e) \<and> \<not> obj_has (entries (snd e)) ''visible'' \<and>
     (case convertSchema env (snd e) of Inl _ \<Rightarrow> False | Inr cv \<Rightarrow> \<not> isl (step_renderer env (cv_schema cv)))"

lemma plain_field_drawn:
  assumes e: "plain_field env e" "e \<in> set fs" and fs: "keys_ok fs" and c: "cf_schema c = JObj fs" "cf_root c"
    "cf_breadcrumb c = None" "cf_value c = JObj data"
  shows "\<exists>d. renderInlineStepFlow env (JStr (fst e)) c = Inr d \<and>
    drawn_field d = Some (fst e, [JStr (fst e)], obj_get data (fst e))"
proof -
  have s: "obj_get fs (fst e) = snd e" by (rule in_obj_get [OF fs e(2)])
  have path: "name_path (fst e) = [fst e]" using e(1) by (simp add: name_path_def plain_field_def)
  obtain cv r where "convertSchema env (snd e) = Inr cv" "step_renderer env (cv_schema cv) = Inr r"
    using e(1) by (auto simp: plain_field_def split: sum.splits) (metis sum.collapse(2))
  with e(1) show ?thesis
    by (auto simp: renderInlineStepFlow_def path stepSchema_def schema_step_def s c object_truthy step_shown_def
        plain_field_def off_breadcrumb_def draw_step_def drawn_field_def step_path_def extractValue_def)
qed

text \<open>
  A form without a flow draws the fields of its schema, all of them and in their order, each with
  its own value.
\<close>

lemma default_flow_draws_every_field:
  assumes "\<not> truthy (fp_flow p)" and "fp_schema p = JObj fs" and "keys_ok fs" and "\<forall>e \<in> set fs. plain_field env e"
    and "fp_value p = JObj data" and "\<not> isFunction (JObj fs)" and "\<not> isFunction (JObj data)"
    and "\<not> fp_embedded p" and "fp_breadcrumb p = None" and "\<not> adv (fp_path p)"
  shows "\<exists>ds. render_form env adv (Suc n) p = Inr (Some (ds, False)) \<and>
    map drawn_field ds = map (\<lambda>(k, s). Some (k, [JStr k], obj_get data k)) fs"
proof -
  let ?c = "form_config_of p (JObj fs) (JObj data)"
  let ?P = "\<lambda>x y. \<exists>k. x = JStr k \<and> drawn_field y = Some (k, [JStr k], obj_get data k)"
  have draw: "\<exists>y. renderStepFlow env adv (Suc n) x ?c = Inr y \<and> ?P x y"
    if "x \<in> set (map (JStr \<circ> fst) fs)" for x
    using that plain_field_drawn [of env _ fs ?c data] assms
    by (force simp: form_config_of_def isAnObject_def is_object_def)
  obtain ds where
    ds: "rmap (\<lambda>x. renderStepFlow env adv (Suc n) x ?c) (map (JStr \<circ> fst) fs) = Inr ds"
    and all: "list_all2 ?P (map (JStr \<circ> fst) fs) ds"
    using rmap_all2 [of "map (JStr \<circ> fst) fs" "\<lambda>x. renderStepFlow env adv (Suc n) x ?c" ?P] draw by blast
  from all have "map drawn_field ds = map (\<lambda>(k, s). Some (k, [JStr k], obj_get data k)) fs"
    by (induction fs arbitrary: ds) (auto simp: list_all2_Cons1)
  moreover have flow: "getFlow env (fp_flow p) (fp_rootValue p) (fp_all p) (JObj data) (JObj fs)
      = Inr \<lparr>fl_fields = JArr (map (JStr \<circ> fst) fs), fl_full = JUndef\<rparr>"
    using assms(1) by (cases "fp_flow p") (auto simp: getFlow_def isFunction_def fn_name_def isAnObject_def is_object_def)
  moreover have "SubFlow env (JArr (map (JStr \<circ> fst) fs)) JUndef (adv (fp_path p)) ?c = Inr (map (JStr \<circ> fst) fs, False)"
    using assms(10) by (simp add: SubFlow_def sub_fields_def default_js_def isAnObject_def is_object_def applied_def
        isFunction_def fn_name_def has_more_def elements_def iterated_def)
  ultimately show ?thesis
    using assms ds by (simp add: render_form_def getValue_def applied_def js_or_def del: renderStepFlow.simps)
qed

definition sample_props :: "obj \<Rightarrow> obj \<Rightarrow> form_props" where
  "sample_props schema data = \<lparr>fp_value = JObj data, fp_schema = JObj schema, fp_flow = JUndef, fp_rootValue = JUndef,
     fp_embedded = False, fp_path = [], fp_breadcrumb = None, fp_useBreadcrumb = False, fp_readOnly = False, fp_all = JUndef\<rparr>"

lemma default_flow_draws_every_field_witness:
  "\<exists>ds. render_form sample_form (\<lambda>p. False) (Suc 0)
      (sample_props [(''a'', JObj [(''type'', JStr ''string'')]), (''b'', JObj [(''label'', JStr ''B'')])] [(''b'', JNum 1)])
     = Inr (Some (ds, False))
   \<and> map drawn_field ds = [Some (''a'', [JStr ''a''], JUndef), Some (''b'', [JStr ''b''], JNum 1)]"
proof -
  have "\<forall>e \<in> set [(''a'', JObj [(''type'', JStr ''string'')]), (''b'', JObj [(''label'', JStr ''B'')])]. plain_field sample_form e"
    by code_simp
  then show ?thesis
    using default_flow_draws_every_field [where env = sample_form and adv = "\<lambda>p. False" and n = 0 and data = "[(''b'', JNum 1)]"
        and fs = "[(''a'', JObj [(''type'', JStr ''string'')]), (''b'', JObj [(''label'', JStr ''B'')])]"
        and p = "sample_props [(''a'', JObj [(''type'', JStr ''string'')]), (''b'', JObj [(''label'', JStr ''B'')])] [(''b'', JNum 1)]"]
    by (simp add: sample_props_def isFunction_def fn_name_def)
qed

section \<open>The breadcrumb\<close>

lemma join_js_append:
  "xs \<noteq> [] \<Longrightarrow> ys \<noteq> [] \<Longrightarrow> join_js env d (xs @ ys) = join_js env d xs @ d @ join_js env d ys"
proof (induction xs)
  case (Cons x xs)
  then show ?case by (cases xs; cases ys) (auto simp: join_js_def)
qed simp

lemma crumb_prefix: "prefix xs ys \<Longrightarrow> startsWith (crumb env ys) (crumb env xs)"
proof (cases "xs = []")
  case True
  then show ?thesis by (simp add: crumb_def join_js_def toLowerCase_def startsWith_def)
next
  case False
  assume "prefix xs ys"
  then obtain zs where "ys = xs @ zs" by (auto simp: prefix_def)
  with False show ?thesis
    by (cases "zs = []") (auto simp: crumb_def join_js_append toLowerCase_def startsWith_def)
qed

text \<open>
  On a breadcrumb, the steps under it and the steps it passes through stay visible.
\<close>

lemma breadcrumb_keeps_its_branch:
  assumes "cf_breadcrumb c = Some b" and "prefix b (step_path c paths) \<or> prefix (step_path c paths) b
    \<or> prefix b (core_path c paths) \<or> prefix (core_path c paths) b"
  shows "\<not> off_breadcrumb env c paths"
  using assms by (auto simp: off_breadcrumb_def match_def crumb_prefix)

lemma breadcrumb_keeps_its_branch_witness:
  "\<not> off_breadcrumb sample_form ((sample_config [] JNull)\<lparr>cf_breadcrumb := Some [JStr ''a'']\<rparr>) [''a'', ''b'']"
  by (rule breadcrumb_keeps_its_branch [of _ "[JStr ''a'']"]) (auto simp: sample_config_def form_config_of_def step_path_def)

text \<open>
  The paths are compared as texts, so the steps of another branch stay visible too when its name
  starts with the name of the breadcrumb.
\<close>

lemma breadcrumb_keeps_a_sibling:
  "\<not> off_breadcrumb sample_form ((sample_config [] JNull)\<lparr>cf_breadcrumb := Some [JStr ''auth'']\<rparr>) [''authority'', ''b'']"
  by code_simp

section \<open>The checks of a step\<close>

definition checked_field :: "js \<Rightarrow> bool" where
  "checked_field s \<longleftrightarrow> truthy (jprop s ''constraints'') \<and> has_more (jprop s ''constraints'')"

definition formatted :: "js \<Rightarrow> bool" where
  "formatted s \<longleftrightarrow> (\<exists>k \<in> set FORMATTED. truthy (jprop s k))"

lemma convert_without:
  assumes "formatted (JObj fs)" and "k \<in> {''required'', ''typechecks''}"
  shows "convertSchema env (JObj (obj_del k fs)) = convertSchema env (JObj fs)"
proof -
  have get: "obj_get (obj_del k fs) k' = obj_get fs k'" if "k' \<notin> {''required'', ''typechecks''}" for k'
    using assms(2) that by (auto simp: obj_get_obj_del)
  have "formatted (JObj (obj_del k fs))"
    using assms(1) get by (fastforce simp: formatted_def FORMATTED_def)
  with assms(1) show ?thesis
    by (simp add: convertSchema_def formatted_def item_renderer_def get Let_def cong: if_cong)
qed

text \<open>
  \<open>required\<close> is never checked. When the schema has a label or any other sign of the older format, a
  step is drawn the same without it; otherwise every edit of a required text, number or boolean that
  has constraints throws, as the library of the check is not imported.
\<close>

lemma required_never_checked:
  assumes "obj_get fs ''required'' = JBool True" and "obj_get fs ''type'' \<in> {JStr ''string'', JStr ''number'', JStr ''bool''}"
    and "checked_field (JObj fs)" and "draw_step env name (JObj fs) c = Inr (Step st)"
  shows "if formatted (JObj fs) then draw_step env name (JObj (obj_del ''required'' fs)) c = Inr (Step st)
    else onChange env v st e = Inl ReferenceError"
proof (cases "formatted (JObj fs)")
  case True
  with assms(4) show ?thesis by (simp add: draw_step_def convert_without)
next
  case False
  then have "cv_schema (fs_schema st) = JObj fs"
    using assms(4) by (auto simp: draw_step_def convertSchema_def formatted_def)
  with False assms(1-3) show ?thesis
    by (auto simp: onChange_def handleValidation_def validate_def mentions_yup_def checked_field_def)
qed

lemma required_never_checked_witness:
  "onChange sample_form JNull
     (sample_step ''a'' (JObj [(''type'', JStr ''string''), (''required'', JBool True), (''constraints'', JArr [JObj []])]) JUndef) (JStr ''x'')
     = Inl ReferenceError"
proof -
  let ?fs = "[(''type'', JStr ''string''), (''required'', JBool True), (''constraints'', JArr [JObj []])]"
  have "draw_step sample_form ''a'' (JObj ?fs) (sample_config [] (JObj [])) = Inr (Step (sample_step ''a'' (JObj ?fs) JUndef))"
    by code_simp
  moreover have "\<not> formatted (JObj ?fs)" "checked_field (JObj ?fs)" by code_simp+
  ultimately show ?thesis
    using required_never_checked [of ?fs sample_form "''a''" "sample_config [] (JObj [])" "sample_step ''a'' (JObj ?fs) JUndef" JNull "JStr ''x''"]
    by simp
qed

section \<open>Advanced settings\<close>

text \<open>
  A group whose fields are an object with a flow and a full flow never shows the full flow: no
  button leads to it, and the read-only form throws.
\<close>

lemma object_flow_loses_advanced:
  assumes "isAnObject fs" and "jprop fs ''otoroshi_flow'' = JArr xs"
  shows "SubFlow env fs full m c = (if cf_readOnly c then Inl TypeError else Inr (if m then [] else xs, False))"
proof -
  have "idx (JArr xs) ''otoroshi_full_flow'' = JUndef"
    by (subst idx_named) (simp_all add: jprop_def)
  then have "sub_fields fs f = Inr (JArr xs, JUndef)" for f
    using assms by (simp add: sub_fields_def idx_res_def nullish_def)
  moreover have "fs \<noteq> JUndef" using assms(1) by (auto simp: isAnObject_def is_object_def)
  ultimately show ?thesis
    by (simp add: SubFlow_def default_js_def applied_def isFunction_def fn_name_def has_more_def elements_def iterated_def
        jprop_def split: js.splits)
qed

lemma object_flow_loses_advanced_witness:
  "SubFlow sample_form (JObj [(''otoroshi_flow'', JArr [JStr ''a'']), (''otoroshi_full_flow'', JArr [JStr ''a'', JStr ''b''])])
     JUndef False (sample_config [] JNull) = Inr ([JStr ''a''], False)"
  by (subst object_flow_loses_advanced [of _ "[JStr ''a'']"])
    (simp_all add: isAnObject_def is_object_def isFunction_def fn_name_def sample_config_def form_config_of_def)

end
