(* ===== verification/Form_Validation.thy ===== *)
theory Form_Validation
  imports Form_Facts
begin

text \<open>
  The validation of a form (\<open>NgForm\<close> in \<open>components/nginputs/form.js\<close>): the steps hand their reports
  to the form, which keeps them in \<open>tasks\<close> and every 100 ms merges them into a graph that follows
  the paths of the steps. The form is valid when the text of the graph has no \<open>"__valid":false\<close>.

  \<^item> \<open>stringify\<close> is \<open>JSON.stringify\<close>, by way of the tokens it prints; the text of a number is a
    parameter that holds no quote.
  \<^item> The refinement: the graph stands for the map from paths to reports (\<open>report_at\<close>), and a tick
    merges into it the first report queued for each path.
  \<^item> No segment of a path is \<open>__valid\<close> or \<open>__errors\<close>, the keys of a report.
\<close>

section \<open>JSON.stringify\<close>

datatype token = Q string | C char

definition hex_digit :: "nat \<Rightarrow> char" where
  "hex_digit n = char_of (if n < 10 then 48 + n else 87 + n)"

definition esc_char :: "char \<Rightarrow> string" where
  "esc_char c =
     (if c = CHR 0x22 then [CHR 0x5C, CHR 0x22] else if c = CHR 0x5C then [CHR 0x5C, CHR 0x5C]
      else if c = CHR 0x08 then [CHR 0x5C, CHR ''b''] else if c = CHR 0x0C then [CHR 0x5C, CHR ''f'']
      else if c = CHR 0x0A then [CHR 0x5C, CHR ''n''] else if c = CHR 0x0D then [CHR 0x5C, CHR ''r'']
      else if c = CHR 0x09 then [CHR 0x5C, CHR ''t'']
      else if (of_char c :: nat) < 32
      then [CHR 0x5C, CHR ''u'', CHR ''0'', CHR ''0'', hex_digit (of_char c div 16), hex_digit (of_char c mod 16)]
      else [c])"

definition esc :: "string \<Rightarrow> string" where
  "esc s = concat (map esc_char s)"

fun token_text :: "token \<Rightarrow> string" where
  "token_text (Q s) = CHR 0x22 # esc s @ [CHR 0x22]"
| "token_text (C c) = [c]"

fun commas :: "token list list \<Rightarrow> token list" where
  "commas [] = []"
| "commas [x] = x"
| "commas (x # xs) = x @ C CHR '','' # commas xs"

text \<open>A field whose value is \<open>undefined\<close> is left out; in an array it is printed as \<open>null\<close>.\<close>

fun tokens :: "(rat \<Rightarrow> string) \<Rightarrow> js \<Rightarrow> token list" where
  "tokens num JUndef = map C ''null''"
| "tokens num JNull = map C ''null''"
| "tokens num (JBool b) = map C (if b then ''true'' else ''false'')"
| "tokens num (JNum n) = map C (num n)"
| "tokens num (JStr s) = [Q s]"
| "tokens num (JArr xs) = C CHR ''['' # commas (map (tokens num) xs) @ [C CHR '']'']"
| "tokens num (JObj fs) =
     C CHR ''{'' # commas (concat (map (\<lambda>e. if snd e = JUndef then [] else [Q (fst e) # C CHR '':'' # tokens num (snd e)]) fs))
       @ [C CHR ''}'']"

definition text_of_tokens :: "token list \<Rightarrow> string" where
  "text_of_tokens ts = concat (map token_text ts)"

definition stringify :: "(rat \<Rightarrow> string) \<Rightarrow> js \<Rightarrow> string" where
  "stringify num v = text_of_tokens (tokens num v)"

section \<open>The validation queue\<close>

definition invalid_text :: string where
  "invalid_text = [CHR 0x22] @ ''__valid'' @ [CHR 0x22] @ '':false''"

definition isValid :: "(rat \<Rightarrow> string) \<Rightarrow> js \<Rightarrow> bool" where
  "isValid num graph \<longleftrightarrow> \<not> includes_str (stringify num graph) invalid_text"

record validation =
  vd_valid :: bool
  vd_graph :: js

record form_state =
  fm_validation :: validation
  fm_tasks :: "(string list \<times> report) list"

definition form_init :: form_state where
  "form_init = \<lparr>fm_validation = \<lparr>vd_valid = True, vd_graph = JObj []\<rparr>, fm_tasks = []\<rparr>"

definition setValidation :: "string list \<Rightarrow> report \<Rightarrow> form_state \<Rightarrow> form_state" where
  "setValidation path r s = s\<lparr>fm_tasks := fm_tasks s @ [(path, r)]\<rparr>"

text \<open>One task: the objects along its path are created as they are missing.\<close>

fun put_report :: "report \<Rightarrow> string list \<Rightarrow> js \<Rightarrow> js" where
  "put_report r [] current =
     JObj (AList.update ''__errors'' (JArr (rp_errors r)) (AList.update ''__valid'' (JBool (rp_valid r)) (entries current)))"
| "put_report r (segment # path) current =
     JObj (AList.update segment (put_report r path (js_or (idx current segment) (JObj []))) (entries current))"

text \<open>
  \<open>handleTasks\<close>: the tasks are popped from the end. The second result is the call of
  \<open>rootOnChange\<close>, if there is one: the validation it reports with the value of the form.
\<close>

definition merged :: "form_state \<Rightarrow> js" where
  "merged s = foldl (\<lambda>g (path, r). put_report r path g) (vd_graph (fm_validation s)) (rev (fm_tasks s))"

definition handleTasks :: "(rat \<Rightarrow> string) \<Rightarrow> form_state \<Rightarrow> form_state \<times> validation option" where
  "handleTasks num s =
     (if fm_tasks s = [] then (s, None)
      else let current = \<lparr>vd_valid = isValid num (merged s), vd_graph = merged s\<rparr>
           in if current \<noteq> fm_validation s
              then (\<lparr>fm_validation = current, fm_tasks = []\<rparr>, Some current)
              else (s\<lparr>fm_tasks := []\<rparr>, None))"

section \<open>What the search of the text finds\<close>

lemma text_of_tokens_simps [simp]:
  "text_of_tokens [] = []"
  "text_of_tokens (Q s # ts) = CHR 0x22 # esc s @ CHR 0x22 # text_of_tokens ts"
  "text_of_tokens (C c # ts) = c # text_of_tokens ts"
  by (simp_all add: text_of_tokens_def)

lemma esc_simps [simp]: "esc [] = []" "esc (c # s) = esc_char c @ esc s"
  by (simp_all add: esc_def)

definition quoted_valid :: "string \<Rightarrow> bool" where
  "quoted_valid s \<longleftrightarrow> s = ''__valid'' \<or> (\<exists>s'. s = s' @ CHR 0x22 # ''__valid'')"

text \<open>Where the text of a list of tokens has the mark of an invalid report.\<close>

fun hit :: "token list \<Rightarrow> bool" where
  "hit [] = False"
| "hit (C c # ts) = hit ts"
| "hit (Q s # ts) = (quoted_valid s \<and> startsWith (text_of_tokens ts) '':false'' \<or> hit ts)"

fun separated :: "token list \<Rightarrow> bool" where
  "separated [] = True"
| "separated (C c # ts) = (c \<noteq> CHR 0x22 \<and> separated ts)"
| "separated (Q s # ts) = (separated ts \<and> (case ts of C c # _ \<Rightarrow> c \<noteq> CHR ''_'' | [] \<Rightarrow> True | _ \<Rightarrow> False))"

lemma startsWith_simps [simp]:
  "startsWith s []"
  "\<not> startsWith [] (d # p)"
  "startsWith (c # s) (d # p) \<longleftrightarrow> c = d \<and> startsWith s p"
  by (auto simp: startsWith_def)

text \<open>The start of a quoted text that is \<open>__valid"\<close>: no escape is in it.\<close>

lemma esc_char_cases:
  obtains "esc_char c = [c]" "c \<noteq> CHR 0x22" "c \<noteq> CHR 0x5C" | e where "esc_char c = CHR 0x5C # e" "e \<noteq> []"
  by (cases "esc_char c = [c]") (auto simp: esc_char_def split: if_splits)

lemma startsWith_esc:
  assumes "\<forall>c \<in> set p. esc_char c = [c]"
  shows "startsWith (esc s @ CHR 0x22 # r) (p @ CHR 0x22 # q) \<longleftrightarrow> s = p \<and> startsWith r q"
  using assms
proof (induction p arbitrary: s)
  case Nil
  then show ?case
  proof (cases s)
    case (Cons c s')
    show ?thesis by (rule esc_char_cases [of c]) (auto simp: Cons)
  qed simp
next
  case (Cons d p)
  have d: "d \<noteq> CHR 0x22" "d \<noteq> CHR 0x5C"
    using Cons.prems by (auto simp: esc_char_def)
  show ?case
  proof (cases s)
    case Nil
    with d show ?thesis by simp
  next
    case (Cons c s')
    have IH: "startsWith (esc s' @ CHR 0x22 # r) (p @ CHR 0x22 # q) \<longleftrightarrow> s' = p \<and> startsWith r q"
      using Cons.prems Cons.IH by simp
    from Cons.prems have "esc_char d = [d]" by simp
    with IH d show ?thesis
      by (rule_tac esc_char_cases [of c]) (auto simp: Cons)
  qed
qed

lemma invalid_text_eq: "invalid_text = CHR 0x22 # ''__valid'' @ CHR 0x22 # '':false''"
  by (simp add: invalid_text_def)

lemma includes_skip: "CHR 0x22 \<notin> set a \<Longrightarrow> includes_str (a @ x) invalid_text = includes_str x invalid_text"
  by (induction a) (auto simp: invalid_text_eq)

lemma valid_plain: "\<forall>c \<in> set ''__valid''. esc_char c = [c]"
  by code_simp

lemmas starts_valid = startsWith_esc [OF valid_plain, of _ _ "'':false''"]

lemma includes_quote:
  "includes_str (CHR 0x22 # x) invalid_text \<longleftrightarrow>
     startsWith x (''__valid'' @ CHR 0x22 # '':false'') \<or> includes_str x invalid_text"
  by (simp add: invalid_text_eq)

lemma hex_digit_quote: "n < 16 \<Longrightarrow> hex_digit n \<noteq> CHR 0x22"
proof
  assume n: "n < 16" and "hex_digit n = CHR 0x22"
  then have "of_char (hex_digit n) = (34 :: nat)" by simp
  with n show False by (simp add: hex_digit_def split: if_splits)
qed

lemma esc_char_no_quote: "c \<noteq> CHR 0x22 \<Longrightarrow> CHR 0x22 \<notin> set (esc_char c)"
proof -
  have "hex_digit (of_char c mod 16) \<noteq> CHR 0x22" by (rule hex_digit_quote) simp
  moreover have "of_char c < (32::nat) \<Longrightarrow> hex_digit (of_char c div 16) \<noteq> CHR 0x22"
    by (rule hex_digit_quote) (simp add: less_mult_imp_div_less)
  ultimately show "c \<noteq> CHR 0x22 \<Longrightarrow> CHR 0x22 \<notin> set (esc_char c)"
    by (auto simp: esc_char_def)
qed

lemma includes_esc:
  "includes_str (esc s @ CHR 0x22 # r) invalid_text \<longleftrightarrow>
     (\<exists>s'. s = s' @ CHR 0x22 # ''__valid'') \<and> startsWith r '':false'' \<or> includes_str (CHR 0x22 # r) invalid_text"
proof (induction s)
  case (Cons c s)
  have split: "(\<exists>s'. c # s = s' @ CHR 0x22 # ''__valid'') \<longleftrightarrow>
      c = CHR 0x22 \<and> s = ''__valid'' \<or> (\<exists>s'. s = s' @ CHR 0x22 # ''__valid'')"
    by (auto simp: Cons_eq_append_conv)
  show ?case
  proof (cases "c = CHR 0x22")
    case True
    have "esc (c # s) @ CHR 0x22 # r = [CHR 0x5C] @ CHR 0x22 # esc s @ CHR 0x22 # r"
      by (simp add: True esc_char_def)
    then have "includes_str (esc (c # s) @ CHR 0x22 # r) invalid_text \<longleftrightarrow>
        includes_str (CHR 0x22 # esc s @ CHR 0x22 # r) invalid_text"
      using includes_skip [of "[CHR 0x5C]" "CHR 0x22 # esc s @ CHR 0x22 # r"] by simp
    then show ?thesis
      unfolding includes_quote [of "esc s @ CHR 0x22 # r"] Cons.IH split starts_valid [of s r] using True by blast
  next
    case False
    then have "CHR 0x22 \<notin> set (esc_char c)"
      by (rule esc_char_no_quote)
    with Cons.IH False show ?thesis
      by (subst split) (simp add: includes_skip)
  qed
qed simp

lemma includes_tokens: "separated ts \<Longrightarrow> includes_str (text_of_tokens ts) invalid_text = hit ts"
proof (induction ts rule: hit.induct)
  case 1
  show ?case by (simp add: invalid_text_eq)
next
  case (2 c ts)
  then show ?case by (simp add: invalid_text_eq)
next
  case (3 s ts)
  have closing: "\<not> startsWith (text_of_tokens ts) (''__valid'' @ CHR 0x22 # '':false'')"
    using 3(2) by (cases ts) (auto split: token.splits)
  from 3 have IH: "includes_str (text_of_tokens ts) invalid_text = hit ts" by simp
  show ?case
    unfolding text_of_tokens_simps hit.simps quoted_valid_def includes_quote [of "esc s @ CHR 0x22 # text_of_tokens ts"]
      includes_esc includes_quote [of "text_of_tokens ts"] starts_valid IH
    using closing by blast
qed

definition boundary :: "token list \<Rightarrow> bool" where
  "boundary ts = (case ts of [] \<Rightarrow> True | C c # _ \<Rightarrow> c \<in> set '',]}'' | _ \<Rightarrow> False)"

definition num_ok :: "(rat \<Rightarrow> string) \<Rightarrow> bool" where
  "num_ok num \<longleftrightarrow> (\<forall>n. set (num n) \<subseteq> set ''0123456789.+-e'')"

fun has_false :: "js \<Rightarrow> bool" where
  "has_false (JObj fs) = (\<exists>e \<in> set fs. quoted_valid (fst e) \<and> snd e = JBool False \<or> has_false (snd e))"
| "has_false (JArr xs) = (\<exists>x \<in> set xs. has_false x)"
| "has_false _ = False"

definition prints :: "token list \<Rightarrow> bool \<Rightarrow> bool" where
  "prints x b \<longleftrightarrow> (\<forall>ts. boundary ts \<longrightarrow> separated ts \<longrightarrow> separated (x @ ts) \<and> (hit (x @ ts) \<longleftrightarrow> b \<or> hit ts))"

lemma prints_chars: "CHR 0x22 \<notin> set cs \<Longrightarrow> prints (map C cs) False"
  unfolding prints_def by (induction cs) auto

lemma prints_commas: "list_all2 prints xs bs \<Longrightarrow> prints (commas xs) (\<exists>b \<in> set bs. b)"
proof (induction xs bs rule: list_all2_induct)
  case Nil
  show ?case by (simp add: prints_def)
next
  case (Cons x xs b bs)
  then show ?case by (cases xs; cases bs) (auto simp: prints_def boundary_def)
qed

lemma prints_wrap: "prints x b \<Longrightarrow> c \<in> set '']}'' \<Longrightarrow> d \<in> set ''[{'' \<Longrightarrow> prints (C d # x @ [C c]) b"
  unfolding prints_def by (auto simp: boundary_def)

lemma starts_false:
  "num_ok num \<Longrightarrow> boundary ts \<Longrightarrow> startsWith (text_of_tokens (tokens num v @ ts)) ''false'' \<longleftrightarrow> v = JBool False"
proof (cases v)
  case (JNum n)
  assume "num_ok num" "boundary ts"
  with JNum show ?thesis
    by (cases "num n"; cases ts)
      (auto simp: num_ok_def boundary_def split: token.splits dest: spec [of _ n])
qed auto

lemma prints_string: "prints [Q s] False"
  by (auto simp: prints_def boundary_def split: list.splits token.splits)

lemma prints_field:
  assumes "num_ok num" and "prints (tokens num v) b"
  shows "prints (Q k # C CHR '':'' # tokens num v) (quoted_valid k \<and> v = JBool False \<or> b)"
  using assms starts_false [OF assms(1)] by (auto simp: prints_def)

lemma prints_tokens: "num_ok num \<Longrightarrow> prints (tokens num v) (has_false v)"
proof (induction v rule: has_false.induct)
  case (1 fs)
  let ?g = "\<lambda>e. if snd e = JUndef then [] else [Q (fst e) # C CHR '':'' # tokens num (snd e)]"
  let ?b = "\<lambda>e. if snd e = JUndef then [] else [quoted_valid (fst e) \<and> snd e = JBool False \<or> has_false (snd e)]"
  have "list_all2 prints (concat (map ?g fs)) (concat (map ?b fs))"
    using 1 by (induction fs) (auto intro!: list_all2_appendI prints_field simp del: tokens.simps)
  then have "prints (C CHR ''{'' # commas (concat (map ?g fs)) @ [C CHR ''}'']) (\<exists>b \<in> set (concat (map ?b fs)). b)"
    by (intro prints_wrap prints_commas) simp_all
  moreover have "(\<exists>b \<in> set (concat (map ?b fs)). b) \<longleftrightarrow> has_false (JObj fs)"
    by auto
  ultimately show ?case by (simp only: tokens.simps)
next
  case (2 xs)
  then have "list_all2 prints (map (tokens num) xs) (map has_false xs)"
    by (auto simp: list_all2_conv_all_nth)
  from prints_wrap [OF prints_commas [OF this]] show ?case by simp
qed (use prints_chars [of "''null''"] prints_chars [of "''true''"] prints_chars [of "''false''"] prints_string in
    \<open>auto simp: num_ok_def intro!: prints_chars\<close>)

section \<open>The graph as a map from paths to reports\<close>

definition REPORT_KEYS :: "string set" where
  "REPORT_KEYS = {''__valid'', ''__errors''}"

definition clean_path :: "string list \<Rightarrow> bool" where
  "clean_path p \<longleftrightarrow> set p \<inter> REPORT_KEYS = {}"

text \<open>The reports of the steps hold messages.\<close>

definition texts :: "js list \<Rightarrow> bool" where
  "texts es \<longleftrightarrow> (\<forall>e \<in> set es. is_string e)"

definition is_flag :: "js \<Rightarrow> bool" where
  "is_flag v = (case v of JBool _ \<Rightarrow> True | _ \<Rightarrow> False)"

definition is_texts :: "js \<Rightarrow> bool" where
  "is_texts v = (case v of JArr es \<Rightarrow> texts es | _ \<Rightarrow> False)"

lemma is_flag_iff [simp]: "is_flag v \<longleftrightarrow> (\<exists>b. v = JBool b)"
  by (cases v) (auto simp: is_flag_def)

lemma is_texts_iff [simp]: "is_texts v \<longleftrightarrow> (\<exists>es. v = JArr es \<and> texts es)"
  by (cases v) (auto simp: is_texts_def)

fun wf_graph :: "js \<Rightarrow> bool" where
  "wf_graph (JObj fs) \<longleftrightarrow> keys_ok fs \<and> (obj_has fs ''__valid'' \<longleftrightarrow> obj_has fs ''__errors'') \<and>
     (\<forall>e \<in> set fs.
       if fst e = ''__valid'' then is_flag (snd e)
       else if fst e = ''__errors'' then is_texts (snd e)
       else wf_graph (snd e))"
| "wf_graph _ = False"

definition report_of :: "js \<Rightarrow> report option" where
  "report_of v = (case (idx v ''__valid'', idx v ''__errors'') of
     (JBool b, JArr es) \<Rightarrow> Some \<lparr>rp_valid = b, rp_errors = es\<rparr> | _ \<Rightarrow> None)"

definition report_at :: "js \<Rightarrow> string list \<Rightarrow> report option" where
  "report_at g p = report_of (foldl idx g p)"

lemma idx_JUndef [simp]: "idx JUndef k = JUndef"
  by (simp add: idx_def)

lemma foldl_idx_JUndef [simp]: "foldl idx JUndef p = JUndef"
  by (induction p) auto

lemma report_of_JUndef [simp]: "report_of JUndef = None" "report_of (JObj []) = None"
  by (simp_all add: report_of_def)

lemma report_at_simps [simp]:
  "report_at g [] = report_of g"
  "report_at g (a # p) = report_at (idx g a) p"
  "report_at JUndef p = None"
  by (simp_all add: report_at_def)

lemma report_at_empty [simp]: "report_at (JObj []) p = None"
  by (cases p) auto

lemma wf_graph_object: "wf_graph g \<Longrightarrow> \<exists>fs. g = JObj fs"
  by (cases g) auto

lemma wf_graph_idx: "wf_graph g \<Longrightarrow> a \<notin> REPORT_KEYS \<Longrightarrow> idx g a = JUndef \<or> wf_graph (idx g a)"
  by (cases g; cases "map_of (entries g) a")
    (fastforce simp: obj_get_def REPORT_KEYS_def dest: map_of_SomeD)+

lemma wf_graph_empty [simp]: "wf_graph (JObj [])"
  by simp

lemma wf_graph_truthy: "wf_graph g \<Longrightarrow> truthy g"
  using wf_graph_object by fastforce

lemma put_report_object: "\<exists>fs. put_report r p g = JObj fs"
  by (cases p) auto

lemma report_of_object:
  "report_of (JObj fs) = (case (obj_get fs ''__valid'', obj_get fs ''__errors'') of
     (JBool b, JArr es) \<Rightarrow> Some \<lparr>rp_valid = b, rp_errors = es\<rparr> | _ \<Rightarrow> None)"
  by (simp add: report_of_def)

lemma set_update: "e \<in> set (AList.update k v fs) \<Longrightarrow> e = (k, v) \<or> e \<in> set fs \<and> (keys_ok fs \<longrightarrow> fst e \<noteq> k)"
  by (induction fs) (auto simp: keys_ok_def split: if_splits)

lemma wf_graph_put: "wf_graph g \<Longrightarrow> clean_path p \<Longrightarrow> texts (rp_errors r) \<Longrightarrow> wf_graph (put_report r p g)"
proof (induction p arbitrary: g)
  case Nil
  then obtain fs where "g = JObj fs" using wf_graph_object by blast
  with Nil show ?case by (fastforce dest!: set_update)
next
  case (Cons a p)
  then obtain fs where g: "g = JObj fs" using wf_graph_object by blast
  from Cons.prems have a: "a \<notin> REPORT_KEYS" and p: "clean_path p" by (auto simp: clean_path_def)
  have "wf_graph (js_or (idx g a) (JObj []))"
    using wf_graph_idx [OF Cons.prems(1) a] by (auto simp: js_or_def wf_graph_truthy)
  then have "wf_graph (put_report r p (js_or (idx g a) (JObj [])))"
    using Cons.IH p Cons.prems(3) by blast
  with Cons.prems(1) a show ?case
    by (auto simp: g REPORT_KEYS_def dest!: set_update)
qed

lemma report_at_put:
  "wf_graph g \<Longrightarrow> clean_path p \<Longrightarrow> clean_path q \<Longrightarrow>
     report_at (put_report r p g) q = (if q = p then Some r else report_at g q)"
proof (induction p arbitrary: g q)
  case Nil
  then obtain fs where g: "g = JObj fs" using wf_graph_object by blast
  show ?case
  proof (cases q)
    case (Cons b q')
    with Nil.prems(3) have "b \<notin> REPORT_KEYS" by (simp add: clean_path_def)
    with Cons show ?thesis by (auto simp: g REPORT_KEYS_def)
  qed (simp add: g report_of_object)
next
  case (Cons a p)
  then obtain fs where g: "g = JObj fs" using wf_graph_object by blast
  from Cons.prems have a: "a \<notin> REPORT_KEYS" and p: "clean_path p" by (auto simp: clean_path_def)
  have wf: "wf_graph (js_or (idx g a) (JObj []))"
    using wf_graph_idx [OF Cons.prems(1) a] by (auto simp: js_or_def wf_graph_truthy)
  show ?case
  proof (cases q)
    case Nil
    with a show ?thesis by (simp add: g report_of_object REPORT_KEYS_def)
  next
    case (Cons b q')
    then have q': "clean_path q'" using Cons.prems(3) by (simp add: clean_path_def)
    have "report_at (js_or (idx g a) (JObj [])) q' = report_at (idx g a) q'"
      using wf_graph_idx [OF Cons.prems(1) a] by (auto simp: js_or_def wf_graph_truthy)
    with Cons.IH [OF wf p q'] show ?thesis by (auto simp: Cons g)
  qed
qed

lemma obj_get_pair: "obj_get fs k \<noteq> JUndef \<Longrightarrow> (k, obj_get fs k) \<in> set fs"
  by (auto simp: obj_get_def dest: map_of_SomeD split: option.splits)

lemma texts_no_false: "texts es \<Longrightarrow> \<not> has_false (JArr es)"
proof -
  have "is_string e \<Longrightarrow> \<not> has_false e" for e by (cases e) (auto simp: is_string_def)
  then show "texts es \<Longrightarrow> \<not> has_false (JArr es)" by (auto simp: texts_def)
qed

lemma has_false_iff:
  "wf_graph g \<Longrightarrow> has_false g \<longleftrightarrow> (\<exists>p r. clean_path p \<and> report_at g p = Some r \<and> \<not> rp_valid r)"
proof (induction g rule: wf_graph.induct)
  case (1 fs)
  from 1(2) have ok: "keys_ok fs" by simp
  have both: "obj_has fs ''__valid'' \<longleftrightarrow> obj_has fs ''__errors''" using 1(2) by simp
  have field: "if fst e = ''__valid'' then \<exists>b. snd e = JBool b
      else if fst e = ''__errors'' then \<exists>es. snd e = JArr es \<and> texts es else wf_graph (snd e)"
    if "e \<in> set fs" for e
  proof -
    from 1(2) that have "if fst e = ''__valid'' then is_flag (snd e)
       else if fst e = ''__errors'' then is_texts (snd e) else wf_graph (snd e)" by (simp del: is_flag_iff is_texts_iff)
    then show ?thesis by (simp only: is_flag_iff is_texts_iff)
  qed
  show ?case
  proof
    assume "has_false (JObj fs)"
    then obtain e where e: "e \<in> set fs" and bad: "quoted_valid (fst e) \<and> snd e = JBool False \<or> has_false (snd e)"
      by auto
    note get = in_obj_get [OF ok e]
    consider "fst e = ''__valid''" | "fst e = ''__errors''" | "fst e \<notin> REPORT_KEYS" by (auto simp: REPORT_KEYS_def)
    then show "\<exists>p r. clean_path p \<and> report_at (JObj fs) p = Some r \<and> \<not> rp_valid r"
    proof cases
      case 1
      with field [OF e] bad have "obj_get fs ''__valid'' = JBool False" using get by auto
      moreover obtain es where "obj_get fs ''__errors'' = JArr es"
      proof -
        have "obj_has fs ''__valid''" using e 1 by (force simp: obj_has_def)
        then obtain e' where e': "e' \<in> set fs" "fst e' = ''__errors''" using both by (auto simp: obj_has_def)
        with field [OF e'(1)] in_obj_get [OF ok e'(1)] that show thesis by auto
      qed
      ultimately have "report_at (JObj fs) [] = Some \<lparr>rp_valid = False, rp_errors = es\<rparr>"
        by (simp add: report_of_object)
      then show ?thesis by (intro exI [of _ "[]"]) (auto simp: clean_path_def)
    next
      case 2
      with field [OF e] bad texts_no_false show ?thesis by auto
    next
      case 3
      with field [OF e] have wf: "wf_graph (snd e)" by (auto simp: REPORT_KEYS_def)
      with bad have "has_false (snd e)" using wf_graph_object by fastforce
      with "1.IH" [OF e] 3 wf obtain p r where "clean_path p" "report_at (snd e) p = Some r" "\<not> rp_valid r"
        by (auto simp: REPORT_KEYS_def)
      with 3 get show ?thesis by (intro exI [of _ "fst e # p"]) (auto simp: clean_path_def)
    qed
  next
    assume "\<exists>p r. clean_path p \<and> report_at (JObj fs) p = Some r \<and> \<not> rp_valid r"
    then obtain p r where p: "clean_path p" and r: "report_at (JObj fs) p = Some r" "\<not> rp_valid r" by blast
    show "has_false (JObj fs)"
    proof (cases p)
      case Nil
      with r have "obj_get fs ''__valid'' = JBool False"
        by (auto simp: report_of_object split: js.splits)
      with obj_get_pair [of fs "''__valid''"] show ?thesis by (force simp: quoted_valid_def)
    next
      case (Cons a q)
      with p have a: "a \<notin> REPORT_KEYS" and q: "clean_path q" by (auto simp: clean_path_def)
      from Cons r have r': "report_at (obj_get fs a) q = Some r" by simp
      then have "obj_get fs a \<noteq> JUndef" by auto
      note e = obj_get_pair [OF this]
      from field [OF e] a have "wf_graph (obj_get fs a)" by (auto simp: REPORT_KEYS_def)
      with "1.IH" [OF e] a q r' r(2) have "has_false (obj_get fs a)" by (auto simp: REPORT_KEYS_def)
      with e show ?thesis by force
    qed
  qed
qed auto

lemma isValid_has_false: "num_ok num \<Longrightarrow> isValid num g \<longleftrightarrow> \<not> has_false g"
  using prints_tokens [of num g] includes_tokens [of "tokens num g"]
  by (auto simp: isValid_def stringify_def prints_def boundary_def dest: spec [of _ "[]"])

text \<open>
  C20. The search of the printed graph decides the validity of the form: it says the same as asking
  every report.
\<close>

theorem isValid_asks_every_report:
  assumes "wf_graph g" and "num_ok num"
  shows "isValid num g \<longleftrightarrow> (\<forall>p r. clean_path p \<and> report_at g p = Some r \<longrightarrow> rp_valid r)"
  using assms by (auto simp: isValid_has_false has_false_iff)

definition no_numbers :: "rat \<Rightarrow> string" where
  "no_numbers n = ''0''"

lemma no_numbers_ok: "num_ok no_numbers"
  by (simp add: num_ok_def no_numbers_def)

definition bad_report :: report where
  "bad_report = \<lparr>rp_valid = False, rp_errors = [JStr ''required'']\<rparr>"

definition one_bad :: js where
  "one_bad = put_report bad_report [''a'', ''b''] (JObj [])"

theorem isValid_asks_every_report_witness: "\<not> isValid no_numbers one_bad"
proof -
  have g: "wf_graph one_bad" by code_simp
  have "clean_path [''a'', ''b''] \<and> report_at one_bad [''a'', ''b''] = Some bad_report \<and> \<not> rp_valid bad_report"
    by code_simp
  then show ?thesis
    using isValid_asks_every_report [OF g no_numbers_ok] by blast
qed

section \<open>The form as a machine\<close>

text \<open>
  The steps of a form: a step hands in a report, the timer ticks. The timer may tick at any time.
\<close>

inductive form_reach :: "(rat \<Rightarrow> string) \<Rightarrow> form_state \<Rightarrow> bool" for num where
  start: "form_reach num form_init"
| report: "form_reach num s \<Longrightarrow> clean_path p \<Longrightarrow> texts (rp_errors r) \<Longrightarrow> form_reach num (setValidation p r s)"
| tick: "form_reach num s \<Longrightarrow> form_reach num (fst (handleTasks num s))"

text \<open>What a form in reach looks like: the graph is one of reports, and the flag is right.\<close>

definition form_inv :: "(rat \<Rightarrow> string) \<Rightarrow> form_state \<Rightarrow> bool" where
  "form_inv num s \<longleftrightarrow> wf_graph (vd_graph (fm_validation s)) \<and>
     vd_valid (fm_validation s) = isValid num (vd_graph (fm_validation s)) \<and>
     (\<forall>(p, r) \<in> set (fm_tasks s). clean_path p \<and> texts (rp_errors r))"

lemma wf_merged: "form_inv num s \<Longrightarrow> wf_graph (merged s)"
proof -
  have "\<lbrakk>wf_graph g; \<forall>(p, r) \<in> set ts. clean_path p \<and> texts (rp_errors r)\<rbrakk>
      \<Longrightarrow> wf_graph (foldl (\<lambda>g (path, r). put_report r path g) g ts)" for g ts
    by (induction ts arbitrary: g) (auto simp: wf_graph_put)
  then show "form_inv num s \<Longrightarrow> wf_graph (merged s)"
    by (simp add: form_inv_def merged_def)
qed

lemma handleTasks_graph: "vd_graph (fm_validation (fst (handleTasks num s))) = merged s"
  by (cases "fm_validation s") (auto simp: handleTasks_def Let_def merged_def)

lemma form_inv_init: "num_ok num \<Longrightarrow> form_inv num form_init"
  by (simp add: form_inv_def form_init_def isValid_has_false)

lemma form_inv_tick: "form_inv num s \<Longrightarrow> form_inv num (fst (handleTasks num s))"
  using wf_merged [of num s] by (auto simp: form_inv_def handleTasks_def Let_def)

lemma form_reach_inv: "form_reach num s \<Longrightarrow> num_ok num \<Longrightarrow> form_inv num s"
proof (induction rule: form_reach.induct)
  case (report s p r)
  then show ?case by (auto simp: form_inv_def setValidation_def)
qed (auto simp: form_inv_init form_inv_tick)

lemma report_at_merged:
  assumes "form_inv num s" and "clean_path p"
  shows "report_at (merged s) p =
    (case map_of (fm_tasks s) p of Some r \<Rightarrow> Some r | None \<Rightarrow> report_at (vd_graph (fm_validation s)) p)"
proof -
  have "\<lbrakk>wf_graph g; \<forall>(p, r) \<in> set ts. clean_path p \<and> texts (rp_errors r)\<rbrakk>
      \<Longrightarrow> wf_graph (foldr (\<lambda>(path, r) g. put_report r path g) ts g) \<and>
         report_at (foldr (\<lambda>(path, r) g. put_report r path g) ts g) p =
           (case map_of ts p of Some r \<Rightarrow> Some r | None \<Rightarrow> report_at g p)" for g ts
    using assms(2) by (induction ts) (auto simp: wf_graph_put report_at_put)
  from this [of "vd_graph (fm_validation s)" "fm_tasks s"] assms(1) show ?thesis
    by (simp add: form_inv_def merged_def foldl_conv_foldr case_prod_beta')
qed

text \<open>
  C4. In every state a form can reach, its flag is the truth about the reports in its graph.
\<close>

theorem form_validity_true:
  assumes "form_reach num s" and "num_ok num"
  shows "vd_valid (fm_validation s) \<longleftrightarrow>
    (\<forall>p r. clean_path p \<and> report_at (vd_graph (fm_validation s)) p = Some r \<longrightarrow> rp_valid r)"
  using form_reach_inv [OF assms] assms(2) by (auto simp: form_inv_def isValid_has_false has_false_iff)

theorem form_validity_true_witness:
  "vd_valid (fm_validation (fst (handleTasks no_numbers (setValidation [''a''] no_errors form_init)))) \<longleftrightarrow>
    (\<forall>p r. clean_path p \<and> report_at (vd_graph (fm_validation (fst (handleTasks no_numbers
       (setValidation [''a''] no_errors form_init))))) p = Some r \<longrightarrow> rp_valid r)"
proof (rule form_validity_true [OF _ no_numbers_ok])
  have "form_reach no_numbers (setValidation [''a''] no_errors form_init)"
    by (rule form_reach.report [OF form_reach.start]) (auto simp: clean_path_def REPORT_KEYS_def texts_def no_errors_def)
  then show "form_reach no_numbers (fst (handleTasks no_numbers (setValidation [''a''] no_errors form_init)))"
    by (rule form_reach.tick)
qed

text \<open>
  C19. The tick refines a merge of maps: the reports of the form become the old ones overridden by the
  queued ones, of which the first one queued for a path wins.
\<close>

theorem first_report_wins:
  assumes "form_reach num s" and "num_ok num" and "clean_path p"
  shows "report_at (vd_graph (fm_validation (fst (handleTasks num s)))) p =
    ((\<lambda>q. report_at (vd_graph (fm_validation s)) q) ++ map_of (fm_tasks s)) p"
  using report_at_merged [OF form_reach_inv [OF assms(1,2)] assms(3)]
  by (simp add: handleTasks_graph map_add_def)

theorem first_report_wins_witness:
  "report_at (vd_graph (fm_validation (fst (handleTasks no_numbers
     (setValidation [''a''] no_errors (setValidation [''a''] bad_report form_init)))))) [''a''] = Some bad_report"
proof -
  let ?s = "setValidation [''a''] no_errors (setValidation [''a''] bad_report form_init)"
  have "form_reach no_numbers ?s"
    by (intro form_reach.report form_reach.start)
      (auto simp: clean_path_def REPORT_KEYS_def texts_def no_errors_def bad_report_def is_string_def)
  from first_report_wins [OF this no_numbers_ok, of "[''a'']"] show ?thesis
    by (simp add: clean_path_def REPORT_KEYS_def setValidation_def form_init_def)
qed

text \<open>
  A tick tells the page of the form exactly when what is known of some step changed, and tells it
  the new validation.
\<close>

lemma tick_reports_changes:
  assumes "form_reach num s" and "num_ok num"
  shows "case snd (handleTasks num s) of
      None \<Rightarrow> \<forall>p. clean_path p \<longrightarrow> report_at (merged s) p = report_at (vd_graph (fm_validation s)) p
    | Some v \<Rightarrow> v = fm_validation (fst (handleTasks num s)) \<and> vd_graph v \<noteq> vd_graph (fm_validation s)"
proof -
  have valid: "vd_valid (fm_validation s) = isValid num (vd_graph (fm_validation s))"
    using form_reach_inv [OF assms] by (simp add: form_inv_def)
  show ?thesis
  proof (cases "snd (handleTasks num s)")
    case None
    then have "merged s = vd_graph (fm_validation s)"
      by (cases "fm_validation s") (auto simp: handleTasks_def Let_def merged_def split: if_splits)
    with None show ?thesis by simp
  next
    case (Some v)
    with valid show ?thesis
      by (cases "fm_validation s") (auto simp: handleTasks_def Let_def split: if_splits)
  qed
qed

lemma tick_reports_changes_witness:
  "snd (handleTasks no_numbers (setValidation [''a''] bad_report form_init)) \<noteq> None"
proof -
  let ?s = "setValidation [''a''] bad_report form_init"
  have reach: "form_reach no_numbers ?s"
    by (intro form_reach.report form_reach.start)
      (auto simp: clean_path_def REPORT_KEYS_def texts_def bad_report_def is_string_def)
  have "report_at (merged ?s) [''a''] \<noteq> report_at (vd_graph (fm_validation ?s)) [''a'']"
    by code_simp
  moreover have "clean_path [''a'']" by code_simp
  ultimately show ?thesis
    using tick_reports_changes [OF reach no_numbers_ok] by (auto split: option.splits)
qed

end
