(* ===== verification/Table_View.thy ===== *)
theory Table_View
  imports Prelude
begin

text \<open>
  The table of entities of the console (\<open>components/inputs/Table.js\<close>): the rows it shows of what the
  server answered (sorted, filtered and cut in pages), and the forms that create and edit an entity.

  \<^item> \<open>table_env\<close>: lodash's \<open>get\<close>, the order of \<open>localeCompare\<close>, and the conversions of a value to a
    text and to a number (\<open>None\<close> for \<open>NaN\<close>).
  \<^item> \<open>table\<close> is the state of \<open>TableComponent\<close>, and \<open>table_props\<close> what the page gave it. An operation
    that waits for the server is split in two: the click, which sends a request, and the answer.
  \<^item> \<open>update\<close> is debounced: the model starts where the timer calls it. The drawing of the columns and
    the titles of the page are left out.
\<close>

section \<open>The rows shown\<close>

record table_env =
  te_get :: "js \<Rightarrow> string \<Rightarrow> js"
  te_locale :: "string \<Rightarrow> string \<Rightarrow> rat"
  te_text :: "js \<Rightarrow> string"
  te_number :: "js \<Rightarrow> rat option"

definition getValueAtPath :: "table_env \<Rightarrow> js \<Rightarrow> string \<Rightarrow> js" where
  "getValueAtPath env item filterId =
     (let v = te_get env item (toLowerCase filterId) in if truthy v then v else te_get env item filterId)"

definition to_number :: "table_env \<Rightarrow> js \<Rightarrow> rat option" where
  "to_number env v =
     (case v of JNum n \<Rightarrow> Some n | JNull \<Rightarrow> Some 0 | JBool b \<Rightarrow> Some (if b then 1 else 0) | JUndef \<Rightarrow> None
      | _ \<Rightarrow> te_number env v)"

text \<open>\<open>a - b\<close> as the answer of a comparison; \<open>NaN\<close> counts as 0.\<close>

definition minus_js :: "table_env \<Rightarrow> js \<Rightarrow> js \<Rightarrow> rat" where
  "minus_js env a b = (case (to_number env a, to_number env b) of (Some x, Some y) \<Rightarrow> x - y | _ \<Rightarrow> 0)"

definition is_bool :: "js \<Rightarrow> bool" where
  "is_bool v = (case v of JBool _ \<Rightarrow> True | _ \<Rightarrow> False)"

text \<open>
  The comparison of two rows by a column. \<open>x?.localeCompare(y)\<close> throws on a value that is neither a
  string nor absent, and the handler then compares booleans or numbers.
\<close>

definition compare_values :: "table_env \<Rightarrow> bool \<Rightarrow> js \<Rightarrow> js \<Rightarrow> rat" where
  "compare_values env desc a b =
     (let x = if desc then a else b; y = if desc then b else a in
      case x of
        JStr s \<Rightarrow> te_locale env s (te_text env y)
      | _ \<Rightarrow>
          if nullish x then 0
          else if is_bool a \<or> is_bool b
          then (if a = b then 0 else if truthy a then (if desc then -1 else 1) else (if desc then 1 else -1))
          else if desc then minus_js env a b else minus_js env b a)"

definition compare_rows :: "table_env \<Rightarrow> string \<times> bool \<Rightarrow> js \<Rightarrow> js \<Rightarrow> rat" where
  "compare_rows env col a b =
     compare_values env (snd col) (getValueAtPath env a (fst col)) (getValueAtPath env b (fst col))"

text \<open>\<open>Array.prototype.sort\<close> with a comparison: stable.\<close>

fun insert_by :: "('a \<Rightarrow> 'a \<Rightarrow> rat) \<Rightarrow> 'a \<Rightarrow> 'a list \<Rightarrow> 'a list" where
  "insert_by cmp x [] = [x]"
| "insert_by cmp x (y # ys) = (if cmp x y \<le> 0 then x # y # ys else y # insert_by cmp x ys)"

definition sort_by :: "('a \<Rightarrow> 'a \<Rightarrow> rat) \<Rightarrow> 'a list \<Rightarrow> 'a list" where
  "sort_by cmp xs = foldr (insert_by cmp) xs []"

record pagination =
  pg_page :: "nat option"
  pg_sorted :: "(string \<times> bool) list option"
  pg_filtered :: "(string \<times> string) list option"

definition sorted_rows :: "table_env \<Rightarrow> pagination \<Rightarrow> js list \<Rightarrow> js list" where
  "sorted_rows env ps raw =
     (case pg_sorted ps of None \<Rightarrow> raw | Some sorts \<Rightarrow> foldl (\<lambda>rows s. sort_by (compare_rows env s) rows) raw sorts)"

definition row_matches :: "table_env \<Rightarrow> (string \<times> string) list \<Rightarrow> js \<Rightarrow> bool" where
  "row_matches env filters item =
     foldl (\<lambda>acc (i, v). acc \<and> includes_str (toLowerCase (te_text env (getValueAtPath env item i))) (toLowerCase v))
       True filters"

definition filtered_rows :: "table_env \<Rightarrow> pagination \<Rightarrow> js list \<Rightarrow> js list" where
  "filtered_rows env ps rows =
     filter (\<lambda>item. case pg_filtered ps of None \<Rightarrow> True | Some [] \<Rightarrow> True | Some fs \<Rightarrow> row_matches env fs item) rows"

definition slice :: "nat \<Rightarrow> nat \<Rightarrow> 'a list \<Rightarrow> 'a list" where
  "slice a b xs = take (b - a) (drop a xs)"

definition page_rows :: "table_env \<Rightarrow> pagination \<Rightarrow> nat \<Rightarrow> nat \<Rightarrow> js list \<Rightarrow> js list" where
  "page_rows env ps rows page raw =
     slice (rows * page) (rows * (page + 1)) (filtered_rows env ps (sorted_rows env ps raw))"

text \<open>\<open>Math.ceil(rawItems.length / rowsPerPage)\<close>.\<close>

definition page_count :: "nat \<Rightarrow> nat \<Rightarrow> nat" where
  "page_count rows n = (n + rows - 1) div rows"

section \<open>The state and the requests\<close>

record table =
  tb_items :: js
  tb_pages :: js
  tb_page :: nat
  tb_rows :: nat
  tb_loading :: bool
  tb_current :: js
  tb_add :: bool
  tb_edit :: bool
  tb_shortcuts :: bool
  tb_url :: "string option"

record table_props =
  tp_selfUrl :: string
  tp_extractKey :: "js \<Rightarrow> string"
  tp_hideEdit :: "js \<Rightarrow> bool"
  tp_rawEditUrl :: bool
  tp_navigates :: bool

definition table_init :: "nat \<Rightarrow> table" where
  "table_init rows = \<lparr>tb_items = JArr [], tb_pages = JNum 1, tb_page = 0, tb_rows = (if rows = 0 then 15 else rows),
     tb_loading = False, tb_current = JUndef, tb_add = False, tb_edit = False, tb_shortcuts = False, tb_url = None\<rparr>"

text \<open>What \<open>fetchItems\<close> is asked: everything, or a page (numbered from 1).\<close>

datatype fetch = All_items | Page pagination nat nat

definition update_call :: "pagination \<Rightarrow> table \<Rightarrow> table \<times> nat \<times> fetch" where
  "update_call ps s =
     (let page = (case pg_page ps of Some p \<Rightarrow> p | None \<Rightarrow> tb_page s)
      in (s\<lparr>tb_loading := True\<rparr>, page,
          if tb_add s \<or> tb_edit s then All_items else Page ps (tb_rows s) (page + 1)))"

definition calculateMaximumPages :: "table_env \<Rightarrow> js \<Rightarrow> js \<Rightarrow> js" where
  "calculateMaximumPages env pages response =
     (if to_number env (jprop response ''pages'') \<noteq> None then jprop response ''pages''
      else if jprop response ''ngPages'' \<noteq> JNum (-1) then jprop response ''ngPages'' else pages)"

definition update_done :: "table_env \<Rightarrow> pagination \<Rightarrow> nat \<Rightarrow> js \<Rightarrow> table \<Rightarrow> table res" where
  "update_done env ps page raw s =
     (case raw of
        JArr xs \<Rightarrow>
          Inr (s\<lparr>tb_items := JArr (page_rows env ps (tb_rows s) page xs), tb_loading := False,
                 tb_pages := JNum (of_nat (page_count (tb_rows s) (length xs))), tb_page := page\<rparr>)
      | _ \<Rightarrow>
          rbind (fld raw ''data'') (\<lambda>rows.
            Inr (s\<lparr>tb_items := rows, tb_pages := calculateMaximumPages env (tb_pages s) raw,
                   tb_loading := False, tb_page := page\<rparr>)))"

text \<open>The button that reloads, and the choice of the rows per page: no sort and no filter is passed.\<close>

definition plain_update :: pagination where
  "plain_update = \<lparr>pg_page = None, pg_sorted = None, pg_filtered = None\<rparr>"

definition rows_per_page :: "nat \<Rightarrow> table \<Rightarrow> table \<times> nat \<times> fetch" where
  "rows_per_page n s = update_call plain_update (s\<lparr>tb_rows := n, tb_page := 0\<rparr>)"

text \<open>\<open>isPaginate ? res.data : res\<close>.\<close>

definition fetched :: "js \<Rightarrow> js" where
  "fetched res = (if is_object res \<and> truthy (jprop res ''data'') then jprop res ''data'' else res)"

section \<open>The forms\<close>

definition dashboard :: string where
  "dashboard = ''/bo/dashboard/''"

definition closeAddForm :: "table_props \<Rightarrow> table \<Rightarrow> table" where
  "closeAddForm p s = s\<lparr>tb_shortcuts := False, tb_current := JNull, tb_add := False,
     tb_url := Some (dashboard @ tp_selfUrl p)\<rparr>"

text \<open>A default value that comes from the server arrives later, with the form.\<close>

definition showAddForm_click :: "table_props \<Rightarrow> table \<Rightarrow> table" where
  "showAddForm_click p s = s\<lparr>tb_shortcuts := True, tb_url := Some (dashboard @ tp_selfUrl p @ ''/add'')\<rparr>"

definition showAddForm_value :: "js \<Rightarrow> table \<Rightarrow> table" where
  "showAddForm_value v s = s\<lparr>tb_current := v, tb_add := True\<rparr>"

definition closeEditForm :: "table_props \<Rightarrow> table \<Rightarrow> table" where
  "closeEditForm p s =
     (if tp_navigates p then s\<lparr>tb_shortcuts := False, tb_url := Some (CHR ''/'' # tp_selfUrl p)\<rparr>
      else s\<lparr>tb_shortcuts := False, tb_current := JNull, tb_edit := False,
             tb_url := Some (dashboard @ tp_selfUrl p)\<rparr>)"

definition edit_url :: "table_props \<Rightarrow> js \<Rightarrow> string" where
  "edit_url p item = dashboard @ tp_selfUrl p @ (if tp_rawEditUrl p then ''/'' else ''/edit/'') @ tp_extractKey p item"

definition showEditForm :: "table_props \<Rightarrow> js \<Rightarrow> table \<Rightarrow> table" where
  "showEditForm p item s =
     (if tp_hideEdit p item then s
      else s\<lparr>tb_shortcuts := True, tb_url := Some (edit_url p item), tb_current := item, tb_edit := True\<rparr>)"

text \<open>\<open>readRoute\<close> for an address that ends in \<open>/edit/:item\<close>, when the entities have arrived.\<close>

definition edit_row :: "table_props \<Rightarrow> string \<Rightarrow> js \<Rightarrow> js res" where
  "edit_row p item answer =
     (case fetched answer of
        JArr rows \<Rightarrow> Inr (case filter (\<lambda>d. tp_extractKey p d = item) rows of r # _ \<Rightarrow> r | [] \<Rightarrow> JUndef)
      | _ \<Rightarrow> Inl TypeError)"

definition change_item :: "js \<Rightarrow> table \<Rightarrow> table" where
  "change_item v s = s\<lparr>tb_current := v\<rparr>"

text \<open>The answers to \<open>createItem\<close>, \<open>createItemAndStay\<close>, \<open>updateItem\<close> and \<open>deleteItem\<close>.\<close>

definition created_item :: "table_props \<Rightarrow> js \<Rightarrow> table \<Rightarrow> table" where
  "created_item p res s = s\<lparr>tb_url := Some (dashboard @ tp_selfUrl p), tb_items := fetched res, tb_add := False\<rparr>"

definition created_item_stay :: "table_props \<Rightarrow> table \<Rightarrow> table" where
  "created_item_stay p s =
     s\<lparr>tb_url := Some (dashboard @ tp_selfUrl p @ ''/edit/'' @ tp_extractKey p (tb_current s)), tb_add := False, tb_edit := True\<rparr>"

definition updated_item :: "js \<Rightarrow> table \<Rightarrow> table" where
  "updated_item res s = s\<lparr>tb_items := fetched res, tb_edit := False\<rparr>"

definition deleted_item :: "table_props \<Rightarrow> js \<Rightarrow> table \<Rightarrow> table" where
  "deleted_item p res s = s\<lparr>tb_url := Some (dashboard @ tp_selfUrl p), tb_items := fetched res, tb_edit := False, tb_add := False\<rparr>"

text \<open>\<open>saveShortcut\<close>: the requests Ctrl-S sends, with the entity.\<close>

datatype save_call = Save_update js | Save_create js

definition saveShortcut :: "table \<Rightarrow> save_call list" where
  "saveShortcut s =
     (if tb_shortcuts s
      then (if tb_edit s then [Save_update (tb_current s)] else []) @ (if tb_add s then [Save_create (tb_current s)] else [])
      else [])"

section \<open>Exports\<close>

text \<open>\<open>replace(/c/g, d)\<close> for a character.\<close>

definition replace_char :: "char \<Rightarrow> string \<Rightarrow> string \<Rightarrow> string" where
  "replace_char c d s = concat (map (\<lambda>x. if x = c then d else [x]) s)"

definition json_slug :: "string \<Rightarrow> string" where
  "json_slug s = toLowerCase (replace_char CHR ''.'' [] (replace_char CHR '')'' [] (replace_char CHR ''('' []
     (replace_char CHR '' '' ''-'' s))))"

definition yaml_slug :: "string \<Rightarrow> string" where
  "yaml_slug s = toLowerCase (replace_char CHR '')'' [] (replace_char CHR ''('' [] (replace_char CHR '' '' ''-'' s)))"

definition export_name :: "js \<Rightarrow> string res" where
  "export_name item =
     rbind (fld item ''name'') (\<lambda>name.
       case js_or name (jprop item ''clientName'') of JStr s \<Rightarrow> Inr s | _ \<Rightarrow> Inl TypeError)"

definition json_file :: "string \<Rightarrow> js \<Rightarrow> nat \<Rightarrow> string res" where
  "json_file itemName item now =
     rbind (export_name item) (\<lambda>name.
       Inr (json_slug itemName @ ''-'' @ json_slug name @ ''-'' @ nat_str now @ ''.json''))"

definition json_content :: "js \<Rightarrow> js \<Rightarrow> js" where
  "json_content kind item = JObj (spread (entries item) [(''kind'', kind)])"

definition yaml_file :: "string \<Rightarrow> js \<Rightarrow> nat \<Rightarrow> string res" where
  "yaml_file itemName item now =
     rbind (export_name item) (\<lambda>name.
       Inr (yaml_slug itemName @ ''-'' @ yaml_slug name @ ''-'' @ nat_str now @ ''.yaml''))"

definition yaml_kind :: "string \<Rightarrow> string" where
  "yaml_kind k = (if CHR ''/'' \<in> set k then split_on CHR ''/'' k ! 1 else k)"

definition yaml_body :: "string \<Rightarrow> js \<Rightarrow> js res" where
  "yaml_body kind item =
     rbind (export_name item) (\<lambda>name.
       Inr (JObj [(''apiVersion'', JStr ''proxy.otoroshi.io/v1''), (''kind'', JStr (yaml_kind kind)),
         (''metadata'', JObj [(''name'', JStr (yaml_slug name))]), (''spec'', item)]))"

section \<open>The columns\<close>

text \<open>\<open>ColumnsSelector\<close>: the example shown for the path of a new column.\<close>

definition example_value :: "js \<Rightarrow> string \<Rightarrow> js" where
  "example_value template path =
     foldl (\<lambda>r k. if truthy r then obj_get (entries r) k else JObj []) template (split_on CHR ''.'' path)"

section \<open>Sorting\<close>

lemma set_insert_by [simp]: "set (insert_by cmp x ys) = insert x (set ys)"
  by (induction ys) auto

lemma set_sort_by [simp]: "set (sort_by cmp xs) = set xs"
  unfolding sort_by_def by (induction xs) auto

lemma length_insert_by [simp]: "length (insert_by cmp x ys) = Suc (length ys)"
  by (induction ys) auto

lemma length_sort_by [simp]: "length (sort_by cmp xs) = length xs"
  unfolding sort_by_def by (induction xs) auto

text \<open>What \<open>sort\<close> relies on: a comparison that is a total preorder on the rows.\<close>

definition orders :: "('a \<Rightarrow> 'a \<Rightarrow> rat) \<Rightarrow> 'a set \<Rightarrow> bool" where
  "orders cmp A \<longleftrightarrow> (\<forall>x \<in> A. \<forall>y \<in> A. cmp x y \<le> 0 \<or> cmp y x \<le> 0)
     \<and> (\<forall>x \<in> A. \<forall>y \<in> A. \<forall>z \<in> A. cmp x y \<le> 0 \<longrightarrow> cmp y z \<le> 0 \<longrightarrow> cmp x z \<le> 0)"

lemma sorted_insert_by:
  "orders cmp A \<Longrightarrow> x \<in> A \<Longrightarrow> set ys \<subseteq> A \<Longrightarrow> sorted_wrt (\<lambda>a b. cmp a b \<le> 0) ys \<Longrightarrow>
     sorted_wrt (\<lambda>a b. cmp a b \<le> 0) (insert_by cmp x ys)"
proof (induction ys)
  case (Cons y ys)
  then have y: "y \<in> A" and ys: "\<forall>z \<in> set ys. z \<in> A \<and> cmp y z \<le> 0" by auto
  show ?case
  proof (cases "cmp x y \<le> 0")
    case True
    with Cons.prems(1,2) y ys have "\<forall>z \<in> set ys. cmp x z \<le> 0" unfolding orders_def by blast
    with True Cons.prems(4) show ?thesis by simp
  next
    case False
    with Cons.prems(1,2) y have "cmp y x \<le> 0" unfolding orders_def by blast
    moreover have "sorted_wrt (\<lambda>a b. cmp a b \<le> 0) (insert_by cmp x ys)"
      using Cons by simp
    ultimately show ?thesis using False ys by simp
  qed
qed simp

lemma sorted_sort_by:
  "orders cmp A \<Longrightarrow> set xs \<subseteq> A \<Longrightarrow> sorted_wrt (\<lambda>a b. cmp a b \<le> 0) (sort_by cmp xs)"
  unfolding sort_by_def
proof (induction xs)
  case (Cons x xs)
  then show ?case
    using sorted_insert_by [of cmp A x "foldr (insert_by cmp) xs []"] set_sort_by [of cmp xs, unfolded sort_by_def]
    by auto
qed simp

lemma sorted_rows_set [simp]: "set (sorted_rows env ps raw) = set raw"
proof -
  have "set (foldl (\<lambda>rows s. sort_by (compare_rows env s) rows) raw sorts) = set raw" for sorts
    by (induction sorts arbitrary: raw) auto
  then show ?thesis by (simp add: sorted_rows_def split: option.splits)
qed

lemma sorted_rows_length [simp]: "length (sorted_rows env ps raw) = length raw"
proof -
  have "length (foldl (\<lambda>rows s. sort_by (compare_rows env s) rows) raw sorts) = length raw" for sorts
    by (induction sorts arbitrary: raw) auto
  then show ?thesis by (simp add: sorted_rows_def split: option.splits)
qed

text \<open>The documented order of \<open>localeCompare\<close>: total and transitive.\<close>

definition locale_ok :: "table_env \<Rightarrow> bool" where
  "locale_ok env \<longleftrightarrow> orders (te_locale env) UNIV \<and> (\<forall>s. te_text env (JStr s) = s)"

definition text_column :: "table_env \<Rightarrow> string \<Rightarrow> js list \<Rightarrow> bool" where
  "text_column env col raw \<longleftrightarrow> (\<forall>r \<in> set raw. is_string (getValueAtPath env r col))"

definition text_at :: "table_env \<Rightarrow> string \<Rightarrow> js \<Rightarrow> string" where
  "text_at env col r = te_text env (getValueAtPath env r col)"

text \<open>
  The rows of a sorted table are in the order of the last column of the sort, and in the opposite
  direction: a column marked as descending is shown in ascending order, and the other way round.
\<close>

lemma sort_is_inverted:
  assumes "locale_ok env" and "pg_sorted ps = Some (sorts @ [(col, desc)])" and "text_column env col raw"
  shows "sorted_wrt (\<lambda>a b. if desc then te_locale env (text_at env col a) (text_at env col b) \<le> 0
                           else te_locale env (text_at env col b) (text_at env col a) \<le> 0)
     (sorted_rows env ps raw)"
proof -
  let ?rows = "foldl (\<lambda>rows s. sort_by (compare_rows env s) rows) raw sorts"
  have rows: "set ?rows = set raw"
    using sorted_rows_set [of env "ps\<lparr>pg_sorted := Some sorts\<rparr>" raw] by (simp add: sorted_rows_def)
  have str: "\<exists>s. getValueAtPath env r col = JStr s" if "r \<in> set raw" for r
    using that assms(3) by (cases "getValueAtPath env r col") (auto simp: text_column_def is_string_def)
  have cmp: "compare_rows env (col, desc) a b = (if desc then te_locale env (text_at env col a) (text_at env col b)
      else te_locale env (text_at env col b) (text_at env col a))"
    if "a \<in> set raw" "b \<in> set raw" for a b
  proof -
    from str [OF that(1)] str [OF that(2)] obtain s t
      where "getValueAtPath env a col = JStr s" "getValueAtPath env b col = JStr t" by blast
    with assms(1) show ?thesis
      by (simp add: compare_rows_def compare_values_def text_at_def locale_ok_def)
  qed
  have "orders (compare_rows env (col, desc)) (set raw)"
    using assms(1) by (auto simp: orders_def cmp locale_ok_def)
  then have "sorted_wrt (\<lambda>a b. compare_rows env (col, desc) a b \<le> 0) (sort_by (compare_rows env (col, desc)) ?rows)"
    using rows by (intro sorted_sort_by) auto
  then have "sorted_wrt (\<lambda>a b. if desc then te_locale env (text_at env col a) (text_at env col b) \<le> 0
      else te_locale env (text_at env col b) (text_at env col a) \<le> 0) (sort_by (compare_rows env (col, desc)) ?rows)"
    using rows by (elim sorted_wrt_mono_rel [rotated]) (auto simp: cmp)
  then show ?thesis by (simp add: sorted_rows_def assms(2))
qed

definition name_env :: table_env where
  "name_env = \<lparr>te_get = \<lambda>v k. jprop v k, te_locale = \<lambda>a b. of_nat (length a) - of_nat (length b),
     te_text = \<lambda>v. (case v of JStr s \<Rightarrow> s | _ \<Rightarrow> ''undefined''), te_number = \<lambda>v. None\<rparr>"

lemma name_env_ok: "locale_ok name_env"
  by (auto simp: locale_ok_def name_env_def orders_def)

definition named :: "string \<Rightarrow> js" where
  "named n = JObj [(''name'', JStr n)]"

lemma sort_is_inverted_witness:
  "sorted_wrt (\<lambda>a b. te_locale name_env (text_at name_env ''name'' b) (text_at name_env ''name'' a) \<le> 0)
     (sorted_rows name_env \<lparr>pg_page = None, pg_sorted = Some [(''name'', False)], pg_filtered = None\<rparr> [named ''a'', named ''bb''])
   \<and> sorted_rows name_env \<lparr>pg_page = None, pg_sorted = Some [(''name'', False)], pg_filtered = None\<rparr> [named ''a'', named ''bb'']
     = [named ''bb'', named ''a'']"
proof
  have "text_column name_env ''name'' [named ''a'', named ''bb'']" by code_simp
  then show "sorted_wrt (\<lambda>a b. te_locale name_env (text_at name_env ''name'' b) (text_at name_env ''name'' a) \<le> 0)
     (sorted_rows name_env \<lparr>pg_page = None, pg_sorted = Some [(''name'', False)], pg_filtered = None\<rparr> [named ''a'', named ''bb''])"
    using sort_is_inverted [OF name_env_ok, of _ "[]" "''name''" False] by simp
  show "sorted_rows name_env \<lparr>pg_page = None, pg_sorted = Some [(''name'', False)], pg_filtered = None\<rparr> [named ''a'', named ''bb'']
     = [named ''bb'', named ''a'']"
    by code_simp
qed

section \<open>Pages\<close>

lemma slices_take:
  "concat (map (\<lambda>p. slice (r * p) (r * (p + 1)) xs) [0..<n]) = take (r * n) xs"
proof (induction n)
  case (Suc n)
  have "take (r * n) xs @ take r (drop (r * n) xs) = take (r * n + r) xs"
    by (simp add: take_add)
  with Suc show ?case by (simp add: slice_def add.commute)
qed simp

lemma page_count_enough: "0 < r \<Longrightarrow> n \<le> r * page_count r n"
proof -
  assume r: "0 < r"
  have "r * ((n + r - 1) div r) + (n + r - 1) mod r = n + r - 1" by simp
  moreover have "(n + r - 1) mod r < r" using r by simp
  ultimately show ?thesis unfolding page_count_def by linarith
qed

lemma page_count_least: "0 < r \<Longrightarrow> n \<le> r * m \<Longrightarrow> page_count r n \<le> m"
proof -
  assume r: "0 < r" and n: "n \<le> r * m"
  then have "n + r - 1 < r * Suc m" by simp
  then show ?thesis using r unfolding page_count_def by (simp add: less_mult_imp_div_less mult.commute less_Suc_eq_le [symmetric])
qed

text \<open>
  C30. The pages the table counts hold the rows: shown one after the other they are the rows that pass
  the filters, each once, in the order of the sort. The last of them is empty exactly when the rows that pass the filters need
  fewer pages than all the rows, which the count is of.
\<close>

theorem pages_show_filtered_rows:
  assumes "0 < rows"
  shows "concat (map (\<lambda>p. page_rows env ps rows p raw) [0..<page_count rows (length raw)])
      = filtered_rows env ps (sorted_rows env ps raw) \<and>
    (page_count rows (length (filtered_rows env ps (sorted_rows env ps raw))) < page_count rows (length raw) \<longleftrightarrow>
      raw \<noteq> [] \<and> page_rows env ps rows (page_count rows (length raw) - 1) raw = [])"
proof
  let ?f = "filtered_rows env ps (sorted_rows env ps raw)" and ?pc = "page_count rows"
  have short: "length ?f \<le> length raw"
    using length_filter_le [of _ "sorted_rows env ps raw"] by (simp add: filtered_rows_def)
  then have "length ?f \<le> rows * ?pc (length raw)"
    using page_count_enough [OF assms, of "length raw"] by linarith
  then show "concat (map (\<lambda>p. page_rows env ps rows p raw) [0..<?pc (length raw)]) = ?f"
    unfolding page_rows_def by (subst slices_take) simp
  show "?pc (length ?f) < ?pc (length raw) \<longleftrightarrow> raw \<noteq> [] \<and> page_rows env ps rows (?pc (length raw) - 1) raw = []"
  proof (cases "raw = []")
    case True
    with short show ?thesis by simp
  next
    case False
    have pos: "0 < ?pc (length raw)"
      using False page_count_enough [OF assms, of "length raw"] by (cases "?pc (length raw)") auto
    have "page_rows env ps rows (?pc (length raw) - 1) raw = [] \<longleftrightarrow> length ?f \<le> rows * (?pc (length raw) - 1)"
      using assms by (simp add: page_rows_def slice_def)
    also have "\<dots> \<longleftrightarrow> ?pc (length ?f) \<le> ?pc (length raw) - 1"
      using page_count_least [OF assms] page_count_enough [OF assms, of "length ?f"]
      by (meson le_trans mult_le_mono2)
    finally show ?thesis using False pos by auto
  qed
qed

definition only_b :: pagination where
  "only_b = \<lparr>pg_page = None, pg_sorted = None, pg_filtered = Some [(''name'', ''B'')]\<rparr>"

theorem pages_show_filtered_rows_witness:
  "concat (map (\<lambda>p. page_rows name_env only_b 1 p [named ''a'', named ''bb''])
     [0..<page_count 1 (length [named ''a'', named ''bb''])]) = [named ''bb'']"
proof -
  have "filtered_rows name_env only_b (sorted_rows name_env only_b [named ''a'', named ''bb'']) = [named ''bb'']"
    by code_simp
  with pages_show_filtered_rows [OF zero_less_one, of name_env only_b "[named ''a'', named ''bb'']"] show ?thesis
    by (simp only:)
qed

section \<open>The table as a machine\<close>

text \<open>
  A session: the state and the requests that wait for an answer. The answers come in any order, and
  the entities of the server are whatever it answers. \<open>ui\<close> says what the page can do in a state: the
  buttons that open a form are on the list of rows, those that save or close are on the form. The default value of a new entity
  is there at once (\<open>add_now\<close>) or comes from the server (\<open>add\<close>). Closing a form asks for the rows later, with a \<open>reload\<close>.
\<close>

datatype pending =
    P_update pagination nat
  | P_create
  | P_create_stay
  | P_save
  | P_delete
  | P_default
  | P_route string

record session =
  ss_table :: table
  ss_pending :: "pending list"

definition on_list :: "table \<Rightarrow> bool" where
  "on_list s \<longleftrightarrow> \<not> tb_add s \<and> \<not> tb_edit s"

definition answer :: "table_env \<Rightarrow> table_props \<Rightarrow> pending \<Rightarrow> js \<Rightarrow> table \<Rightarrow> table res" where
  "answer env p q res s =
     (case q of
        P_update ps page \<Rightarrow> update_done env ps page res s
      | P_create \<Rightarrow> Inr (created_item p res s)
      | P_create_stay \<Rightarrow> Inr (created_item_stay p s)
      | P_save \<Rightarrow> Inr (updated_item res s)
      | P_delete \<Rightarrow> Inr (deleted_item p res s)
      | P_default \<Rightarrow> Inr (showAddForm_value res s)
      | P_route item \<Rightarrow> rbind (edit_row p item res) (\<lambda>row. Inr (showEditForm p row s)))"

inductive session_step :: "table_env \<Rightarrow> table_props \<Rightarrow> session \<Rightarrow> session \<Rightarrow> bool" for env p where
  reload: "session_step env p \<lparr>ss_table = s, ss_pending = ws\<rparr>
     \<lparr>ss_table = fst (update_call ps s), ss_pending = P_update ps (fst (snd (update_call ps s))) # ws\<rparr>"
| add: "on_list s \<Longrightarrow> session_step env p \<lparr>ss_table = s, ss_pending = ws\<rparr>
     \<lparr>ss_table = showAddForm_click p s, ss_pending = P_default # ws\<rparr>"
| add_now: "on_list s \<Longrightarrow> session_step env p \<lparr>ss_table = s, ss_pending = ws\<rparr>
     \<lparr>ss_table = showAddForm_value v (showAddForm_click p s), ss_pending = ws\<rparr>"
| close_add: "tb_add s \<Longrightarrow> session_step env p \<lparr>ss_table = s, ss_pending = ws\<rparr> \<lparr>ss_table = closeAddForm p s, ss_pending = ws\<rparr>"
| close_edit: "tb_edit s \<Longrightarrow> session_step env p \<lparr>ss_table = s, ss_pending = ws\<rparr> \<lparr>ss_table = closeEditForm p s, ss_pending = ws\<rparr>"
| change: "tb_add s \<or> tb_edit s \<Longrightarrow> session_step env p \<lparr>ss_table = s, ss_pending = ws\<rparr> \<lparr>ss_table = change_item v s, ss_pending = ws\<rparr>"
| create: "tb_add s \<Longrightarrow> session_step env p \<lparr>ss_table = s, ss_pending = ws\<rparr> \<lparr>ss_table = s, ss_pending = P_create # ws\<rparr>"
| create_stay: "tb_add s \<Longrightarrow> session_step env p \<lparr>ss_table = s, ss_pending = ws\<rparr> \<lparr>ss_table = s, ss_pending = P_create_stay # ws\<rparr>"
| save: "tb_edit s \<Longrightarrow> session_step env p \<lparr>ss_table = s, ss_pending = ws\<rparr> \<lparr>ss_table = s, ss_pending = P_save # ws\<rparr>"
| delete: "session_step env p \<lparr>ss_table = s, ss_pending = ws\<rparr> \<lparr>ss_table = s, ss_pending = P_delete # ws\<rparr>"
| arrive: "answer env p q res s = Inr s' \<Longrightarrow>
     session_step env p \<lparr>ss_table = s, ss_pending = ws @ q # vs\<rparr> \<lparr>ss_table = s', ss_pending = ws @ vs\<rparr>"

inductive_cases session_stepE: "session_step env p S S'"

definition opens :: "pending \<Rightarrow> bool" where
  "opens q = (case q of P_default \<Rightarrow> True | P_route _ \<Rightarrow> True | _ \<Rightarrow> False)"

text \<open>
  The sessions in which one request waits at a time, and no form for a new entity is open while the entity of the address is
  awaited.
\<close>

definition route_awaited :: "session \<Rightarrow> bool" where
  "route_awaited S \<longleftrightarrow> (\<exists>q \<in> set (ss_pending S). case q of P_route _ \<Rightarrow> True | _ \<Rightarrow> False)"

inductive calm_session :: "table_env \<Rightarrow> table_props \<Rightarrow> session \<Rightarrow> bool" for env p where
  open_list: "calm_session env p \<lparr>ss_table = table_init n, ss_pending = []\<rparr>"
| open_route: "calm_session env p \<lparr>ss_table = table_init n, ss_pending = [P_route item]\<rparr>"
| step: "calm_session env p S \<Longrightarrow> session_step env p S S' \<Longrightarrow> length (ss_pending S') \<le> 1 \<Longrightarrow>
     \<not> (tb_add (ss_table S') \<and> route_awaited S') \<Longrightarrow> calm_session env p S'"

definition calm_inv :: "session \<Rightarrow> bool" where
  "calm_inv S \<longleftrightarrow> \<not> (tb_add (ss_table S) \<and> tb_edit (ss_table S)) \<and> length (ss_pending S) \<le> 1
     \<and> (\<forall>q \<in> set (ss_pending S). opens q \<longrightarrow> \<not> tb_edit (ss_table S))
     \<and> \<not> (tb_add (ss_table S) \<and> route_awaited S)"

lemmas table_ops = update_call_def closeAddForm_def showAddForm_click_def showAddForm_value_def closeEditForm_def
  showEditForm_def change_item_def created_item_def created_item_stay_def updated_item_def deleted_item_def on_list_def

lemma update_done_forms:
  "update_done env ps page res s = Inr s' \<Longrightarrow> tb_add s' = tb_add s \<and> tb_edit s' = tb_edit s"
  by (auto simp: update_done_def split: js.splits)

lemma calm_inv_step:
  assumes "session_step env p S S'" and "calm_inv S" and "length (ss_pending S') \<le> 1"
    and "\<not> (tb_add (ss_table S') \<and> route_awaited S')"
  shows "calm_inv S'"
  using assms
proof (cases rule: session_step.cases)
  case (arrive q res s s' ws vs)
  with assms(2) have "ws = []" "vs = []" and "opens q \<longrightarrow> \<not> tb_edit s" and "\<not> (tb_add s \<and> tb_edit s)"
      and "\<not> (tb_add s \<and> (case q of P_route _ \<Rightarrow> True | _ \<Rightarrow> False))"
    by (auto simp: calm_inv_def route_awaited_def)
  with arrive show ?thesis
    by (cases q) (auto simp: calm_inv_def answer_def opens_def route_awaited_def table_ops dest: update_done_forms split: if_splits)
qed (use assms(4) in \<open>auto simp: calm_inv_def opens_def table_ops Let_def route_awaited_def\<close>)

text \<open>
  C32. As long as one request waits at a time, and no form for a new entity is opened while the entity of an address
  \<open>/edit/:item\<close> is awaited, the table shows one form at most, and Ctrl-S saves at most once.
\<close>

theorem one_form_at_a_time:
  assumes "calm_session env p S"
  shows "\<not> (tb_add (ss_table S) \<and> tb_edit (ss_table S)) \<and> length (saveShortcut (ss_table S)) \<le> 1"
proof -
  from assms have "calm_inv S"
  proof (induction rule: calm_session.induct)
    case (step S S')
    show ?case by (rule calm_inv_step [OF step(2,5,3,4)])
  qed (simp_all add: calm_inv_def table_init_def on_list_def opens_def route_awaited_def)
  then show ?thesis by (auto simp: calm_inv_def saveShortcut_def)
qed

definition name_props :: table_props where
  "name_props = \<lparr>tp_selfUrl = ''groups'', tp_extractKey = \<lambda>v. te_text name_env (jprop v ''name''), tp_hideEdit = \<lambda>v. False,
     tp_rawEditUrl = False, tp_navigates = True\<rparr>"

theorem one_form_at_a_time_witness:
  "\<not> (tb_add (showAddForm_value (named ''new'') (showAddForm_click name_props (table_init 15)))
      \<and> tb_edit (showAddForm_value (named ''new'') (showAddForm_click name_props (table_init 15))))"
proof -
  let ?s = "showAddForm_click name_props (table_init 15)"
  have 1: "calm_session name_env name_props \<lparr>ss_table = ?s, ss_pending = [P_default]\<rparr>"
    by (rule calm_session.step [OF calm_session.open_list [of _ _ 15]], rule session_step.add)
      (simp_all add: on_list_def table_init_def showAddForm_click_def)
  have "session_step name_env name_props \<lparr>ss_table = ?s, ss_pending = [] @ P_default # []\<rparr>
      \<lparr>ss_table = showAddForm_value (named ''new'') ?s, ss_pending = [] @ []\<rparr>"
    by (rule session_step.arrive) (simp add: answer_def)
  from one_form_at_a_time [OF calm_session.step [OF 1, simplified, OF this [simplified]]] show ?thesis
    by (simp add: route_awaited_def)
qed

text \<open>
  A click while the entity of an address \<open>/edit/:item\<close> is on its way opens both forms, and Ctrl-S
  then updates and creates the same entity.
\<close>

lemma late_answer_opens_both:
  assumes "\<not> tp_hideEdit p row" and "edit_row p item res = Inr row"
  shows "\<exists>S. (session_step env p)\<^sup>*\<^sup>* \<lparr>ss_table = table_init n, ss_pending = [P_route item]\<rparr> S \<and>
    saveShortcut (ss_table S) = [Save_update row, Save_create row]"
proof -
  let ?s0 = "table_init n"
  let ?s1 = "showAddForm_click p ?s0"
  let ?s2 = "showAddForm_value v ?s1"
  let ?s3 = "showEditForm p row ?s2"
  have "session_step env p \<lparr>ss_table = ?s0, ss_pending = [P_route item]\<rparr> \<lparr>ss_table = ?s1, ss_pending = P_default # [P_route item]\<rparr>"
    by (rule session_step.add) (simp add: on_list_def table_init_def)
  moreover have "session_step env p \<lparr>ss_table = ?s1, ss_pending = [] @ P_default # [P_route item]\<rparr>
      \<lparr>ss_table = ?s2, ss_pending = [] @ [P_route item]\<rparr>"
    by (rule session_step.arrive) (simp add: answer_def)
  moreover have "session_step env p \<lparr>ss_table = ?s2, ss_pending = [] @ P_route item # []\<rparr> \<lparr>ss_table = ?s3, ss_pending = [] @ []\<rparr>"
    by (rule session_step.arrive [where res = res]) (simp add: answer_def assms(2))
  ultimately have "(session_step env p)\<^sup>*\<^sup>* \<lparr>ss_table = ?s0, ss_pending = [P_route item]\<rparr> \<lparr>ss_table = ?s3, ss_pending = []\<rparr>"
    by (simp add: converse_rtranclp_into_rtranclp)
  moreover have "saveShortcut ?s3 = [Save_update row, Save_create row]"
    using assms(1) by (simp add: saveShortcut_def table_ops)
  ultimately show ?thesis by (intro exI [of _ "\<lparr>ss_table = ?s3, ss_pending = []\<rparr>"]) simp
qed

lemma late_answer_opens_both_witness:
  "\<exists>S. (session_step name_env name_props)\<^sup>*\<^sup>* \<lparr>ss_table = table_init 15, ss_pending = [P_route ''bb'']\<rparr> S \<and>
    saveShortcut (ss_table S) = [Save_update (named ''bb''), Save_create (named ''bb'')]"
  by (rule late_answer_opens_both [of _ _ _ "JArr [named ''a'', named ''bb'']"]) code_simp+

text \<open>
  Of two pages asked for, the table shows the one whose answer comes last, whichever was asked for
  last.
\<close>

lemma last_answer_shown:
  assumes "update_done env ps page (JArr raw) s = Inr s'" and "update_done env ps' page' (JArr raw') s' = Inr s''"
  shows "tb_items s'' = JArr (page_rows env ps' (tb_rows s) page' raw') \<and> tb_page s'' = page' \<and>
    tb_pages s'' = JNum (of_nat (page_count (tb_rows s) (length raw'))) \<and> \<not> tb_loading s''"
  using assms by (auto simp: update_done_def)

lemma last_answer_shown_witness:
  "\<exists>s' s''. update_done name_env plain_update 1 (JArr [named ''a'', named ''bb'']) (table_init 1) = Inr s' \<and>
     update_done name_env plain_update 0 (JArr [named ''a'', named ''bb'']) s' = Inr s'' \<and> tb_page s'' = 0 \<and>
     tb_items s'' = JArr [named ''a'']"
proof -
  obtain s' where s': "update_done name_env plain_update 1 (JArr [named ''a'', named ''bb'']) (table_init 1) = Inr s'"
    by (simp add: update_done_def)
  obtain s'' where s'': "update_done name_env plain_update 0 (JArr [named ''a'', named ''bb'']) s' = Inr s''"
    by (simp add: update_done_def)
  have "page_rows name_env plain_update 1 0 [named ''a'', named ''bb''] = [named ''a'']"
    by code_simp
  with last_answer_shown [OF s' s''] s' s'' show ?thesis by (auto simp: table_init_def)
qed

end
