(* ===== verification/Draft_Editor.thy ===== *)
theory Draft_Editor
  imports Drafts_Compare
begin

text \<open>
  The draft of an entity (\<open>components/Drafts/DraftEditor.js\<close> and \<open>DraftEditorSignal.js\<close>): next to its
  published content an entity may have a draft, the page edits one or the other, and the draft is saved
  a second after its last change.

  \<^item> The state is that of the signals the files share, of the daemon that keeps the page and the signals
    in step, and of the page (the value it edits).
  \<^item> A signal calls its subscribers as soon as it is assigned. React applies \<open>setState\<close> at once, or at
    the end of the batch it runs: \<open>sync\<close> says which. A batch ends with \<open>flush\<close>. Event handlers are
    always batched.
  \<^item> What the page asks of the server is the list of its requests.
\<close>

section \<open>The state\<close>

record draft_signal =
  sg_draft :: js
  sg_raw :: js
  sg_initialized :: bool
  sg_callback :: bool

record version_signal =
  vs_version :: js
  vs_notFound :: bool
  vs_entityId :: js

datatype draft_request = Create_draft js | Put_draft js | Publish js

record editor_state =
  de_draft :: draft_signal
  de_version :: version_signal
  de_content :: js
  de_value :: js
  de_ready :: bool
  de_next_value :: "js option"
  de_next_ready :: bool
  de_requests :: "draft_request list"

text \<open>
  The template of the draft signal. It is the first value of the signal, and the timer of
  \<open>saveDraft\<close> marks that very object as initialized: \<open>used\<close> says whether it has.
\<close>

definition draft_template :: "bool \<Rightarrow> bool \<Rightarrow> draft_signal" where
  "draft_template used callback = \<lparr>sg_draft = JUndef, sg_raw = JUndef, sg_initialized = used, sg_callback = callback\<rparr>"

definition version_template :: version_signal where
  "version_template = \<lparr>vs_version = JStr ''published'', vs_notFound = False, vs_entityId = JUndef\<rparr>"

section \<open>The daemon\<close>

text \<open>\<open>componentDidUpdate\<close>, when the value of the page changed.\<close>

definition did_update :: "js \<Rightarrow> editor_state \<Rightarrow> editor_state" where
  "did_update old s =
     (if old = de_value s then s
      else if vs_version (de_version s) = JStr ''published'' then s\<lparr>de_content := de_value s\<rparr>
      else s\<lparr>de_draft := (de_draft s)\<lparr>sg_draft := de_value s\<rparr>\<rparr>)"

definition render_value :: "js \<Rightarrow> editor_state \<Rightarrow> editor_state" where
  "render_value v s = did_update (de_value s) (s\<lparr>de_value := v\<rparr>)"

definition setValue :: "bool \<Rightarrow> js \<Rightarrow> editor_state \<Rightarrow> editor_state" where
  "setValue sync v s = (if sync then render_value v s else s\<lparr>de_next_value := Some v\<rparr>)"

definition setReady :: "bool \<Rightarrow> editor_state \<Rightarrow> editor_state" where
  "setReady sync s = (if sync then s\<lparr>de_ready := True\<rparr> else s\<lparr>de_next_ready := True\<rparr>)"

definition flush :: "editor_state \<Rightarrow> editor_state" where
  "flush s =
     (let s' = s\<lparr>de_ready := de_ready s \<or> de_next_ready s, de_next_ready := False, de_next_value := None\<rparr>
      in case de_next_value s of None \<Rightarrow> s' | Some v \<Rightarrow> render_value v s')"

text \<open>The subscriber of the version signal.\<close>

definition on_version :: "bool \<Rightarrow> editor_state \<Rightarrow> editor_state" where
  "on_version sync s =
     (if truthy (sg_draft (de_draft s)) \<and> truthy (de_value s)
      then if vs_version (de_version s) = JStr ''draft''
           then setValue sync (sg_draft (de_draft s)) (s\<lparr>de_content := de_value s\<rparr>)
           else if de_ready s
           then setValue sync (js_or (de_content s) (de_value s)) (s\<lparr>de_draft := (de_draft s)\<lparr>sg_draft := de_value s\<rparr>\<rparr>)
           else setReady sync s
      else s)"

definition set_version :: "bool \<Rightarrow> version_signal \<Rightarrow> editor_state \<Rightarrow> editor_state" where
  "set_version sync v s = on_version sync (s\<lparr>de_version := v\<rparr>)"

text \<open>
  \<open>resetDraftSignal\<close>: the template of the version is one object, so assigning it again is no change
  and calls no subscriber; \<open>callback\<close> says whether the page passes a \<open>processCallback\<close>.
\<close>

definition resetDraftSignal :: "bool \<Rightarrow> bool \<Rightarrow> bool \<Rightarrow> editor_state \<Rightarrow> editor_state" where
  "resetDraftSignal sync used callback s =
     (let s' = s\<lparr>de_draft := draft_template used callback\<rparr>
      in (if de_version s = version_template then s' else set_version sync version_template s')\<lparr>de_content := JUndef\<rparr>)"

definition mount :: "bool \<Rightarrow> bool \<Rightarrow> js \<Rightarrow> editor_state" where
  "mount used callback value =
     \<lparr>de_draft = draft_template used callback, de_version = version_template, de_content = JUndef, de_value = value,
      de_ready = False, de_next_value = None, de_next_ready = False, de_requests = []\<rparr>"

section \<open>The editor\<close>

text \<open>
  \<open>updateSignalFromQuery\<close>: the draft the server answered, or an error; \<open>queryVersion\<close> is the parameter
  \<open>version\<close> of the address, \<open>null\<close> when there is none. The version is assigned twice.
\<close>

definition updateSignalFromQuery :: "bool \<Rightarrow> js \<Rightarrow> js \<Rightarrow> js \<Rightarrow> editor_state \<Rightarrow> editor_state" where
  "updateSignalFromQuery sync response entityId queryVersion s =
     (let found = \<not> truthy (jprop response ''error'');
          draft = \<lparr>sg_draft = (if found then jprop response ''content'' else JUndef),
                   sg_raw = (if found then response else JUndef), sg_initialized = False, sg_callback = False\<rparr>;
          version = \<lparr>vs_version = JStr ''published'', vs_notFound = \<not> found, vs_entityId = entityId\<rparr>;
          s = set_version sync version (s\<lparr>de_draft := draft\<rparr>)
      in set_version sync (de_version s\<lparr>vs_version := queryVersion\<rparr>) s)"

definition load :: "bool \<Rightarrow> js \<Rightarrow> js \<Rightarrow> js \<Rightarrow> editor_state \<Rightarrow> editor_state" where
  "load sync response entityId queryVersion s = flush (updateSignalFromQuery sync response entityId queryVersion s)"

text \<open>\<open>onVersionChange\<close>, the switch between the two contents; \<open>template\<close> is the empty draft.\<close>

definition new_draft :: "js \<Rightarrow> string \<Rightarrow> js \<Rightarrow> js" where
  "new_draft template entityId value = JObj (spread (entries template)
     [(''kind'', JStr (hd (split_on CHR ''_'' entityId))), (''id'', JStr entityId), (''name'', JStr entityId),
      (''content'', value)])"

definition onVersionChange :: "js \<Rightarrow> string \<Rightarrow> string \<Rightarrow> editor_state \<Rightarrow> editor_state" where
  "onVersionChange template entityId newVersion s =
     flush (if \<not> truthy (sg_draft (de_draft s))
            then s\<lparr>de_requests := de_requests s @ [Create_draft (new_draft template entityId (de_value s))]\<rparr>
            else if JStr newVersion \<noteq> vs_version (de_version s)
            then set_version False (de_version s\<lparr>vs_version := JStr newVersion\<rparr>) s
            else s)"

text \<open>The answer to the creation of a draft.\<close>

definition draft_created :: "bool \<Rightarrow> js \<Rightarrow> editor_state \<Rightarrow> editor_state" where
  "draft_created sync data s =
     flush (set_version sync \<lparr>vs_version = JStr ''draft'', vs_notFound = False, vs_entityId = JUndef\<rparr>
       (s\<lparr>de_draft := \<lparr>sg_draft = jprop data ''content'', sg_raw = data, sg_initialized = False, sg_callback = False\<rparr>\<rparr>))"

text \<open>The user edits what the page shows.\<close>

definition edit :: "js \<Rightarrow> editor_state \<Rightarrow> editor_state" where
  "edit v s = render_value v s"

text \<open>\<open>saveDraft\<close>, when its timer fires; \<open>process\<close> is the \<open>processCallback\<close> of the page.\<close>

definition saveDraft :: "compare_env \<Rightarrow> (js \<Rightarrow> js) \<Rightarrow> editor_state \<Rightarrow> editor_state" where
  "saveDraft env process s =
     (let d = de_draft s in
      if sg_initialized d
      then if snd (mergeData env (jprop (sg_raw d) ''content'') (sg_draft d)) \<and> truthy (sg_raw d)
           then s\<lparr>de_requests := de_requests s @ [Put_draft (JObj (spread (entries (sg_raw d))
                  [(''content'', if sg_callback d then process (sg_draft d) else sg_draft d)]))]\<rparr>
           else s
      else s\<lparr>de_draft := d\<lparr>sg_initialized := True\<rparr>\<rparr>)"

text \<open>The button that publishes saves what the page shows; it is there on the draft only.\<close>

definition publish :: "editor_state \<Rightarrow> editor_state" where
  "publish s = (if vs_version (de_version s) = JStr ''draft''
     then s\<lparr>de_requests := de_requests s @ [Publish (de_value s)]\<rparr> else s)"

section \<open>Two buffers\<close>

text \<open>What the editor promises: two contents, of which the user sees and edits one.\<close>

record buffers =
  bf_published :: js
  bf_draft :: js
  bf_on_draft :: bool

datatype draft_event = Toggle bool | Edit js | Timer

definition spec_step :: "buffers \<Rightarrow> draft_event \<Rightarrow> buffers" where
  "spec_step b e =
     (case e of
        Toggle d \<Rightarrow> b\<lparr>bf_on_draft := d\<rparr>
      | Edit v \<Rightarrow> if bf_on_draft b then b\<lparr>bf_draft := v\<rparr> else b\<lparr>bf_published := v\<rparr>
      | Timer \<Rightarrow> b)"

definition version_name :: "bool \<Rightarrow> string" where
  "version_name d = (if d then ''draft'' else ''published'')"

definition editor_step :: "compare_env \<Rightarrow> (js \<Rightarrow> js) \<Rightarrow> js \<Rightarrow> string \<Rightarrow> editor_state \<Rightarrow> draft_event \<Rightarrow> editor_state" where
  "editor_step env process template entityId s e =
     (case e of
        Toggle d \<Rightarrow> onVersionChange template entityId (version_name d) s
      | Edit v \<Rightarrow> edit v s
      | Timer \<Rightarrow> saveDraft env process s)"

definition on_draft :: "editor_state \<Rightarrow> bool" where
  "on_draft s \<longleftrightarrow> vs_version (de_version s) = JStr ''draft''"

definition buffers_of :: "editor_state \<Rightarrow> buffers" where
  "buffers_of s = \<lparr>bf_published = (if on_draft s then de_content s else de_value s),
     bf_draft = sg_draft (de_draft s), bf_on_draft = on_draft s\<rparr>"

definition settled :: "editor_state \<Rightarrow> bool" where
  "settled s \<longleftrightarrow> vs_version (de_version s) \<in> {JStr ''draft'', JStr ''published''} \<and> de_ready s \<and>
     de_next_value s = None \<and> truthy (sg_draft (de_draft s)) \<and> truthy (de_value s) \<and>
     (on_draft s \<longrightarrow> sg_draft (de_draft s) = de_value s \<and> truthy (de_content s))"

definition full_edit :: "draft_event \<Rightarrow> bool" where
  "full_edit e = (case e of Edit v \<Rightarrow> truthy v | _ \<Rightarrow> True)"

lemmas editor_ops = onVersionChange_def flush_def set_version_def on_version_def setValue_def setReady_def
  render_value_def did_update_def js_or_def Let_def

lemma toggle_settled:
  assumes "settled s"
  shows "settled (onVersionChange t i (version_name d) s) \<and>
    buffers_of (onVersionChange t i (version_name d) s) = (buffers_of s)\<lparr>bf_on_draft := d\<rparr>"
proof -
  from assms have v: "vs_version (de_version s) = JStr ''draft'' \<or> vs_version (de_version s) = JStr ''published''"
    by (simp add: settled_def)
  then show ?thesis
    using assms
    by (cases d; elim disjE) (auto simp: settled_def buffers_of_def on_draft_def version_name_def editor_ops)
qed

lemma edit_settled:
  "settled s \<Longrightarrow> truthy v \<Longrightarrow> settled (edit v s) \<and> buffers_of (edit v s) = spec_step (buffers_of s) (Edit v)"
  by (auto simp: settled_def buffers_of_def on_draft_def edit_def render_value_def did_update_def spec_step_def)

lemma timer_settled:
  "settled s \<Longrightarrow> settled (saveDraft env process s) \<and> buffers_of (saveDraft env process s) = buffers_of s"
  by (auto simp: settled_def buffers_of_def on_draft_def saveDraft_def Let_def)

interpretation two_buffers: implements "editor_step env process t i" spec_step buffers_of settled full_edit
  for env process t i
proof
  fix s e
  assume "settled s" and "full_edit e"
  then show "settled (editor_step env process t i s e)"
    and "buffers_of (editor_step env process t i s e) = spec_step (buffers_of s) e"
    using toggle_settled edit_settled timer_settled
    by (auto simp: editor_step_def full_edit_def spec_step_def split: draft_event.splits)
qed

lemma load_settled:
  assumes "truthy value" and "truthy (jprop response ''content'')" and "\<not> truthy (jprop response ''error'')"
  shows "settled (load False response i (JStr (version_name d)) (mount used callback value)) \<and>
    buffers_of (load False response i (JStr (version_name d)) (mount used callback value))
      = \<lparr>bf_published = value, bf_draft = jprop response ''content'', bf_on_draft = d\<rparr>"
  using assms by (cases d) (auto simp: load_def updateSignalFromQuery_def mount_def version_name_def settled_def buffers_of_def
      on_draft_def editor_ops)


definition sample_draft :: js where
  "sample_draft = JObj [(''id'', JStr ''route_1''), (''content'', JObj [(''name'', JStr ''next'')])]"

definition sample_entity :: js where
  "sample_entity = JObj [(''name'', JStr ''now'')]"


section \<open>Where the two buffers mix\<close>

text \<open>
  When React applies the state of the daemon at once, as it does outside its batches, loading a
  draft while the page is on the published content replaces the draft by that content: the version is
  assigned twice, and the second time the daemon takes it for the user leaving the draft.
\<close>

lemma sync_load_drops_draft:
  assumes "truthy value" and "truthy (jprop response ''content'')" and "\<not> truthy (jprop response ''error'')"
    and "queryVersion \<noteq> JStr ''draft''"
  shows "sg_draft (de_draft (load True response ent queryVersion (mount used callback value))) = value"
  using assms by (auto simp: load_def updateSignalFromQuery_def mount_def editor_ops)

lemma sync_load_drops_draft_witness:
  "sg_draft (de_draft (load True sample_draft JUndef (JStr ''published'') (mount False False sample_entity))) = sample_entity"
  by (rule sync_load_drops_draft) (simp_all add: sample_draft_def sample_entity_def)

lemma parse_self:
  "a = b \<longrightarrow> (\<forall>s ls s' c. parseData env a b s = (ls, s', c) \<longrightarrow> \<not> c)"
  "(\<forall>(k, va, vb) \<in> set ts. va = vb) \<longrightarrow> (\<forall>sh cm s ls s' c. parseKept env sh cm ts s = (ls, s', c) \<longrightarrow> \<not> c)"
proof (induction a b and ts rule: parse_induct)
  case (1 a b)
  show ?case
  proof (intro impI allI)
    fix s ls s' c assume eq: "a = b" and "parseData env a b s = (ls, s', c)"
    from this(2) show "\<not> c"
    proof (cases rule: parseData_parts)
      case (1 ls1 s1 ls2 s2 c2 ls3 cm)
      have "\<forall>(k, va, vb) \<in> set (kept a b). va = vb" using eq by (auto simp: kept_def)
      with \<open>_ \<longrightarrow> (\<forall>sh cm s ls s' c. parseKept env sh cm (kept a b) s = (ls, s', c) \<longrightarrow> \<not> c)\<close> 1(2) have "\<not> c2" by blast
      with 1 eq show ?thesis by (simp add: deleted_def added_def)
    qed
  qed
next
  case (3 k va vb rest)
  show ?case
  proof (intro impI allI)
    fix sh cm s ls s' c assume all: "\<forall>(k, va, vb) \<in> set ((k, va, vb) # rest). va = vb"
      and "parseKept env sh cm ((k, va, vb) # rest) s = (ls, s', c)"
    from this(2) show "\<not> c"
    proof (cases rule: parseKept_cases)
      case (eq l s1 ls' cm')
      with 3(2) all show ?thesis by fastforce
    next
      case (inside inner s1 c1 ls' c2 cm')
      with 3 all have "\<not> c1" "\<not> c2" by fastforce+
      with inside show ?thesis by simp
    next
      case (differ l1 s1 l2 s2 ls' c2 cm')
      with all show ?thesis
        by (auto simp: same_js_def isTheSametype_def isComplexType_def isObject_def isArray_def)
    qed
  qed
qed simp

lemma mergeData_self: "\<not> snd (mergeData env v v)"
proof (cases "isComplexType v")
  case True
  with parse_self(1) [of v v env] show ?thesis
    by (auto simp: mergeData_def isTheSametype_def split: prod.splits)
next
  case False
  then have "same_js env v v" by (auto simp: same_js_def isComplexType_def isObject_def isArray_def)
  with False show ?thesis by (simp add: mergeData_def)
qed

text \<open>
  Without a version in the address the page shows the published content but its edits go to the
  draft: after a second edit the timer saves the published content, as edited, in place of the draft.
\<close>

lemma unversioned_edit_saved_as_draft:
  assumes "truthy value" and "truthy (jprop response ''content'')" and "\<not> truthy (jprop response ''error'')"
    and "is_object response" and "v \<noteq> value" and "w \<noteq> v" and "snd (mergeData env (jprop response ''content'') w)"
  shows "de_requests (saveDraft env process (edit w (saveDraft env process (edit v
      (load sync response ent JNull (mount used callback value))))))
    = [Put_draft (JObj (spread (entries response) [(''content'', w)]))]"
proof -
  let ?s = "load sync response ent JNull (mount used callback value)"
  have s: "vs_version (de_version ?s) = JNull" "de_value ?s = value" "de_requests ?s = []"
      "sg_raw (de_draft ?s) = response" "\<not> sg_initialized (de_draft ?s)" "\<not> sg_callback (de_draft ?s)"
    using assms(1-3) by (cases sync; simp add: load_def updateSignalFromQuery_def mount_def editor_ops)+
  have r: "truthy response" using assms(4) by (cases response) (auto simp: is_object_def)
  show ?thesis
    using s r assms(5-7) by (simp add: edit_def render_value_def did_update_def saveDraft_def Let_def)
qed

lemma unversioned_edit_saved_as_draft_witness:
  "de_requests (saveDraft sample_compare id (edit (JObj []) (saveDraft sample_compare id (edit (JObj [(''a'', JNull)])
      (load True sample_draft JUndef JNull (mount False False sample_entity))))))
    = [Put_draft (JObj [(''id'', JStr ''route_1''), (''content'', JObj [])])]"
proof -
  have "snd (mergeData sample_compare (jprop sample_draft ''content'') (JObj []))"
    by code_simp
  then show ?thesis
    by (subst unversioned_edit_saved_as_draft)
      (simp_all add: sample_draft_def sample_entity_def is_object_def spread_def)
qed

text \<open>What an editor that has no draft on the server does after an edit of its published content.\<close>

definition no_server_draft :: "editor_state \<Rightarrow> bool" where
  "no_server_draft s \<longleftrightarrow> sg_raw (de_draft s) = JUndef \<and> truthy (sg_draft (de_draft s)) \<and> truthy (de_value s) \<and>
     de_next_value s = None"

lemma no_server_draft_step:
  "no_server_draft s \<Longrightarrow> full_edit e \<Longrightarrow> no_server_draft (editor_step env process t i s e) \<and>
     de_requests (editor_step env process t i s e) = de_requests s"
  by (cases e) (auto simp: no_server_draft_def editor_step_def full_edit_def edit_def saveDraft_def editor_ops)

text \<open>
  When an entity has no draft and the address no version, one edit of the published content is
  enough for the draft never to be created: whatever the user does next, drafts included, the page sends
  nothing about a draft to the server.
\<close>

lemma unversioned_edit_blocks_draft:
  assumes "truthy value" and "truthy (jprop response ''error'')" and "truthy v" and "v \<noteq> value" and "list_all full_edit es"
  shows "de_requests (foldl (editor_step env process t i)
    (edit v (load sync response ent JNull (mount used callback value))) es) = []"
proof -
  let ?s = "edit v (load sync response ent JNull (mount used callback value))"
  have "no_server_draft ?s \<and> de_requests ?s = []"
    using assms(1-4) by (cases sync; simp add: load_def updateSignalFromQuery_def mount_def no_server_draft_def edit_def editor_ops)
  moreover have "no_server_draft s \<Longrightarrow> list_all full_edit es \<Longrightarrow>
      de_requests (foldl (editor_step env process t i) s es) = de_requests s" for s es
    by (induction es arbitrary: s) (auto simp: no_server_draft_step)
  ultimately show ?thesis using assms(5) by metis
qed

lemma unversioned_edit_blocks_draft_witness:
  "de_requests (foldl (editor_step sample_compare id JUndef ''route_1'')
    (edit (JObj []) (load True (JObj [(''error'', JStr ''not found'')]) JUndef JNull (mount False False sample_entity)))
    [Toggle True, Edit (JObj [(''a'', JNull)]), Timer, Edit (JObj [(''b'', JNull)]), Timer]) = []"
  by (rule unversioned_edit_blocks_draft) (simp_all add: sample_entity_def full_edit_def)

text \<open>
  Putting a saved draft back to the content it was loaded with is never saved: the timer compares
  with what was loaded, not with what was saved.
\<close>

lemma revert_never_saved:
  assumes "on_draft s" and "sg_initialized (de_draft s)"
  shows "de_requests (saveDraft env process (edit (jprop (sg_raw (de_draft s)) ''content'') s)) = de_requests s \<or>
    de_value s = jprop (sg_raw (de_draft s)) ''content''"
  using assms mergeData_self [of env "jprop (sg_raw (de_draft s)) ''content''"]
  by (auto simp: on_draft_def edit_def render_value_def did_update_def saveDraft_def Let_def)

definition saved_draft :: editor_state where
  "saved_draft = saveDraft sample_compare id (edit (JObj []) (saveDraft sample_compare id
     (load False sample_draft JUndef (JStr ''draft'') (mount False False sample_entity))))"

lemma revert_never_saved_witness:
  "de_requests saved_draft = [Put_draft (JObj [(''id'', JStr ''route_1''), (''content'', JObj [])])] \<and>
   de_requests (saveDraft sample_compare id (edit (JObj [(''name'', JStr ''next'')]) saved_draft)) = de_requests saved_draft"
proof
  have s: "on_draft saved_draft" "sg_initialized (de_draft saved_draft)"
    "jprop (sg_raw (de_draft saved_draft)) ''content'' = JObj [(''name'', JStr ''next'')]"
    "de_value saved_draft \<noteq> JObj [(''name'', JStr ''next'')]"
    by code_simp+
  then show "de_requests (saveDraft sample_compare id (edit (JObj [(''name'', JStr ''next'')]) saved_draft)) = de_requests saved_draft"
    using revert_never_saved [of saved_draft sample_compare id] by simp
  show "de_requests saved_draft = [Put_draft (JObj [(''id'', JStr ''route_1''), (''content'', JObj [])])]"
    by code_simp
qed

end
