(* ===== verification/Analytics_Filters.thy ===== *)
theory Analytics_Filters
  imports Prelude
begin

text \<open>
  The filters of the analytics dashboards: the time range, the entities and the refresh
  (\<open>pages/analytics/service.js\<close>, \<open>Filters.js\<close>, and what \<open>UserDashboardViewPage.js\<close> does with the
  address of the page).

  \<^item> A date is its number of milliseconds, \<open>None\<close> when it is invalid; \<open>an_now\<close> is the clock, and
    \<open>an_date\<close> the parser of the absolute dates.
  \<^item> \<open>an_num\<close> and \<open>an_number\<close> print and read a number (\<open>None\<close> is \<open>NaN\<close>), \<open>an_encode\<close> is
    \<open>encodeURIComponent\<close> and \<open>an_parse\<close> the parser of the address, a library.
\<close>

record analytics_env =
  an_now :: int
  an_date :: "string \<Rightarrow> int option"
  an_num :: "rat option \<Rightarrow> string"
  an_number :: "string \<Rightarrow> rat option"
  an_encode :: "string \<Rightarrow> string"
  an_parse :: "string \<Rightarrow> (string \<times> string) list"

section \<open>Times\<close>

text \<open>The dates JavaScript has: 100 million days around the epoch.\<close>

definition time_clip :: "int \<Rightarrow> int option" where
  "time_clip t = (if \<bar>t\<bar> \<le> 8640000000000000 then Some t else None)"

definition unit_seconds :: "char \<Rightarrow> nat option" where
  "unit_seconds c =
     (if c = CHR ''s'' then Some 1 else if c = CHR ''m'' then Some 60
      else if c = CHR ''h'' then Some 3600 else if c = CHR ''d'' then Some 86400 else None)"

definition digits_nat :: "string \<Rightarrow> nat" where
  "digits_nat ds = foldl (\<lambda>a c. 10 * a + (of_char c - 48)) 0 ds"

text \<open>\<open>/^now-(\d+)([smhd])$/\<close>: the number and the seconds of the unit.\<close>

definition RELATIVE_RE :: "string \<Rightarrow> (nat \<times> nat) option" where
  "RELATIVE_RE s =
     (if startsWith s ''now-''
      then case rev (drop 4 s) of
             [] \<Rightarrow> None
           | u # ds \<Rightarrow>
               (case unit_seconds u of
                  None \<Rightarrow> None
                | Some f \<Rightarrow> if ds \<noteq> [] \<and> list_all is_digit ds then Some (digits_nat (rev ds), f) else None)
      else None)"

definition parseTime :: "analytics_env \<Rightarrow> string \<Rightarrow> int option \<Rightarrow> int option" where
  "parseTime env input fallback =
     (if input = [] then fallback
      else let s = trim input in
           if s = ''now'' then Some (an_now env)
           else case RELATIVE_RE s of
                  Some (num, factor) \<Rightarrow> time_clip (an_now env - int (num * factor * 1000))
                | None \<Rightarrow> (case an_date env s of None \<Rightarrow> fallback | Some d \<Rightarrow> Some d))"

definition rangeToInstants :: "analytics_env \<Rightarrow> string \<Rightarrow> string \<Rightarrow> int option \<times> int option" where
  "rangeToInstants env from to =
     (parseTime env from (time_clip (an_now env - 3600 * 1000)), parseTime env to (Some (an_now env)))"

definition PRESETS :: "(string \<times> string \<times> string) list" where
  "PRESETS = [(''Last 1h'', ''now-1h'', ''now''), (''Last 6h'', ''now-6h'', ''now''), (''Last 12h'', ''now-12h'', ''now''),
     (''Last 24h'', ''now-24h'', ''now''), (''Last 7d'', ''now-7d'', ''now''), (''Last 30d'', ''now-30d'', ''now'')]"

definition TIME_PRESETS :: "(string \<times> string \<times> string) list" where
  "TIME_PRESETS = [(''1h'', ''now-1h'', ''now''), (''6h'', ''now-6h'', ''now''), (''24h'', ''now-24h'', ''now''),
     (''7d'', ''now-7d'', ''now''), (''30d'', ''now-30d'', ''now''), (''90d'', ''now-90d'', ''now'')]"

section \<open>Filters\<close>

text \<open>
  The filters of a page. \<open>af_interval\<close> is the \<open>refreshInterval\<close> the refresh controls add.
\<close>

record filters =
  af_from :: string
  af_to :: string
  af_route :: string
  af_api :: string
  af_apikey :: string
  af_group :: string
  af_refresh :: "rat option"
  af_compare :: bool
  af_interval :: "rat option option"

type_synonym addr_query = "(string \<times> string) list"

definition if_set :: "string \<Rightarrow> string \<Rightarrow> addr_query" where
  "if_set k v = (if v = [] then [] else [(k, v)])"

definition filtersToQuery :: "analytics_env \<Rightarrow> filters \<Rightarrow> addr_query" where
  "filtersToQuery env f =
     if_set ''from'' (af_from f) @ if_set ''to'' (af_to f) @ if_set ''route'' (af_route f) @ if_set ''api'' (af_api f)
     @ if_set ''apikey'' (af_apikey f) @ if_set ''group'' (af_group f)
     @ [(''refresh'', an_num env (af_refresh f))] @ (if af_compare f then [(''compare'', ''1'')] else [])"

definition query_or :: "addr_query \<Rightarrow> string \<Rightarrow> string \<Rightarrow> string" where
  "query_or q k d = (case map_of q k of None \<Rightarrow> d | Some v \<Rightarrow> if v = [] then d else v)"

definition queryToFilters :: "analytics_env \<Rightarrow> addr_query \<Rightarrow> filters" where
  "queryToFilters env q =
     \<lparr>af_from = query_or q ''from'' ''now-1h'', af_to = query_or q ''to'' ''now'', af_route = query_or q ''route'' [],
      af_api = query_or q ''api'' [], af_apikey = query_or q ''apikey'' [], af_group = query_or q ''group'' [],
      af_refresh = (case map_of q ''refresh'' of None \<Rightarrow> Some 0 | Some s \<Rightarrow> an_number env s),
      af_compare = (map_of q ''compare'' = Some ''1'' \<or> map_of q ''compare'' = Some ''true''), af_interval = None\<rparr>"

definition buildFiltersPayload :: "filters \<Rightarrow> addr_query" where
  "buildFiltersPayload f =
     [(''from'', af_from f), (''to'', af_to f)] @ if_set ''route_id'' (af_route f) @ if_set ''api_id'' (af_api f)
     @ if_set ''apikey_id'' (af_apikey f) @ if_set ''group_id'' (af_group f)"

text \<open>\<open>urlHasFilterParams\<close>.\<close>

definition FILTER_PARAMS :: "string list" where
  "FILTER_PARAMS = [''from'', ''to'', ''route'', ''api'', ''apikey'', ''group'', ''refresh'', ''compare'']"

definition urlHasFilterParams :: "addr_query \<Rightarrow> bool" where
  "urlHasFilterParams q \<longleftrightarrow> (\<exists>k \<in> set FILTER_PARAMS. query_or q k [] \<noteq> [])"

section \<open>The controls\<close>

definition num_truthy :: "rat option \<Rightarrow> bool" where
  "num_truthy n = (case n of None \<Rightarrow> False | Some x \<Rightarrow> x \<noteq> 0)"

text \<open>\<open>v.refreshInterval || v.refresh || 30\<close>.\<close>

definition interval_of :: "filters \<Rightarrow> rat option" where
  "interval_of f =
     (case af_interval f of
        Some i \<Rightarrow> if num_truthy i then i else if num_truthy (af_refresh f) then af_refresh f else Some 30
      | None \<Rightarrow> if num_truthy (af_refresh f) then af_refresh f else Some 30)"

definition auto_active :: "filters \<Rightarrow> bool" where
  "auto_active f = (case af_refresh f of None \<Rightarrow> False | Some x \<Rightarrow> 0 < x)"

definition selectPreset :: "string \<times> string \<times> string \<Rightarrow> filters \<Rightarrow> filters" where
  "selectPreset p f = f\<lparr>af_from := fst (snd p), af_to := snd (snd p)\<rparr>"

definition isActivePreset :: "string \<times> string \<times> string \<Rightarrow> filters \<Rightarrow> bool" where
  "isActivePreset p f \<longleftrightarrow> af_from f = fst (snd p) \<and> af_to f = snd (snd p)"

definition toggleAutoRefresh :: "bool \<Rightarrow> filters \<Rightarrow> filters" where
  "toggleAutoRefresh active f =
     (let i = interval_of f
      in if active then f\<lparr>af_refresh := i, af_interval := Some i\<rparr> else f\<lparr>af_refresh := Some 0, af_interval := Some i\<rparr>)"

definition changeInterval :: "rat \<Rightarrow> filters \<Rightarrow> filters" where
  "changeInterval value f =
     f\<lparr>af_interval := Some (Some value), af_refresh := (if auto_active f then Some value else Some 0)\<rparr>"

text \<open>\<open>formatRelative\<close>, without the time of day.\<close>

definition relative_text :: "int \<Rightarrow> int \<Rightarrow> string" where
  "relative_text now ts =
     (let diff = nat (max 0 ((now - ts) div 1000)) in
      if diff < 60 then nat_str diff @ ''s ago''
      else if diff < 3600 then nat_str (diff div 60) @ ''m ago''
      else nat_str (diff div 3600) @ ''h ago'')"

text \<open>
  \<open>onFiltersChange\<close> writes the filters in the address of the page, and the page then reads its filters
  back from the address.
\<close>

definition search_of :: "analytics_env \<Rightarrow> addr_query \<Rightarrow> string" where
  "search_of env q = CHR ''?'' # join ''&'' (map (\<lambda>(k, v). k @ ''='' @ an_encode env v) q)"

definition onFiltersChange :: "analytics_env \<Rightarrow> filters \<Rightarrow> filters" where
  "onFiltersChange env f = queryToFilters env (an_parse env (search_of env (filtersToQuery env f)))"

definition drillDown :: "analytics_env \<Rightarrow> string \<Rightarrow> string \<Rightarrow> filters \<Rightarrow> filters" where
  "drillDown env key value f =
     (if key = [] \<or> value = [] then f
      else onFiltersChange env
        (if key = ''route'' then f\<lparr>af_route := value\<rparr> else if key = ''api'' then f\<lparr>af_api := value\<rparr>
         else if key = ''apikey'' then f\<lparr>af_apikey := value\<rparr> else f))"

section \<open>Facts\<close>

lemma digits_value_append: "digits_nat (ds @ [c]) = 10 * digits_nat ds + (of_char c - 48)"
  by (simp add: digits_nat_def)

lemma digits_value_nat_str: "digits_nat (nat_str n) = n"
proof (induction n rule: nat_str.induct)
  case (1 n)
  have digit: "of_char (char_of (48 + d) :: char) = 48 + d" if "d < 10" for d :: nat
    using that by (simp only: of_char_of) simp
  show ?case
  proof (cases "n < 10")
    case True
    then have "nat_str n = [char_of (48 + n)]" by (simp add: nat_str.simps [of n])
    with digit [OF True] show ?thesis by (simp add: digits_nat_def)
  next
    case False
    then have "nat_str n = nat_str (n div 10) @ [char_of (48 + n mod 10)]" by (simp add: nat_str.simps [of n])
    with 1 [OF False] digit [of "n mod 10"] show ?thesis by (simp add: digits_value_append)
  qed
qed

lemma nat_str_nonempty: "nat_str n \<noteq> []"
  by (simp add: nat_str.simps [of n])

lemma relative_match:
  "unit_seconds u = Some f \<Longrightarrow> RELATIVE_RE (''now-'' @ nat_str n @ [u]) = Some (n, f)"
proof -
  assume u: "unit_seconds u = Some f"
  have "list_all is_digit (rev (nat_str n))"
    using nat_str_digits [of n] by (auto simp: list_all_iff is_digit_def)
  with u show ?thesis
    by (simp add: RELATIVE_RE_def startsWith_def nat_str_nonempty digits_value_nat_str)
qed

lemma trim_tight: "\<not> is_space c \<Longrightarrow> \<not> is_space d \<Longrightarrow> trim (c # s @ [d]) = c # s @ [d]"
  by (simp add: trim_def)

lemma relative_time:
  assumes "unit_seconds u = Some f"
  shows "parseTime env (''now-'' @ nat_str n @ [u]) fallback = time_clip (an_now env - int n * int f * 1000)"
proof -
  have u: "u \<in> {CHR ''s'', CHR ''m'', CHR ''h'', CHR ''d''}"
    using assms by (auto simp: unit_seconds_def split: if_splits)
  then have "\<not> is_space u" by (auto simp: is_space_def)
  then have "trim (''now-'' @ nat_str n @ [u]) = ''now-'' @ nat_str n @ [u]"
    using trim_tight [of "CHR ''n''" u "''ow-'' @ nat_str n"] by (simp add: is_space_def)
  with relative_match [OF assms, of n] show ?thesis
    by (simp add: parseTime_def mult.assoc)
qed

text \<open>
  A relative time is read back: \<open>now-\<close>, a number and a unit stand for that many units before now,
  and for no date when that is before the first one JavaScript has.
\<close>

lemma relative_time_read_back:
  assumes "unit_seconds u = Some f"
  shows "parseTime env (''now-'' @ nat_str n @ [u]) fallback = time_clip (an_now env - int n * int f * 1000)"
  by (rule relative_time [OF assms])

definition quiet_env :: analytics_env where
  "quiet_env = \<lparr>an_now = 1700000000000, an_date = \<lambda>s. None, an_num = \<lambda>n. (if n = Some 30 then ''30'' else ''0''),
     an_number = \<lambda>s. (if s = ''30'' then Some 30 else Some 0), an_encode = id,
     an_parse = \<lambda>s. map (\<lambda>p. (takeWhile (\<lambda>c. c \<noteq> CHR ''='') p, drop 1 (dropWhile (\<lambda>c. c \<noteq> CHR ''='') p))) (split_on CHR ''&'' (drop 1 s))\<rparr>"

lemma relative_time_read_back_witness:
  "parseTime quiet_env (''now-'' @ nat_str 24 @ [CHR ''h'']) None = Some 1699913600000"
  by (subst relative_time_read_back [of _ 3600]) (simp_all add: unit_seconds_def time_clip_def quiet_env_def)

lemma nat_strs: "nat_str (Suc 0) = ''1''" "nat_str 6 = ''6''" "nat_str 7 = ''7''" "nat_str 12 = ''12''" "nat_str 24 = ''24''"
  "nat_str 30 = ''30''" "nat_str 90 = ''90''"
  by code_simp+

text \<open>
  Every preset is a range: it ends now and starts before, at most 90 days, when the clock shows a
  time JavaScript can count 90 days back from.
\<close>

lemma presets_are_ranges:
  assumes "0 \<le> an_now env" and "an_now env \<le> 8640000000000000"
  shows "list_all (\<lambda>(label, from, to). \<exists>t. rangeToInstants env from to = (Some t, Some (an_now env)) \<and>
     t < an_now env \<and> an_now env - t \<le> 90 * 86400 * 1000) (PRESETS @ TIME_PRESETS)"
proof -
  have rel: "parseTime env (''now-'' @ nat_str n @ [u]) fb = Some (an_now env - int n * int f * 1000)"
    if "unit_seconds u = Some f" "int n * int f * 1000 \<le> 90 * 86400 * 1000" for n u f fb
  proof -
    define x where "x = int n * int f * 1000"
    have "0 \<le> x" by (simp add: x_def)
    moreover have "x \<le> 7776000000" using that(2) by (simp add: x_def)
    ultimately have "time_clip (an_now env - x) = Some (an_now env - x)"
      using assms by (auto simp: time_clip_def)
    then show ?thesis
      unfolding relative_time [OF that(1)] by (simp add: x_def)
  qed
  have h: "parseTime env (''now-'' @ s @ ''h'') fb = Some (an_now env - int n * 3600 * 1000)"
    if "s = nat_str n" "n \<le> 24" for s n fb
    using rel [of "CHR ''h''" 3600 n fb] that by (simp add: unit_seconds_def)
  have d: "parseTime env (''now-'' @ s @ ''d'') fb = Some (an_now env - int n * 86400 * 1000)"
    if "s = nat_str n" "n \<le> 90" for s n fb
    using rel [of "CHR ''d''" 86400 n fb] that by (simp add: unit_seconds_def)
  have now: "parseTime env ''now'' fb = Some (an_now env)" for fb
    by (simp add: parseTime_def trim_def is_space_def)
  show ?thesis
    using h [of "''1''" 1] h [of "''6''" 6] h [of "''12''" 12] h [of "''24''" 24] d [of "''7''" 7] d [of "''30''" 30]
      d [of "''90''" 90]
    by (simp add: PRESETS_def TIME_PRESETS_def rangeToInstants_def now nat_strs)
qed

lemma presets_are_ranges_witness:
  "\<exists>t. rangeToInstants quiet_env ''now-90d'' ''now'' = (Some t, Some 1700000000000) \<and> t < 1700000000000"
proof -
  have now: "an_now quiet_env = 1700000000000" by (simp add: quiet_env_def)
  with presets_are_ranges [of quiet_env] show ?thesis by (auto simp: TIME_PRESETS_def)
qed

lemma map_of_if_set: "map_of (if_set k v) k' = (if k = k' \<and> v \<noteq> [] then Some v else None)"
  by (simp add: if_set_def)

lemma query_or_cong: "map_of q k = map_of q' k \<Longrightarrow> query_or q k d = query_or q' k d"
  by (simp add: query_or_def)

lemma queryToFilters_cong: "map_of q = map_of q' \<Longrightarrow> queryToFilters env q = queryToFilters env q'"
  by (simp add: queryToFilters_def query_or_def)

text \<open>The defaults of an absent range.\<close>

definition or_text :: "string \<Rightarrow> string \<Rightarrow> string" where
  "or_text s d = (if s = [] then d else s)"

lemma filters_query_filters:
  "an_number env (an_num env (af_refresh f)) = af_refresh f \<Longrightarrow>
    queryToFilters env (filtersToQuery env f) =
      f\<lparr>af_from := or_text (af_from f) ''now-1h'', af_to := or_text (af_to f) ''now'', af_interval := None\<rparr>"
  by (auto simp: queryToFilters_def filtersToQuery_def query_or_def map_of_if_set map_add_def or_text_def
      split: option.splits if_splits)

text \<open>
  The address of a dashboard brings its filters back: read from it they are the ones it was made of,
  with the last hour where the range was empty, and without the interval of the refresh controls.
\<close>

lemma filters_survive_address:
  assumes "map_of (an_parse env (search_of env (filtersToQuery env f))) = map_of (filtersToQuery env f)"
    and "an_number env (an_num env (af_refresh f)) = af_refresh f"
  shows "onFiltersChange env f =
    f\<lparr>af_from := or_text (af_from f) ''now-1h'', af_to := or_text (af_to f) ''now'', af_interval := None\<rparr>"
  unfolding onFiltersChange_def
  using queryToFilters_cong [OF assms(1)] filters_query_filters [OF assms(2)] by simp

definition last_day :: filters where
  "last_day = \<lparr>af_from = ''now-24h'', af_to = ''now'', af_route = ''route_1'', af_api = [], af_apikey = [], af_group = [],
     af_refresh = Some 30, af_compare = True, af_interval = Some (Some 30)\<rparr>"

lemma filters_survive_address_witness:
  "onFiltersChange quiet_env last_day = last_day\<lparr>af_interval := None\<rparr>"
proof -
  have "an_parse quiet_env (search_of quiet_env (filtersToQuery quiet_env last_day)) = filtersToQuery quiet_env last_day"
    by code_simp
  moreover have "an_number quiet_env (an_num quiet_env (af_refresh last_day)) = af_refresh last_day"
    by (simp add: quiet_env_def last_day_def)
  ultimately show ?thesis
    using filters_survive_address [of quiet_env last_day] by (simp add: last_day_def or_text_def)
qed

text \<open>
  Switching the automatic refresh off and on again does not bring its interval back: the interval is
  not in the address, the filters are read back from it, and the refresh restarts at 30 seconds.
\<close>

lemma refresh_interval_forgotten:
  assumes "map_of (an_parse env (search_of env (filtersToQuery env (toggleAutoRefresh False f))))
      = map_of (filtersToQuery env (toggleAutoRefresh False f))"
    and "an_number env (an_num env (Some 0)) = Some 0"
  shows "af_refresh (toggleAutoRefresh True (onFiltersChange env (toggleAutoRefresh False f))) = Some 30"
  using filters_survive_address [OF assms(1)] assms(2)
  by (simp add: toggleAutoRefresh_def interval_of_def num_truthy_def Let_def)

lemma refresh_interval_forgotten_witness:
  "af_refresh (toggleAutoRefresh True (onFiltersChange quiet_env (toggleAutoRefresh False
     (last_day\<lparr>af_refresh := Some 300, af_interval := Some (Some 300)\<rparr>)))) = Some 30"
proof (rule refresh_interval_forgotten)
  show "map_of (an_parse quiet_env (search_of quiet_env (filtersToQuery quiet_env (toggleAutoRefresh False
        (last_day\<lparr>af_refresh := Some 300, af_interval := Some (Some 300)\<rparr>)))))
      = map_of (filtersToQuery quiet_env (toggleAutoRefresh False (last_day\<lparr>af_refresh := Some 300, af_interval := Some (Some 300)\<rparr>)))"
    by (rule arg_cong [where f = map_of]) code_simp
qed (simp add: quiet_env_def)

text \<open>Without the address, the two switches do keep the interval.\<close>

lemma toggle_keeps_interval:
  "auto_active f \<Longrightarrow> af_interval f = None \<Longrightarrow>
     af_refresh (toggleAutoRefresh True (toggleAutoRefresh False f)) = af_refresh f"
  by (auto simp: toggleAutoRefresh_def interval_of_def num_truthy_def auto_active_def Let_def split: option.splits)

end
