(* ===== verification/Analytics_Widget.thy ===== *)
theory Analytics_Widget
  imports Analytics_Filters
begin

text \<open>
  A widget of an analytics dashboard (\<open>WidgetWrapper\<close> and \<open>Grid\<close> in \<open>pages/analytics/Grid.js\<close>): it asks
  the server for its data when it appears and whenever what it depends on changes, and gives up the
  request it was waiting for.

  \<^item> The requests are numbered in the order they are sent. \<open>wg_replies\<close> is the history of the answers:
    the code does not keep it, the properties speak of it.
  \<^item> \<open>fetch\<close> rejects a request that was given up with an \<open>AbortError\<close>, or had already answered; a
    request that was not given up never fails with that error. \<open>widget_reach\<close> has these answers only.
\<close>

section \<open>The state\<close>

record widget_props =
  wp_widget :: js
  wp_filters :: filters
  wp_compare :: bool
  wp_refreshKey :: nat

record payload =
  pl_query :: js
  pl_params :: js
  pl_filters :: "(string \<times> string) list"
  pl_compare :: bool
  pl_bucket :: js

datatype status = Idle | Loading | Ok | Empty | Failed

text \<open>An answer of the server (whether it is a success, its code, its body), or a failure (name, message).\<close>

datatype reply = Reply bool string js | Fail string js

record widget_state =
  wg_props :: widget_props
  wg_status :: status
  wg_data :: js
  wg_compare :: js
  wg_error :: js
  wg_ms :: js
  wg_abortRef :: "nat option"
  wg_aborted :: "nat list"
  wg_sent :: "payload list"
  wg_replies :: "(nat \<times> reply) list"
  wg_mounted :: bool

definition abort :: "widget_state \<Rightarrow> widget_state" where
  "abort s = (case wg_abortRef s of None \<Rightarrow> s
     | Some i \<Rightarrow> s\<lparr>wg_aborted := i # wg_aborted s, wg_abortRef := None\<rparr>)"

text \<open>The filters of a page have no \<open>bucket\<close>, so the one sent is \<open>null\<close>.\<close>

definition payload_of :: "widget_props \<Rightarrow> payload" where
  "payload_of p = \<lparr>pl_query = jprop (wp_widget p) ''query'', pl_params = js_or (jprop (wp_widget p) ''params'') (JObj []),
     pl_filters = buildFiltersPayload (wp_filters p), pl_compare = wp_compare p, pl_bucket = js_or JUndef JNull\<rparr>"

definition fetchData :: "widget_state \<Rightarrow> widget_state" where
  "fetchData s =
     (if \<not> truthy (jprop (wp_widget (wg_props s)) ''query'') then s
      else let s = abort s
           in s\<lparr>wg_abortRef := Some (length (wg_sent s)), wg_status := Loading, wg_error := JNull,
                wg_sent := wg_sent s @ [payload_of (wg_props s)]\<rparr>)"

text \<open>What an answer that counts does to the state.\<close>

definition show_reply :: "reply \<Rightarrow> widget_state \<Rightarrow> widget_state" where
  "show_reply r s =
     (case r of
        Reply ok code body \<Rightarrow>
          if \<not> ok then s\<lparr>wg_status := Failed, wg_error := js_or (jprop body ''error'') (JStr (''HTTP '' @ code))\<rparr>
          else if \<not> truthy (jprop body ''data'') then s\<lparr>wg_status := Empty\<rparr>
          else s\<lparr>wg_status := Ok, wg_data := jprop body ''data'', wg_compare := js_or (jprop body ''compare'') JNull,
                 wg_ms := jprop (jprop body ''meta'') ''execution_ms''\<rparr>
      | Fail name m \<Rightarrow> s\<lparr>wg_status := Failed, wg_error := m\<rparr>)"

definition is_abort :: "reply \<Rightarrow> bool" where
  "is_abort r = (case r of Fail name m \<Rightarrow> name = ''AbortError'' | _ \<Rightarrow> False)"

definition is_answer :: "reply \<Rightarrow> bool" where
  "is_answer r = (case r of Reply _ _ _ \<Rightarrow> True | _ \<Rightarrow> False)"

definition handle_reply :: "nat \<Rightarrow> reply \<Rightarrow> widget_state \<Rightarrow> widget_state" where
  "handle_reply i r s =
     (let s' = s\<lparr>wg_replies := (i, r) # wg_replies s\<rparr> in
      if \<not> wg_mounted s \<or> (is_answer r \<and> i \<in> set (wg_aborted s)) \<or> is_abort r then s' else show_reply r s')"

definition did_change :: "widget_props \<Rightarrow> widget_state \<Rightarrow> widget_state" where
  "did_change p s =
     (let s' = s\<lparr>wg_props := p\<rparr> in if p \<noteq> wg_props s then fetchData s' else s')"

definition unmount :: "widget_state \<Rightarrow> widget_state" where
  "unmount s = (abort s)\<lparr>wg_mounted := False\<rparr>"

definition mount_widget :: "widget_props \<Rightarrow> widget_state" where
  "mount_widget p = fetchData
     \<lparr>wg_props = p, wg_status = Idle, wg_data = JNull, wg_compare = JNull, wg_error = JNull, wg_ms = JNull,
      wg_abortRef = None, wg_aborted = [], wg_sent = [], wg_replies = [], wg_mounted = True\<rparr>"

text \<open>A click on an item of the widget: the filter it sets, and its value.\<close>

definition QUERY_TO_FILTER :: "(string \<times> string) list" where
  "QUERY_TO_FILTER = [(''requests_by_route'', ''route''), (''top_error_routes'', ''route''), (''requests_by_api'', ''api''),
     (''requests_by_apikey'', ''apikey'')]"

definition handleItemClick :: "(js \<Rightarrow> string) \<Rightarrow> widget_props \<Rightarrow> js \<Rightarrow> (string \<times> string) option" where
  "handleItemClick text p item =
     (if \<not> truthy item then None
      else case jprop (wp_widget p) ''query'' of
        JStr q \<Rightarrow> (case map_of QUERY_TO_FILTER q of
          None \<Rightarrow> None
        | Some k \<Rightarrow> let v = (if nullish (jprop item ''key'') then jprop item ''value'' else jprop item ''key'')
                    in if nullish v then None else Some (k, text v))
      | _ \<Rightarrow> None)"

section \<open>The runs\<close>

definition admissible :: "nat \<Rightarrow> reply \<Rightarrow> widget_state \<Rightarrow> bool" where
  "admissible i r s \<longleftrightarrow> i < length (wg_sent s) \<and> i \<notin> fst ` set (wg_replies s) \<and>
     (if i \<in> set (wg_aborted s) then is_abort r \<or> is_answer r else \<not> is_abort r)"

inductive widget_reach :: "widget_state \<Rightarrow> bool" where
  mounted: "widget_reach (mount_widget p)"
| changed: "widget_reach s \<Longrightarrow> wg_mounted s \<Longrightarrow> widget_reach (did_change p s)"
| refresh: "widget_reach s \<Longrightarrow> wg_mounted s \<Longrightarrow> widget_reach (fetchData s)"
| arrived: "widget_reach s \<Longrightarrow> admissible i r s \<Longrightarrow> widget_reach (handle_reply i r s)"
| gone: "widget_reach s \<Longrightarrow> wg_mounted s \<Longrightarrow> widget_reach (unmount s)"

definition last_request :: "widget_state \<Rightarrow> nat option" where
  "last_request s = (if wg_sent s = [] then None else Some (length (wg_sent s) - 1))"

text \<open>What a widget should show: the answer to its last request.\<close>

definition reply_status :: "reply \<Rightarrow> status" where
  "reply_status r = (case r of Reply ok code body \<Rightarrow> if \<not> ok then Failed else if truthy (jprop body ''data'') then Ok else Empty
     | Fail _ _ \<Rightarrow> Failed)"

definition expected_status :: "widget_state \<Rightarrow> status" where
  "expected_status s =
     (case last_request s of None \<Rightarrow> Idle
      | Some i \<Rightarrow> (case map_of (wg_replies s) i of None \<Rightarrow> Loading | Some r \<Rightarrow> reply_status r))"

definition shows_last :: "widget_state \<Rightarrow> bool" where
  "shows_last s \<longleftrightarrow> wg_status s = expected_status s \<and>
     (wg_status s = Ok \<longrightarrow> (\<exists>i code body. last_request s = Some i \<and>
        map_of (wg_replies s) i = Some (Reply True code body) \<and> wg_data s = jprop body ''data''))"

definition widget_inv :: "widget_state \<Rightarrow> bool" where
  "widget_inv s \<longleftrightarrow> wg_mounted s \<longrightarrow> wg_abortRef s = last_request s \<and> shows_last s \<and>
     set (wg_aborted s) = {i. Suc i < length (wg_sent s)} \<and> fst ` set (wg_replies s) \<subseteq> {i. i < length (wg_sent s)}"

lemma fetchData_inv: "wg_mounted s \<Longrightarrow> widget_inv s \<Longrightarrow> widget_inv (fetchData (s\<lparr>wg_props := p\<rparr>))"
proof -
  assume m: "wg_mounted s" and inv: "widget_inv s"
  show ?thesis
  proof (cases "truthy (jprop (wp_widget p) ''query'')")
    case False
    with m inv show ?thesis
      by (auto simp: widget_inv_def fetchData_def shows_last_def expected_status_def last_request_def)
  next
    case True
    have new: "map_of (wg_replies s) (length (wg_sent s)) = None"
      using m inv by (auto simp: widget_inv_def map_of_eq_None_iff)
    show ?thesis
      using m inv True new
      by (cases "wg_sent s = []")
        (auto simp: widget_inv_def fetchData_def abort_def last_request_def shows_last_def expected_status_def Let_def
          less_Suc_eq)
  qed
qed

lemma fetchData_same: "wg_mounted s \<Longrightarrow> widget_inv s \<Longrightarrow> widget_inv (fetchData s)"
  using fetchData_inv [of s "wg_props s"] by simp

lemma did_change_inv: "wg_mounted s \<Longrightarrow> widget_inv s \<Longrightarrow> widget_inv (did_change p s)"
  using fetchData_inv [of s p] by (cases "p = wg_props s") (simp_all add: did_change_def Let_def)

lemma show_reply_keeps [simp]:
  "wg_sent (show_reply r s) = wg_sent s" "wg_aborted (show_reply r s) = wg_aborted s"
  "wg_abortRef (show_reply r s) = wg_abortRef s" "wg_replies (show_reply r s) = wg_replies s"
  "wg_mounted (show_reply r s) = wg_mounted s"
  by (auto simp: show_reply_def split: reply.splits)

lemma show_reply_status: "wg_status (show_reply r s) = reply_status r"
  by (auto simp: show_reply_def reply_status_def split: reply.splits)

lemma show_reply_data: "wg_status (show_reply r s) = Ok \<Longrightarrow> \<exists>code body. r = Reply True code body \<and> wg_data (show_reply r s) = jprop body ''data''"
  by (auto simp: show_reply_def split: reply.splits if_splits)

lemma handle_reply_inv: "widget_inv s \<Longrightarrow> admissible i r s \<Longrightarrow> widget_inv (handle_reply i r s)"
proof (cases "wg_mounted s")
  case False
  then show ?thesis by (simp add: widget_inv_def handle_reply_def)
next
  case m: True
  assume inv: "widget_inv s" and adm: "admissible i r s"
  let ?s = "s\<lparr>wg_replies := (i, r) # wg_replies s\<rparr>"
  from m inv have ab: "set (wg_aborted s) = {i. Suc i < length (wg_sent s)}" by (simp add: widget_inv_def)
  show ?thesis
  proof (cases "Suc i < length (wg_sent s)")
    case True
    with ab adm have old: "handle_reply i r s = ?s" by (auto simp: handle_reply_def admissible_def Let_def)
    from True have "last_request s \<noteq> Some i" by (auto simp: last_request_def)
    with m inv adm True show ?thesis
      unfolding old
      by (auto simp: widget_inv_def shows_last_def expected_status_def last_request_def admissible_def split: option.splits if_splits)
  next
    case False
    with m ab adm have new: "handle_reply i r s = show_reply r ?s" and i: "last_request s = Some i"
      by (auto simp: handle_reply_def admissible_def Let_def last_request_def)
    have "last_request (show_reply r ?s) = Some i" using i by (auto simp: last_request_def split: if_splits)
    then have "shows_last (show_reply r ?s)"
      using show_reply_status [of r ?s] show_reply_data [of r ?s] by (auto simp: shows_last_def expected_status_def)
    with m inv adm i show ?thesis
      unfolding new by (auto simp: widget_inv_def last_request_def admissible_def)
  qed
qed

lemma widget_reach_inv: "widget_reach s \<Longrightarrow> widget_inv s"
proof (induction rule: widget_reach.induct)
  case (mounted p)
  show ?case
    unfolding mount_widget_def
    by (rule fetchData_same) (simp_all add: widget_inv_def shows_last_def expected_status_def last_request_def)
next
  case (gone s)
  then show ?case by (simp add: widget_inv_def unmount_def)
qed (auto simp: did_change_inv fetchData_same handle_reply_inv)

text \<open>
  C15. Whatever the order in which the answers arrive, a widget shows the answer to the last request it
  sent: it is loading until that answer is there, and the data it draws is the data of that answer.
\<close>

theorem widget_shows_last_answer:
  assumes "widget_reach s" and "wg_mounted s"
  shows "shows_last s"
  using widget_reach_inv [OF assms(1)] assms(2) by (simp add: widget_inv_def)

definition traffic :: widget_props where
  "traffic = \<lparr>wp_widget = JObj [(''query'', JStr ''requests_by_route'')],
     wp_filters = \<lparr>af_from = ''now-1h'', af_to = ''now'', af_route = [], af_api = [], af_apikey = [], af_group = [],
       af_refresh = Some 0, af_compare = False, af_interval = None\<rparr>, wp_compare = False, wp_refreshKey = 0\<rparr>"

definition data_reply :: "string \<Rightarrow> reply" where
  "data_reply d = Reply True ''200'' (JObj [(''data'', JStr d)])"

definition two_requests :: widget_state where
  "two_requests = handle_reply 1 (data_reply ''new'') (handle_reply 0 (data_reply ''old'') (fetchData (mount_widget traffic)))"

lemma two_requests_reach: "widget_reach two_requests"
  unfolding two_requests_def
  by (intro widget_reach.arrived widget_reach.refresh widget_reach.mounted) code_simp+

theorem widget_shows_last_answer_witness:
  "shows_last two_requests \<and> wg_data two_requests = JStr ''new''"
proof -
  have "wg_mounted two_requests" "wg_data two_requests = JStr ''new''" by code_simp+
  with widget_shows_last_answer [OF two_requests_reach] show ?thesis by simp
qed

text \<open>
  C33. Loading ends: once every request has its answer, no widget is loading.
\<close>

theorem loading_ends:
  assumes "widget_reach s" and "wg_mounted s" and "\<forall>i < length (wg_sent s). \<exists>r. (i, r) \<in> set (wg_replies s)"
  shows "wg_status s \<noteq> Loading"
proof
  assume "wg_status s = Loading"
  with widget_shows_last_answer [OF assms(1,2)] have "expected_status s = Loading" by (simp add: shows_last_def)
  then obtain i where "last_request s = Some i" and none: "map_of (wg_replies s) i = None"
    by (auto simp: expected_status_def reply_status_def split: option.splits reply.splits if_splits)
  then have "i < length (wg_sent s)" by (auto simp: last_request_def split: if_splits)
  with assms(3) none show False by (force simp: map_of_eq_None_iff)
qed

theorem loading_ends_witness: "wg_status two_requests \<noteq> Loading"
proof (rule loading_ends [OF two_requests_reach])
  show "wg_mounted two_requests" by code_simp
  have "wg_sent two_requests = [payload_of traffic, payload_of traffic]"
    and "wg_replies two_requests = [(1, data_reply ''new''), (0, data_reply ''old'')]"
    by code_simp+
  then show "\<forall>i < length (wg_sent two_requests). \<exists>r. (i, r) \<in> set (wg_replies two_requests)"
    by (auto simp: less_Suc_eq)
qed

text \<open>
  The type of the state: what each status promises of the fields the widget is drawn from.
\<close>

definition widget_typed :: "widget_state \<Rightarrow> bool" where
  "widget_typed s \<longleftrightarrow>
     (case wg_status s of
        Idle \<Rightarrow> wg_sent s = [] \<and> wg_data s = JNull \<and> wg_error s = JNull
      | Loading \<Rightarrow> wg_sent s \<noteq> [] \<and> wg_error s = JNull
      | Ok \<Rightarrow> truthy (wg_data s) \<and> wg_error s = JNull \<and> (truthy (wg_compare s) \<or> wg_compare s = JNull)
      | Empty \<Rightarrow> wg_error s = JNull
      | Failed \<Rightarrow> wg_sent s \<noteq> [])"

definition widget_fields :: "widget_state \<Rightarrow> bool" where
  "widget_fields s \<longleftrightarrow> widget_typed s \<and> (truthy (wg_compare s) \<or> wg_compare s = JNull) \<and>
     (wg_status s \<noteq> Failed \<longrightarrow> wg_error s = JNull) \<and> (wg_sent s = [] \<longrightarrow> wg_data s = JNull \<and> wg_status s = Idle)"

lemma widget_fields_fetch: "widget_fields s \<Longrightarrow> widget_fields (fetchData s)"
  by (auto simp: widget_fields_def widget_typed_def fetchData_def abort_def Let_def split: option.splits)

lemma widget_fields_keep:
  "widget_fields s \<Longrightarrow> widget_fields (s\<lparr>wg_props := p\<rparr>)"
  "widget_fields s \<Longrightarrow> widget_fields (s\<lparr>wg_replies := rs\<rparr>)"
  "widget_fields s \<Longrightarrow> widget_fields (unmount s)"
  by (cases "wg_status s"; auto simp: widget_fields_def widget_typed_def unmount_def abort_def split: option.splits)+

lemma widget_fields_reply:
  assumes "widget_inv s" and "widget_fields s" and "admissible i r s"
  shows "widget_fields (handle_reply i r s)"
proof -
  let ?s = "s\<lparr>wg_replies := (i, r) # wg_replies s\<rparr>"
  have sent: "wg_sent s \<noteq> []" using assms(3) by (auto simp: admissible_def)
  consider "handle_reply i r s = ?s" | "handle_reply i r s = show_reply r ?s" "wg_mounted s" "i \<notin> set (wg_aborted s)"
    using assms(3) by (cases "wg_mounted s") (auto simp: handle_reply_def admissible_def Let_def split: if_splits)
  then show ?thesis
  proof cases
    case 1
    with assms(2) show ?thesis by (simp add: widget_fields_keep)
  next
    case 2
    have "last_request s = Some i"
      using assms(1,3) 2(2,3) by (auto simp: widget_inv_def admissible_def last_request_def)
    moreover have "map_of (wg_replies s) i = None" using assms(3) by (simp add: admissible_def map_of_eq_None_iff)
    ultimately have "wg_status s = Loading"
      using assms(1) 2(2) by (simp add: widget_inv_def shows_last_def expected_status_def)
    with assms(2) sent have "wg_error s = JNull" "truthy (wg_compare s) \<or> wg_compare s = JNull"
      by (simp_all add: widget_fields_def)
    with sent 2(1) show ?thesis
      by (auto simp: widget_fields_def widget_typed_def show_reply_def js_or_def split: reply.splits)
  qed
qed

text \<open>
  C35. The fields agree with the status: a widget that draws data has some and no error, one that loads or
  is empty has no error, and one that asked for nothing has nothing.
\<close>

theorem widget_state_typed:
  assumes "widget_reach s"
  shows "widget_typed s"
proof -
  from assms have "widget_fields s"
  proof (induction rule: widget_reach.induct)
    case (mounted p)
    show ?case
      unfolding mount_widget_def
      by (rule widget_fields_fetch) (simp add: widget_fields_def widget_typed_def)
  next
    case (changed s p)
    then show ?case by (auto simp: did_change_def Let_def widget_fields_keep widget_fields_fetch)
  next
    case (arrived s i r)
    then show ?case by (intro widget_fields_reply widget_reach_inv)
  next
  qed (simp_all add: widget_fields_fetch widget_fields_keep)
  then show ?thesis by (simp add: widget_fields_def)
qed

theorem widget_state_typed_witness: "widget_typed two_requests"
  by (rule widget_state_typed [OF two_requests_reach])

text \<open>
  The handler of the failures tells a request that was given up by the name of the error only: a
  failure of another kind that was on its way is shown, although a newer request is loading.
\<close>

lemma stale_failure_shown:
  assumes "wg_mounted s" and "name \<noteq> ''AbortError''"
  shows "wg_status (handle_reply i (Fail name m) s) = Failed"
  using assms by (simp add: handle_reply_def is_answer_def is_abort_def show_reply_def Let_def)

section \<open>The grid\<close>

text \<open>Drag and drop in \<open>Grid\<close>: the widget dragged and the one under it, and the reorder asked for.\<close>

record grid_state =
  gr_dragged :: "string option"
  gr_hover :: "string option"

definition onDragStart :: "string \<Rightarrow> grid_state \<Rightarrow> grid_state" where
  "onDragStart i g = g\<lparr>gr_dragged := Some i\<rparr>"

definition onDragOver :: "string \<Rightarrow> grid_state \<Rightarrow> grid_state" where
  "onDragOver i g = (if gr_dragged g = None \<or> gr_dragged g = Some [] then g else g\<lparr>gr_hover := Some i\<rparr>)"

definition onDragLeave :: "grid_state \<Rightarrow> grid_state" where
  "onDragLeave g = g\<lparr>gr_hover := None\<rparr>"

definition onDrop :: "string \<Rightarrow> string \<Rightarrow> grid_state \<Rightarrow> grid_state \<times> (string \<times> string) option" where
  "onDrop transferred i g =
     (let src = (case gr_dragged g of Some d \<Rightarrow> if d = [] then transferred else d | None \<Rightarrow> transferred)
      in (\<lparr>gr_dragged = None, gr_hover = None\<rparr>,
          if src = [] \<or> i = [] \<or> src = i then None else Some (src, i)))"

definition onDragEnd :: "grid_state \<Rightarrow> grid_state" where
  "onDragEnd g = \<lparr>gr_dragged = None, gr_hover = None\<rparr>"

text \<open>The columns and rows a widget takes: \<open>Math.max(1, Math.min(4, w.width || 4))\<close>.\<close>

definition grid_column :: "rat option \<Rightarrow> rat" where
  "grid_column w = max 1 (min 4 (if num_truthy w then the w else 4))"

definition grid_row :: "rat option \<Rightarrow> rat" where
  "grid_row h = max 1 (if num_truthy h then the h else 2)"

lemma grid_column_fits: "1 \<le> grid_column w \<and> grid_column w \<le> 4"
  by (simp add: grid_column_def)

end
