(* ===== verification/Analytics_Dashboard.thy ===== *)
theory Analytics_Dashboard
  imports Analytics_Widget
begin

text \<open>
  The page of an analytics dashboard (\<open>pages/analytics/UserDashboardViewPage.js\<close>): what
  it loads, its refresh, and the actions on its widgets.

  \<^item> A dashboard is the object the server holds; its \<open>widgets\<close> are an array or absent.
  \<^item> Every action of the page builds a whole dashboard from the one the page shows and sends it. The
    answers arrive later; the server keeps the dashboards in the order of its answers.
\<close>

section \<open>The actions\<close>

definition widgets_of :: "js \<Rightarrow> js list" where
  "widgets_of d = (case jprop d ''widgets'' of JArr ws \<Rightarrow> ws | _ \<Rightarrow> [])"

definition with_widgets :: "js list \<Rightarrow> js \<Rightarrow> js" where
  "with_widgets ws d = JObj (AList.update ''widgets'' (JArr ws) (entries d))"

definition has_id :: "string \<Rightarrow> js \<Rightarrow> bool" where
  "has_id i w \<longleftrightarrow> jprop w ''id'' = JStr i"

text \<open>A move takes the widget out, then puts it at the place the target had.\<close>

definition reorder :: "string \<Rightarrow> string \<Rightarrow> js list \<Rightarrow> js list option" where
  "reorder src dst ws =
     (if src = dst then None
      else case (find_index (has_id src) ws, find_index (has_id dst) ws) of
        (Some i, Some j) \<Rightarrow>
          (let rest = take i ws @ drop (Suc i) ws in Some (take j rest @ (ws ! i) # drop j rest))
      | _ \<Rightarrow> None)"

definition swap_with :: "nat \<Rightarrow> nat \<Rightarrow> js list \<Rightarrow> js list" where
  "swap_with i j ws = ws[i := ws ! j, j := ws ! i]"

definition move_widget :: "string \<Rightarrow> bool \<Rightarrow> js list \<Rightarrow> js list option" where
  "move_widget i up ws =
     (case find_index (has_id i) ws of
        None \<Rightarrow> None
      | Some k \<Rightarrow>
          if up then (if k = 0 then None else Some (swap_with k (k - 1) ws))
          else (if Suc k < length ws then Some (swap_with k (Suc k) ws) else None))"

datatype action =
    Add_widget js
  | Edit_widget string js
  | Reorder string string
  | Move string bool
  | Remove string
  | Save_default
  | Clear_default

definition query_js :: "addr_query \<Rightarrow> js" where
  "query_js q = JObj (map (\<lambda>(k, v). (k, JStr v)) q)"

text \<open>The dashboard an action sends, from the one it started with; \<open>None\<close> when it does nothing.\<close>

definition updated_by :: "analytics_env \<Rightarrow> filters \<Rightarrow> action \<Rightarrow> js \<Rightarrow> js option" where
  "updated_by env f a d =
     (if \<not> truthy d then None
      else case a of
        Add_widget w \<Rightarrow>
          if truthy (jprop w ''query'') then Some (with_widgets (widgets_of d @ [w]) d) else None
      | Edit_widget i w \<Rightarrow>
          if (\<exists>x \<in> set (widgets_of d). has_id i x) \<and> truthy (jprop w ''query'')
          then Some (with_widgets (map (\<lambda>x. if has_id i x then w else x) (widgets_of d)) d) else None
      | Reorder src dst \<Rightarrow> map_option (\<lambda>ws. with_widgets ws d) (reorder src dst (widgets_of d))
      | Move i up \<Rightarrow> map_option (\<lambda>ws. with_widgets ws d) (move_widget i up (widgets_of d))
      | Remove i \<Rightarrow> Some (with_widgets (filter (\<lambda>w. \<not> has_id i w) (widgets_of d)) d)
      | Save_default \<Rightarrow> Some (JObj (AList.update ''defaults'' (query_js (filtersToQuery env f)) (entries d)))
      | Clear_default \<Rightarrow> Some (JObj (AList.update ''defaults'' (JObj []) (entries d))))"

text \<open>\<open>reorderWidgets\<close> shows the new order at once, the other actions when the server has answered.\<close>

definition optimistic :: "action \<Rightarrow> bool" where
  "optimistic a = (case a of Reorder _ _ \<Rightarrow> True | _ \<Rightarrow> False)"

section \<open>The page\<close>

record dashboard_page =
  dp_dashboard :: js
  dp_loading :: bool
  dp_error :: js
  dp_filters :: filters
  dp_refreshKey :: nat
  dp_editMode :: bool
  dp_timer :: "rat option"

definition query_strings :: "js \<Rightarrow> addr_query" where
  "query_strings v = concat (map (\<lambda>(k, v). case v of JStr s \<Rightarrow> [(k, s)] | _ \<Rightarrow> []) (entries v))"

text \<open>
  \<open>setupAutoRefresh\<close>: the period of the timer in milliseconds, if it runs.
\<close>

definition setupAutoRefresh :: "dashboard_page \<Rightarrow> dashboard_page" where
  "setupAutoRefresh p =
     p\<lparr>dp_timer := (case af_refresh (dp_filters p) of Some r \<Rightarrow> if 0 < r then Some (r * 1000) else None | None \<Rightarrow> None)\<rparr>"

definition bumpRefresh :: "dashboard_page \<Rightarrow> dashboard_page" where
  "bumpRefresh p = p\<lparr>dp_refreshKey := dp_refreshKey p + 1\<rparr>"

definition start_page :: "analytics_env \<Rightarrow> addr_query \<Rightarrow> dashboard_page" where
  "start_page env q =
     setupAutoRefresh \<lparr>dp_dashboard = JNull, dp_loading = True, dp_error = JNull, dp_filters = queryToFilters env q,
       dp_refreshKey = 0, dp_editMode = False, dp_timer = None\<rparr>"

text \<open>
  \<open>loadDashboard\<close>, when the dashboard has arrived: \<open>d.widgets.length\<close> throws without widgets, and the
  failure becomes the error of the page.
\<close>

definition dashboard_loaded :: "analytics_env \<Rightarrow> addr_query \<Rightarrow> js \<Rightarrow> dashboard_page \<Rightarrow> dashboard_page" where
  "dashboard_loaded env q d p =
     (if \<not> truthy d \<or> truthy (jprop d ''error'')
      then p\<lparr>dp_error := (if truthy (jprop d ''error'') then jprop d ''error'' else JStr ''not found''), dp_loading := False\<rparr>
      else if nullish (jprop d ''widgets'') then p\<lparr>dp_error := JStr ''TypeError'', dp_loading := False\<rparr>
      else setupAutoRefresh
        (p\<lparr>dp_dashboard := d, dp_loading := False, dp_editMode := (jprop d ''widgets'' = JArr []), dp_error := JNull,
           dp_filters := (if \<not> urlHasFilterParams q \<and> entries (jprop d ''defaults'') \<noteq> []
                          then queryToFilters env (query_strings (jprop d ''defaults'')) else dp_filters p)\<rparr>))"

definition toggleEditMode :: "dashboard_page \<Rightarrow> dashboard_page" where
  "toggleEditMode p = p\<lparr>dp_editMode := \<not> dp_editMode p\<rparr>"

section \<open>The page and the server\<close>

text \<open>
  \<open>sy_sent\<close> are the dashboards sent and not answered yet, with what made them.
\<close>

record system =
  sy_shown :: js
  sy_server :: js
  sy_sent :: "(action \<times> js) list"

text \<open>An action that starts from the dashboard \<open>base\<close> the page showed when it was opened.\<close>

definition send_action :: "analytics_env \<Rightarrow> filters \<Rightarrow> js \<Rightarrow> action \<Rightarrow> system \<Rightarrow> system" where
  "send_action env f base a s =
     (case updated_by env f a base of
        None \<Rightarrow> s
      | Some d \<Rightarrow> s\<lparr>sy_sent := sy_sent s @ [(a, d)], sy_shown := (if optimistic a then d else sy_shown s)\<rparr>)"

definition click :: "analytics_env \<Rightarrow> filters \<Rightarrow> action \<Rightarrow> system \<Rightarrow> system" where
  "click env f a s = send_action env f (sy_shown s) a s"

text \<open>The server answers the first dashboard it was sent: it keeps it, or refuses it.\<close>

definition answer_first :: "bool \<Rightarrow> system \<Rightarrow> system" where
  "answer_first ok s =
     (case sy_sent s of
        [] \<Rightarrow> s
      | (a, d) # rest \<Rightarrow>
          if ok then s\<lparr>sy_sent := rest, sy_server := d, sy_shown := (if optimistic a then sy_shown s else d)\<rparr>
          else s\<lparr>sy_sent := rest\<rparr>)"

section \<open>Orders\<close>

lemma reorder_split:
  assumes "reorder src dst ws = Some ws'"
  obtains i j where "find_index (has_id src) ws = Some i" "find_index (has_id dst) ws = Some j" "i < length ws" "j < length ws"
    "i \<noteq> j" "ws' = take j (take i ws @ drop (Suc i) ws) @ (ws ! i) # drop j (take i ws @ drop (Suc i) ws)"
proof -
  from assms obtain i j where ij: "find_index (has_id src) ws = Some i" "find_index (has_id dst) ws = Some j" "src \<noteq> dst"
    and ws': "ws' = take j (take i ws @ drop (Suc i) ws) @ (ws ! i) # drop j (take i ws @ drop (Suc i) ws)"
    by (auto simp: reorder_def Let_def split: option.splits if_splits)
  from find_index_Some [OF ij(1)] find_index_Some [OF ij(2)] ij(3) have "i < length ws" "j < length ws" "i \<noteq> j"
    by (auto simp: has_id_def)
  with ij ws' that show ?thesis by blast
qed

text \<open>
  Dropping a widget on another one moves it to the place the other had and moves nothing else: the
  widgets are the same, the moved one is where the target was, and the others keep their order.
\<close>

lemma reorder_moves_one:
  assumes "reorder src dst ws = Some ws'"
  shows "\<exists>i j. i < length ws \<and> j < length ws \<and> has_id src (ws ! i) \<and> has_id dst (ws ! j) \<and>
    length ws' = length ws \<and> ws' ! j = ws ! i \<and>
    take j ws' @ drop (Suc j) ws' = take i ws @ drop (Suc i) ws"
proof -
  obtain i j where ij: "find_index (has_id src) ws = Some i" "find_index (has_id dst) ws = Some j" "i < length ws" "j < length ws"
    "i \<noteq> j" and ws': "ws' = take j (take i ws @ drop (Suc i) ws) @ (ws ! i) # drop j (take i ws @ drop (Suc i) ws)"
    by (rule reorder_split [OF assms])
  define rest where "rest = take i ws @ drop (Suc i) ws"
  have len: "length rest = length ws - 1" using ij(3) by (simp add: rest_def)
  with ij(4) have j: "j \<le> length rest" by simp
  have w: "ws' = take j rest @ (ws ! i) # drop j rest" using ws' by (simp add: rest_def)
  have "length ws' = length ws" using ij(3,4) len by (simp add: w)
  moreover have "ws' ! j = ws ! i" using j by (simp add: w nth_append)
  moreover have "take j ws' @ drop (Suc j) ws' = take i ws @ drop (Suc i) ws"
    using j by (simp add: w rest_def [symmetric])
  ultimately show ?thesis
    using find_index_Some [OF ij(1)] find_index_Some [OF ij(2)] ij(3,4) by blast
qed

definition widget :: "string \<Rightarrow> js" where
  "widget i = JObj [(''id'', JStr i), (''query'', JStr ''requests_by_route'')]"

lemma reorder_moves_one_witness:
  "reorder ''a'' ''c'' [widget ''a'', widget ''b'', widget ''c''] = Some [widget ''b'', widget ''c'', widget ''a''] \<and>
   (\<exists>i j. i < 3 \<and> j < 3 \<and> has_id ''a'' ([widget ''a'', widget ''b'', widget ''c''] ! i) \<and>
      [widget ''b'', widget ''c'', widget ''a''] ! j = [widget ''a'', widget ''b'', widget ''c''] ! i)"
proof -
  have r: "reorder ''a'' ''c'' [widget ''a'', widget ''b'', widget ''c''] = Some [widget ''b'', widget ''c'', widget ''a'']"
    by code_simp
  from reorder_moves_one [OF r] r show ?thesis by (simp add: numeral_3_eq_3) blast
qed

section \<open>One action at a time\<close>

text \<open>An action answered before the next one starts.\<close>

definition settle :: "analytics_env \<Rightarrow> filters \<Rightarrow> system \<Rightarrow> action \<times> bool \<Rightarrow> system" where
  "settle env f s e = answer_first (snd e) (click env f (fst e) s)"

definition in_step :: "system \<Rightarrow> bool" where
  "in_step s \<longleftrightarrow> sy_shown s = sy_server s \<and> sy_sent s = []"

definition undone_well :: "action \<times> bool \<Rightarrow> bool" where
  "undone_well e \<longleftrightarrow> snd e \<or> \<not> optimistic (fst e)"

text \<open>
  What an action promises of the widgets \<open>ws\<close>, stated on the lists alone, without indexes and without the operations of the page:
  dropping the widget \<open>x\<close> on the widget \<open>y\<close> takes \<open>x\<close> out and puts it right after \<open>y\<close> when it came from before it, right before
  \<open>y\<close> when it came from after it; a move exchanges two neighbours. Of several widgets with an id the first is meant.
\<close>

definition without_id :: "string \<Rightarrow> js list \<Rightarrow> bool" where
  "without_id i = list_all (\<lambda>w. \<not> has_id i w)"

fun rearranged :: "action \<Rightarrow> js list \<Rightarrow> js list \<Rightarrow> bool" where
  "rearranged (Add_widget w) ws ws' \<longleftrightarrow> ws' = ws @ [w]"
| "rearranged (Edit_widget i w) ws ws' \<longleftrightarrow> list_all2 (\<lambda>x x'. x' = (if has_id i x then w else x)) ws ws'"
| "rearranged (Reorder src dst) ws ws' \<longleftrightarrow>
     (\<exists>pre x mid y post. has_id src x \<and> has_id dst y \<and>
        (ws = pre @ x # mid @ y # post \<and> without_id src pre \<and> without_id dst (pre @ x # mid) \<and>
           ws' = pre @ mid @ y # x # post \<or>
         ws = pre @ y # mid @ x # post \<and> without_id dst pre \<and> without_id src (pre @ y # mid) \<and>
           ws' = pre @ x # y # mid @ post))"
| "rearranged (Move i up) ws ws' \<longleftrightarrow>
     (\<exists>pre x y post. ws = pre @ x # y # post \<and> ws' = pre @ y # x # post \<and>
        (if up then has_id i y \<and> without_id i (pre @ [x]) else has_id i x \<and> without_id i pre))"
| "rearranged (Remove i) ws ws' \<longleftrightarrow> ws' = concat (map (\<lambda>w. if has_id i w then [] else [w]) ws)"
| "rearranged _ ws ws' \<longleftrightarrow> ws' = ws"

text \<open>When there is nothing to do.\<close>

fun nothing_in :: "action \<Rightarrow> js list \<Rightarrow> bool" where
  "nothing_in (Add_widget w) ws \<longleftrightarrow> \<not> truthy (jprop w ''query'')"
| "nothing_in (Edit_widget i w) ws \<longleftrightarrow> \<not> truthy (jprop w ''query'') \<or> without_id i ws"
| "nothing_in (Reorder src dst) ws \<longleftrightarrow> src = dst \<or> without_id src ws \<or> without_id dst ws"
| "nothing_in (Move i up) ws \<longleftrightarrow>
     without_id i ws \<or> (if up then list_all (has_id i) (take 1 ws) else without_id i (butlast ws))"
| "nothing_in _ ws \<longleftrightarrow> False"

definition nothing_to_do :: "action \<Rightarrow> js \<Rightarrow> bool" where
  "nothing_to_do a d \<longleftrightarrow> \<not> truthy d \<or> nothing_in a (widgets_of d)"

text \<open>\<open>d'\<close> is \<open>d\<close> with one property set, and the effect of an action on a whole dashboard.\<close>

definition set_alone :: "string \<Rightarrow> js \<Rightarrow> js \<Rightarrow> js \<Rightarrow> bool" where
  "set_alone k v d d' \<longleftrightarrow>
     (\<exists>fs. d' = JObj fs \<and> obj_get fs k = v \<and> (\<forall>k'. k' \<noteq> k \<longrightarrow> obj_get fs k' = obj_get (entries d) k'))"

definition effect :: "analytics_env \<Rightarrow> filters \<Rightarrow> action \<Rightarrow> js \<Rightarrow> js \<Rightarrow> bool" where
  "effect env f a d d' \<longleftrightarrow>
     (case a of
        Save_default \<Rightarrow> set_alone ''defaults'' (query_js (filtersToQuery env f)) d d'
      | Clear_default \<Rightarrow> set_alone ''defaults'' (JObj []) d d'
      | _ \<Rightarrow> (\<exists>ws'. rearranged a (widgets_of d) ws' \<and> set_alone ''widgets'' (JArr ws') d d'))"

text \<open>
  What an action and its answer do to the dashboard shown and the dashboard kept by the server: the server takes what the
  action makes of the dashboard shown, or keeps its own when it refuses; a refused order stays on the page.
\<close>

fun board_change :: "analytics_env \<Rightarrow> filters \<Rightarrow> js \<times> js \<Rightarrow> action \<times> bool \<Rightarrow> js \<times> js \<Rightarrow> bool" where
  "board_change env f (shown, server) (a, ok) (shown', server') \<longleftrightarrow>
     (if nothing_to_do a shown then shown' = shown \<and> server' = server
      else \<exists>d. effect env f a shown d \<and>
        (if ok then shown' = d \<and> server' = d
         else server' = server \<and> shown' = (case a of Reorder _ _ \<Rightarrow> d | _ \<Rightarrow> shown)))"

lemma find_index_append:
  "find_index P (xs @ ys) =
     (case find_index P xs of Some i \<Rightarrow> Some i | None \<Rightarrow> map_option ((+) (length xs)) (find_index P ys))"
  by (induction xs) (auto simp: option.map_comp o_def option.map_ident_strong split: option.split intro: map_option_cong)

lemma find_index_split:
  assumes "find_index P xs = Some i"
  obtains pre x post where "xs = pre @ x # post" "P x" "i = length pre" "find_index P pre = None"
proof
  note i = find_index_Some [OF assms]
  then show "xs = take i xs @ (xs ! i) # drop (Suc i) xs" by (simp add: id_take_nth_drop)
  show "P (xs ! i)" "i = length (take i xs)" using i by simp_all
  show "find_index P (take i xs) = None" using i by (auto simp: find_index_None in_set_conv_nth)
qed

lemma without_id_find: "without_id i ws \<longleftrightarrow> find_index (has_id i) ws = None"
  by (auto simp: without_id_def list_all_iff find_index_None)

lemma has_id_unique: "has_id i w \<Longrightarrow> has_id j w \<longleftrightarrow> i = j"
  by (auto simp: has_id_def)

lemma reorder_rearranged:
  assumes "reorder src dst ws = Some ws'"
  shows "rearranged (Reorder src dst) ws ws'"
proof -
  obtain i j where i: "find_index (has_id src) ws = Some i" and j: "find_index (has_id dst) ws = Some j" and "src \<noteq> dst"
    and ws': "ws' = take j (take i ws @ drop (Suc i) ws) @ (ws ! i) # drop j (take i ws @ drop (Suc i) ws)"
    using assms by (auto simp: reorder_def Let_def split: option.splits if_splits)
  from i obtain pre x post where s: "ws = pre @ x # post" "has_id src x" "i = length pre" "find_index (has_id src) pre = None"
    by (rule find_index_split)
  have nx: "\<not> has_id dst x" using s(2) \<open>src \<noteq> dst\<close> by (simp add: has_id_unique)
  show ?thesis
  proof (cases "find_index (has_id dst) pre")
    case None
    with j s(1) nx obtain j' where "find_index (has_id dst) post = Some j'" and jj: "j = length pre + Suc j'"
      by (auto simp: find_index_append)
    from this(1) obtain mid y post' where t: "post = mid @ y # post'" "has_id dst y" "j' = length mid" "find_index (has_id dst) mid = None"
      by (rule find_index_split)
    have "ws' = pre @ mid @ y # x # post'" by (simp add: ws' s(1,3) t(1,3) jj)
    moreover have "without_id dst (pre @ x # mid)" using None nx t(4) by (simp add: without_id_find find_index_append)
    ultimately show ?thesis using s t by (fastforce simp: without_id_find)
  next
    case (Some j')
    with j s(1) have "j' = j" by (simp add: find_index_append)
    with Some have "find_index (has_id dst) pre = Some j" by simp
    then obtain pre' y mid where t: "pre = pre' @ y # mid" "has_id dst y" "j = length pre'" "find_index (has_id dst) pre' = None"
      by (rule find_index_split)
    have "ws ! length pre = x" "take (length pre) ws @ drop (Suc (length pre)) ws = pre @ post" by (simp_all add: s(1) nth_append)
    then have "ws' = pre' @ x # y # mid @ post" by (simp only: ws' s(3)) (simp add: t(1,3))
    moreover have "without_id src (pre' @ y # mid)" using s(4) t(1) by (simp add: without_id_find)
    moreover have "ws = pre' @ y # mid @ x # post" using s(1) t(1) by simp
    moreover have "without_id dst pre'" using t(4) by (simp add: without_id_find)
    ultimately have "\<exists>pre x mid y post. has_id src x \<and> has_id dst y \<and> ws = pre @ y # mid @ x # post \<and> without_id dst pre \<and>
        without_id src (pre @ y # mid) \<and> ws' = pre @ x # y # mid @ post"
      using s(2) t(2) by blast
    then show ?thesis by (simp only: rearranged.simps) blast
  qed
qed

lemma swap_neighbours: "swap_with (length pre) (Suc (length pre)) (pre @ x # y # post) = pre @ y # x # post"
  "swap_with (Suc (length pre)) (length pre) (pre @ x # y # post) = pre @ y # x # post"
  by (simp_all add: swap_with_def list_update_append nth_append)

lemma move_rearranged:
  assumes "move_widget i up ws = Some ws'"
  shows "rearranged (Move i up) ws ws'"
proof -
  obtain k where k: "find_index (has_id i) ws = Some k" using assms by (auto simp: move_widget_def split: option.splits)
  then obtain pre x post where s: "ws = pre @ x # post" "has_id i x" "k = length pre" "find_index (has_id i) pre = None"
    by (rule find_index_split)
  show ?thesis
  proof (cases up)
    case True
    with assms k s(3) have "pre \<noteq> []" and ws': "ws' = swap_with (length pre) (length pre - 1) ws"
      by (auto simp: move_widget_def split: if_splits)
    then obtain pre' z where p: "pre = pre' @ [z]" by (cases pre rule: rev_cases) auto
    then have "ws = pre' @ z # x # post" "ws' = pre' @ x # z # post" using ws' s(1) swap_neighbours(2) [of pre'] by simp_all
    then show ?thesis using True s(2,4) p by (auto simp: without_id_find)
  next
    case False
    with assms k s have "post \<noteq> []" and ws': "ws' = swap_with (length pre) (Suc (length pre)) ws"
      by (auto simp: move_widget_def split: if_splits)
    then obtain y post' where p: "post = y # post'" by (cases post) auto
    then have "ws = pre @ x # y # post'" "ws' = pre @ y # x # post'" using ws' s(1) swap_neighbours(1) [of pre] by simp_all
    then show ?thesis using False s(2,4) by (auto simp: without_id_find)
  qed
qed

lemma reorder_None: "reorder src dst ws = None \<longleftrightarrow> nothing_in (Reorder src dst) ws"
  by (auto simp: reorder_def Let_def without_id_find split: option.split)

lemma move_None: "move_widget i up ws = None \<longleftrightarrow> nothing_in (Move i up) ws"
proof (cases "find_index (has_id i) ws")
  case (Some k)
  from Some obtain pre x post where s: "ws = pre @ x # post" "has_id i x" "k = length pre" "find_index (has_id i) pre = None"
    by (rule find_index_split)
  have "without_id i (butlast ws) \<longleftrightarrow> post = []"
    using s(1,2,4) by (auto simp: without_id_find butlast_append find_index_append)
  moreover have "list_all (has_id i) (take 1 ws) \<longleftrightarrow> pre = []"
    using s(1,2,4) by (cases pre) (auto split: if_splits)
  ultimately show ?thesis using Some s by (auto simp: move_widget_def without_id_find)
qed (simp add: move_widget_def without_id_find)

lemma updated_None: "updated_by env f a d = None \<longleftrightarrow> nothing_to_do a d"
  by (cases a) (auto simp: updated_by_def nothing_to_do_def reorder_None move_None without_id_def list_all_iff
      simp del: nothing_in.simps(3,4))

lemma set_alone_update: "set_alone k v d (JObj (AList.update k v (entries d)))"
  by (simp add: set_alone_def)

lemma updated_effect:
  assumes "updated_by env f a d = Some d'"
  shows "effect env f a d d'"
proof -
  have w: "effect env f a d (with_widgets ws' d)" if "rearranged a (widgets_of d) ws'" "a \<noteq> Save_default" "a \<noteq> Clear_default" for ws'
    using that set_alone_update [of "''widgets''" "JArr ws'" d]
    by (cases a) (simp_all add: effect_def with_widgets_def del: rearranged.simps, blast+)
  have t: "truthy d" using assms by (simp add: updated_by_def split: if_splits)
  show ?thesis
  proof (cases a)
    case (Add_widget x)
    with assms t have "d' = with_widgets (widgets_of d @ [x]) d" by (simp add: updated_by_def split: if_splits)
    with Add_widget w [of "widgets_of d @ [x]"] show ?thesis by simp
  next
    case (Edit_widget i x)
    with assms t have "d' = with_widgets (map (\<lambda>y. if has_id i y then x else y) (widgets_of d)) d"
      by (simp add: updated_by_def split: if_splits)
    with Edit_widget w [of "map (\<lambda>y. if has_id i y then x else y) (widgets_of d)"] show ?thesis
      by (simp add: list_all2_map2 list.rel_refl)
  next
    case (Reorder src dst)
    with assms t obtain ws' where "reorder src dst (widgets_of d) = Some ws'" "d' = with_widgets ws' d" by (auto simp: updated_by_def)
    with Reorder show ?thesis by (metis w reorder_rearranged action.distinct)
  next
    case (Move i up)
    with assms t obtain ws' where "move_widget i up (widgets_of d) = Some ws'" "d' = with_widgets ws' d" by (auto simp: updated_by_def)
    with Move show ?thesis by (metis w move_rearranged action.distinct)
  next
    case (Remove i)
    with assms t have "d' = with_widgets (filter (\<lambda>w. \<not> has_id i w) (widgets_of d)) d" by (simp add: updated_by_def)
    moreover have "filter (\<lambda>w. \<not> has_id i w) ws = concat (map (\<lambda>w. if has_id i w then [] else [w]) ws)" for ws by (induction ws) auto
    ultimately show ?thesis using Remove w [of "filter (\<lambda>w. \<not> has_id i w) (widgets_of d)"] by simp
  qed (use assms t set_alone_update [of _ _ d] in \<open>auto simp: updated_by_def effect_def\<close>)
qed

definition boards :: "system \<Rightarrow> js \<times> js" where
  "boards s = (sy_shown s, sy_server s)"

interpretation dashboards: simulates "settle env f" "board_change env f" boards "\<lambda>s. sy_sent s = []" for env f
proof
  fix s :: system and e :: "action \<times> bool"
  assume idle: "sy_sent s = []"
  obtain a ok where e: "e = (a, ok)" by (cases e)
  show "sy_sent (settle env f s e) = []"
    using idle by (auto simp: settle_def click_def send_action_def answer_first_def split: option.splits)
  show "board_change env f (boards s) e (boards (settle env f s e))"
  proof (cases "updated_by env f a (sy_shown s)")
    case None
    with idle show ?thesis
      by (simp add: e boards_def settle_def click_def send_action_def answer_first_def flip: updated_None [of env f])
  next
    case (Some d)
    then have "\<not> nothing_to_do a (sy_shown s)" by (simp flip: updated_None [of env f])
    with updated_effect [OF Some] Some idle show ?thesis
      by (cases a; cases ok) (auto simp: e boards_def settle_def click_def send_action_def answer_first_def optimistic_def)
  qed
qed

lemma settle_in_step: "in_step (s :: system) \<Longrightarrow> undone_well e \<Longrightarrow> in_step (settle env f s e)"
  by (auto simp: in_step_def undone_well_def settle_def click_def send_action_def answer_first_def split: option.splits)

lemma run_in_step: "in_step s \<Longrightarrow> list_all undone_well es \<Longrightarrow> in_step (foldl (settle env f) s es)"
  by (induction es arbitrary: s) (simp_all add: settle_in_step)

text \<open>
  C18. Actions of the page answered one by one, each before the next: every action makes of the dashboard the page shows what it
  promises (a widget added at the end, replaced in its place, dropped on another, exchanged with a neighbour, or taken out, and
  nothing else of the dashboard; the defaults set or emptied), the server takes it or refuses it, and a refused action leaves both
  the page and the server as they were, except that a refused order stays on the page. As long as the server refuses no order, the
  page shows what the server has.
\<close>

theorem settled_actions_applied:
  assumes "sy_sent s = []"
  shows "runs_to (board_change env f) (sy_shown s, sy_server s) es
      (sy_shown (foldl (settle env f) s es), sy_server (foldl (settle env f) s es)) \<and>
    (sy_shown s = sy_server s \<and> list_all undone_well es \<longrightarrow>
      sy_shown (foldl (settle env f) s es) = sy_server (foldl (settle env f) s es))"
  using dashboards.run_follows [where env = env and f = f, OF assms, of es] run_in_step [of s es env f] assms
  by (simp add: boards_def in_step_def)

definition three :: js where
  "three = JObj [(''id'', JStr ''d''), (''widgets'', JArr [widget ''a'', widget ''b'', widget ''c''])]"

theorem settled_actions_applied_witness:
  "(\<exists>c. runs_to (board_change quiet_env last_day) (three, three)
     [(Remove ''b'', True), (Move ''c'' True, False), (Reorder ''c'' ''a'', True)] (c, c) \<and>
     widgets_of c = [widget ''c'', widget ''a''])"
proof -
  let ?s = "\<lparr>sy_shown = three, sy_server = three, sy_sent = []\<rparr>"
  let ?es = "[(Remove ''b'', True), (Move ''c'' True, False), (Reorder ''c'' ''a'', True)]"
  have "widgets_of (sy_server (foldl (settle quiet_env last_day) ?s ?es)) = [widget ''c'', widget ''a'']" by code_simp
  moreover have "list_all undone_well ?es" by (simp add: undone_well_def optimistic_def)
  ultimately show ?thesis
    using settled_actions_applied [of ?s quiet_env last_day ?es] by (metis system.select_convs(1,2,3))
qed

text \<open>
  Actions that overlap undo each other: after two widgets are removed in a row, and both removals
  accepted, the first one is back.
\<close>

lemma overlapping_removal_lost:
  assumes "in_step s" and "truthy (sy_server s)" and "i \<noteq> j" and "w \<in> set (widgets_of (sy_server s))" and "has_id i w"
  shows "w \<in> set (widgets_of (sy_server (answer_first True (answer_first True
     (click env f (Remove j) (click env f (Remove i) s))))))"
proof -
  have "\<not> has_id j w" using assms(3,5) by (auto simp: has_id_def)
  then show ?thesis
    using assms by (simp add: in_step_def click_def send_action_def updated_by_def optimistic_def answer_first_def widgets_of_def
        with_widgets_def)
qed

lemma overlapping_removal_lost_witness:
  "widget ''a'' \<in> set (widgets_of (sy_server (answer_first True (answer_first True
     (click quiet_env last_day (Remove ''b'') (click quiet_env last_day (Remove ''a'') \<lparr>sy_shown = three, sy_server = three, sy_sent = []\<rparr>))))))"
  by (rule overlapping_removal_lost) (simp_all add: in_step_def three_def widgets_of_def widget_def has_id_def)

text \<open>
  A move by drag and drop that the server refuses stays on the page, which then shows an order the
  server does not have.
\<close>

lemma refused_reorder_stays:
  assumes "in_step s" and "truthy (sy_server s)" and "reorder src dst (widgets_of (sy_server s)) = Some ws"
  shows "widgets_of (sy_shown (settle env f s (Reorder src dst, False))) = ws \<and>
    sy_server (settle env f s (Reorder src dst, False)) = sy_server s"
  using assms by (simp add: in_step_def settle_def click_def send_action_def updated_by_def optimistic_def answer_first_def
      widgets_of_def with_widgets_def)

lemma refused_reorder_stays_witness:
  "widgets_of (sy_shown (settle quiet_env last_day \<lparr>sy_shown = three, sy_server = three, sy_sent = []\<rparr> (Reorder ''a'' ''c'', False)))
     = [widget ''b'', widget ''c'', widget ''a'']"
proof -
  have "reorder ''a'' ''c'' (widgets_of three) = Some [widget ''b'', widget ''c'', widget ''a'']" by code_simp
  then show ?thesis
    using refused_reorder_stays [of "\<lparr>sy_shown = three, sy_server = three, sy_sent = []\<rparr>" "''a''" "''c''"]
    by (simp add: in_step_def) (simp add: three_def)
qed

section \<open>Loading\<close>

text \<open>
  The filters of a dashboard that has been loaded: those of the address when it has any, otherwise
  the defaults saved in the dashboard, otherwise those the page had; and the timer runs at their period.
\<close>

lemma loaded_filters:
  assumes "truthy d" and "\<not> truthy (jprop d ''error'')" and "\<not> nullish (jprop d ''widgets'')"
  shows "dp_filters (dashboard_loaded env q d (start_page env q)) =
      (if urlHasFilterParams q then queryToFilters env q
       else if entries (jprop d ''defaults'') \<noteq> [] then queryToFilters env (query_strings (jprop d ''defaults''))
       else queryToFilters env q) \<and>
    dp_timer (dashboard_loaded env q d p) = dp_timer (setupAutoRefresh (dashboard_loaded env q d p)) \<and>
    \<not> dp_loading (dashboard_loaded env q d p)"
  using assms by (simp add: dashboard_loaded_def start_page_def setupAutoRefresh_def)

lemma loaded_filters_witness:
  "dp_filters (dashboard_loaded quiet_env [(''route'', ''r'')] three (start_page quiet_env [(''route'', ''r'')]))
     = queryToFilters quiet_env [(''route'', ''r'')]"
  using loaded_filters [of three quiet_env "[(''route'', ''r'')]" "start_page quiet_env []"]
  by (simp add: three_def nullish_def urlHasFilterParams_def FILTER_PARAMS_def query_or_def)

text \<open>The view saved as default is the view a new visit opens with.\<close>

lemma query_strings_query_js: "query_strings (query_js q) = q"
  by (induction q) (auto simp: query_strings_def query_js_def)

text \<open>
  \<open>Save view as default\<close> saves the view: a visit without filters in its address opens the saved
  dashboard with them.
\<close>

lemma saved_view_opens:
  assumes "updated_by env f Save_default d = Some d'" and "\<not> truthy (jprop d' ''error'')" and "\<not> nullish (jprop d' ''widgets'')"
    and "an_number env (an_num env (af_refresh f)) = af_refresh f" and "\<not> urlHasFilterParams q"
  shows "dp_filters (dashboard_loaded env q d' p) =
    f\<lparr>af_from := or_text (af_from f) ''now-1h'', af_to := or_text (af_to f) ''now'', af_interval := None\<rparr>"
proof -
  from assms(1) have d': "d' = JObj (AList.update ''defaults'' (query_js (filtersToQuery env f)) (entries d))"
    by (auto simp: updated_by_def split: if_splits)
  then have defaults: "jprop d' ''defaults'' = query_js (filtersToQuery env f)" by simp
  moreover have "entries (query_js (filtersToQuery env f)) \<noteq> []"
    by (simp add: query_js_def filtersToQuery_def)
  ultimately show ?thesis
    using assms(2,3,5) filters_query_filters [OF assms(4)]
    by (simp add: dashboard_loaded_def setupAutoRefresh_def d' query_strings_query_js)
qed

lemma saved_view_opens_witness:
  "dp_filters (dashboard_loaded quiet_env [] (JObj (AList.update ''defaults'' (query_js (filtersToQuery quiet_env last_day)) (entries three)))
     (start_page quiet_env [])) = last_day\<lparr>af_interval := None\<rparr>"
  using saved_view_opens [of quiet_env last_day three "JObj (AList.update ''defaults'' (query_js (filtersToQuery quiet_env last_day)) (entries three))" "[]"]
  by (simp add: updated_by_def three_def nullish_def urlHasFilterParams_def query_or_def quiet_env_def last_day_def or_text_def)

end
