(* ===== verification/Analytics_Wizard.thy ===== *)
theory Analytics_Wizard
  imports Prelude
begin

text \<open>
  The wizard that edits a widget (\<open>pages/analytics/WidgetWizard.js\<close>) and the editor of the conditions of an
  alert (\<open>AlertConditionsEditor.js\<close>).

  \<^item> \<open>wz_number\<close> is \<open>Number\<close> on the values a number field gives (\<open>None\<close> is \<open>NaN\<close>) and \<open>wz_uid\<close> the
    identifier a new widget gets.
  \<^item> The wizard tells its dialog the widget after each edit; the widget the dialog keeps is the last one.
\<close>

section \<open>The wizard\<close>

record wizard_env =
  wz_number :: "js \<Rightarrow> rat option"
  wz_uid :: string

record wizard =
  wd_schema :: js
  wd_widgetId :: js
  wd_title :: js
  wd_queryId :: js
  wd_type :: js
  wd_width :: js
  wd_height :: js
  wd_format :: js
  wd_decimals :: js
  wd_unit :: js
  wd_currency :: js
  wd_otherOptions :: js
  wd_paramValues :: js

definition FORMATS_WITH_UNIT :: "js list" where
  "FORMATS_WITH_UNIT = [JStr ''count'', JStr ''number'', JStr ''compact'']"

definition SHAPE_TO_TYPES :: "(string \<times> string list) list" where
  "SHAPE_TO_TYPES =
     [(''timeseries'', [''line'', ''area'']), (''topN'', [''bar'', ''pie'', ''donut'', ''table'']), (''pie'', [''pie'', ''donut'', ''bar'']),
      (''scalar'', [''scalar'', ''metric'']), (''metric'', [''metric'', ''scalar'']), (''table'', [''table'']), (''heatmap'', [''heatmap''])]"

definition inferDefaultFormat :: "string \<Rightarrow> string" where
  "inferDefaultFormat q =
     (if q = ''requests_per_second'' then ''rps''
      else if q = ''error_rate_ts'' then ''percent''
      else if q = ''traffic_in_out_ts'' then ''bytes''
      else if includes_str q ''duration'' \<or> includes_str q ''overhead'' then ''ms''
      else if includes_str q ''cost'' \<or> includes_str q ''spend'' then ''currency''
      else if includes_str q ''latency'' then ''ms''
      else if includes_str q ''error_rate'' \<or> includes_str q ''hit_rate'' then ''percent''
      else ''count'')"

definition open_wizard :: "js \<Rightarrow> wizard" where
  "open_wizard initial =
     (let init = js_or initial (JObj []); options = jprop init ''options'' in
      \<lparr>wd_schema = JNull, wd_widgetId = js_or (jprop init ''id'') JNull, wd_title = js_or (jprop init ''title'') (JStr []),
       wd_queryId = js_or (jprop init ''query'') (JStr []), wd_type = js_or (jprop init ''type'') (JStr ''line''),
       wd_width = js_or (jprop init ''width'') (JNum 4), wd_height = js_or (jprop init ''height'') (JNum 2),
       wd_format = js_or (jprop options ''format'') (JStr ''count''),
       wd_decimals = (if truthy options \<and> \<not> nullish (jprop options ''decimals'') then jprop options ''decimals'' else JStr []),
       wd_unit = js_or (jprop options ''unit'') (JStr []), wd_currency = js_or (jprop options ''currency'') (JStr []),
       wd_otherOptions = js_or options (JObj []), wd_paramValues = JObj (entries (js_or (jprop init ''params'') (JObj [])))\<rparr>)"

definition upper_js :: "js \<Rightarrow> js" where
  "upper_js v = (case v of JStr s \<Rightarrow> JStr (map upper_char s) | _ \<Rightarrow> v)"

definition optionsOf :: "wizard_env \<Rightarrow> wizard \<Rightarrow> obj" where
  "optionsOf env s =
     (let format = js_or (wd_format s) (JStr ''count'');
          rest = obj_del ''currency'' (obj_del ''unit'' (obj_del ''decimals''
                   (AList.update ''format'' format (entries (js_or (wd_otherOptions s) (JObj []))))))
      in rest
         @ (if wd_decimals s \<noteq> JStr [] \<and> \<not> nullish (wd_decimals s)
            then (case wz_number env (wd_decimals s) of None \<Rightarrow> [] | Some n \<Rightarrow> [(''decimals'', JNum n)]) else [])
         @ (if truthy (wd_unit s) \<and> format \<in> set FORMATS_WITH_UNIT then [(''unit'', wd_unit s)] else [])
         @ (if truthy (wd_currency s) \<and> format = JStr ''currency'' then [(''currency'', upper_js (wd_currency s))] else []))"

definition bubble :: "wizard_env \<Rightarrow> wizard \<Rightarrow> js" where
  "bubble env s =
     JObj [(''id'', js_or (wd_widgetId s) (JStr (wz_uid env))), (''title'', js_or (wd_title s) (JStr [])),
       (''query'', js_or (wd_queryId s) (JStr [])), (''type'', js_or (wd_type s) (JStr ''line'')),
       (''width'', wd_width s), (''height'', wd_height s),
       (''params'', JObj (entries (js_or (wd_paramValues s) (JObj [])))), (''options'', JObj (optionsOf env s))]"

text \<open>The queries of the catalogue; one without a \<open>queries\<close> array has none.\<close>

definition queries_of :: "wizard \<Rightarrow> js list" where
  "queries_of s = (case jprop (wd_schema s) ''queries'' of JArr qs \<Rightarrow> qs | _ \<Rightarrow> [])"

definition findQuery :: "wizard \<Rightarrow> string \<Rightarrow> js option" where
  "findQuery s i = List.find (\<lambda>q. jprop q ''id'' = JStr i) (queries_of s)"

definition allowed_types :: "js \<Rightarrow> js list" where
  "allowed_types q =
     (case jprop q ''shape'' of
        JStr shape \<Rightarrow> (case map_of SHAPE_TO_TYPES shape of None \<Rightarrow> [JStr ''line''] | Some ts \<Rightarrow> map JStr ts)
      | _ \<Rightarrow> [JStr ''line''])"

definition default_params :: "js \<Rightarrow> obj" where
  "default_params q =
     (case jprop q ''params'' of
        JArr ps \<Rightarrow> foldl (\<lambda>acc p. case jprop p ''name'' of JStr n \<Rightarrow> AList.update n (jprop p ''default'') acc | _ \<Rightarrow> acc) [] ps
      | _ \<Rightarrow> [])"

definition selectQuery :: "string \<Rightarrow> wizard \<Rightarrow> wizard" where
  "selectQuery q s =
     (if JStr q = wd_queryId s then s
      else case findQuery s q of
        None \<Rightarrow> s\<lparr>wd_queryId := JStr q\<rparr>
      | Some d \<Rightarrow>
          s\<lparr>wd_queryId := JStr q,
            wd_type := (if wd_type s \<in> set (allowed_types d) then wd_type s
                        else js_or (jprop d ''default_widget'') (hd (allowed_types d))),
            wd_title := js_or (js_or (wd_title s) (jprop d ''name'')) (JStr []),
            wd_format := JStr (inferDefaultFormat q), wd_paramValues := JObj (default_params d)\<rparr>)"

text \<open>The fields of the form; a number field gives the text typed in it.\<close>

datatype wizard_edit =
    Title string | Query string | Widget_type string | Width nat | Height nat | Format string
  | Decimals string | Unit string | Currency string | Param string js | Schema js

fun edit_wizard :: "wizard_edit \<Rightarrow> wizard \<Rightarrow> wizard" where
  "edit_wizard (Title t) s = s\<lparr>wd_title := JStr t\<rparr>"
| "edit_wizard (Query q) s = selectQuery q s"
| "edit_wizard (Widget_type t) s = s\<lparr>wd_type := JStr (if t = [] then ''line'' else t)\<rparr>"
| "edit_wizard (Width n) s = s\<lparr>wd_width := JNum (of_nat n)\<rparr>"
| "edit_wizard (Height n) s = s\<lparr>wd_height := JNum (of_nat n)\<rparr>"
| "edit_wizard (Format f) s = s\<lparr>wd_format := JStr (if f = [] then ''count'' else f)\<rparr>"
| "edit_wizard (Decimals d) s = s\<lparr>wd_decimals := JStr d\<rparr>"
| "edit_wizard (Unit u) s = s\<lparr>wd_unit := JStr u\<rparr>"
| "edit_wizard (Currency c) s = s\<lparr>wd_currency := JStr c\<rparr>"
| "edit_wizard (Param k v) s = s\<lparr>wd_paramValues := JObj (AList.update k v (entries (wd_paramValues s)))\<rparr>"
| "edit_wizard (Schema v) s = s\<lparr>wd_schema := v\<rparr>"

section \<open>What an edit keeps\<close>

definition EDITED_OPTIONS :: "string list" where
  "EDITED_OPTIONS = [''format'', ''decimals'', ''unit'', ''currency'']"

lemma edit_keeps:
  "wd_otherOptions (edit_wizard e s) = wd_otherOptions s" "wd_widgetId (edit_wizard e s) = wd_widgetId s"
  by (cases e; simp add: selectQuery_def split: option.splits)+

lemma edits_keep:
  "wd_otherOptions (foldl (\<lambda>s e. edit_wizard e s) s es) = wd_otherOptions s \<and>
   wd_widgetId (foldl (\<lambda>s e. edit_wizard e s) s es) = wd_widgetId s"
  by (induction es arbitrary: s) (simp_all add: edit_keeps)

lemma optionsOf_other:
  assumes "k \<notin> set EDITED_OPTIONS"
  shows "obj_get (optionsOf env s) k = obj_get (entries (js_or (wd_otherOptions s) (JObj []))) k"
proof -
  define format where "format = js_or (wd_format s) (JStr ''count'')"
  define added where "added =
    (if wd_decimals s \<noteq> JStr [] \<and> \<not> nullish (wd_decimals s)
     then (case wz_number env (wd_decimals s) of None \<Rightarrow> [] | Some n \<Rightarrow> [(''decimals'', JNum n)]) else [])
    @ (if truthy (wd_unit s) \<and> format \<in> set FORMATS_WITH_UNIT then [(''unit'', wd_unit s)] else [])
    @ (if truthy (wd_currency s) \<and> format = JStr ''currency'' then [(''currency'', upper_js (wd_currency s))] else [])"
  have k: "k \<noteq> ''format''" "k \<noteq> ''decimals''" "k \<noteq> ''unit''" "k \<noteq> ''currency''"
    using assms by (auto simp: EDITED_OPTIONS_def)
  have "obj_has (a @ b) n \<longleftrightarrow> obj_has a n \<or> obj_has b n" for a b :: obj and n
    by (auto simp: obj_has_def)
  with k have "\<not> obj_has added k" unfolding added_def by (simp split: option.split)
  moreover have "optionsOf env s = obj_del ''currency'' (obj_del ''unit'' (obj_del ''decimals''
      (AList.update ''format'' format (entries (js_or (wd_otherOptions s) (JObj [])))))) @ added"
    unfolding optionsOf_def Let_def added_def format_def by simp
  moreover have "obj_get (x @ added) k = obj_get x k" for x
    using calculation(1) by (simp add: obj_get_append obj_get_absent)
  ultimately show ?thesis using k by (simp add: obj_get_obj_del)
qed

text \<open>
  Whatever the user does in the wizard, the options it does not edit survive, and the widget keeps its
  identifier.
\<close>

lemma wizard_keeps_other_options:
  fixes es :: "wizard_edit list"
  assumes "k \<notin> set EDITED_OPTIONS" and "truthy w"
    and "s = foldl (\<lambda>s e. edit_wizard e s) (open_wizard w) es"
  shows "obj_get (optionsOf env s) k = obj_get (entries (js_or (jprop w ''options'') (JObj []))) k \<and>
    (truthy (jprop w ''id'') \<longrightarrow> jprop (bubble env s) ''id'' = jprop w ''id'')"
proof -
  have "wd_otherOptions s = js_or (jprop w ''options'') (JObj [])" "wd_widgetId s = js_or (jprop w ''id'') JNull"
    using assms(2) edits_keep [of "open_wizard w" es] by (simp_all add: assms(3) open_wizard_def js_or_def Let_def)
  with optionsOf_other [OF assms(1), of env s] show ?thesis
    by (simp add: bubble_def js_or_def obj_get_def)
qed

lemma update_present: "map_of xs k = Some v \<Longrightarrow> AList.update k v xs = xs"
  by (induction xs) (auto split: if_splits)

lemma map_of_obj_del: "map_of (obj_del k xs) n = (if n = k then None else map_of xs n)"
  by (induction xs) (auto simp: obj_del_def)

lemma obj_has_del: "obj_has (obj_del k xs) n \<longleftrightarrow> n \<noteq> k \<and> obj_has xs n"
  by (auto simp: obj_has_def obj_del_def)

lemma obj_del_absent: "\<not> obj_has xs k \<Longrightarrow> obj_del k xs = xs"
  by (auto simp: obj_del_def obj_has_def filter_id_conv)

lemma upper_js_idem [simp]: "upper_js (upper_js v) = upper_js v"
  by (cases v) (simp_all add: upper_js_def upper_upper)

lemma truthy_upper [simp]: "truthy (upper_js v) = truthy v"
  by (cases v) (simp_all add: upper_js_def)

text \<open>
  C22. A widget the wizard made is left as it is when the wizard is opened on it and confirmed.
\<close>

theorem wizard_reopens_its_widget:
  assumes "wz_uid env \<noteq> []" and "\<forall>n. wz_number env (JNum n) = Some n"
    and "truthy (wd_width s)" and "truthy (wd_height s)"
  shows "bubble env (open_wizard (bubble env s)) = bubble env s"
proof -
  define format where "format = js_or (wd_format s) (JStr ''count'')"
  define rest where "rest = obj_del ''currency'' (obj_del ''unit'' (obj_del ''decimals''
    (AList.update ''format'' format (entries (js_or (wd_otherOptions s) (JObj []))))))"
  define d where "d = (if wd_decimals s \<noteq> JStr [] \<and> \<not> nullish (wd_decimals s) then wz_number env (wd_decimals s) else None)"
  define u where "u = (if truthy (wd_unit s) \<and> format \<in> set FORMATS_WITH_UNIT then wd_unit s else JStr [])"
  define c where "c = (if truthy (wd_currency s) \<and> format = JStr ''currency'' then upper_js (wd_currency s) else JStr [])"
  define tail where "tail = (case d of None \<Rightarrow> [] | Some n \<Rightarrow> [(''decimals'', JNum n)])
    @ (if truthy u then [(''unit'', u)] else []) @ (if truthy c then [(''currency'', c)] else [])"
  have opts: "optionsOf env s = rest @ tail"
    by (simp add: optionsOf_def Let_def rest_def tail_def d_def u_def c_def format_def split: option.split)
  have fmt: "truthy format" by (simp add: format_def js_or_def)
  have get: "map_of rest ''format'' = Some format" "\<not> obj_has rest ''decimals''" "\<not> obj_has rest ''unit''" "\<not> obj_has rest ''currency''"
    by (simp_all add: rest_def map_of_obj_del update_conv' obj_has_del)
  have u: "truthy u \<or> u = JStr []" "truthy u \<Longrightarrow> format \<in> set FORMATS_WITH_UNIT"
    and c: "truthy c \<or> c = JStr []" "truthy c \<Longrightarrow> format = JStr ''currency''" "upper_js c = c"
    by (simp_all add: u_def c_def split: if_splits) (simp_all add: upper_js_def)
  have tail: "obj_get tail ''decimals'' = (case d of None \<Rightarrow> JUndef | Some n \<Rightarrow> JNum n)"
    "obj_get tail ''unit'' = (if truthy u then u else JUndef)" "obj_get tail ''currency'' = (if truthy c then c else JUndef)"
    by (simp_all add: tail_def obj_get_def split: option.split)
  have has: "obj_has rest ''format''" using get(1) by (metis obj_has_def map_of_eq_None_iff option.distinct(1))
  let ?t = "open_wizard (bubble env s)"
  have opt: "jprop (bubble env s) ''options'' = JObj (rest @ tail)"
    by (simp add: bubble_def opts obj_get_def)
  have "obj_get (rest @ tail) ''format'' = format" "obj_get (rest @ tail) ''decimals'' = obj_get tail ''decimals''"
    "obj_get (rest @ tail) ''unit'' = obj_get tail ''unit''" "obj_get (rest @ tail) ''currency'' = obj_get tail ''currency''"
    using get has by (simp_all add: obj_get_append obj_get_def [of rest])
  note reads = this [unfolded tail]
  have w: "truthy (bubble env s)" by (simp add: bubble_def)
  have t: "wd_otherOptions ?t = JObj (rest @ tail)" "wd_format ?t = format" "wd_unit ?t = u" "wd_currency ?t = c"
    "wd_decimals ?t = (case d of None \<Rightarrow> JStr [] | Some n \<Rightarrow> JNum n)"
    using fmt u(1) c(1) w
    by (simp_all add: open_wizard_def Let_def js_or_def opt reads nullish_def split: option.split) blast+
  have keep: "map_of (rest @ tail) ''format'' = Some format" using get(1) by simp
  have del: "obj_del ''currency'' (obj_del ''unit'' (obj_del ''decimals'' (rest @ tail))) = rest"
  proof -
    have "obj_del ''currency'' (obj_del ''unit'' (obj_del ''decimals'' tail)) = []"
      by (auto simp: tail_def obj_del_def split: option.split)
    moreover have "obj_del k (x @ y) = obj_del k x @ obj_del k y" for k x y by (simp add: obj_del_def)
    ultimately show ?thesis using get(2-4) by (simp add: obj_del_absent)
  qed
  have dec: "(if wd_decimals ?t \<noteq> JStr [] \<and> \<not> nullish (wd_decimals ?t)
      then (case wz_number env (wd_decimals ?t) of None \<Rightarrow> [] | Some n \<Rightarrow> [(''decimals'', JNum n)]) else [])
    = (case d of None \<Rightarrow> [] | Some n \<Rightarrow> [(''decimals'', JNum n)])"
    using assms(2) by (simp add: t nullish_def split: option.split)
  have f: "js_or (wd_format ?t) (JStr ''count'') = format" using fmt by (simp add: t js_or_def)
  have base: "obj_del ''currency'' (obj_del ''unit'' (obj_del ''decimals''
      (AList.update ''format'' format (entries (js_or (wd_otherOptions ?t) (JObj [])))))) = rest"
    using update_present [OF keep] del by (simp add: t js_or_def)
  have "optionsOf env ?t = rest @ tail"
    unfolding optionsOf_def Let_def f base dec using u(2) c(2,3) by (auto simp: t tail_def)
  then show ?thesis
    using assms(1,3,4) by (simp add: bubble_def open_wizard_def Let_def js_or_def opts obj_get_def)
qed


definition counter_env :: wizard_env where
  "counter_env = \<lparr>wz_number = \<lambda>v. (case v of JNum n \<Rightarrow> Some n | _ \<Rightarrow> None), wz_uid = ''widget_1''\<rparr>"

definition stacked_widget :: js where
  "stacked_widget = JObj [(''id'', JStr ''w1''), (''query'', JStr ''calls''), (''options'', JObj [(''stacked'', JBool True), (''format'', JStr ''number''), (''unit'', JStr ''Wh'')])]"

lemma wizard_keeps_other_options_witness:
  "optionsOf counter_env (foldl (\<lambda>s e. edit_wizard e s) (open_wizard stacked_widget) [Format ''currency'', Currency ''eur'', Title ''Cost''])
     = [(''stacked'', JBool True), (''format'', JStr ''currency''), (''currency'', JStr ''EUR'')] \<and>
   obj_get (optionsOf counter_env (foldl (\<lambda>s e. edit_wizard e s) (open_wizard stacked_widget)
     [Format ''currency'', Currency ''eur'', Title ''Cost''])) ''stacked'' = JBool True"
proof -
  have "''stacked'' \<notin> set EDITED_OPTIONS" "truthy stacked_widget"
    by code_simp+
  from wizard_keeps_other_options [OF this refl, of counter_env "[Format ''currency'', Currency ''eur'', Title ''Cost'']"]
  have "obj_get (optionsOf counter_env (foldl (\<lambda>s e. edit_wizard e s) (open_wizard stacked_widget)
      [Format ''currency'', Currency ''eur'', Title ''Cost''])) ''stacked''
      = obj_get (entries (js_or (jprop stacked_widget ''options'') (JObj []))) ''stacked''" by blast
  moreover have "obj_get (entries (js_or (jprop stacked_widget ''options'') (JObj []))) ''stacked'' = JBool True"
    "optionsOf counter_env (foldl (\<lambda>s e. edit_wizard e s) (open_wizard stacked_widget) [Format ''currency'', Currency ''eur'', Title ''Cost''])
     = [(''stacked'', JBool True), (''format'', JStr ''currency''), (''currency'', JStr ''EUR'')]"
    by code_simp+
  ultimately show ?thesis by simp
qed

theorem wizard_reopens_its_widget_witness:
  "bubble counter_env (open_wizard (bubble counter_env (edit_wizard (Unit ''kWh'') (open_wizard stacked_widget))))
     = bubble counter_env (edit_wizard (Unit ''kWh'') (open_wizard stacked_widget))"
  by (rule wizard_reopens_its_widget) (simp_all add: counter_env_def open_wizard_def stacked_widget_def Let_def js_or_def obj_get_def)

section \<open>Conditions of an alert\<close>

definition EMPTY_CONDITION :: obj where
  "EMPTY_CONDITION = [(''query'', JStr ''error_rate_ts''), (''params'', JObj []), (''filters'', JObj []), (''reducer'', JStr ''max''),
     (''operator'', JStr ''>''), (''threshold'', JNum (5 / 100))]"

definition conditions :: "js \<Rightarrow> js list" where
  "conditions v = (case v of JArr cs \<Rightarrow> cs | _ \<Rightarrow> [])"

text \<open>An index the list does not have is not offered by the editor.\<close>

definition updateCondition :: "nat \<Rightarrow> obj \<Rightarrow> js \<Rightarrow> js" where
  "updateCondition i patch v = JArr ((conditions v)[i := JObj (spread (entries (conditions v ! i)) patch)])"

definition blank :: "js \<Rightarrow> bool" where
  "blank v \<longleftrightarrow> v = JStr [] \<or> nullish v"

definition updateFilters :: "nat \<Rightarrow> obj \<Rightarrow> js \<Rightarrow> js" where
  "updateFilters i patch v =
     (let cur = js_or (conditions v ! i) (JObj []);
          cleaned = filter (\<lambda>e. \<not> blank (snd e)) (spread (entries (js_or (jprop cur ''filters'') (JObj []))) patch)
      in JArr ((conditions v)[i := JObj (AList.update ''filters'' (JObj cleaned) (entries cur))]))"

definition add_condition :: "js \<Rightarrow> js" where
  "add_condition v = JArr (conditions v @ [JObj EMPTY_CONDITION])"

definition remove_condition :: "nat \<Rightarrow> js \<Rightarrow> js" where
  "remove_condition i v = JArr (take i (conditions v) @ drop (Suc i) (conditions v))"

text \<open>The JSON mode: \<open>None\<close> is a text that does not parse, which changes nothing.\<close>

definition json_conditions :: "js option \<Rightarrow> js \<Rightarrow> js" where
  "json_conditions parsed v = (case parsed of None \<Rightarrow> v | Some p \<Rightarrow> (case p of JArr cs \<Rightarrow> p | _ \<Rightarrow> JArr []))"

lemma filter_map_of: "distinct (map fst xs) \<Longrightarrow> map_of (filter (\<lambda>e. P (snd e)) xs) k = (case map_of xs k of None \<Rightarrow> None | Some v \<Rightarrow> if P v then Some v else None)"
  by (induction xs) (auto split: option.splits dest: map_of_SomeD simp: image_iff)

text \<open>
  An edit of the filters of a condition sets the filters of the edit, drops those it empties, keeps the
  other filters, the other fields and the other conditions, and leaves no filter without a value.
\<close>

lemma filters_edited_and_cleaned:
  assumes "i < length (conditions v)" and "conditions v ! i = JObj cur" and "keys_ok cur"
    and "obj_get cur ''filters'' = JObj fs" and "keys_ok fs" and "keys_ok patch"
  shows "\<exists>fs'. conditions (updateFilters i patch v) ! i = JObj (AList.update ''filters'' (JObj fs') cur) \<and>
    (\<forall>k. obj_get fs' k = (let w = if obj_has patch k then obj_get patch k else obj_get fs k in if blank w then JUndef else w)) \<and>
    list_all (\<lambda>e. \<not> blank (snd e)) fs' \<and>
    (\<forall>j. j \<noteq> i \<longrightarrow> conditions (updateFilters i patch v) ! j = conditions v ! j)"
proof (intro exI conjI allI impI)
  let ?fs = "filter (\<lambda>e. \<not> blank (snd e)) (spread fs patch)"
  show "conditions (updateFilters i patch v) ! i = JObj (AList.update ''filters'' (JObj ?fs) cur)"
    using assms(1,2,4) by (simp add: updateFilters_def conditions_def Let_def js_or_def)
  have "distinct (map fst (spread fs patch))" using assms(5) keys_ok_spread [of fs patch] by (simp add: keys_ok_def)
  note kept = filter_map_of [OF this, of "\<lambda>v. \<not> blank v"]
  have "blank JUndef" by (simp add: blank_def nullish_def)
  with kept have "obj_get ?fs k = (if blank (obj_get (spread fs patch) k) then JUndef else obj_get (spread fs patch) k)" for k
    by (auto simp: obj_get_def split: option.splits)
  then show "obj_get ?fs k = (let w = if obj_has patch k then obj_get patch k else obj_get fs k in if blank w then JUndef else w)" for k
    using assms(6) by (simp add: obj_get_spread Let_def)
  show "list_all (\<lambda>e. \<not> blank (snd e)) ?fs" by (simp add: list_all_iff)
  show "conditions (updateFilters i patch v) ! j = conditions v ! j" if "j \<noteq> i" for j
    using that by (simp add: updateFilters_def conditions_def Let_def)
qed

definition two_conditions :: js where
  "two_conditions = JArr [JObj EMPTY_CONDITION, JObj [(''query'', JStr ''calls''), (''filters'', JObj [(''route_id'', JStr ''r1''), (''api_id'', JStr ''a1'')])]]"

lemma filters_edited_and_cleaned_witness:
  "updateFilters 1 [(''route_id'', JStr []), (''group_id'', JStr ''g1'')] two_conditions
     = JArr [JObj EMPTY_CONDITION, JObj [(''query'', JStr ''calls''), (''filters'', JObj [(''api_id'', JStr ''a1''), (''group_id'', JStr ''g1'')])]] \<and>
   conditions (updateFilters 1 [(''route_id'', JStr []), (''group_id'', JStr ''g1'')] two_conditions) ! 0 = JObj EMPTY_CONDITION"
proof -
  have "updateFilters 1 [(''route_id'', JStr []), (''group_id'', JStr ''g1'')] two_conditions
     = JArr [JObj EMPTY_CONDITION, JObj [(''query'', JStr ''calls''), (''filters'', JObj [(''api_id'', JStr ''a1''), (''group_id'', JStr ''g1'')])]]"
    by code_simp
  moreover have "conditions (updateFilters 1 [(''route_id'', JStr []), (''group_id'', JStr ''g1'')] two_conditions) ! 0 = conditions two_conditions ! 0"
    using filters_edited_and_cleaned [of 1 two_conditions "[(''query'', JStr ''calls''), (''filters'', JObj [(''route_id'', JStr ''r1''), (''api_id'', JStr ''a1'')])]"
      "[(''route_id'', JStr ''r1''), (''api_id'', JStr ''a1'')]" "[(''route_id'', JStr []), (''group_id'', JStr ''g1'')]"]
    by (auto simp: two_conditions_def conditions_def obj_get_def)
  ultimately show ?thesis by (simp add: two_conditions_def conditions_def)
qed

end
