(* ===== verification/Release.thy ===== *)
theory Release
  imports Prelude
begin

text \<open>
  The release of Otoroshi (\<open>scripts/release/github-action-release.js\<close>): a sequence of steps with a
  journal on disk, which a later run of the script reads to skip what is done.

  \<^item> What a step changes, the files of the repository and everything the commands it runs change, is a
    \<open>site\<close>. The commands are the parameter \<open>re_run\<close>: it gives the site after a command and its exit
    code. \<open>re_head\<close> is \<open>git rev-parse HEAD\<close> and \<open>re_getenv\<close> the environment of the process.
  \<^item> A step is a list of operations, each atomic: the process can be killed between two of them, and
    before the end of the step is written in the journal. A run has a budget of operations, after
    which it is killed.
  \<^item> The journal keeps the name and the state of the entries; their dates are left out.
  \<^item> Versions are made of letters, digits, dots and dashes, so the regular expressions built from one
    match it literally. Paths are absolute, and a script is the list of its lines.
\<close>

section \<open>Texts\<close>

text \<open>
  A global replacement: \<open>m\<close> tells for a position whether there is a match, what replaces it, and how
  many characters after the first one it takes.
\<close>

function rewrite :: "(string \<Rightarrow> (string \<times> nat) option) \<Rightarrow> string \<Rightarrow> string" where
  "rewrite m [] = []"
| "rewrite m (c # s) = (case m (c # s) of None \<Rightarrow> c # rewrite m s | Some (r, n) \<Rightarrow> r @ rewrite m (drop n s))"
  by pat_completeness auto
termination
  by (relation "measure (length \<circ> snd)") auto

definition literal :: "string \<Rightarrow> string \<Rightarrow> string \<Rightarrow> (string \<times> nat) option" where
  "literal p r s = (if startsWith s p then Some (r, length p - 1) else None)"

definition replace_all :: "string \<Rightarrow> string \<Rightarrow> string \<Rightarrow> string" where
  "replace_all p r s = rewrite (literal p r) s"

text \<open>\<open>replace\<close> with a string: the first occurrence.\<close>

fun replace_once :: "string \<Rightarrow> string \<Rightarrow> string \<Rightarrow> string" where
  "replace_once p r [] = (if p = [] then r else [])"
| "replace_once p r (c # s) =
     (if startsWith (c # s) p then r @ drop (length p) (c # s) else c # replace_once p r s)"

definition new_tag :: "string \<Rightarrow> string \<Rightarrow> string \<Rightarrow> (string \<times> nat) option" where
  "new_tag v to s =
     (let blanks = takeWhile is_space (drop 7 s); rest = drop (7 + length blanks) s; after = drop (length v) rest
      in if startsWith s ''newTag:'' \<and> startsWith rest v \<and> (after = [] \<or> is_space (hd after))
         then Some (''newTag:'' @ blanks @ to, 6 + length blanks + length v) else None)"

definition version_label :: "string \<Rightarrow> string \<Rightarrow> string \<Rightarrow> (string \<times> nat) option" where
  "version_label v to s =
     (let blanks = takeWhile is_space (drop 26 s); rest = drop (26 + length blanks) s
      in if startsWith s ''app.kubernetes.io/version:'' \<and> startsWith rest (CHR 0x22 # v @ [CHR 0x22])
         then Some (''app.kubernetes.io/version:'' @ blanks @ [CHR 0x22] @ to @ [CHR 0x22], 27 + length blanks + length v)
         else None)"

definition kustomizeVersion :: "string \<Rightarrow> string \<Rightarrow> string \<Rightarrow> string" where
  "kustomizeVersion from to source =
     rewrite (version_label from to) (rewrite (new_tag from to) (replace_all (''maif/otoroshi:'' @ from) (''maif/otoroshi:'' @ to) source))"

section \<open>The files\<close>

type_synonym replacer = "string \<Rightarrow> string \<Rightarrow> string \<Rightarrow> string"

definition chart_version :: replacer where
  "chart_version from to source =
     replace_once (''version: '' @ from) (''version: '' @ to) (replace_once (''appVersion: '' @ from) (''appVersion: '' @ to) source)"

definition quoted :: "string \<Rightarrow> string" where
  "quoted s = [CHR 0x22] @ s @ [CHR 0x22]"

definition package_version :: replacer where
  "package_version from to = replace_once (quoted ''version'' @ '': '' @ quoted from @ '','') (quoted ''version'' @ '': '' @ quoted to @ '','')"

definition kustomize_file :: "string \<Rightarrow> string \<times> replacer" where
  "kustomize_file f = (''kubernetes/kustomize/'' @ f, kustomizeVersion)"

definition release_files :: "(string \<times> replacer) list" where
  "release_files =
     map kustomize_file
      [''overlays/cluster/deployment.yaml'', ''overlays/cluster/kustomization.yaml'',
       ''overlays/cluster-baremetal/deployment.yaml'', ''overlays/cluster-baremetal/kustomization.yaml'',
       ''overlays/cluster-baremetal-daemonset/deployment.yaml'', ''overlays/cluster-baremetal-daemonset/kustomization.yaml'',
       ''overlays/simple/deployment.yaml'', ''overlays/simple/kustomization.yaml'',
       ''overlays/simple-baremetal/deployment.yaml'', ''overlays/simple-baremetal/kustomization.yaml'',
       ''overlays/simple-baremetal-daemonset/deployment.yaml'', ''overlays/simple-baremetal-daemonset/kustomization.yaml'',
       ''components/single-deployment/deployment.yaml'', ''components/cluster-deployments/deployment.yaml'']
     @ [(''kubernetes/helm/otoroshi/Chart.yaml'', chart_version),
        (''kubernetes/helm/otoroshi/values.yaml'', \<lambda>from to. replace_once (''tag: '' @ from) (''tag: '' @ to)),
        (''docker/build/build.sh'', replace_all),
        (''manual/next/package.json'', package_version),
        (''manual/next/version.js'', replace_all),
        (''manual/next/static/openapi.json'', replace_all),
        (''manual/next/docs/snippets/build.gradle'', replace_all),
        (''manual/next/docs/snippets/build.sbt'', replace_all),
        (''manual/next/docs/snippets/fetch.sh'', replace_all),
        (''otoroshi/app/controllers/SwaggerController.scala'', replace_all),
        (''otoroshi/app/openapi/openapi.scala'', replace_all),
        (''otoroshi/app/env/Env.scala'', replace_all),
        (''otoroshi/build.sbt'', \<lambda>from to. replace_once (''version := '' @ quoted from) (''version := '' @ quoted to)),
        (''readme.md'', replace_all)]"

section \<open>Commands\<close>

datatype command =
    Command string "string list" string
  | Script "string list" string "(string \<times> string) list"

record 'x site =
  st_files :: "string \<Rightarrow> string option"
  st_rest :: 'x

record 'x release_env =
  re_run :: "command \<Rightarrow> 'x site \<Rightarrow> 'x site \<times> nat"
  re_head :: "'x site \<Rightarrow> string"
  re_getenv :: "string \<Rightarrow> string"

record release_args =
  ra_from :: string
  ra_to :: string
  ra_next :: string
  ra_last :: string
  ra_location :: string
  ra_dry :: bool
  ra_preview :: bool

text \<open>An operation: the site after it, and the message of its failure.\<close>

type_synonym 'x operation = "'x site \<Rightarrow> 'x site \<times> string option"

definition runSystemCommand :: "'x release_env \<Rightarrow> string \<Rightarrow> string list \<Rightarrow> string \<Rightarrow> 'x operation" where
  "runSystemCommand env cmd args cwd s = (fst (re_run env (Command cmd args cwd) s), None)"

definition runScript :: "'x release_env \<Rightarrow> string list \<Rightarrow> string \<Rightarrow> (string \<times> string) list \<Rightarrow> 'x operation" where
  "runScript env lines cwd vars s =
     (case re_run env (Script lines cwd vars) s of
        (s', code) \<Rightarrow> (s', if code = 0 then None else Some (''bad return code: '' @ nat_str code)))"

definition in_dir :: "string \<Rightarrow> string \<Rightarrow> string" where
  "in_dir location path = location @ ''/'' @ path"

definition change_file :: "string \<Rightarrow> string \<Rightarrow> string \<Rightarrow> string \<times> replacer \<Rightarrow> 'x operation" where
  "change_file location from to f s =
     (case st_files s (in_dir location (fst f)) of
        None \<Rightarrow> (s, Some ''ENOENT'')
      | Some content \<Rightarrow> (s\<lparr>st_files := (st_files s)(in_dir location (fst f) \<mapsto> snd f from to content)\<rparr>, None))"

definition changeVersion :: "string \<Rightarrow> string \<Rightarrow> string \<Rightarrow> string list \<Rightarrow> 'x operation list" where
  "changeVersion location from to exclude =
     map (change_file location from to) (filter (\<lambda>f. fst f \<notin> set exclude) release_files)"

definition docs_index :: "string \<times> replacer" where
  "docs_index = (''docs/index.html'', replace_once)"

definition git :: "'x release_env \<Rightarrow> release_args \<Rightarrow> string list \<Rightarrow> 'x operation" where
  "git env a args = runSystemCommand env ''git'' args (ra_location a)"

definition git_commit :: "'x release_env \<Rightarrow> release_args \<Rightarrow> string \<Rightarrow> 'x operation" where
  "git_commit env a text = git env a [''commit'', ''-am'', ''[release '' @ ra_to a @ ''] '' @ text]"

definition release_dir :: "release_args \<Rightarrow> string" where
  "release_dir a = in_dir (ra_location a) (''release-'' @ ra_to a)"

section \<open>The steps\<close>

definition change_to_release :: "'x release_env \<Rightarrow> release_args \<Rightarrow> 'x operation list" where
  "change_to_release env a =
     change_file (ra_location a) (ra_last a) (ra_to a) docs_index
     # changeVersion (ra_location a) (ra_from a) (ra_to a) [] @ changeVersion (ra_location a) (ra_last a) (ra_to a) []
     @ [git_commit env a (''Update version to '' @ ra_to a)]"

definition formatCode :: "'x release_env \<Rightarrow> release_args \<Rightarrow> 'x operation list" where
  "formatCode env a =
     [runSystemCommand env ''/bin/sh'' [in_dir (ra_location a) ''scripts/fmt.sh''] (ra_location a),
      git_commit env a ''Format code before release'']"

definition cleanup :: "'x release_env \<Rightarrow> release_args \<Rightarrow> 'x operation list" where
  "cleanup env a =
     [runSystemCommand env ''/bin/sh'' [in_dir (ra_location a) ''scripts/build.sh'', ''clean''] (ra_location a)]"

definition buildOpenApi :: "'x release_env \<Rightarrow> release_args \<Rightarrow> 'x operation list" where
  "buildOpenApi env a =
     [runScript env [''cd '' @ in_dir (ra_location a) ''otoroshi'', ''sbt '' @ quoted ''testOnly tools.GenericOpenApiSpec''] (ra_location a) [],
      runSystemCommand env ''cp'' [in_dir (ra_location a) ''otoroshi/conf/schemas/openapi.json'', in_dir (release_dir a) ''openapi.json''] (ra_location a),
      git env a [''add'', ''--all''],
      git_commit env a ''Update openapi file before release'']"

text \<open>\<open>base\<close> is \<open>docsBaseRef\<close>, the commit at the start of the run.\<close>

definition buildDocumentation :: "'x release_env \<Rightarrow> release_args \<Rightarrow> string \<Rightarrow> 'x operation list" where
  "buildDocumentation env a base =
     [runSystemCommand env ''/bin/sh'' [in_dir (ra_location a) ''scripts/doc.sh'', ''all''] (ra_location a),
      runSystemCommand env ''zip'' [''-r'', in_dir (release_dir a) (''otoroshi-manual-'' @ ra_to a @ ''.zip''),
        in_dir (ra_location a) ''docs/manual'', ''-x'', ''*.DS_Store''] (ra_location a)]
     @ (if ra_preview a
        then [git env a [''checkout'', base, ''--'', ''docs/manual'', ''docs/manual-root''],
              git env a [''clean'', ''-fdq'', ''docs/manual'', ''docs/manual-root'']]
        else [])
     @ [git env a [''add'', ''--all''], git_commit env a ''Update site documentation before release'']"

definition buildUi :: "'x release_env \<Rightarrow> release_args \<Rightarrow> 'x operation list" where
  "buildUi env a =
     [runScript env [''cd '' @ ra_location a, ''sh '' @ in_dir (ra_location a) ''scripts/build.sh ui''] (ra_location a) []]"

definition buildDistribution :: "'x release_env \<Rightarrow> release_args \<Rightarrow> 'x operation list" where
  "buildDistribution env a =
     [runScript env [''cd '' @ ra_location a, ''sh ./scripts/update-extism.sh'', ''cd '' @ in_dir (ra_location a) ''otoroshi'',
        ''sbt '' @ quoted '';dist;assembly;Provided / makeBom''] (ra_location a) []]
     @ map (\<lambda>f. runSystemCommand env ''cp'' [''-v'', in_dir (ra_location a) f, release_dir a] (ra_location a))
         [''otoroshi/target/scala-3.8.4/otoroshi.jar'', ''otoroshi/target/universal/otoroshi-'' @ ra_to a @ ''.zip'',
          ''otoroshi/target/otoroshi-server.cdx.json'']"

definition buildVersion :: "'x release_env \<Rightarrow> release_args \<Rightarrow> string \<Rightarrow> (string \<times> 'x operation list) list" where
  "buildVersion env a base =
     [(''BUILD_VERSION_FORMAT_CODE'', formatCode env a), (''BUILD_VERSION_CLEANUP'', cleanup env a),
      (''BUILD_VERSION_BUILD_OPENAPI'', buildOpenApi env a), (''BUILD_VERSION_BUILD_DOCUMENTATION'', buildDocumentation env a base),
      (''BUILD_VERSION_BUILD_UI'', buildUi env a), (''BUILD_VERSION_BUILD_DISTRIBUTION'', buildDistribution env a)]"

definition githubTag :: "'x release_env \<Rightarrow> release_args \<Rightarrow> 'x operation list" where
  "githubTag env a =
     [git_commit env a (''Prepare the release of Otoroshi version '' @ ra_to a),
      git env a [''tag'', ''-am'', ''Release Otoroshi version '' @ ra_to a, ''v'' @ ra_to a]]"

definition publishMavenCentral :: "'x release_env \<Rightarrow> release_args \<Rightarrow> 'x operation list" where
  "publishMavenCentral env a =
     [runScript env
       [''cd $LOCATION/otoroshi'', ''sbt '' @ quoted ''publishSigned'',
        ''if [ -z '' @ quoted ''$(ls -A target/sonatype-staging/$VERSION 2>/dev/null)'' @ '' ]; then'',
        ''echo '' @ quoted ''ERROR: nothing staged in otoroshi/target/sonatype-staging/$VERSION, check the publishTo setting'',
        ''exit 1'', ''fi'', ''sbt '' @ quoted ''sonatypeBundleRelease'', ''cd $LOCATION'']
       (ra_location a)
       ([(''LOCATION'', ra_location a), (''VERSION'', ra_to a)]
        @ map (\<lambda>v. (v, re_getenv env v)) [''PGP_PASSPHRASE'', ''PGP_SECRET'', ''SONATYPE_PASSWORD'', ''SONATYPE_USERNAME''])]"

definition publishHelmChart :: "'x release_env \<Rightarrow> release_args \<Rightarrow> 'x operation list" where
  "publishHelmChart env a = [runSystemCommand env ''/bin/sh'' [in_dir (ra_location a) ''scripts/helm.sh'', ra_to a] (ra_location a)]"

text \<open>\<open>pushToMaster\<close> catches the failure of its script.\<close>

definition pushToMaster :: "'x release_env \<Rightarrow> release_args \<Rightarrow> 'x operation" where
  "pushToMaster env a s =
     (fst (runScript env [''bash '' @ in_dir (ra_location a) ''scripts/release/git-push-master.sh'' @ '' v'' @ ra_to a] (ra_location a) [] s), None)"

definition publishDockerOtoroshi :: "'x release_env \<Rightarrow> release_args \<Rightarrow> 'x operation list" where
  "publishDockerOtoroshi env a =
     [runSystemCommand env ''cp'' [in_dir (ra_location a) (''otoroshi/target/universal/otoroshi-'' @ ra_to a @ ''.zip''),
        in_dir (ra_location a) ''docker/build/otoroshi-dist.zip''] (ra_location a),
      runSystemCommand env ''cp'' [in_dir (ra_location a) ''otoroshi/target/scala-3.8.4/otoroshi.jar'',
        in_dir (ra_location a) ''docker/build/otoroshi.jar''] (ra_location a),
      runSystemCommand env ''sh'' [in_dir (ra_location a) ''docker/build/build.sh'', ''build-all'', ra_to a] (in_dir (ra_location a) ''docker/build''),
      runSystemCommand env ''sh'' [in_dir (ra_location a) ''tools/sidecar/build.sh'', ''push-all'', ra_to a] (in_dir (ra_location a) ''tools/sidecar'')]"

definition publish_steps :: "'x release_env \<Rightarrow> release_args \<Rightarrow> (string \<times> 'x operation list) list" where
  "publish_steps env a =
     [(''CREATE_GITHUB_TAG'', githubTag env a), (''PUBLISH_LIBRARIES_TO_CENTRAL'', publishMavenCentral env a),
      (''PUBLISH_HELM_CHART'', publishHelmChart env a),
      (''CHANGE_TO_DEV_VERSION'', changeVersion (ra_location a) (ra_to a) (ra_next a) [''readme.md'']),
      (''PUSH_TO_GITHUB'', [git_commit env a (''Update version to '' @ ra_next a), pushToMaster env a]),
      (''PUBLISH_DOCKER_OTOROSHI'', publishDockerOtoroshi env a)]"

definition release_steps :: "'x release_env \<Rightarrow> release_args \<Rightarrow> string \<Rightarrow> (string \<times> 'x operation list) list" where
  "release_steps env a base =
     [(''INSTALL_DEPS'', []), (''CHANGE_TO_RELEASE_VERSION'', change_to_release env a)]
     @ buildVersion env a base @ (if ra_dry a then [] else publish_steps env a)"

section \<open>Runs\<close>

datatype entry = Started | Stopped | Errored string

datatype run_end = Completed | Aborted string | Killed

record 'x release =
  rl_journal :: "(string \<times> entry) list"
  rl_site :: "'x site"

text \<open>The operations of a step: what is left of the budget, how it ended, and the site.\<close>

fun run_operations :: "nat \<Rightarrow> 'x operation list \<Rightarrow> 'x site \<Rightarrow> nat \<times> run_end \<times> 'x site" where
  "run_operations 0 ops s = (0, Killed, s)"
| "run_operations (Suc b) [] s = (b, Completed, s)"
| "run_operations (Suc b) (f # ops) s =
     (case f s of (s', None) \<Rightarrow> run_operations b ops s' | (s', Some e) \<Rightarrow> (b, Aborted e, s'))"

definition last_entry :: "string \<Rightarrow> run_end \<Rightarrow> (string \<times> entry) list" where
  "last_entry name out = (case out of Completed \<Rightarrow> [(name, Stopped)] | Aborted e \<Rightarrow> [(name, Errored e)] | Killed \<Rightarrow> [])"

definition ensureStep :: "(string \<times> entry) list \<Rightarrow> nat \<Rightarrow> string \<times> 'x operation list \<Rightarrow> 'x release \<Rightarrow> nat \<times> run_end \<times> 'x release" where
  "ensureStep steps b st r =
     (if (fst st, Stopped) \<in> set steps then (b, Completed, r)
      else case run_operations b (snd st) (rl_site r) of
             (b', out, s) \<Rightarrow> (b', out, \<lparr>rl_journal = rl_journal r @ [(fst st, Started)] @ last_entry (fst st) out, rl_site = s\<rparr>))"

fun run_steps :: "(string \<times> entry) list \<Rightarrow> nat \<Rightarrow> (string \<times> 'x operation list) list \<Rightarrow> 'x release \<Rightarrow> run_end \<times> 'x release" where
  "run_steps steps b [] r = (Completed, r)"
| "run_steps steps b (st # sts) r =
     (case ensureStep steps b st r of
        (b', Completed, r') \<Rightarrow> run_steps steps b' sts r'
      | (_, out, r') \<Rightarrow> (out, r'))"

text \<open>\<open>steps\<close> is the journal as it is when the script starts.\<close>

definition releaseOtoroshi :: "'x release_env \<Rightarrow> release_args \<Rightarrow> nat \<Rightarrow> 'x release \<Rightarrow> run_end \<times> 'x release" where
  "releaseOtoroshi env a b r =
     run_steps (rl_journal r) b (release_steps env a (re_head env (rl_site r))) r"

text \<open>Runs one after the other, each with its budget, from an empty journal.\<close>

definition resume :: "'x release_env \<Rightarrow> release_args \<Rightarrow> nat list \<Rightarrow> 'x site \<Rightarrow> 'x release" where
  "resume env a bs s = foldl (\<lambda>r b. snd (releaseOtoroshi env a b r)) \<lparr>rl_journal = [], rl_site = s\<rparr> bs"

end
