(* ===== verification/Release_Facts.thy ===== *)
theory Release_Facts
  imports Release
begin

text \<open>
  What the release guarantees: the order of its steps whatever interrupts it, the site it ends with,
  the exit codes it looks at, and what a change of version does to a text.
\<close>

section \<open>The steps\<close>

definition step_names :: "bool \<Rightarrow> string list" where
  "step_names dry =
     [''INSTALL_DEPS'', ''CHANGE_TO_RELEASE_VERSION'', ''BUILD_VERSION_FORMAT_CODE'', ''BUILD_VERSION_CLEANUP'',
      ''BUILD_VERSION_BUILD_OPENAPI'', ''BUILD_VERSION_BUILD_DOCUMENTATION'', ''BUILD_VERSION_BUILD_UI'',
      ''BUILD_VERSION_BUILD_DISTRIBUTION'']
     @ (if dry then [] else [''CREATE_GITHUB_TAG'', ''PUBLISH_LIBRARIES_TO_CENTRAL'', ''PUBLISH_HELM_CHART'',
      ''CHANGE_TO_DEV_VERSION'', ''PUSH_TO_GITHUB'', ''PUBLISH_DOCKER_OTOROSHI''])"

lemma names_of_steps [simp]: "map fst (release_steps env a base) = step_names (ra_dry a)"
  by (cases "ra_dry a") (simp_all add: release_steps_def buildVersion_def publish_steps_def step_names_def)

lemma distinct_step_names [simp]: "distinct (step_names dry)"
  by (cases dry) (simp_all add: step_names_def)

lemma steps_same_base: "\<not> ra_preview a \<Longrightarrow> release_steps env a base = release_steps env a base'"
  by (simp add: release_steps_def buildVersion_def buildDocumentation_def)

section \<open>Operations\<close>

text \<open>What operations do when nothing stops them, and what steps do.\<close>

definition apply_all :: "'x operation list \<Rightarrow> 'x site \<Rightarrow> 'x site" where
  "apply_all ops s = foldl (\<lambda>s f. fst (f s)) s ops"

definition perform :: "(string \<times> 'x operation list) list \<Rightarrow> 'x site \<Rightarrow> 'x site" where
  "perform sts s = foldl (\<lambda>s st. apply_all (snd st) s) s sts"

lemma apply_all_simps [simp]: "apply_all [] s = s" "apply_all (f # ops) s = apply_all ops (fst (f s))"
  by (simp_all add: apply_all_def)

lemma perform_simps [simp]: "perform [] s = s" "perform (st # sts) s = perform sts (apply_all (snd st) s)"
  by (simp_all add: perform_def)

lemma perform_snoc: "perform (sts @ [st]) s = apply_all (snd st) (perform sts s)"
  by (simp add: perform_def)

lemma run_operations_prefix:
  "run_operations b ops s = (b', out, s') \<Longrightarrow>
     (if out = Completed then s' = apply_all ops s else \<exists>k. s' = apply_all (take k ops) s)"
proof (induction b ops s rule: run_operations.induct)
  case (1 ops s)
  then show ?case by (auto intro: exI [of _ 0])
next
  case (3 b f ops s)
  show ?case
  proof (cases "f s")
    case (Pair s1 e)
    show ?thesis
    proof (cases e)
      case None
      with Pair "3.prems" have run: "run_operations b ops s1 = (b', out, s')" by simp
      from "3.IH" [OF Pair [symmetric] None run] Pair show ?thesis
        by (auto split: if_splits intro: exI [of _ "Suc k" for k])
    next
      case (Some m)
      with Pair "3.prems" have "out = Aborted m" "s' = s1" by simp_all
      with Pair show ?thesis by (auto intro!: exI [of _ 1])
    qed
  qed
qed auto

lemma run_operations_budget:
  "\<forall>f \<in> set ops. \<forall>s. P s \<longrightarrow> snd (f s) = None \<and> P (fst (f s)) \<Longrightarrow> P s \<Longrightarrow>
     run_operations (Suc (length ops) + b) ops s = (b, Completed, apply_all ops s) \<and> P (apply_all ops s)"
proof (induction ops arbitrary: s)
  case (Cons f ops)
  from Cons.prems obtain s1 where s1: "f s = (s1, None)" "P s1" by (cases "f s") force
  with Cons.IH [of s1] Cons.prems(1) show ?case by simp
qed simp

section \<open>The journal\<close>

definition stops :: "(string \<times> entry) list \<Rightarrow> string list" where
  "stops l = map fst (filter (\<lambda>e. snd e = Stopped) l)"

text \<open>No entry about a step follows the end of the step.\<close>

definition final :: "(string \<times> entry) list \<Rightarrow> bool" where
  "final l \<longleftrightarrow> (\<forall>pre st post. l = pre @ (st, Stopped) # post \<longrightarrow> st \<notin> fst ` set post)"

lemma stops_simps [simp]:
  "stops [] = []" "stops (l @ l') = stops l @ stops l'"
  "stops ((n, Started) # l) = stops l" "stops ((n, Stopped) # l) = n # stops l" "stops ((n, Errored e) # l) = stops l"
  by (simp_all add: stops_def)

lemma in_stops: "(n, Stopped) \<in> set l \<longleftrightarrow> n \<in> set (stops l)"
  by (force simp: stops_def)

lemma final_snoc: "final l \<Longrightarrow> n \<notin> set (stops l) \<Longrightarrow> final (l @ [(n, e)])"
  unfolding final_def
proof (intro allI impI)
  fix pre st post
  assume f: "\<forall>pre st post. l = pre @ (st, Stopped) # post \<longrightarrow> st \<notin> fst ` set post"
    and n: "n \<notin> set (stops l)" and l: "l @ [(n, e)] = pre @ (st, Stopped) # post"
  show "st \<notin> fst ` set post"
  proof (cases post rule: rev_cases)
    case (snoc post' y)
    with l have l': "l = pre @ (st, Stopped) # post'" "y = (n, e)"
      by (simp_all flip: append_Cons append_assoc)
    with f n have "st \<notin> fst ` set post'" "st \<noteq> n" by auto
    with snoc l'(2) show ?thesis by simp
  qed simp
qed

lemma stops_last_entry [simp]: "stops (last_entry n out) = (if out = Completed then [n] else [])"
  by (cases out) (simp_all add: last_entry_def)

lemma final_step:
  assumes "final l" and "n \<notin> set (stops l)"
  shows "final (l @ (n, Started) # last_entry n out)"
proof -
  have "final (l @ [(n, Started)])" using assms by (rule final_snoc)
  moreover have "n \<notin> set (stops (l @ [(n, Started)]))" using assms(2) by simp
  ultimately have "final ((l @ [(n, Started)]) @ [(n, e)])" for e by (rule final_snoc)
  with \<open>final (l @ [(n, Started)])\<close> show ?thesis by (cases out) (simp_all add: last_entry_def)
qed

section \<open>A run\<close>

text \<open>
  The shape of every run over steps that are not done: it completes the first ones, in order, and
  leaves at most one in the middle.
\<close>

lemma run_steps_shape:
  assumes "run_steps old b sts r = (out, r')" and "set (stops old) \<inter> fst ` set sts = {}"
    and "set (stops (rl_journal r)) \<inter> fst ` set sts = {}" and "distinct (map fst sts)" and "final (rl_journal r)"
  shows "\<exists>k \<le> length sts. stops (rl_journal r') = stops (rl_journal r) @ map fst (take k sts) \<and> final (rl_journal r') \<and>
    (out = Completed \<longrightarrow> k = length sts) \<and>
    (if k < length sts then \<exists>j. rl_site r' = apply_all (take j (snd (sts ! k))) (perform (take k sts) (rl_site r))
     else rl_site r' = perform sts (rl_site r))"
  using assms
proof (induction sts arbitrary: b r)
  case Nil
  then show ?case by auto
next
  case (Cons st sts)
  obtain b1 out1 s1 where ops: "run_operations b (snd st) (rl_site r) = (b1, out1, s1)"
    by (cases "run_operations b (snd st) (rl_site r)") auto
  define r1 where "r1 = \<lparr>rl_journal = rl_journal r @ [(fst st, Started)] @ last_entry (fst st) out1, rl_site = s1\<rparr>"
  have skip: "(fst st, Stopped) \<notin> set old" using Cons.prems(2) by (auto simp: in_stops)
  have step: "ensureStep old b st r = (b1, out1, r1)"
    using ops skip by (simp add: ensureStep_def r1_def)
  have fin: "final (rl_journal r1)"
    using final_step [OF Cons.prems(5), of "fst st" out1] Cons.prems(3) by (simp add: r1_def)
  note pre = run_operations_prefix [OF ops]
  show ?case
  proof (cases "out1 = Completed")
    case True
    then have run: "run_steps old b1 sts r1 = (out, r')" using Cons.prems(1) step by simp
    have st: "stops (rl_journal r1) = stops (rl_journal r) @ [fst st]" "rl_site r1 = apply_all (snd st) (rl_site r)"
      using True pre by (simp_all add: r1_def)
    have "\<exists>k \<le> length sts. stops (rl_journal r') = stops (rl_journal r1) @ map fst (take k sts) \<and> final (rl_journal r') \<and>
      (out = Completed \<longrightarrow> k = length sts) \<and>
      (if k < length sts then \<exists>j. rl_site r' = apply_all (take j (snd (sts ! k))) (perform (take k sts) (rl_site r1))
       else rl_site r' = perform sts (rl_site r1))"
      using Cons.prems by (intro Cons.IH [OF run _ _ _ fin]) (auto simp: st)
    then obtain k where "k \<le> length sts" "stops (rl_journal r') = stops (rl_journal r1) @ map fst (take k sts)"
      "final (rl_journal r')" "out = Completed \<longrightarrow> k = length sts"
      "if k < length sts then \<exists>j. rl_site r' = apply_all (take j (snd (sts ! k))) (perform (take k sts) (rl_site r1))
       else rl_site r' = perform sts (rl_site r1)"
      by blast
    then show ?thesis by (intro exI [of _ "Suc k"]) (simp add: st cong: if_cong)
  next
    case False
    then have r': "r' = r1" "out = out1" using Cons.prems(1) step by (auto split: run_end.splits)
    from False pre obtain j where "s1 = apply_all (take j (snd st)) (rl_site r)" by auto
    with False fin show ?thesis by (intro exI [of _ 0]) (auto simp: r' r1_def)
  qed
qed

lemma run_steps_skip:
  "map fst pre = stops old \<Longrightarrow> run_steps old b (pre @ sts) r = run_steps old b sts r"
proof -
  assume "map fst pre = stops old"
  then have "\<forall>st \<in> set pre. (fst st, Stopped) \<in> set old"
    by (metis in_stops image_eqI list.set_map)
  then show ?thesis by (induction pre) (auto simp: ensureStep_def)
qed

text \<open>
  The state of a release between two runs: the steps done are the first ones.
\<close>

definition in_order :: "bool \<Rightarrow> 'x release \<Rightarrow> bool" where
  "in_order dry r \<longleftrightarrow> prefix (stops (rl_journal r)) (step_names dry) \<and> final (rl_journal r)"

lemma release_shape:
  assumes "in_order (ra_dry a) r" and "releaseOtoroshi env a b r = (out, r')"
  defines "sts \<equiv> release_steps env a (re_head env (rl_site r))"
  shows "\<exists>k. length (stops (rl_journal r)) \<le> k \<and> k \<le> length sts \<and> stops (rl_journal r') = map fst (take k sts) \<and>
    final (rl_journal r') \<and> (out = Completed \<longrightarrow> k = length sts) \<and>
    (let mid = perform (drop (length (stops (rl_journal r))) (take k sts)) (rl_site r)
     in if k < length sts then \<exists>j. rl_site r' = apply_all (take j (snd (sts ! k))) mid else rl_site r' = mid)"
proof -
  let ?n = "length (stops (rl_journal r))"
  have names: "map fst sts = step_names (ra_dry a)" by (simp add: sts_def)
  with assms(1) have past: "map fst (take ?n sts) = stops (rl_journal r)" and n: "?n \<le> length sts"
    by (auto simp: in_order_def prefix_def take_map [symmetric] simp flip: length_map [of fst sts])
  have run: "run_steps (rl_journal r) b (drop ?n sts) r = (out, r')"
    using assms(2) run_steps_skip [OF past, of b "drop ?n sts" r] by (simp add: releaseOtoroshi_def sts_def)
  have dist: "distinct (map fst (take ?n sts) @ map fst (drop ?n sts))"
    by (simp only: map_append [symmetric] append_take_drop_id names distinct_step_names)
  then have "set (stops (rl_journal r)) \<inter> fst ` set (drop ?n sts) = {}" "distinct (map fst (drop ?n sts))"
    by (simp_all only: past distinct_append set_map)
  with run_steps_shape [OF run] assms(1) obtain k where k: "k \<le> length (drop ?n sts)"
    "stops (rl_journal r') = stops (rl_journal r) @ map fst (take k (drop ?n sts))" "final (rl_journal r')"
    "out = Completed \<longrightarrow> k = length (drop ?n sts)"
    "if k < length (drop ?n sts) then \<exists>j. rl_site r' = apply_all (take j (snd (drop ?n sts ! k))) (perform (take k (drop ?n sts)) (rl_site r))
     else rl_site r' = perform (drop ?n sts) (rl_site r)"
    by (auto simp: in_order_def)
  have "stops (rl_journal r') = map fst (take (?n + k) sts)"
    using k(2) past by (simp add: take_add)
  moreover have "drop ?n (take (?n + k) sts) = take k (drop ?n sts)" by (simp add: drop_take)
  ultimately show ?thesis using k n
    by (intro exI [of _ "?n + k"]) (auto simp: Let_def nth_drop less_diff_conv add.commute split: if_splits)
qed

lemma release_in_order:
  assumes "in_order (ra_dry a) r"
  shows "in_order (ra_dry a) (snd (releaseOtoroshi env a b r))"
proof -
  obtain out r' where run: "releaseOtoroshi env a b r = (out, r')" by fastforce
  from release_shape [OF assms run] obtain k where "final (rl_journal r')"
    "stops (rl_journal r') = map fst (take k (release_steps env a (re_head env (rl_site r))))"
    by blast
  then show ?thesis
    by (simp add: run in_order_def take_map [symmetric] take_is_prefix)
qed

interpretation releases: machine "\<lambda>r b. snd (releaseOtoroshi env a b r)" "in_order (ra_dry a)" for env a
  by unfold_locales (rule release_in_order)

lemma steps_in_order: "in_order (ra_dry a) (resume env a bs s)"
  using releases.run_inv [of a "\<lparr>rl_journal = [], rl_site = s\<rparr>" env bs]
  by (simp add: resume_def in_order_def final_def)

text \<open>
  C17. However often a release is killed or fails and is started again, its journal says that the first
  steps are done, in the order of the script and each once, and no step is started again once it is done.
\<close>

theorem steps_done_once_in_order:
  "prefix (stops (rl_journal (resume env a bs s))) (step_names (ra_dry a)) \<and> final (rl_journal (resume env a bs s))"
  using steps_in_order [of a env bs s] by (simp add: in_order_def)

section \<open>The site\<close>

text \<open>
  A step can be restarted on the sites of \<open>P\<close> when doing a part of it first changes nothing to what
  it does.
\<close>

definition restartable :: "('x site \<Rightarrow> bool) \<Rightarrow> 'x operation list \<Rightarrow> bool" where
  "restartable P ops \<longleftrightarrow> (\<forall>s k. P s \<longrightarrow> apply_all ops (apply_all (take k ops) s) = apply_all ops s)"

definition keeps_site :: "('x site \<Rightarrow> bool) \<Rightarrow> 'x operation list \<Rightarrow> bool" where
  "keeps_site P ops \<longleftrightarrow> (\<forall>f \<in> set ops. \<forall>s. P s \<longrightarrow> P (fst (f s)))"

lemma keeps_apply: "keeps_site P ops \<Longrightarrow> P s \<Longrightarrow> P (apply_all (take k ops) s)"
proof (induction ops arbitrary: s k)
  case (Cons f ops)
  then show ?case by (cases k) (auto simp: keeps_site_def)
qed simp

lemma keeps_apply_all: "keeps_site P ops \<Longrightarrow> P s \<Longrightarrow> P (apply_all ops s)"
  using keeps_apply [of P ops s "length ops"] by simp

lemma keeps_perform: "\<forall>st \<in> set sts. keeps_site P (snd st) \<Longrightarrow> P s \<Longrightarrow> P (perform sts s)"
  by (induction sts arbitrary: s) (auto simp: keeps_apply_all)

text \<open>The site in the middle of a release: the next step would end as if it had never been started.\<close>

definition on_track :: "(string \<times> 'x operation list) list \<Rightarrow> ('x site \<Rightarrow> bool) \<Rightarrow> 'x site \<Rightarrow> 'x release \<Rightarrow> bool" where
  "on_track sts P s0 r \<longleftrightarrow>
     (let n = length (stops (rl_journal r)) in
      P (rl_site r) \<and> perform (drop n sts) (rl_site r) = perform sts s0 \<and>
      (n < length sts \<longrightarrow> apply_all (snd (sts ! n)) (rl_site r) = apply_all (snd (sts ! n)) (perform (take n sts) s0)) \<and>
      (n \<ge> length sts \<longrightarrow> rl_site r = perform sts s0))"

lemma perform_append [simp]: "perform (xs @ ys) s = perform ys (perform xs s)"
  by (simp add: perform_def)

lemma on_track_run:
  assumes "\<forall>st \<in> set sts. restartable P (snd st) \<and> keeps_site P (snd st)" and "P s0"
    and sts: "sts = release_steps env a (re_head env (rl_site r))"
    and "in_order (ra_dry a) r" and "on_track sts P s0 r" and run: "releaseOtoroshi env a b r = (out, r')"
  shows "on_track sts P s0 r' \<and> (out = Completed \<longrightarrow> rl_site r' = perform sts s0)"
proof -
  define n where "n = length (stops (rl_journal r))"
  define mid where "mid k = perform (drop n (take k sts)) (rl_site r)" for k
  from release_shape [OF assms(4) run, folded sts n_def, unfolded Let_def, folded mid_def] obtain k where k: "n \<le> k" "k \<le> length sts"
    "stops (rl_journal r') = map fst (take k sts)" "out = Completed \<longrightarrow> k = length sts"
    and site: "if k < length sts then \<exists>j. rl_site r' = apply_all (take j (snd (sts ! k))) (mid k) else rl_site r' = mid k"
    by blast
  have len: "length (stops (rl_journal r')) = k" using k(2,3) by simp
  have track: "P (rl_site r)" "n < length sts \<Longrightarrow> apply_all (snd (sts ! n)) (rl_site r) = apply_all (snd (sts ! n)) (perform (take n sts) s0)"
    "n \<ge> length sts \<Longrightarrow> rl_site r = perform sts s0"
    using assms(5) by (auto simp: on_track_def n_def Let_def)
  have sub: "set (drop n (take k sts)) \<subseteq> set sts" by (metis order_trans set_drop_subset set_take_subset)
  have "\<forall>st \<in> set (drop n (take k sts)). keeps_site P (snd st)" using assms(1) sub by blast
  then have Pmid: "P (mid k)" unfolding mid_def using track(1) by (rule keeps_perform)
  have mid: "mid k = perform (take k sts) s0" if "n < k"
  proof -
    define more where "more = drop (Suc n) (take k sts)"
    from that k(2) have n: "n < length sts" by simp
    have later: "drop n (take k sts) = sts ! n # more"
      using Cons_nth_drop_Suc [of n "take k sts"] that n k(2) by (simp add: more_def)
    have "take k sts = take n sts @ drop n (take k sts)"
      using append_take_drop_id [of n "take k sts"] that by (simp add: min_absorb1)
    then have "perform (take k sts) s0 = perform (sts ! n # more) (perform (take n sts) s0)"
      unfolding later using perform_append by metis
    also have "\<dots> = perform more (apply_all (snd (sts ! n)) (rl_site r))"
      using track(2) [OF n] by simp
    also have "\<dots> = mid k" by (simp add: mid_def later)
    finally show ?thesis by simp
  qed
  have mid_n: "mid n = rl_site r" by (simp add: mid_def)
  show ?thesis
  proof (cases "k < length sts")
    case True
    then obtain j where j: "rl_site r' = apply_all (take j (snd (sts ! k))) (mid k)" using site by auto
    have "sts ! k \<in> set sts" using True by simp
    with assms(1) have ok: "restartable P (snd (sts ! k))" "keeps_site P (snd (sts ! k))" by auto
    have nxt: "apply_all (snd (sts ! k)) (rl_site r') = apply_all (snd (sts ! k)) (perform (take k sts) s0)"
    proof (cases "n < k")
      case True
      with mid ok(1) Pmid j show ?thesis by (simp add: restartable_def)
    next
      case False
      with k(1) have "k = n" by simp
      with ok(1) Pmid j track(2) \<open>k < length sts\<close> mid_n show ?thesis by (simp add: restartable_def)
    qed
    have "drop k sts = sts ! k # drop (Suc k) sts" using True by (simp add: Cons_nth_drop_Suc)
    moreover have "sts = take k sts @ sts ! k # drop (Suc k) sts" using True by (simp add: id_take_nth_drop)
    ultimately have "perform (drop k sts) (rl_site r') = perform sts s0"
      using nxt by (metis perform_append perform_simps(2))
    with nxt True Pmid ok(2) k(4) j show ?thesis
      by (simp add: on_track_def len Let_def keeps_apply)
  next
    case False
    then have "k = length sts" "rl_site r' = mid k" using k(2) site by auto
    moreover have "mid k = perform sts s0" if "k = length sts"
      using that mid mid_n track(3) k(1) by (cases "n < k") auto
    ultimately show ?thesis using Pmid by (simp add: on_track_def len Let_def)
  qed
qed

text \<open>
  C9. When its steps can be restarted, a release (not a preview) that was killed or failed, however often, and then completes, ends
  with the site that a release without any interruption ends with.
\<close>

theorem resumed_release_same:
  assumes "\<forall>st \<in> set (release_steps env a base). restartable P (snd st) \<and> keeps_site P (snd st)"
    and "P s" and "\<not> ra_preview a"
    and "releaseOtoroshi env a b (resume env a bs s) = (Completed, r)"
    and "releaseOtoroshi env a b' (resume env a [] s) = (Completed, r')"
  shows "rl_site r = rl_site r'"
proof -
  define sts where "sts = release_steps env a base"
  have sts: "sts = release_steps env a base'" for base'
    unfolding sts_def using assms(3) by (rule steps_same_base)
  have ok: "\<forall>st \<in> set sts. restartable P (snd st) \<and> keeps_site P (snd st)" using assms(1) by (simp add: sts_def)
  let ?start = "\<lparr>rl_journal = [], rl_site = s\<rparr>"
  have start: "in_order (ra_dry a) ?start" "on_track sts P s ?start"
    using assms(2) by (auto simp: in_order_def final_def on_track_def Let_def)
  have "in_order (ra_dry a) (resume env a bs s) \<and> on_track sts P s (resume env a bs s)" for bs
    unfolding resume_def
  proof (induction bs rule: rev_induct)
    case (snoc b bs)
    let ?r = "foldl (\<lambda>r b. snd (releaseOtoroshi env a b r)) ?start bs"
    obtain out r1 where "releaseOtoroshi env a b ?r = (out, r1)" by fastforce
    with on_track_run [OF ok assms(2) sts _ _ this] release_in_order [of a ?r env b] snoc show ?case by simp
  qed (use start in simp)
  with on_track_run [OF ok assms(2) sts] assms(4,5) show ?thesis by metis
qed

section \<open>The end\<close>

lemma run_operations_keeps:
  "keeps_site P ops \<Longrightarrow> P s \<Longrightarrow> run_operations b ops s = (b', out, s') \<Longrightarrow> P s'"
  using run_operations_prefix [of b ops s b' out s'] keeps_apply [of P ops s] keeps_apply_all [of P ops s]
  by (auto split: if_splits)

lemma ensureStep_keeps:
  "keeps_site P (snd st) \<Longrightarrow> P (rl_site r) \<Longrightarrow> ensureStep old b st r = (b', out, r') \<Longrightarrow> P (rl_site r')"
  by (auto simp: ensureStep_def dest: run_operations_keeps split: if_splits prod.splits)

lemma run_steps_keeps:
  "\<forall>st \<in> set sts. keeps_site P (snd st) \<Longrightarrow> P (rl_site r) \<Longrightarrow> P (rl_site (snd (run_steps old b sts r)))"
proof (induction sts arbitrary: b r)
  case (Cons st sts)
  obtain b1 out1 r1 where step: "ensureStep old b st r = (b1, out1, r1)" by (cases "ensureStep old b st r") auto
  with ensureStep_keeps Cons.prems have "P (rl_site r1)" by fastforce
  with Cons step show ?case by (cases out1) simp_all
qed simp

lemma resume_keeps:
  assumes "\<forall>base. \<forall>st \<in> set (release_steps env a base). keeps_site P (snd st)" and "P s"
  shows "P (rl_site (resume env a bs s))"
  unfolding resume_def
proof (induction bs rule: rev_induct)
  case (snoc b bs)
  with assms(1) show ?case by (auto simp: releaseOtoroshi_def intro: run_steps_keeps)
qed (use assms(2) in simp)

text \<open>Steps none of whose operations fails on the sites of \<open>P\<close>.\<close>

definition never_fails :: "('x site \<Rightarrow> bool) \<Rightarrow> 'x operation list \<Rightarrow> bool" where
  "never_fails P ops \<longleftrightarrow> (\<forall>f \<in> set ops. \<forall>s. P s \<longrightarrow> snd (f s) = None \<and> P (fst (f s)))"

lemma never_fails_keeps: "never_fails P ops \<Longrightarrow> keeps_site P ops"
  by (auto simp: never_fails_def keeps_site_def)

definition cost :: "(string \<times> 'x operation list) list \<Rightarrow> nat" where
  "cost sts = sum_list (map (\<lambda>st. length (snd st) + 1) sts)"

lemma run_steps_completes:
  "\<forall>st \<in> set sts. never_fails P (snd st) \<Longrightarrow> P (rl_site r) \<Longrightarrow> cost sts \<le> b \<Longrightarrow> fst (run_steps old b sts r) = Completed"
proof (induction sts arbitrary: b r)
  case (Cons st sts)
  have b: "cost sts \<le> b" "Suc (length (snd st)) + (b - Suc (length (snd st))) = b" "cost sts \<le> b - Suc (length (snd st))"
    using Cons.prems(3) by (simp_all add: cost_def)
  from run_operations_budget [of "snd st" P "rl_site r" "b - Suc (length (snd st))"] Cons.prems(1,2) b(2)
  have "run_operations b (snd st) (rl_site r) = (b - Suc (length (snd st)), Completed, apply_all (snd st) (rl_site r))"
    and "P (apply_all (snd st) (rl_site r))"
    by (simp_all add: never_fails_def)
  with Cons.IH Cons.prems b show ?case by (auto simp: ensureStep_def)
qed simp

text \<open>
  C29. When no operation fails, a release that was interrupted any number of times finishes as soon as it
  is given the time, and all its steps are then done.
\<close>

theorem release_finishes:
  assumes "\<forall>base. \<forall>st \<in> set (release_steps env a base). never_fails P (snd st)" and "P s"
    and "\<forall>base. cost (release_steps env a base) \<le> b"
  shows "\<exists>r. releaseOtoroshi env a b (resume env a bs s) = (Completed, r) \<and> stops (rl_journal r) = step_names (ra_dry a)"
proof -
  obtain out r where run: "releaseOtoroshi env a b (resume env a bs s) = (out, r)" by fastforce
  have "\<forall>base. \<forall>st \<in> set (release_steps env a base). keeps_site P (snd st)"
    using assms(1) never_fails_keeps by blast
  then have "P (rl_site (resume env a bs s))" using assms(2) by (rule resume_keeps)
  from run_steps_completes [OF assms(1) [rule_format, THEN ballI] this assms(3) [rule_format]]
  have "fst (releaseOtoroshi env a b (resume env a bs s)) = Completed"
    unfolding releaseOtoroshi_def .
  with run have out: "out = Completed" by simp
  have "in_order (ra_dry a) (resume env a bs s)"
    using steps_in_order [of a env bs s] .
  from release_shape [OF this run] out show ?thesis
    by (auto simp: run)
qed

section \<open>Exit codes\<close>

text \<open>
  The exit codes of the commands of \<open>runSystemCommand\<close> (\<open>git\<close>, \<open>cp\<close>, \<open>zip\<close>, the scripts that publish
  the images and the chart) are never looked at: whatever they are, the release goes on the same way and
  writes the same journal.
\<close>

lemma exit_codes_ignored:
  assumes "\<forall>c s. fst (re_run env' c s) = fst (re_run env c s)"
    and "\<forall>ls d vs s. snd (re_run env' (Script ls d vs) s) = snd (re_run env (Script ls d vs) s)"
    and "re_head env' = re_head env" and "re_getenv env' = re_getenv env"
  shows "releaseOtoroshi env' a b r = releaseOtoroshi env a b r"
proof -
  have "runSystemCommand env' = runSystemCommand env"
    using assms(1) by (simp add: fun_eq_iff runSystemCommand_def)
  moreover have "runScript env' = runScript env"
    using assms(1,2) by (simp add: fun_eq_iff runScript_def case_prod_beta)
  ultimately have "release_steps env' a base = release_steps env a base" for base
    using assms(4) by (simp add: release_steps_def buildVersion_def publish_steps_def change_to_release_def git_commit_def git_def
        formatCode_def cleanup_def buildOpenApi_def buildDocumentation_def buildUi_def buildDistribution_def githubTag_def
        publishMavenCentral_def publishHelmChart_def publishDockerOtoroshi_def pushToMaster_def [abs_def])
  with assms(3) show ?thesis by (simp add: releaseOtoroshi_def)
qed

section \<open>A release\<close>

text \<open>
  Commands that add themselves to what they did, on files that hold one of three texts: the site the
  properties above are applied to.
\<close>

definition texts_of_files :: "string set" where
  "texts_of_files = {''v 1-dev'', ''v 2'', ''v 3-dev''}"

definition good_site :: "command set site \<Rightarrow> bool" where
  "good_site s \<longleftrightarrow> (\<forall>p. \<exists>t \<in> texts_of_files. st_files s p = Some t)"

definition recording_env :: "command set release_env" where
  "recording_env = \<lparr>re_run = \<lambda>c s. (s\<lparr>st_rest := insert c (st_rest s)\<rparr>, 0), re_head = \<lambda>s. ''c0'', re_getenv = \<lambda>v. []\<rparr>"

definition sample_args :: release_args where
  "sample_args = \<lparr>ra_from = ''1-dev'', ra_to = ''2'', ra_next = ''3-dev'', ra_last = ''0'', ra_location = ''/otoroshi'',
     ra_dry = False, ra_preview = False\<rparr>"

definition sample_site :: "command set site" where
  "sample_site = \<lparr>st_files = \<lambda>p. Some ''v 1-dev'', st_rest = {}\<rparr>"

definition touch :: "(string \<Rightarrow> string) \<Rightarrow> string set \<Rightarrow> command set \<Rightarrow> command set site \<Rightarrow> command set site" where
  "touch G A K s = s\<lparr>st_files := \<lambda>p. if p \<in> A then map_option G (st_files s p) else st_files s p, st_rest := st_rest s \<union> K\<rparr>"

definition settles :: "(string \<Rightarrow> string) \<Rightarrow> bool" where
  "settles G \<longleftrightarrow> (\<forall>t \<in> texts_of_files. G t \<in> texts_of_files \<and> G (G t) = G t)"

definition tame_operation :: "(string \<Rightarrow> string) \<Rightarrow> command set operation \<Rightarrow> bool" where
  "tame_operation G f \<longleftrightarrow> (\<exists>A K. \<forall>s. good_site s \<longrightarrow> f s = (touch G A K s, None))"

lemma good_touch: "settles G \<Longrightarrow> good_site s \<Longrightarrow> good_site (touch G A K s)"
  by (fastforce simp: settles_def good_site_def touch_def)

lemma touch_touch: "settles G \<Longrightarrow> good_site s \<Longrightarrow> touch G A K (touch G B L s) = touch G (A \<union> B) (K \<union> L) s"
  unfolding touch_def good_site_def settles_def
  by (rule site.equality) (auto simp: fun_eq_iff, (metis option.map(2))+)

lemma touch_none: "touch G {} {} s = s"
  by (simp add: touch_def)

lemma apply_tame:
  "settles G \<Longrightarrow> \<forall>f \<in> set ops. tame_operation G f \<Longrightarrow> \<exists>A K. \<forall>s. good_site s \<longrightarrow> apply_all ops s = touch G A K s"
proof (induction ops)
  case Nil
  show ?case by (intro exI [of _ "{}"]) (simp add: touch_none)
next
  case (Cons f ops)
  then obtain A K B L where "\<forall>s. good_site s \<longrightarrow> apply_all ops s = touch G A K s"
    "\<forall>s. good_site s \<longrightarrow> f s = (touch G B L s, None)"
    by (auto simp: tame_operation_def)
  with Cons.prems(1) have "\<forall>s. good_site s \<longrightarrow> apply_all (f # ops) s = touch G (A \<union> B) (K \<union> L) s"
    by (simp add: good_touch touch_touch)
  then show ?case by blast
qed

lemma tame_restartable:
  assumes "settles G" and "\<forall>f \<in> set ops. tame_operation G f"
  shows "restartable good_site ops"
  unfolding restartable_def
proof (intro allI impI)
  fix s :: "command set site" and k
  assume s: "good_site s"
  have "\<forall>f \<in> set (take k ops). tame_operation G f" "\<forall>f \<in> set (drop k ops). tame_operation G f"
    using assms(2) by (meson in_set_takeD in_set_dropD)+
  with apply_tame [OF assms(1)] obtain A K B L where
    ap: "\<forall>s. good_site s \<longrightarrow> apply_all (take k ops) s = touch G A K s" "\<forall>s. good_site s \<longrightarrow> apply_all (drop k ops) s = touch G B L s"
    by metis
  have "apply_all ops s' = apply_all (drop k ops) (apply_all (take k ops) s')" for s' :: "command set site"
    by (metis append_take_drop_id apply_all_def foldl_append)
  with ap s assms(1) show "apply_all ops (apply_all (take k ops) s) = apply_all ops s"
    by (simp add: good_touch touch_touch ac_simps)
qed

lemma tame_never_fails: "settles G \<Longrightarrow> \<forall>f \<in> set ops. tame_operation G f \<Longrightarrow> never_fails good_site ops"
  by (fastforce simp: never_fails_def tame_operation_def good_touch)

lemma tame_command: "tame_operation G (runSystemCommand recording_env cmd args cwd)"
  unfolding tame_operation_def
  by (intro exI [of _ "{}"] exI [of _ "{Command cmd args cwd}"])
    (simp add: runSystemCommand_def recording_env_def touch_def)

lemma tame_script: "tame_operation G (runScript recording_env ls d vs)"
  unfolding tame_operation_def
  by (intro exI [of _ "{}"] exI [of _ "{Script ls d vs}"]) (simp add: runScript_def recording_env_def touch_def)

lemma tame_push: "tame_operation G (pushToMaster recording_env a)"
  using tame_script unfolding tame_operation_def pushToMaster_def by (metis fst_conv)

lemma tame_change:
  assumes "(\<forall>t \<in> texts_of_files. snd f from to t = t) \<or> (\<forall>t \<in> texts_of_files. snd f from to t = G t)"
  shows "tame_operation G (change_file location from to f)"
proof -
  have *: "good_site s \<Longrightarrow> change_file location from to f s = (touch G A {} s, None)"
    if "\<forall>t \<in> texts_of_files. snd f from to t = (if in_dir location (fst f) \<in> A then G t else t)" "A \<subseteq> {in_dir location (fst f)}"
    for A and s :: "command set site"
  proof -
    let ?p = "in_dir location (fst f)"
    assume "good_site s"
    then obtain t where t: "t \<in> texts_of_files" "st_files s ?p = Some t" unfolding good_site_def by blast
    with that have "(st_files s)(?p \<mapsto> snd f from to t) = (\<lambda>p. if p \<in> A then map_option G (st_files s p) else st_files s p)"
      by (auto simp: fun_eq_iff)
    with t show ?thesis by (simp add: change_file_def touch_def)
  qed
  show ?thesis
    using assms
  proof
    assume "\<forall>t \<in> texts_of_files. snd f from to t = t"
    then have "\<forall>s. good_site s \<longrightarrow> change_file location from to f s = (touch G {} {} s, None)" by (simp add: *)
    then show ?thesis unfolding tame_operation_def by blast
  next
    assume "\<forall>t \<in> texts_of_files. snd f from to t = G t"
    then have "\<forall>s. good_site s \<longrightarrow> change_file location from to f s = (touch G {in_dir location (fst f)} {} s, None)"
      by (simp add: *)
    then show ?thesis unfolding tame_operation_def by blast
  qed
qed

lemma release_files_texts:
  "\<forall>f \<in> set release_files. \<forall>t \<in> texts_of_files.
     snd f ''0'' ''2'' t = t"
  "list_all (\<lambda>f. list_all (\<lambda>t. snd f ''1-dev'' ''2'' t = t) [''v 1-dev'', ''v 2'', ''v 3-dev''] \<or>
     list_all (\<lambda>t. snd f ''1-dev'' ''2'' t = replace_all ''1-dev'' ''2'' t) [''v 1-dev'', ''v 2'', ''v 3-dev'']) release_files"
  "list_all (\<lambda>f. list_all (\<lambda>t. snd f ''2'' ''3-dev'' t = t) [''v 1-dev'', ''v 2'', ''v 3-dev''] \<or>
     list_all (\<lambda>t. snd f ''2'' ''3-dev'' t = replace_all ''2'' ''3-dev'' t) [''v 1-dev'', ''v 2'', ''v 3-dev'']) release_files"
  by code_simp+

lemma settles_changes: "settles (replace_all ''1-dev'' ''2'')" "settles (replace_all ''2'' ''3-dev'')"
  by code_simp+

lemma tame_release: "f \<in> set (changeVersion ''/otoroshi'' ''1-dev'' ''2'' ex) \<Longrightarrow> tame_operation (replace_all ''1-dev'' ''2'') f"
  using release_files_texts(2) unfolding changeVersion_def
  by (auto simp: list_all_iff texts_of_files_def intro!: tame_change)

lemma tame_last: "f \<in> set (changeVersion ''/otoroshi'' ''0'' ''2'' ex) \<Longrightarrow> tame_operation G f"
  using release_files_texts(1) unfolding changeVersion_def by (auto intro!: tame_change)

lemma tame_dev: "f \<in> set (changeVersion ''/otoroshi'' ''2'' ''3-dev'' ex) \<Longrightarrow> tame_operation (replace_all ''2'' ''3-dev'') f"
  using release_files_texts(3) unfolding changeVersion_def
  by (auto simp: list_all_iff texts_of_files_def intro!: tame_change)

lemma tame_index: "tame_operation G (change_file ''/otoroshi'' ''0'' ''2'' docs_index)"
  by (rule tame_change) (simp add: docs_index_def texts_of_files_def startsWith_def)

lemma sample_tame:
  assumes "st \<in> set (release_steps recording_env sample_args base)"
  shows "\<exists>G. settles G \<and> (\<forall>f \<in> set (snd st). tame_operation G f)"
proof (cases "fst st = ''CHANGE_TO_DEV_VERSION''")
  case True
  with assms have "snd st = changeVersion ''/otoroshi'' ''2'' ''3-dev'' [''readme.md'']"
    by (auto simp: release_steps_def buildVersion_def publish_steps_def sample_args_def)
  with tame_dev settles_changes(2) show ?thesis by metis
next
  case False
  with assms have "\<forall>f \<in> set (snd st). tame_operation (replace_all ''1-dev'' ''2'') f"
    by (auto simp: release_steps_def buildVersion_def publish_steps_def sample_args_def change_to_release_def
        git_commit_def git_def formatCode_def cleanup_def buildOpenApi_def buildDocumentation_def buildUi_def
        buildDistribution_def githubTag_def publishMavenCentral_def publishHelmChart_def publishDockerOtoroshi_def
        intro: tame_command tame_script tame_push tame_index tame_release tame_last)
  with settles_changes(1) show ?thesis by blast
qed

lemma sample_never_fails: "st \<in> set (release_steps recording_env sample_args base) \<Longrightarrow> never_fails good_site (snd st)"
  using sample_tame tame_never_fails by blast

lemma sample_restartable:
  "st \<in> set (release_steps recording_env sample_args base) \<Longrightarrow> restartable good_site (snd st) \<and> keeps_site good_site (snd st)"
  using sample_tame tame_restartable tame_never_fails never_fails_keeps by blast

lemma good_sample: "good_site sample_site"
  by (simp add: good_site_def sample_site_def texts_of_files_def)

lemma sample_cost: "cost (release_steps recording_env sample_args base) \<le> 200"
  by (simp add: cost_def release_steps_def buildVersion_def publish_steps_def sample_args_def change_to_release_def
      formatCode_def cleanup_def buildOpenApi_def buildDocumentation_def buildUi_def buildDistribution_def githubTag_def
      publishMavenCentral_def publishHelmChart_def publishDockerOtoroshi_def changeVersion_def release_files_def kustomize_file_def)

theorem release_finishes_witness:
  "\<exists>r. releaseOtoroshi recording_env sample_args 200 (resume recording_env sample_args [5, 0, 40] sample_site) = (Completed, r) \<and>
     stops (rl_journal r) = step_names False"
  using release_finishes [of recording_env sample_args good_site sample_site 200 "[5, 0, 40]"]
    sample_never_fails good_sample sample_cost by (simp add: sample_args_def)

theorem resumed_release_same_witness:
  "\<exists>r r'. releaseOtoroshi recording_env sample_args 200 (resume recording_env sample_args [5, 0, 40] sample_site) = (Completed, r) \<and>
     releaseOtoroshi recording_env sample_args 200 (resume recording_env sample_args [] sample_site) = (Completed, r') \<and>
     rl_site r = rl_site r'"
proof -
  have finishes: "\<exists>r. releaseOtoroshi recording_env sample_args 200 (resume recording_env sample_args bs sample_site) = (Completed, r)" for bs
  proof -
    let ?r = "resume recording_env sample_args bs sample_site"
    have "\<forall>base. \<forall>st \<in> set (release_steps recording_env sample_args base). keeps_site good_site (snd st)"
      using sample_restartable by blast
    then have "good_site (rl_site ?r)" using good_sample by (rule resume_keeps)
    moreover have "\<forall>st \<in> set (release_steps recording_env sample_args base). never_fails good_site (snd st)" for base
      using sample_never_fails by blast
    ultimately have "fst (releaseOtoroshi recording_env sample_args 200 ?r) = Completed"
      unfolding releaseOtoroshi_def using run_steps_completes sample_cost by blast
    then show ?thesis by (metis prod.collapse)
  qed
  then obtain r r' where r: "releaseOtoroshi recording_env sample_args 200 (resume recording_env sample_args [5, 0, 40] sample_site) = (Completed, r)"
    and r': "releaseOtoroshi recording_env sample_args 200 (resume recording_env sample_args [] sample_site) = (Completed, r')"
    by blast
  have "\<forall>st \<in> set (release_steps recording_env sample_args []). restartable good_site (snd st) \<and> keeps_site good_site (snd st)"
    using sample_restartable by blast
  from resumed_release_same [OF this good_sample _ r r'] r r' show ?thesis by (simp add: sample_args_def)
qed

text \<open>An environment in which every command that is not a script fails.\<close>

definition failing_env :: "command set release_env" where
  "failing_env = recording_env\<lparr>re_run := \<lambda>c s. (fst (re_run recording_env c s), case c of Command _ _ _ \<Rightarrow> 1 | _ \<Rightarrow> 0)\<rparr>"

lemma exit_codes_ignored_witness:
  "snd (re_run failing_env (Command ''git'' [''push''] ''/otoroshi'') sample_site) = 1 \<and>
   releaseOtoroshi failing_env sample_args 200 \<lparr>rl_journal = [], rl_site = sample_site\<rparr>
     = releaseOtoroshi recording_env sample_args 200 \<lparr>rl_journal = [], rl_site = sample_site\<rparr>"
  using exit_codes_ignored [of failing_env recording_env sample_args 200 "\<lparr>rl_journal = [], rl_site = sample_site\<rparr>"]
  by (simp add: failing_env_def recording_env_def)

section \<open>Changes of version\<close>

text \<open>The texts between the occurrences of \<open>p\<close>, from the left and without overlap.\<close>

function pieces :: "string \<Rightarrow> string \<Rightarrow> string list" where
  "pieces p [] = [[]]"
| "pieces p (c # s) =
     (if startsWith (c # s) p then [] # pieces p (drop (length p - 1) s)
      else case pieces p s of [] \<Rightarrow> [[c]] | t # ts \<Rightarrow> (c # t) # ts)"
  by pat_completeness auto
termination
  by (relation "measure (length \<circ> snd)") auto

lemma pieces_nonempty [simp]: "pieces p s \<noteq> []"
  by (cases s) (auto split: list.splits)

lemma join_Cons: "ts \<noteq> [] \<Longrightarrow> join d (t # ts) = t @ d @ join d ts"
  by (cases ts) auto

lemma join_push: "ts \<noteq> [] \<Longrightarrow> join d (case ts of [] \<Rightarrow> [[c]] | t # ts \<Rightarrow> (c # t) # ts) = c # join d ts"
  by (cases ts; cases "tl ts") auto

lemma startsWith_split: "p \<noteq> [] \<Longrightarrow> startsWith (c # s) p \<Longrightarrow> c # s = p @ drop (length p - 1) s"
  by (cases p) (auto simp: startsWith_def, metis append_take_drop_id)

lemma pieces_prefix: "prefix (hd (pieces p s)) s"
  by (induction p s rule: pieces.induct) (auto split: list.splits)

lemma startsWith_prefix: "startsWith t p \<Longrightarrow> prefix t s \<Longrightarrow> startsWith s p"
  by (auto simp: startsWith_iff_prefix)

lemma pieces_without: "p \<noteq> [] \<Longrightarrow> t \<in> set (pieces p s) \<Longrightarrow> \<not> includes_str t p"
proof (induction p s arbitrary: t rule: pieces.induct)
  case (2 p c s)
  show ?case
  proof (cases "startsWith (c # s) p")
    case True
    with 2 show ?thesis by auto
  next
    case False
    obtain u us where us: "pieces p s = u # us" by (meson neq_Nil_conv pieces_nonempty)
    with pieces_prefix [of p s] have "prefix (c # u) (c # s)" by simp
    with False have "\<not> startsWith (c # u) p" using startsWith_prefix by blast
    with "2.IH"(2) [OF False "2.prems"(1)] "2.prems" False us show ?thesis by auto
  qed
qed auto

text \<open>
  A change of version in a text replaces every occurrence of the version, read from the left, and
  nothing else: the text is the pieces between the occurrences, none of which holds the version, and the
  new text is the same pieces around the new version.
\<close>

lemma version_changed_everywhere:
  assumes "from \<noteq> []"
  shows "join from (pieces from source) = source \<and> replace_all from to source = join to (pieces from source) \<and>
    (\<forall>t \<in> set (pieces from source). \<not> includes_str t from)"
proof -
  have "join from (pieces from source) = source \<and> replace_all from to source = join to (pieces from source)"
    using assms
  proof (induction "from" source rule: pieces.induct)
    case (2 p c s)
    show ?case
    proof (cases "startsWith (c # s) p")
      case True
      then have "pieces p (c # s) = [] # pieces p (drop (length p - 1) s)"
        "replace_all p to (c # s) = to @ replace_all p to (drop (length p - 1) s)"
        by (simp_all add: replace_all_def literal_def)
      with "2.IH"(1) [OF True "2.prems"] startsWith_split [OF "2.prems" True] show ?thesis by (simp add: join_Cons)
    next
      case False
      with 2 show ?thesis by (simp add: join_push replace_all_def literal_def)
    qed
  qed (simp add: replace_all_def)
  with pieces_without [OF assms] show ?thesis by blast
qed

lemma version_changed_everywhere_witness:
  "replace_all ''7.1.0'' ''7.2.0-dev'' ''is 7.1.0, not 17.1.0'' = ''is 7.2.0-dev, not 17.2.0-dev'' \<and>
   pieces ''7.1.0'' ''is 7.1.0, not 17.1.0'' = [''is '', '', not 1'', []]"
proof -
  have "pieces ''7.1.0'' ''is 7.1.0, not 17.1.0'' = [''is '', '', not 1'', []]" by code_simp
  with version_changed_everywhere [of "''7.1.0''" "''is 7.1.0, not 17.1.0''" "''7.2.0-dev''"] show ?thesis by simp
qed

end
