(* ===== verification/Release_Changelog.thy ===== *)
theory Release_Changelog
  imports Release
begin

text \<open>
  The entry of a release in the changelog (\<open>scripts/release/changelog.js\<close>).

  \<^item> The answer of GitHub is the list of the issues of the milestone; the author of an issue is absent
    when the account was deleted.
  \<^item> \<open>replace_js\<close> is \<open>String.replace\<close> with two strings, whose second one has the patterns \<open>$$\<close>, \<open>$&\<close>,
    \<open>$`\<close> and \<open>$'\<close>. The date of the day is a parameter.
\<close>

record edge =
  eg_number :: nat
  eg_title :: string
  eg_author :: "string option"
  eg_assignees :: "string list"
  eg_labels :: "string list"

record milestone_issue =
  is_number :: nat
  is_title :: string
  is_users :: "string list"
  is_labels :: "string list"
  is_fixed_by :: string

text \<open>\<open>[...new Set(xs)]\<close>.\<close>

definition unique :: "'a list \<Rightarrow> 'a list" where
  "unique xs = foldl (\<lambda>acc x. if x \<in> set acc then acc else acc @ [x]) [] xs"

definition profile :: "string \<Rightarrow> string" where
  "profile login = ''['' @ login @ ''](https://github.com/'' @ login @ '')''"

definition issue_of_edge :: "edge \<Rightarrow> milestone_issue res" where
  "issue_of_edge e =
     (case eg_author e of
        None \<Rightarrow> Inl TypeError
      | Some author \<Rightarrow>
          Inr \<lparr>is_number = eg_number e, is_title = eg_title e, is_users = unique (eg_assignees e @ [author]),
               is_labels = eg_labels e, is_fixed_by = ''fixed by '' @ join '', '' (map profile (eg_assignees e))\<rparr>)"

definition contributors :: "milestone_issue list \<Rightarrow> string list" where
  "contributors issues = unique (concat (map is_users issues))"

definition added_issue :: "milestone_issue \<Rightarrow> bool" where
  "added_issue i \<longleftrightarrow>
     (if ''documentation'' \<in> set (is_labels i) then False
      else if ''change'' \<in> set (is_labels i) then False
      else if ''enhancement'' \<in> set (is_labels i) then False
      else if ''bug'' \<in> set (is_labels i) then False
      else if ''fix'' \<in> set (is_labels i) then False
      else True)"

definition changed_issue :: "milestone_issue \<Rightarrow> bool" where
  "changed_issue i \<longleftrightarrow> ''change'' \<in> set (is_labels i) \<or> ''enhancement'' \<in> set (is_labels i)"

definition fixed_issue :: "milestone_issue \<Rightarrow> bool" where
  "fixed_issue i \<longleftrightarrow> ''bug'' \<in> set (is_labels i) \<or> ''fix'' \<in> set (is_labels i)"

definition documentation_issue :: "milestone_issue \<Rightarrow> bool" where
  "documentation_issue i \<longleftrightarrow> ''documentation'' \<in> set (is_labels i)"

definition line_end :: string where
  "line_end = [CHR 0x0A]"

definition issue_line :: "milestone_issue \<Rightarrow> string" where
  "issue_line i = ''- '' @ is_title i @ '' (#'' @ nat_str (is_number i) @ '' '' @ is_fixed_by i @ '')''"

definition changelog_section :: "string \<Rightarrow> milestone_issue list \<Rightarrow> string" where
  "changelog_section name issues =
     (if issues = [] then []
      else ''### '' @ name @ '' '' @ line_end @ line_end @ join line_end (map issue_line issues)
           @ ''       '' @ line_end @ ''      '')"

definition milestone_url :: string where
  "milestone_url = ''https://github.com/MAIF/otoroshi/milestone/''"

definition changelog_template :: "string \<Rightarrow> string \<Rightarrow> string \<Rightarrow> milestone_issue list \<Rightarrow> string" where
  "changelog_template version last_version milestone issues =
     line_end @ line_end @ milestone_url @ milestone @ ''?closed=1'' @ line_end
     @ ''https://github.com/MAIF/otoroshi/compare/v'' @ last_version @ ''...v'' @ version @ line_end
     @ ''https://github.com/MAIF/otoroshi/releases/tag/v'' @ version @ line_end @ line_end @ line_end
     @ changelog_section ''Added'' (filter added_issue issues) @ line_end
     @ changelog_section ''Changed'' (filter changed_issue issues) @ line_end
     @ changelog_section ''Fixed'' (filter fixed_issue issues) @ line_end
     @ changelog_section ''Documentation'' (filter documentation_issue issues) @ line_end
     @ ''### Contributors'' @ line_end @ line_end @ join line_end (map (\<lambda>c. ''* @'' @ c) (contributors issues))"

definition fileReleaseTemplate :: "string \<Rightarrow> string \<Rightarrow> string \<Rightarrow> string" where
  "fileReleaseTemplate version today template = ''## ['' @ version @ ''] - '' @ today @ line_end @ template"

definition githubReleaseTemplate :: "string \<Rightarrow> string \<Rightarrow> string" where
  "githubReleaseTemplate version template = ''# Otoroshi version '' @ version @ line_end @ template"

section \<open>The replacement\<close>

text \<open>The replacement of a match that stands between \<open>before\<close> and \<open>after\<close>.\<close>

fun expand :: "string \<Rightarrow> string \<Rightarrow> string \<Rightarrow> string \<Rightarrow> string" where
  "expand before match after (c # d # r) =
     (if c = CHR ''$'' \<and> d = CHR ''$'' then CHR ''$'' # expand before match after r
      else if c = CHR ''$'' \<and> d = CHR ''&'' then match @ expand before match after r
      else if c = CHR ''$'' \<and> d = CHR 0x60 then before @ expand before match after r
      else if c = CHR ''$'' \<and> d = CHR 0x27 then after @ expand before match after r
      else c # expand before match after (d # r))"
| "expand before match after r = r"

fun replace_from :: "string \<Rightarrow> string \<Rightarrow> string \<Rightarrow> string \<Rightarrow> string" where
  "replace_from before p r [] = (if p = [] then before @ expand before p [] r else before)"
| "replace_from before p r (c # s) =
     (if startsWith (c # s) p
      then before @ expand before p (drop (length p) (c # s)) r @ drop (length p) (c # s)
      else replace_from (before @ [c]) p r s)"

definition replace_js :: "string \<Rightarrow> string \<Rightarrow> string \<Rightarrow> string" where
  "replace_js p r s = replace_from [] p r s"

definition newChangelog :: "string \<Rightarrow> string \<Rightarrow> string" where
  "newChangelog entry old =
     replace_js (''---'' @ line_end) (''---'' @ line_end @ line_end @ entry @ line_end) old"

text \<open>What is written in the changelog, from the answer of GitHub; nothing when an issue has no author.\<close>

definition generateChangelog :: "string \<Rightarrow> string \<Rightarrow> string \<Rightarrow> string \<Rightarrow> edge list \<Rightarrow> string \<Rightarrow> string res" where
  "generateChangelog version last_version milestone today edges old =
     rbind (rmap issue_of_edge edges) (\<lambda>issues.
       Inr (newChangelog (fileReleaseTemplate version today (changelog_template version last_version milestone issues)) old))"

section \<open>The sections\<close>

lemma unique_set [simp]: "set (unique xs) = set xs"
proof -
  have "set (foldl (\<lambda>acc x. if x \<in> set acc then acc else acc @ [x]) ys xs) = set ys \<union> set xs" for ys
    by (induction xs arbitrary: ys) auto
  then show ?thesis by (simp add: unique_def)
qed

lemma unique_distinct: "distinct (unique xs)"
proof -
  have "distinct ys \<Longrightarrow> distinct (foldl (\<lambda>acc x. if x \<in> set acc then acc else acc @ [x]) ys xs)" for ys
    by (induction xs arbitrary: ys) auto
  then show ?thesis by (simp add: unique_def)
qed

lemma added_iff: "added_issue i \<longleftrightarrow> \<not> changed_issue i \<and> \<not> fixed_issue i \<and> \<not> documentation_issue i"
  by (auto simp: added_issue_def changed_issue_def fixed_issue_def documentation_issue_def)

lemma expand_plain: "CHR ''$'' \<notin> set r \<Longrightarrow> expand before match after r = r"
  by (induction before match after r rule: expand.induct) auto

lemma replace_from_first:
  "p \<noteq> [] \<Longrightarrow> \<not> includes_str (pre @ butlast p) p \<Longrightarrow>
     replace_from before p r (pre @ p @ post) = before @ pre @ expand (before @ pre) p post r @ post"
proof (induction pre arbitrary: before)
  case Nil
  then show ?case by (cases p) (simp_all add: startsWith_def)
next
  case (Cons c pre)
  have "\<not> startsWith (c # pre @ p @ post) p"
  proof
    assume s: "startsWith (c # pre @ p @ post) p"
    have "c # pre @ p @ post = (c # pre @ butlast p) @ last p # post"
      using Cons.prems(1) by (metis append.assoc append_Cons append_butlast_last_id append_Nil)
    moreover have "length p \<le> length (c # pre @ butlast p)" by simp
    ultimately have "startsWith (c # pre @ butlast p) p"
      using s unfolding startsWith_def by (metis append_eq_append_conv_if take_append diff_is_0_eq' take_0 append_Nil2)
    with Cons.prems(2) show False by simp
  qed
  with Cons show ?case by simp
qed

text \<open>
  Every issue of the milestone is in a section of the changelog, under \<open>Added\<close> exactly when no other
  section has it, and its people are thanked once each; the entry comes right after the first rule of the
  changelog and the rest stays, as long as no title, name or date has a dollar.
\<close>

lemma changelog_lists_every_issue:
  assumes "rmap issue_of_edge edges = Inr issues" and "old = pre @ ''---'' @ line_end @ post"
    and "\<not> includes_str (pre @ ''---'') (''---'' @ line_end)"
    and "entry = fileReleaseTemplate version today (changelog_template version last_version milestone issues)"
  shows "(\<forall>i \<in> set issues. added_issue i \<longleftrightarrow> \<not> changed_issue i \<and> \<not> fixed_issue i \<and> \<not> documentation_issue i) \<and>
    distinct (contributors issues) \<and> set (contributors issues) = (\<Union>e \<in> set edges. set (eg_assignees e) \<union> set_option (eg_author e)) \<and>
    (CHR ''$'' \<notin> set entry \<longrightarrow> generateChangelog version last_version milestone today edges old
       = Inr (pre @ ''---'' @ line_end @ line_end @ entry @ line_end @ post))"
proof (intro conjI)
  have "CHR ''$'' \<notin> set entry \<Longrightarrow> newChangelog entry old = pre @ ''---'' @ line_end @ line_end @ entry @ line_end @ post"
    using replace_from_first [of "''---'' @ line_end" pre "[]" _ post] assms(2,3)
    by (simp add: newChangelog_def replace_js_def line_end_def expand_plain)
  then show "CHR ''$'' \<notin> set entry \<longrightarrow> generateChangelog version last_version milestone today edges old
       = Inr (pre @ ''---'' @ line_end @ line_end @ entry @ line_end @ post)"
    by (simp add: generateChangelog_def assms(1,4))
  show "distinct (contributors issues)" by (simp add: contributors_def unique_distinct)
  show "set (contributors issues) = (\<Union>e \<in> set edges. set (eg_assignees e) \<union> set_option (eg_author e))"
    using assms(1)
  proof (induction edges arbitrary: issues)
    case (Cons e edges)
    then obtain i rest where i: "issue_of_edge e = Inr i" "rmap issue_of_edge edges = Inr rest" "issues = i # rest" by auto
    then have "set (is_users i) = set (eg_assignees e) \<union> set_option (eg_author e)"
      by (auto simp: issue_of_edge_def split: option.splits)
    with Cons.IH [OF i(2)] i(3) show ?case by (simp add: contributors_def)
  qed (simp add: contributors_def)
qed (auto simp: added_iff)

definition sample_milestone :: "edge list" where
  "sample_milestone = [\<lparr>eg_number = 7, eg_title = ''Faster'', eg_author = Some ''ann'', eg_assignees = [''bob'', ''ann''], eg_labels = [''bug'']\<rparr>,
     \<lparr>eg_number = 8, eg_title = ''New'', eg_author = Some ''bob'', eg_assignees = [''bob''], eg_labels = [''added'']\<rparr>]"

definition sample_old :: string where
  "sample_old = ''# Changelog'' @ line_end @ ''---'' @ line_end @ ''## [1]''"

lemma changelog_lists_every_issue_witness:
  "\<exists>issues. rmap issue_of_edge sample_milestone = Inr issues \<and> filter added_issue issues = [issues ! 1] \<and>
     set (contributors issues) = {''ann'', ''bob''} \<and> distinct (contributors issues) \<and>
     generateChangelog ''2'' ''1'' ''9'' ''2026-01-02'' sample_milestone sample_old
       = Inr (''# Changelog'' @ line_end @ ''---'' @ line_end @ line_end
           @ fileReleaseTemplate ''2'' ''2026-01-02'' (changelog_template ''2'' ''1'' ''9'' issues) @ line_end @ ''## [1]'')"
proof -
  have d: "case rmap issue_of_edge sample_milestone of Inr issues \<Rightarrow> filter added_issue issues = [issues ! 1] \<and>
      CHR ''$'' \<notin> set (fileReleaseTemplate ''2'' ''2026-01-02'' (changelog_template ''2'' ''1'' ''9'' issues)) | Inl _ \<Rightarrow> False"
    by code_simp
  then obtain issues where i: "rmap issue_of_edge sample_milestone = Inr issues" "filter added_issue issues = [issues ! 1]"
    "CHR ''$'' \<notin> set (fileReleaseTemplate ''2'' ''2026-01-02'' (changelog_template ''2'' ''1'' ''9'' issues))"
    by (auto split: sum.splits)
  have old: "sample_old = (''# Changelog'' @ line_end) @ ''---'' @ line_end @ ''## [1]''"
    and pre: "\<not> includes_str ((''# Changelog'' @ line_end) @ ''---'') (''---'' @ line_end)"
    by code_simp+
  have "set (contributors issues) = {''ann'', ''bob''}"
    using changelog_lists_every_issue [OF i(1) old pre refl] by (auto simp: sample_milestone_def)
  with changelog_lists_every_issue [OF i(1) old pre refl, of "''2''" "''2026-01-02''" "''1''" "''9''"] i show ?thesis by auto
qed

end
