(* ===== verification/Api_Client.thy ===== *)
theory Api_Client
  imports Table_View "HOL-Library.Word"
begin

text \<open>
  The client of the admin API (\<open>services/BackOfficeServices.js\<close>): how the console builds a request, the
  pages it asks for, and the clients of an entity (\<open>nextClient\<close>, \<open>apisClient\<close>).

  \<^item> An \<open>api_request\<close> is what is given to \<open>fetch\<close>, and how its answer is read. The network and the server
    are outside: an operation of the client is a function that gives a request, and what it does
    with the answer is a function of a \<open>fetch_outcome\<close>.
  \<^item> \<open>url_path\<close> and \<open>url_query\<close> are the URL parser of the platform, for a URL that starts with one slash: it trims the
    URL, drops the fragment, cuts the query and resolves the dot segments. Characters that the
    parser escapes are kept as they are.
  \<^item> A text put in a template literal is \<open>template_text\<close>: numbers print as JavaScript does from \<open>1e-6\<close> to
    \<open>1e21\<close>, when they have at most 17 decimals.
\<close>

section \<open>Requests\<close>

fun decimals :: "nat \<Rightarrow> rat \<Rightarrow> string" where
  "decimals 0 r = []"
| "decimals (Suc n) r =
     (if r = 0 then [] else let d = nat \<lfloor>10 * r\<rfloor> in char_of (48 + d) # decimals n (10 * r - of_nat d))"

definition num_str :: "rat \<Rightarrow> string" where
  "num_str r =
     (let a = \<bar>r\<bar>; w = nat \<lfloor>a\<rfloor> in
      (if r < 0 then ''-'' else '''') @ nat_str w @ (if a = of_nat w then '''' else ''.'' @ decimals 17 (a - of_nat w)))"

fun template_text :: "js \<Rightarrow> string" where
  "template_text JUndef = ''undefined''"
| "template_text JNull = ''null''"
| "template_text (JBool b) = (if b then ''true'' else ''false'')"
| "template_text (JNum n) = num_str n"
| "template_text (JStr s) = s"
| "template_text (JArr xs) = join '','' (map (\<lambda>x. if nullish x then '''' else template_text x) xs)"
| "template_text (JObj fs) = ''[object Object]''"

datatype http = GET | POST | PUT | PATCH | DELETE

datatype fetch_body = Json js | Raw string

datatype reading = As_json | As_text | As_response

record api_request =
  rq_url :: string
  rq_method :: http
  rq_session :: bool
  rq_accept :: "string option"
  rq_type :: "string option"
  rq_body :: "fetch_body option"
  rq_reads :: reading

definition app_json :: string where
  "app_json = ''application/json''"

definition plain_fetch :: "string \<Rightarrow> api_request" where
  "plain_fetch url = \<lparr>rq_url = url, rq_method = GET, rq_session = False, rq_accept = None, rq_type = None,
     rq_body = None, rq_reads = As_json\<rparr>"

definition ask :: "http \<Rightarrow> string \<Rightarrow> api_request" where
  "ask m url = \<lparr>rq_url = url, rq_method = m, rq_session = True, rq_accept = Some app_json, rq_type = None,
     rq_body = None, rq_reads = As_json\<rparr>"

definition send_json :: "http \<Rightarrow> string \<Rightarrow> js \<Rightarrow> api_request" where
  "send_json m url v = (ask m url)\<lparr>rq_type := Some app_json, rq_body := Some (Json v)\<rparr>"

text \<open>A template literal that reads a property: the read throws on \<open>undefined\<close> and \<open>null\<close>.\<close>

definition with_prop :: "js \<Rightarrow> string \<Rightarrow> (string \<Rightarrow> api_request) \<Rightarrow> api_request res" where
  "with_prop v k f = rbind (fld v k) (\<lambda>x. Inr (f (template_text x)))"

lemma with_prop_Inr [simp]: "with_prop v k f = Inr r \<longleftrightarrow> \<not> nullish v \<and> f (template_text (jprop v k)) = r"
  by (simp add: with_prop_def fld_def)

lemma request_simps [simp]:
  "rq_url (ask m u) = u" "rq_method (ask m u) = m" "rq_session (ask m u)" "rq_body (ask m u) = None"
  "rq_type (ask m u) = None" "rq_reads (ask m u) = As_json"
  "rq_url (send_json m u v) = u" "rq_method (send_json m u v) = m" "rq_session (send_json m u v)"
  "rq_body (send_json m u v) = Some (Json v)" "rq_type (send_json m u v) = Some app_json" "rq_reads (send_json m u v) = As_json"
  "rq_url (plain_fetch u) = u" "rq_method (plain_fetch u) = GET" "rq_body (plain_fetch u) = None"
  by (simp_all add: ask_def send_json_def plain_fetch_def)

section \<open>The wrappers\<close>

text \<open>A body that is not truthy is not sent, and then there is no content type.\<close>

definition wrapped :: "string \<Rightarrow> http \<Rightarrow> js \<Rightarrow> api_request" where
  "wrapped url m body = (if truthy body then send_json m url body else ask m url)"

definition fetchWrapper :: "string \<Rightarrow> http \<Rightarrow> js \<Rightarrow> api_request" where
  "fetchWrapper url m body = wrapped (''/bo/api/proxy/api'' @ url) m body"

definition fetchWrapperNext :: "string \<Rightarrow> http \<Rightarrow> js \<Rightarrow> string \<Rightarrow> api_request" where
  "fetchWrapperNext url m body grp = wrapped (''/bo/api/proxy/apis/'' @ grp @ ''/v1'' @ url) m body"

definition fetchWrapperNextWithGroup :: "string \<Rightarrow> string \<Rightarrow> http \<Rightarrow> js \<Rightarrow> api_request" where
  "fetchWrapperNextWithGroup grp url m body = wrapped (''/bo/api/proxy/apis/'' @ grp @ ''/v1'' @ url) m body"

section \<open>Pages\<close>

record page_state =
  ps_page :: "nat option"
  ps_pageSize :: "nat option"
  ps_fields :: "string list option"
  ps_filtered :: "(string \<times> string) list option"
  ps_sorted :: "(string \<times> bool) list option"

definition page_one :: page_state where
  "page_one = \<lparr>ps_page = Some 1, ps_pageSize = None, ps_fields = None, ps_filtered = None, ps_sorted = None\<rparr>"

definition filled :: "'a list option \<Rightarrow> 'a list" where
  "filled l = (case l of None \<Rightarrow> [] | Some xs \<Rightarrow> xs)"

definition counted :: "nat option \<Rightarrow> nat" where
  "counted n = (case n of None \<Rightarrow> 0 | Some k \<Rightarrow> k)"

text \<open>The parameters of a page, in the order they are added: each is there when it is truthy and not empty.\<close>

definition bool_str :: "bool \<Rightarrow> string" where
  "bool_str b = (if b then ''true'' else ''false'')"

definition filter_text :: "(string \<times> string) list \<Rightarrow> string" where
  "filter_text fs = join '','' (map (\<lambda>(i, v). i @ '':'' @ toLowerCase v) fs)"

definition sort_text :: "(string \<times> bool) list \<Rightarrow> string" where
  "sort_text fs = join '','' (map (\<lambda>(i, d). i @ '':'' @ bool_str d) fs)"

definition paged_url :: "string \<Rightarrow> page_state \<Rightarrow> string" where
  "paged_url route ps =
     (if counted (ps_page ps) = 0 then route
      else
        (let url = route @ ''?page='' @ nat_str (counted (ps_page ps));
             url = (if counted (ps_pageSize ps) = 0 then url else url @ ''&pageSize='' @ nat_str (counted (ps_pageSize ps)));
             url = (if filled (ps_fields ps) = [] then url else url @ ''&fields='' @ join '','' (filled (ps_fields ps)));
             url = (if filled (ps_filtered ps) = [] then url else url @ ''&filtered='' @ filter_text (filled (ps_filtered ps)))
         in (if filled (ps_sorted ps) = [] then url else url @ ''&sorted='' @ sort_text (filled (ps_sorted ps)))))"

text \<open>\<open>encodeURI\<close>: the characters it leaves are letters, digits and the two sets below.\<close>

definition uri_kept :: "char \<Rightarrow> bool" where
  "uri_kept c \<longleftrightarrow>
     (let n = of_char c :: nat in n \<in> {48..57} \<or> n \<in> {65..90} \<or> n \<in> {97..122}) \<or>
     c \<in> set '';,/?:@&=+$#'' \<or> c \<in> set ''-_.!~*'' \<or> of_char c \<in> {39, 40, 41 :: nat}"

definition uri_hex :: "nat \<Rightarrow> char" where
  "uri_hex n = char_of (if n < 10 then 48 + n else 55 + n)"

definition percent :: "nat \<Rightarrow> string" where
  "percent n = [CHR ''%'', uri_hex (n div 16), uri_hex (n mod 16)]"

definition utf8 :: "nat \<Rightarrow> nat list" where
  "utf8 n = (if n < 128 then [n] else [192 + n div 64, 128 + n mod 64])"

definition encode_char :: "char \<Rightarrow> string" where
  "encode_char c = (if uri_kept c then [c] else concat (map percent (utf8 (of_char c))))"

definition encodeURI :: "string \<Rightarrow> string" where
  "encodeURI s = concat (map encode_char s)"

definition findAllWithPagination :: "string \<Rightarrow> page_state option \<Rightarrow> string \<Rightarrow> api_request" where
  "findAllWithPagination route ps pre =
     ask GET (encodeURI (pre @ paged_url route (case ps of None \<Rightarrow> page_one | Some p \<Rightarrow> p)))"

section \<open>The answer of a page\<close>

text \<open>
  What \<open>fetch\<close> gives: a rejection, or a response, whose body may not be JSON (\<open>None\<close>). What the
  caller gets is a settled promise.
\<close>

record response =
  rs_status :: nat
  rs_headers :: "string \<Rightarrow> string option"
  rs_json :: "js option"

datatype fetch_outcome = Unreachable | Answer response

datatype 'a promised = Fulfilled 'a | Rejected

definition read_json :: "response \<Rightarrow> js promised" where
  "read_json r = (case rs_json r of None \<Rightarrow> Rejected | Some v \<Rightarrow> Fulfilled v)"

definition then_json :: "fetch_outcome \<Rightarrow> js promised" where
  "then_json a = (case a of Unreachable \<Rightarrow> Rejected | Answer r \<Rightarrow> read_json r)"

text \<open>
  \<open>~~headers.get(..)\<close>: the decimal numbers the server writes, wrapped to 32 bits; a header that is
  absent or not such a number is 0.
\<close>

definition decimal_value :: "string \<Rightarrow> nat" where
  "decimal_value s = foldl (\<lambda>n c. 10 * n + (of_char c - 48)) 0 s"

definition decimal :: "string \<Rightarrow> int" where
  "decimal t =
     (case t of
        [] \<Rightarrow> 0
      | c # ds \<Rightarrow>
          if c = CHR ''-'' then (if ds \<noteq> [] \<and> list_all is_digit ds then - int (decimal_value ds) else 0)
          else if list_all is_digit t then int (decimal_value t) else 0)"

definition int32 :: "int \<Rightarrow> int" where
  "int32 n = sint (word_of_int n :: 32 word)"

definition header_int :: "response \<Rightarrow> string \<Rightarrow> int" where
  "header_int r h = (case rs_headers r h of None \<Rightarrow> 0 | Some s \<Rightarrow> int32 (decimal (trim s)))"

text \<open>\<open>Math.ceil(xCount / xPageSize)\<close>: a division by zero is \<open>NaN\<close> or an infinity.\<close>

datatype ratio = Pages int | NaN | Infinite bool

definition ceil_div :: "int \<Rightarrow> int \<Rightarrow> ratio" where
  "ceil_div a b =
     (if b = 0 then (if a = 0 then NaN else Infinite (0 < a)) else Pages \<lceil>Fract a b\<rceil>)"

record page =
  pa_data :: js
  pa_pages :: ratio
  pa_offset :: int
  pa_ngPages :: int

definition page_answer :: "fetch_outcome \<Rightarrow> page promised" where
  "page_answer a =
     (case a of
        Unreachable \<Rightarrow> Rejected
      | Answer r \<Rightarrow>
          (case rs_json r of
             None \<Rightarrow> Rejected
           | Some rows \<Rightarrow> Fulfilled \<lparr>pa_data = rows,
               pa_pages = ceil_div (header_int r ''X-Count'') (header_int r ''X-Page-Size''),
               pa_offset = header_int r ''X-Offset'', pa_ngPages = header_int r ''X-Pages''\<rparr>))"

section \<open>The clients of an entity\<close>

text \<open>
  The operations \<open>forEntity\<close>, \<open>forEntityNext\<close>, \<open>forEntityNextWithGroup\<close> and \<open>apisClient\<close> have in
  common, as a record of functions. The clients that have more extend it.
\<close>

record client =
  cl_findAll :: api_request
  cl_create :: "js \<Rightarrow> api_request"
  cl_update :: "js \<Rightarrow> api_request res"
  cl_findById :: "string \<Rightarrow> api_request"
  cl_delete :: "js \<Rightarrow> api_request res"
  cl_deleteById :: "string \<Rightarrow> api_request"
  cl_template :: api_request
  cl_form :: api_request

record paged_client = client +
  cl_findAllWithPagination :: "page_state option \<Rightarrow> api_request"

record next_client = paged_client +
  cl_updateBy :: "js \<Rightarrow> string \<Rightarrow> api_request res"
  cl_deleteBy :: "js \<Rightarrow> string \<Rightarrow> api_request res"
  cl_deleteAll :: api_request
  cl_schema :: api_request
  cl_fetch :: "string \<Rightarrow> api_request"
  cl_patch :: "js \<Rightarrow> string \<Rightarrow> api_request"

definition forEntity :: "string \<Rightarrow> paged_client" where
  "forEntity entity = \<lparr>
     cl_findAll = fetchWrapper (''/'' @ entity) GET JUndef,
     cl_create = fetchWrapper (''/'' @ entity) POST,
     cl_update = (\<lambda>content. with_prop content ''id'' (\<lambda>i. fetchWrapper (''/'' @ entity @ ''/'' @ i) PUT content)),
     cl_findById = (\<lambda>i. fetchWrapper (''/'' @ entity @ ''/'' @ i) GET JUndef),
     cl_delete = (\<lambda>content. with_prop content ''id'' (\<lambda>i. fetchWrapper (''/'' @ entity @ ''/'' @ i) DELETE JUndef)),
     cl_deleteById = (\<lambda>i. fetchWrapper (''/'' @ entity @ ''/'' @ i) DELETE JUndef),
     cl_template = fetchWrapper (''/'' @ entity @ ''/_template'') GET JUndef,
     cl_form = fetchWrapper (''/'' @ entity @ ''/_form'') GET JUndef,
     cl_findAllWithPagination = (\<lambda>ps. findAllWithPagination entity ps ''/bo/api/proxy/api/'')\<rparr>"

text \<open>The group of \<open>fetchWrapperNext\<close> is \<open>any\<close> when it is not given.\<close>

definition any_group :: "string \<Rightarrow> http \<Rightarrow> js \<Rightarrow> api_request" where
  "any_group url m body = fetchWrapperNext url m body ''any''"

definition next_update :: "string \<Rightarrow> js \<Rightarrow> string \<Rightarrow> api_request res" where
  "next_update entity content fieldId =
     with_prop content fieldId (\<lambda>i. any_group (''/'' @ entity @ ''/'' @ i) PUT content)"

definition next_delete :: "string \<Rightarrow> js \<Rightarrow> string \<Rightarrow> api_request res" where
  "next_delete entity content fieldId =
     with_prop content fieldId (\<lambda>i. any_group (''/'' @ entity @ ''/'' @ i) DELETE JUndef)"

definition forEntityNext :: "string \<Rightarrow> next_client" where
  "forEntityNext entity = \<lparr>
     cl_findAll = any_group (''/'' @ entity) GET JUndef,
     cl_create = any_group (''/'' @ entity) POST,
     cl_update = (\<lambda>content. next_update entity content ''id''),
     cl_findById = (\<lambda>i. any_group (''/'' @ entity @ ''/'' @ i) GET JUndef),
     cl_delete = (\<lambda>content. next_delete entity content ''id''),
     cl_deleteById = (\<lambda>i. any_group (''/'' @ entity @ ''/'' @ i) DELETE JUndef),
     cl_template = any_group (''/'' @ entity @ ''/_template'') GET JUndef,
     cl_form = any_group (''/'' @ entity @ ''/_form'') GET JUndef,
     cl_findAllWithPagination = (\<lambda>ps. findAllWithPagination entity ps ''/bo/api/proxy/apis/any/v1/''),
     cl_updateBy = next_update entity,
     cl_deleteBy = next_delete entity,
     cl_deleteAll = any_group (''/'' @ entity) DELETE JUndef,
     cl_schema = any_group (''/'' @ entity @ ''/_schema'') GET JUndef,
     cl_fetch = (\<lambda>path. any_group (''/'' @ entity @ path) GET JUndef),
     cl_patch = (\<lambda>content fieldId. any_group (''/'' @ entity @ ''/'' @ fieldId) PATCH content)\<rparr>"

definition forEntityNextWithGroup :: "string \<Rightarrow> string \<Rightarrow> client" where
  "forEntityNextWithGroup grp entity = \<lparr>
     cl_findAll = fetchWrapperNextWithGroup grp (''/'' @ entity) GET JUndef,
     cl_create = fetchWrapperNextWithGroup grp (''/'' @ entity) POST,
     cl_update = (\<lambda>content. with_prop content ''id''
        (\<lambda>i. fetchWrapperNextWithGroup grp (''/'' @ entity @ ''/'' @ i) PUT content)),
     cl_findById = (\<lambda>i. fetchWrapperNextWithGroup grp (''/'' @ entity @ ''/'' @ i) GET JUndef),
     cl_delete = (\<lambda>content. with_prop content ''id''
        (\<lambda>i. fetchWrapperNextWithGroup grp (''/'' @ entity @ ''/'' @ i) DELETE JUndef)),
     cl_deleteById = (\<lambda>i. fetchWrapperNextWithGroup grp (''/'' @ entity @ ''/'' @ i) DELETE JUndef),
     cl_template = fetchWrapperNextWithGroup grp (''/'' @ entity @ ''/_template'') GET JUndef,
     cl_form = fetchWrapperNextWithGroup grp (''/'' @ entity @ ''/_form'') GET JUndef\<rparr>"

text \<open>The paths of \<open>apisClient\<close> start with an \<open>s\<close>, which makes \<open>/bo/api/proxy/apis\<close> of the wrapper's root.\<close>

definition apis_path :: "string \<Rightarrow> string \<Rightarrow> string \<Rightarrow> string" where
  "apis_path grp version plural = ''s/'' @ grp @ ''/'' @ version @ ''/'' @ plural"

definition apisClient :: "string \<Rightarrow> string \<Rightarrow> string \<Rightarrow> paged_client" where
  "apisClient grp version plural =
    (let path = apis_path grp version plural in \<lparr>
     cl_findAll = fetchWrapper path GET JUndef,
     cl_create = fetchWrapper path POST,
     cl_update = (\<lambda>content. with_prop content ''id'' (\<lambda>i. fetchWrapper (path @ ''/'' @ i) PUT content)),
     cl_findById = (\<lambda>i. fetchWrapper (path @ ''/'' @ i) GET JUndef),
     cl_delete = (\<lambda>content. with_prop content ''id'' (\<lambda>i. fetchWrapper (path @ ''/'' @ i) DELETE JUndef)),
     cl_deleteById = (\<lambda>i. fetchWrapper (path @ ''/'' @ i) DELETE JUndef),
     cl_template = fetchWrapper (path @ ''/_template'') GET JUndef,
     cl_form = fetchWrapper (path @ ''/_form'') GET JUndef,
     cl_findAllWithPagination =
       (\<lambda>ps. findAllWithPagination plural ps (''/bo/api/proxy/apis/'' @ grp @ ''/'' @ version @ ''/''))\<rparr>)"

text \<open>The operations of \<open>nextClient\<close> that are given the entity.\<close>

definition entity_names :: "string list" where
  "entity_names = [''routes'', ''backends'', ''frontends'', ''apikeys'', ''drafts'', ''apis'', ''service-groups'',
     ''apisubscriptions'', ''route-templates'']"

definition nc_find :: "string \<Rightarrow> api_request" where
  "nc_find entity = fetchWrapper (''/'' @ entity) GET JUndef"

definition nc_findAll :: "string \<Rightarrow> page_state option \<Rightarrow> api_request" where
  "nc_findAll entity ps =
     (let p = (case ps of None \<Rightarrow> page_one | Some p \<Rightarrow> p);
          url = ''/'' @ entity @ ''?page='' @ (case ps_page p of None \<Rightarrow> ''undefined'' | Some n \<Rightarrow> nat_str n)
      in fetchWrapper (if counted (ps_pageSize p) = 0 then url else url @ ''&pageSize='' @ nat_str (counted (ps_pageSize p)))
           GET JUndef)"

definition nc_findAllWithPagination :: "string \<Rightarrow> page_state option \<Rightarrow> api_request" where
  "nc_findAllWithPagination entity ps = findAllWithPagination (''/'' @ entity) ps ''/bo/api/proxy/api/''"

definition nc_create :: "string \<Rightarrow> js \<Rightarrow> api_request" where
  "nc_create entity content = fetchWrapper (''/'' @ entity) POST content"

definition nc_update :: "string \<Rightarrow> js \<Rightarrow> api_request res" where
  "nc_update entity content =
     with_prop content ''id'' (\<lambda>i. fetchWrapper (''/'' @ entity @ ''/'' @ i) PUT content)"

definition nc_fetch :: "string \<Rightarrow> string \<Rightarrow> api_request" where
  "nc_fetch entity entityId = fetchWrapper (''/'' @ entity @ ''/'' @ entityId) GET JUndef"

definition nc_findById :: "string \<Rightarrow> string \<Rightarrow> api_request" where
  "nc_findById entity entityId = fetchWrapper (''/'' @ entity @ ''/'' @ entityId) GET JUndef"

definition nc_remove :: "string \<Rightarrow> js \<Rightarrow> api_request res" where
  "nc_remove entity content =
     with_prop content ''id'' (\<lambda>i. fetchWrapper (''/'' @ entity @ ''/'' @ i) DELETE JUndef)"

definition nc_deleteById :: "string \<Rightarrow> string \<Rightarrow> api_request" where
  "nc_deleteById entity i = fetchWrapper (''/'' @ entity @ ''/'' @ i) DELETE JUndef"

definition nc_template :: "string \<Rightarrow> api_request" where
  "nc_template entity = fetchWrapper (''/'' @ entity @ ''/_template'') GET JUndef"

definition nc_form :: "string \<Rightarrow> api_request" where
  "nc_form entity = fetchWrapper (''/'' @ entity @ ''/_form'') GET JUndef"

section \<open>The resource a request is for\<close>

text \<open>
  The URL parser of the platform, on a URL that starts with one slash. A dot may be written
  \<open>%2e\<close> in a dot segment.
\<close>

definition visible :: "char \<Rightarrow> bool" where
  "visible c \<longleftrightarrow> (32 :: nat) < of_char c"

definition strip_url :: "string \<Rightarrow> string" where
  "strip_url s = filter (\<lambda>c. (of_char c :: nat) \<notin> {9, 10, 13})
     (rev (dropWhile (\<lambda>c. \<not> visible c) (rev (dropWhile (\<lambda>c. \<not> visible c) s))))"

definition single_dot :: "string \<Rightarrow> bool" where
  "single_dot s \<longleftrightarrow> toLowerCase s \<in> {''.'', ''%2e''}"

definition double_dot :: "string \<Rightarrow> bool" where
  "double_dot s \<longleftrightarrow> toLowerCase s \<in> {''..'', ''.%2e'', ''%2e.'', ''%2e%2e''}"

fun resolve :: "string list \<Rightarrow> string list \<Rightarrow> string list" where
  "resolve st [] = rev st"
| "resolve st (s # ss) =
     (if double_dot s then resolve (if ss = [] then '''' # tl st else tl st) ss
      else if single_dot s then resolve (if ss = [] then '''' # st else st) ss
      else resolve (s # st) ss)"

definition slashes :: "string \<Rightarrow> string" where
  "slashes = map (\<lambda>c. if of_char c = (92 :: nat) then CHR ''/'' else c)"

definition url_path :: "string \<Rightarrow> string list" where
  "url_path url =
     resolve [] (split_on (CHR ''/'') (slashes (drop 1 (takeWhile (\<lambda>c. c \<noteq> CHR ''?'' \<and> c \<noteq> CHR ''#'') (strip_url url)))))"

text \<open>The query, as the list of its parameters; a name goes up to the first equals sign.\<close>

definition param :: "string \<Rightarrow> string \<times> string" where
  "param s = (takeWhile (\<lambda>c. c \<noteq> CHR ''='') s, drop 1 (dropWhile (\<lambda>c. c \<noteq> CHR ''='') s))"

definition url_query :: "string \<Rightarrow> (string \<times> string) list" where
  "url_query url =
     (case dropWhile (\<lambda>c. c \<noteq> CHR ''?'') (takeWhile (\<lambda>c. c \<noteq> CHR ''#'') (strip_url url)) of
        [] \<Rightarrow> []
      | q # qs \<Rightarrow> map param (filter (\<lambda>p. p \<noteq> []) (split_on (CHR ''&'') qs)))"

text \<open>The percent decoding of a server.\<close>

definition hex_value :: "char \<Rightarrow> nat option" where
  "hex_value c =
     (let n = of_char c :: nat in
      if n \<in> {48..57} then Some (n - 48) else if n \<in> {65..70} then Some (n - 55)
      else if n \<in> {97..102} then Some (n - 87) else None)"

fun percent_bytes :: "string \<Rightarrow> nat list" where
  "percent_bytes (p # a # b # s) =
     (if p = CHR ''%'' then
        (case (hex_value a, hex_value b) of
           (Some x, Some y) \<Rightarrow> (16 * x + y) # percent_bytes s
         | _ \<Rightarrow> of_char p # percent_bytes (a # b # s))
      else of_char p # percent_bytes (a # b # s))"
| "percent_bytes (p # s) = of_char p # percent_bytes s"
| "percent_bytes [] = []"

fun utf8_chars :: "nat list \<Rightarrow> nat list" where
  "utf8_chars (a # b # bs) =
     (if 192 \<le> a \<and> a < 224 then (64 * (a - 192) + (b - 128)) # utf8_chars bs else a # utf8_chars (b # bs))"
| "utf8_chars bs = bs"

definition percent_decode :: "string \<Rightarrow> string" where
  "percent_decode s = map char_of (utf8_chars (percent_bytes s))"

text \<open>
  A text that can be a segment of a path as it is: no character that ends a segment, a path or a
  URL or that a server decodes, nothing the parser drops, and not a dot segment.
\<close>

definition plain_char :: "char \<Rightarrow> bool" where
  "plain_char c \<longleftrightarrow> visible c \<and> c \<notin> set ''/?#%'' \<and> of_char c \<noteq> (92 :: nat)"

definition plain_seg :: "string \<Rightarrow> bool" where
  "plain_seg s \<longleftrightarrow> s \<noteq> [] \<and> list_all plain_char s \<and> \<not> single_dot s \<and> \<not> double_dot s"

definition url_of :: "string list \<Rightarrow> string" where
  "url_of ss = concat (map (\<lambda>s. ''/'' @ s) ss)"

end
