(* ===== verification/Api_Endpoints.thy ===== *)
theory Api_Endpoints
  imports Api_Client
begin

text \<open>
  The functions of \<open>services/BackOfficeServices.js\<close> that call one endpoint, in the order of the file.

  \<^item> The definition of a function is the request it sends, for the arguments it is given. One that
    reads the key of an entity (\<open>ak.id\<close>) throws when it is given no entity: it is an \<open>api_request res\<close>.
  \<^item> \<open>Json v\<close> is \<open>JSON.stringify(v)\<close>, a moment is its milliseconds, and a parameter that has a
    default (the 500 events, their ascending order) is given.
  \<^item> When the function does more with the answer than read it, a second definition says what.
\<close>

section \<open>The console itself\<close>

definition syncWithLeader :: "js \<Rightarrow> api_request" where
  "syncWithLeader config = send_json POST ''/bo/api/redis/sync'' config"

definition resetDB :: "api_request" where
  "resetDB = ask POST ''/bo/api/resetdb''"

text \<open>\<open>fetchLine\<close> throws whatever it is given.\<close>

definition fetchLine :: "string \<Rightarrow> api_request option" where
  "fetchLine lineId = None"

definition fetchBodiesFor :: "string \<Rightarrow> string \<Rightarrow> api_request" where
  "fetchBodiesFor serviceId requestId = ask GET (''/bo/api/bodies/'' @ serviceId @ ''/'' @ requestId)"

text \<open>What the console keeps of the last \<open>env\<close>, in the globals of the window.\<close>

record window_env =
  we_latest :: js
  we_tenant :: js
  we_superAdmin :: js
  we_tenantAdmin :: js

definition env_latest_init :: js where
  "env_latest_init = JObj [(''currentTenant'', JStr ''default''), (''userAdmin'', JBool False),
     (''bypassUserRightsCheck'', JBool False)]"

definition anonymousReporting :: "js \<Rightarrow> api_request" where
  "anonymousReporting enabled =
     (send_json POST ''/bo/api/_anonymous_reporting'' enabled)\<lparr>rq_reads := As_response\<rparr>"

definition env_request :: api_request where
  "env_request = ask GET ''/bo/api/env''"

text \<open>The globals are set one after the other: an answer without properties is kept before it throws.\<close>

definition env_answer :: "fetch_outcome \<Rightarrow> window_env \<Rightarrow> window_env \<times> js promised" where
  "env_answer a w =
     (case then_json a of
        Rejected \<Rightarrow> (w, Rejected)
      | Fulfilled env \<Rightarrow>
          if nullish env then (w\<lparr>we_latest := env\<rparr>, Rejected)
          else (w\<lparr>we_latest := env, we_tenant := jprop env ''currentTenant'', we_superAdmin := jprop env ''superAdmin'',
                  we_tenantAdmin := jprop env ''tenantAdmin''\<rparr>, Fulfilled env))"

section \<open>Quotas, cluster, snow monkey and events\<close>

definition version_request :: "api_request" where
  "version_request = ask GET ''/bo/api/version''"

definition fetchTunnels :: "api_request" where
  "fetchTunnels = ask GET ''/bo/api/proxy/api/tunnels''"

definition fetchClusterMembers :: "api_request" where
  "fetchClusterMembers = ask GET ''/bo/api/proxy/api/cluster/members''"

definition clearClusterMembers :: "api_request" where
  "clearClusterMembers = ask DELETE ''/bo/api/proxy/api/cluster/members''"

definition fetchSnowMonkeyOutages :: "api_request" where
  "fetchSnowMonkeyOutages = ask GET ''/bo/api/proxy/api/snowmonkey/outages''"

definition fetchSnowMonkeyConfig :: "api_request" where
  "fetchSnowMonkeyConfig = ask GET ''/bo/api/proxy/api/snowmonkey/config''"

definition updateSnowMonkeyConfig :: "js \<Rightarrow> api_request" where
  "updateSnowMonkeyConfig config = send_json PUT ''/bo/api/proxy/api/snowmonkey/config'' config"

definition startSnowMonkey :: "api_request" where
  "startSnowMonkey = ask POST ''/bo/api/proxy/api/snowmonkey/_start''"

definition stopSnowMonkey :: "api_request" where
  "stopSnowMonkey = ask POST ''/bo/api/proxy/api/snowmonkey/_stop''"

definition fetchRemainingApikeyQuotas :: "string \<Rightarrow> api_request" where
  "fetchRemainingApikeyQuotas clientId = ask GET (''/bo/api/proxy/api/apikeys/'' @ clientId @ ''/quotas'')"

definition resetRemainingApikeyQuotas :: "string \<Rightarrow> api_request" where
  "resetRemainingApikeyQuotas clientId = ask DELETE (''/bo/api/proxy/api/apikeys/'' @ clientId @ ''/quotas'')"

definition fetchRemainingQuotas :: "string \<Rightarrow> string \<Rightarrow> api_request" where
  "fetchRemainingQuotas groupId clientId =
     ask GET (''/bo/api/proxy/api/groups/'' @ groupId @ ''/apikeys/'' @ clientId @ ''/quotas'')"

definition resetRemainingQuotas :: "string \<Rightarrow> string \<Rightarrow> api_request" where
  "resetRemainingQuotas groupId clientId =
     ask DELETE (''/bo/api/proxy/api/groups/'' @ groupId @ ''/apikeys/'' @ clientId @ ''/quotas'')"

definition fetchServiceEvents :: "string \<Rightarrow> nat \<Rightarrow> nat \<Rightarrow> nat \<Rightarrow> string \<Rightarrow> api_request" where
  "fetchServiceEvents serviceId start until limit order =
     ask GET (''/bo/api/proxy/api/services/'' @ serviceId @ ''/events?from='' @ nat_str start @ ''&to='' @
       nat_str until @ ''&pageSize='' @ nat_str limit @ ''&order='' @ order)"

definition fetchGlobalEvents :: "nat \<Rightarrow> nat \<Rightarrow> nat \<Rightarrow> string \<Rightarrow> api_request" where
  "fetchGlobalEvents start until limit order =
     ask GET (''/bo/api/proxy/api/events?from='' @ nat_str start @ ''&to='' @ nat_str until @
       ''&pageSize='' @ nat_str limit @ ''&order='' @ order)"

definition fetchServiceStats :: "string \<Rightarrow> nat \<Rightarrow> nat \<Rightarrow> api_request" where
  "fetchServiceStats serviceId start until =
     ask GET (''/bo/api/proxy/api/services/'' @ serviceId @ ''/stats?from='' @ nat_str start @ ''&to='' @ nat_str until)"

text \<open>
  \<open>then(onAnswer, onError)\<close>: the second function does not see what the first one throws, so that an
  answer of status 200 that is not JSON is a rejection. \<open>stats_answer\<close> is the same in both functions.
\<close>

definition stats_answer :: "fetch_outcome \<Rightarrow> js promised" where
  "stats_answer a =
     (case a of
        Unreachable \<Rightarrow> Fulfilled (JObj [])
      | Answer r \<Rightarrow> if rs_status r = 200 then read_json r else Fulfilled (JObj []))"

definition fetchGlobalStats :: "nat \<Rightarrow> nat \<Rightarrow> api_request" where
  "fetchGlobalStats start until =
     ask GET (''/bo/api/proxy/api/stats/global?from='' @ nat_str start @ ''&to='' @ nat_str until)"

definition fetchGlobalStatus :: "nat \<Rightarrow> nat \<Rightarrow> api_request" where
  "fetchGlobalStatus page limit =
     ask GET (''/bo/api/proxy/api/status/global?&pageSize='' @ nat_str limit @ ''&page='' @ nat_str page)"

text \<open>The count is the text of the header, or the number 0; reading the text of an answer does not fail.\<close>

definition status_error :: "string \<Rightarrow> js" where
  "status_error msg = JObj [(''status'', JArr []), (''count'', JNum 0), (''error'', JStr msg)]"

definition global_status_answer :: "fetch_outcome \<Rightarrow> js promised" where
  "global_status_answer a =
     (case a of
        Unreachable \<Rightarrow> Fulfilled (status_error ''error while fetching global stats'')
      | Answer r \<Rightarrow>
          if rs_status r = 200 then
            (let count = (case rs_headers r ''X-Count'' of Some (c # s) \<Rightarrow> JStr (c # s) | _ \<Rightarrow> JNum 0) in
             case rs_json r of
               None \<Rightarrow> Rejected
             | Some status \<Rightarrow> Fulfilled (JObj [(''status'', status), (''count'', count)]))
          else Fulfilled (status_error ''bad status while fetching global stats''))"

definition fetchServiceStatus :: "string \<Rightarrow> api_request" where
  "fetchServiceStatus serviceId = ask GET (''/bo/api/proxy/api/services/'' @ serviceId @ ''/status'')"

text \<open>Here a \<open>catch\<close> ends the chain, and it also sees an answer that is not JSON.\<close>

definition status_answer :: "fetch_outcome \<Rightarrow> js promised" where
  "status_answer a =
     (case a of
        Unreachable \<Rightarrow> Fulfilled (JArr [])
      | Answer r \<Rightarrow>
          if rs_status r \<noteq> 200 then Fulfilled (JArr [])
          else (case rs_json r of None \<Rightarrow> Fulfilled (JArr []) | Some v \<Rightarrow> Fulfilled v))"

definition fetchServicesStatus :: "js \<Rightarrow> api_request" where
  "fetchServicesStatus servicesIds = send_json POST ''/bo/api/proxy/api/status'' servicesIds"

definition fetchServiceResponseTime :: "string \<Rightarrow> api_request" where
  "fetchServiceResponseTime serviceId = ask GET (''/bo/api/proxy/api/services/'' @ serviceId @ ''/response'')"

section \<open>API keys, global configuration and groups\<close>

definition fetchLines :: "js promised" where
  "fetchLines = Fulfilled (JArr [JStr ''prod''])"

definition fetchApiKeysForPage :: "string \<Rightarrow> api_request" where
  "fetchApiKeysForPage serviceId = ask GET (''/bo/api/apikeys-for/'' @ serviceId)"

definition fetchAllApikeys :: "page_state option \<Rightarrow> api_request" where
  "fetchAllApikeys paginationState = findAllWithPagination ''/bo/api/proxy/api/apikeys'' paginationState []"

text \<open>
  The keys of a route or of an API. A parent that is not given is \<open>undefined\<close> (\<open>None\<close>); the
  empty text is not truthy either, but it prints as itself.
\<close>

definition given :: "string option \<Rightarrow> bool" where
  "given p \<longleftrightarrow> p \<noteq> None \<and> p \<noteq> Some []"

definition parent_text :: "string option \<Rightarrow> string" where
  "parent_text p = (case p of None \<Rightarrow> ''undefined'' | Some s \<Rightarrow> s)"

definition route_keys :: "string option \<Rightarrow> string" where
  "route_keys routeId = ''/bo/api/proxy/api/routes/'' @ parent_text routeId @ ''/apikeys''"

definition api_keys :: "string option \<Rightarrow> string" where
  "api_keys apiId = ''/bo/api/proxy/apis/apis.otoroshi.io/v1/apis/'' @ parent_text apiId @ ''/apikeys''"

definition deleteApiKey :: "string option \<Rightarrow> string option \<Rightarrow> js \<Rightarrow> api_request res" where
  "deleteApiKey routeId apiId ak =
     with_prop ak ''clientId'' (\<lambda>i.
       ask DELETE ((if given routeId then route_keys routeId else api_keys apiId) @ ''/'' @ i))"

definition getBearer :: "string \<Rightarrow> string \<Rightarrow> api_request" where
  "getBearer clientId clientSecret =
     ask GET (''/bo/api/proxy/api/apikeys/'' @ clientId @ ''/bearer?newSecret='' @ clientSecret)"

definition createApiKey :: "string option \<Rightarrow> string option \<Rightarrow> js \<Rightarrow> api_request" where
  "createApiKey routeId apiId ak = send_json POST (if given apiId then api_keys apiId else route_keys routeId) ak"

definition createRawApiKey :: "js \<Rightarrow> api_request" where
  "createRawApiKey ak = send_json POST ''/bo/api/proxy/api/apikeys'' ak"

definition updateApiKey :: "string option \<Rightarrow> string option \<Rightarrow> js \<Rightarrow> api_request res" where
  "updateApiKey routeId apiId ak =
     with_prop ak ''clientId'' (\<lambda>i.
       send_json PUT ((if given apiId then api_keys apiId else route_keys routeId) @ ''/'' @ i) ak)"

definition updateRawApiKey :: "js \<Rightarrow> api_request res" where
  "updateRawApiKey ak =
     with_prop ak ''clientId'' (\<lambda>i. send_json PUT (''/bo/api/proxy/api/apikeys/'' @ i) ak)"

definition fetchStandaloneApiKey :: "string \<Rightarrow> api_request" where
  "fetchStandaloneApiKey clientId = ask GET (''/bo/api/proxy/api/apikeys/'' @ clientId)"

definition deleteStandaloneApiKey :: "js \<Rightarrow> api_request res" where
  "deleteStandaloneApiKey ak =
     with_prop ak ''clientId'' (\<lambda>i. ask DELETE (''/bo/api/proxy/api/apikeys/'' @ i))"

definition createStandaloneApiKey :: "js \<Rightarrow> api_request" where
  "createStandaloneApiKey ak = send_json POST ''/bo/api/proxy/api/apikeys'' ak"

definition updateStandaloneApiKey :: "js \<Rightarrow> api_request res" where
  "updateStandaloneApiKey ak =
     with_prop ak ''clientId'' (\<lambda>i. send_json PUT (''/bo/api/proxy/api/apikeys/'' @ i) ak)"

definition getGlobalConfig :: "string list option \<Rightarrow> api_request" where
  "getGlobalConfig fs =
     ask GET (case fs of
        None \<Rightarrow> ''/bo/api/proxy/api/globalconfig''
      | Some names \<Rightarrow> ''/bo/api/proxy/api/globalconfig'' @ ''?fields='' @ join '','' names)"

definition updateGlobalConfig :: "js \<Rightarrow> api_request" where
  "updateGlobalConfig gc = send_json PUT ''/bo/api/proxy/api/globalconfig'' gc"

definition findServicesForGroup :: "js \<Rightarrow> api_request res" where
  "findServicesForGroup grp =
     with_prop grp ''id'' (\<lambda>i. ask GET (''/bo/api/proxy/api/groups/'' @ i @ ''/services''))"

definition findAllGroups :: "page_state option \<Rightarrow> api_request" where
  "findAllGroups paginationState = findAllWithPagination ''/bo/api/proxy/api/groups'' paginationState []"

definition findGroupById :: "string \<Rightarrow> api_request" where
  "findGroupById eid = ask GET (''/bo/api/proxy/api/groups/'' @ eid)"

definition deleteGroup :: "js \<Rightarrow> api_request res" where
  "deleteGroup ak = with_prop ak ''id'' (\<lambda>i. ask DELETE (''/bo/api/proxy/api/groups/'' @ i))"

definition createGroup :: "js \<Rightarrow> api_request" where
  "createGroup ak = send_json POST ''/bo/api/proxy/api/groups'' ak"

definition updateGroup :: "js \<Rightarrow> api_request res" where
  "updateGroup ak = with_prop ak ''id'' (\<lambda>i. send_json PUT (''/bo/api/proxy/api/groups/'' @ i) ak)"

section \<open>Eureka, sessions and loggers\<close>

definition findAllApps :: "api_request" where
  "findAllApps = ask GET ''/bo/api/apps''"

definition findAllEurekaServers :: "api_request" where
  "findAllEurekaServers = ask GET ''/bo/api/eureka-servers''"

definition getEurekaApps :: "string \<Rightarrow> api_request" where
  "getEurekaApps eurekaServerId = ask GET (''/bo/api/eureka-servers/'' @ eurekaServerId @ ''/apps'')"

definition getExternalEurekaServers :: "string \<Rightarrow> api_request" where
  "getExternalEurekaServers url = ask GET (''/bo/api/external-eureka-servers?url='' @ url)"

definition discardAllSessions :: "api_request" where
  "discardAllSessions = ask DELETE ''/bo/api/proxy/api/admin-sessions''"

definition discardSession :: "string \<Rightarrow> api_request" where
  "discardSession eid = ask DELETE (''/bo/api/proxy/api/admin-sessions/'' @ eid)"

definition fetchSessions :: "page_state option \<Rightarrow> api_request" where
  "fetchSessions paginateState = findAllWithPagination ''/bo/api/proxy/api/admin-sessions'' paginateState []"

definition discardAllPrivateAppsSessions :: "api_request" where
  "discardAllPrivateAppsSessions = ask DELETE ''/bo/api/proxy/api/apps-sessions''"

definition discardAllPrivateAppsSessionsFor :: "string \<Rightarrow> api_request" where
  "discardAllPrivateAppsSessionsFor authId = ask DELETE (''/bo/api/proxy/api/apps-sessions-module/'' @ authId)"

definition discardPrivateAppsSession :: "string \<Rightarrow> api_request" where
  "discardPrivateAppsSession eid = ask DELETE (''/bo/api/proxy/api/apps-sessions/'' @ eid)"

definition fetchPrivateAppsSessions :: "page_state option \<Rightarrow> api_request" where
  "fetchPrivateAppsSessions paginationState =
     findAllWithPagination ''/bo/api/proxy/api/apps-sessions'' paginationState []"

definition panicMode :: "api_request" where
  "panicMode = (ask POST ''/bo/api/panic'')\<lparr>rq_type := None, rq_body := Some (Raw ''{}'')\<rparr>"

text \<open>The administrators of the two stores are asked for one after the other.\<close>

definition fetchAdmins :: "page_state option \<Rightarrow> api_request list" where
  "fetchAdmins ps = [findAllWithPagination ''/bo/api/proxy/api/admins/simple'' ps [],
     ask GET ''/bo/api/proxy/api/admins/webauthn'']"

definition typed :: "string \<Rightarrow> js \<Rightarrow> js" where
  "typed t admin = JObj (AList.update ''type'' (JStr t) (entries admin))"

definition js_list :: "js \<Rightarrow> js list option" where
  "js_list v = (case v of JArr xs \<Rightarrow> Some xs | _ \<Rightarrow> None)"

definition admins_answer :: "fetch_outcome \<Rightarrow> fetch_outcome \<Rightarrow> js list promised" where
  "admins_answer a b =
     (case page_answer a of
        Rejected \<Rightarrow> Rejected
      | Fulfilled p \<Rightarrow>
          (case then_json b of
             Rejected \<Rightarrow> Rejected
           | Fulfilled w \<Rightarrow>
               (case (js_list (pa_data p), js_list w) of
                  (Some simple, Some webauthn) \<Rightarrow>
                    Fulfilled (map (typed ''WEBAUTHN'') webauthn @ map (typed ''SIMPLE'') simple)
                | _ \<Rightarrow> Rejected)))"

text \<open>For another type nothing is sent.\<close>

definition discardAdmin :: "string \<Rightarrow> string \<Rightarrow> js \<Rightarrow> api_request option" where
  "discardAdmin username eid ekind =
     (if ekind = JStr ''SIMPLE'' then Some (ask DELETE (''/bo/api/proxy/api/admins/simple/'' @ username))
      else if ekind = JStr ''WEBAUTHN''
      then Some (ask DELETE (''/bo/api/proxy/api/admins/webauthn/'' @ username @ ''/'' @ eid))
      else None)"

definition fetchOtoroshi :: "string option \<Rightarrow> api_request" where
  "fetchOtoroshi ctype =
     (ask GET ''/bo/api/proxy/api/otoroshi.json'')\<lparr>
       rq_accept := (if given ctype then ctype else Some app_json),
       rq_reads := (if ctype = Some app_json then As_json else As_text)\<rparr>"

definition fetchAuditEvents :: "api_request" where
  "fetchAuditEvents = ask GET ''/bo/api/events/audit''"

definition fetchAlertEvents :: "api_request" where
  "fetchAlertEvents = ask GET ''/bo/api/events/alert''"

definition fetchLoggers :: "api_request" where
  "fetchLoggers = ask GET ''/bo/api/loggers''"

definition changeLogLevel :: "string \<Rightarrow> string \<Rightarrow> api_request" where
  "changeLogLevel logger level =
     (ask PUT (''/bo/api/loggers/'' @ logger @ ''/level?newLevel='' @
       level))\<lparr>rq_type := None, rq_body := Some (Raw ''{}'')\<rparr>"

section \<open>JWT verifiers and authentication modules\<close>

definition findAllJwtVerifiers :: "page_state option \<Rightarrow> api_request" where
  "findAllJwtVerifiers paginationState =
     findAllWithPagination ''/bo/api/proxy/api/verifiers'' paginationState []"

definition findAllEvents :: "page_state option \<Rightarrow> string \<Rightarrow> nat \<Rightarrow> nat \<Rightarrow> nat \<Rightarrow> string \<Rightarrow> api_request" where
  "findAllEvents paginationState serviceId start until limit order =
     findAllWithPagination (''/bo/api/proxy/api/services/'' @ serviceId @ ''/events?from='' @ nat_str start @
       ''&to='' @ nat_str until @ ''&pageSize='' @ nat_str limit @ ''&order='' @ order) paginationState []"

definition findJwtVerifierById :: "string \<Rightarrow> api_request" where
  "findJwtVerifierById eid = ask GET (''/bo/api/proxy/api/verifiers/'' @ eid)"

definition deleteJwtVerifier :: "js \<Rightarrow> api_request res" where
  "deleteJwtVerifier ak = with_prop ak ''id'' (\<lambda>i. ask DELETE (''/bo/api/proxy/api/verifiers/'' @ i))"

definition createJwtVerifier :: "js \<Rightarrow> api_request" where
  "createJwtVerifier ak = send_json POST ''/bo/api/proxy/api/verifiers'' ak"

definition updateJwtVerifier :: "js \<Rightarrow> api_request res" where
  "updateJwtVerifier ak =
     with_prop ak ''id'' (\<lambda>i. send_json PUT (''/bo/api/proxy/api/verifiers/'' @ i) ak)"

definition findAllAuthConfigs :: "page_state option \<Rightarrow> api_request" where
  "findAllAuthConfigs paginationState = findAllWithPagination ''/bo/api/proxy/api/auths'' paginationState []"

definition findAuthConfigById :: "string \<Rightarrow> api_request" where
  "findAuthConfigById eid = ask GET (''/bo/api/proxy/api/auths/'' @ eid)"

definition findAuthConfigs :: "api_request" where
  "findAuthConfigs = ask GET ''/bo/api/proxy/api/auths''"

definition deleteAuthConfig :: "js \<Rightarrow> api_request res" where
  "deleteAuthConfig ak = with_prop ak ''id'' (\<lambda>i. ask DELETE (''/bo/api/proxy/api/auths/'' @ i))"

definition createAuthConfig :: "js \<Rightarrow> api_request" where
  "createAuthConfig ak = send_json POST ''/bo/api/proxy/api/auths'' ak"

definition getAuthModuleTypes :: "api_request" where
  "getAuthModuleTypes = ask GET ''/bo/api/proxy/api/auths/templates''"

definition createNewAuthConfig :: "string \<Rightarrow> api_request" where
  "createNewAuthConfig kind = ask GET (''/bo/api/proxy/api/auths/_template?mod-type='' @ kind)"

definition updateAuthConfig :: "js \<Rightarrow> api_request res" where
  "updateAuthConfig ak = with_prop ak ''id'' (\<lambda>i. send_json PUT (''/bo/api/proxy/api/auths/'' @ i) ak)"

section \<open>Certificates\<close>

definition findAllCertificates :: "page_state option \<Rightarrow> api_request" where
  "findAllCertificates paginationState =
     findAllWithPagination ''/bo/api/proxy/api/certificates'' paginationState []"

definition findCertificateById :: "string \<Rightarrow> api_request" where
  "findCertificateById eid = ask GET (''/bo/api/proxy/api/certificates/'' @ eid)"

definition deleteCertificate :: "js \<Rightarrow> api_request res" where
  "deleteCertificate ak =
     with_prop ak ''id'' (\<lambda>i. ask DELETE (''/bo/api/proxy/api/certificates/'' @ i))"

definition createCertificate :: "js \<Rightarrow> api_request" where
  "createCertificate ak = send_json POST ''/bo/api/proxy/api/certificates'' ak"

definition updateCertificate :: "js \<Rightarrow> api_request res" where
  "updateCertificate ak =
     with_prop ak ''id'' (\<lambda>i. send_json PUT (''/bo/api/proxy/api/certificates/'' @ i) ak)"

definition certData :: "string \<Rightarrow> api_request" where
  "certData chain =
     (ask POST ''/bo/api/certificates/_data'')
       \<lparr>rq_type := Some ''text/plain'', rq_body := Some (Raw chain)\<rparr>"

definition certValid :: "js \<Rightarrow> api_request" where
  "certValid cert = send_json POST ''/bo/api/certificates/_valid'' cert"

definition selfSignedCert :: "js \<Rightarrow> api_request" where
  "selfSignedCert host = send_json POST ''/bo/api/certificates/_selfSigned'' (JObj [(''host'', host)])"

definition selfSignedClientCert :: "js \<Rightarrow> api_request" where
  "selfSignedClientCert dn = send_json POST ''/bo/api/certificates/_selfSignedClient'' (JObj [(''dn'', dn)])"

definition importP12 :: "string \<Rightarrow> string \<Rightarrow> string \<Rightarrow> api_request" where
  "importP12 password content client =
     (ask POST (''/bo/api/certificates/_importP12?password='' @ password @ ''&client='' @ client @
       ''&many=false''))
       \<lparr>rq_type := Some ''application/octet-stream'', rq_body := Some (Raw content)\<rparr>"

definition letsEncryptCert :: "js \<Rightarrow> api_request" where
  "letsEncryptCert host = send_json POST ''/bo/api/certificates/_letsencrypt'' (JObj [(''host'', host)])"

definition caSignedCert :: "js \<Rightarrow> js \<Rightarrow> api_request" where
  "caSignedCert eid host =
     send_json POST ''/bo/api/certificates/_caSigned'' (JObj [(''id'', eid), (''host'', host)])"

definition caSignedClientCert :: "js \<Rightarrow> js \<Rightarrow> api_request" where
  "caSignedClientCert eid dn =
     send_json POST ''/bo/api/certificates/_caSignedClient'' (JObj [(''id'', eid), (''dn'', dn)])"

definition caCert :: "js \<Rightarrow> api_request" where
  "caCert cn = send_json POST ''/bo/api/certificates/_ca'' (JObj [(''cn'', cn)])"

definition createCertificateFromForm :: "js \<Rightarrow> api_request" where
  "createCertificateFromForm form = send_json POST ''/bo/api/certificates/_createCertificate'' form"

definition createCSR :: "js \<Rightarrow> api_request" where
  "createCSR form = send_json POST ''/bo/api/certificates/_createCSR'' form"

definition renewCert :: "string \<Rightarrow> api_request" where
  "renewCert eid =
     (ask POST (''/bo/api/certificates/'' @ eid @
       ''/_renew''))\<lparr>rq_type := Some app_json, rq_body := Some (Raw '''')\<rparr>"

section \<open>Client validators, scripts, TCP services and error templates\<close>

definition findAllClientValidators :: "api_request" where
  "findAllClientValidators = ask GET ''/bo/api/proxy/api/client-validators''"

definition findClientValidatorById :: "string \<Rightarrow> api_request" where
  "findClientValidatorById eid = ask GET (''/bo/api/proxy/api/client-validators/'' @ eid)"

definition deleteClientValidator :: "js \<Rightarrow> api_request res" where
  "deleteClientValidator ak =
     with_prop ak ''id'' (\<lambda>i. ask DELETE (''/bo/api/proxy/api/client-validators/'' @ i))"

definition createClientValidator :: "js \<Rightarrow> api_request" where
  "createClientValidator ak = send_json POST ''/bo/api/proxy/api/client-validators'' ak"

definition updateClientValidator :: "js \<Rightarrow> api_request res" where
  "updateClientValidator ak =
     with_prop ak ''id'' (\<lambda>i. send_json PUT (''/bo/api/proxy/api/client-validators/'' @ i) ak)"

definition findAllScripts :: "api_request" where
  "findAllScripts = ask GET ''/bo/api/proxy/api/scripts''"

definition findScriptById :: "string \<Rightarrow> api_request" where
  "findScriptById eid = ask GET (''/bo/api/proxy/api/scripts/'' @ eid)"

definition deleteScript :: "js \<Rightarrow> api_request res" where
  "deleteScript ak = with_prop ak ''id'' (\<lambda>i. ask DELETE (''/bo/api/proxy/api/scripts/'' @ i))"

definition createScript :: "js \<Rightarrow> api_request" where
  "createScript ak = send_json POST ''/bo/api/proxy/api/scripts'' ak"

definition compileScript :: "js \<Rightarrow> api_request" where
  "compileScript ak = send_json POST ''/bo/api/proxy/api/scripts/_compile'' ak"

definition updateScript :: "js \<Rightarrow> api_request res" where
  "updateScript ak = with_prop ak ''id'' (\<lambda>i. send_json PUT (''/bo/api/proxy/api/scripts/'' @ i) ak)"

definition fetchStats :: "string \<Rightarrow> string \<Rightarrow> nat \<Rightarrow> nat \<Rightarrow> nat \<Rightarrow> api_request" where
  "fetchStats kind eid start until limit =
     ask GET (''/bo/api/proxy/api/stats?'' @ kind @ ''='' @ eid @ ''&from='' @ nat_str start @ ''&to='' @
       nat_str until @ ''&pageSize='' @ nat_str limit)"

definition findAllTcpServices :: "page_state option \<Rightarrow> api_request" where
  "findAllTcpServices paginationState =
     findAllWithPagination ''/bo/api/proxy/api/tcp/services'' paginationState []"

definition findTcpServiceById :: "string \<Rightarrow> api_request" where
  "findTcpServiceById eid = ask GET (''/bo/api/proxy/api/tcp/services/'' @ eid)"

definition deleteTcpService :: "js \<Rightarrow> api_request res" where
  "deleteTcpService ak = with_prop ak ''id'' (\<lambda>i. ask DELETE (''/bo/api/proxy/api/tcp/services/'' @ i))"

definition createTcpService :: "js \<Rightarrow> api_request" where
  "createTcpService ak = send_json POST ''/bo/api/proxy/api/tcp/services'' ak"

definition createNewTcpService :: "api_request" where
  "createNewTcpService = ask GET ''/bo/api/proxy/api/new/tcp/service ''"

definition updateTcpService :: "js \<Rightarrow> api_request res" where
  "updateTcpService ak =
     with_prop ak ''id'' (\<lambda>i. send_json PUT (''/bo/api/proxy/api/tcp/services/'' @ i) ak)"

definition findAllRoutesWithPagination :: "page_state option \<Rightarrow> api_request" where
  "findAllRoutesWithPagination ps = findAllWithPagination ''/bo/api/proxy/api/routes'' ps []"

definition findAllErrorTemplatesWithPagination :: "page_state option \<Rightarrow> api_request" where
  "findAllErrorTemplatesWithPagination ps = findAllWithPagination ''/bo/api/proxy/api/error-templates'' ps []"

definition findAllErrorTemplates :: "api_request" where
  "findAllErrorTemplates = ask GET ''/bo/api/proxy/api/error-templates''"

definition findErrorTemplateById :: "string \<Rightarrow> api_request" where
  "findErrorTemplateById eid = ask GET (''/bo/api/proxy/api/error-templates/'' @ eid)"

definition deleteErrorTemplate :: "js \<Rightarrow> api_request res" where
  "deleteErrorTemplate ak =
     with_prop ak ''serviceId'' (\<lambda>i. ask DELETE (''/bo/api/proxy/api/error-templates/'' @ i))"

definition createErrorTemplate :: "js \<Rightarrow> api_request" where
  "createErrorTemplate ak = send_json POST ''/bo/api/proxy/api/error-templates'' ak"

definition updateErrorTemplate :: "js \<Rightarrow> api_request res" where
  "updateErrorTemplate ak =
     with_prop ak ''serviceId'' (\<lambda>i. send_json PUT (''/bo/api/proxy/api/error-templates/'' @ i) ak)"

section \<open>Teams, plugins, tenants and administrators\<close>

definition findAllTeamsWithPagination :: "page_state option \<Rightarrow> api_request" where
  "findAllTeamsWithPagination ps = findAllWithPagination ''/bo/api/proxy/api/teams'' ps []"

definition findAllTeams :: "api_request" where
  "findAllTeams = ask GET ''/bo/api/proxy/api/teams''"

definition findTeamById :: "string \<Rightarrow> api_request" where
  "findTeamById eid = ask GET (''/bo/api/proxy/api/teams/'' @ eid)"

definition deleteTeam :: "js \<Rightarrow> api_request res" where
  "deleteTeam ak = with_prop ak ''id'' (\<lambda>i. ask DELETE (''/bo/api/proxy/api/teams/'' @ i))"

definition createTeam :: "js \<Rightarrow> api_request" where
  "createTeam ak = send_json POST ''/bo/api/proxy/api/teams'' ak"

definition createNewTeam :: "api_request" where
  "createNewTeam = ask GET ''/bo/api/proxy/api/teams/_template''"

definition updateTeam :: "js \<Rightarrow> api_request res" where
  "updateTeam ak = with_prop ak ''id'' (\<lambda>i. send_json PUT (''/bo/api/proxy/api/teams/'' @ i) ak)"

definition findAllWasmPluginsWithPagination :: "page_state option \<Rightarrow> api_request" where
  "findAllWasmPluginsWithPagination ps =
     findAllWithPagination ''/bo/api/proxy/apis/plugins.otoroshi.io/v1/wasm-plugins'' ps []"

definition findAllWasmPlugins :: "api_request" where
  "findAllWasmPlugins = ask GET ''/bo/api/proxy/apis/plugins.otoroshi.io/v1/wasm-plugins''"

definition findWasmPluginById :: "string \<Rightarrow> api_request" where
  "findWasmPluginById eid = ask GET (''/bo/api/proxy/apis/plugins.otoroshi.io/v1/wasm-plugins/'' @ eid)"

definition deleteWasmPlugin :: "js \<Rightarrow> api_request res" where
  "deleteWasmPlugin ak =
     with_prop ak ''id'' (\<lambda>i. ask DELETE (''/bo/api/proxy/apis/plugins.otoroshi.io/v1/wasm-plugins/'' @ i))"

definition createWasmPlugin :: "js \<Rightarrow> api_request" where
  "createWasmPlugin ak = send_json POST ''/bo/api/proxy/apis/plugins.otoroshi.io/v1/wasm-plugins'' ak"

definition createNewWasmPlugin :: "api_request" where
  "createNewWasmPlugin = ask GET ''/bo/api/proxy/apis/plugins.otoroshi.io/v1/wasm-plugins/_template''"

definition updateWasmPlugin :: "js \<Rightarrow> api_request res" where
  "updateWasmPlugin ak =
     with_prop ak ''id'' (\<lambda>i. send_json PUT (''/bo/api/proxy/apis/plugins.otoroshi.io/v1/wasm-plugins/'' @ i) ak)"

definition findAllTenantsWithPagination :: "page_state option \<Rightarrow> api_request" where
  "findAllTenantsWithPagination ps = findAllWithPagination ''/bo/api/proxy/api/tenants'' ps []"

definition findAllTenants :: "api_request" where
  "findAllTenants = ask GET ''/bo/api/proxy/api/tenants''"

definition findTenantById :: "string \<Rightarrow> api_request" where
  "findTenantById eid = ask GET (''/bo/api/proxy/api/tenants/'' @ eid)"

definition deleteTenant :: "js \<Rightarrow> api_request res" where
  "deleteTenant ak = with_prop ak ''id'' (\<lambda>i. ask DELETE (''/bo/api/proxy/api/tenants/'' @ i))"

definition createTenant :: "js \<Rightarrow> api_request" where
  "createTenant ak = send_json POST ''/bo/api/proxy/api/tenants'' ak"

definition createNewTenant :: "api_request" where
  "createNewTenant = ask GET ''/bo/api/proxy/api/tenants/_template''"

definition updateTenant :: "js \<Rightarrow> api_request res" where
  "updateTenant ak = with_prop ak ''id'' (\<lambda>i. send_json PUT (''/bo/api/proxy/api/tenants/'' @ i) ak)"

definition updateSimpleAdmin :: "js \<Rightarrow> api_request res" where
  "updateSimpleAdmin user =
     with_prop user ''username'' (\<lambda>i. send_json PUT (''/bo/api/proxy/api/admins/simple/'' @ i) user)"

definition updateWebAuthnAdmin :: "js \<Rightarrow> api_request res" where
  "updateWebAuthnAdmin user =
     with_prop user ''username'' (\<lambda>i. send_json PUT (''/bo/api/proxy/api/admins/webauthn/'' @ i) user)"

section \<open>Data exporters, templates and tools\<close>

definition createNewDataExporterConfig :: "string \<Rightarrow> api_request" where
  "createNewDataExporterConfig ekind =
     ask GET (''/bo/api/proxy/api/data-exporter-configs/_template?type='' @ ekind)"

definition findAllDataExporterConfigs :: "page_state option \<Rightarrow> api_request" where
  "findAllDataExporterConfigs paginationState =
     findAllWithPagination ''/bo/api/proxy/api/data-exporter-configs'' paginationState []"

definition findDataExporterConfigById :: "string \<Rightarrow> api_request" where
  "findDataExporterConfigById eid = ask GET (''/bo/api/proxy/api/data-exporter-configs/'' @ eid)"

definition deleteDataExporterConfig :: "js \<Rightarrow> api_request res" where
  "deleteDataExporterConfig ak =
     with_prop ak ''id'' (\<lambda>i. ask DELETE (''/bo/api/proxy/api/data-exporter-configs/'' @ i))"

definition createDataExporterConfig :: "js \<Rightarrow> api_request" where
  "createDataExporterConfig ak = send_json POST ''/bo/api/proxy/api/data-exporter-configs'' ak"

definition updateDataExporterConfig :: "js \<Rightarrow> api_request res" where
  "updateDataExporterConfig ak =
     with_prop ak ''id'' (\<lambda>i. send_json PUT (''/bo/api/proxy/api/data-exporter-configs/'' @ i) ak)"

definition createNewJwtVerifier :: "api_request" where
  "createNewJwtVerifier = ask GET ''/bo/api/proxy/api/verifiers/_template''"

definition createNewCertificate :: "api_request" where
  "createNewCertificate = ask GET ''/bo/api/proxy/api/certificates/_template''"

definition createNewGroup :: "api_request" where
  "createNewGroup = ask GET ''/bo/api/proxy/api/groups/_template''"

definition createNewScript :: "api_request" where
  "createNewScript = ask GET ''/bo/api/proxy/api/scripts/_template''"

definition createNewApikey :: "api_request" where
  "createNewApikey = ask GET ''/bo/api/proxy/api/apikeys/_template''"

text \<open>A text that starts as JSON does is parsed, and \<open>JSON.parse\<close> (\<open>parse\<close> here) throws when it is not.\<close>

definition createResources :: "(string \<Rightarrow> js option) \<Rightarrow> string \<Rightarrow> api_request option" where
  "createResources parse resources =
     map_option (\<lambda>v. send_json POST ''/bo/api/proxy/api/new/resources'' (JObj [(''content'', v)]))
       (if take 1 resources \<in> {''['', ''{''} then parse resources else Some (JStr resources))"

definition tryIt :: "js \<Rightarrow> string \<Rightarrow> api_request" where
  "tryIt content entity =
     (send_json POST (''/bo/api/tryit?entity='' @ entity) content)\<lparr>rq_reads := As_response\<rparr>"

definition kafkaDataExportertryIt :: "js \<Rightarrow> api_request" where
  "kafkaDataExportertryIt content =
     (send_json POST ''/bo/api/data-exporter/kafkatryit'' content)\<lparr>rq_reads := As_response\<rparr>"

text \<open>These three give no option to \<open>fetch\<close>.\<close>

definition routeEntries :: "string \<Rightarrow> api_request" where
  "routeEntries routeId = plain_fetch (''/bo/api/routes/'' @ routeId @ ''/entries'')"

definition routePorts :: api_request where
  "routePorts = plain_fetch ''/bo/api/env/ports ''"

definition graphQLTryIt :: "string \<Rightarrow> api_request" where
  "graphQLTryIt url = plain_fetch (''/bo/api/graphqlproxy?url='' @ url)"

definition searchNextServices :: "string \<Rightarrow> api_request" where
  "searchNextServices query =
     (send_json POST ''/bo/api/search/next/services'' (JObj [(''query'', JStr (trim query))]))\<lparr>rq_reads := As_response\<rparr>"

definition graphqlSchemaToJson :: "js \<Rightarrow> api_request" where
  "graphqlSchemaToJson schema = send_json POST ''/bo/api/graphql_to_json'' (JObj [(''schema'', schema)])"

definition jsonToGraphqlSchema :: "js \<Rightarrow> js \<Rightarrow> api_request" where
  "jsonToGraphqlSchema schema types =
     send_json POST ''/bo/api/json_to_graphql_schema'' (JObj [(''schema'', schema), (''types'', types)])"

definition findDraftsByKind :: "string \<Rightarrow> api_request" where
  "findDraftsByKind kind =
     (plain_fetch (''/bo/api/proxy/apis/proxy.otoroshi.io/v1/drafts/_kind/'' @ kind))\<lparr>rq_session := True\<rparr>"

definition duplicateAPI :: "string \<Rightarrow> js \<Rightarrow> api_request" where
  "duplicateAPI apiId body = send_json POST (''/bo/api/proxy/apis/apis.otoroshi.io/v1/apis/'' @ apiId @ ''/duplicate'') body"

definition subscribeToPlan :: "string \<Rightarrow> string \<Rightarrow> string \<Rightarrow> js \<Rightarrow> api_request" where
  "subscribeToPlan apiId planId version body =
     fetchWrapperNext (''/apis/'' @ apiId @ ''/plans/'' @ planId @ ''/subscribe?version='' @ version) POST body
       ''apis.otoroshi.io''"

definition confirmSubscription :: "string \<Rightarrow> string \<Rightarrow> string \<Rightarrow> api_request" where
  "confirmSubscription apiId subscriptionId version =
     (send_json POST (''/bo/api/proxy/apis/apis.otoroshi.io/v1'' @ ''/apis/'' @ apiId @ ''/subscriptions/'' @ subscriptionId @
       ''/confirm?version='' @ version) (JObj []))\<lparr>rq_reads := As_response\<rparr>"

definition listImpactedSubscriptions :: "string \<Rightarrow> string \<Rightarrow> string \<Rightarrow> api_request" where
  "listImpactedSubscriptions apiId planId version =
     (send_json POST (''/bo/api/proxy/apis/apis.otoroshi.io/v1'' @ ''/apis/'' @ apiId @ ''/plans/'' @ planId @
       ''/subscriptions/preview-update?version='' @ version) (JObj []))\<lparr>rq_reads := As_response\<rparr>"

definition getPlugins :: api_request where
  "getPlugins = fetchWrapper ''/plugins/all'' GET JUndef"

definition getOldPlugins :: api_request where
  "getOldPlugins = ask GET ''/bo/api/proxy/api/scripts/_list''"

definition getCategories :: api_request where
  "getCategories = fetchWrapper ''/plugins/categories'' GET JUndef"

definition convertAsRoute :: "string \<Rightarrow> api_request" where
  "convertAsRoute eid = ask GET (''/bo/api/proxy/api/services/'' @ eid @ ''/route'')"

definition getEntityGraph :: "string \<Rightarrow> string \<Rightarrow> api_request" where
  "getEntityGraph entity eid = fetchWrapper (''/entities/'' @ entity @ ''/'' @ eid) GET JUndef"

definition getWorkflowDocs :: api_request where
  "getWorkflowDocs = ask GET ''/bo/api/proxy/apis/workflows/doc.json''"

end
