(* ===== verification/Api_Facts.thy ===== *)
theory Api_Facts
  imports Api_Endpoints
begin

text \<open>
  What the requests of the client of the admin API are for.

  \<^item> The path of a URL made of plain segments is these segments (\<open>url_path_of\<close>), so that the
    operations of a client are on the collection or on one entity: locale \<open>rest_client\<close>, of which the
    four clients of the source are interpretations. Over a server that keeps the entities of a
    collection by id, running operations is updating a map.
  \<^item> The parameters of a page are read back from the URL when no value has a separator.
  \<^item> Every request of the console stays below \<open>/bo/\<close> and has the content type of its body.
\<close>

section \<open>Paths\<close>

lemma url_of_simps [simp]: "url_of [] = []" "url_of (s # ss) = ''/'' @ s @ url_of ss"
  by (simp_all add: url_of_def)

lemma url_of_append [simp]: "url_of (ss @ ts) = url_of ss @ url_of ts"
  by (simp add: url_of_def)

lemma url_of_join: "ss \<noteq> [] \<Longrightarrow> url_of ss = CHR ''/'' # join ''/'' ss"
proof (induction ss)
  case (Cons s ss)
  then show ?case by (cases ss) auto
qed simp

lemma resolve_plain: "list_all plain_seg ss \<Longrightarrow> resolve st ss = rev st @ ss"
  by (induction ss arbitrary: st) (auto simp: plain_seg_def)

lemma visible_kept: "visible c \<Longrightarrow> (of_char c :: nat) \<notin> {9, 10, 13}"
  by (auto simp: visible_def)

lemma drop_visible: "\<forall>c\<in>set t. visible c \<Longrightarrow> dropWhile (\<lambda>c. \<not> visible c) t = t"
  by (cases t) simp_all

lemma strip_visible:
  assumes "\<forall>c\<in>set s. visible c"
  shows "strip_url s = s"
proof -
  have "filter (\<lambda>c. (of_char c :: nat) \<notin> {9, 10, 13}) s = s"
    using assms visible_kept by (intro filter_True) blast
  moreover have "dropWhile (\<lambda>c. \<not> visible c) s = s" "dropWhile (\<lambda>c. \<not> visible c) (rev s) = rev s"
    using assms by (simp_all add: drop_visible)
  ultimately show ?thesis by (simp only: strip_url_def rev_rev_ident)
qed

lemma plain_charD:
  assumes "plain_char c"
  shows "visible c" "c \<noteq> CHR ''/''" "c \<noteq> CHR ''?''" "c \<noteq> CHR ''#''" "of_char c \<noteq> (92 :: nat)"
  using assms by (simp_all add: plain_char_def)

lemma slash_visible: "visible (CHR ''/'')" "(of_char (CHR ''/'') :: nat) \<noteq> 92"
  "CHR ''/'' \<noteq> CHR ''?''" "CHR ''/'' \<noteq> CHR ''#''"
  by code_simp+

lemma url_path_of:
  assumes "ss \<noteq> []" and "list_all plain_seg ss"
  shows "url_path (url_of ss) = ss"
proof -
  have chars: "\<And>s c. s \<in> set ss \<Longrightarrow> c \<in> set s \<Longrightarrow> plain_char c"
    using assms(2) by (simp add: list_all_iff plain_seg_def)
  have "set (url_of ss) \<subseteq> insert (CHR ''/'') (\<Union>s\<in>set ss. set s)" by (auto simp: url_of_def)
  then have all: "\<And>c. c \<in> set (url_of ss) \<Longrightarrow> c = CHR ''/'' \<or> plain_char c"
    using chars by blast
  have vis: "\<forall>c\<in>set (url_of ss). visible c" using all plain_charD(1) slash_visible(1) by blast
  have take: "takeWhile (\<lambda>c. c \<noteq> CHR ''?'' \<and> c \<noteq> CHR ''#'') (url_of ss) = url_of ss"
    unfolding takeWhile_eq_all_conv using all plain_charD(3,4) slash_visible(3,4) by blast
  have j: "url_of ss = CHR ''/'' # join ''/'' ss" using assms(1) by (rule url_of_join)
  have "\<And>c. c \<in> set (url_of ss) \<Longrightarrow> of_char c \<noteq> (92 :: nat)"
    using all plain_charD(5) slash_visible(2) by blast
  then have sl: "slashes (join ''/'' ss) = join ''/'' ss"
    unfolding slashes_def by (intro map_idI) (simp add: j)
  have "\<forall>s\<in>set ss. CHR ''/'' \<notin> set s" using chars plain_charD(2) by blast
  then have sp: "split_on (CHR ''/'') (join ''/'' ss) = ss"
    by (rule split_on_join [OF assms(1)])
  have "url_path (url_of ss) = resolve [] (split_on (CHR ''/'') (slashes (drop 1 (url_of ss))))"
    by (simp only: url_path_def strip_visible [OF vis] take)
  also have "drop 1 (url_of ss) = join ''/'' ss" by (simp only: j drop_Suc_Cons One_nat_def drop_0)
  finally show ?thesis by (simp only: sl sp resolve_plain [OF assms(2)] rev.simps append_Nil)
qed

lemma plain_names [simp]:
  "plain_seg ''bo''" "plain_seg ''api''" "plain_seg ''proxy''" "plain_seg ''apis''" "plain_seg ''any''" "plain_seg ''v1''"
  "plain_seg ''_template''" "plain_seg ''_form''"
  by code_simp+

section \<open>The entities of a client\<close>

text \<open>
  The operations of a client that change the collection, and the map of entities they update. The
  server is a parameter: it refuses to create an entity that exists and to update one that does
  not, and \<open>keep\<close> is what it keeps of a body.
\<close>

datatype crud = Create js | Update js | Remove js | Remove_id string

definition entity_id :: "js \<Rightarrow> string" where
  "entity_id c = template_text (jprop c ''id'')"

fun crud_request :: "'a client_scheme \<Rightarrow> crud \<Rightarrow> api_request res" where
  "crud_request C (Create c) = Inr (cl_create C c)"
| "crud_request C (Update c) = cl_update C c"
| "crud_request C (Remove c) = cl_delete C c"
| "crud_request C (Remove_id i) = Inr (cl_deleteById C i)"

fun crud_ok :: "crud \<Rightarrow> bool" where
  "crud_ok (Create c) \<longleftrightarrow> is_object c \<and> plain_seg (entity_id c)"
| "crud_ok (Update c) \<longleftrightarrow> is_object c \<and> plain_seg (entity_id c)"
| "crud_ok (Remove c) \<longleftrightarrow> is_object c \<and> plain_seg (entity_id c)"
| "crud_ok (Remove_id i) \<longleftrightarrow> plain_seg i"

fun store_spec :: "(js \<Rightarrow> js) \<Rightarrow> crud \<Rightarrow> (string \<Rightarrow> js option) \<Rightarrow> string \<Rightarrow> js option" where
  "store_spec keep (Create c) m = (if m (entity_id c) = None then m(entity_id c \<mapsto> keep c) else m)"
| "store_spec keep (Update c) m = (if m (entity_id c) = None then m else m(entity_id c \<mapsto> keep c))"
| "store_spec keep (Remove c) m = m(entity_id c := None)"
| "store_spec keep (Remove_id i) m = m(i := None)"

definition perform_op :: "(api_request \<Rightarrow> 's \<Rightarrow> 's \<times> js) \<Rightarrow> 'a client_scheme \<Rightarrow> 's \<Rightarrow> crud \<Rightarrow> 's" where
  "perform_op srv C s op = (case crud_request C op of Inl e \<Rightarrow> s | Inr r \<Rightarrow> fst (srv r s))"

definition rest_server ::
  "string list \<Rightarrow> (js \<Rightarrow> js) \<Rightarrow> ('s \<Rightarrow> string \<Rightarrow> js option) \<Rightarrow> (api_request \<Rightarrow> 's \<Rightarrow> 's \<times> js) \<Rightarrow> bool" where
  "rest_server coll keep store srv \<longleftrightarrow>
     (\<forall>s r.
        (\<forall>c. plain_seg (entity_id c) \<and> rq_body r = Some (Json c) \<longrightarrow>
           (rq_method r = POST \<and> url_path (rq_url r) = coll \<longrightarrow>
              store (fst (srv r s)) = store_spec keep (Create c) (store s)) \<and>
           (rq_method r = PUT \<and> url_path (rq_url r) = coll @ [entity_id c] \<longrightarrow>
              store (fst (srv r s)) = store_spec keep (Update c) (store s))) \<and>
        (\<forall>i. plain_seg i \<and> url_path (rq_url r) = coll @ [i] \<longrightarrow>
           (rq_method r = DELETE \<longrightarrow> store (fst (srv r s)) = (store s)(i := None)) \<and>
           (rq_method r = GET \<and> i \<notin> {''_template'', ''_form''} \<longrightarrow>
              (\<forall>v. store s i = Some v \<longrightarrow> snd (srv r s) = v))))"

lemma rest_serverD:
  assumes "rest_server coll keep store srv"
  shows "plain_seg (entity_id c) \<Longrightarrow> rq_body r = Some (Json c) \<Longrightarrow> rq_method r = POST \<Longrightarrow>
      url_path (rq_url r) = coll \<Longrightarrow> store (fst (srv r s)) = store_spec keep (Create c) (store s)"
    and "plain_seg (entity_id c) \<Longrightarrow> rq_body r = Some (Json c) \<Longrightarrow> rq_method r = PUT \<Longrightarrow>
      url_path (rq_url r) = coll @ [entity_id c] \<Longrightarrow> store (fst (srv r s)) = store_spec keep (Update c) (store s)"
    and "plain_seg i \<Longrightarrow> url_path (rq_url r) = coll @ [i] \<Longrightarrow> rq_method r = DELETE \<Longrightarrow>
      store (fst (srv r s)) = (store s)(i := None)"
    and "plain_seg i \<Longrightarrow> url_path (rq_url r) = coll @ [i] \<Longrightarrow> rq_method r = GET \<Longrightarrow>
      i \<notin> {''_template'', ''_form''} \<Longrightarrow> store s i = Some v \<Longrightarrow> snd (srv r s) = v"
  using assms unfolding rest_server_def by blast+

text \<open>
  The interface of the clients: \<open>coll k\<close> is the path of the collection of the client \<open>k\<close>. An
  entity is an object.
\<close>

locale rest_client =
  fixes client :: "'k \<Rightarrow> 'a client_scheme"
    and coll :: "'k \<Rightarrow> string list"
    and ok :: "'k \<Rightarrow> bool"
  assumes coll_plain: "ok k \<Longrightarrow> coll k \<noteq> [] \<and> list_all plain_seg (coll k)"
    and create: "is_object c \<Longrightarrow> cl_create (client k) c = send_json POST (url_of (coll k)) c"
    and update: "is_object c \<Longrightarrow>
      cl_update (client k) c = with_prop c ''id'' (\<lambda>i. send_json PUT (url_of (coll k @ [i])) c)"
    and findById: "cl_findById (client k) i = ask GET (url_of (coll k @ [i]))"
    and delete: "cl_delete (client k) c = with_prop c ''id'' (\<lambda>i. ask DELETE (url_of (coll k @ [i])))"
    and deleteById: "cl_deleteById (client k) i = ask DELETE (url_of (coll k @ [i]))"
    and findAll: "cl_findAll (client k) = ask GET (url_of (coll k))"
    and template_is: "cl_template (client k) = ask GET (url_of (coll k @ [''_template'']))"
begin

lemma collection_path: "ok k \<Longrightarrow> url_path (url_of (coll k)) = coll k"
  by (simp add: coll_plain url_path_of)

lemma item_path: "ok k \<Longrightarrow> plain_seg i \<Longrightarrow> url_path (url_of (coll k @ [i])) = coll k @ [i]"
  using coll_plain [of k] by (intro url_path_of) auto

text \<open>The entity of an operation is the one its id names, whatever the operation.\<close>

lemma same_item:
  assumes "cl_update (client k) c = Inr u" and "cl_delete (client k) c = Inr d" and "is_object c"
  shows "rq_url u = rq_url d" and "rq_url d = rq_url (cl_findById (client k) (template_text (jprop c ''id'')))"
    and "rq_url d = rq_url (cl_deleteById (client k) (template_text (jprop c ''id'')))"
  using assms by (auto simp: update delete findById deleteById)

lemma crud_of_object:
  assumes "is_object c"
  shows "crud_request (client k) (Update c) = Inr (send_json PUT (url_of (coll k @ [entity_id c])) c)"
    and "crud_request (client k) (Remove c) = Inr (ask DELETE (url_of (coll k @ [entity_id c])))"
  using assms by (cases c; simp add: is_object_def update delete with_prop_def fld_def nullish_def entity_id_def)+

lemma perform_op_spec:
  assumes "rest_server (coll k) keep store srv" and "ok k" and "crud_ok op"
  shows "store (perform_op srv (client k) s op) = store_spec keep op (store s)"
proof -
  note server = rest_serverD [OF assms(1)]
  note item = item_path [OF \<open>ok k\<close>] and all = collection_path [OF \<open>ok k\<close>]
  show ?thesis
  proof (cases op)
    case (Create c)
    with assms(3) server(1) [of c "send_json POST (url_of (coll k)) c" s] all show ?thesis
      by (simp add: perform_op_def create)
  next
    case (Update c)
    with assms(3) server(2) [of c "send_json PUT (url_of (coll k @ [entity_id c])) c" s] item show ?thesis
      by (simp add: perform_op_def crud_of_object del: crud_request.simps url_of_append)
  next
    case (Remove c)
    with assms(3) server(3) [of "entity_id c" "ask DELETE (url_of (coll k @ [entity_id c]))" s] item show ?thesis
      by (simp add: perform_op_def crud_of_object del: crud_request.simps url_of_append)
  next
    case (Remove_id i)
    with assms(3) server(3) [of i "ask DELETE (url_of (coll k @ [i]))" s] item show ?thesis
      by (simp add: perform_op_def deleteById del: url_of_append)
  qed
qed

lemma run_refines:
  assumes "rest_server (coll k) keep store srv" and "ok k" and "list_all crud_ok ops"
  shows "store (foldl (perform_op srv (client k)) s ops) = foldl (\<lambda>m op. store_spec keep op m) (store s) ops"
  using assms(3) by (induction ops arbitrary: s) (simp_all add: perform_op_spec [OF assms(1,2)])

lemma read_stored:
  assumes "rest_server (coll k) keep store srv" and "ok k" and "plain_seg i" and "i \<notin> {''_template'', ''_form''}"
    and "store s i = Some v"
  shows "snd (srv (cl_findById (client k) i) s) = v"
  using rest_serverD(4) [OF assms(1,3), of "ask GET (url_of (coll k @ [i]))"] assms(4,5) item_path [OF assms(2,3)]
  by (simp add: findById del: url_of_append)

text \<open>An entity whose id is \<open>_template\<close> cannot be read: the template is.\<close>

lemma template_hides: "cl_findById (client k) ''_template'' = cl_template (client k)"
  by (simp add: findById template_is)

end

definition api_root :: "string list" where
  "api_root = [''bo'', ''api'', ''proxy'', ''api'']"

definition apis_root :: "string list" where
  "apis_root = [''bo'', ''api'', ''proxy'', ''apis'']"

lemma entity_truthy: "is_object c \<Longrightarrow> truthy c" by (cases c) (auto simp: is_object_def)

lemma wrapped_simps: "wrapped u m JUndef = ask m u" "is_object c \<Longrightarrow> wrapped u m c = send_json m u c"
  by (simp_all add: wrapped_def entity_truthy)

lemmas client_simps = fetchWrapper_def fetchWrapperNext_def fetchWrapperNextWithGroup_def any_group_def wrapped_simps
  next_update_def next_delete_def api_root_def apis_root_def

interpretation entity: rest_client forEntity "\<lambda>e. api_root @ [e]" plain_seg
  by unfold_locales (simp_all add: forEntity_def client_simps)

interpretation entity_next: rest_client forEntityNext "\<lambda>e. apis_root @ [''any'', ''v1'', e]" plain_seg
  by unfold_locales (simp_all add: forEntityNext_def client_simps)

interpretation entity_group: rest_client "\<lambda>(g, e). forEntityNextWithGroup g e"
  "\<lambda>(g, e). apis_root @ [g, ''v1'', e]" "\<lambda>(g, e). plain_seg g \<and> plain_seg e"
  by unfold_locales (auto simp: forEntityNextWithGroup_def client_simps split: prod.splits)

interpretation apis_entity: rest_client "\<lambda>(g, v, e). apisClient g v e"
  "\<lambda>(g, v, e). apis_root @ [g, v, e]" "\<lambda>(g, v, e). plain_seg g \<and> plain_seg v \<and> plain_seg e"
  by unfold_locales (auto simp: apisClient_def apis_path_def Let_def client_simps split: prod.splits)

section \<open>Running operations on a server\<close>


text \<open>A server that is a map.\<close>

definition shelf :: "string list \<Rightarrow> api_request \<Rightarrow> (string \<Rightarrow> js option) \<Rightarrow> (string \<Rightarrow> js option) \<times> js" where
  "shelf coll r m =
     (let p = url_path (rq_url r) in
      case (rq_method r, rq_body r) of
        (POST, Some (Json c)) \<Rightarrow> (if p = coll then store_spec id (Create c) m else m, c)
      | (PUT, Some (Json c)) \<Rightarrow> (if p = coll @ [entity_id c] then store_spec id (Update c) m else m, c)
      | (DELETE, _) \<Rightarrow> (if butlast p = coll then m(last p := None) else m, JNull)
      | (GET, _) \<Rightarrow> (m, case m (last p) of Some v \<Rightarrow> v | None \<Rightarrow> JNull)
      | _ \<Rightarrow> (m, JNull))"

lemma shelf_rest: "rest_server coll id (\<lambda>m. m) (shelf coll)"
  unfolding rest_server_def shelf_def Let_def by (auto simp: butlast_append)

definition route_named :: "string \<Rightarrow> string \<Rightarrow> js" where
  "route_named i n = JObj [(''id'', JStr i), (''name'', JStr n)]"

definition some_ops :: "crud list" where
  "some_ops = [Create (route_named ''r1'' ''a''), Create (route_named ''r2'' ''b''), Update (route_named ''r1'' ''c''),
     Remove_id ''r2'']"

lemma some_ops_ok: "list_all crud_ok some_ops \<and> plain_seg ''routes'' \<and> plain_seg ''r1''"
  by code_simp

lemma some_ops_map: "foldl (\<lambda>m op. store_spec id op m) (\<lambda>_. None) some_ops ''r1'' = Some (route_named ''r1'' ''c'')"
  by (simp add: some_ops_def route_named_def entity_id_def jprop_def)


section \<open>Percent encoding\<close>

definition url_separator :: "char \<Rightarrow> bool" where
  "url_separator c \<longleftrightarrow> c \<in> set ''?#&=''"

lemma char_code: "c = d \<longleftrightarrow> (of_char c :: nat) = of_char d"
  by simp

lemma url_separator_code: "url_separator c \<longleftrightarrow> (of_char c :: nat) \<in> {63, 35, 38, 61}"
  unfolding url_separator_def by (simp add: char_code [of c])

lemma hex_code: "n < 16 \<Longrightarrow> of_char (uri_hex n) = (if n < 10 then 48 + n else 55 + n)"
  by (simp add: uri_hex_def of_char_of)

lemma uri_hex_facts:
  assumes "n < 16"
  shows "hex_value (uri_hex n) = Some n" "visible (uri_hex n)" "\<not> url_separator (uri_hex n)"
  using assms by (auto simp: hex_code hex_value_def Let_def visible_def url_separator_code)

lemma percent_bytes_percent: "n < 256 \<Longrightarrow> percent_bytes (percent n @ s) = n # percent_bytes s"
  by (simp add: percent_def uri_hex_facts less_mult_imp_div_less)

lemma percent_bytes_other: "c \<noteq> CHR ''%'' \<Longrightarrow> percent_bytes (c # s) = of_char c # percent_bytes s"
  by (cases s rule: percent_bytes.cases) auto

lemma utf8_small: "n < 256 \<Longrightarrow> b \<in> set (utf8 n) \<Longrightarrow> b < 256"
  by (auto simp: utf8_def split: if_splits)

lemma percent_bytes_encode:
  "percent_bytes (encode_char c @ s) = utf8 (of_char c) @ percent_bytes s"
proof (cases "uri_kept c")
  case True
  moreover from True have "c \<noteq> CHR ''%''" and "of_char c < (128 :: nat)"
    by (auto simp: uri_kept_def Let_def)
  ultimately show ?thesis by (simp add: encode_char_def percent_bytes_other utf8_def)
next
  case False
  have "percent_bytes (concat (map percent bs) @ s) = bs @ percent_bytes s" if "\<forall>b\<in>set bs. b < 256" for bs
    using that by (induction bs) (auto simp: percent_bytes_percent)
  with False utf8_small [of "of_char c"] show ?thesis by (simp add: encode_char_def)
qed

lemma utf8_chars_utf8:
  assumes "n < 256"
  shows "utf8_chars (utf8 n @ bs) = n # utf8_chars bs"
proof (cases "n < 128")
  case True
  then show ?thesis by (cases bs) (auto simp: utf8_def)
next
  case False
  moreover from assms have "n div 64 < 32" by linarith
  ultimately show ?thesis by (simp add: utf8_def)
qed

lemma encodeURI_simps [simp]:
  "encodeURI [] = []" "encodeURI (c # s) = encode_char c @ encodeURI s" "encodeURI (s @ t) = encodeURI s @ encodeURI t"
  by (simp_all add: encodeURI_def)

lemma decode_encodeURI: "percent_decode (encodeURI s) = s"
proof -
  have "utf8_chars (percent_bytes (encodeURI s)) = map of_char s"
  proof (induction s)
    case (Cons c s)
    have "(of_char c :: nat) < 256" by simp
    with Cons show ?case by (simp add: percent_bytes_encode utf8_chars_utf8)
  qed simp
  then show ?thesis by (simp add: percent_decode_def comp_def)
qed

text \<open>Encoding neither adds nor removes a separator of the URL, and what it adds is visible.\<close>

lemma percent_chars: "n < 256 \<Longrightarrow> c \<in> set (percent n) \<Longrightarrow> visible c \<and> \<not> url_separator c"
proof -
  assume n: "n < 256" and c: "c \<in> set (percent n)"
  have "n div 16 < 16" "n mod 16 < 16" using n by auto
  moreover have "visible (CHR ''%'')" "\<not> url_separator (CHR ''%'')" by code_simp+
  ultimately show ?thesis using c uri_hex_facts by (auto simp: percent_def)
qed

lemma encode_char_chars:
  assumes "d \<in> set (encode_char c)"
  shows "visible d" and "url_separator d \<longleftrightarrow> encode_char c = [c] \<and> d = c \<and> url_separator c"
proof -
  have kept: "uri_kept c \<Longrightarrow> visible c"
    by (auto simp: uri_kept_def visible_def Let_def)
  have "visible d \<and> (url_separator d \<longleftrightarrow> encode_char c = [c] \<and> d = c \<and> url_separator c)"
  proof (cases "uri_kept c")
    case True
    with assms kept show ?thesis by (simp add: encode_char_def)
  next
    case False
    with assms obtain b where "b \<in> set (utf8 (of_char c))" "d \<in> set (percent b)" by (auto simp: encode_char_def)
    then have "visible d" "\<not> url_separator d" using percent_chars utf8_small [of "of_char c" b] by auto
    moreover have "url_separator c \<Longrightarrow> uri_kept c" by (auto simp: url_separator_def uri_kept_def)
    ultimately show ?thesis using False by blast
  qed
  then show "visible d" and "url_separator d \<longleftrightarrow> encode_char c = [c] \<and> d = c \<and> url_separator c" by auto
qed

lemma encode_separator: "url_separator c \<Longrightarrow> encode_char c = [c]"
  by (auto simp: url_separator_def encode_char_def uri_kept_def)

lemma encodeURI_visible: "\<forall>c\<in>set (encodeURI s). visible c"
  by (induction s) (auto dest: encode_char_chars(1))

lemma encodeURI_separator:
  assumes "url_separator d"
  shows "d \<in> set (encodeURI s) \<longleftrightarrow> d \<in> set s"
proof (induction s)
  case (Cons c s)
  have "d \<in> set (encode_char c) \<longleftrightarrow> d = c"
    using encode_char_chars(2) [of d c] encode_separator [of d] assms by auto
  with Cons show ?case by simp
qed simp

section \<open>The parameters of a page\<close>

definition page_params :: "page_state \<Rightarrow> (string \<times> string) list" where
  "page_params ps =
     (''page'', nat_str (counted (ps_page ps))) #
     (if counted (ps_pageSize ps) = 0 then [] else [(''pageSize'', nat_str (counted (ps_pageSize ps)))]) @
     (if filled (ps_fields ps) = [] then [] else [(''fields'', join '','' (filled (ps_fields ps)))]) @
     (if filled (ps_filtered ps) = [] then [] else [(''filtered'', filter_text (filled (ps_filtered ps)))]) @
     (if filled (ps_sorted ps) = [] then [] else [(''sorted'', sort_text (filled (ps_sorted ps)))])"

definition pair_text :: "string \<times> string \<Rightarrow> string" where
  "pair_text p = fst p @ ''='' @ snd p"

lemma paged_url_params:
  "counted (ps_page ps) \<noteq> 0 \<Longrightarrow> paged_url route ps = route @ ''?'' @ join ''&'' (map pair_text (page_params ps))"
  by (simp add: paged_url_def page_params_def pair_text_def Let_def)

definition no_char :: "string \<Rightarrow> string \<Rightarrow> bool" where
  "no_char seps s \<longleftrightarrow> (\<forall>c\<in>set seps. c \<notin> set s)"

lemma separators: "url_separator (CHR ''?'')" "url_separator (CHR ''#'')" "url_separator (CHR ''&'')" "url_separator (CHR ''='')"
  by (simp_all add: url_separator_def)

lemma encodeURI_join: "url_separator d \<Longrightarrow> encodeURI (join [d] xs) = join [d] (map encodeURI xs)"
proof (induction xs)
  case (Cons x xs)
  then show ?case by (cases xs) (simp_all add: encode_separator)
qed simp

lemma param_encoded:
  assumes "no_char ''='' (fst p)"
  shows "param (encodeURI (pair_text p)) = (encodeURI (fst p), encodeURI (snd p))"
proof -
  have "\<forall>c\<in>set (encodeURI (fst p)). c \<noteq> CHR ''=''"
    using assms encodeURI_separator [OF separators(4), of "fst p"] by (auto simp: no_char_def)
  then show ?thesis by (simp add: param_def pair_text_def encode_separator [OF separators(4)] takeWhile_append2 dropWhile_append2)
qed

definition decoded :: "(string \<times> string) list \<Rightarrow> (string \<times> string) list" where
  "decoded qs = map (\<lambda>(n, v). (percent_decode n, percent_decode v)) qs"

lemma query_read_back:
  assumes base: "no_char ''?#'' base"
    and names: "\<And>n v. (n, v) \<in> set qs \<Longrightarrow> no_char ''=&#'' n \<and> no_char ''&#'' v"
  shows "decoded (url_query (encodeURI (base @ ''?'' @ join ''&'' (map pair_text qs)))) = qs"
proof -
  let ?q = "join ''&'' (map pair_text qs)"
  let ?u = "encodeURI (base @ ''?'' @ ?q)"
  have pairs: "\<forall>p\<in>set (map pair_text qs). CHR ''&'' \<notin> set p \<and> CHR ''#'' \<notin> set p"
    using names by (fastforce simp: pair_text_def no_char_def)
  then have "CHR ''#'' \<notin> set ?q" by (induction qs rule: induct_list012) auto
  then have hash: "CHR ''#'' \<notin> set ?u"
    using base by (simp add: encodeURI_separator [OF separators(2)] encode_separator [OF separators(1)] no_char_def
      del: encodeURI_simps(1))
  then have take: "takeWhile (\<lambda>c. c \<noteq> CHR ''#'') ?u = ?u" unfolding takeWhile_eq_all_conv by blast
  have u: "?u = encodeURI base @ CHR ''?'' # encodeURI ?q"
    by (simp add: encode_separator [OF separators(1)])
  have cut: "dropWhile (\<lambda>c. c \<noteq> CHR ''?'') ?u = CHR ''?'' # encodeURI ?q"
    unfolding u using base encodeURI_separator [OF separators(1), of base]
    by (subst dropWhile_append2) (auto simp: no_char_def)
  have "url_query ?u = map param (filter (\<lambda>p. p \<noteq> []) (split_on (CHR ''&'') (encodeURI ?q)))"
    by (simp only: url_query_def strip_visible [OF encodeURI_visible] take cut list.case)
  also have "\<dots> = map (\<lambda>p. param (encodeURI (pair_text p))) qs"
  proof (cases "qs = []")
    case False
    have "split_on (CHR ''&'') (encodeURI ?q) = map encodeURI (map pair_text qs)"
      unfolding encodeURI_join [OF separators(3)] using False pairs encodeURI_separator [OF separators(3)]
      by (intro split_on_join) auto
    moreover have "filter (\<lambda>p. p \<noteq> []) (map encodeURI (map pair_text qs)) = map encodeURI (map pair_text qs)"
      by (intro filter_True) (simp add: pair_text_def encode_separator [OF separators(4)])
    ultimately show ?thesis by simp
  qed simp
  finally have "url_query ?u = map (\<lambda>p. param (encodeURI (pair_text p))) qs" .
  moreover have "decoded (map (\<lambda>p. param (encodeURI (pair_text p))) qs) = qs"
    unfolding decoded_def map_map using names
    by (intro map_idI) (force simp: param_encoded no_char_def decode_encodeURI simp del: encodeURI_simps)
  ultimately show ?thesis by simp
qed

lemma no_char_simps [simp]:
  "no_char seps []" "no_char seps (c # s) \<longleftrightarrow> c \<notin> set seps \<and> no_char seps s"
  "no_char seps (s @ t) \<longleftrightarrow> no_char seps s \<and> no_char seps t"
  by (auto simp: no_char_def)

lemma no_char_join:
  "no_char seps d \<Longrightarrow> no_char seps (join d xs) \<longleftrightarrow> (\<forall>x\<in>set xs. no_char seps x)"
  by (induction xs rule: induct_list012) auto

lemma comma: "no_char ''&#'' '',''" by simp

lemma no_char_bool: "no_char ''&#'' (bool_str b)" by (simp add: bool_str_def)

lemma no_char_nat: "no_char ''&#'' (nat_str k)"
proof -
  have "CHR ''&'' \<notin> set (nat_str k)" "CHR ''#'' \<notin> set (nat_str k)"
    using nat_str_digits [of k] by fastforce+
  then show ?thesis by (simp add: no_char_def)
qed

lemma page_read_back:
  assumes "counted (ps_page ps) \<noteq> 0" and "no_char ''?#'' (pre @ route)"
    and "\<forall>f\<in>set (filled (ps_fields ps)). no_char ''&#'' f"
    and "\<forall>(i, v)\<in>set (filled (ps_filtered ps)). no_char ''&#'' i \<and> no_char ''&#'' (toLowerCase v)"
    and "\<forall>(i, d)\<in>set (filled (ps_sorted ps)). no_char ''&#'' i"
  shows "decoded (url_query (rq_url (findAllWithPagination route (Some ps) pre))) = page_params ps"
proof -
  have "no_char ''&#'' (filter_text (filled (ps_filtered ps)))" "no_char ''&#'' (sort_text (filled (ps_sorted ps)))"
    unfolding filter_text_def sort_text_def no_char_join [OF comma] using assms(4,5) by (auto simp: no_char_bool)
  then have "\<forall>(k, v)\<in>set (page_params ps). no_char ''=&#'' k \<and> no_char ''&#'' v"
    using assms(3) by (simp add: page_params_def no_char_join [OF comma] no_char_nat)
  from query_read_back [OF assms(2), of "page_params ps"] this show ?thesis
    by (auto simp: findAllWithPagination_def paged_url_params [OF assms(1)] simp del: encodeURI_simps)
qed

text \<open>What a page of the console makes of what the table asks for: \<open>{...paginationState, fields}\<close>.\<close>

definition with_fields :: "string list \<Rightarrow> fetch \<Rightarrow> page_state" where
  "with_fields fs f =
     (case f of
        All_items \<Rightarrow> \<lparr>ps_page = None, ps_pageSize = None, ps_fields = Some fs, ps_filtered = None, ps_sorted = None\<rparr>
      | Page q rows n \<Rightarrow> \<lparr>ps_page = Some n, ps_pageSize = Some rows, ps_fields = Some fs,
          ps_filtered = pg_filtered q, ps_sorted = pg_sorted q\<rparr>)"

definition search_ok :: "pagination \<Rightarrow> bool" where
  "search_ok q \<longleftrightarrow>
     (\<forall>(i, v)\<in>set (filled (pg_filtered q)). no_char ''&#'' i \<and> no_char ''&#'' (toLowerCase v)) \<and>
     (\<forall>(i, d)\<in>set (filled (pg_sorted q)). no_char ''&#'' i)"


definition foo_bar :: pagination where
  "foo_bar = \<lparr>pg_page = Some 2, pg_sorted = Some [(''name'', True)], pg_filtered = Some [(''name'', ''Foo Bar'')]\<rparr>"


text \<open>A filter that has a separator is read as another parameter: the texts are not escaped for a query.\<close>

lemma filter_adds_parameter:
  "decoded (url_query (rq_url (cl_findAllWithPagination (forEntityNext ''routes'')
     (Some (page_one\<lparr>ps_filtered := Some [(''name'', ''a&page=9'')]\<rparr>))))) =
   [(''page'', ''1''), (''filtered'', ''name:a''), (''page'', ''9'')]"
  by code_simp

text \<open>An id that is not a plain segment is for another resource.\<close>

lemma dots_reach_the_collection:
  "url_path (rq_url (cl_deleteById (forEntityNext ''routes'') ''..'')) = apis_root @ [''any'', ''v1'', '''']"
  "url_path (rq_url (cl_findById (forEntityNext ''routes'') ''../drafts/d'')) = apis_root @ [''any'', ''v1'', ''drafts'', ''d'']"
  by code_simp+

text \<open>The paths of the pages of \<open>nextClient.findAllWithPagination\<close> have an empty segment.\<close>

lemma paged_double_slash:
  "url_path (rq_url (nc_findAllWithPagination ''routes'' None)) = api_root @ ['''', ''routes'']"
  by code_simp

section \<open>Every request of the console\<close>

text \<open>The requests the client can send, whatever its functions are given.\<close>

inductive client_request :: "api_request \<Rightarrow> bool" where
  "client_request (syncWithLeader config)" | "client_request resetDB"
  | "fetchLine lineId = Some r \<Longrightarrow> client_request r"
  | "client_request (fetchBodiesFor serviceId requestId)" | "client_request (anonymousReporting enabled)"
  | "client_request env_request" | "client_request version_request" | "client_request fetchTunnels"
  | "client_request fetchClusterMembers" | "client_request clearClusterMembers"
  | "client_request fetchSnowMonkeyOutages" | "client_request fetchSnowMonkeyConfig"
  | "client_request (updateSnowMonkeyConfig config)" | "client_request startSnowMonkey"
  | "client_request stopSnowMonkey" | "client_request (fetchRemainingApikeyQuotas clientId)"
  | "client_request (resetRemainingApikeyQuotas clientId)"
  | "client_request (fetchRemainingQuotas groupId clientId)"
  | "client_request (resetRemainingQuotas groupId clientId)"
  | "client_request (fetchServiceEvents serviceId start until limit order)"
  | "client_request (fetchGlobalEvents start until limit order)"
  | "client_request (fetchServiceStats serviceId start until)" | "client_request (fetchGlobalStats start until)"
  | "client_request (fetchGlobalStatus page limit)" | "client_request (fetchServiceStatus serviceId)"
  | "client_request (fetchServicesStatus servicesIds)" | "client_request (fetchServiceResponseTime serviceId)"
  | "client_request (fetchApiKeysForPage serviceId)" | "client_request (fetchAllApikeys paginationState)"
  | "deleteApiKey routeId apiId ak = Inr r \<Longrightarrow> client_request r"
  | "client_request (getBearer clientId clientSecret)" | "client_request (createApiKey routeId apiId ak)"
  | "client_request (createRawApiKey ak)"
  | "updateApiKey routeId apiId ak = Inr r \<Longrightarrow> client_request r"
  | "updateRawApiKey ak = Inr r \<Longrightarrow> client_request r"
  | "client_request (fetchStandaloneApiKey clientId)"
  | "deleteStandaloneApiKey ak = Inr r \<Longrightarrow> client_request r"
  | "client_request (createStandaloneApiKey ak)"
  | "updateStandaloneApiKey ak = Inr r \<Longrightarrow> client_request r"
  | "client_request (getGlobalConfig fs)" | "client_request (updateGlobalConfig gc)"
  | "findServicesForGroup grp = Inr r \<Longrightarrow> client_request r"
  | "client_request (findAllGroups paginationState)" | "client_request (findGroupById eid)"
  | "deleteGroup ak = Inr r \<Longrightarrow> client_request r" | "client_request (createGroup ak)"
  | "updateGroup ak = Inr r \<Longrightarrow> client_request r" | "client_request findAllApps"
  | "client_request findAllEurekaServers" | "client_request (getEurekaApps eurekaServerId)"
  | "client_request (getExternalEurekaServers url)" | "client_request discardAllSessions"
  | "client_request (discardSession eid)" | "client_request (fetchSessions paginateState)"
  | "client_request discardAllPrivateAppsSessions" | "client_request (discardAllPrivateAppsSessionsFor authId)"
  | "client_request (discardPrivateAppsSession eid)"
  | "client_request (fetchPrivateAppsSessions paginationState)" | "client_request panicMode"
  | "r \<in> set (fetchAdmins ps) \<Longrightarrow> client_request r"
  | "discardAdmin username eid ekind = Some r \<Longrightarrow> client_request r"
  | "client_request (fetchOtoroshi ctype)" | "client_request fetchAuditEvents"
  | "client_request fetchAlertEvents" | "client_request fetchLoggers"
  | "client_request (changeLogLevel logger level)" | "client_request (findAllJwtVerifiers paginationState)"
  | "client_request (findAllEvents paginationState serviceId start until limit order)"
  | "client_request (findJwtVerifierById eid)"
  | "deleteJwtVerifier ak = Inr r \<Longrightarrow> client_request r" | "client_request (createJwtVerifier ak)"
  | "updateJwtVerifier ak = Inr r \<Longrightarrow> client_request r"
  | "client_request (findAllAuthConfigs paginationState)" | "client_request (findAuthConfigById eid)"
  | "client_request findAuthConfigs" | "deleteAuthConfig ak = Inr r \<Longrightarrow> client_request r"
  | "client_request (createAuthConfig ak)" | "client_request getAuthModuleTypes"
  | "client_request (createNewAuthConfig kind)"
  | "updateAuthConfig ak = Inr r \<Longrightarrow> client_request r"
  | "client_request (findAllCertificates paginationState)" | "client_request (findCertificateById eid)"
  | "deleteCertificate ak = Inr r \<Longrightarrow> client_request r" | "client_request (createCertificate ak)"
  | "updateCertificate ak = Inr r \<Longrightarrow> client_request r" | "client_request (certData chain)"
  | "client_request (certValid cert)" | "client_request (selfSignedCert host)"
  | "client_request (selfSignedClientCert dn)" | "client_request (importP12 password content client)"
  | "client_request (letsEncryptCert host)" | "client_request (caSignedCert eid host)"
  | "client_request (caSignedClientCert eid dn)" | "client_request (caCert cn)"
  | "client_request (createCertificateFromForm form)" | "client_request (createCSR form)"
  | "client_request (renewCert eid)" | "client_request findAllClientValidators"
  | "client_request (findClientValidatorById eid)"
  | "deleteClientValidator ak = Inr r \<Longrightarrow> client_request r"
  | "client_request (createClientValidator ak)"
  | "updateClientValidator ak = Inr r \<Longrightarrow> client_request r" | "client_request findAllScripts"
  | "client_request (findScriptById eid)" | "deleteScript ak = Inr r \<Longrightarrow> client_request r"
  | "client_request (createScript ak)" | "client_request (compileScript ak)"
  | "updateScript ak = Inr r \<Longrightarrow> client_request r"
  | "client_request (fetchStats kind eid start until limit)"
  | "client_request (findAllTcpServices paginationState)" | "client_request (findTcpServiceById eid)"
  | "deleteTcpService ak = Inr r \<Longrightarrow> client_request r" | "client_request (createTcpService ak)"
  | "client_request createNewTcpService" | "updateTcpService ak = Inr r \<Longrightarrow> client_request r"
  | "client_request (findAllRoutesWithPagination ps)" | "client_request (findAllErrorTemplatesWithPagination ps)"
  | "client_request findAllErrorTemplates" | "client_request (findErrorTemplateById eid)"
  | "deleteErrorTemplate ak = Inr r \<Longrightarrow> client_request r"
  | "client_request (createErrorTemplate ak)"
  | "updateErrorTemplate ak = Inr r \<Longrightarrow> client_request r"
  | "client_request (findAllTeamsWithPagination ps)" | "client_request findAllTeams"
  | "client_request (findTeamById eid)" | "deleteTeam ak = Inr r \<Longrightarrow> client_request r"
  | "client_request (createTeam ak)" | "client_request createNewTeam"
  | "updateTeam ak = Inr r \<Longrightarrow> client_request r"
  | "client_request (findAllWasmPluginsWithPagination ps)" | "client_request findAllWasmPlugins"
  | "client_request (findWasmPluginById eid)" | "deleteWasmPlugin ak = Inr r \<Longrightarrow> client_request r"
  | "client_request (createWasmPlugin ak)" | "client_request createNewWasmPlugin"
  | "updateWasmPlugin ak = Inr r \<Longrightarrow> client_request r"
  | "client_request (findAllTenantsWithPagination ps)" | "client_request findAllTenants"
  | "client_request (findTenantById eid)" | "deleteTenant ak = Inr r \<Longrightarrow> client_request r"
  | "client_request (createTenant ak)" | "client_request createNewTenant"
  | "updateTenant ak = Inr r \<Longrightarrow> client_request r"
  | "updateSimpleAdmin user = Inr r \<Longrightarrow> client_request r"
  | "updateWebAuthnAdmin user = Inr r \<Longrightarrow> client_request r"
  | "client_request (createNewDataExporterConfig ekind)"
  | "client_request (findAllDataExporterConfigs paginationState)"
  | "client_request (findDataExporterConfigById eid)"
  | "deleteDataExporterConfig ak = Inr r \<Longrightarrow> client_request r"
  | "client_request (createDataExporterConfig ak)"
  | "updateDataExporterConfig ak = Inr r \<Longrightarrow> client_request r"
  | "client_request createNewJwtVerifier" | "client_request createNewCertificate"
  | "client_request createNewGroup" | "client_request createNewScript" | "client_request createNewApikey"
  | "createResources parse resources = Some r \<Longrightarrow> client_request r"
  | "client_request (tryIt content entity)" | "client_request (kafkaDataExportertryIt content)"
  | "client_request (routeEntries routeId)" | "client_request routePorts" | "client_request (graphQLTryIt url)"
  | "client_request (searchNextServices query)" | "client_request (graphqlSchemaToJson schema)"
  | "client_request (jsonToGraphqlSchema schema types)" | "client_request (findDraftsByKind kind)"
  | "client_request (duplicateAPI apiId body)" | "client_request (subscribeToPlan apiId planId version body)"
  | "client_request (confirmSubscription apiId subscriptionId version)"
  | "client_request (listImpactedSubscriptions apiId planId version)" | "client_request getPlugins"
  | "client_request getOldPlugins" | "client_request getCategories" | "client_request (convertAsRoute eid)"
  | "client_request (getEntityGraph entity eid)" | "client_request getWorkflowDocs"
  | "client_request (cl_findAll (forEntity e))" | "client_request (cl_create (forEntity e) c)"
  | "client_request (cl_findById (forEntity e) i)" | "client_request (cl_deleteById (forEntity e) i)"
  | "client_request (cl_template (forEntity e))" | "client_request (cl_form (forEntity e))"
  | "client_request (cl_findAllWithPagination (forEntity e) ps)"
  | "cl_update (forEntity e) c = Inr r \<Longrightarrow> client_request r"
  | "cl_delete (forEntity e) c = Inr r \<Longrightarrow> client_request r"
  | "client_request (cl_findAll (forEntityNext e))" | "client_request (cl_create (forEntityNext e) c)"
  | "client_request (cl_findById (forEntityNext e) i)" | "client_request (cl_deleteById (forEntityNext e) i)"
  | "client_request (cl_template (forEntityNext e))" | "client_request (cl_form (forEntityNext e))"
  | "client_request (cl_findAllWithPagination (forEntityNext e) ps)"
  | "client_request (cl_deleteAll (forEntityNext e))" | "client_request (cl_schema (forEntityNext e))"
  | "client_request (cl_fetch (forEntityNext e) p)" | "client_request (cl_patch (forEntityNext e) c i)"
  | "cl_update (forEntityNext e) c = Inr r \<Longrightarrow> client_request r"
  | "cl_delete (forEntityNext e) c = Inr r \<Longrightarrow> client_request r"
  | "cl_updateBy (forEntityNext e) c k = Inr r \<Longrightarrow> client_request r"
  | "cl_deleteBy (forEntityNext e) c k = Inr r \<Longrightarrow> client_request r"
  | "client_request (cl_findAll (forEntityNextWithGroup g e))"
  | "client_request (cl_create (forEntityNextWithGroup g e) c)"
  | "client_request (cl_findById (forEntityNextWithGroup g e) i)"
  | "client_request (cl_deleteById (forEntityNextWithGroup g e) i)"
  | "client_request (cl_template (forEntityNextWithGroup g e))"
  | "client_request (cl_form (forEntityNextWithGroup g e))"
  | "cl_update (forEntityNextWithGroup g e) c = Inr r \<Longrightarrow> client_request r"
  | "cl_delete (forEntityNextWithGroup g e) c = Inr r \<Longrightarrow> client_request r"
  | "client_request (cl_findAll (apisClient g v e))" | "client_request (cl_create (apisClient g v e) c)"
  | "client_request (cl_findById (apisClient g v e) i)" | "client_request (cl_deleteById (apisClient g v e) i)"
  | "client_request (cl_template (apisClient g v e))" | "client_request (cl_form (apisClient g v e))"
  | "client_request (cl_findAllWithPagination (apisClient g v e) ps)"
  | "cl_update (apisClient g v e) c = Inr r \<Longrightarrow> client_request r"
  | "cl_delete (apisClient g v e) c = Inr r \<Longrightarrow> client_request r" | "client_request (nc_find e)"
  | "client_request (nc_findAll e ps)" | "client_request (nc_findAllWithPagination e ps)"
  | "client_request (nc_create e c)" | "nc_update e c = Inr r \<Longrightarrow> client_request r"
  | "client_request (nc_fetch e i)" | "client_request (nc_findById e i)"
  | "nc_remove e c = Inr r \<Longrightarrow> client_request r" | "client_request (nc_deleteById e i)"
  | "client_request (nc_template e)" | "client_request (nc_form e)"

text \<open>
  The text of the URL starts with the prefix of the console, there is no body with \<open>GET\<close> (\<open>fetch\<close> would throw), and a content type
  that fits the body. Only the panic mode and the levels of the loggers send a text without a type, which \<open>fetch\<close> calls plain text.
\<close>

definition well_formed :: "api_request \<Rightarrow> bool" where
  "well_formed r \<longleftrightarrow>
     startsWith (rq_url r) ''/bo/'' \<and> (rq_method r = GET \<longrightarrow> rq_body r = None) \<and>
     (rq_body r = None \<longrightarrow> rq_type r = None) \<and> (\<forall>v. rq_body r = Some (Json v) \<longrightarrow> rq_type r = Some app_json) \<and>
     (\<forall>t. rq_body r = Some (Raw t) \<longrightarrow> rq_type r \<noteq> None \<or>
        t = ''{}'' \<and> (rq_url r = ''/bo/api/panic'' \<or> startsWith (rq_url r) ''/bo/api/loggers/''))"

lemma well_formed_simps [simp]:
  "well_formed (ask m u) \<longleftrightarrow> startsWith u ''/bo/''"
  "well_formed (send_json m u v) \<longleftrightarrow> startsWith u ''/bo/'' \<and> m \<noteq> GET"
  "well_formed (plain_fetch u) \<longleftrightarrow> startsWith u ''/bo/''"
  "well_formed (r\<lparr>rq_reads := a\<rparr>) = well_formed r"
  "well_formed (r\<lparr>rq_accept := b\<rparr>) = well_formed r"
  "well_formed (r\<lparr>rq_session := c\<rparr>) = well_formed r"
  by (auto simp: well_formed_def plain_fetch_def)

lemma well_formed_raw [simp]:
  "well_formed ((ask m u)\<lparr>rq_type := ct, rq_body := Some (Raw t)\<rparr>) \<longleftrightarrow> startsWith u ''/bo/'' \<and> m \<noteq> GET \<and>
     (ct \<noteq> None \<or> t = ''{}'' \<and> (u = ''/bo/api/panic'' \<or> startsWith u ''/bo/api/loggers/''))"
  by (auto simp: well_formed_def)

lemma starts_char: "startsWith (c # s) (d # t) \<longleftrightarrow> c = d \<and> startsWith s t" "startsWith s []"
  by (auto simp: startsWith_def)

lemma bo_literal [simp]: "startsWith (CHR ''/'' # CHR ''b'' # CHR ''o'' # CHR ''/'' # s) ''/bo/''"
  by (simp add: startsWith_def)

lemma well_formed_wrapped [simp]:
  "well_formed (wrapped u m b) \<longleftrightarrow> startsWith u ''/bo/'' \<and> (m = GET \<longrightarrow> \<not> truthy b)"
  by (auto simp: wrapped_def)

lemma paged_starts: "\<exists>s. paged_url route ps = route @ s"
  by (auto simp: paged_url_def Let_def)

lemma well_formed_paged [simp]:
  assumes "startsWith (pre @ route) ''/bo/''"
  shows "well_formed (findAllWithPagination route ps pre)"
proof -
  obtain s t where s: "pre @ paged_url route (case ps of None \<Rightarrow> page_one | Some p \<Rightarrow> p) = ''/bo/'' @ s"
    using assms paged_starts [of route "case ps of None \<Rightarrow> page_one | Some p \<Rightarrow> p"]
    by (auto simp: startsWith_iff_prefix prefix_def) (metis append.assoc append_Cons append_Nil)
  have "encode_char (CHR ''/'') = ''/''" "encode_char (CHR ''b'') = ''b''" "encode_char (CHR ''o'') = ''o''"
    by (simp_all add: encode_char_def uri_kept_def Let_def)
  then show ?thesis unfolding findAllWithPagination_def s by simp
qed

lemmas request_defs =
  syncWithLeader_def resetDB_def fetchLine_def fetchBodiesFor_def anonymousReporting_def env_request_def
   version_request_def fetchTunnels_def fetchClusterMembers_def clearClusterMembers_def
   fetchSnowMonkeyOutages_def fetchSnowMonkeyConfig_def updateSnowMonkeyConfig_def startSnowMonkey_def
   stopSnowMonkey_def fetchRemainingApikeyQuotas_def resetRemainingApikeyQuotas_def fetchRemainingQuotas_def
   resetRemainingQuotas_def fetchServiceEvents_def fetchGlobalEvents_def fetchServiceStats_def
   fetchGlobalStats_def fetchGlobalStatus_def fetchServiceStatus_def fetchServicesStatus_def
   fetchServiceResponseTime_def fetchApiKeysForPage_def fetchAllApikeys_def deleteApiKey_def getBearer_def
   createApiKey_def createRawApiKey_def updateApiKey_def updateRawApiKey_def fetchStandaloneApiKey_def
   deleteStandaloneApiKey_def createStandaloneApiKey_def updateStandaloneApiKey_def getGlobalConfig_def
   updateGlobalConfig_def findServicesForGroup_def findAllGroups_def findGroupById_def deleteGroup_def
   createGroup_def updateGroup_def findAllApps_def findAllEurekaServers_def getEurekaApps_def
   getExternalEurekaServers_def discardAllSessions_def discardSession_def fetchSessions_def
   discardAllPrivateAppsSessions_def discardAllPrivateAppsSessionsFor_def discardPrivateAppsSession_def
   fetchPrivateAppsSessions_def panicMode_def fetchAdmins_def discardAdmin_def fetchOtoroshi_def
   fetchAuditEvents_def fetchAlertEvents_def fetchLoggers_def changeLogLevel_def findAllJwtVerifiers_def
   findAllEvents_def findJwtVerifierById_def deleteJwtVerifier_def createJwtVerifier_def updateJwtVerifier_def
   findAllAuthConfigs_def findAuthConfigById_def findAuthConfigs_def deleteAuthConfig_def createAuthConfig_def
   getAuthModuleTypes_def createNewAuthConfig_def updateAuthConfig_def findAllCertificates_def
   findCertificateById_def deleteCertificate_def createCertificate_def updateCertificate_def certData_def
   certValid_def selfSignedCert_def selfSignedClientCert_def importP12_def letsEncryptCert_def caSignedCert_def
   caSignedClientCert_def caCert_def createCertificateFromForm_def createCSR_def renewCert_def
   findAllClientValidators_def findClientValidatorById_def deleteClientValidator_def createClientValidator_def
   updateClientValidator_def findAllScripts_def findScriptById_def deleteScript_def createScript_def
   compileScript_def updateScript_def fetchStats_def findAllTcpServices_def findTcpServiceById_def
   deleteTcpService_def createTcpService_def createNewTcpService_def updateTcpService_def
   findAllRoutesWithPagination_def findAllErrorTemplatesWithPagination_def findAllErrorTemplates_def
   findErrorTemplateById_def deleteErrorTemplate_def createErrorTemplate_def updateErrorTemplate_def
   findAllTeamsWithPagination_def findAllTeams_def findTeamById_def deleteTeam_def createTeam_def
   createNewTeam_def updateTeam_def findAllWasmPluginsWithPagination_def findAllWasmPlugins_def
   findWasmPluginById_def deleteWasmPlugin_def createWasmPlugin_def createNewWasmPlugin_def updateWasmPlugin_def
   findAllTenantsWithPagination_def findAllTenants_def findTenantById_def deleteTenant_def createTenant_def
   createNewTenant_def updateTenant_def updateSimpleAdmin_def updateWebAuthnAdmin_def
   createNewDataExporterConfig_def findAllDataExporterConfigs_def findDataExporterConfigById_def
   deleteDataExporterConfig_def createDataExporterConfig_def updateDataExporterConfig_def
   createNewJwtVerifier_def createNewCertificate_def createNewGroup_def createNewScript_def createNewApikey_def
   createResources_def tryIt_def kafkaDataExportertryIt_def routeEntries_def routePorts_def graphQLTryIt_def
   searchNextServices_def graphqlSchemaToJson_def jsonToGraphqlSchema_def findDraftsByKind_def duplicateAPI_def
   subscribeToPlan_def confirmSubscription_def listImpactedSubscriptions_def getPlugins_def getOldPlugins_def
   getCategories_def convertAsRoute_def getEntityGraph_def getWorkflowDocs_def nc_find_def nc_findAll_def
   nc_findAllWithPagination_def nc_create_def nc_update_def nc_fetch_def nc_findById_def nc_remove_def
   nc_deleteById_def nc_template_def nc_form_def

lemmas client_defs = forEntity_def forEntityNext_def forEntityNextWithGroup_def apisClient_def apis_path_def next_update_def
  next_delete_def any_group_def fetchWrapper_def fetchWrapperNext_def fetchWrapperNextWithGroup_def route_keys_def api_keys_def



section \<open>The keys of a route or an API\<close>

lemma key_collections: "api_keys a @ s \<noteq> route_keys b @ t"
  by (simp add: api_keys_def route_keys_def)

text \<open>
  The key of a route or of an API is updated in the collection where it was created, and it is
  deleted there exactly when one of the two parents is given and not the other.
\<close>

lemma api_key_parent:
  assumes "updateApiKey routeId apiId ak = Inr u" and "deleteApiKey routeId apiId ak = Inr d"
  shows "rq_url u = rq_url (createApiKey routeId apiId ak) @ ''/'' @ template_text (jprop ak ''clientId'') \<and>
    (rq_url d = rq_url u \<longleftrightarrow> given routeId \<noteq> given apiId)"
  using assms key_collections [of apiId _ routeId] key_collections [of apiId _ routeId, THEN not_sym]
  unfolding updateApiKey_def deleteApiKey_def createApiKey_def by (auto split: if_splits)

lemma api_key_parent_witness:
  "rq_url (ask DELETE ''/bo/api/proxy/api/routes/r/apikeys/k'') = rq_url (createApiKey (Some ''r'') None (JObj [(''clientId'', JStr ''k'')])) @ ''/k''"
proof -
  let ?k = "JObj [(''clientId'', JStr ''k'')]"
  have *: "jprop ?k ''clientId'' = JStr ''k''" "\<not> nullish ?k" by (simp_all add: jprop_def nullish_def)
  show ?thesis
    using api_key_parent [of "Some ''r''" None ?k "send_json PUT ''/bo/api/proxy/api/routes/r/apikeys/k'' ?k"
      "ask DELETE ''/bo/api/proxy/api/routes/r/apikeys/k''"]
    by (simp add: updateApiKey_def deleteApiKey_def given_def route_keys_def parent_text_def *)
qed

section \<open>Answers\<close>

text \<open>
  Reading the status or the response time of a service never fails: what is not an answer of
  status 200 in JSON is the empty list. Reading statistics or the global status fails exactly when
  the answer has status 200 and is not JSON.
\<close>

lemma failed_answers:
  "status_answer a \<noteq> Rejected \<and>
   (status_answer a = Fulfilled (JArr []) \<or> (\<exists>r. a = Answer r \<and> rs_status r = 200 \<and> status_answer a = read_json r)) \<and>
   (stats_answer a = Rejected \<longleftrightarrow> (\<exists>r. a = Answer r \<and> rs_status r = 200 \<and> rs_json r = None)) \<and>
   (global_status_answer a = Rejected \<longleftrightarrow> (\<exists>r. a = Answer r \<and> rs_status r = 200 \<and> rs_json r = None))"
  by (auto simp: status_answer_def stats_answer_def global_status_answer_def read_json_def Let_def
    split: fetch_outcome.splits option.splits)

text \<open>An environment that cannot be read leaves the tenant and the rights of the user as they were.\<close>

lemma env_rejected_keeps:
  "env_answer a w = (w', Rejected) \<Longrightarrow>
    we_tenant w' = we_tenant w \<and> we_superAdmin w' = we_superAdmin w \<and> we_tenantAdmin w' = we_tenantAdmin w"
  by (auto simp: env_answer_def split: promised.splits if_splits)

text \<open>An administrator of the list has the type of the store it comes from, and is discarded there.\<close>

lemma typed_type: "jprop (typed t v) ''type'' = JStr t"
  by (simp add: typed_def jprop_def)

lemma admins_of_stores:
  assumes "admins_answer a b = Fulfilled admins" and "x \<in> set admins"
  obtains p xs where "page_answer a = Fulfilled p" "pa_data p = JArr xs" "x \<in> typed ''SIMPLE'' ` set xs"
      "discardAdmin u i (jprop x ''type'') = Some (ask DELETE (''/bo/api/proxy/api/admins/simple/'' @ u))"
    | xs where "then_json b = Fulfilled (JArr xs)" "x \<in> typed ''WEBAUTHN'' ` set xs"
      "discardAdmin u i (jprop x ''type'') = Some (ask DELETE (''/bo/api/proxy/api/admins/webauthn/'' @ u @ ''/'' @ i))"
proof -
  from assms(1) obtain p w simple webauthn where "page_answer a = Fulfilled p" "then_json b = Fulfilled w"
    "js_list (pa_data p) = Some simple" "js_list w = Some webauthn"
    "admins = map (typed ''WEBAUTHN'') webauthn @ map (typed ''SIMPLE'') simple"
    by (auto simp: admins_answer_def split: promised.splits option.splits)
  moreover from this have "pa_data p = JArr simple" "w = JArr webauthn" by (auto simp: js_list_def split: js.splits)
  ultimately show thesis using assms(2) that by (auto simp: typed_type discardAdmin_def)
qed

section \<open>The number of pages\<close>

lemma decimal_value_append: "decimal_value (s @ [c]) = 10 * decimal_value s + (of_char c - 48)"
  by (simp add: decimal_value_def)

lemma decimal_value_nat_str: "decimal_value (nat_str n) = n"
proof (induction n rule: nat_str.induct)
  case (1 n)
  then show ?case
    by (subst nat_str.simps) (auto simp: decimal_value_append of_char_of decimal_value_def [of "[_]"])
qed

lemma nat_str_is_digits: "list_all is_digit (nat_str n)"
  using nat_str_digits [of n] by (auto simp: list_all_iff is_digit_def)

lemma trim_nat_str: "trim (nat_str n) = nat_str n"
proof -
  have ns: "\<forall>c\<in>set (nat_str n). \<not> is_space c"
    using nat_str_digits [of n] by (fastforce simp: is_space_def Let_def)
  have "dropWhile is_space t = t" if "\<forall>c\<in>set t. \<not> is_space c" for t
    using that by (cases t) auto
  from this [of "nat_str n"] this [of "rev (nat_str n)"] ns show ?thesis by (simp add: trim_def)
qed

lemma decimal_digits: "list_all is_digit s \<Longrightarrow> decimal s = int (decimal_value s)"
  by (cases s) (auto simp: decimal_def decimal_value_def is_digit_def)

lemma decimal_nat_str: "decimal (nat_str n) = int n"
  by (simp add: decimal_digits nat_str_is_digits decimal_value_nat_str)

lemma int32_shift: "int32 x = (x + 2 ^ 31) mod 2 ^ 32 - 2 ^ 31"
  by (simp add: int32_def sint_sbintrunc' signed_take_bit_eq_take_bit_shift take_bit_eq_mod)

lemma int32_small: "0 \<le> x \<Longrightarrow> x < 2 ^ 31 \<Longrightarrow> int32 x = x"
  by (simp add: int32_shift)

lemma int32_wraps: "2 ^ 31 \<le> x \<Longrightarrow> x < 2 ^ 32 \<Longrightarrow> int32 x = x - 2 ^ 32"
proof -
  assume "2 ^ 31 \<le> x" "x < 2 ^ 32"
  then have "(x + 2 ^ 31) mod 2 ^ 32 = x + 2 ^ 31 - 2 ^ 32"
    using mod_add_self2 [of "x + 2 ^ 31 - 2 ^ 32" "2 ^ 32"] mod_pos_pos_trivial [of "x + 2 ^ 31 - 2 ^ 32" "2 ^ 32"]
    by (simp add: add.commute)
  then show ?thesis by (simp add: int32_shift)
qed

lemma header_nat: "rs_headers r h = Some (nat_str n) \<Longrightarrow> header_int r h = int32 (int n)"
  by (simp add: header_int_def trim_nat_str decimal_nat_str)

lemma ceil_Fract:
  assumes "0 < b"
  shows "a \<le> \<lceil>Fract a b\<rceil> * b" and "a \<le> m * b \<Longrightarrow> \<lceil>Fract a b\<rceil> \<le> m"
proof -
  have q: "Fract a b = of_int a / of_int b" by (rule Fract_of_int_quotient)
  have "of_int a / of_int b \<le> (of_int \<lceil>Fract a b\<rceil> :: rat)" using q le_of_int_ceiling [of "Fract a b"] by simp
  with assms have "of_int a \<le> (of_int (\<lceil>Fract a b\<rceil> * b) :: rat)" by (simp add: divide_le_eq)
  then show "a \<le> \<lceil>Fract a b\<rceil> * b" by (simp only: of_int_le_iff)
  assume "a \<le> m * b"
  then have "of_int a \<le> (of_int m * of_int b :: rat)" by (simp flip: of_int_mult)
  with assms q show "\<lceil>Fract a b\<rceil> \<le> m" by (simp add: ceiling_le_iff divide_le_eq)
qed

text \<open>The count as the sign and 31 bits of a bitwise operation keep it: \<open>2 ^ 31\<close> and above start again below zero.\<close>

definition wrapped_count :: "nat \<Rightarrow> int" where
  "wrapped_count n = (if n mod 2 ^ 32 < 2 ^ 31 then int (n mod 2 ^ 32) else int (n mod 2 ^ 32) - 2 ^ 32)"

lemma int32_count: "int32 (int n) = wrapped_count n"
proof -
  let ?y = "int n mod 2 ^ 32"
  have y: "0 \<le> ?y" "?y < 2 ^ 32" "int (n mod 2 ^ 32) = ?y" by (simp_all add: zmod_int)
  have "int32 (int n) = (?y + 2 ^ 31) mod 2 ^ 32 - 2 ^ 31" by (simp add: int32_shift mod_add_left_eq)
  also have "\<dots> = int32 ?y" by (simp only: int32_shift)
  also have "\<dots> = (if ?y < 2 ^ 31 then ?y else ?y - 2 ^ 32)" using y(1,2) by (simp add: int32_small int32_wraps del: mod_less)
  finally show ?thesis using y(3) by (simp add: wrapped_count_def flip: y(3))
qed

text \<open>
  C38. When the server counts \<open>n\<close> entities and says its pages hold \<open>s\<close> of them (fewer than \<open>2 ^ 31\<close>), the number of pages of the
  answer is the least that holds the count as 32 bits keep it. So it is the least that holds all the entities when there are fewer
  than \<open>2 ^ 31\<close> of them, and it is negative or zero from there to \<open>2 ^ 32\<close>.
\<close>

theorem pages_hold_count:
  assumes "page_answer (Answer r) = Fulfilled p"
    and "rs_headers r ''X-Count'' = Some (nat_str n)" and "rs_headers r ''X-Page-Size'' = Some (nat_str s)"
    and "0 < s" and "s < 2 ^ 31"
  shows "\<exists>k. pa_pages p = Pages k \<and> wrapped_count n \<le> k * int s \<and> (\<forall>m. wrapped_count n \<le> m * int s \<longrightarrow> k \<le> m) \<and>
    (n < 2 ^ 31 \<longrightarrow> wrapped_count n = int n) \<and> (2 ^ 31 \<le> n \<and> n < 2 ^ 32 \<longrightarrow> k \<le> 0)"
proof -
  have s: "header_int r ''X-Page-Size'' = int s" "0 < int s" using assms(3,4,5) by (simp_all add: header_nat int32_small)
  let ?c = "wrapped_count n"
  have p: "pa_pages p = Pages \<lceil>Fract ?c (int s)\<rceil>"
    using assms(1,4) s header_nat [OF assms(2)] by (auto simp: page_answer_def ceil_div_def int32_count split: option.splits)
  moreover have "n < 2 ^ 31 \<longrightarrow> ?c = int n" "2 ^ 31 \<le> n \<and> n < 2 ^ 32 \<longrightarrow> ?c \<le> 0 * int s" by (simp_all add: wrapped_count_def)
  ultimately show ?thesis using ceil_Fract [OF s(2), of ?c] by blast
qed

definition forty_two :: response where
  "forty_two = \<lparr>rs_status = 200, rs_headers = (\<lambda>h. if h = ''X-Count'' then Some (nat_str 42)
     else if h = ''X-Page-Size'' then Some (nat_str 15) else None), rs_json = Some (JArr [])\<rparr>"

theorem pages_hold_count_witness:
  "\<exists>k. pa_pages \<lparr>pa_data = JArr [], pa_pages = Pages 3, pa_offset = 0, pa_ngPages = 0\<rparr> = Pages k \<and> 42 \<le> k * 15"
proof -
  have "ceil_div 42 15 = Pages 3" by code_simp
  then have "page_answer (Answer forty_two) = Fulfilled \<lparr>pa_data = JArr [], pa_pages = Pages 3, pa_offset = 0, pa_ngPages = 0\<rparr>"
    by (simp add: page_answer_def forty_two_def header_nat int32_small) (simp add: header_int_def)
  from pages_hold_count [OF this, of 42 15] show ?thesis by (auto simp: forty_two_def)
qed

end
