(* ===== verification/Input_Lists.thy ===== *)
theory Input_Lists
  imports Prelude
begin

text \<open>
  The inputs of the forms that edit an object, a list, a number or an address
  (\<open>components/inputs\<close>).

  \<^item> \<open>ObjectInput\<close> keeps the rows it shows in its state. Its parent is controlled: it gives back the
    object it is told of, and the rows are then read again from it. \<open>object_input\<close> is the two together.
  \<^item> The other inputs keep nothing: an operation is a function of the value, and gives the value
    told to the parent, or \<open>None\<close> when the parent is told nothing.
  \<^item> JavaScript lists the keys of an object that look like array indexes first. Here they may
    occur (a user types them), and \<open>own_entries\<close> is that order.
\<close>

section \<open>Objects as rows\<close>

definition digits_number :: "string \<Rightarrow> nat" where
  "digits_number s = foldl (\<lambda>n c. 10 * n + (of_char c - 48)) 0 s"

definition index_key :: "string \<Rightarrow> bool" where
  "index_key s \<longleftrightarrow>
     s \<noteq> [] \<and> list_all is_digit s \<and> (length s = 1 \<or> hd s \<noteq> CHR ''0'') \<and> digits_number s < 4294967295"

definition own_entries :: "obj \<Rightarrow> obj" where
  "own_entries o' =
     sort_key (\<lambda>e. digits_number (fst e)) (filter (\<lambda>e. index_key (fst e)) o') @ filter (\<lambda>e. \<not> index_key (fst e)) o'"

record row =
  rw_idx :: nat
  rw_key :: string
  rw_value :: js

definition rows_numbered :: "(string \<times> js) list \<Rightarrow> row list" where
  "rows_numbered es = map (\<lambda>(i, k, v). \<lparr>rw_idx = i, rw_key = k, rw_value = v\<rparr>) (enumerate 0 es)"

definition rows_of :: "obj \<Rightarrow> row list" where
  "rows_of o' = rows_numbered (own_entries o')"

definition renumber :: "row list \<Rightarrow> row list" where
  "renumber rs = map (\<lambda>(i, r). r\<lparr>rw_idx := i\<rparr>) (enumerate 0 rs)"

record object_input =
  oi_data :: "row list"
  oi_value :: obj

definition object_input_init :: "obj \<Rightarrow> object_input" where
  "object_input_init v = \<lparr>oi_data = rows_of v, oi_value = v\<rparr>"

text \<open>The object the parent is told of: nothing while a key occurs twice.\<close>

definition rows_object :: "row list \<Rightarrow> obj option" where
  "rows_object out =
     (if distinct (map rw_key out)
      then Some (foldl (\<lambda>acc r. AList.update (rw_key r) (rw_value r) acc) [] out) else None)"

definition given_value :: "obj \<Rightarrow> object_input \<Rightarrow> object_input" where
  "given_value v s = \<lparr>oi_data = rows_of v, oi_value = v\<rparr>"

definition set_data :: "row list \<Rightarrow> object_input \<Rightarrow> object_input" where
  "set_data rs s = (case rows_object rs of None \<Rightarrow> s\<lparr>oi_data := rs\<rparr> | Some v \<Rightarrow> given_value v (s\<lparr>oi_data := rs\<rparr>))"

definition oi_changeValue :: "nat \<Rightarrow> js \<Rightarrow> object_input \<Rightarrow> object_input" where
  "oi_changeValue idx v s = set_data (map (\<lambda>r. if rw_idx r = idx then r\<lparr>rw_value := v\<rparr> else r) (oi_data s)) s"

definition oi_changeKey :: "nat \<Rightarrow> string \<Rightarrow> object_input \<Rightarrow> object_input" where
  "oi_changeKey idx k s = set_data (map (\<lambda>r. if rw_idx r = idx then r\<lparr>rw_key := k\<rparr> else r) (oi_data s)) s"

definition empty_row :: "nat \<Rightarrow> row" where
  "empty_row i = \<lparr>rw_idx = i, rw_key = '''', rw_value = JStr ''''\<rparr>"

definition oi_addFirst :: "object_input \<Rightarrow> object_input" where
  "oi_addFirst s = set_data (renumber (empty_row 0 # oi_data s)) s"

definition oi_addNext :: "object_input \<Rightarrow> object_input" where
  "oi_addNext s = set_data (renumber (oi_data s @ [empty_row (length (oi_data s))])) s"

definition oi_remove :: "nat \<Rightarrow> object_input \<Rightarrow> object_input" where
  "oi_remove idx s = set_data (renumber (filter (\<lambda>r. rw_idx r \<noteq> idx) (oi_data s))) s"

datatype oi_event =
    Change_value nat js
  | Change_key nat string
  | Add_first
  | Add_next
  | Remove_row nat
  | Given obj

fun oi_step :: "object_input \<Rightarrow> oi_event \<Rightarrow> object_input" where
  "oi_step s (Change_value i v) = oi_changeValue i v s"
| "oi_step s (Change_key i k) = oi_changeKey i k s"
| "oi_step s Add_first = oi_addFirst s"
| "oi_step s Add_next = oi_addNext s"
| "oi_step s (Remove_row i) = oi_remove i s"
| "oi_step s (Given v) = given_value v s"

text \<open>Whether the text is already a hash of bcrypt: the button that hashes it is then disabled.\<close>

definition disableBcrypt :: "string \<Rightarrow> bool" where
  "disableBcrypt v \<longleftrightarrow>
     v \<noteq> [] \<and> (startsWith v ''$2a$'' \<or> startsWith v ''$2$'' \<or> startsWith v ''$2b$'' \<or> startsWith v ''$2x$'' \<or> startsWith v ''$2y$'')"

section \<open>Objects without rows\<close>

text \<open>\<open>VerticalObjectInput\<close> and \<open>ArraySelectInput\<close>; a value or a default that is absent is \<open>JUndef\<close>.\<close>

definition vo_changeValue :: "js \<Rightarrow> string \<Rightarrow> js \<Rightarrow> obj" where
  "vo_changeValue value name v = AList.update name v (entries value)"

definition vo_changeKey :: "js \<Rightarrow> string \<Rightarrow> string \<Rightarrow> obj" where
  "vo_changeKey value oldName newName =
     (let newValues = entries value; oldValue = obj_get newValues oldName
      in AList.update newName oldValue (obj_del oldName newValues))"

definition vo_default :: "js \<Rightarrow> js" where
  "vo_default d = js_or d (JObj [('''', JStr '''')])"

definition vo_addFirst :: "js \<Rightarrow> js \<Rightarrow> js option" where
  "vo_addFirst d value = (if \<not> truthy value \<or> entries value = [] then Some (vo_default d) else None)"

definition vo_addNext :: "js \<Rightarrow> js \<Rightarrow> obj" where
  "vo_addNext d value = spread (entries value) (entries (vo_default d))"

definition vo_remove :: "js \<Rightarrow> string \<Rightarrow> obj" where
  "vo_remove value name = obj_del name (entries value)"

section \<open>Lists\<close>

text \<open>
  \<open>ArrayInput\<close>. The parent is told the new list, the value changed and its place. A list that is
  absent is \<open>None\<close>: \<open>addNext\<close>, \<open>changeValue\<close> and \<open>remove\<close> are on the rows of a list that is there.
\<close>

record list_change =
  lc_values :: "js list"
  lc_value :: js
  lc_idx :: nat

text \<open>\<open>newValues[idx] = v\<close> past the end fills the gap with \<open>undefined\<close>.\<close>

definition set_at :: "nat \<Rightarrow> js \<Rightarrow> js list \<Rightarrow> js list" where
  "set_at i v xs = (if i < length xs then xs[i := v] else xs @ replicate (i - length xs) JUndef @ [v])"

definition ai_changeValue :: "js list \<Rightarrow> js \<Rightarrow> nat \<Rightarrow> list_change" where
  "ai_changeValue xs v idx = \<lparr>lc_values = set_at idx v xs, lc_value = v, lc_idx = idx\<rparr>"

definition ai_default :: "js \<Rightarrow> js" where
  "ai_default d = js_or d (JStr '''')"

definition ai_addFirst :: "js \<Rightarrow> js list option \<Rightarrow> list_change option" where
  "ai_addFirst d xs =
     (if xs = None \<or> xs = Some [] then Some \<lparr>lc_values = [ai_default d], lc_value = ai_default d, lc_idx = 0\<rparr> else None)"

definition ai_addNext :: "js \<Rightarrow> js list \<Rightarrow> list_change" where
  "ai_addNext d xs = (let ys = xs @ [ai_default d] in \<lparr>lc_values = ys, lc_value = ai_default d, lc_idx = length ys - 1\<rparr>)"

definition ai_remove :: "js list \<Rightarrow> nat \<Rightarrow> list_change" where
  "ai_remove xs idx = \<lparr>lc_values = take idx xs @ drop (Suc idx) xs, lc_value = JNull, lc_idx = idx\<rparr>"

text \<open>The options: those given, or those of a request, each changed by the transformers of the input.\<close>

record option_env =
  oe_mapping :: "(string \<times> string) option"
  oe_transformer :: "(js \<Rightarrow> js) option"

definition transform_option :: "option_env \<Rightarrow> js \<Rightarrow> js res" where
  "transform_option env v =
     (case oe_mapping env of
        Some (value, label) \<Rightarrow>
          rbind (fld v value) (\<lambda>x. rbind (fld v label) (\<lambda>l. Inr (JObj [(''value'', x), (''label'', l)])))
      | None \<Rightarrow> (case oe_transformer env of Some f \<Rightarrow> Inr (f v) | None \<Rightarrow> Inr v))"

record options_state =
  os_loading :: bool
  os_values :: "js list"

definition options_asked :: "options_state \<Rightarrow> options_state" where
  "options_asked s = s\<lparr>os_loading := True\<rparr>"

definition options_answered :: "option_env \<Rightarrow> js list \<Rightarrow> options_state \<Rightarrow> options_state" where
  "options_answered env vs s =
     (case rmap (transform_option env) vs of Inl e \<Rightarrow> s | Inr ws \<Rightarrow> s\<lparr>os_values := ws, os_loading := False\<rparr>)"

text \<open>
  The values given to \<open>ArrayInput\<close> when it is mounted: taken as options only when each has a
  \<open>label\<close> and a property \<open>values\<close>, and turned into options otherwise.
\<close>

definition mounted_values :: "js list \<Rightarrow> js list" where
  "mounted_values vs =
     (if list_all (\<lambda>v. truthy (jprop v ''values'') \<and> truthy (jprop v ''label'')) vs then vs
      else map (\<lambda>v. JObj [(''label'', v), (''value'', v)]) vs)"

text \<open>The options of \<open>SelectInput\<close>.\<close>

definition select_option :: "js \<Rightarrow> js" where
  "select_option a = JObj [(''label'', js_or (jprop a ''label'') a), (''value'', js_or (jprop a ''value'') a)]"

text \<open>
  The option of \<open>ReactSelectOverride\<close> that is shown: the first that is the value, or has it when the
  first option is an object. The value is a text, a number or absent.
\<close>

definition shown_option :: "js list \<Rightarrow> js \<Rightarrow> js" where
  "shown_option options value =
     (let objects = options \<noteq> [] \<and> (is_object (hd options) \<or> is_array (hd options)) in
      case find (\<lambda>o'. o' = value \<or> (objects \<and> jprop o' ''value'' = value)) options of
        None \<Rightarrow> JUndef
      | Some opt \<Rightarrow> JObj [(''label'', js_or (jprop opt ''name'') (jprop opt ''label'')), (''value'', jprop opt ''value'')])"

section \<open>Numbers\<close>

text \<open>
  \<open>parseInt(s, 10)\<close> and \<open>parseFloat\<close>: the longest start of the text that is a number (\<open>None\<close> for
  \<open>NaN\<close>). The number is the one written, before it is rounded to a double.
\<close>

definition signed :: "string \<Rightarrow> bool \<times> string" where
  "signed s =
     (case dropWhile is_space s of
        [] \<Rightarrow> (False, [])
      | c # t \<Rightarrow> if c = CHR ''-'' then (True, t) else if c = CHR ''+'' then (False, t) else (False, c # t))"

definition read_int :: "string \<Rightarrow> int option" where
  "read_int s =
     (let (neg, t) = signed s; ds = takeWhile is_digit t; n = int (digits_number ds)
      in if ds = [] then None else Some (if neg then - n else n))"

definition exponent :: "string \<Rightarrow> int" where
  "exponent t =
     (case t of
        c # u \<Rightarrow> if c = CHR ''e'' \<or> c = CHR ''E'' then (case read_int (takeWhile (\<lambda>c. \<not> is_space c) u) of Some n \<Rightarrow> n | None \<Rightarrow> 0) else 0
      | [] \<Rightarrow> 0)"

definition parse_float :: "string \<Rightarrow> rat option" where
  "parse_float s =
     (let (neg, t) = signed s;
          ds = takeWhile is_digit t; u = dropWhile is_digit t;
          (fs, w) = (case u of c # r \<Rightarrow> if c = CHR ''.'' then (takeWhile is_digit r, dropWhile is_digit r) else ([], u) | [] \<Rightarrow> ([], []));
          m = of_nat (digits_number (ds @ fs)) / 10 ^ length fs;
          e = exponent w;
          x = (if 0 \<le> e then m * 10 ^ nat e else m / 10 ^ nat (- e))
      in if ds = [] \<and> fs = [] then None else Some (if neg then - x else x))"

definition parse_number :: "string \<Rightarrow> rat option" where
  "parse_number v = (if CHR ''.'' \<in> set v then parse_float v else map_option of_int (read_int v))"

text \<open>What \<open>NumberInput\<close> tells its parent (nothing for \<open>NaN\<close>), and \<open>VerticalNumberInput\<close> (\<open>NaN\<close> too).\<close>

definition number_change :: "string \<Rightarrow> rat option" where
  "number_change v = (if v = [] then Some 0 else parse_number v)"

definition vertical_number_change :: "string \<Rightarrow> rat option" where
  "vertical_number_change v = parse_number v"

section \<open>Addresses\<close>

text \<open>
  The part of a service its address is made of. A text that is absent and the empty text are not
  told apart by the code, apart from the root, which is \<open>null\<close> when there is none.
\<close>

record service_domain =
  sd_domain :: string
  sd_env :: string
  sd_subdomain :: string
  sd_root :: "string option"
  sd_https :: bool

definition parseDomain :: "service_domain \<Rightarrow> string" where
  "parseDomain s =
     (let domain = sd_domain s;
          domain = (if sd_env s \<noteq> [] \<and> sd_env s \<noteq> ''prod'' then sd_env s @ ''.'' @ domain else domain);
          domain = (if trim (sd_subdomain s) \<noteq> [] then sd_subdomain s @ ''.'' @ domain else domain)
      in (if sd_https s then ''https://'' else ''http://'') @ domain @
         (case sd_root s of Some (c # r) \<Rightarrow> c # r | _ \<Rightarrow> []))"

text \<open>\<open>text.replace(p, '')\<close>: the first occurrence.\<close>

fun cut_first :: "string \<Rightarrow> string \<Rightarrow> string" where
  "cut_first p [] = []"
| "cut_first p (c # s) = (if p \<noteq> [] \<and> startsWith (c # s) p then drop (length p) (c # s) else c # cut_first p s)"

definition domain_parts :: "string list \<Rightarrow> service_domain \<Rightarrow> service_domain" where
  "domain_parts reverseParts s =
     (case reverseParts of
        a # b # e # r # rs \<Rightarrow>
          s\<lparr>sd_domain := b @ ''.'' @ a, sd_env := e, sd_subdomain := join ''.'' (rev (r # rs))\<rparr>
      | [a, b, c] \<Rightarrow> s\<lparr>sd_domain := b @ ''.'' @ a, sd_env := ''prod'', sd_subdomain := join ''.'' (rev [c])\<rparr>
      | [a, b] \<Rightarrow> s\<lparr>sd_domain := a, sd_env := ''prod'', sd_subdomain := b\<rparr>
      | [a] \<Rightarrow> s\<lparr>sd_domain := a, sd_env := ''prod'', sd_subdomain := ''''\<rparr>
      | [] \<Rightarrow> s\<lparr>sd_domain := '''', sd_env := ''prod'', sd_subdomain := ''''\<rparr>)"

text \<open>The new service, and whether the input shows its error.\<close>

definition domain_change :: "string \<Rightarrow> service_domain \<Rightarrow> service_domain \<times> bool" where
  "domain_change rawValue s =
     (let s = s\<lparr>sd_https := startsWith rawValue ''https://''\<rparr>;
          value = cut_first ''://'' (cut_first ''http://'' (cut_first ''https://'' rawValue));
          (value, s) =
            (if CHR ''/'' \<in> set value then
               (let parts = split_on (CHR ''/'') value; matchingRoot = ''/'' @ join ''/'' (tl parts)
                in (hd parts, s\<lparr>sd_root := (if trim matchingRoot \<noteq> ''/'' then Some matchingRoot else None)\<rparr>))
             else (value, s\<lparr>sd_root := None\<rparr>));
          reverseParts = filter (\<lambda>i. i \<noteq> []) (rev (split_on (CHR ''.'') value))
      in (domain_parts reverseParts s, reverseParts = []))"

section \<open>The rows are the object\<close>

definition pairs :: "row list \<Rightarrow> (string \<times> js) list" where
  "pairs rs = map (\<lambda>r. (rw_key r, rw_value r)) rs"

lemma pairs_simps [simp]:
  "pairs [] = []" "pairs (r # rs) = (rw_key r, rw_value r) # pairs rs" "pairs (rs @ ss) = pairs rs @ pairs ss"
  "length (pairs rs) = length rs" "map fst (pairs rs) = map rw_key rs" "pairs (take i rs) = take i (pairs rs)"
  "pairs (drop i rs) = drop i (pairs rs)"
  by (simp_all add: pairs_def take_map drop_map)

lemma update_new: "k \<notin> fst ` set al \<Longrightarrow> AList.update k v al = al @ [(k, v)]"
  by (induction al) auto

lemma update_rows:
  "distinct (map fst acc @ map rw_key rs) \<Longrightarrow>
    foldl (\<lambda>acc r. AList.update (rw_key r) (rw_value r) acc) acc rs = acc @ pairs rs"
proof (induction rs arbitrary: acc)
  case (Cons r rs)
  then have "rw_key r \<notin> fst ` set acc" by auto
  with Cons.prems show ?case by (simp add: update_new Cons.IH)
qed simp

lemma rows_object_distinct: "rows_object rs = (if distinct (map rw_key rs) then Some (pairs rs) else None)"
  by (simp add: rows_object_def update_rows [of "[]", simplified])

lemma upt_Cons: "[n..<n + length (x # xs)] = n # [Suc n..<Suc n + length xs]"
  by (simp add: upt_conv_Cons del: upt_Suc)

lemma rows_numbered_facts: "pairs (rows_numbered es) = es" "map rw_idx (rows_numbered es) = [0..<length es]" "length (rows_numbered es) = length es"
proof -
  have "pairs (map (\<lambda>(i, k, v). \<lparr>rw_idx = i, rw_key = k, rw_value = v\<rparr>) (enumerate n es)) = es" for n
    by (induction es arbitrary: n) auto
  then show "pairs (rows_numbered es) = es" by (simp add: rows_numbered_def)
  have "map rw_idx (map (\<lambda>(i, k, v). \<lparr>rw_idx = i, rw_key = k, rw_value = v\<rparr>) (enumerate n es)) = [n..<n + length es]" for n
    by (induction es arbitrary: n) (auto simp: upt_Cons simp del: upt_Suc list.size)
  then show "map rw_idx (rows_numbered es) = [0..<length es]" by (simp add: rows_numbered_def)
  show "length (rows_numbered es) = length es" by (simp add: rows_numbered_def)
qed

lemma renumber_facts: "pairs (renumber rs) = pairs rs" "map rw_idx (renumber rs) = [0..<length rs]" "length (renumber rs) = length rs"
proof -
  have "pairs (map (\<lambda>(i, r). r\<lparr>rw_idx := i\<rparr>) (enumerate n rs)) = pairs rs" for n
    by (induction rs arbitrary: n) auto
  then show "pairs (renumber rs) = pairs rs" by (simp add: renumber_def)
  have "map rw_idx (map (\<lambda>(i, r). r\<lparr>rw_idx := i\<rparr>) (enumerate n rs)) = [n..<n + length rs]" for n
    by (induction rs arbitrary: n) (auto simp: upt_Cons simp del: upt_Suc list.size)
  then show "map rw_idx (renumber rs) = [0..<length rs]" by (simp add: renumber_def)
  show "length (renumber rs) = length rs" by (simp add: renumber_def)
qed

definition positioned :: "row list \<Rightarrow> bool" where
  "positioned rs \<longleftrightarrow> map rw_idx rs = [0..<length rs]"

lemma positioned_nth: "positioned rs \<Longrightarrow> i < length rs \<Longrightarrow> rw_idx (rs ! i) = i"
  by (metis positioned_def add_0 nth_map nth_upt)

lemma map_at_position:
  assumes "positioned rs"
  shows "map (\<lambda>r. if rw_idx r = i then f r else r) rs = (if i < length rs then rs[i := f (rs ! i)] else rs)"
  using positioned_nth [OF assms] by (auto intro!: nth_equalityI simp: nth_list_update)

lemma filter_from:
  "map rw_idx rs = [a..<a + length rs] \<Longrightarrow> filter (\<lambda>r. rw_idx r \<noteq> a + i) rs = take i rs @ drop (Suc i) rs"
proof (induction rs arbitrary: a i)
  case (Cons r rs)
  then have r: "rw_idx r = a" and rs: "map rw_idx rs = [Suc a..<Suc a + length rs]"
    by (simp_all add: upt_Cons del: upt_Suc list.size)
  show ?case
  proof (cases i)
    case 0
    have "\<forall>x\<in>set rs. rw_idx x \<noteq> a"
      using rs by (metis Suc_le_eq atLeastLessThan_upt atLeastLessThan_iff image_eqI less_irrefl list.set_map)
    then show ?thesis using 0 r by (simp add: filter_True)
  next
    case (Suc j)
    with Cons.IH [OF rs, of j] r show ?thesis by simp
  qed
qed simp

lemma filter_position: "positioned rs \<Longrightarrow> filter (\<lambda>r. rw_idx r \<noteq> i) rs = take i rs @ drop (Suc i) rs"
  using filter_from [of rs 0 i] by (simp add: positioned_def)

lemma own_entries_texts: "\<forall>e\<in>set o'. \<not> index_key (fst e) \<Longrightarrow> own_entries o' = o'"
  by (simp add: own_entries_def filter_True filter_False)

text \<open>The editor of a list of entries the input stands for; the places are those of the rows.\<close>

fun entries_step :: "(string \<times> js) list \<Rightarrow> oi_event \<Rightarrow> (string \<times> js) list" where
  "entries_step es (Change_value i v) = (if i < length es then es[i := (fst (es ! i), v)] else es)"
| "entries_step es (Change_key i k) = (if i < length es then es[i := (k, snd (es ! i))] else es)"
| "entries_step es Add_first = ('''', JStr '''') # es"
| "entries_step es Add_next = es @ [('''', JStr '''')]"
| "entries_step es (Remove_row i) = take i es @ drop (Suc i) es"
| "entries_step es (Given v) = v"

definition text_keys :: "(string \<times> js) list \<Rightarrow> bool" where
  "text_keys es \<longleftrightarrow> (\<forall>e\<in>set es. \<not> index_key (fst e))"

fun text_event :: "oi_event \<Rightarrow> bool" where
  "text_event (Change_key i k) \<longleftrightarrow> \<not> index_key k"
| "text_event (Given v) \<longleftrightarrow> keys_ok v \<and> text_keys v"
| "text_event _ \<longleftrightarrow> True"

definition oi_inv :: "object_input \<Rightarrow> bool" where
  "oi_inv s \<longleftrightarrow> positioned (oi_data s) \<and> text_keys (pairs (oi_data s)) \<and>
     (distinct (map rw_key (oi_data s)) \<longrightarrow> oi_value s = pairs (oi_data s))"

lemma empty_row_simps [simp]: "rw_key (empty_row i) = ''''" "rw_value (empty_row i) = JStr ''''"
  by (simp_all add: empty_row_def)

lemma empty_not_index: "\<not> index_key ''''" by (simp add: index_key_def)

lemma positioned_simps [simp]: "positioned (rows_numbered es)" "positioned (renumber rs)"
  by (simp_all add: positioned_def rows_numbered_facts renumber_facts)

lemma set_data_facts:
  assumes "positioned rs" and "text_keys (pairs rs)"
  shows "oi_inv (set_data rs s)" "pairs (oi_data (set_data rs s)) = pairs rs"
proof -
  have own: "own_entries (pairs rs) = pairs rs"
    using assms(2) by (simp add: text_keys_def own_entries_texts)
  show "oi_inv (set_data rs s)"
    using assms by (simp add: set_data_def rows_object_distinct oi_inv_def given_value_def rows_of_def own rows_numbered_facts)
  show "pairs (oi_data (set_data rs s)) = pairs rs"
    by (simp add: set_data_def rows_object_distinct given_value_def rows_of_def own rows_numbered_facts)
qed

lemma pairs_update: "pairs (rs[i := r]) = (pairs rs)[i := (rw_key r, rw_value r)]"
  by (simp add: pairs_def map_update)

lemma pairs_nth: "i < length rs \<Longrightarrow> pairs rs ! i = (rw_key (rs ! i), rw_value (rs ! i))"
  by (simp add: pairs_def)

lemma positioned_update: "positioned rs \<Longrightarrow> rw_idx r = i \<Longrightarrow> positioned (rs[i := r])"
  unfolding positioned_def by (cases "i < length rs") (auto simp: map_update list_update_same_conv list_update_beyond)

lemma text_keys_step: "text_keys es \<Longrightarrow> text_event e \<Longrightarrow> text_keys (entries_step es e)"
  by (cases e) (auto simp: text_keys_def empty_not_index dest!: set_update_subset_insert [THEN subsetD]
    in_set_takeD in_set_dropD)

text \<open>The rows that an event leaves, before the parent is told.\<close>

fun rows_after :: "row list \<Rightarrow> oi_event \<Rightarrow> row list" where
  "rows_after rs (Change_value i v) = map (\<lambda>r. if rw_idx r = i then r\<lparr>rw_value := v\<rparr> else r) rs"
| "rows_after rs (Change_key i k) = map (\<lambda>r. if rw_idx r = i then r\<lparr>rw_key := k\<rparr> else r) rs"
| "rows_after rs Add_first = renumber (empty_row 0 # rs)"
| "rows_after rs Add_next = renumber (rs @ [empty_row (length rs)])"
| "rows_after rs (Remove_row i) = renumber (filter (\<lambda>r. rw_idx r \<noteq> i) rs)"
| "rows_after rs (Given v) = rows_of v"

lemma oi_step_rows: "e \<noteq> Given v \<Longrightarrow> (\<And>v. e \<noteq> Given v) \<Longrightarrow> oi_step s e = set_data (rows_after (oi_data s) e) s"
  by (cases e) (auto simp: oi_changeValue_def oi_changeKey_def oi_addFirst_def oi_addNext_def oi_remove_def)

lemma rows_after_facts:
  assumes "positioned rs" and "\<And>v. e = Given v \<Longrightarrow> text_keys v"
  shows "positioned (rows_after rs e)" "pairs (rows_after rs e) = entries_step (pairs rs) e"
proof -
  show "positioned (rows_after rs e)"
    using assms positioned_nth [OF assms(1)]
    by (cases e) (auto simp: map_at_position rows_of_def intro!: positioned_update)
  show "pairs (rows_after rs e) = entries_step (pairs rs) e"
    using assms
    by (cases e) (auto simp: map_at_position pairs_update pairs_nth renumber_facts filter_position rows_of_def
      rows_numbered_facts own_entries_texts text_keys_def)
qed

lemma oi_step_refines:
  assumes "oi_inv s" and "text_event e"
  shows "oi_inv (oi_step s e)" "pairs (oi_data (oi_step s e)) = entries_step (pairs (oi_data s)) e"
proof -
  have pos: "positioned (oi_data s)" and tk: "text_keys (pairs (oi_data s))" using assms(1) by (simp_all add: oi_inv_def)
  have after: "positioned (rows_after (oi_data s) e)" "pairs (rows_after (oi_data s) e) = entries_step (pairs (oi_data s)) e"
    using rows_after_facts [OF pos, of e] assms(2) by fastforce+
  have "oi_inv (oi_step s e) \<and> pairs (oi_data (oi_step s e)) = entries_step (pairs (oi_data s)) e"
  proof (cases "\<exists>v. e = Given v")
    case True
    then obtain v where v: "e = Given v" by auto
    with assms(2) have "text_keys v" "own_entries v = v" by (simp_all add: text_keys_def own_entries_texts)
    with v show ?thesis by (simp add: given_value_def rows_of_def oi_inv_def rows_numbered_facts)
  next
    case False
    then have "oi_step s e = set_data (rows_after (oi_data s) e) s" by (auto intro!: oi_step_rows)
    with set_data_facts [of "rows_after (oi_data s) e" s] after text_keys_step [OF tk assms(2)] show ?thesis by simp
  qed
  then show "oi_inv (oi_step s e)" "pairs (oi_data (oi_step s e)) = entries_step (pairs (oi_data s)) e" by auto
qed

interpretation rows: implements oi_step entries_step "\<lambda>s. pairs (oi_data s)" oi_inv text_event
  by unfold_locales (simp_all add: oi_step_refines)

lemma oi_inv_init: "text_keys v \<Longrightarrow> oi_inv (object_input_init v)"
  by (simp add: oi_inv_def object_input_init_def rows_of_def rows_numbered_facts own_entries_texts text_keys_def)

text \<open>
  C11. Whatever is done to an object input, as long as no key looks like the index of an array, its
  rows are those of an editor of a list of entries: a row that is renamed, or whose value changes,
  keeps its place and the others are left alone. When no two rows have the same key the object of
  the parent has exactly these entries, in this order.
\<close>

theorem rows_are_the_object:
  assumes "text_keys v" and "list_all text_event es"
  shows "pairs (oi_data (foldl oi_step (object_input_init v) es)) = foldl entries_step v es \<and>
    (distinct (map fst (foldl entries_step v es)) \<longrightarrow>
      oi_value (foldl oi_step (object_input_init v) es) = foldl entries_step v es)"
proof -
  let ?s = "foldl oi_step (object_input_init v) es"
  have "pairs (oi_data (object_input_init v)) = v"
    using assms(1) by (simp add: object_input_init_def rows_of_def rows_numbered_facts own_entries_texts text_keys_def)
  with rows.run_abs [OF oi_inv_init [OF assms(1)] assms(2)]
  have p: "pairs (oi_data ?s) = foldl entries_step v es" by simp
  have "oi_inv ?s" by (rule rows.run_keeps [OF oi_inv_init [OF assms(1)] assms(2)])
  then have "distinct (map fst (pairs (oi_data ?s))) \<longrightarrow> oi_value ?s = pairs (oi_data ?s)" by (simp add: oi_inv_def)
  then show ?thesis unfolding p by simp
qed

theorem rows_are_the_object_witness:
  "pairs (oi_data (foldl oi_step (object_input_init [(''a'', JNull)]) [Add_next, Change_key 1 ''b'', Change_key 0 ''c''])) =
   [(''c'', JNull), (''b'', JStr '''')]"
proof -
  have "text_keys [(''a'', JNull)] \<and> list_all text_event [Add_next, Change_key 1 ''b'', Change_key 0 ''c'']" by code_simp
  with rows_are_the_object [of "[(''a'', JNull)]" "[Add_next, Change_key 1 ''b'', Change_key 0 ''c'']"]
  show ?thesis by simp
qed

text \<open>
  A key that looks like an index moves its row to the front as soon as it is typed, and what is typed
  next in the same place is for another row.
\<close>

lemma index_key_moves_row:
  "oi_value (foldl oi_step (object_input_init [(''a'', JStr ''x'')]) [Add_next, Change_key 1 ''7'', Change_value 1 (JStr ''y'')]) =
    [(''7'', JStr ''''), (''a'', JStr ''y'')]"
proof -
  have k: "index_key ''7''" "\<not> index_key ''a''" "\<not> index_key ''''"
    by (simp_all add: index_key_def digits_number_def is_digit_def)
  show ?thesis
    by (simp add: object_input_init_def rows_of_def rows_numbered_def own_entries_def k oi_addNext_def oi_changeKey_def
      oi_changeValue_def set_data_def rows_object_distinct renumber_def empty_row_def given_value_def)
qed

text \<open>While two rows have the same key the parent keeps the object it had, whatever is typed.\<close>

lemma duplicate_key_not_told:
  "\<not> distinct (map rw_key rs) \<Longrightarrow> oi_value (set_data rs s) = oi_value s"
  by (simp add: set_data_def rows_object_distinct)

text \<open>In the inputs without rows, a renamed entry goes to the end, and takes the place of one that had its new key.\<close>

lemma update_end: "k \<notin> fst ` set o' \<Longrightarrow> AList.update k v o' = o' @ [(k, v)]"
  by (rule update_new)

lemma update_length: "length (AList.update k v o') = (if k \<in> fst ` set o' then length o' else Suc (length o'))"
  by (induction o') auto

lemma del_length: "keys_ok fs \<Longrightarrow> k \<in> fst ` set fs \<Longrightarrow> Suc (length (obj_del k fs)) = length fs"
proof (induction fs)
  case (Cons e fs)
  show ?case
  proof (cases "fst e = k")
    case True
    then have "k \<notin> fst ` set fs" using Cons.prems(1) by (simp add: keys_ok_def)
    then have "\<forall>x\<in>set fs. fst x \<noteq> k" by (metis imageI)
    with True show ?thesis by (simp add: obj_del_def filter_True)
  next
    case False
    with Cons show ?thesis by (auto simp: keys_ok_def obj_del_def)
  qed
qed simp

theorem rename_overwrites:
  assumes "keys_ok fs" and "oldName \<in> fst ` set fs" and "newName \<noteq> oldName"
  shows "(newName \<notin> fst ` set fs \<longrightarrow>
      vo_changeKey (JObj fs) oldName newName = obj_del oldName fs @ [(newName, obj_get fs oldName)]) \<and>
    length (vo_changeKey (JObj fs) oldName newName) = length fs - (if newName \<in> fst ` set fs then 1 else 0)"
proof -
  have keys: "newName \<in> fst ` set (obj_del oldName fs) \<longleftrightarrow> newName \<in> fst ` set fs"
    using assms(3) by (auto simp: obj_del_def)
  show ?thesis
    using del_length [OF assms(1,2)] keys
    by (auto simp: vo_changeKey_def Let_def update_length update_new simp flip: length_Suc_conv)
qed

text \<open>The options of a list given as labelled values are wrapped once more: the test looks at \<open>values\<close>.\<close>

lemma mounted_options_wrapped:
  "mounted_values [JObj [(''label'', JStr ''A''), (''value'', JStr ''a'')]] =
    [JObj [(''label'', JObj [(''label'', JStr ''A''), (''value'', JStr ''a'')]),
           (''value'', JObj [(''label'', JStr ''A''), (''value'', JStr ''a'')])]]"
  by code_simp

section \<open>Numbers read back\<close>

lemma digits_number_nat_str: "digits_number (nat_str n) = n"
proof (induction n rule: nat_str.induct)
  case (1 n)
  then show ?case by (subst nat_str.simps) (auto simp: digits_number_def of_char_of)
qed

lemma nat_str_digit: "c \<in> set (nat_str n) \<Longrightarrow> is_digit c"
  using nat_str_digits [of n] by (auto simp: is_digit_def)

lemma digit_facts: "is_digit c \<Longrightarrow> \<not> is_space c" "is_digit c \<Longrightarrow> c \<noteq> CHR ''-'' \<and> c \<noteq> CHR ''+'' \<and> c \<noteq> CHR ''.''"
  by (auto simp: is_digit_def is_space_def Let_def)

lemma parse_nat_str: "read_int (nat_str n) = Some (int n)"
proof -
  obtain c t where c: "nat_str n = c # t" by (cases "nat_str n") (auto simp: nat_str.simps [of n] split: if_splits)
  then have "is_digit c" using nat_str_digit [of c n] by simp
  then have "signed (nat_str n) = (False, nat_str n)" using digit_facts [of c] c by (simp add: signed_def)
  moreover have "takeWhile is_digit (nat_str n) = nat_str n" using nat_str_digit [of _ n] unfolding takeWhile_eq_all_conv by blast
  moreover have "nat_str n \<noteq> []" by (simp add: c)
  ultimately show ?thesis unfolding read_int_def Let_def
    by (simp only: prod.case digits_number_nat_str if_False)
qed

lemma number_read_back: "number_change (nat_str n) = Some (of_nat n)" "vertical_number_change (nat_str n) = Some (of_nat n)"
proof -
  have "CHR ''.'' \<notin> set (nat_str n)" using nat_str_digit digit_facts(2) by blast
  then have "parse_number (nat_str n) = Some (of_nat n)" by (simp add: parse_number_def parse_nat_str)
  moreover have "nat_str n \<noteq> []" using parse_nat_str [of n] by (auto simp: read_int_def signed_def)
  ultimately show "number_change (nat_str n) = Some (of_nat n)" "vertical_number_change (nat_str n) = Some (of_nat n)"
    by (simp_all add: number_change_def vertical_number_change_def)
qed

text \<open>The notation with an exponent, which the browser accepts in a number input, is cut when it has no point.\<close>

lemma exponent_cut: "number_change ''1e3'' = Some 1 \<and> number_change ''1.0e3'' = Some 1000"
  by code_simp

section \<open>Addresses read back\<close>

lemma join_append: "xs \<noteq> [] \<Longrightarrow> ys \<noteq> [] \<Longrightarrow> join d (xs @ ys) = join d xs @ d @ join d ys"
proof (induction xs)
  case (Cons x xs)
  then show ?case by (cases "xs = []"; cases ys) (auto simp: neq_Nil_conv)
qed simp

lemma cut_absent: "c \<in> set p \<Longrightarrow> c \<notin> set s \<Longrightarrow> cut_first p s = s"
proof (induction s)
  case (Cons a s)
  have "\<not> startsWith (a # s) p"
    using Cons.prems set_mono_prefix [of p "a # s"] by (auto simp: startsWith_iff_prefix)
  with Cons show ?case by auto
qed simp

lemma cut_scheme:
  assumes "CHR '':'' \<notin> set w"
  shows "cut_first ''://'' (cut_first ''http://'' (cut_first ''https://'' ((if https then ''https://'' else ''http://'') @ w))) = w"
proof -
  have cut: "cut_first ''https://'' w = w" "cut_first ''http://'' w = w" "cut_first ''://'' w = w"
    using assms by (auto intro!: cut_absent [of "CHR '':''"])
  show ?thesis by (cases https) (simp_all add: startsWith_def cut)
qed

definition label_ok :: "string \<Rightarrow> bool" where
  "label_ok l \<longleftrightarrow> l \<noteq> [] \<and> (\<forall>c\<in>set l. c \<notin> set ''./:'' \<and> \<not> is_space c)"

lemma join_chars: "c \<in> set (join d xs) \<Longrightarrow> c \<in> set d \<or> (\<exists>x\<in>set xs. c \<in> set x)"
  by (induction xs rule: induct_list012) auto

lemma join_absent: "c \<notin> set d \<Longrightarrow> \<forall>x\<in>set xs. c \<notin> set x \<Longrightarrow> c \<notin> set (join d xs)"
  using join_chars by blast

lemma join_has_label: "x \<in> set xs \<Longrightarrow> set x \<subseteq> set (join d xs)"
  by (induction xs rule: induct_list012) auto

lemma in_dropWhile: "c \<in> set s \<Longrightarrow> \<not> P c \<Longrightarrow> c \<in> set (dropWhile P s)"
  by (induction s) auto

lemma trim_nonempty: "c \<in> set s \<Longrightarrow> \<not> is_space c \<Longrightarrow> trim s \<noteq> []"
  using in_dropWhile [of c s is_space] in_dropWhile [of c "rev (dropWhile is_space s)" is_space]
  by (auto simp: trim_def)

lemma trim_labels: "xs \<noteq> [] \<Longrightarrow> list_all label_ok xs \<Longrightarrow> trim (join ''.'' xs) \<noteq> []"
proof -
  assume xs: "xs \<noteq> []" "list_all label_ok xs"
  then have l: "label_ok (hd xs)" "hd xs \<in> set xs" by (auto simp: list_all_iff)
  then obtain c where "c \<in> set (hd xs)" "\<not> is_space c" by (cases "hd xs") (auto simp: label_ok_def)
  moreover have "set (hd xs) \<subseteq> set (join ''.'' xs)" by (rule join_has_label [OF l(2)])
  ultimately show ?thesis by (intro trim_nonempty [of c]) auto
qed

text \<open>The environment that the code takes out of an address of more than three labels.\<close>

definition env_ok :: "string list \<Rightarrow> bool" where
  "env_ok labels \<longleftrightarrow> (3 < length labels \<longrightarrow> rev labels ! 2 \<noteq> ''prod'')"

lemma domain_parts_print:
  assumes "labels \<noteq> []" and "list_all label_ok labels" and "env_ok labels"
  shows "parseDomain (domain_parts (rev labels) s) = (if sd_https s then ''https://'' else ''http://'') @ join ''.'' labels @
    (case sd_root s of Some (c # r) \<Rightarrow> c # r | _ \<Rightarrow> [])"
proof -
  have ok: "\<forall>l\<in>set labels. label_ok l \<and> l \<noteq> [] \<and> trim l \<noteq> []"
    using assms(2) trim_labels [of "[l]" for l] by (force simp: list_all_iff label_ok_def)
  consider a where "rev labels = [a]" | a b where "rev labels = [a, b]" | a b c where "rev labels = [a, b, c]"
    | a b e r rs where "rev labels = a # b # e # r # rs"
    using assms(1) by (metis rev_is_Nil_conv list.exhaust)
  then show ?thesis
  proof cases
    case 1
    then have "labels = [a]" by (simp add: rev_eq_Cons_iff)
    then show ?thesis by (simp add: domain_parts_def parseDomain_def trim_def)
  next
    case 2
    then have "labels = [b, a]" by (simp add: rev_eq_Cons_iff)
    with ok show ?thesis by (simp add: domain_parts_def parseDomain_def)
  next
    case 3
    then have "labels = [c, b, a]" by (simp add: rev_eq_Cons_iff)
    with ok show ?thesis by (simp add: domain_parts_def parseDomain_def)
  next
    case 4
    then have l: "labels = rev (r # rs) @ [e, b, a]" by (simp add: rev_eq_Cons_iff)
    then have e: "e \<noteq> ''prod''" "e \<noteq> []" using assms(3) ok by (auto simp: env_ok_def)
    have sub: "trim (join ''.'' (rev (r # rs))) \<noteq> []"
      using assms(2) l by (intro trim_labels) auto
    have "join ''.'' labels = join ''.'' (rev (r # rs)) @ ''.'' @ e @ ''.'' @ b @ ''.'' @ a"
      unfolding l by (subst join_append) auto
    with 4 e sub show ?thesis by (simp add: domain_parts_def parseDomain_def)
  qed
qed

text \<open>The root of an address, with its slash, or nothing.\<close>

definition root_ok :: "string \<Rightarrow> bool" where
  "root_ok rt \<longleftrightarrow> rt = [] \<or> (hd rt = CHR ''/'' \<and> CHR '':'' \<notin> set rt \<and> trim rt \<noteq> ''/'')"

text \<open>
  C24. The address a user types is the address of the service the input makes of it: a scheme, labels
  joined by dots (none empty, none with a space, a slash, a colon) and either nothing or a root that starts with a slash, is not a lone
  slash and has no colon, are printed back as they were, unless the third label from the end of an address of more than three is \<open>prod\<close>.
\<close>

theorem typed_address_read_back:
  assumes "labels \<noteq> []" and "list_all label_ok labels" and "env_ok labels" and "root_ok rt"
    and "v = (if https then ''https://'' else ''http://'') @ join ''.'' labels @ rt"
  shows "parseDomain (fst (domain_change v s)) = v \<and> \<not> snd (domain_change v s)"
proof -
  let ?d = "join ''.'' labels"
  have chars: "\<And>l c. l \<in> set labels \<Longrightarrow> c \<in> set ''./:'' \<Longrightarrow> c \<notin> set l"
    using assms(2) unfolding list_all_iff label_ok_def by blast
  then have "\<forall>l\<in>set labels. CHR ''/'' \<notin> set l" "\<forall>l\<in>set labels. CHR '':'' \<notin> set l" by simp_all
  then have d: "CHR ''/'' \<notin> set ?d" "CHR '':'' \<notin> set ?d" by (simp_all add: join_absent)
  have w: "cut_first ''://'' (cut_first ''http://'' (cut_first ''https://'' v)) = ?d @ rt"
    unfolding assms(5) using d(2) assms(4) by (intro cut_scheme) (auto simp: root_ok_def)
  have https: "startsWith v ''https://'' = https" by (simp add: assms(5) startsWith_def)
  have "\<forall>l\<in>set labels. CHR ''.'' \<notin> set l" using chars by simp
  then have "split_on (CHR ''.'') ?d = labels" by (rule split_on_join [OF assms(1)])
  moreover have "filter (\<lambda>i. i \<noteq> []) (rev labels) = rev labels"
    using assms(2) by (intro filter_True) (auto simp: list_all_iff label_ok_def)
  ultimately have parts: "filter (\<lambda>i. i \<noteq> []) (rev (split_on (CHR ''.'') ?d)) = rev labels" by simp
  obtain s' where s': "sd_https s' = https" "(case sd_root s' of Some (c # r) \<Rightarrow> c # r | _ \<Rightarrow> []) = rt"
    "domain_change v s = (domain_parts (rev labels) s', False)"
  proof (cases rt)
    case Nil
    then have "domain_change v s = (domain_parts (rev labels) (s\<lparr>sd_https := https, sd_root := None\<rparr>), False)"
      using d(1) assms(1) parts by (simp add: domain_change_def w https Let_def del: cut_first.simps)
    with Nil show thesis by (intro that [of "s\<lparr>sd_https := https, sd_root := None\<rparr>"]) simp_all
  next
    case (Cons c r)
    then have r: "rt = CHR ''/'' # r" using assms(4) by (simp add: root_ok_def)
    then have "split_on (CHR ''/'') (?d @ rt) = ?d # split_on (CHR ''/'') r" using d(1) by (simp add: split_on_append)
    moreover have "CHR ''/'' # join ''/'' (split_on (CHR ''/'') r) = rt" by (simp add: r join_split_on)
    ultimately have "domain_change v s = (domain_parts (rev labels) (s\<lparr>sd_https := https, sd_root := Some rt\<rparr>), False)"
      using assms(1,4) parts r by (simp add: domain_change_def w https Let_def root_ok_def del: cut_first.simps)
    with r show thesis by (intro that [of "s\<lparr>sd_https := https, sd_root := Some rt\<rparr>"]) simp_all
  qed
  then show ?thesis
    using domain_parts_print [OF assms(1-3), of s'] by (simp add: assms(5))
qed

definition some_service :: service_domain where
  "some_service = \<lparr>sd_domain = ''oto.tools'', sd_env = ''prod'', sd_subdomain = '''', sd_root = None, sd_https = False\<rparr>"

theorem typed_address_read_back_witness:
  "parseDomain (fst (domain_change ''https://api.dev.oto.tools/v1'' some_service)) = ''https://api.dev.oto.tools/v1''"
proof -
  have "list_all label_ok [''api'', ''dev'', ''oto'', ''tools''] \<and> env_ok [''api'', ''dev'', ''oto'', ''tools''] \<and> root_ok ''/v1''"
    by code_simp
  with typed_address_read_back [of "[''api'', ''dev'', ''oto'', ''tools'']" "''/v1''" "''https://api.dev.oto.tools/v1''" True]
  show ?thesis by simp
qed

lemma prod_label_lost:
  "parseDomain (fst (domain_change ''https://api.prod.oto.tools'' some_service)) = ''https://api.oto.tools''"
  by code_simp

end
