(* ===== verification/Event_Stream_Facts.thy ===== *)
theory Event_Stream_Facts
  imports Event_Stream
begin

text \<open>
  The filters of the stream of events and its memory.

  \<^item> \<open>parses k ts pr\<close>: the parser in the state \<open>k\<close> reads \<open>ts\<close> with some fuel. The fuel of
    \<open>parseExpression\<close> is enough (\<open>parse_fuel_enough\<close>), and more fuel changes nothing.
  \<^item> The grammar of the comment of the source is the mutual induction \<open>or_expr\<close>, \<open>and_expr\<close>,
    \<open>unary_expr\<close>, \<open>primary_expr\<close>. The parser is sound and complete for it.
  \<^item> The text of an expression is compiled to its meaning, and the memory is the last events.
\<close>

section \<open>Fuel\<close>

lemma peek_is_simps [simp]: "peek_is t []  = False" "peek_is t (u # us) = (u = t)"
  by (auto simp: peek_is_def)

lemma eat_rparen_Inr [simp]: "eat_rparen pr = Inr qr \<longleftrightarrow> snd pr = T_RPAREN # snd qr \<and> fst pr = fst qr"
  by (cases pr; cases qr; cases "snd pr") (auto simp: eat_rparen_def)

lemma eat_rparen_fuel [simp]: "eat_rparen pr \<noteq> Inl Out_of_fuel"
  by (simp add: eat_rparen_def)

lemma ebind_Inl: "ebind m f = Inl e \<longleftrightarrow> m = Inl e \<or> (\<exists>x. m = Inr x \<and> f x = Inl e)"
  by (cases m) auto

text \<open>What each state of the parser accepts, with what it leaves.\<close>

definition and_next :: "filter_token list \<Rightarrow> filter_token list \<Rightarrow> bool" where
  "and_next ts us \<longleftrightarrow> ts = T_AND # us \<or> (us = ts \<and> ts \<noteq> [] \<and> starts_unary (hd ts))"

definition and_stops :: "filter_token list \<Rightarrow> bool" where
  "and_stops ts \<longleftrightarrow> ts = [] \<or> hd ts = T_OR \<or> hd ts = T_RPAREN"

lemma starts_unary_simps [simp]:
  "starts_unary T_NOT" "starts_unary T_LPAREN" "starts_unary (T_STR s)" "\<not> starts_unary T_AND" "\<not> starts_unary T_OR"
  "\<not> starts_unary T_RPAREN"
  by (simp_all add: starts_unary_def)

lemma parse_Primary:
  "parse (Suc n) Primary ts = Inr pr \<longleftrightarrow>
    (\<exists>s r. ts = T_STR s # r \<and> pr = (contains s, r)) \<or>
    (\<exists>us p r. ts = T_LPAREN # us \<and> parse n Or us = Inr (p, T_RPAREN # r) \<and> pr = (p, r))"
  by (cases ts; cases "hd ts"; cases pr) (auto simp del: parse.simps(2) simp: parse.simps(2) [of n Primary])

lemma parse_Unary:
  "parse (Suc n) Unary ts = Inr pr \<longleftrightarrow>
    (\<exists>us p r. ts = T_NOT # us \<and> parse n Unary us = Inr (p, r) \<and> pr = (negated p, r)) \<or>
    (\<not> peek_is T_NOT ts \<and> parse n Primary ts = Inr pr)"
  by (cases ts; cases pr) (auto simp del: parse.simps(2) simp: parse.simps(2) [of n Unary])

lemma parse_And:
  "parse (Suc n) And ts = Inr pr \<longleftrightarrow> (\<exists>q r. parse n Unary ts = Inr (q, r) \<and> parse n (And_loop q) r = Inr pr)"
  by (simp del: parse.simps(2) add: parse.simps(2) [of n And])

lemma parse_And_loop:
  "parse (Suc n) (And_loop l) ts = Inr pr \<longleftrightarrow>
    (and_stops ts \<and> pr = (l, ts)) \<or>
    (\<exists>us q r. and_next ts us \<and> parse n Unary us = Inr (q, r) \<and> parse n (And_loop (both l q)) r = Inr pr)"
  by (cases ts; cases "hd ts")
    (auto simp del: parse.simps(2) simp: parse.simps(2) [of n "And_loop l"] and_stops_def and_next_def)

lemma parse_Or:
  "parse (Suc n) Or ts = Inr pr \<longleftrightarrow> (\<exists>q r. parse n And ts = Inr (q, r) \<and> parse n (Or_loop q) r = Inr pr)"
  by (simp del: parse.simps(2) add: parse.simps(2) [of n Or])

lemma parse_Or_loop:
  "parse (Suc n) (Or_loop l) ts = Inr pr \<longleftrightarrow>
    (\<not> peek_is T_OR ts \<and> pr = (l, ts)) \<or>
    (\<exists>us q r. ts = T_OR # us \<and> parse n And us = Inr (q, r) \<and> parse n (Or_loop (either l q)) r = Inr pr)"
  by (cases ts) (auto simp del: parse.simps(2) simp: parse.simps(2) [of n "Or_loop l"])

lemmas parse_iffs = parse_Primary parse_Unary parse_And parse_And_loop parse_Or parse_Or_loop

lemma ebind_more:
  assumes "ebind m f \<noteq> Inl e" and "m \<noteq> Inl e \<Longrightarrow> m' = m" and "\<And>x. f x \<noteq> Inl e \<Longrightarrow> f' x = f x"
  shows "ebind m' f' = ebind m f"
  using assms by (cases m) auto

lemma parse_more: "parse n k ts \<noteq> Inl Out_of_fuel \<Longrightarrow> parse (Suc n) k ts = parse n k ts"
proof (induction n arbitrary: k ts)
  case (Suc n)
  have step: "\<And>j us. parse n j us \<noteq> Inl Out_of_fuel \<Longrightarrow> parse (Suc n) j us = parse n j us" by (rule Suc.IH)
  note more = ebind_more [where e = Out_of_fuel, OF _ step]
  have "parse (Suc (Suc n)) k ts = parse (Suc n) k ts"
    using Suc.prems unfolding parse.simps(2) [of n k] parse.simps(2) [of "Suc n" k]
    by (cases k) (simp_all only: parser_state.case split: if_splits filter_token.splits; (intro conjI impI)?;
      (rule more | rule step)?; simp add: step del: parse.simps(2))+
  then show ?case .
qed simp

lemma parse_mono: "parse n k ts = Inr pr \<Longrightarrow> n \<le> m \<Longrightarrow> parse m k ts = Inr pr"
proof (induction m)
  case (Suc m)
  then show ?case by (cases "n = Suc m") (simp_all add: le_Suc_eq parse_more del: parse.simps(2))
qed simp

text \<open>The states that start a phrase read at least a token of it.\<close>

fun starts_phrase :: "parser_state \<Rightarrow> bool" where
  "starts_phrase (And_loop l) = False"
| "starts_phrase (Or_loop l) = False"
| "starts_phrase _ = True"

definition consumed :: "parser_state \<Rightarrow> nat \<Rightarrow> nat \<Rightarrow> bool" where
  "consumed k l m \<longleftrightarrow> (if starts_phrase k then m < l else m \<le> l)"

lemma and_next_length: "and_next ts us \<Longrightarrow> length us \<le> length ts"
  by (auto simp: and_next_def)

lemma parse_consumes: "parse n k ts = Inr (p, r) \<Longrightarrow> consumed k (length ts) (length r)"
proof (induction n arbitrary: k ts p r)
  case (Suc n)
  note IH = Suc.IH [unfolded consumed_def]
  show ?case
  proof (cases k)
    case Primary
    with Suc.prems IH [of Or] show ?thesis by (fastforce simp: parse_Primary consumed_def simp del: parse.simps(2))
  next
    case Unary
    with Suc.prems IH [of Unary] IH [of Primary] show ?thesis
      by (fastforce simp: parse_Unary consumed_def simp del: parse.simps(2))
  next
    case And
    with Suc.prems obtain q r' where "parse n Unary ts = Inr (q, r')" "parse n (And_loop q) r' = Inr (p, r)"
      by (auto simp: parse_And simp del: parse.simps(2))
    with And show ?thesis using IH [of Unary ts q r'] IH [of "And_loop q" r' p r] by (simp add: consumed_def)
  next
    case (And_loop l)
    with Suc.prems consider "r = ts"
      | us q r' where "and_next ts us" "parse n Unary us = Inr (q, r')" "parse n (And_loop (both l q)) r' = Inr (p, r)"
      by (auto simp: parse_And_loop simp del: parse.simps(2))
    then show ?thesis
    proof cases
      case (2 us q r')
      with And_loop show ?thesis
        using IH [of Unary us q r'] IH [of "And_loop (both l q)" r' p r] and_next_length [of ts us] by (simp add: consumed_def)
    qed (simp add: And_loop consumed_def)
  next
    case Or
    with Suc.prems obtain q r' where "parse n And ts = Inr (q, r')" "parse n (Or_loop q) r' = Inr (p, r)"
      by (auto simp: parse_Or simp del: parse.simps(2))
    with Or show ?thesis using IH [of And ts q r'] IH [of "Or_loop q" r' p r] by (simp add: consumed_def)
  next
    case (Or_loop l)
    with Suc.prems consider "r = ts"
      | us q r' where "ts = T_OR # us" "parse n And us = Inr (q, r')" "parse n (Or_loop (either l q)) r' = Inr (p, r)"
      by (auto simp: parse_Or_loop simp del: parse.simps(2))
    then show ?thesis
    proof cases
      case (2 us q r')
      with Or_loop show ?thesis
        using IH [of And us q r'] IH [of "Or_loop (either l q)" r' p r] by (simp add: consumed_def)
    qed (simp add: Or_loop consumed_def)
  qed
qed simp

fun parse_need :: "parser_state \<Rightarrow> nat \<Rightarrow> nat" where
  "parse_need Primary l = 5 * l + 1"
| "parse_need Unary l = 5 * l + 2"
| "parse_need And l = 5 * l + 3"
| "parse_need (And_loop p) l = 5 * l + 3"
| "parse_need Or l = 5 * l + 4"
| "parse_need (Or_loop p) l = 5 * l + 4"

lemma parse_needs: "parse_need k (length ts) \<le> n \<Longrightarrow> parse n k ts \<noteq> Inl Out_of_fuel"
proof (induction n arbitrary: k ts)
  case 0
  then show ?case by (cases k) auto
next
  case (Suc n)
  have less: "length r < length us" if "parse n j us = Inr (p, r)" "starts_phrase j" for j us p r
    using parse_consumes [OF that(1)] that(2) by (simp add: consumed_def)
  show ?case
  proof (cases k)
    case Primary
    with Suc.prems Suc.IH [of Or "tl ts"] show ?thesis
      by (cases ts) (auto simp: ebind_Inl split: filter_token.splits)
  next
    case Unary
    with Suc.prems Suc.IH [of Primary ts] Suc.IH [of Unary "tl ts"] show ?thesis
      by (cases ts) (auto simp: ebind_Inl)
  next
    case And
    with Suc.prems Suc.IH [of Unary ts] Suc.IH [of "And_loop p" r for p r] show ?thesis
      by (auto simp: ebind_Inl dest!: less)
  next
    case (And_loop l)
    with Suc.prems Suc.IH [of Unary ts] Suc.IH [of Unary "tl ts"] Suc.IH [of "And_loop p" r for p r] show ?thesis
      by (cases ts) (auto simp: ebind_Inl dest!: less)
  next
    case Or
    with Suc.prems Suc.IH [of And ts] Suc.IH [of "Or_loop p" r for p r] show ?thesis
      by (auto simp: ebind_Inl dest!: less)
  next
    case (Or_loop l)
    with Suc.prems Suc.IH [of And "tl ts"] Suc.IH [of "Or_loop p" r for p r] show ?thesis
      by (cases ts) (auto simp: ebind_Inl dest!: less)
  qed
qed

lemma parse_fuel_enough: "parse (parse_fuel ts) Or ts \<noteq> Inl Out_of_fuel"
  by (rule parse_needs) (simp add: parse_fuel_def)

section \<open>The grammar\<close>

definition parses :: "parser_state \<Rightarrow> filter_token list \<Rightarrow> predicate \<times> filter_token list \<Rightarrow> bool" where
  "parses k ts pr \<longleftrightarrow> (\<exists>n. parse n k ts = Inr pr)"

lemma parses_join:
  assumes "parses j us qr" and "parses k ts pr"
  shows "\<exists>n. parse n j us = Inr qr \<and> parse n k ts = Inr pr"
proof -
  obtain m n where "parse m j us = Inr qr" "parse n k ts = Inr pr" using assms by (auto simp: parses_def)
  then have "parse (max m n) j us = Inr qr \<and> parse (max m n) k ts = Inr pr" by (auto intro: parse_mono)
  then show ?thesis by blast
qed

lemma parsesI: "parse (Suc n) k ts = Inr pr \<Longrightarrow> parses k ts pr"
  unfolding parses_def by blast

lemma parses_str: "parses Primary (T_STR s # r) (contains s, r)"
  by (rule parsesI [of 0]) (simp add: parse_Primary del: parse.simps(2))

lemma parses_paren: "parses Or ts (p, T_RPAREN # r) \<Longrightarrow> parses Primary (T_LPAREN # ts) (p, r)"
  unfolding parses_def [of Or] using parsesI [of _ Primary "T_LPAREN # ts" "(p, r)"]
  by (auto simp: parse_Primary simp del: parse.simps(2))

lemma parses_not: "parses Unary ts (p, r) \<Longrightarrow> parses Unary (T_NOT # ts) (negated p, r)"
  unfolding parses_def [of Unary ts] using parsesI [of _ Unary "T_NOT # ts" "(negated p, r)"]
  by (auto simp: parse_Unary simp del: parse.simps(2))

lemma parses_primary: "parses Primary ts pr \<Longrightarrow> \<not> peek_is T_NOT ts \<Longrightarrow> parses Unary ts pr"
  unfolding parses_def [of Primary] using parsesI [of _ Unary ts pr]
  by (auto simp: parse_Unary simp del: parse.simps(2))

lemma parses_and: "parses Unary ts (q, r) \<Longrightarrow> parses (And_loop q) r pr \<Longrightarrow> parses And ts pr"
  using parses_join [of Unary ts "(q, r)" "And_loop q" r pr] parsesI [of _ And ts pr]
  by (auto simp: parse_And simp del: parse.simps(2))

lemma parses_and_stop: "and_stops ts \<Longrightarrow> parses (And_loop l) ts (l, ts)"
  by (rule parsesI [of 0]) (simp add: parse_And_loop del: parse.simps(2))

lemma parses_and_next:
  "and_next ts us \<Longrightarrow> parses Unary us (q, r) \<Longrightarrow> parses (And_loop (both l q)) r pr \<Longrightarrow> parses (And_loop l) ts pr"
  using parses_join [of Unary us "(q, r)" "And_loop (both l q)" r pr] parsesI [of _ "And_loop l" ts pr]
  by (auto simp: parse_And_loop simp del: parse.simps(2))

lemma parses_or: "parses And ts (q, r) \<Longrightarrow> parses (Or_loop q) r pr \<Longrightarrow> parses Or ts pr"
  using parses_join [of And ts "(q, r)" "Or_loop q" r pr] parsesI [of _ Or ts pr]
  by (auto simp: parse_Or simp del: parse.simps(2))

lemma parses_or_stop: "\<not> peek_is T_OR ts \<Longrightarrow> parses (Or_loop l) ts (l, ts)"
  by (rule parsesI [of 0]) (simp add: parse_Or_loop del: parse.simps(2))

lemma parses_or_next:
  "parses And us (q, r) \<Longrightarrow> parses (Or_loop (either l q)) r pr \<Longrightarrow> parses (Or_loop l) (T_OR # us) pr"
  using parses_join [of And us "(q, r)" "Or_loop (either l q)" r pr] parsesI [of _ "Or_loop l" "T_OR # us" pr]
  by (auto simp: parse_Or_loop simp del: parse.simps(2))

text \<open>The filters the grammar describes, and what they mean.\<close>

datatype expr = Str string | Not expr | All expr expr | Any expr expr

primrec meaning :: "expr \<Rightarrow> predicate" where
  "meaning (Str s) = contains s"
| "meaning (Not e) = negated (meaning e)"
| "meaning (All a b) = both (meaning a) (meaning b)"
| "meaning (Any a b) = either (meaning a) (meaning b)"

inductive or_expr :: "expr \<Rightarrow> filter_token list \<Rightarrow> bool"
  and and_expr :: "expr \<Rightarrow> filter_token list \<Rightarrow> bool"
  and unary_expr :: "expr \<Rightarrow> filter_token list \<Rightarrow> bool"
  and primary_expr :: "expr \<Rightarrow> filter_token list \<Rightarrow> bool"
where
  or_one: "and_expr e ts \<Longrightarrow> or_expr e ts"
| or_more: "or_expr a ts \<Longrightarrow> and_expr b us \<Longrightarrow> or_expr (Any a b) (ts @ T_OR # us)"
| and_one: "unary_expr e ts \<Longrightarrow> and_expr e ts"
| and_more: "and_expr a ts \<Longrightarrow> unary_expr b us \<Longrightarrow> and_expr (All a b) (ts @ T_AND # us)"
| and_implicit: "and_expr a ts \<Longrightarrow> unary_expr b us \<Longrightarrow> and_expr (All a b) (ts @ us)"
| unary_not: "unary_expr e ts \<Longrightarrow> unary_expr (Not e) (T_NOT # ts)"
| unary_primary: "primary_expr e ts \<Longrightarrow> unary_expr e ts"
| primary_paren: "or_expr e ts \<Longrightarrow> primary_expr e (T_LPAREN # ts @ [T_RPAREN])"
| primary_str: "primary_expr (Str s) [T_STR s]"

definition follows :: "filter_token list \<Rightarrow> bool" where
  "follows ts \<longleftrightarrow> and_stops ts"

lemma grammar_parses:
  shows "or_expr e ts \<Longrightarrow> and_stops rest \<Longrightarrow> parses (Or_loop (meaning e)) rest pr \<Longrightarrow> parses Or (ts @ rest) pr"
    and "and_expr e ts \<Longrightarrow> parses (And_loop (meaning e)) rest pr \<Longrightarrow> parses And (ts @ rest) pr"
    and "unary_expr e ts \<Longrightarrow> parses Unary (ts @ rest) (meaning e, rest) \<and> ts \<noteq> [] \<and> starts_unary (hd ts)"
    and "primary_expr e ts \<Longrightarrow> parses Primary (ts @ rest) (meaning e, rest) \<and> ts \<noteq> [] \<and> hd ts \<noteq> T_NOT \<and> starts_unary (hd ts)"
proof (induction arbitrary: rest pr and rest pr and rest and rest
    rule: or_expr_and_expr_unary_expr_primary_expr.inducts)
  case (or_one e ts)
  show ?case by (rule parses_or [OF or_one.IH [OF parses_and_stop [OF or_one.prems(1)]] or_one.prems(2)])
next
  case (or_more a ts b us)
  have "parses And (us @ rest) (meaning b, rest)" by (intro or_more.IH parses_and_stop or_more.prems)
  then have "parses (Or_loop (meaning a)) (T_OR # us @ rest) pr"
    using or_more.prems(2) by (auto intro: parses_or_next)
  then show ?case using or_more.IH(1) [of "T_OR # us @ rest" pr] by (simp add: and_stops_def)
next
  case (and_one e ts)
  then show ?case by (auto intro: parses_and)
next
  case (and_more a ts b us)
  have "parses (And_loop (meaning a)) (T_AND # us @ rest) pr"
    using and_more.IH(2) [of rest] and_more.prems by (auto intro: parses_and_next simp: and_next_def)
  then show ?case using and_more.IH(1) [of "T_AND # us @ rest" pr] by simp
next
  case (and_implicit a ts b us)
  have "parses (And_loop (meaning a)) (us @ rest) pr"
    using and_implicit.IH(2) [of rest] and_implicit.prems by (auto intro: parses_and_next simp: and_next_def)
  then show ?case using and_implicit.IH(1) [of "us @ rest" pr] by simp
next
  case (unary_not e ts)
  then show ?case by (auto intro: parses_not)
next
  case (unary_primary e ts)
  from unary_primary.IH [of rest] show ?case by (auto intro!: parses_primary simp: peek_is_def)
next
  case (primary_paren e ts)
  have "parses Or (ts @ T_RPAREN # rest) (meaning e, T_RPAREN # rest)"
    by (intro primary_paren.IH parses_or_stop) (simp_all add: and_stops_def)
  then show ?case by (auto intro: parses_paren)
next
  case (primary_str s)
  show ?case by (simp add: parses_str)
qed

text \<open>What a state of the parser has read when it succeeds.\<close>

fun reads :: "parser_state \<Rightarrow> filter_token list \<Rightarrow> predicate \<Rightarrow> filter_token list \<Rightarrow> bool" where
  "reads Primary ts p r = (\<exists>e us. ts = us @ r \<and> primary_expr e us \<and> p = meaning e)"
| "reads Unary ts p r = (\<exists>e us. ts = us @ r \<and> unary_expr e us \<and> p = meaning e)"
| "reads And ts p r = (\<exists>e us. ts = us @ r \<and> and_expr e us \<and> p = meaning e)"
| "reads Or ts p r = (\<exists>e us. ts = us @ r \<and> or_expr e us \<and> p = meaning e)"
| "reads (And_loop l) ts p r =
     (\<forall>a vs. and_expr a vs \<longrightarrow> l = meaning a \<longrightarrow> (\<exists>e us. ts = us @ r \<and> and_expr e (vs @ us) \<and> p = meaning e))"
| "reads (Or_loop l) ts p r =
     (\<forall>a vs. or_expr a vs \<longrightarrow> l = meaning a \<longrightarrow> (\<exists>e us. ts = us @ r \<and> or_expr e (vs @ us) \<and> p = meaning e))"

lemma parse_reads: "parse n k ts = Inr (p, r) \<Longrightarrow> reads k ts p r"
proof (induction n arbitrary: k ts p r)
  case (Suc n)
  show ?case
  proof (cases k)
    case Primary
    with Suc.prems consider s where "ts = T_STR s # r" "p = contains s"
      | us where "ts = T_LPAREN # us" "parse n Or us = Inr (p, T_RPAREN # r)"
      by (auto simp: parse_Primary simp del: parse.simps(2))
    then show ?thesis
    proof cases
      case 1
      then show ?thesis using Primary primary_str [of s] by (auto intro!: exI [of _ "Str s"] exI [of _ "[T_STR s]"])
    next
      case 2
      from Suc.IH [OF 2(2)] obtain e us' where "us = us' @ T_RPAREN # r" "or_expr e us'" "p = meaning e" by auto
      with 2(1) Primary primary_paren [of e us'] show ?thesis
        by (auto intro!: exI [of _ e] exI [of _ "T_LPAREN # us' @ [T_RPAREN]"])
    qed
  next
    case Unary
    with Suc.prems consider us q where "ts = T_NOT # us" "parse n Unary us = Inr (q, r)" "p = negated q"
      | "parse n Primary ts = Inr (p, r)"
      by (auto simp: parse_Unary simp del: parse.simps(2))
    then show ?thesis
    proof cases
      case 1
      from Suc.IH [OF 1(2)] obtain e us' where "us = us' @ r" "unary_expr e us'" "q = meaning e" by auto
      with 1 Unary unary_not [of e us'] show ?thesis by (auto intro!: exI [of _ "Not e"] exI [of _ "T_NOT # us'"])
    next
      case 2
      from Suc.IH [OF 2] Unary show ?thesis by (auto intro: unary_primary)
    qed
  next
    case And
    with Suc.prems obtain q r' where q: "parse n Unary ts = Inr (q, r')" "parse n (And_loop q) r' = Inr (p, r)"
      by (auto simp: parse_And simp del: parse.simps(2))
    from Suc.IH [OF q(1)] obtain a us where a: "ts = us @ r'" "unary_expr a us" "q = meaning a" by auto
    obtain e vs where "r' = vs @ r" "and_expr e (us @ vs)" "p = meaning e"
      using Suc.IH [OF q(2), unfolded reads.simps] and_one [OF a(2)] a(3) by blast
    with a(1) And show ?thesis by (auto intro!: exI [of _ e] exI [of _ "us @ vs"])
  next
    case (And_loop l)
    show ?thesis unfolding And_loop reads.simps
    proof (intro allI impI)
      fix a vs assume a: "and_expr a vs" "l = meaning a"
      from Suc.prems And_loop consider "p = l" "r = ts"
        | us q r' where "and_next ts us" "parse n Unary us = Inr (q, r')" "parse n (And_loop (both l q)) r' = Inr (p, r)"
        by (auto simp: parse_And_loop simp del: parse.simps(2))
      then show "\<exists>e us. ts = us @ r \<and> and_expr e (vs @ us) \<and> p = meaning e"
      proof cases
        case 1
        with a show ?thesis by (auto intro!: exI [of _ a] exI [of _ "[]"])
      next
        case 2
        from Suc.IH [OF 2(2)] obtain b bs where b: "us = bs @ r'" "unary_expr b bs" "q = meaning b" by auto
        obtain cs where cs: "ts = cs @ r'" "and_expr (All a b) (vs @ cs)"
          using 2(1) b and_more [OF a(1) b(2)] and_implicit [OF a(1) b(2)] that [of bs] that [of "T_AND # bs"]
          by (auto simp: and_next_def)
        have "both l q = meaning (All a b)" using a(2) b(3) by simp
        with Suc.IH [OF 2(3), unfolded reads.simps] cs(2)
        obtain e ds where "r' = ds @ r" "and_expr e ((vs @ cs) @ ds)" "p = meaning e" by blast
        with cs(1) show ?thesis by (auto intro!: exI [of _ e] exI [of _ "cs @ ds"])
      qed
    qed
  next
    case Or
    with Suc.prems obtain q r' where q: "parse n And ts = Inr (q, r')" "parse n (Or_loop q) r' = Inr (p, r)"
      by (auto simp: parse_Or simp del: parse.simps(2))
    from Suc.IH [OF q(1)] obtain a us where a: "ts = us @ r'" "and_expr a us" "q = meaning a" by auto
    obtain e vs where "r' = vs @ r" "or_expr e (us @ vs)" "p = meaning e"
      using Suc.IH [OF q(2), unfolded reads.simps] or_one [OF a(2)] a(3) by blast
    with a(1) Or show ?thesis by (auto intro!: exI [of _ e] exI [of _ "us @ vs"])
  next
    case (Or_loop l)
    show ?thesis unfolding Or_loop reads.simps
    proof (intro allI impI)
      fix a vs assume a: "or_expr a vs" "l = meaning a"
      from Suc.prems Or_loop consider "p = l" "r = ts"
        | us q r' where "ts = T_OR # us" "parse n And us = Inr (q, r')" "parse n (Or_loop (either l q)) r' = Inr (p, r)"
        by (auto simp: parse_Or_loop simp del: parse.simps(2))
      then show "\<exists>e us. ts = us @ r \<and> or_expr e (vs @ us) \<and> p = meaning e"
      proof cases
        case 1
        with a show ?thesis by (auto intro!: exI [of _ a] exI [of _ "[]"])
      next
        case 2
        from Suc.IH [OF 2(2)] obtain b bs where b: "us = bs @ r'" "and_expr b bs" "q = meaning b" by auto
        have "or_expr (Any a b) (vs @ T_OR # bs)" by (rule or_more [OF a(1) b(2)])
        moreover have "either l q = meaning (Any a b)" using a(2) b(3) by simp
        ultimately obtain e ds where "r' = ds @ r" "or_expr e ((vs @ T_OR # bs) @ ds)" "p = meaning e"
          using Suc.IH [OF 2(3), unfolded reads.simps] by blast
        with 2(1) b(1) show ?thesis by (auto intro!: exI [of _ e] exI [of _ "T_OR # bs @ ds"])
      qed
    qed
  qed
qed simp

lemma parse_settles:
  assumes "parse n k ts = Inr pr" and "parse m k ts \<noteq> Inl Out_of_fuel"
  shows "parse m k ts = Inr pr"
proof (cases "n \<le> m")
  case True
  then show ?thesis by (rule parse_mono [OF assms(1)])
next
  case False
  then have "m \<le> n" by simp
  then have "parse n k ts = parse m k ts" using assms(2)
    by (induction n) (auto simp: le_Suc_eq parse_more simp del: parse.simps(2))
  with assms(1) show ?thesis by simp
qed

text \<open>
  C5. A filter is accepted exactly when its tokens are a phrase of the grammar in the comment of the
  source (alternatives of sequences of possibly negated words and groups, where \<open>&&\<close> may be left
  out), and it is then the predicate this phrase means.
\<close>

theorem filter_language:
  "parseExpression input = Inr p \<longleftrightarrow> (\<exists>ts e. tokenize input = Inr ts \<and> or_expr e ts \<and> p = meaning e)"
proof
  assume "parseExpression input = Inr p"
  then obtain ts pr where t: "tokenize input = Inr ts" "parse (parse_fuel ts) Or ts = Inr pr"
    and "(case snd pr of [] \<Rightarrow> Inr (fst pr) | u # _ \<Rightarrow> Inl (Unexpected_token u)) = Inr p"
    by (auto simp: parseExpression_def case_prod_beta)
  then have "pr = (p, [])" by (cases pr; cases "snd pr") auto
  with parse_reads [of _ Or ts p "[]"] t show "\<exists>ts e. tokenize input = Inr ts \<and> or_expr e ts \<and> p = meaning e" by auto
next
  assume "\<exists>ts e. tokenize input = Inr ts \<and> or_expr e ts \<and> p = meaning e"
  then obtain ts e where t: "tokenize input = Inr ts" "or_expr e ts" "p = meaning e" by blast
  have "parses Or (ts @ []) (meaning e, [])"
    by (rule grammar_parses(1) [OF t(2)]) (simp_all add: and_stops_def parses_or_stop)
  then obtain n where n: "parse n Or ts = Inr (p, [])" by (auto simp: parses_def t(3))
  from parse_settles [OF n parse_fuel_enough] t(1) show "parseExpression input = Inr p"
    by (simp add: parseExpression_def)
qed

section \<open>The text of a filter\<close>

definition escape_char :: "char \<Rightarrow> string" where
  "escape_char c = (if c = quote \<or> c = backslash then [backslash, c] else [c])"

definition quoted_text :: "string \<Rightarrow> string" where
  "quoted_text s = quote # concat (map escape_char s) @ [quote]"

primrec expr_text :: "expr \<Rightarrow> string" where
  "expr_text (Str s) = quoted_text s"
| "expr_text (Not e) = ''!('' @ expr_text e @ '')''"
| "expr_text (All a b) = ''('' @ expr_text a @ '') && ('' @ expr_text b @ '')''"
| "expr_text (Any a b) = ''('' @ expr_text a @ '') || ('' @ expr_text b @ '')''"

primrec expr_tokens :: "expr \<Rightarrow> filter_token list" where
  "expr_tokens (Str s) = [T_STR s]"
| "expr_tokens (Not e) = T_NOT # T_LPAREN # expr_tokens e @ [T_RPAREN]"
| "expr_tokens (All a b) = T_LPAREN # expr_tokens a @ T_RPAREN # T_AND # T_LPAREN # expr_tokens b @ [T_RPAREN]"
| "expr_tokens (Any a b) = T_LPAREN # expr_tokens a @ T_RPAREN # T_OR # T_LPAREN # expr_tokens b @ [T_RPAREN]"

lemma quote_backslash [simp]: "quote \<noteq> backslash" "backslash \<noteq> quote"
  by (simp_all add: quote_def backslash_def)

lemma quoted_escape: "read_quoted (concat (map escape_char s) @ quote # r) = Some (s, r)"
proof (induction s)
  case Nil
  then show ?case by (cases r) simp_all
next
  case (Cons c s)
  obtain d t where t: "concat (map escape_char s) @ quote # r = d # t"
    by (cases "concat (map escape_char s) @ quote # r") auto
  show ?case
  proof (cases "c = quote \<or> c = backslash")
    case True
    then have "escape_char c = [backslash, c]" by (simp add: escape_char_def)
    then show ?thesis using Cons.IH by simp
  next
    case False
    then have "escape_char c = [c]" by (simp add: escape_char_def)
    then show ?thesis using Cons.IH False t by simp
  qed
qed

lemma quote_facts [simp]: "\<not> isWs quote" "quote \<noteq> CHR ''(''" "quote \<noteq> CHR '')''" "quote \<noteq> CHR ''!''"
  "\<not> doubled (CHR ''&'') quote s" "\<not> doubled (CHR ''|'') quote s"
  by (simp_all add: quote_def isWs_def doubled_def of_char_of)

lemma punctuation [simp]: "\<not> isWs (CHR ''('')" "\<not> isWs (CHR '')'')" "\<not> isWs (CHR ''!'')" "\<not> isWs (CHR ''&'')" "\<not> isWs (CHR ''|'')"
  "isWs (CHR '' '')" "doubled c c (c # s)" "\<not> doubled (CHR ''&'') (CHR ''|'') s"
  by (simp_all add: isWs_def doubled_def)

lemma tokenize_quoted: "tokenize (quoted_text s @ r) = ebind (tokenize r) (\<lambda>ts. Inr (T_STR s # ts))"
  by (simp add: quoted_text_def quoted_escape del: bare.simps)

lemma ebind_assoc: "ebind (ebind m f) g = ebind m (\<lambda>x. ebind (f x) g)"
  by (cases m) auto

lemma tokenize_text: "tokenize (expr_text e @ r) = ebind (tokenize r) (\<lambda>ts. Inr (expr_tokens e @ ts))"
  by (induction e arbitrary: r) (simp_all add: tokenize_quoted ebind_assoc del: bare.simps)

lemma tokens_phrase: "or_expr e (expr_tokens e)"
proof (induction e)
  case (Str s)
  show ?case by (simp add: or_one and_one unary_primary primary_str)
next
  case (Not e)
  show ?case using or_one [OF and_one [OF unary_not [OF unary_primary [OF primary_paren [OF Not]]]]] by simp
next
  case (All a b)
  show ?case
    using or_one [OF and_more [OF and_one [OF unary_primary [OF primary_paren [OF All(1)]]] unary_primary [OF primary_paren [OF All(2)]]]]
    by simp
next
  case (Any a b)
  show ?case
    using or_more [OF or_one [OF and_one [OF unary_primary [OF primary_paren [OF Any(1)]]]] and_one [OF unary_primary [OF primary_paren [OF Any(2)]]]]
    by simp
qed

lemma trim_kept:
  assumes "s \<noteq> []" and "\<not> is_space (hd s)" and "\<not> is_space (last s)"
  shows "trim s = s"
proof -
  have keep: "dropWhile P t = t" if "t \<noteq> []" "\<not> P (hd t)" for P :: "char \<Rightarrow> bool" and t
    using that by (cases t) auto
  show ?thesis using assms by (simp add: trim_def keep hd_rev)
qed

lemma expr_text_ends: "expr_text e \<noteq> [] \<and> hd (expr_text e) \<in> {quote, CHR ''('', CHR ''!''} \<and> last (expr_text e) \<in> {quote, CHR '')''}"
  by (cases e) (auto simp: quoted_text_def)

text \<open>
  Every combination of searched texts, negations, conjunctions and disjunctions can be written
  as a filter: its text, with every searched text in quotes and escaped, compiles to its meaning.
\<close>

lemma filter_text_compiles:
  "compileFilter (expr_text e) = \<lparr>cf_predicate = Some (meaning e), cf_error = None\<rparr>"
proof -
  have ends: "\<not> is_space quote" "\<not> is_space (CHR ''('')" "\<not> is_space (CHR ''!'')" "\<not> is_space (CHR '')'')"
    by (simp_all add: is_space_def quote_def Let_def of_char_of)
  have "trim (expr_text e) = expr_text e"
    using expr_text_ends [of e] ends by (intro trim_kept) auto
  moreover have "tokenize (expr_text e) = Inr (expr_tokens e)"
    using tokenize_text [of e "[]"] by simp
  then have "parseExpression (expr_text e) = Inr (meaning e)"
    unfolding filter_language using tokens_phrase [of e] by blast
  ultimately show ?thesis using expr_text_ends [of e] by (simp add: compileFilter_def)
qed

text \<open>A filter with a syntax error filters nothing, and neither does a blank one.\<close>

lemma refused_filter_shows_all:
  "cf_error (compileFilter f) \<noteq> None \<Longrightarrow> trim nf = [] \<Longrightarrow> st_filter s = f \<Longrightarrow> st_notFilter s = nf \<Longrightarrow> shown_events s = st_events s"
  by (auto simp: shown_events_def filteredEvents_def compileFilter_def split: if_splits sum.splits)

lemma blank_filter: "trim f = [] \<Longrightarrow> compileFilter f = no_filter"
  by (simp add: compileFilter_def no_filter_def)

text \<open>The cache of a filter never changes what the page compiles.\<close>

definition cache_ok :: "expr_cache \<Rightarrow> bool" where
  "cache_ok c \<longleftrightarrow> (\<forall>t. xc_input c = Some t \<longrightarrow> xc_compiled c = compileFilter t)"

lemma cache_transparent:
  assumes "cache_ok c"
  shows "fst (getCompiledFilter input c) = compileFilter input" and "cache_ok (snd (getCompiledFilter input c))"
  using assms by (auto simp: getCompiledFilter_def cache_ok_def)

lemma empty_cache_ok: "cache_ok empty_cache" by (simp add: cache_ok_def empty_cache_def)

section \<open>The memory\<close>

lemma keep_last_simps [simp]: "length (keep_last cap es) = min cap (length es)" "keep_last cap [] = []"
  by (auto simp: keep_last_def)

lemma set_keep_last: "set (keep_last cap es) \<subseteq> set es"
  by (auto simp: keep_last_def dest: in_set_dropD)

lemma keep_last_drop: "keep_last cap es = drop (length es - cap) es"
  by (simp add: keep_last_def)

lemma keep_last_twice: "keep_last cap (keep_last cap xs @ ys) = keep_last cap (xs @ ys)"
proof (cases "length xs \<le> cap")
  case False
  then have l: "length (keep_last cap xs @ ys) - cap = length ys" by simp
  have "keep_last cap (keep_last cap xs @ ys) = drop (length ys) (drop (length xs - cap) xs) @ drop (length ys - cap) ys"
    unfolding keep_last_drop [of cap "keep_last cap xs @ ys"] l using False by (simp add: keep_last_drop)
  also have "\<dots> = drop (length xs + length ys - cap) (xs @ ys)" using False by (simp add: add.commute)
  finally show ?thesis by (simp add: keep_last_drop)
qed (simp add: keep_last_def)

definition sorted_ids :: "nat \<Rightarrow> stream_event list \<Rightarrow> bool" where
  "sorted_ids n es \<longleftrightarrow> sorted_wrt (<) (map ev_id es) \<and> (\<forall>e\<in>set es. ev_id e < n)"

definition stream_inv :: "stream \<Rightarrow> bool" where
  "stream_inv s \<longleftrightarrow> length (st_events s) \<le> st_bufferSize s \<and> 0 < st_bufferSize s \<and> sorted_ids (st_nextId s) (st_events s @ st_buffer s)"

lemma sorted_ids_suffix: "sorted_ids n (as @ bs) \<Longrightarrow> sorted_ids n bs"
  by (auto simp: sorted_ids_def sorted_wrt_append)

lemma sorted_ids_drop: "sorted_ids n (xs @ ys) \<Longrightarrow> sorted_ids n (drop k xs @ ys)"
  using sorted_ids_suffix [of n "take k xs" "drop k xs @ ys"] by (simp flip: append_assoc)

lemma sorted_ids_keep: "sorted_ids n (xs @ ys) \<Longrightarrow> sorted_ids n (keep_last cap xs @ ys)"
  by (simp add: keep_last_drop sorted_ids_drop)

lemma stream_message_cases:
  obtains "stream_message env d s = s"
    | e where "ev_id e = st_nextId s" "stream_message env d s = s\<lparr>st_nextId := st_nextId s + 1, st_buffer := st_buffer s @ [e]\<rparr>"
proof (cases "\<exists>v. d = Some v \<and> \<not> nullish v")
  case True
  then show thesis by (auto simp: stream_message_def Let_def intro!: that(2))
next
  case False
  then show thesis by (intro that(1)) (auto simp: stream_message_def split: option.splits)
qed

lemma stream_step_inv: "stream_inv s \<Longrightarrow> stream_inv (stream_step env s a)"
proof (cases a)
  case (Message d)
  assume inv: "stream_inv s"
  show ?thesis unfolding Message stream_step.simps
  proof (rule stream_message_cases [of env d s])
    fix e assume e: "ev_id e = st_nextId s" "stream_message env d s = s\<lparr>st_nextId := st_nextId s + 1, st_buffer := st_buffer s @ [e]\<rparr>"
    have "sorted_ids (st_nextId s + 1) ((st_events s @ st_buffer s) @ [e])"
      using inv e(1) unfolding stream_inv_def sorted_ids_def by (auto simp: sorted_wrt_append less_SucI)
    then show "stream_inv (stream_message env d s)" using inv e(2) by (simp add: stream_inv_def)
  qed (use inv in simp)
next
  case Flush
  assume "stream_inv s"
  then show ?thesis
    unfolding Flush stream_inv_def using sorted_ids_keep [of "st_nextId s" "st_events s @ st_buffer s" "[]"]
    by (auto simp: flush_buffer_def)
next
  case (Buffer_size raw)
  assume "stream_inv s"
  then show ?thesis
    unfolding Buffer_size stream_inv_def using sorted_ids_keep [of "st_nextId s" "st_events s" "st_buffer s"]
    by (auto simp: onBufferSizeChange_def Let_def DEFAULT_BUFFER_SIZE_def split: option.splits)
next
  case (Step_selected d)
  assume "stream_inv s"
  then show ?thesis by (auto simp: Step_selected stepSelected_def stream_inv_def Let_def split: option.splits)
qed (auto simp: stream_inv_def on_scroll_def clear_stream_def sorted_ids_def selectEvent_def closePanel_def Let_def)

lemma stream_init_inv: "stream_inv stream_init"
  by (simp add: stream_inv_def stream_init_def DEFAULT_BUFFER_SIZE_def sorted_ids_def)

interpretation stream: machine "stream_step env" stream_inv for env
  by unfold_locales (rule stream_step_inv)

text \<open>
  Whatever is done on the page, it never keeps more events than its buffer may hold, and the
  events it keeps and those that wait have distinct identifiers, in the order they came.
\<close>

lemma memory_bounded:
  "length (st_events (foldl (stream_step env) stream_init as)) \<le> st_bufferSize (foldl (stream_step env) stream_init as) \<and>
    sorted_wrt (<) (map ev_id (st_events (foldl (stream_step env) stream_init as) @ st_buffer (foldl (stream_step env) stream_init as)))"
  using stream.run_inv [OF stream_init_inv, of env as] unfolding stream_inv_def sorted_ids_def by simp

text \<open>
  The events that a page without limit would keep: those that are in its list, those that wait, and
  the next identifier.
\<close>

fun unlimited :: "stream_env \<Rightarrow> stream \<Rightarrow> stream_action \<Rightarrow> stream" where
  "unlimited env s (Message d) = stream_message env d s"
| "unlimited env s Flush = s\<lparr>st_buffer := [], st_events := st_events s @ st_buffer s\<rparr>"
| "unlimited env s Clear = clear_stream s"
| "unlimited env s a = s"

definition keeps_size :: "stream_action \<Rightarrow> bool" where
  "keeps_size a \<longleftrightarrow> (\<forall>raw. a \<noteq> Buffer_size raw)"

definition same_memory :: "stream \<Rightarrow> stream \<Rightarrow> bool" where
  "same_memory s u \<longleftrightarrow> st_bufferSize s = DEFAULT_BUFFER_SIZE \<and> st_buffer s = st_buffer u \<and> st_nextId s = st_nextId u \<and>
     st_events s = keep_last DEFAULT_BUFFER_SIZE (st_events u)"

lemma same_memory_step: "same_memory s u \<Longrightarrow> keeps_size a \<Longrightarrow> same_memory (stream_step env s a) (unlimited env u a)"
  by (cases a) (auto simp: same_memory_def keeps_size_def stream_message_def flush_buffer_def clear_stream_def on_scroll_def
    selectEvent_def closePanel_def stepSelected_def keep_last_twice Let_def split: option.splits)


definition plain_env :: stream_env where
  "plain_env = \<lparr>se_line = (\<lambda>v. ''{}''), se_instant = (\<lambda>v. v), se_now = 0, se_text = (\<lambda>v. ''event'')\<rparr>"


text \<open>
  Typing a smaller size drops events at once, and they are not there any more when the number is
  complete: a size of 500 typed after a 5 keeps five events.
\<close>

lemma typed_size_drops:
  "length (st_events (onBufferSizeChange (Some 500) (onBufferSizeChange (Some 5) s))) \<le> 5"
  by (simp add: onBufferSizeChange_def)

text \<open>The event shown in the panel stays one of those listed when the arrows are used.\<close>

lemma step_selected_listed:
  assumes "stepSelected es d s \<noteq> s"
  shows "\<exists>e\<in>set es. st_selected (stepSelected es d s) = Some (ev_id e)"
  using assms by (auto simp: stepSelected_def Let_def split: if_splits option.splits)

end
