(* ===== verification/Analytics_Charts.thy ===== *)
theory Analytics_Charts
  imports Api_Client
begin

text \<open>
  The charts of the analytics (\<open>pages/analytics/widgets.js\<close>): the texts of the values, the rows given to the
  chart library from the series of the server, the colours of the thresholds, the table and the heat map.

  \<^item> A value is a text through \<open>Intl\<close>, in the locale of the browser: \<open>ch_intl\<close> gives that text, or
    \<open>None\<close> when \<open>Intl\<close> throws a \<open>RangeError\<close>, for the options the code chooses. \<open>ch_number\<close> is \<open>Number\<close>
    (\<open>None\<close> is \<open>NaN\<close>).
  \<^item> A formatted text is a \<open>string option\<close>: \<open>None\<close> is the \<open>RangeError\<close>. Numbers are finite, and below
    \<open>1e21\<close> where they are printed by \<open>toFixed\<close>.
  \<^item> The points of a series have a number as time; the thresholds have a number as value.
\<close>

section \<open>Texts of the values\<close>

record intl_options =
  io_currency :: js
  io_compact :: bool
  io_fraction :: js
  io_significant :: "nat option"

record chart_env =
  ch_intl :: "intl_options \<Rightarrow> rat \<Rightarrow> string option"
  ch_number :: "js \<Rightarrow> rat option"

definition plain_number :: intl_options where
  "plain_number = \<lparr>io_currency = JUndef, io_compact = False, io_fraction = JUndef, io_significant = None\<rparr>"

definition or_else :: "js \<Rightarrow> rat \<Rightarrow> js" where
  "or_else d n = (if nullish d then JNum n else d)"

definition formatCurrency :: "chart_env \<Rightarrow> rat \<Rightarrow> js \<Rightarrow> js \<Rightarrow> string option" where
  "formatCurrency env v d currency =
     (let code = js_or currency (JStr ''USD''); o' = plain_number\<lparr>io_currency := code\<rparr>;
          shown = ch_intl env
            (if v = 0 then o'\<lparr>io_fraction := JNum 0\<rparr>
             else if \<bar>v\<bar> < 1 \<and> nullish d then o'\<lparr>io_significant := Some 2\<rparr>
             else if \<bar>v\<bar> \<ge> 1000000 then o'\<lparr>io_compact := True, io_fraction := JNum 1\<rparr>
             else o'\<lparr>io_fraction := or_else d 2\<rparr>) v
      in case shown of
           Some s \<Rightarrow> Some s
         | None \<Rightarrow> map_option (\<lambda>s. s @ '' '' @ template_text code)
             (ch_intl env (plain_number\<lparr>io_fraction := or_else d 2\<rparr>) v))"

definition numberPrecision :: "rat \<Rightarrow> js \<Rightarrow> intl_options" where
  "numberPrecision n d =
     (if \<not> nullish d then plain_number\<lparr>io_fraction := d\<rparr>
      else if \<bar>n\<bar> = 0 \<or> \<bar>n\<bar> \<ge> 100 then plain_number\<lparr>io_fraction := JNum 0\<rparr>
      else if \<bar>n\<bar> \<ge> 1 then plain_number\<lparr>io_fraction := JNum 2\<rparr>
      else plain_number\<lparr>io_significant := Some 3\<rparr>)"

text \<open>\<open>n.toFixed(f)\<close>: the nearest number with \<open>f\<close> decimals, the larger one for a tie, with the sign of \<open>n\<close>.\<close>

definition fixed_digits :: "rat \<Rightarrow> nat \<Rightarrow> nat" where
  "fixed_digits n f = nat \<lfloor>\<bar>n\<bar> * 10 ^ f + 1 / 2\<rfloor>"

definition toFixed :: "rat \<Rightarrow> nat \<Rightarrow> string" where
  "toFixed n f =
     (let m = fixed_digits n f; frac = nat_str (m mod 10 ^ f)
      in (if n < 0 then ''-'' else []) @ nat_str (m div 10 ^ f) @
         (if f = 0 then [] else ''.'' @ replicate (f - length frac) (CHR ''0'') @ frac))"

definition whole :: "rat \<Rightarrow> int" where
  "whole q = (if q \<ge> 0 then \<lfloor>q\<rfloor> else \<lceil>q\<rceil>)"

definition fixed_text :: "chart_env \<Rightarrow> js \<Rightarrow> rat \<Rightarrow> string option" where
  "fixed_text env d n =
     (let f = (case ch_number env d of None \<Rightarrow> 0 | Some q \<Rightarrow> whole q)
      in if f < 0 \<or> f > 100 then None else Some (toFixed n (nat f)))"

definition formatBytes :: "rat \<Rightarrow> string" where
  "formatBytes b =
     (if b < 1024 then num_str b @ '' B''
      else if b < 1024 * 1024 then toFixed (b / 1024) 1 @ '' KB''
      else if b < 1024 * 1024 * 1024 then toFixed (b / 1024 / 1024) 1 @ '' MB''
      else toFixed (b / 1024 / 1024 / 1024) 1 @ '' GB'')"

definition withUnit :: "js \<Rightarrow> string \<Rightarrow> string" where
  "withUnit unit s = (if truthy unit then s @ '' '' @ template_text unit else s)"

definition formatValue :: "chart_env \<Rightarrow> js \<Rightarrow> js \<Rightarrow> js \<Rightarrow> js \<Rightarrow> js \<Rightarrow> string option" where
  "formatValue env format d unit currency v =
     (if nullish v then Some ''-''
      else case ch_number env v of
        None \<Rightarrow> Some ''-''
      | Some n \<Rightarrow>
          if format = JStr ''count'' then
            map_option (withUnit unit) (ch_intl env (plain_number\<lparr>io_fraction := if nullish d then JUndef else d\<rparr>) n)
          else if format = JStr ''number'' then map_option (withUnit unit) (ch_intl env (numberPrecision n d) n)
          else if format = JStr ''compact'' then
            map_option (withUnit unit) (ch_intl env (plain_number\<lparr>io_compact := True, io_fraction := or_else d 1\<rparr>) n)
          else if format = JStr ''currency'' then formatCurrency env n d currency
          else if format = JStr ''rps'' then map_option (\<lambda>s. s @ '' req/s'') (fixed_text env (js_or d (JNum 2)) n)
          else if format = JStr ''ms'' then Some (num_str (of_int \<lfloor>n + 1 / 2\<rfloor>) @ '' ms'')
          else if format = JStr ''percent'' then map_option (\<lambda>s. s @ '' %'') (fixed_text env (js_or d (JNum 1)) (n * 100))
          else if format = JStr ''bytes'' then Some (formatBytes n)
          else map_option (withUnit unit) (ch_intl env plain_number n))"

definition formatterOf :: "chart_env \<Rightarrow> js \<Rightarrow> js \<Rightarrow> string option" where
  "formatterOf env options =
     formatValue env (js_or (jprop options ''format'') (JStr ''count'')) (jprop options ''decimals'')
       (jprop options ''unit'') (jprop options ''currency'')"

definition finite_numbers :: "js list \<Rightarrow> rat list" where
  "finite_numbers vs = concat (map (\<lambda>v. case v of JNum n \<Rightarrow> [n] | _ \<Rightarrow> []) vs)"

definition axisWidth :: "(js \<Rightarrow> string option) \<Rightarrow> js list \<Rightarrow> nat option" where
  "axisWidth fmt vs =
     (let finite = finite_numbers vs in
      if finite = [] then Some 60
      else let high = Max (set finite); candidates = [0, high, Min (set finite), high / 3]
           in map_option (\<lambda>ts. min 140 (max 40 (Max (set (map length ts)) * 7 + 14)))
                (those (map (\<lambda>v. fmt (JNum v)) candidates)))"

section \<open>The rows of a chart over time\<close>

record point =
  pt_ts :: rat
  pt_value :: js

record series =
  se_name :: js
  se_points :: "point list"

type_synonym chart_row = obj

definition toSeries :: "js \<Rightarrow> js list" where
  "toSeries data =
     (if \<not> truthy data then []
      else case jprop data ''series'' of
        JArr ss \<Rightarrow> ss
      | _ \<Rightarrow> (case jprop data ''points'' of
           JArr ps \<Rightarrow> [JObj [(''name'', JStr ''value''), (''points'', JArr ps)]]
         | _ \<Rightarrow> []))"

definition read_point :: "js \<Rightarrow> point option" where
  "read_point p = (case jprop p ''ts'' of JNum t \<Rightarrow> Some \<lparr>pt_ts = t, pt_value = jprop p ''value''\<rparr> | _ \<Rightarrow> None)"

definition read_series :: "js \<Rightarrow> series option" where
  "read_series s =
     (case jprop s ''points'' of
        JArr ps \<Rightarrow> map_option (\<lambda>qs. \<lparr>se_name = jprop s ''name'', se_points = qs\<rparr>) (those (map read_point ps))
      | _ \<Rightarrow> None)"

definition seriesKey :: "nat \<Rightarrow> string" where
  "seriesKey i = ''s'' @ nat_str i"

definition prevSeriesKey :: "nat \<Rightarrow> string" where
  "prevSeriesKey i = ''s'' @ nat_str i @ ''_prev''"

definition all_times :: "series list \<Rightarrow> rat list" where
  "all_times ss = sort (remdups (concat (map (\<lambda>s. map pt_ts (se_points s)) ss)))"

text \<open>\<open>map[k][key] = v\<close> when there is a row \<open>k\<close>.\<close>

definition set_cell :: "nat \<Rightarrow> string \<Rightarrow> js \<Rightarrow> chart_row list \<Rightarrow> chart_row list" where
  "set_cell k key v rows = (if k < length rows then rows[k := AList.update key v (rows ! k)] else rows)"

definition put_points :: "rat list \<Rightarrow> string \<Rightarrow> point list \<Rightarrow> chart_row list \<Rightarrow> chart_row list" where
  "put_points ts key ps =
     fold (\<lambda>p rows. case find_index ((=) (pt_ts p)) ts of Some k \<Rightarrow> set_cell k key (pt_value p) rows | None \<Rightarrow> rows) ps"

definition put_previous :: "string \<Rightarrow> point list \<Rightarrow> chart_row list \<Rightarrow> chart_row list" where
  "put_previous key ps = fold (\<lambda>(j, p). set_cell j key (pt_value p)) (enumerate 0 ps)"

definition pivotForRecharts :: "series list \<Rightarrow> series list \<Rightarrow> chart_row list" where
  "pivotForRecharts ss prev =
     fold (\<lambda>(i, s). put_previous (prevSeriesKey i) (se_points s)) (enumerate 0 prev)
       (fold (\<lambda>(i, s). put_points (all_times ss) (seriesKey i) (se_points s)) (enumerate 0 ss)
         (map (\<lambda>t. [(''ts'', JNum t)]) (all_times ss)))"

definition PALETTE :: "string list" where
  "PALETTE = [''#2196f3'', ''#ff9800'', ''#f44336'', ''#4caf50'', ''#9c27b0'', ''#00bcd4'', ''#cddc39'', ''#795548'',
     ''#607d8b'', ''#e91e63'']"

record drawn_line =
  dl_key :: string
  dl_name :: js
  dl_stack :: "string option"
  dl_stroke :: string

definition current_lines :: "js \<Rightarrow> series list \<Rightarrow> drawn_line list" where
  "current_lines options ss = map (\<lambda>(i, s).
     \<lparr>dl_key = seriesKey i, dl_name = se_name s,
      dl_stack = (if truthy (jprop options ''stacked'') then Some ''stack'' else None),
      dl_stroke = PALETTE ! (i mod length PALETTE)\<rparr>) (enumerate 0 ss)"

definition previous_lines :: "js \<Rightarrow> series list \<Rightarrow> drawn_line list" where
  "previous_lines options ss = map (\<lambda>(i, s).
     \<lparr>dl_key = prevSeriesKey i, dl_name = JStr (template_text (se_name s) @ '' (previous period)''),
      dl_stack = (if truthy (jprop options ''stacked'') then Some ''stack_prev'' else None),
      dl_stroke = PALETTE ! (i mod length PALETTE)\<rparr>) (enumerate 0 ss)"

record time_chart =
  tc_rows :: "chart_row list"
  tc_width :: nat
  tc_legend :: bool
  tc_lines :: "drawn_line list"

definition row_values :: "chart_row list \<Rightarrow> js list" where
  "row_values rows = concat (map (\<lambda>row. map snd (filter (\<lambda>e. fst e \<noteq> ''ts'') row)) rows)"

text \<open>\<open>compare\<close> is what the server sent for the previous period.\<close>

definition compared :: "js \<Rightarrow> js list" where
  "compared compare = (if truthy compare then toSeries (jprop compare ''data'') else [])"

definition TimeseriesChart :: "chart_env \<Rightarrow> js \<Rightarrow> series list \<Rightarrow> series list \<Rightarrow> time_chart option" where
  "TimeseriesChart env options ss prev =
     (let flat = pivotForRecharts ss prev
      in map_option (\<lambda>w. \<lparr>tc_rows = flat, tc_width = w, tc_legend = (jprop options ''legend'' \<noteq> JBool False),
             tc_lines = current_lines options ss @ previous_lines options prev\<rparr>)
           (axisWidth (formatterOf env options) (row_values flat)))"

section \<open>Thresholds, table and heat map\<close>

definition pickThresholdColor :: "rat option \<Rightarrow> (rat \<times> js) list \<Rightarrow> js" where
  "pickThresholdColor value thresholds =
     (case value of None \<Rightarrow> JNull
      | Some v \<Rightarrow> foldl (\<lambda>color t. if v \<ge> fst t then snd t else color) JNull (sort_key fst thresholds))"

definition scalar_value :: "js \<Rightarrow> js" where
  "scalar_value data =
     (if truthy data then (if nullish (jprop data ''value'') then JNum 0 else jprop data ''value'') else data)"

definition metric_text :: "(js \<Rightarrow> string option) \<Rightarrow> js \<Rightarrow> string option" where
  "metric_text fmt data =
     (let v = (if truthy data then jprop data ''value'' else data) in if nullish v then Some ''-'' else fmt v)"

definition metric_label :: "js \<Rightarrow> js \<Rightarrow> js" where
  "metric_label data options =
     js_or (js_or (if truthy data then jprop data ''label'' else data) (jprop options ''title'')) (JStr [])"

definition formatCell :: "chart_env \<Rightarrow> js \<Rightarrow> string option" where
  "formatCell env v =
     (if nullish v then Some ''-''
      else case v of
        JNum n \<Rightarrow> ch_intl env (plain_number\<lparr>io_fraction := JNum 6\<rparr>) n
      | _ \<Rightarrow> Some (template_text v))"

definition table_items :: "js \<Rightarrow> js list" where
  "table_items data = (case js_or (jprop data ''items'') (jprop data ''rows'') of JArr xs \<Rightarrow> xs | _ \<Rightarrow> [])"

definition table_cols :: "js list \<Rightarrow> string list" where
  "table_cols items = (case items of [] \<Rightarrow> [] | row # _ \<Rightarrow> filter (\<lambda>k. k \<noteq> ''key'') (map fst (entries row)))"

definition numeric_cols :: "js list \<Rightarrow> string list" where
  "numeric_cols items =
     filter (\<lambda>c. c = ''value'' \<or> (\<forall>row \<in> set items. nullish (jprop row c) \<or> (case jprop row c of JNum _ \<Rightarrow> True | _ \<Rightarrow> False)))
       (table_cols items)"

definition table_cells :: "chart_env \<Rightarrow> js \<Rightarrow> js list \<Rightarrow> string option list list" where
  "table_cells env options items =
     map (\<lambda>row. map (\<lambda>c. if c = ''value'' then formatterOf env options (jprop row c) else formatCell env (jprop row c))
       (table_cols items)) items"

definition heat_max :: "rat list list \<Rightarrow> rat" where
  "heat_max values = fold (\<lambda>row m. fold (\<lambda>v m. if v > m then v else m) row m) values 0"

definition heat_value :: "rat list list \<Rightarrow> nat \<Rightarrow> nat \<Rightarrow> rat" where
  "heat_value values y x =
     (if y < length values \<and> x < length (values ! y) then values ! y ! x else 0)"

definition intensity :: "rat list list \<Rightarrow> nat \<Rightarrow> nat \<Rightarrow> rat" where
  "intensity values y x = (if heat_max values > 0 then heat_value values y x / heat_max values else 0)"

definition cell_height :: "nat \<Rightarrow> nat \<Rightarrow> nat" where
  "cell_height h rows = nat (max 8 \<lfloor>((of_nat h - 30) / of_nat rows :: rat)\<rfloor>)"

definition labelled_columns :: "nat \<Rightarrow> nat list" where
  "labelled_columns cols = filter (\<lambda>i. i mod nat \<lceil>of_nat cols / (8 :: rat)\<rceil> = 0) [0..<cols]"

datatype chart = LineChart | AreaChart | BarChart | PieChart | DonutChart | ScalarChart | MetricChart | TableChart | HeatmapChart

definition WIDGETS :: "(string \<times> chart) list" where
  "WIDGETS = [(''line'', LineChart), (''area'', AreaChart), (''bar'', BarChart), (''pie'', PieChart), (''donut'', DonutChart),
     (''scalar'', ScalarChart), (''metric'', MetricChart), (''table'', TableChart), (''heatmap'', HeatmapChart)]"

definition renderWidget :: "string \<Rightarrow> chart" where
  "renderWidget t = (case map_of WIDGETS t of Some c \<Rightarrow> c | None \<Rightarrow> LineChart)"

section \<open>Cells of the rows\<close>

lemma set_cell_length [simp]: "length (set_cell k key v rows) = length rows"
  by (simp add: set_cell_def)

lemma set_cell_get:
  "j < length rows \<Longrightarrow>
   obj_get (set_cell k key v rows ! j) key' = (if j = k \<and> key' = key then v else obj_get (rows ! j) key')"
  by (auto simp: set_cell_def nth_list_update)

lemma put_points_length [simp]: "length (put_points ts key ps rows) = length rows"
  by (induction ps arbitrary: rows) (auto simp: put_points_def split: option.splits)

lemma put_previous_length [simp]: "length (put_previous key ps rows) = length rows"
  by (induction ps rule: rev_induct) (auto simp: put_previous_def enumerate_append_eq)

lemma find_index_distinct:
  assumes "distinct xs"
  shows "find_index ((=) x) xs = Some k \<longleftrightarrow> k < length xs \<and> xs ! k = x"
proof
  assume k: "k < length xs \<and> xs ! k = x"
  then obtain i where i: "find_index ((=) x) xs = Some i"
    by (cases "find_index ((=) x) xs") (auto simp: find_index_None)
  with find_index_Some [OF i] k assms show "find_index ((=) x) xs = Some k"
    by (metis nth_eq_iff_index_eq)
qed (auto dest: find_index_Some)

text \<open>The value a series has at a time: that of its last point there.\<close>

definition value_at :: "rat \<Rightarrow> point list \<Rightarrow> js option" where
  "value_at t ps = map_of (rev (map (\<lambda>p. (pt_ts p, pt_value p)) ps)) t"

lemma put_points_get:
  assumes "distinct ts" and "length rows = length ts" and "j < length ts"
  shows "obj_get (put_points ts key ps rows ! j) key' =
    (if key' = key then case value_at (ts ! j) ps of Some v \<Rightarrow> v | None \<Rightarrow> obj_get (rows ! j) key' else obj_get (rows ! j) key')"
proof (induction ps rule: rev_induct)
  case Nil
  show ?case by (simp add: put_points_def value_at_def)
next
  case (snoc p ps)
  let ?r = "put_points ts key ps rows"
  have step: "put_points ts key (ps @ [p]) rows =
    (case find_index ((=) (pt_ts p)) ts of Some k \<Rightarrow> set_cell k key (pt_value p) ?r | None \<Rightarrow> ?r)"
    by (simp add: put_points_def split: option.splits)
  have len: "j < length ?r" using assms by simp
  have hit: "find_index ((=) (pt_ts p)) ts = Some j \<longleftrightarrow> pt_ts p = ts ! j"
    using assms by (auto simp: find_index_distinct)
  have new: "obj_get (put_points ts key (ps @ [p]) rows ! j) key' =
    (if pt_ts p = ts ! j \<and> key' = key then pt_value p else obj_get (?r ! j) key')"
    using hit by (cases "find_index ((=) (pt_ts p)) ts") (auto simp: step set_cell_get [OF len])
  show ?case unfolding new snoc.IH by (auto simp: value_at_def)
qed

lemma put_previous_get:
  assumes "j < length rows"
  shows "obj_get (put_previous key ps rows ! j) key' =
    (if key' = key \<and> j < length ps then pt_value (ps ! j) else obj_get (rows ! j) key')"
proof (induction ps rule: rev_induct)
  case (snoc p ps)
  have "put_previous key (ps @ [p]) rows = set_cell (length ps) key (pt_value p) (put_previous key ps rows)"
    by (simp add: put_previous_def enumerate_append_eq)
  with snoc assms show ?case by (auto simp: set_cell_get nth_append)
qed (simp add: put_previous_def)

lemma nat_str_no_bar: "CHR ''_'' \<notin> set (nat_str n)"
  using nat_str_digits [of n] by force

lemma keys_apart [simp]:
  "seriesKey i = seriesKey j \<longleftrightarrow> i = j" "prevSeriesKey i = prevSeriesKey j \<longleftrightarrow> i = j"
  "seriesKey i \<noteq> prevSeriesKey j" "prevSeriesKey j \<noteq> seriesKey i"
  "seriesKey i \<noteq> ''ts''" "prevSeriesKey i \<noteq> ''ts''"
proof -
  have "nat_str i \<noteq> nat_str j @ ''_prev''" using nat_str_no_bar [of i] by auto
  then show "seriesKey i \<noteq> prevSeriesKey j" and "prevSeriesKey j \<noteq> seriesKey i"
    by (simp_all add: seriesKey_def prevSeriesKey_def)
  have "nat_str i \<noteq> ''s'' " for i using nat_str_digits [of i] by auto
  moreover have "CHR ''t'' \<notin> {c. of_char c \<in> {48..<58::nat}}" by simp
  ultimately show "seriesKey i \<noteq> ''ts''" "prevSeriesKey i \<noteq> ''ts''"
    by (auto simp: seriesKey_def prevSeriesKey_def)
qed (auto simp: seriesKey_def prevSeriesKey_def dest: nat_str_inj)

definition current_rows :: "rat list \<Rightarrow> series list \<Rightarrow> chart_row list \<Rightarrow> chart_row list" where
  "current_rows ts ss rows = fold (\<lambda>(i, s). put_points ts (seriesKey i) (se_points s)) (enumerate 0 ss) rows"

definition previous_rows :: "series list \<Rightarrow> chart_row list \<Rightarrow> chart_row list" where
  "previous_rows ss rows = fold (\<lambda>(i, s). put_previous (prevSeriesKey i) (se_points s)) (enumerate 0 ss) rows"

lemma current_rows_length [simp]: "length (current_rows ts ss rows) = length rows"
  by (induction ss rule: rev_induct) (auto simp: current_rows_def enumerate_append_eq)

lemma previous_rows_length [simp]: "length (previous_rows ss rows) = length rows"
  by (induction ss rule: rev_induct) (auto simp: previous_rows_def enumerate_append_eq)

lemma current_rows_get:
  assumes "distinct ts" and "length rows = length ts" and "j < length ts"
  shows "obj_get (current_rows ts ss rows ! j) (seriesKey i) =
      (case (if i < length ss then value_at (ts ! j) (se_points (ss ! i)) else None) of
         Some v \<Rightarrow> v | None \<Rightarrow> obj_get (rows ! j) (seriesKey i))"
    and "(\<And>i. key \<noteq> seriesKey i) \<Longrightarrow> obj_get (current_rows ts ss rows ! j) key = obj_get (rows ! j) key"
proof (induction ss rule: rev_induct)
  case (snoc s ss)
  have step: "current_rows ts (ss @ [s]) rows = put_points ts (seriesKey (length ss)) (se_points s) (current_rows ts ss rows)"
    by (simp add: current_rows_def enumerate_append_eq)
  note get = put_points_get [OF assms(1) _ assms(3), of "current_rows ts ss rows"]
  case 1
  show ?case using snoc.IH(1) assms by (auto simp: step get nth_append split: option.splits)
  case 2
  then show ?case using snoc.IH(2) assms by (auto simp: step get)
qed (simp_all add: current_rows_def)

lemma previous_rows_get:
  assumes "j < length rows"
  shows "obj_get (previous_rows ss rows ! j) (prevSeriesKey i) =
      (if i < length ss \<and> j < length (se_points (ss ! i)) then pt_value (se_points (ss ! i) ! j) else obj_get (rows ! j) (prevSeriesKey i))"
    and "(\<And>i. key \<noteq> prevSeriesKey i) \<Longrightarrow> obj_get (previous_rows ss rows ! j) key = obj_get (rows ! j) key"
proof (induction ss rule: rev_induct)
  case (snoc s ss)
  have step: "previous_rows (ss @ [s]) rows = put_previous (prevSeriesKey (length ss)) (se_points s) (previous_rows ss rows)"
    by (simp add: previous_rows_def enumerate_append_eq)
  case 1
  show ?case using snoc.IH(1) assms by (auto simp: step put_previous_get nth_append)
  case 2
  then show ?case using snoc.IH(2) assms by (auto simp: step put_previous_get)
qed (simp_all add: previous_rows_def)

lemma pivot_parts:
  "pivotForRecharts ss prev =
     previous_rows prev (current_rows (all_times ss) ss (map (\<lambda>t. [(''ts'', JNum t)]) (all_times ss)))"
  by (simp add: pivotForRecharts_def previous_rows_def current_rows_def)

lemma all_times_facts:
  "distinct (all_times ss)" "sorted_wrt (<) (all_times ss)"
  "set (all_times ss) = (\<Union>s \<in> set ss. pt_ts ` set (se_points s))"
  by (auto simp: all_times_def strict_sorted_iff)

text \<open>
  The rows given to the chart library hold each value in one place. There is one row per time of
  the series, in increasing order; under the key of a series a row has the value of the last point
  of that series at its time, and nothing when there is none; under the key of a series of the previous
  period the row \<open>j\<close> has the value of its point number \<open>j\<close>.
\<close>
lemma pivot_cells:
  fixes ss prev
  defines "rows \<equiv> pivotForRecharts ss prev"
  shows "map (\<lambda>row. obj_get row ''ts'') rows = map JNum (all_times ss) \<and>
    (\<forall>j i. j < length rows \<longrightarrow>
       obj_get (rows ! j) (seriesKey i) =
         (if i < length ss then case value_at (all_times ss ! j) (se_points (ss ! i)) of Some v \<Rightarrow> v | None \<Rightarrow> JUndef else JUndef) \<and>
       obj_get (rows ! j) (prevSeriesKey i) =
         (if i < length prev \<and> j < length (se_points (prev ! i)) then pt_value (se_points (prev ! i) ! j) else JUndef))"
proof -
  have ts: "''ts'' \<noteq> seriesKey i" "''ts'' \<noteq> prevSeriesKey i" for i by (metis keys_apart)+
  have len: "length rows = length (all_times ss)" by (simp add: rows_def pivot_parts)
  have "map (\<lambda>row. obj_get row ''ts'') rows = map JNum (all_times ss)"
    by (rule nth_equalityI) (use ts in \<open>simp_all add: len rows_def pivot_parts previous_rows_get current_rows_get all_times_facts\<close>)
  moreover have "obj_get (rows ! j) (seriesKey i) =
      (if i < length ss then case value_at (all_times ss ! j) (se_points (ss ! i)) of Some v \<Rightarrow> v | None \<Rightarrow> JUndef else JUndef)"
    if "j < length rows" for i j
    using that by (auto simp: len rows_def pivot_parts previous_rows_get current_rows_get(1) all_times_facts ts split: option.splits)
  moreover have "obj_get (rows ! j) (prevSeriesKey i) =
      (if i < length prev \<and> j < length (se_points (prev ! i)) then pt_value (se_points (prev ! i) ! j) else JUndef)"
    if "j < length rows" for i j
    using that by (simp add: ts len rows_def pivot_parts previous_rows_get(1) current_rows_get(2) all_times_facts)
  ultimately show ?thesis by blast
qed

text \<open>What the chart library draws for a key: the values of the rows that have one.\<close>

definition line_points :: "chart_row list \<Rightarrow> string \<Rightarrow> (rat \<times> js) list" where
  "line_points rows key = concat (map (\<lambda>row.
     case obj_get row ''ts'' of
       JNum t \<Rightarrow> if obj_get row key = JUndef then [] else [(t, obj_get row key)]
     | _ \<Rightarrow> []) rows)"

lemma line_points_pivot:
  assumes i: "i < length ss" and vals: "\<forall>p \<in> set (se_points (ss ! i)). pt_value p \<noteq> JUndef"
  shows "line_points (pivotForRecharts ss prev) (seriesKey i) =
    concat (map (\<lambda>t. case value_at t (se_points (ss ! i)) of Some v \<Rightarrow> [(t, v)] | None \<Rightarrow> []) (all_times ss))"
proof -
  define rows where "rows = pivotForRecharts ss prev"
  have len: "length rows = length (all_times ss)" by (simp add: rows_def pivot_parts)
  have times: "map (\<lambda>row. obj_get row ''ts'') rows = map JNum (all_times ss)"
    using pivot_cells [of ss prev] by (simp add: rows_def)
  have time: "obj_get (rows ! j) ''ts'' = JNum (all_times ss ! j)" if "j < length rows" for j
    using that times len by (metis nth_map)
  have cell: "obj_get (rows ! j) (seriesKey i) =
      (case value_at (all_times ss ! j) (se_points (ss ! i)) of Some v \<Rightarrow> v | None \<Rightarrow> JUndef)" if "j < length rows" for j
    using that i pivot_cells [of ss prev] by (simp add: rows_def)
  have defd: "v \<noteq> JUndef" if "value_at t (se_points (ss ! i)) = Some v" for t v
    using map_of_SomeD [OF that [unfolded value_at_def]] vals by auto
  have "map (\<lambda>row. case obj_get row ''ts'' of JNum t \<Rightarrow>
          if obj_get row (seriesKey i) = JUndef then [] else [(t, obj_get row (seriesKey i))] | _ \<Rightarrow> []) rows =
        map (\<lambda>t. case value_at t (se_points (ss ! i)) of Some v \<Rightarrow> [(t, v)] | None \<Rightarrow> []) (all_times ss)"
    by (rule nth_equalityI) (use len time cell defd in \<open>auto split: option.splits\<close>)
  then show ?thesis by (simp add: line_points_def rows_def)
qed

lemma strict_points_read:
  assumes sp: "sorted_wrt (<) (map pt_ts ps)" and st: "sorted_wrt (<) ts" and sub: "pt_ts ` set ps \<subseteq> set ts"
  shows "concat (map (\<lambda>t. case value_at t ps of Some v \<Rightarrow> [(t, v)] | None \<Rightarrow> []) ts) = map (\<lambda>p. (pt_ts p, pt_value p)) ps"
proof -
  have dist: "distinct (map pt_ts ps)" using sp by (simp add: strict_sorted_iff)
  then have dist': "distinct (map pt_ts (rev ps))" by (simp add: rev_map [symmetric])
  have at_point: "value_at (pt_ts p) ps = Some (pt_value p)" if "p \<in> set ps" for p
    unfolding value_at_def using dist' that
    by (intro map_of_is_SomeI) (auto simp: rev_map comp_def)
  have none: "value_at t ps = None \<longleftrightarrow> t \<notin> pt_ts ` set ps" for t
    by (auto simp: value_at_def map_of_eq_None_iff image_image)
  have "concat (map (\<lambda>t. case value_at t ps of Some v \<Rightarrow> [(t, v)] | None \<Rightarrow> []) ts) =
    map (\<lambda>t. (t, the (value_at t ps))) (filter (\<lambda>t. t \<in> pt_ts ` set ps) ts)"
    using none by (induction ts) (auto split: option.splits)
  also have "filter (\<lambda>t. t \<in> pt_ts ` set ps) ts = map pt_ts ps"
  proof (rule sorted_distinct_set_unique)
    show "set (filter (\<lambda>t. t \<in> pt_ts ` set ps) ts) = set (map pt_ts ps)" using sub by auto
  qed (use sp st in \<open>simp_all add: strict_sorted_iff sorted_wrt_filter\<close>)
  also have "map (\<lambda>t. (t, the (value_at t ps))) (map pt_ts ps) = map (\<lambda>p. (pt_ts p, pt_value p)) ps"
    using at_point by simp
  finally show ?thesis .
qed

text \<open>
  C25. A line of the current period of a chart over time is its series: for each series of the period the chart draws one line, with the
  name of the series, and, when the times of the series increase and its points have values, the points the chart library reads
  back from the rows under the key of that line are the points of the series, whatever the other series and the previous period
  have.
\<close>
theorem lines_are_the_series:
  assumes "TimeseriesChart env options ss prev = Some c" and "i < length ss"
    and "sorted_wrt (<) (map pt_ts (se_points (ss ! i)))"
    and "\<forall>p \<in> set (se_points (ss ! i)). pt_value p \<noteq> JUndef"
  shows "dl_name (tc_lines c ! i) = se_name (ss ! i) \<and>
    line_points (tc_rows c) (dl_key (tc_lines c ! i)) = map (\<lambda>p. (pt_ts p, pt_value p)) (se_points (ss ! i))"
proof -
  from assms(1) have c: "tc_rows c = pivotForRecharts ss prev" "tc_lines c = current_lines options ss @ previous_lines options prev"
    by (auto simp: TimeseriesChart_def Let_def)
  have "current_lines options ss ! i = \<lparr>dl_key = seriesKey i, dl_name = se_name (ss ! i),
      dl_stack = (if truthy (jprop options ''stacked'') then Some ''stack'' else None), dl_stroke = PALETTE ! (i mod length PALETTE)\<rparr>"
    using assms(2) by (simp add: current_lines_def nth_enumerate_eq)
  moreover have "pt_ts ` set (se_points (ss ! i)) \<subseteq> set (all_times ss)" using assms(2)
    by (auto simp: all_times_facts intro!: bexI [OF _ nth_mem [OF assms(2)]])
  ultimately show ?thesis using assms(2)
    by (simp add: c nth_append current_lines_def [THEN arg_cong [of _ _ length]] line_points_pivot [OF assms(2,4)]
        strict_points_read [OF assms(3) all_times_facts(2)])
qed

definition latency :: "series list" where
  "latency = [\<lparr>se_name = JStr ''gpt-4.1'', se_points = [\<lparr>pt_ts = 10, pt_value = JNum 3\<rparr>, \<lparr>pt_ts = 30, pt_value = JNum 5\<rparr>]\<rparr>,
     \<lparr>se_name = JStr ''all'', se_points = [\<lparr>pt_ts = 20, pt_value = JNum 4\<rparr>]\<rparr>]"

text \<open>A browser that knows one currency and prints whole parts.\<close>

definition plain_browser :: chart_env where
  "plain_browser = \<lparr>ch_intl = (\<lambda>o' n. if io_currency o' \<in> {JUndef, JStr ''USD''} then Some (num_str (of_int \<lfloor>n\<rfloor>)) else None),
     ch_number = (\<lambda>v. case v of JNum n \<Rightarrow> Some n | _ \<Rightarrow> None)\<rparr>"

lemma lines_are_the_series_witness:
  "\<exists>c. TimeseriesChart plain_browser (JObj []) latency latency = Some c \<and> dl_name (tc_lines c ! 0) = JStr ''gpt-4.1'' \<and>
     line_points (tc_rows c) (dl_key (tc_lines c ! 0)) = [(10, JNum 3), (30, JNum 5)]"
proof -
  have "TimeseriesChart plain_browser (JObj []) latency latency \<noteq> None"
    by (simp add: TimeseriesChart_def axisWidth_def Let_def formatterOf_def js_or_def formatValue_def nullish_def
        plain_browser_def plain_number_def jprop_def)
  then obtain c where c: "TimeseriesChart plain_browser (JObj []) latency latency = Some c" by blast
  from lines_are_the_series [OF c, of 0]
  have "dl_name (tc_lines c ! 0) = JStr ''gpt-4.1'' \<and> line_points (tc_rows c) (dl_key (tc_lines c ! 0)) = [(10, JNum 3), (30, JNum 5)]"
    by (simp add: latency_def)
  with c show ?thesis by blast
qed

text \<open>
  The lines of the previous period are aligned by position: a period whose first point is missing is drawn one place early.
\<close>
lemma previous_period_shifted:
  "line_points (pivotForRecharts [\<lparr>se_name = JNull, se_points = [\<lparr>pt_ts = t, pt_value = a\<rparr>, \<lparr>pt_ts = t + 1, pt_value = b\<rparr>]\<rparr>]
     [\<lparr>se_name = JNull, se_points = [\<lparr>pt_ts = u, pt_value = JNum q\<rparr>]\<rparr>]) (prevSeriesKey 0) = [(t, JNum q)]"
  by (simp add: line_points_def pivotForRecharts_def all_times_def put_points_def put_previous_def set_cell_def
      seriesKey_def prevSeriesKey_def nat_str.simps)

section \<open>Texts and colours\<close>

lemma precision_kept: "\<not> nullish d \<Longrightarrow> io_fraction (numberPrecision n d) = d"
  by (simp add: numberPrecision_def plain_number_def)

text \<open>
  The width of the axis is between 40 and 140 pixels, 60 when no value is a number; it is enough for
  the texts of the extreme values when these have at most 18 characters.
\<close>
lemma axis_width_bounds:
  assumes "axisWidth fmt vs = Some w"
  shows "40 \<le> w \<and> w \<le> 140"
    and "JNum n \<in> set vs \<Longrightarrow> n = Max (set (finite_numbers vs)) \<or> n = Min (set (finite_numbers vs)) \<Longrightarrow>
      fmt (JNum n) = Some s \<Longrightarrow> length s \<le> 18 \<Longrightarrow> 7 * length s + 14 \<le> w"
proof -
  show "40 \<le> w \<and> w \<le> 140" using assms by (auto simp: axisWidth_def Let_def split: if_splits)
next
  assume n: "JNum n \<in> set vs" "n = Max (set (finite_numbers vs)) \<or> n = Min (set (finite_numbers vs))"
    and s: "fmt (JNum n) = Some s" "length s \<le> 18"
  have "n \<in> set (finite_numbers vs)" using n(1) by (force simp: finite_numbers_def)
  then have ne: "finite_numbers vs \<noteq> []" by auto
  with assms obtain ts where ts: "those (map (\<lambda>v. fmt (JNum v)) [0, Max (set (finite_numbers vs)), Min (set (finite_numbers vs)),
      Max (set (finite_numbers vs)) / 3]) = Some ts"
    and w: "w = min 140 (max 40 (Max (set (map length ts)) * 7 + 14))"
    by (auto simp: axisWidth_def Let_def)
  from ts n(2) s(1) have "s \<in> set ts" by (auto split: option.splits)
  then have "length s \<le> Max (set (map length ts))" by (intro Max_ge) auto
  with s(2) show "7 * length s + 14 \<le> w" by (auto simp: w)
qed

text \<open>
  The colour of a threshold: among the thresholds the value has reached, the highest one, and the last of them when several
  have the same value, in whatever order they are listed.
\<close>
definition highest_reached :: "rat \<Rightarrow> (rat \<times> js) list \<Rightarrow> js" where
  "highest_reached v ts =
     (let r = filter (\<lambda>t. fst t \<le> v) ts
      in if r = [] then JNull else snd (last (filter (\<lambda>t. fst t = Max (fst ` set r)) r)))"

lemma foldl_last:
  "foldl (\<lambda>color t. if v \<ge> fst t then snd t else color) c ts =
     (let r = filter (\<lambda>t. fst t \<le> v) ts in if r = [] then c else snd (last r))"
  by (induction ts rule: rev_induct) (auto simp: Let_def)

lemma last_filter: "xs \<noteq> [] \<Longrightarrow> P (last xs) \<Longrightarrow> last (filter P xs) = last xs"
  by (induction xs rule: rev_induct) auto

lemma sort_key_Nil [simp]: "sort_key f xs = [] \<longleftrightarrow> xs = []"
  by (metis set_sort set_empty)

lemma last_of_sorted:
  assumes "r \<noteq> []"
  shows "last (sort_key fst r) = last (filter (\<lambda>t. fst t = Max (fst ` set r)) (r :: (rat \<times> js) list))"
proof -
  let ?m = "Max (fst ` set r)" and ?s = "sort_key fst r"
  have ne: "?s \<noteq> []" using assms by simp
  have "fst (last ?s) = ?m"
  proof (rule antisym)
    show "fst (last ?s) \<le> ?m" using last_in_set [OF ne] by (intro Max_ge) auto
    have "fst x \<le> fst (last ?s)" if "x \<in> set r" for x
    proof -
      from that have "x \<in> set ?s" by simp
      then obtain k where k: "k < length ?s" "?s ! k = x" by (metis in_set_conv_nth)
      with ne sorted_nth_mono [OF sorted_sort_key [of fst r], of k "length ?s - 1"] show ?thesis
        by (simp add: last_conv_nth)
    qed
    then show "?m \<le> fst (last ?s)" using assms by (intro Max.boundedI) auto
  qed
  then have "last ?s = last (filter (\<lambda>t. fst t = ?m) ?s)"
    by (intro last_filter [symmetric] ne)
  also have "filter (\<lambda>t. fst t = ?m) ?s = filter (\<lambda>t. fst t = ?m) r"
    by (rule sort_key_stable)
  finally show ?thesis .
qed

lemma threshold_is_highest_reached: "pickThresholdColor (Some v) ts = highest_reached v ts"
proof -
  have "filter (\<lambda>t. fst t \<le> v) (sort_key fst ts) = sort_key fst (filter (\<lambda>t. fst t \<le> v) ts)"
    by (simp add: filter_sort)
  then show ?thesis
    by (simp add: pickThresholdColor_def highest_reached_def foldl_last Let_def last_of_sorted)
qed

lemma nat_str_short: "n < 10 ^ f \<Longrightarrow> 0 < f \<Longrightarrow> length (nat_str n) \<le> f"
proof (induction f arbitrary: n)
  case (Suc f)
  show ?case
  proof (cases "n < 10")
    case False
    with Suc.prems have "n div 10 < 10 ^ f" and "0 < f" by (auto intro!: Nat.gr0I)
    with Suc.IH have "length (nat_str (n div 10)) \<le> f" by blast
    with False show ?thesis by (simp add: nat_str.simps [of n])
  qed (simp add: nat_str.simps [of n])
qed simp

text \<open>A number printed with \<open>f\<close> decimals has exactly \<open>f\<close> of them, and is at most half a unit of the last one away.\<close>

lemma fixed_has_decimals:
  assumes "0 < f"
  shows "\<exists>frac. toFixed n f = (if n < 0 then ''-'' else []) @ nat_str (fixed_digits n f div 10 ^ f) @ ''.'' @ frac \<and> length frac = f"
proof -
  have "length (nat_str (fixed_digits n f mod 10 ^ f)) \<le> f" using assms by (intro nat_str_short) auto
  then show ?thesis using assms by (simp add: toFixed_def Let_def)
qed

lemma fixed_is_near: "\<bar>of_nat (fixed_digits n f) / 10 ^ f - \<bar>n\<bar>\<bar> \<le> 1 / (2 * 10 ^ f)"
proof -
  let ?x = "\<bar>n\<bar> * 10 ^ f"
  have "0 \<le> ?x" by simp
  then have "of_nat (fixed_digits n f) = (of_int \<lfloor>?x + 1 / 2\<rfloor> :: rat)" by (simp add: fixed_digits_def)
  moreover have "of_int \<lfloor>?x + 1 / 2\<rfloor> \<le> ?x + 1 / 2" and "?x + 1 / 2 < of_int \<lfloor>?x + 1 / 2\<rfloor> + 1" by linarith+
  ultimately have "\<bar>of_nat (fixed_digits n f) - ?x\<bar> \<le> 1 / 2" by linarith
  then have "\<bar>of_nat (fixed_digits n f) - ?x\<bar> / 10 ^ f \<le> (1 / 2) / 10 ^ f" by (intro divide_right_mono) simp_all
  moreover have eq: "of_nat (fixed_digits n f) / 10 ^ f - \<bar>n\<bar> = (of_nat (fixed_digits n f) - ?x) / 10 ^ f"
    by (simp add: diff_divide_distrib)
  ultimately show ?thesis unfolding eq abs_divide by simp
qed

text \<open>
  A rate is not shown (its text throws) exactly when the decimals asked for are not between 0 and 100, and zero decimals count as none asked for.
\<close>
lemma rate_throws_iff:
  assumes "ch_number env = (\<lambda>v. case v of JNum n \<Rightarrow> Some n | _ \<Rightarrow> None)"
  shows "formatValue env (JStr ''rps'') (JNum q) u c (JNum n) = None \<longleftrightarrow> whole q < 0 \<or> 100 < whole q"
  using assms by (auto simp: formatValue_def nullish_def fixed_text_def js_or_def Let_def whole_def)

lemma zero_decimals_ignored: "formatValue env (JStr ''rps'') (JNum 0) u c v = formatValue env (JStr ''rps'') (JNum 2) u c v"
  by (cases "ch_number env v") (simp_all add: formatValue_def js_or_def)

text \<open>A currency that \<open>Intl\<close> does not know never breaks a widget whose decimals it accepts.\<close>

lemma unknown_currency_shown:
  assumes "\<And>m. ch_intl env (plain_number\<lparr>io_fraction := or_else d 2\<rparr>) m \<noteq> None"
  shows "formatCurrency env v d c \<noteq> None"
  using assms by (auto simp: formatCurrency_def Let_def split: option.splits)

lemma bytes_unit_kept:
  assumes "k < 1024" and "1 \<le> k"
  shows "formatBytes (k * 1024) = toFixed k 1 @ '' KB''" "formatBytes (k * 1024 * 1024) = toFixed k 1 @ '' MB''"
    "formatBytes (k * 1024 * 1024 * 1024) = toFixed k 1 @ '' GB''"
proof -
  have "\<not> k * 1024 < 1024" "\<not> k * 1024 * 1024 < 1024 * 1024" "\<not> k * 1024 * 1024 * 1024 < 1024 * 1024 * 1024"
    "k * 1024 < 1024 * 1024" "k * 1024 * 1024 < 1024 * 1024 * 1024" "\<not> k * 1024 * 1024 < 1024" "\<not> k * 1024 * 1024 * 1024 < 1024"
    "\<not> k * 1024 * 1024 * 1024 < 1024 * 1024"
    using assms by simp_all
  then show "formatBytes (k * 1024) = toFixed k 1 @ '' KB''" "formatBytes (k * 1024 * 1024) = toFixed k 1 @ '' MB''"
    "formatBytes (k * 1024 * 1024 * 1024) = toFixed k 1 @ '' GB''"
    by (simp_all add: formatBytes_def)
qed

section \<open>The heat map\<close>

lemma heat_max_is_Max: "heat_max values = Max (set (0 # concat values))"
proof -
  have step: "(\<lambda>v m. if v > m then v else m) = (max :: rat \<Rightarrow> rat \<Rightarrow> rat)" by (intro ext) (auto simp: max_def)
  have "fold (\<lambda>row m. fold max row m) values m = fold max (concat values) m" for m :: rat
    by (induction "values" arbitrary: m) auto
  then show ?thesis by (simp only: heat_max_def step Max.set_eq_fold)
qed

text \<open>
  The colour of a cell is full for the highest value and never more; it is between 0 and 1 when the
  value is not negative. A negative value has a negative intensity, which is not a colour.
\<close>
lemma intensity_bounds: "intensity values y x \<le> 1" "0 \<le> heat_value values y x \<Longrightarrow> 0 \<le> intensity values y x"
  "heat_value values y x < 0 \<Longrightarrow> heat_max values > 0 \<Longrightarrow> intensity values y x < 0"
proof -
  have "heat_value values y x \<le> heat_max values"
    unfolding heat_max_is_Max by (intro Max_ge) (auto simp: heat_value_def intro!: bexI [of _ "values ! y"])
  then show "intensity values y x \<le> 1" by (auto simp: intensity_def)
qed (auto simp: intensity_def divide_neg_pos)

lemma at_most_eight_labels: "length (labelled_columns cols) \<le> 8" "0 < cols \<Longrightarrow> labelled_columns cols \<noteq> []"
proof -
  define k where "k = nat \<lceil>of_nat cols / (8 :: rat)\<rceil>"
  have k: "cols \<le> 8 * k"
  proof -
    have "of_nat cols / (8 :: rat) \<le> of_nat k" by (simp add: k_def)
    then have "of_nat cols \<le> (of_nat (8 * k) :: rat)" by simp
    then show ?thesis by (simp only: of_nat_le_iff)
  qed
  have "set (labelled_columns cols) \<subseteq> (\<lambda>q. q * k) ` {..<8}"
  proof
    fix i assume "i \<in> set (labelled_columns cols)"
    then have i: "i < cols" "i mod k = 0" by (auto simp: labelled_columns_def k_def)
    then obtain q where "i = q * k" by (metis mod_eq_0_iff_dvd dvdE mult.commute)
    with i k have "q * k < 8 * k" by linarith
    then have "q < 8" by (metis mult_less_cancel2)
    with \<open>i = q * k\<close> show "i \<in> (\<lambda>q. q * k) ` {..<8}" by blast
  qed
  then have "card (set (labelled_columns cols)) \<le> card ((\<lambda>q. q * k) ` {..<(8 :: nat)})" by (intro card_mono) auto
  also have "\<dots> \<le> card {..<(8 :: nat)}" by (rule card_image_le) simp
  finally have "card (set (labelled_columns cols)) \<le> 8" by simp
  moreover have "distinct (labelled_columns cols)" by (simp add: labelled_columns_def)
  ultimately show "length (labelled_columns cols) \<le> 8" by (metis distinct_card)
  assume "0 < cols"
  then show "labelled_columns cols \<noteq> []" by (auto simp: labelled_columns_def filter_empty_conv intro!: bexI [of _ 0])
qed

text \<open>A column is aligned on the right only when its cells are numbers or empty, or when it is the column of the values.\<close>

lemma right_aligned_numbers:
  "c \<in> set (numeric_cols items) \<Longrightarrow> row \<in> set items \<Longrightarrow>
   c = ''value'' \<or> formatCell env (jprop row c) = Some ''-'' \<or>
   (\<exists>n. jprop row c = JNum n \<and> formatCell env (jprop row c) = ch_intl env (plain_number\<lparr>io_fraction := JNum 6\<rparr>) n)"
  by (fastforce simp: numeric_cols_def formatCell_def nullish_def split: js.splits)

text \<open>The columns are those of the first item: what only a later item has is not shown.\<close>

lemma columns_of_first_item: "table_cols (row # items) = table_cols (row # items')"
  by (simp add: table_cols_def)

end
