(* ===== verification/Green_Score.thy ===== *)
theory Green_Score
  imports Analytics_Charts Route_Designer_Facts
begin

text \<open>
  The green score of the routes (\<open>extensions/greenscore\<close>): the grades (\<open>util.js\<close>), the figures of the page (\<open>page.js\<close>),
  the table of the groups (\<open>CustomTable.js\<close>), the efficiency of a route and its pages
  (\<open>EfficiencyChart.js\<close>, \<open>EfficiencyScore.js\<close>).

  \<^item> A mean over nothing is \<open>NaN\<close>, \<open>None\<close> here: no comparison holds of it.
  \<^item> A letter is its UTF-16 code unit, as \<open>String.fromCharCode\<close> takes it: 65 is A, and 64, the at sign, is the letter of no grade.
  \<^item> A date is a number of milliseconds, of as many digits as the others, so that the order of their texts is theirs.
  \<^item> The identifiers of sections and groups are not array indexes, so that objects list them in the order they were added.
\<close>

section \<open>Grades\<close>

definition MAX_GREEN_SCORE_NOTE :: rat where
  "MAX_GREEN_SCORE_NOTE = 6000"

definition GREEN_SCORE_GRADES :: "(string \<times> (rat \<Rightarrow> bool)) list" where
  "GREEN_SCORE_GRADES =
    [(''#2ecc71'', \<lambda>rank. rank \<ge> MAX_GREEN_SCORE_NOTE),
     (''#27ae60'', \<lambda>rank. rank < MAX_GREEN_SCORE_NOTE \<and> rank \<ge> 3000),
     (''#f1c40f'', \<lambda>rank. rank < 3000 \<and> rank \<ge> 2000),
     (''#d35400'', \<lambda>rank. rank < 2000 \<and> rank \<ge> 1000),
     (''#c0392b'', \<lambda>rank. rank < 1000)]"

definition grade_index :: "rat option \<Rightarrow> nat option" where
  "grade_index score = (case score of None \<Rightarrow> None | Some r \<Rightarrow> find_index (\<lambda>g. snd g r) GREEN_SCORE_GRADES)"

definition grade_colour :: "int \<Rightarrow> string option" where
  "grade_colour i = (if 0 \<le> i \<and> i < 5 then Some (fst (GREEN_SCORE_GRADES ! nat i)) else None)"

definition getColorFromLetter :: "nat \<Rightarrow> string option" where
  "getColorFromLetter letter = grade_colour (int letter - 65)"

definition getLetter :: "rat option \<Rightarrow> nat" where
  "getLetter score = (case grade_index score of None \<Rightarrow> 64 | Some i \<Rightarrow> 65 + i)"

definition getColor :: "rat option \<Rightarrow> string" where
  "getColor score = (case grade_index score of None \<Rightarrow> ''Not evaluated'' | Some i \<Rightarrow> fst (GREEN_SCORE_GRADES ! i))"

definition fromCharCode :: "rat \<Rightarrow> nat" where
  "fromCharCode q = nat (whole q mod 65536)"

section \<open>The page\<close>

record green_rule =
  ru_id :: string
  ru_section :: string

record section_score =
  ss_section :: string
  ss_score :: rat

record route_score =
  rs_id :: string
  rs_group :: string
  rs_sections :: "section_score list"

record day_score =
  dy_date :: rat
  dy_routes :: "route_score list"

record dynamic =
  dv_overhead :: rat
  dv_duration :: rat
  dv_backendDuration :: rat
  dv_calls :: rat
  dv_dataIn :: rat
  dv_dataOut :: rat
  dv_headersOut :: rat
  dv_headersIn :: rat

record green_group =
  gg_id :: string
  gg_name :: string
  gg_description :: string
  gg_poor :: dynamic
  gg_routes :: "string list"

record route_dynamic =
  rd_id :: string
  rd_group :: string
  rd_scaling :: dynamic

definition group_by :: "('a \<Rightarrow> string) \<Rightarrow> 'a list \<Rightarrow> (string \<times> 'a list) list" where
  "group_by key xs =
     foldl (\<lambda>acc x. case map_of acc (key x) of
         Some ys \<Rightarrow> AList.update (key x) (ys @ [x]) acc
       | None \<Rightarrow> AList.update (key x) [x] acc) [] xs"

definition rulesTemplateToRulesBySection :: "green_rule list \<Rightarrow> (string \<times> green_rule list) list" where
  "rulesTemplateToRulesBySection = group_by ru_section"

definition groupRoutesByGroupId :: "route_score list \<Rightarrow> (string \<times> route_score list) list" where
  "groupRoutesByGroupId = group_by rs_group"

definition getDynamicScore :: "dynamic \<Rightarrow> rat" where
  "getDynamicScore d =
     foldl (+) 0 [dv_backendDuration d, dv_calls d, dv_dataIn d, dv_dataOut d, dv_headersIn d, dv_headersOut d, dv_overhead d,
       dv_duration d] / 8"

definition no_dynamic :: dynamic where
  "no_dynamic = \<lparr>dv_overhead = 0, dv_duration = 0, dv_backendDuration = 0, dv_calls = 0, dv_dataIn = 0, dv_dataOut = 0,
     dv_headersOut = 0, dv_headersIn = 0\<rparr>"

definition add_dynamic :: "dynamic \<Rightarrow> dynamic \<Rightarrow> dynamic" where
  "add_dynamic a d =
     \<lparr>dv_overhead = dv_overhead a + dv_overhead d, dv_duration = dv_duration a + dv_duration d,
      dv_backendDuration = dv_backendDuration a + dv_backendDuration d, dv_calls = dv_calls a + dv_calls d,
      dv_dataIn = dv_dataIn a + dv_dataIn d, dv_dataOut = dv_dataOut a + dv_dataOut d,
      dv_headersOut = dv_headersOut a + dv_headersOut d, dv_headersIn = dv_headersIn a + dv_headersIn d\<rparr>"

text \<open>The sums are those of a list of the given length: over an empty one each mean is \<open>NaN\<close>.\<close>

definition meanThresholds :: "dynamic \<Rightarrow> nat \<Rightarrow> dynamic option" where
  "meanThresholds a n =
     (if n = 0 then None
      else let q = of_nat n in Some
       \<lparr>dv_overhead = dv_overhead a / q, dv_duration = dv_duration a / q, dv_backendDuration = dv_backendDuration a / q,
        dv_calls = dv_calls a / q, dv_dataIn = dv_dataIn a / q, dv_dataOut = dv_dataOut a / q,
        dv_headersOut = dv_headersOut a / q, dv_headersIn = dv_headersIn a / q\<rparr>)"

definition getThresholds :: "day_score list \<Rightarrow> green_group list \<Rightarrow> dynamic option" where
  "getThresholds scores groups =
     (if scores \<noteq> [] then meanThresholds (foldl (\<lambda>acc g. add_dynamic acc (gg_poor g)) no_dynamic groups) (length groups)
      else Some no_dynamic)"

definition scaling :: "rat \<Rightarrow> rat \<Rightarrow> rat" where
  "scaling v high = (if v < high then v / high else high)"

text \<open>The counters: for each name, whether its value is excellent and whether it is sufficient.\<close>

definition getCounters :: "(string \<times> bool \<times> bool) list \<Rightarrow> string list \<times> string list \<times> string list" where
  "getCounters cs = foldl (\<lambda>(e, s, p) (name, excellent, sufficient).
     if excellent then (e @ [name], s, p) else if sufficient then (e, s @ [name], p) else (e, s, p @ [name])) ([], [], []) cs"

definition getCountersLength :: "string list \<times> string list \<times> string list \<Rightarrow> nat" where
  "getCountersLength c = (case c of (e, s, p) \<Rightarrow> length e + length s + length p)"

definition availableDates :: "day_score list \<Rightarrow> rat list" where
  "availableDates scores = rev (remdups (rev (map dy_date scores)))"

definition latest_date :: "day_score list \<Rightarrow> rat option" where
  "latest_date scores = (case rev (sort (availableDates scores)) of [] \<Rightarrow> None | d # _ \<Rightarrow> Some d)"

definition closestDate :: "day_score list \<Rightarrow> rat \<Rightarrow> rat option" where
  "closestDate scores date =
     (let ds = availableDates scores in
      if ds = [] then None
      else Some (foldl (\<lambda>prev curr. if \<bar>curr - date\<bar> < \<bar>prev - date\<bar> then curr else prev) (last ds) ds))"

definition valuesAtDate :: "day_score list \<Rightarrow> rat \<Rightarrow> section_score list" where
  "valuesAtDate scores date =
     (case closestDate scores date of None \<Rightarrow> []
      | Some d \<Rightarrow> concat (map rs_sections (concat (map dy_routes (filter (\<lambda>s. dy_date s = d) scores)))))"

definition sum_scores :: "section_score list \<Rightarrow> rat" where
  "sum_scores vs = foldl (\<lambda>acc v. ss_score v + acc) 0 vs"

definition static_score :: "section_score list \<Rightarrow> rat option" where
  "static_score vs = (if vs = [] then None else Some (sum_scores vs / (of_nat (length vs) / 4)))"

definition net_over :: "section_score list \<Rightarrow> rat" where
  "net_over vs = MAX_GREEN_SCORE_NOTE * (of_nat (length vs) / 4)"

definition dynamic_letter :: "rat \<Rightarrow> nat" where
  "dynamic_letter s = fromCharCode (65 + (1 - s) * 5)"

definition dynamic_colour :: "rat \<Rightarrow> string option" where
  "dynamic_colour s = grade_colour (js_round ((1 - s) * 5))"

text \<open>The leaf of a dynamic value, for a threshold that is not zero.\<close>

definition value_colour :: "rat \<Rightarrow> rat \<Rightarrow> string option" where
  "value_colour v high =
     (let s = \<bar>scaling v high / high * 5\<bar> - 1 in grade_colour (js_round (if s < 0 then 0 else s)))"

subsection \<open>Its filters\<close>

datatype mode = Static | Dynamic | All

text \<open>\<open>undefined\<close>, when neither is chosen, is \<open>None\<close>.\<close>

definition addToState :: "mode \<Rightarrow> mode option \<Rightarrow> mode option" where
  "addToState v state =
     (if state = Some v then None
      else if state = Some All then Some (if v = Static then Dynamic else Static)
      else let chosen = (case state of None \<Rightarrow> [v] | Some m \<Rightarrow> [m, v])
           in if Dynamic \<in> set chosen \<and> Static \<in> set chosen then Some All else Some v)"

definition ModeWrapper :: "mode option \<Rightarrow> mode \<Rightarrow> bool" where
  "ModeWrapper mode' v \<longleftrightarrow> Some v = mode' \<or> mode' = Some All"

definition enabledFilters :: "mode option \<Rightarrow> rat option \<Rightarrow> nat \<Rightarrow> nat" where
  "enabledFilters m date groups =
     (if m \<noteq> Some All then 1 else 0) + (if date \<noteq> None \<and> date \<noteq> Some 0 then 1 else 0) + (if groups > 0 then 1 else 0)"

text \<open>The calendar: a month is (month, year), of the dates in the order they have.\<close>

definition months_of :: "(nat \<times> int) list \<Rightarrow> (nat \<times> int) list" where
  "months_of ds = rev (remdups (rev ds))"

definition start_month :: "(nat \<times> int) list \<Rightarrow> nat \<Rightarrow> int" where
  "start_month months m = (case find_index (\<lambda>x. fst x = m) months of None \<Rightarrow> -1 | Some i \<Rightarrow> int i)"

datatype calendar_move = GoToStart | GoToEnd | Previous | Next

definition move_month :: "(nat \<times> int) list \<Rightarrow> int \<Rightarrow> calendar_move \<Rightarrow> int" where
  "move_month months i m =
     (case m of
        GoToStart \<Rightarrow> 0
      | GoToEnd \<Rightarrow> int (length months) - 1
      | Previous \<Rightarrow> (if i - 1 < 0 then 0 else i - 1)
      | Next \<Rightarrow> (if i + 1 > int (length months) - 1 then int (length months) - 1 else i + 1))"

section \<open>The table of the groups\<close>

record group_score =
  gs_id :: "string option"
  gs_score :: rat
  gs_dynamic :: "rat option"

definition route_scores :: "route_score list \<Rightarrow> rat" where
  "route_scores rs = sum_scores (concat (map rs_sections rs)) / of_nat (length rs)"

text \<open>The scores handed to the table: one for each group that has routes in the last scores.\<close>

definition table_scores :: "day_score list \<Rightarrow> route_dynamic list \<Rightarrow> green_group list \<Rightarrow> group_score list" where
  "table_scores scores dyns groups =
     (let entries' = (case sort_key (\<lambda>d. - dy_date d) scores of [] \<Rightarrow> [] | d # _ \<Rightarrow> groupRoutesByGroupId (dy_routes d))
      in map (\<lambda>(g, rs).
           let ds = filter (\<lambda>f. rd_group f = g) dyns
           in \<lparr>gs_id = map_option gg_id (List.find (\<lambda>x. gg_id x = g) groups), gs_score = route_scores rs,
               gs_dynamic = map_option getDynamicScore
                 (meanThresholds (foldl (\<lambda>acc d. add_dynamic acc (rd_scaling d)) no_dynamic ds) (length ds))\<rparr>) entries')"

record green_row =
  gr_id :: string
  gr_name :: string
  gr_description :: string
  gr_opened :: bool
  gr_actions :: bool
  gr_notation :: nat
  gr_color :: string
  gr_net :: rat
  gr_data :: "nat option"
  gr_dynamicLetter :: "string option"
  gr_dynamic :: "string option"

text \<open>A dynamic value that is \<open>NaN\<close> has no letter, no colour and no percentage (\<open>None\<close>).\<close>

definition formatGroup :: "group_score list \<Rightarrow> green_group \<Rightarrow> nat \<Rightarrow> green_row" where
  "formatGroup scores g i =
     (let e = (if i < length scores then scores ! i else \<lparr>gs_id = None, gs_score = 0, gs_dynamic = Some 0\<rparr>)
      in \<lparr>gr_id = gg_id g, gr_name = firstLetterUppercase (gg_name g), gr_description = firstLetterUppercase (gg_description g),
          gr_opened = False, gr_actions = False, gr_notation = getLetter (Some (gs_score e)), gr_color = getColor (Some (gs_score e)),
          gr_net = gs_score e,
          gr_data = map_option (\<lambda>s. fromCharCode (65 + of_int \<lfloor>(1 - s) * 5\<rfloor>)) (gs_dynamic e),
          gr_dynamicLetter = Option.bind (gs_dynamic e) (\<lambda>s. grade_colour \<lfloor>(1 - s) * 5\<rfloor>),
          gr_dynamic = map_option (\<lambda>s. toFixed (s * 100) 2) (gs_dynamic e)\<rparr>)"

definition formatGroups :: "group_score list \<Rightarrow> green_group list \<Rightarrow> green_row list" where
  "formatGroups scores gs = map (\<lambda>(i, g). formatGroup scores g i) (enumerate 0 gs)"

record green_table =
  gt_columns :: "(string \<times> bool) list"
  gt_items :: "green_row list"

definition mount_table :: "group_score list \<Rightarrow> green_group list \<Rightarrow> green_table" where
  "mount_table scores gs = \<lparr>gt_columns = [], gt_items = formatGroups scores gs\<rparr>"

definition green_updated :: "green_group list \<Rightarrow> group_score list \<Rightarrow> green_group list \<Rightarrow> green_table \<Rightarrow> green_table" where
  "green_updated prev scores gs t =
     (if prev = [] \<and> gs \<noteq> [] then t\<lparr>gt_items := formatGroups scores gs\<rparr> else t)"

definition openScore :: "string \<Rightarrow> green_table \<Rightarrow> green_table" where
  "openScore i t = t\<lparr>gt_items := map (\<lambda>g. if gr_id g = i then g\<lparr>gr_opened := \<not> gr_opened g\<rparr> else g) (gt_items t)\<rparr>"

definition openActions :: "nat \<Rightarrow> green_table \<Rightarrow> green_table" where
  "openActions i t = t\<lparr>gt_items := map (\<lambda>(j, g). g\<lparr>gr_actions := (if j = i then \<not> gr_actions g else False)\<rparr>)
     (enumerate 0 (gt_items t))\<rparr>"

text \<open>
  A click on a heading. \<open>key column\<close> orders the rows by a column (the texts by \<open>localeCompare\<close>, the scores by
  their value); the direction is the one kept before the click.
\<close>

definition sort_table :: "(string \<Rightarrow> green_row \<Rightarrow> rat) \<Rightarrow> string \<Rightarrow> green_table \<Rightarrow> green_table" where
  "sort_table key column t =
     (let old = map_of (gt_columns t) column
      in t\<lparr>gt_columns := AList.update column (case old of None \<Rightarrow> False | Some b \<Rightarrow> \<not> b) (gt_columns t),
           gt_items := sort_key (\<lambda>g. if old = Some True then key column g else - key column g) (gt_items t)\<rparr>)"

section \<open>The efficiency of a route\<close>

record hour =
  hr_date :: rat
  hr_hits :: rat
  hr_avg :: rat

datatype health = Nul | Low | Medium_low | Medium_high | High

definition health_of :: "rat \<Rightarrow> rat \<Rightarrow> health" where
  "health_of high hits =
     (if hits = 0 then Nul else if hits \<le> high * 5 / 100 then Low else if hits \<le> high * 50 / 100 then Medium_low
      else if hits \<le> high * 95 / 100 then Medium_high else High)"

definition max_hits :: "hour list \<Rightarrow> rat" where
  "max_hits d = Max (set (1 # map hr_hits d))"

fun roundedValue :: "nat \<Rightarrow> rat \<Rightarrow> rat \<Rightarrow> rat res" where
  "roundedValue 0 v fl = Inl StackOverflow"
| "roundedValue (Suc n) v fl =
     (if v = 0 then Inr 1 else if v < fl then roundedValue n v (fl / 10) else Inr (of_int \<lfloor>v / fl\<rfloor> * fl))"

record hit_range =
  hg_start :: rat
  hg_end :: rat
  hg_frequency :: nat

definition empty_ranges :: "rat \<Rightarrow> rat \<Rightarrow> hit_range list" where
  "empty_ranges high step = map (\<lambda>i. \<lparr>hg_start = of_nat i * step, hg_end = of_nat i * step + (step - 1), hg_frequency = 0\<rparr>)
     [0..<nat \<lceil>high / step\<rceil>]"

definition count_hit :: "hit_range list \<Rightarrow> hour \<Rightarrow> hit_range list" where
  "count_hit rs h =
     (case find_index (\<lambda>r. hr_hits h \<ge> hg_start r \<and> hr_hits h \<le> hg_end r) rs of
        Some k \<Rightarrow> rs[k := (rs ! k)\<lparr>hg_frequency := hg_frequency (rs ! k) + 1\<rparr>]
      | None \<Rightarrow> rs)"

definition hit_ranges :: "rat \<Rightarrow> hour list \<Rightarrow> hit_range list res" where
  "hit_ranges high d = rbind (roundedValue 6 (high / 10) 10000) (\<lambda>step. Inr (foldl count_hit (empty_ranges high step) d))"

text \<open>The row and the column of an hour of the week.\<close>

definition week_row :: "nat \<Rightarrow> nat" where
  "week_row idx = nat \<lceil>of_nat (idx + 1) / (24 :: rat)\<rceil>"

definition week_col :: "nat \<Rightarrow> int" where
  "week_col idx = int idx + 1 - 24 * (int (week_row idx) - 1)"

definition unused_time :: "hour \<Rightarrow> int" where
  "unused_time h = 60 * 60 * 1000 - js_round (hr_avg h * hr_hits h)"

record efficiency =
  ef_page :: int
  ef_filtered :: "string list"
  ef_group :: "string option"
  ef_total :: nat

definition shown_routes :: "green_group list \<Rightarrow> string list \<Rightarrow> string \<Rightarrow> string list res" where
  "shown_routes groups filtered g =
     (case List.find (\<lambda>x. gg_id x = g) groups of
        None \<Rightarrow> Inl TypeError
      | Some x \<Rightarrow> Inr (filter (\<lambda>r. r \<in> set filtered) (gg_routes x)))"

definition open_efficiency :: "string list \<Rightarrow> efficiency" where
  "open_efficiency routes = \<lparr>ef_page = 0, ef_filtered = routes, ef_group = None, ef_total = 0\<rparr>"

definition select_group :: "green_group list \<Rightarrow> string \<Rightarrow> efficiency \<Rightarrow> efficiency res" where
  "select_group groups g s = rbind (shown_routes groups (ef_filtered s) g) (\<lambda>rs.
     Inr (s\<lparr>ef_group := Some g, ef_total := (if ef_group s = Some g then ef_total s else nat \<lceil>of_nat (length rs) / (5 :: rat)\<rceil>)\<rparr>))"

text \<open>The filter, once its delay has passed: the routes (name, identifier) whose name has the text.\<close>

definition filter_routes :: "(string \<times> string) list \<Rightarrow> string \<Rightarrow> efficiency \<Rightarrow> efficiency" where
  "filter_routes routes text s =
     s\<lparr>ef_filtered := map snd (if text = [] then routes else filter (\<lambda>r. includes_str (fst r) text) routes)\<rparr>"

definition turn_page :: "int \<Rightarrow> efficiency \<Rightarrow> efficiency" where
  "turn_page k s =
     (if (k = -1 \<and> ef_page s = 0) \<or> (k = 1 \<and> ef_page s + 1 = int (ef_total s)) then s else s\<lparr>ef_page := ef_page s + k\<rparr>)"

definition js_slice :: "int \<Rightarrow> int \<Rightarrow> 'a list \<Rightarrow> 'a list" where
  "js_slice a b xs =
     (let n = int (length xs); from' = (if a < 0 then max 0 (n + a) else min a n); to = (if b < 0 then max 0 (n + b) else min b n)
      in take (nat (to - from')) (drop (nat from') xs))"

definition page_routes :: "green_group list \<Rightarrow> efficiency \<Rightarrow> string list res" where
  "page_routes groups s =
     (case ef_group s of None \<Rightarrow> Inr []
      | Some g \<Rightarrow> rbind (shown_routes groups (ef_filtered s) g) (\<lambda>rs. Inr (js_slice (ef_page s * 5) ((ef_page s + 1) * 5) rs)))"

section \<open>Facts about the grades\<close>

lemma grade_index_cases:
  "grade_index (Some r) = Some (if r \<ge> 6000 then 0 else if r \<ge> 3000 then 1 else if r \<ge> 2000 then 2 else if r \<ge> 1000 then 3 else 4)"
  by (simp add: grade_index_def GREEN_SCORE_GRADES_def MAX_GREEN_SCORE_NOTE_def)

text \<open>Every score has exactly one grade, from A to E, and a higher score never has a worse letter.\<close>

lemma one_grade: "\<exists>!i. i < length GREEN_SCORE_GRADES \<and> snd (GREEN_SCORE_GRADES ! i) r"
proof -
  have five: "i < length GREEN_SCORE_GRADES \<longleftrightarrow> i = 0 \<or> i = 1 \<or> i = 2 \<or> i = 3 \<or> i = 4" for i
    by (auto simp: GREEN_SCORE_GRADES_def)
  show ?thesis unfolding five
    by (rule ex1I [of _ "the (grade_index (Some r))"])
      (auto simp: grade_index_cases GREEN_SCORE_GRADES_def MAX_GREEN_SCORE_NOTE_def numeral_eq_Suc)
qed

lemma letter_antitone: "r \<le> s \<Longrightarrow> getLetter (Some s) \<le> getLetter (Some r) \<and> getLetter (Some r) \<le> 69"
  by (auto simp: getLetter_def grade_index_cases)

lemma colour_of_letter: "getColorFromLetter (getLetter (Some r)) = Some (getColor (Some r))"
  by (auto simp: getColorFromLetter_def getLetter_def getColor_def grade_colour_def grade_index_cases)

text \<open>
  A dynamic score of 0 has the letter F, which has no colour; between two grades the letter and the colour disagree.
\<close>
lemma dynamic_zero: "dynamic_letter 0 = 70" "dynamic_colour 0 = None"
  by (simp_all add: dynamic_letter_def fromCharCode_def whole_def dynamic_colour_def grade_colour_def js_round_def)

lemma dynamic_disagrees: "getColorFromLetter (dynamic_letter (88 / 100)) \<noteq> dynamic_colour (88 / 100)"
proof -
  have "\<lfloor>11 / 10 :: rat\<rfloor> = 1" by (simp add: floor_eq_iff)
  then show ?thesis by (simp add: dynamic_letter_def fromCharCode_def whole_def dynamic_colour_def grade_colour_def js_round_def
      getColorFromLetter_def GREEN_SCORE_GRADES_def)
qed

text \<open>Under its threshold a value has the colour of the first grade whatever it is, as soon as the threshold is 4 or more.\<close>

lemma under_threshold_first_colour:
  assumes "0 \<le> v" and "v < high" and "4 \<le> high"
  shows "value_colour v high = Some ''#2ecc71''"
proof -
  have "v / high < 1" using assms by simp
  moreover have "5 / high \<le> 5 / 4" using assms by (simp add: divide_simps)
  moreover have "0 \<le> v / high" using assms by simp
  ultimately have "(v / high) * (5 / high) \<le> 1 * (5 / 4)" using assms by (intro mult_mono) simp_all
  then have small: "v / high / high * 5 \<le> 5 / 4" by simp
  define s where "s = v / high / high * 5"
  have s: "0 \<le> s" "s \<le> 5 / 4" using assms small by (simp_all add: s_def)
  have "\<bar>scaling v high / high * 5\<bar> = s" using assms s(1) by (simp add: s_def scaling_def)
  then have "value_colour v high = grade_colour (js_round (if s - 1 < 0 then 0 else s - 1))"
    by (simp only: value_colour_def Let_def)
  moreover have "js_round (if s - 1 < 0 then 0 else s - 1) = 0" using s by (auto simp: js_round_def floor_eq_iff)
  ultimately show ?thesis by (simp add: grade_colour_def GREEN_SCORE_GRADES_def)
qed

section \<open>Groups of a list\<close>

definition group_of :: "('a \<Rightarrow> string) \<Rightarrow> 'a list \<Rightarrow> string \<Rightarrow> 'a list option" where
  "group_of key xs k = (let ys = filter (\<lambda>x. key x = k) xs in if ys = [] then None else Some ys)"

lemma group_by_snoc: "group_by key (xs @ [x]) =
   (case map_of (group_by key xs) (key x) of Some ys \<Rightarrow> AList.update (key x) (ys @ [x]) (group_by key xs)
    | None \<Rightarrow> AList.update (key x) [x] (group_by key xs))"
  by (simp add: group_by_def split: option.splits)

text \<open>A group has the elements of its key, in their order; the keys are those that occur, in the order they first do.\<close>

lemma group_by_groups: "map_of (group_by key xs) = group_of key xs"
proof (induction xs rule: rev_induct)
  case Nil
  show ?case by (rule ext) (simp add: group_by_def group_of_def)
next
  case (snoc x xs)
  then show ?case
    by (intro ext) (auto simp: group_by_snoc update_conv' group_of_def Let_def split: option.splits)
qed

lemma keys_update: "map fst (AList.update k v al) = (if k \<in> fst ` set al then map fst al else map fst al @ [k])"
  by (simp add: update_keys)

lemma group_by_keys: "map fst (group_by key xs) = rev (remdups (rev (map key xs)))"
proof (induction xs rule: rev_induct)
  case Nil
  show ?case by (simp add: group_by_def)
next
  case (snoc x xs)
  have "set (map fst (group_by key xs)) = key ` set xs" by (simp add: snoc.IH)
  then have ks: "fst ` set (group_by key xs) = key ` set xs" by simp
  have "map fst (group_by key (xs @ [x])) = (if key x \<in> key ` set xs then map fst (group_by key xs) else map fst (group_by key xs) @ [key x])"
    by (simp add: group_by_snoc keys_update ks split: option.splits)
  then show ?case by (simp add: snoc.IH)
qed

lemma group_by_nth: "i < length (group_by key xs) \<Longrightarrow> group_by key xs ! i = (k, ys) \<Longrightarrow> ys = filter (\<lambda>x. key x = k) xs"
proof -
  assume i: "i < length (group_by key xs)" "group_by key xs ! i = (k, ys)"
  have "distinct (map fst (group_by key xs))" by (simp add: group_by_keys)
  moreover have "(k, ys) \<in> set (group_by key xs)" using i by (metis nth_mem)
  ultimately have "group_of key xs k = Some ys" by (simp add: group_by_groups [symmetric])
  then show ?thesis by (auto simp: group_of_def Let_def split: if_splits)
qed

section \<open>The counters, the filters and the calendar\<close>

text \<open>Each counter is in exactly one of the three lists.\<close>

lemma counters_counted: "getCountersLength (getCounters cs) = length cs"
  by (induction cs rule: rev_induct) (auto simp: getCounters_def getCountersLength_def split: prod.splits)

text \<open>The two buttons of the filter are two independent switches.\<close>

definition chosen :: "mode option \<Rightarrow> bool \<times> bool" where
  "chosen m = (m = Some Static \<or> m = Some All, m = Some Dynamic \<or> m = Some All)"

lemma filter_is_two_switches:
  "chosen (addToState Static m) = (\<not> fst (chosen m), snd (chosen m))"
  "chosen (addToState Dynamic m) = (fst (chosen m), \<not> snd (chosen m))"
  by (cases m; cases "the m"; simp add: addToState_def chosen_def Let_def)+

lemma shown_sections: "ModeWrapper m Static = fst (chosen m)" "ModeWrapper m Dynamic = snd (chosen m)"
  by (auto simp: ModeWrapper_def chosen_def)

text \<open>The month shown stays one of the months, when it was one; the first one shown may be that of another year.\<close>

lemma month_in_range:
  "0 \<le> i \<Longrightarrow> i < int (length ms) \<Longrightarrow> 0 \<le> move_month ms i m \<and> move_month ms i m < int (length ms)"
  by (cases m) (auto simp: move_month_def)

lemma month_of_another_year: "start_month [(7, 2023), (7, 2024)] 7 = 0"
  by (simp add: start_month_def)

section \<open>The table\<close>

text \<open>At most one menu is open, whatever is clicked.\<close>

definition open_menus :: "green_table \<Rightarrow> nat" where
  "open_menus t = length (filter gr_actions (gt_items t))"

lemma one_menu_open: "open_menus (openActions i t) \<le> 1"
proof -
  let ?items = "map (\<lambda>(j, g). g\<lparr>gr_actions := (if j = i then \<not> gr_actions g else False)\<rparr>) (enumerate 0 (gt_items t))"
  have "open_menus (openActions i t) = card {j. j < length ?items \<and> gr_actions (?items ! j)}"
    by (simp add: open_menus_def openActions_def length_filter_conv_card cong: conj_cong)
  also have "\<dots> \<le> card {i}"
    by (intro card_mono) (auto simp: nth_enumerate_eq split: if_splits)
  finally show ?thesis by simp
qed

text \<open>Sorting keeps the rows, and orders them by the column.\<close>

lemma sorted_table_rows: "mset (gt_items (sort_table key c t)) = mset (gt_items t)"
  by (simp add: sort_table_def Let_def)

text \<open>The second click on a heading orders the rows as the first one did: the direction changes at the third.\<close>

lemma second_click_same:
  assumes "map_of (gt_columns t) c = None"
  shows "gt_items (sort_table key c (sort_table key c t)) = gt_items (sort_table key c t)"
  using assms by (simp add: sort_table_def Let_def update_conv' sort_key_id_if_sorted)

text \<open>
  A row of the table shows the score at its position: it is its own when each group has routes in the last scores, in the order of the
  groups; it is that of another when a group before it has none.
\<close>
lemma row_shows_own_score:
  assumes "i < length gs" and "i < length scores" and "gs_id (scores ! i) = Some (gg_id (gs ! i))"
    and "\<forall>s \<in> set scores. \<forall>t \<in> set scores. gs_id s = gs_id t \<longrightarrow> s = t" and "s \<in> set scores" and "gs_id s = Some (gg_id (gs ! i))"
  shows "gr_net (formatGroups scores gs ! i) = gs_score s"
proof -
  have "scores ! i = s" using assms by (metis nth_mem)
  then show ?thesis using assms(1,2) by (simp add: formatGroups_def formatGroup_def nth_enumerate_eq)
qed

lemma row_shows_other_score:
  assumes "gg_id a \<noteq> gg_id b"
  shows "map gr_net (formatGroups (table_scores [\<lparr>dy_date = d, dy_routes = [\<lparr>rs_id = r, rs_group = gg_id b,
       rs_sections = [\<lparr>ss_section = x, ss_score = 700\<rparr>]\<rparr>]\<rparr>] dyns [a, b]) [a, b]) = [700, 0]"
  by (simp add: table_scores_def groupRoutesByGroupId_def group_by_def formatGroups_def formatGroup_def
      route_scores_def sum_scores_def Let_def)

section \<open>The hits of a route\<close>

text \<open>The search of a step ends: six calls are enough from 10000, as the value is at least a tenth.\<close>

lemma rounding_ends: "fl / 10 ^ n \<le> v \<Longrightarrow> ran (roundedValue (Suc n) v fl)"
proof (induction n arbitrary: fl)
  case (Suc n)
  have "ran (roundedValue (Suc n) v (fl / 10))" by (rule Suc.IH) (use Suc.prems in simp)
  then show ?case by (simp add: roundedValue.simps(2) [of "Suc n"] del: roundedValue.simps(2))
qed auto

lemma hit_ranges_run: "1 \<le> high \<Longrightarrow> ran (hit_ranges high d)"
  unfolding hit_ranges_def
  by (rule ran_bind) (use rounding_ends [of 10000 5 "high / 10"] in \<open>simp_all add: eval_nat_numeral\<close>)

lemma max_hits_positive: "1 \<le> max_hits d"
  by (simp add: max_hits_def)

lemma rounded_power:
  assumes "1 \<le> v"
  shows "\<exists>m > 0. roundedValue (Suc (n + k)) v (10 ^ n) = Inr (of_nat m)"
proof (induction n)
  case 0
  have "of_int \<lfloor>v\<rfloor> = (of_nat (nat \<lfloor>v\<rfloor>) :: rat)" "0 < nat \<lfloor>v\<rfloor>" using assms by simp_all
  moreover have "roundedValue (Suc (0 + k)) v (10 ^ 0) = Inr (of_int \<lfloor>v\<rfloor>)" using assms by simp
  ultimately show ?case by metis
next
  case (Suc n)
  show ?case
  proof (cases "v < 10 ^ Suc n")
    case True
    then have "roundedValue (Suc (Suc n + k)) v (10 ^ Suc n) = roundedValue (Suc (n + k)) v (10 ^ n)"
      using assms by (simp add: roundedValue.simps(2) [of "Suc (n + k)"] del: roundedValue.simps(2))
    with Suc.IH show ?thesis by simp
  next
    case False
    define z where "z = \<lfloor>v / 10 ^ Suc n\<rfloor>"
    have "1 \<le> v / 10 ^ Suc n" using False by simp
    then have "1 \<le> z" unfolding z_def by linarith
    then obtain q where q: "of_int z = (of_nat q :: rat)" "0 < q" using that [of "nat z"] by simp
    have "roundedValue (Suc (Suc n + k)) v (10 ^ Suc n) = Inr (of_int z * 10 ^ Suc n)"
      unfolding z_def using False assms by (simp only: roundedValue.simps if_False) simp
    then have "roundedValue (Suc (Suc n + k)) v (10 ^ Suc n) = Inr (of_nat (q * 10 ^ Suc n))"
      by (simp only: q of_nat_mult of_nat_power of_nat_numeral)
    moreover have "0 < q * 10 ^ Suc n" using q(2) by simp
    ultimately show ?thesis by metis
  qed
qed

lemma rounded_whole: "1 \<le> v \<Longrightarrow> \<exists>m > 0. roundedValue 6 v 10000 = Inr (of_nat m)"
  using rounded_power [of v 4 1] by (simp add: eval_nat_numeral)

lemma rounded_small:
  assumes "1 / 10 \<le> v" and "v < 1"
  shows "\<exists>q. roundedValue 6 v 10000 = Inr q \<and> q < 1 \<and> 0 < q"
proof -
  have "roundedValue 6 v 10000 = Inr (of_int \<lfloor>10 * v\<rfloor> / 10)" using assms by (simp add: eval_nat_numeral mult.commute)
  moreover have "1 \<le> \<lfloor>10 * v\<rfloor>" "\<lfloor>10 * v\<rfloor> < 10" using assms by (simp_all add: le_floor_iff floor_less_iff)
  ultimately show ?thesis by (intro exI [of _ "of_int \<lfloor>10 * v\<rfloor> / 10"]) simp
qed

lemma count_hit_length [simp]: "length (foldl count_hit rs d) = length rs"
  by (induction d arbitrary: rs) (auto simp: count_hit_def split: option.splits)

definition in_range :: "rat \<Rightarrow> nat \<Rightarrow> hour \<Rightarrow> bool" where
  "in_range step i h \<longleftrightarrow> of_nat i * step \<le> hr_hits h \<and> hr_hits h \<le> of_nat i * step + (step - 1)"

lemma one_range: "1 \<le> step \<Longrightarrow> in_range step i h \<Longrightarrow> in_range step j h \<Longrightarrow> i = j"
proof (rule ccontr)
  assume step: "1 \<le> step" and i: "in_range step i h" and j: "in_range step j h" and "i \<noteq> j"
  then consider "Suc i \<le> j" | "Suc j \<le> i" by linarith
  then show False
  proof cases
    case 1
    then have "of_nat (Suc i) * step \<le> of_nat j * step" using step by (intro mult_right_mono) auto
    with i j show False by (simp add: in_range_def algebra_simps)
  next
    case 2
    then have "of_nat (Suc j) * step \<le> of_nat i * step" using step by (intro mult_right_mono) auto
    with i j show False by (simp add: in_range_def algebra_simps)
  qed
qed

definition ranges_ok :: "rat \<Rightarrow> hit_range list \<Rightarrow> bool" where
  "ranges_ok step rs \<longleftrightarrow> (\<forall>i < length rs. hg_start (rs ! i) = of_nat i * step \<and> hg_end (rs ! i) = of_nat i * step + (step - 1))"

lemma ranges_kept: "ranges_ok step rs \<Longrightarrow> ranges_ok step (foldl count_hit rs d)"
proof (induction d arbitrary: rs)
  case (Cons h d)
  then have "ranges_ok step (count_hit rs h)"
    by (auto simp: count_hit_def ranges_ok_def nth_list_update split: option.splits dest: find_index_Some)
  then show ?case by (simp add: Cons.IH)
qed simp

lemma count_hit_at:
  assumes "1 \<le> step" and "ranges_ok step rs" and "i < length rs"
  shows "hg_frequency (count_hit rs h ! i) = hg_frequency (rs ! i) + (if in_range step i h then 1 else 0)"
proof -
  let ?P = "\<lambda>r. hr_hits h \<ge> hg_start r \<and> hr_hits h \<le> hg_end r"
  have P: "?P (rs ! j) \<longleftrightarrow> in_range step j h" if "j < length rs" for j
    using assms(2) that by (simp add: ranges_ok_def in_range_def)
  show "hg_frequency (count_hit rs h ! i) = hg_frequency (rs ! i) + (if in_range step i h then 1 else 0)"
  proof (cases "find_index ?P rs")
    case None
    then have "\<not> in_range step i h" using P [OF assms(3)] assms(3) by (auto simp: find_index_None)
    with None show ?thesis by (simp add: count_hit_def)
  next
    case (Some k)
    then have "k < length rs" "in_range step k h" using find_index_Some [OF Some] P by auto
    with Some one_range [OF assms(1)] show ?thesis by (auto simp: count_hit_def nth_list_update)
  qed
qed

lemma counted_at:
  assumes "1 \<le> step" and "ranges_ok step rs" and "i < length rs"
  shows "hg_frequency (foldl count_hit rs d ! i) = hg_frequency (rs ! i) + length (filter (in_range step i) d)"
  using assms(2,3)
proof (induction d arbitrary: rs)
  case (Cons h d)
  have "length (count_hit rs h) = length rs" using count_hit_length [of rs "[h]"] by simp
  moreover have "ranges_ok step (count_hit rs h)" using ranges_kept [OF Cons.prems(1), of "[h]"] by simp
  ultimately show ?case using Cons.IH [of "count_hit rs h"] count_hit_at [OF assms(1) Cons.prems] Cons.prems(2) by simp
qed simp

text \<open>
  The histogram of the hits: with at least ten hits in the busiest hour, each of its bars counts the hours whose hits are in its
  range, the ranges being as long as the step and one after the other from zero.
\<close>
lemma bars_count_hours:
  assumes "10 \<le> high" and "hit_ranges high d = Inr rs" and "i < length rs"
  shows "\<exists>m > 0. hg_start (rs ! i) = of_nat (i * m) \<and> length rs = nat \<lceil>high / of_nat m\<rceil> \<and>
    hg_frequency (rs ! i) = length (filter (\<lambda>h. of_nat (i * m) \<le> hr_hits h \<and> hr_hits h \<le> of_nat (i * m) + (of_nat m - 1)) d)"
proof -
  from rounded_whole [of "high / 10"] assms(1) obtain m where m: "0 < m" "roundedValue 6 (high / 10) 10000 = Inr (of_nat m)"
    by auto
  with assms(2) have rs: "rs = foldl count_hit (empty_ranges high (of_nat m)) d" by (simp add: hit_ranges_def)
  have ok: "ranges_ok (of_nat m) (empty_ranges high (of_nat m))" by (simp add: ranges_ok_def empty_ranges_def)
  have len: "length rs = nat \<lceil>high / of_nat m\<rceil>" by (simp add: rs empty_ranges_def)
  with assms(3) have i: "i < length (empty_ranges high (of_nat m))" by (simp add: empty_ranges_def)
  have one: "1 \<le> (of_nat m :: rat)" using m(1) by simp
  have "hg_frequency (rs ! i) = length (filter (in_range (of_nat m) i) d)"
    using counted_at [OF one ok i, of d] i by (simp add: rs empty_ranges_def)
  moreover have "ranges_ok (of_nat m) (foldl count_hit (empty_ranges high (of_nat m)) d)" by (rule ranges_kept [OF ok])
  then have "hg_start (rs ! i) = of_nat i * of_nat m" using assms(3) by (simp add: rs ranges_ok_def)
  ultimately show ?thesis using m(1) len by (intro exI [of _ m]) (simp add: in_range_def [abs_def])
qed

text \<open>With fewer hits the step is not whole: every range ends before it starts, and no hour is counted.\<close>

lemma few_hits_lost:
  assumes "1 \<le> high" and "high < 10" and "hit_ranges high d = Inr rs" and "r \<in> set rs"
  shows "hg_frequency r = 0"
proof -
  from rounded_small [of "high / 10"] assms(1,2) obtain q where q: "roundedValue 6 (high / 10) 10000 = Inr q" "q < 1"
    by auto
  then have rs: "rs = foldl count_hit (empty_ranges high q) d" using assms(3) by (simp add: hit_ranges_def)
  have "foldl count_hit (empty_ranges high q) d = empty_ranges high q"
  proof (induction d)
    case (Cons h d)
    have "find_index (\<lambda>r. hg_start r \<le> hr_hits h \<and> hr_hits h \<le> hg_end r) (empty_ranges high q) = None"
      using q(2) by (auto simp: find_index_None empty_ranges_def)
    with Cons show ?case by (simp add: count_hit_def)
  qed simp
  then show ?thesis using assms(4) by (auto simp: rs empty_ranges_def)
qed

text \<open>The hours of a week are a table of rows of 24.\<close>

lemma hour_cell: "week_row idx = idx div 24 + 1" "week_col idx = int (idx mod 24) + 1"
proof -
  have "\<lceil>of_nat (idx + 1) / (24 :: rat)\<rceil> = int (idx div 24 + 1)"
  proof (rule ceiling_unique)
    have "idx + 1 \<le> 24 * (idx div 24 + 1)" by presburger
    then have "(of_nat (idx + 1) :: rat) \<le> of_nat (24 * (idx div 24 + 1))" by (simp only: of_nat_le_iff)
    then show "of_nat (idx + 1) / (24 :: rat) \<le> of_int (int (idx div 24 + 1))" by simp
    have "24 * (idx div 24) < idx + 1" by presburger
    then have "(of_nat (24 * (idx div 24)) :: rat) < of_nat (idx + 1)" by (simp only: of_nat_less_iff)
    then show "of_int (int (idx div 24 + 1)) - 1 < of_nat (idx + 1) / (24 :: rat)" by simp
  qed
  then show row: "week_row idx = idx div 24 + 1" by (simp add: week_row_def)
  show "week_col idx = int (idx mod 24) + 1" by (simp add: week_col_def row) presburger
qed

text \<open>Choosing another group keeps the page: it may be past the last one of the new group.\<close>

lemma page_kept: "select_group groups g s = Inr s' \<Longrightarrow> ef_page s' = ef_page s"
  by (auto simp: select_group_def rbind_eq_Inr)

text \<open>A day with twenty hits in the busiest hour: the hour itself is past the last range.\<close>

definition busy_day :: "hour list" where
  "busy_day = [\<lparr>hr_date = 0, hr_hits = 20, hr_avg = 1\<rparr>, \<lparr>hr_date = 1, hr_hits = 5, hr_avg = 1\<rparr>, \<lparr>hr_date = 2, hr_hits = 4, hr_avg = 1\<rparr>]"

lemma busy_ranges: "\<exists>rs. hit_ranges 20 busy_day = Inr rs \<and> length rs = 10 \<and> hg_frequency (rs ! 2) = 2 \<and> sum_list (map hg_frequency rs) = 2"
proof -
  have "roundedValue 6 2 10000 = Inr 2" by (simp add: eval_nat_numeral)
  then show ?thesis
    by (simp add: hit_ranges_def empty_ranges_def busy_day_def count_hit_def upt_rec)
qed

lemma bars_count_hours_witness:
  "\<exists>rs m. hit_ranges 20 busy_day = Inr rs \<and> 0 < m \<and> hg_start (rs ! 2) = of_nat (2 * m) \<and>
     hg_frequency (rs ! 2) = length (filter (\<lambda>h. of_nat (2 * m) \<le> hr_hits h \<and> hr_hits h \<le> of_nat (2 * m) + (of_nat m - 1)) busy_day)"
proof -
  obtain rs where rs: "hit_ranges 20 busy_day = Inr rs" "length rs = 10" using busy_ranges by blast
  from bars_count_hours [OF _ rs(1), of 2] rs show ?thesis by auto
qed

end
