(* ===== verification/Green_Groups.thy ===== *)
theory Green_Groups
  imports Green_Score
begin

text \<open>
  The edition of a group of the green score (\<open>extensions/greenscore/GroupRoutes.js\<close>): the routes of the group, and the rules each
  of them follows, day by day.

  \<^item> A rule is enabled by the last day that says something of it. \<open>RulesTables\<close> sorts the days in place when it is
    drawn, so that they are in order when a switch is clicked.
  \<^item> \<open>GroupRoutes\<close> keeps a copy of the group (\<open>value\<close>). The page that holds the group makes a new renderer
    each time the group changes, so that React then mounts \<open>GroupRoutes\<close> again: the copy is made anew and
    the wizard is closed.
\<close>

section \<open>Rules\<close>

record rule_state =
  st_id :: string
  st_section :: string
  st_enabled :: bool

record rules_day =
  rd_date :: int
  rd_states :: "rule_state list"

type_synonym rules_config = "rules_day list"

type_synonym sections = "(string \<times> green_rule list) list"

definition all_rules :: "sections \<Rightarrow> green_rule list" where
  "all_rules bySection = concat (map snd bySection)"

definition getSectionOfRule :: "sections \<Rightarrow> string \<Rightarrow> string res" where
  "getSectionOfRule bySection r =
     (case List.find (\<lambda>x. ru_id x = r) (all_rules bySection) of None \<Rightarrow> Inl TypeError | Some x \<Rightarrow> Inr (ru_section x))"

text \<open>The days with the section of each rule, as they are drawn.\<close>

definition with_section :: "sections \<Rightarrow> rules_config \<Rightarrow> rules_config res" where
  "with_section bySection = rmap (\<lambda>d.
     rbind (rmap (\<lambda>s. rbind (getSectionOfRule bySection (st_id s)) (\<lambda>x. Inr (s\<lparr>st_section := x\<rparr>))) (rd_states d))
       (\<lambda>ss. Inr (d\<lparr>rd_states := ss\<rparr>)))"

definition day_map :: "rule_state list \<Rightarrow> string \<rightharpoonup> bool" where
  "day_map ss = foldl (\<lambda>m s. m(st_id s \<mapsto> st_enabled s)) Map.empty ss"

text \<open>\<open>None\<close> is \<open>undefined\<close>: nothing says whether the rule is enabled.\<close>

definition ruleIsEnabled :: "rules_config \<Rightarrow> string \<Rightarrow> bool option" where
  "ruleIsEnabled days r = foldl (\<lambda>m d. m ++ day_map (rd_states d)) Map.empty (sort_key rd_date days) r"

definition getSectionStatus :: "rules_config \<Rightarrow> green_rule list \<Rightarrow> bool" where
  "getSectionStatus days rules = foldl (\<lambda>acc r. acc \<and> ruleIsEnabled days (ru_id r) = Some True) True rules"

text \<open>
  A click on a switch: \<open>drawn\<close> are the days drawn (with the sections, sorted), \<open>days\<close> those of the configuration. The
  click hands back the new days.
\<close>

definition current_states :: "int \<Rightarrow> rules_config \<Rightarrow> rule_state list" where
  "current_states today drawn =
     (case List.find (\<lambda>d. rd_date d = today) drawn of
        Some d \<Rightarrow> rd_states d
      | None \<Rightarrow> if drawn \<noteq> [] then rd_states (last drawn) else [])"

definition switched :: "sections \<Rightarrow> rule_state list \<Rightarrow> bool \<Rightarrow> string \<Rightarrow> string \<Rightarrow> bool \<Rightarrow> rule_state list" where
  "switched bySection ss enabled r section whole_section =
     (if whole_section
      then filter (\<lambda>s. st_section s \<noteq> section) ss @
        map (\<lambda>x. \<lparr>st_id = ru_id x, st_section = section, st_enabled = enabled\<rparr>)
          (filter (\<lambda>x. ru_section x = section) (all_rules bySection))
      else filter (\<lambda>s. st_id s \<noteq> r) ss @ [\<lparr>st_id = r, st_section = section, st_enabled = enabled\<rparr>])"

definition onRulesChange ::
  "sections \<Rightarrow> int \<Rightarrow> rules_config \<Rightarrow> rules_config \<Rightarrow> bool \<Rightarrow> string \<Rightarrow> bool \<Rightarrow> rules_config res" where
  "onRulesChange bySection today drawn days enabled r whole_section =
     rbind (getSectionOfRule bySection r) (\<lambda>section.
       Inr (filter (\<lambda>d. rd_date d \<noteq> today) days @
         [\<lparr>rd_date = today, rd_states = switched bySection (current_states today drawn) enabled r section whole_section\<rparr>]))"

text \<open>A click in the wizard of a route, from the days of its configuration.\<close>

definition click_rule :: "sections \<Rightarrow> int \<Rightarrow> rules_config \<Rightarrow> string \<Rightarrow> rules_config res" where
  "click_rule bySection today days r =
     rbind (with_section bySection days) (\<lambda>ws.
       onRulesChange bySection today (sort_key rd_date ws) days (ruleIsEnabled ws r \<noteq> Some True) r False)"

definition click_section :: "sections \<Rightarrow> int \<Rightarrow> rules_config \<Rightarrow> green_rule list \<Rightarrow> rules_config res" where
  "click_section bySection today days rules =
     rbind (with_section bySection days) (\<lambda>ws.
       case rules of [] \<Rightarrow> Inl TypeError
       | r # _ \<Rightarrow> onRulesChange bySection today (sort_key rd_date ws) days (\<not> getSectionStatus ws rules) (ru_id r) True)"

section \<open>The routes of a group\<close>

record group_route =
  gp_route :: string
  gp_rules :: rules_config

record group_editor =
  ge_root :: "group_route list"
  ge_value :: "group_route list"
  ge_edit :: "string option"

definition mount_group :: "group_route list \<Rightarrow> group_editor" where
  "mount_group rs = \<lparr>ge_root = rs, ge_value = rs, ge_edit = None\<rparr>"

definition rootOnChange :: "group_route list \<Rightarrow> group_editor \<Rightarrow> group_editor" where
  "rootOnChange rs s = mount_group rs"

definition addRoute :: "int \<Rightarrow> string \<Rightarrow> group_editor \<Rightarrow> group_editor" where
  "addRoute today r s = rootOnChange (ge_root s @ [\<lparr>gp_route = r, gp_rules = [\<lparr>rd_date = today, rd_states = []\<rparr>]\<rparr>]) s"

definition editRoute :: "string \<Rightarrow> group_editor \<Rightarrow> group_editor" where
  "editRoute r s = s\<lparr>ge_edit := Some r\<rparr>"

definition deleteRoute :: "string \<Rightarrow> group_editor \<Rightarrow> group_editor" where
  "deleteRoute r s = rootOnChange (filter (\<lambda>x. gp_route x \<noteq> r) (ge_root s)) s"

definition onWizardClose :: "group_editor \<Rightarrow> group_editor" where
  "onWizardClose s = s\<lparr>ge_edit := None\<rparr>"

definition change_rules :: "rules_config \<Rightarrow> group_editor \<Rightarrow> group_editor" where
  "change_rules c s = s\<lparr>ge_value := map (\<lambda>x. if Some (gp_route x) = ge_edit s then x\<lparr>gp_rules := c\<rparr> else x) (ge_value s)\<rparr>"

definition saveRules :: "group_editor \<Rightarrow> group_editor" where
  "saveRules s = rootOnChange (ge_value s) s"

text \<open>The route the wizard edits, the routes listed, and those that can still be added.\<close>

definition wizard_route :: "group_editor \<Rightarrow> group_route option" where
  "wizard_route s = (case ge_edit s of None \<Rightarrow> None | Some r \<Rightarrow> List.find (\<lambda>x. gp_route x = r) (ge_value s))"

definition listed_routes :: "group_editor \<Rightarrow> string list" where
  "listed_routes s = map gp_route (ge_value s)"

definition addable :: "string list \<Rightarrow> group_editor \<Rightarrow> string list" where
  "addable all_routes s = filter (\<lambda>r. r \<notin> gp_route ` set (ge_value s)) all_routes"

text \<open>
  What the user and the page do: a route is chosen among the addable ones, the buttons of a route are those of a listed one,
  and the wizard changes the rules of its route only while it is open. \<open>Other\<close> is a change of another field of the group.
\<close>

datatype group_event = Add int string | Edit string | Delete string | Close | Rules rules_config | Save | Other

definition group_step :: "string list \<Rightarrow> group_editor \<Rightarrow> group_event \<Rightarrow> group_editor" where
  "group_step all_routes s e =
     (case e of
        Add today r \<Rightarrow> if r \<in> set (addable all_routes s) then addRoute today r s else s
      | Edit r \<Rightarrow> if r \<in> set (listed_routes s) then editRoute r s else s
      | Delete r \<Rightarrow> if r \<in> set (listed_routes s) then deleteRoute r s else s
      | Close \<Rightarrow> onWizardClose s
      | Rules c \<Rightarrow> if ge_edit s \<noteq> None then change_rules c s else s
      | Save \<Rightarrow> if ge_edit s \<noteq> None then saveRules s else s
      | Other \<Rightarrow> rootOnChange (ge_root s) s)"

section \<open>Thresholds\<close>

definition change_bound :: "obj \<Rightarrow> string \<Rightarrow> js \<Rightarrow> obj" where
  "change_bound bounds key v = AList.update key v bounds"

definition change_threshold :: "obj \<Rightarrow> string \<Rightarrow> string \<Rightarrow> js \<Rightarrow> obj" where
  "change_threshold thresholds key bound v =
     AList.update key (JObj (change_bound (entries (obj_get thresholds key)) bound v)) thresholds"

section \<open>A switch reads back\<close>

definition merged_days :: "rules_config \<Rightarrow> string \<rightharpoonup> bool" where
  "merged_days days = foldl (\<lambda>m d. m ++ day_map (rd_states d)) Map.empty days"

lemma merged_append: "merged_days (ds @ [d]) = merged_days ds ++ day_map (rd_states d)"
  by (simp add: merged_days_def)

lemma enabled_merged: "ruleIsEnabled days r = merged_days (sort_key rd_date days) r"
  by (simp add: ruleIsEnabled_def merged_days_def)

lemma day_map_of: "day_map ss = map_of (rev (map (\<lambda>s. (st_id s, st_enabled s)) ss))"
  by (induction ss rule: rev_induct) (simp_all add: day_map_def)

lemma day_map_append: "day_map (ss @ ts) = day_map ss ++ day_map ts"
  by (simp add: day_map_of)

lemma day_map_Nil [simp]: "day_map [] = Map.empty"
  by (simp add: day_map_def)

lemma day_map_Cons: "day_map (s # ss) = [st_id s \<mapsto> st_enabled s] ++ day_map ss"
  using day_map_append [of "[s]" ss] by (simp add: day_map_def)

lemma day_map_filter:
  assumes "\<And>s. s \<in> set ss \<Longrightarrow> st_id s = q \<Longrightarrow> P s = b"
  shows "day_map (filter P ss) q = (if b then day_map ss q else None)"
  using assms by (induction ss) (auto simp: day_map_Cons map_add_def split: option.splits)

lemma day_map_same_ids: "map (\<lambda>s. (st_id s, st_enabled s)) ss = map (\<lambda>s. (st_id s, st_enabled s)) ts \<Longrightarrow> day_map ss = day_map ts"
  by (simp add: day_map_of)

text \<open>The sections put in the days change neither the dates nor what they say.\<close>

lemma rmap_pairs: "rmap f xs = Inr ys \<Longrightarrow> list_all2 (\<lambda>x y. f x = Inr y) xs ys"
  by (induction xs arbitrary: ys) (auto simp: rbind_eq_Inr)

definition same_day :: "sections \<Rightarrow> rules_day \<Rightarrow> rules_day \<Rightarrow> bool" where
  "same_day bySection d w \<longleftrightarrow> rd_date w = rd_date d \<and> day_map (rd_states w) = day_map (rd_states d) \<and>
     (\<forall>s \<in> set (rd_states w). getSectionOfRule bySection (st_id s) = Inr (st_section s))"

lemma sectioned:
  "list_all2 (\<lambda>x y. rbind (getSectionOfRule bySection (st_id x)) (\<lambda>z. Inr (x\<lparr>st_section := z\<rparr>)) = Inr y) xs ys \<Longrightarrow>
   map (\<lambda>s. (st_id s, st_enabled s)) ys = map (\<lambda>s. (st_id s, st_enabled s)) xs \<and>
   (\<forall>s \<in> set ys. getSectionOfRule bySection (st_id s) = Inr (st_section s))"
  by (induction rule: list_all2_induct) (auto simp: rbind_eq_Inr)

lemma with_section_same:
  assumes "with_section bySection days = Inr ws"
  shows "list_all2 (same_day bySection) days ws"
proof -
  have step: "same_day bySection d w"
    if w: "rbind (rmap (\<lambda>s. rbind (getSectionOfRule bySection (st_id s)) (\<lambda>x. Inr (s\<lparr>st_section := x\<rparr>))) (rd_states d))
        (\<lambda>ss. Inr (d\<lparr>rd_states := ss\<rparr>)) = Inr w" for d w
  proof -
    from w obtain ss where ss: "rmap (\<lambda>s. rbind (getSectionOfRule bySection (st_id s)) (\<lambda>x. Inr (s\<lparr>st_section := x\<rparr>))) (rd_states d) = Inr ss"
      and "Inr (d\<lparr>rd_states := ss\<rparr>) = (Inr w :: rules_day res)" by (subst (asm) rbind_eq_Inr) blast
    then have w': "w = d\<lparr>rd_states := ss\<rparr>" by simp
    note both = sectioned [OF rmap_pairs [OF ss]]
    from both [THEN conjunct2] day_map_same_ids [OF both [THEN conjunct1]] show ?thesis by (simp add: same_day_def w')
  qed
  from rmap_pairs [OF assms [unfolded with_section_def]] show ?thesis
    by (rule list_all2_mono) (rule step)
qed

lemma insort_all2:
  assumes "list_all2 R xs ys" and "R x y" and "\<And>a b. R a b \<Longrightarrow> f a = g b"
  shows "list_all2 R (insort_key f x xs) (insort_key g y ys)"
  using assms(1) by (induction rule: list_all2_induct) (use assms(2,3) in auto)

lemma sort_all2:
  assumes "list_all2 R xs ys" and "\<And>a b. R a b \<Longrightarrow> f a = g b"
  shows "list_all2 R (sort_key f xs) (sort_key g ys)"
  using assms(1) by (induction rule: list_all2_induct) (auto simp: insort_all2 assms(2))

lemma merged_same: "list_all2 (same_day bySection) ds ws \<Longrightarrow> merged_days ds = merged_days ws"
proof (induction ds arbitrary: ws rule: rev_induct)
  case (snoc d ds)
  then obtain vs w where "ws = vs @ [w]" "list_all2 (same_day bySection) ds vs" "same_day bySection d w"
    by (auto simp: list_all2_append1 list_all2_Cons1)
  with snoc.IH [of vs] show ?case by (simp add: merged_append same_day_def [of _ d])
qed simp

lemma sorted_date_le_last: "sorted (map f ds) \<Longrightarrow> d \<in> set ds \<Longrightarrow> f d \<le> f (last ds)"
  by (induction ds) auto

text \<open>What the click starts from, with the days before today, says what the days say.\<close>

lemma current_is_merged:
  assumes "sorted (map rd_date ds)" and "distinct (map rd_date ds)" and "\<forall>d \<in> set ds. rd_date d \<le> today"
  shows "merged_days (filter (\<lambda>d. rd_date d \<noteq> today) ds) ++ day_map (current_states today ds) = merged_days ds"
proof (cases ds rule: rev_cases)
  case Nil
  then show ?thesis by (simp add: merged_days_def current_states_def)
next
  case (snoc as l)
  have before: "rd_date d < rd_date l" if "d \<in> set as" for d
    using assms(1,2) that by (auto simp: snoc sorted_append order_less_le dest: image_eqI [rotated, of _ _ _ rd_date])
  then have keep: "filter (\<lambda>d. rd_date d \<noteq> today) as = as" using assms(3) by (force simp: snoc filter_id_conv)
  show ?thesis
  proof (cases "rd_date l = today")
    case True
    with before have "List.find (\<lambda>d. rd_date d = today) as = None" by (auto simp: find_None_iff_all dest: before)
    with True have "List.find (\<lambda>d. rd_date d = today) ds = Some l" by (simp add: snoc find_append)
    with True keep show ?thesis by (simp add: current_states_def snoc merged_append)
  next
    case False
    with keep have none: "List.find (\<lambda>d. rd_date d = today) ds = None"
      by (auto simp: snoc find_None_iff_all filter_id_conv)
    have "merged_days as ++ day_map (rd_states l) ++ day_map (rd_states l) = merged_days as ++ day_map (rd_states l)"
      by (auto simp: map_add_def fun_eq_iff split: option.splits)
    with False keep none show ?thesis by (simp add: current_states_def snoc merged_append)
  qed
qed

lemma current_of_day:
  "current_states today ds = [] \<or> (\<exists>d \<in> set ds. current_states today ds = rd_states d)"
proof (cases "List.find (\<lambda>d. rd_date d = today) ds")
  case (Some d)
  then show ?thesis using find_SomeD [OF Some] by (auto simp: current_states_def)
qed (auto simp: current_states_def intro!: bexI [of _ "last ds"])

lemma unique_section:
  assumes "distinct (map ru_id (all_rules bySection))" and "x \<in> set (all_rules bySection)"
  shows "getSectionOfRule bySection (ru_id x) = Inr (ru_section x)"
proof -
  have "List.find (\<lambda>y. ru_id y = ru_id x) (all_rules bySection) = Some x"
    using assms by (intro find_unique) (auto simp: distinct_map inj_on_def)
  then show ?thesis by (simp add: getSectionOfRule_def)
qed

definition concerns :: "sections \<Rightarrow> string \<Rightarrow> string \<Rightarrow> bool \<Rightarrow> string \<Rightarrow> bool" where
  "concerns bySection r section whole_section q \<longleftrightarrow>
     (if whole_section then \<exists>x \<in> set (all_rules bySection). ru_id x = q \<and> ru_section x = section else q = r)"

lemma day_map_const: "day_map (map (\<lambda>x. \<lparr>st_id = ru_id x, st_section = c, st_enabled = e\<rparr>) xs) q =
    (if \<exists>x \<in> set xs. ru_id x = q then Some e else None)"
  by (induction xs) (auto simp: day_map_Cons map_add_def)

lemma switched_map:
  assumes ids: "distinct (map ru_id (all_rules bySection))" and sec: "getSectionOfRule bySection r = Inr section"
    and ss: "\<forall>s \<in> set ss. getSectionOfRule bySection (st_id s) = Inr (st_section s)"
  shows "day_map (switched bySection ss e r section whole_section) q =
    (if concerns bySection r section whole_section q then Some e else day_map ss q)"
proof (cases whole_section)
  case False
  have "day_map (filter (\<lambda>s. st_id s \<noteq> r) ss) q = (if q \<noteq> r then day_map ss q else None)"
    by (rule day_map_filter) auto
  with False show ?thesis by (auto simp: switched_def concerns_def day_map_append day_map_Cons map_add_def)
next
  case True
  have "st_section s \<noteq> section \<longleftrightarrow> \<not> concerns bySection r section True q" if "s \<in> set ss" "st_id s = q" for s
  proof -
    from ss that have q: "getSectionOfRule bySection q = Inr (st_section s)" by auto
    then obtain x where "x \<in> set (all_rules bySection)" "ru_id x = q" "ru_section x = st_section s"
      by (auto simp: getSectionOfRule_def dest!: find_SomeD split: option.splits)
    with q unique_section [OF ids] show ?thesis by (auto simp: concerns_def) (metis sum.inject(2))+
  qed
  then have "day_map (filter (\<lambda>s. st_section s \<noteq> section) ss) q = (if \<not> concerns bySection r section True q then day_map ss q else None)"
    by (rule day_map_filter)
  with True show ?thesis
    by (auto simp: switched_def day_map_append day_map_const map_add_def concerns_def)
qed

text \<open>
  C16. A switch of the wizard reads back. After a click, of a rule or of a whole section, the rules it is about are enabled as the
  switch says, and every other rule is as it was, though the days that said so may be earlier ones. No
  day of the configuration is later than today or occurs twice, and no rule is in two sections.
\<close>
theorem switch_reads_back:
  assumes ids: "distinct (map ru_id (all_rules bySection))" and "with_section bySection days = Inr ws"
    and dates: "distinct (map rd_date days)" "\<forall>d \<in> set days. rd_date d \<le> today"
    and "getSectionOfRule bySection r = Inr section"
    and "onRulesChange bySection today (sort_key rd_date ws) days e r whole_section = Inr days'"
  shows "ruleIsEnabled days' q =
    (if concerns bySection r section whole_section q then Some e else ruleIsEnabled days q)"
proof -
  let ?ds = "sort_key rd_date days" and ?ws = "sort_key rd_date ws"
  have same: "list_all2 (same_day bySection) ?ds ?ws"
    by (rule sort_all2 [OF with_section_same [OF assms(2)]]) (simp add: same_day_def)
  have same': "list_all2 (same_day bySection) (filter (\<lambda>d. rd_date d \<noteq> today) ?ds) (filter (\<lambda>d. rd_date d \<noteq> today) ?ws)"
    using same by (induction rule: list_all2_induct) (auto simp: same_day_def)
  have wd: "map rd_date ?ws = map rd_date ?ds" using same by (induction rule: list_all2_induct) (auto simp: same_day_def)
  have cur: "merged_days (filter (\<lambda>d. rd_date d \<noteq> today) ?ws) ++ day_map (current_states today ?ws) = merged_days ?ws"
  proof (rule current_is_merged)
    show "sorted (map rd_date ?ws)" by simp
    show "distinct (map rd_date ?ws)" unfolding wd using dates(1) by (simp add: distinct_map)
    have "set (map rd_date ?ws) = set (map rd_date ?ds)" using wd by simp
    then have "\<forall>t \<in> rd_date ` set ?ws. t \<le> today" using dates(2) by simp
    then show "\<forall>d \<in> set ?ws. rd_date d \<le> today" by blast
  qed
  have sec: "\<forall>s \<in> set (current_states today ?ws). getSectionOfRule bySection (st_id s) = Inr (st_section s)"
  proof -
    have "\<forall>w \<in> set ?ws. \<forall>s \<in> set (rd_states w). getSectionOfRule bySection (st_id s) = Inr (st_section s)"
      using same by (induction rule: list_all2_induct) (auto simp: same_day_def)
    with current_of_day [of today ?ws] show ?thesis by auto
  qed
  let ?new = "\<lparr>rd_date = today, rd_states = switched bySection (current_states today ?ws) e r section whole_section\<rparr>"
  have days': "days' = filter (\<lambda>d. rd_date d \<noteq> today) days @ [?new]"
    using assms(5,6) by (simp add: onRulesChange_def)
  have "sort_key rd_date days' = filter (\<lambda>d. rd_date d \<noteq> today) ?ds @ [?new]"
    unfolding days' using dates(2) by (subst sort_key_snoc) (auto simp: filter_sort order_less_le)
  then have "ruleIsEnabled days' q = (merged_days (filter (\<lambda>d. rd_date d \<noteq> today) ?ws) ++
      day_map (switched bySection (current_states today ?ws) e r section whole_section)) q"
    by (simp add: enabled_merged merged_append merged_same [OF same'])
  also have "\<dots> = (if concerns bySection r section whole_section q then Some e
      else (merged_days (filter (\<lambda>d. rd_date d \<noteq> today) ?ws) ++ day_map (current_states today ?ws)) q)"
    by (simp add: map_add_def switched_map [OF ids assms(5) sec])
  also have "(merged_days (filter (\<lambda>d. rd_date d \<noteq> today) ?ws) ++ day_map (current_states today ?ws)) q = ruleIsEnabled days q"
    unfolding cur by (simp add: enabled_merged merged_same [OF same])
  finally show ?thesis .
qed

definition log_rules :: sections where
  "log_rules = [(''usage'', [\<lparr>ru_id = ''u1'', ru_section = ''usage''\<rparr>]),
     (''log'', [\<lparr>ru_id = ''l1'', ru_section = ''log''\<rparr>, \<lparr>ru_id = ''l2'', ru_section = ''log''\<rparr>])]"

definition two_days :: rules_config where
  "two_days = [\<lparr>rd_date = 2, rd_states = [\<lparr>st_id = ''l1'', st_section = [], st_enabled = True\<rparr>]\<rparr>,
     \<lparr>rd_date = 1, rd_states = [\<lparr>st_id = ''u1'', st_section = [], st_enabled = True\<rparr>]\<rparr>]"

lemma switch_reads_back_witness:
  "\<exists>days'. click_section log_rules 3 two_days (all_rules [log_rules ! 1]) = Inr days' \<and>
     ruleIsEnabled days' ''l2'' = Some True \<and> ruleIsEnabled days' ''u1'' = Some True"
proof -
  obtain ws where ws: "with_section log_rules two_days = Inr ws"
    by (simp add: log_rules_def two_days_def with_section_def getSectionOfRule_def all_rules_def)
  obtain days' where days': "onRulesChange log_rules 3 (sort_key rd_date ws) two_days True ''l1'' True = Inr days'"
    by (simp add: onRulesChange_def getSectionOfRule_def log_rules_def all_rules_def)
  have off: "\<not> getSectionStatus ws (all_rules [log_rules ! 1])"
    using ws by (auto simp: log_rules_def two_days_def with_section_def getSectionOfRule_def all_rules_def getSectionStatus_def
        ruleIsEnabled_def day_map_def)
  have ids: "distinct (map ru_id (all_rules log_rules))" by (simp add: all_rules_def log_rules_def)
  have "getSectionOfRule log_rules ''l1'' = Inr ''log''" by (simp add: log_rules_def getSectionOfRule_def all_rules_def)
  note reads = switch_reads_back [OF ids ws _ _ this days']
  have "ruleIsEnabled days' q = (if q = ''l1'' \<or> q = ''l2'' then Some True else ruleIsEnabled two_days q)" for q
    using reads [of q] by (auto simp: two_days_def concerns_def log_rules_def all_rules_def)
  moreover have "ruleIsEnabled two_days ''u1'' = Some True" by (simp add: ruleIsEnabled_def two_days_def day_map_def)
  moreover have "click_section log_rules 3 two_days (all_rules [log_rules ! 1]) = Inr days'"
    using off days' by (simp add: click_section_def ws) (simp add: all_rules_def log_rules_def)
  ultimately show ?thesis by simp
qed

section \<open>The wizard has its route\<close>

definition group_inv :: "group_editor \<Rightarrow> bool" where
  "group_inv s \<longleftrightarrow> listed_routes s = map gp_route (ge_root s) \<and> distinct (listed_routes s) \<and>
     (\<forall>r. ge_edit s = Some r \<longrightarrow> r \<in> set (listed_routes s))"

lemma mount_inv: "distinct (map gp_route rs) \<Longrightarrow> group_inv (mount_group rs)"
  by (simp add: group_inv_def mount_group_def listed_routes_def)

lemma change_rules_routes [simp]: "listed_routes (change_rules c s) = listed_routes s"
  "ge_root (change_rules c s) = ge_root s" "ge_edit (change_rules c s) = ge_edit s"
  by (auto simp: change_rules_def listed_routes_def)

lemma group_step_inv: "group_inv s \<Longrightarrow> group_inv (group_step all s e)"
proof -
  assume s: "group_inv s"
  then have ids: "gp_route ` set (ge_value s) = gp_route ` set (ge_root s)" and dist: "distinct (map gp_route (ge_root s))"
    by (metis group_inv_def listed_routes_def set_map) (metis s group_inv_def)
  show ?thesis
  proof (cases e)
    case (Rules c)
    with s dist show ?thesis by (auto simp: group_step_def group_inv_def)
  next
    case (Add t r)
    with s ids dist show ?thesis by (auto simp: group_step_def addable_def addRoute_def rootOnChange_def intro!: mount_inv)
  next
    case (Delete r)
    with s dist show ?thesis
      by (auto simp: group_step_def deleteRoute_def rootOnChange_def distinct_map_filter intro!: mount_inv)
  qed (use s ids in \<open>auto simp: group_step_def rootOnChange_def saveRules_def editRoute_def onWizardClose_def group_inv_def
      listed_routes_def mount_group_def\<close>)
qed

interpretation group_page: machine "group_step all" group_inv for all
  by unfold_locales (rule group_step_inv)

text \<open>
  C26. Whatever the user does in the editor of a group, the routes listed are those of the group, once each, and the wizard, when it
  is open, has the route it edits.
\<close>
theorem wizard_has_route:
  assumes "distinct (map gp_route rs)"
  shows "let s = foldl (group_step all) (mount_group rs) es in listed_routes s = map gp_route (ge_root s) \<and> distinct (listed_routes s) \<and> (ge_edit s \<noteq> None \<longrightarrow> wizard_route s \<noteq> None)"
proof -
  have "group_inv (foldl (group_step all) (mount_group rs) es)" by (rule group_page.run_inv [OF mount_inv [OF assms]])
  then show ?thesis
    by (auto simp: Let_def group_inv_def listed_routes_def wizard_route_def find_None_iff_all
        not_None_eq [symmetric] simp del: not_None_eq split: option.splits)
qed

lemma wizard_has_route_witness:
  "listed_routes (foldl (group_step [''r1'', ''r2'']) (mount_group [\<lparr>gp_route = ''r1'', gp_rules = []\<rparr>])
     [Add 3 ''r2'', Edit ''r2'']) = [''r1'', ''r2''] \<and>
   wizard_route (foldl (group_step [''r1'', ''r2'']) (mount_group [\<lparr>gp_route = ''r1'', gp_rules = []\<rparr>])
     [Add 3 ''r2'', Edit ''r2'']) \<noteq> None"
  using wizard_has_route [of "[\<lparr>gp_route = ''r1'', gp_rules = []\<rparr>]" "[''r1'', ''r2'']" "[Add 3 ''r2'', Edit ''r2'']"]
  by (simp add: group_step_def mount_group_def addable_def addRoute_def rootOnChange_def listed_routes_def editRoute_def)

text \<open>Saving the wizard changes the rules of its route, and of no other when no other was edited before.\<close>

lemma saved_rules:
  assumes "ge_value s = ge_root s" and "ge_edit s = Some r"
  shows "ge_root (saveRules (change_rules c s)) = map (\<lambda>x. if gp_route x = r then x\<lparr>gp_rules := c\<rparr> else x) (ge_root s)"
  using assms by (simp add: saveRules_def rootOnChange_def mount_group_def change_rules_def)

text \<open>
  Leaving the wizard without saving does not undo its changes: the next save, of another route, saves them.
\<close>
lemma abandoned_rules_saved:
  assumes "a \<noteq> b"
  shows "ge_root (foldl (group_step all) (mount_group [\<lparr>gp_route = a, gp_rules = []\<rparr>, \<lparr>gp_route = b, gp_rules = []\<rparr>])
      [Edit a, Rules c, Close, Edit b, Save]) =
    [\<lparr>gp_route = a, gp_rules = c\<rparr>, \<lparr>gp_route = b, gp_rules = []\<rparr>]"
  using assms by (simp add: group_step_def mount_group_def listed_routes_def editRoute_def change_rules_def
      onWizardClose_def saveRules_def rootOnChange_def)

text \<open>Adding a route does not open its wizard: the page mounts the editor again.\<close>

lemma added_route_not_edited: "ge_edit (group_step all s (Add today r)) = Some r \<Longrightarrow> ge_edit s = Some r"
  by (auto simp: group_step_def addRoute_def rootOnChange_def mount_group_def split: if_splits)

text \<open>A change of a bound leaves the other bounds and thresholds alone.\<close>

lemma bound_read_back:
  "jprop (obj_get (change_threshold ts key b v) key) b = v"
  "b' \<noteq> b \<Longrightarrow> jprop (obj_get (change_threshold (AList.update key (JObj bs) ts) key b v) key) b' = obj_get bs b'"
  "key' \<noteq> key \<Longrightarrow> obj_get (change_threshold ts key b v) key' = obj_get ts key'"
  by (simp_all add: change_threshold_def change_bound_def jprop_def)

end
