(* ===== verification/Mocks.thy ===== *)
theory Mocks
  imports Input_Lists Api_Client "HOL-Library.Multiset"
begin

text \<open>
  The designer of the mocked responses of a route (\<open>pages/RouteDesigner/MocksDesigner.js\<close>): endpoints and models, the
  data generated from the models, and the responses the plugin of the route serves.

  \<^item> The designer keeps nothing: it reads the models and the endpoints from the configuration of the plugin and writes them back.
    The state is the list of the plugins of the route. A configuration it wrote holds two arrays.
  \<^item> \<open>mk_faker\<close> is the library of fake values, by the name of a value (\<open>None\<close> when it has no such function); it is asked once for
    each name. \<open>mk_parse\<close> and \<open>mk_stringify\<close> are those of \<open>JSON\<close>, \<open>mk_rank\<close> the position of a text in the order
    of \<open>localeCompare\<close>. \<open>NaN\<close> is null, as JSON prints it.
  \<^item> A model may use other models, and itself: the generation takes fuel, one unit for each model entered.
\<close>

section \<open>Generated values\<close>

record mock_env =
  mk_faker :: "string \<Rightarrow> js option"
  mk_parse :: "string \<Rightarrow> js option"
  mk_stringify :: "js \<Rightarrow> string"
  mk_rank :: "string \<Rightarrow> rat"

datatype mock_error = Not_an_object | Syntax_error | Too_deep

definition castValue :: "mock_env \<Rightarrow> js \<Rightarrow> js \<Rightarrow> js" where
  "castValue env v type =
     (if type = JStr ''String'' then v
      else if type = JStr ''Number''
      then (case read_int (template_text v) of Some i \<Rightarrow> JNum (of_int i) | None \<Rightarrow> JNull)
      else case mk_parse env (template_text v) of Some x \<Rightarrow> x | None \<Rightarrow> v)"

definition stringify_body :: "mock_env \<Rightarrow> js \<Rightarrow> js" where
  "stringify_body env body = (case body of JObj _ \<Rightarrow> JStr (mk_stringify env body) | JArr _ \<Rightarrow> JStr (mk_stringify env body) | _ \<Rightarrow> body)"

definition fakeValue :: "mock_env \<Rightarrow> js \<Rightarrow> js" where
  "fakeValue env item =
     (let v = jprop item ''value''; type = jprop item ''field_type''
      in case v of
           JStr s \<Rightarrow> (case mk_faker env s of Some x \<Rightarrow> castValue env x type | None \<Rightarrow> castValue env v type)
         | _ \<Rightarrow> castValue env v type)"

text \<open>What the generated value starts with: the raw data of the model, the value itself when the schema is empty.\<close>

definition raw_fields :: "mock_env \<Rightarrow> js \<Rightarrow> mock_error + js" where
  "raw_fields env resource =
     (let a = jprop resource ''additional_data''
      in case a of
           JObj fs \<Rightarrow> Inr a
         | _ \<Rightarrow> (case mk_parse env (if truthy a then template_text a else ''{}'') of
                  None \<Rightarrow> Inl Syntax_error | Some x \<Rightarrow> Inr x))"

definition field_name :: "js \<Rightarrow> string" where
  "field_name item = template_text (jprop item ''field_name'')"

definition find_model :: "js list \<Rightarrow> js \<Rightarrow> js option" where
  "find_model resources v = List.find (\<lambda>r. jprop r ''name'' = v) resources"

definition set_fields :: "js \<Rightarrow> (string \<times> js) list \<Rightarrow> js" where
  "set_fields base kvs = foldl (\<lambda>acc (k, v). JObj (AList.update k v (entries acc))) base kvs"

fun calculateResource :: "mock_env \<Rightarrow> js list \<Rightarrow> nat \<Rightarrow> js \<Rightarrow> mock_error + js" where
  "calculateResource env resources 0 resource = Inl Too_deep"
| "calculateResource env resources (Suc n) resource =
     ebind (raw_fields env resource) (\<lambda>base.
     ebind (emap (\<lambda>item.
         if jprop item ''field_type'' = JStr ''Model''
         then (case find_model resources (jprop item ''value'') of
                 None \<Rightarrow> Inl Not_an_object
               | Some r \<Rightarrow> calculateResource env resources n r)
         else Inr (fakeValue env item)) (array_or_empty (jprop resource ''schema'')))
       (\<lambda>vs. Inr (set_fields base (zip (map field_name (array_or_empty (jprop resource ''schema''))) vs))))"

text \<open>
  \<open>Array.from({length: v || 10})\<close>: a text is read as a number (a sign, digits and decimals; no exponent and no other base), and
  what is not a number counts none.
\<close>

definition text_count :: "string \<Rightarrow> nat" where
  "text_count s =
     (let t = trim s; u = (if startsWith t ''+'' then drop 1 t else t) in
      case split_on CHR ''.'' u of
        [a] \<Rightarrow> if list_all is_digit a then digits_number a else 0
      | [a, b] \<Rightarrow> if list_all is_digit (a @ b) then digits_number a else 0
      | _ \<Rightarrow> 0)"

definition array_length :: "js \<Rightarrow> nat" where
  "array_length v =
     (if \<not> truthy v then 10
      else case v of JNum q \<Rightarrow> nat \<lfloor>q\<rfloor> | JBool b \<Rightarrow> 1 | JObj fs \<Rightarrow> 0 | _ \<Rightarrow> text_count (template_text v))"

definition generateFakerValues :: "mock_env \<Rightarrow> js list \<Rightarrow> nat \<Rightarrow> js \<Rightarrow> mock_error + js" where
  "generateFakerValues env resources n endpoint =
     (let count = array_length (jprop endpoint ''length''); many = truthy (jprop endpoint ''resource_list'') in
      if truthy (jprop endpoint ''model'') then
        (case find_model resources (jprop endpoint ''model'') of
           None \<Rightarrow> Inr (JObj [])
         | Some r \<Rightarrow> if many
             then ebind (emap (\<lambda>i. ebind (calculateResource env resources n r) (\<lambda>x. Inr (JObj (entries x)))) [0..<count]) (\<lambda>xs. Inr (JArr xs))
             else calculateResource env resources n r)
      else if many then Inr (JArr (replicate count (jprop endpoint ''body'')))
      else Inr (jprop endpoint ''body''))"

section \<open>The plugin of the route\<close>

record mock_data =
  md_resources :: "js list"
  md_endpoints :: "js list"

definition is_mock :: "js \<Rightarrow> bool" where
  "is_mock p \<longleftrightarrow> jprop p ''plugin'' = JStr ''cp:otoroshi.next.plugins.MockResponses''"

definition migrated :: "js \<Rightarrow> js" where
  "migrated endpoint =
     (if truthy (jprop endpoint ''resource'')
      then JObj (AList.update ''model'' (jprop endpoint ''resource'') (obj_del ''resource'' (entries endpoint)))
      else endpoint)"

definition getState :: "js list \<Rightarrow> mock_data" where
  "getState plugins =
     (let form = (case List.find is_mock plugins of Some p \<Rightarrow> jprop (jprop p ''config'') ''form_data'' | None \<Rightarrow> JUndef)
      in if truthy form
         then \<lparr>md_resources = array_or_empty (jprop form ''resources''),
               md_endpoints = map migrated (array_or_empty (jprop form ''endpoints''))\<rparr>
         else \<lparr>md_resources = [], md_endpoints = []\<rparr>)"

definition configToResponses :: "mock_env \<Rightarrow> mock_data \<Rightarrow> js list" where
  "configToResponses env d = map (\<lambda>e. JObj [(''path'', jprop e ''path''), (''method'', jprop e ''method''), (''status'', jprop e ''status''),
     (''headers'', jprop e ''headers''), (''body'', stringify_body env (jprop e ''body''))]) (md_endpoints d)"

definition config_of :: "mock_data \<Rightarrow> js" where
  "config_of d = JObj [(''resources'', JArr (md_resources d)), (''endpoints'', JArr (md_endpoints d))]"

definition setAndSave :: "mock_env \<Rightarrow> mock_data \<Rightarrow> js list \<Rightarrow> js list" where
  "setAndSave env d plugins = map (\<lambda>p.
     if is_mock p
     then JObj (AList.update ''config''
       (JObj (AList.update ''form_data'' (config_of d)
         (AList.update ''responses'' (JArr (configToResponses env d)) (entries (jprop p ''config''))))) (entries p))
     else p) plugins"

section \<open>The operations\<close>

definition confirmed_endpoint :: "js \<Rightarrow> js" where
  "confirmed_endpoint value =
     JObj (spread (entries value) [(''enabled_generation'', JBool False), (''create_model'', JBool False),
       (''model'', js_or (jprop (jprop value ''resource'') ''name'') (jprop value ''model'')), (''resource'', JUndef)])"

definition generated_endpoints :: "js \<Rightarrow> (string \<times> string \<times> string \<times> rat) list" where
  "generated_endpoints value =
     (let path = template_text (jprop value ''path'') in
      [(''find_one'', path @ ''/:id'', ''GET'', 200), (''put'', path @ ''/:id'', ''PUT'', 204), (''post'', path, ''POST'', 201),
       (''delete'', path @ ''/:id'', ''DELETE'', 202)])"

definition additional_endpoints :: "js \<Rightarrow> js list" where
  "additional_endpoints value =
     (if truthy (jprop value ''enabled_generation'')
      then map (\<lambda>(f, path, m, status). JObj (spread (entries (confirmed_endpoint value))
          [(''path'', JStr path), (''status'', JNum status), (''method'', JStr m)]))
        (filter (\<lambda>(f, _). jprop value f = JUndef \<or> truthy (jprop value f)) (generated_endpoints value))
      else [])"

definition confirm_endpoint :: "nat option \<Rightarrow> js \<Rightarrow> mock_data \<Rightarrow> mock_data" where
  "confirm_endpoint idx value d =
     \<lparr>md_resources = (if truthy (jprop value ''resource'') then md_resources d @ [jprop value ''resource''] else md_resources d),
      md_endpoints = (case idx of
         Some i \<Rightarrow> map (\<lambda>(j, e). if j = i then confirmed_endpoint value else e) (enumerate 0 (md_endpoints d))
       | None \<Rightarrow> md_endpoints d @ [confirmed_endpoint value] @ additional_endpoints value)\<rparr>"

definition confirm_resource :: "nat option \<Rightarrow> js \<Rightarrow> mock_data \<Rightarrow> mock_data" where
  "confirm_resource idx value d = d\<lparr>md_resources := (case idx of
     Some i \<Rightarrow> map (\<lambda>(j, r). if j = i then value else r) (enumerate 0 (md_resources d))
   | None \<Rightarrow> md_resources d @ [value])\<rparr>"

definition removeEndpoint :: "nat \<Rightarrow> mock_data \<Rightarrow> mock_data" where
  "removeEndpoint idx d = d\<lparr>md_endpoints := map snd (filter (\<lambda>(j, _). j \<noteq> idx) (enumerate 0 (md_endpoints d)))\<rparr>"

text \<open>\<open>None\<close>: an alert says that an endpoint uses the model, or there is no such model and the read of its name throws.\<close>

definition removeResource :: "nat \<Rightarrow> mock_data \<Rightarrow> mock_data option" where
  "removeResource idx d =
     (if \<exists>e \<in> set (md_endpoints d). idx < length (md_resources d) \<longrightarrow> jprop e ''model'' = jprop (md_resources d ! idx) ''name''
      then None else Some (d\<lparr>md_resources := map snd (filter (\<lambda>(j, _). j \<noteq> idx) (enumerate 0 (md_resources d)))\<rparr>))"

definition with_body :: "js \<Rightarrow> js \<Rightarrow> js" where
  "with_body v endpoint = JObj (AList.update ''body'' v (entries endpoint))"

text \<open>An exception rejects the promise: nothing is saved.\<close>

definition generateData :: "mock_env \<Rightarrow> nat \<Rightarrow> mock_data \<Rightarrow> mock_error + mock_data" where
  "generateData env n d =
     ebind (emap (\<lambda>e. if truthy (jprop e ''body'') then Inr (with_body (jprop e ''body'') e)
         else ebind (generateFakerValues env (md_resources d) n e) (\<lambda>v. Inr (with_body v e))) (md_endpoints d))
       (\<lambda>es. Inr (d\<lparr>md_endpoints := es\<rparr>))"

definition cleared :: "mock_data \<Rightarrow> mock_data" where
  "cleared d = d\<lparr>md_endpoints := map (with_body JNull) (md_endpoints d)\<rparr>"

text \<open>The endpoints as they are listed, and the one a click on the bin of the row \<open>i\<close> removes.\<close>

definition listed_endpoints :: "mock_env \<Rightarrow> mock_data \<Rightarrow> js list" where
  "listed_endpoints env d = sort_key (\<lambda>e. mk_rank env (template_text (jprop e ''path''))) (md_endpoints d)"

section \<open>The designer as a machine\<close>

datatype mock_event =
    Confirm_endpoint "nat option" js
  | Confirm_resource "nat option" js
  | Remove_endpoint nat
  | Remove_resource nat
  | Generate nat
  | Reset nat

definition save_result :: "mock_env \<Rightarrow> (mock_error + mock_data) \<Rightarrow> js list \<Rightarrow> js list" where
  "save_result env m plugins = (case m of Inl _ \<Rightarrow> plugins | Inr d \<Rightarrow> setAndSave env d plugins)"

definition mock_step :: "mock_env \<Rightarrow> js list \<Rightarrow> mock_event \<Rightarrow> js list" where
  "mock_step env plugins e =
     (let d = getState plugins in
      case e of
        Confirm_endpoint i v \<Rightarrow> setAndSave env (confirm_endpoint i v d) plugins
      | Confirm_resource i v \<Rightarrow> setAndSave env (confirm_resource i v d) plugins
      | Remove_endpoint i \<Rightarrow> setAndSave env (removeEndpoint i d) plugins
      | Remove_resource i \<Rightarrow> (case removeResource i d of None \<Rightarrow> plugins | Some d' \<Rightarrow> setAndSave env d' plugins)
      | Generate n \<Rightarrow> save_result env (generateData env n d) plugins
      | Reset n \<Rightarrow>
          (let plugins' = setAndSave env (cleared d) plugins
           in save_result env (generateData env n (getState plugins')) plugins'))"

section \<open>What is saved reads back\<close>

definition plain_endpoints :: "mock_data \<Rightarrow> bool" where
  "plain_endpoints d \<longleftrightarrow> (\<forall>e \<in> set (md_endpoints d). \<exists>fs. e = JObj fs \<and> \<not> truthy (obj_get fs ''resource''))"

lemma migrated_plain: "plain_endpoints d \<Longrightarrow> map migrated (md_endpoints d) = md_endpoints d"
  by (intro map_idI) (auto simp: plain_endpoints_def migrated_def jprop_def)

lemma obj_get_del: "obj_get (obj_del k fs) k' = (if k' = k then JUndef else obj_get fs k')"
  by (induction fs) (auto simp: obj_del_def)

lemma migrated_is_plain: "\<exists>fs. migrated (JObj gs) = JObj fs \<and> \<not> truthy (obj_get fs ''resource'')"
  by (auto simp: migrated_def jprop_def obj_get_del)

lemma is_mock_obj: "is_mock p \<Longrightarrow> \<exists>fs. p = JObj fs"
  by (auto simp: is_mock_def jprop_def split: js.splits)

definition saved_plugin :: "mock_env \<Rightarrow> mock_data \<Rightarrow> js \<Rightarrow> js" where
  "saved_plugin env d p = JObj (AList.update ''config''
     (JObj (AList.update ''form_data'' (config_of d)
       (AList.update ''responses'' (JArr (configToResponses env d)) (entries (jprop p ''config''))))) (entries p))"

lemma setAndSave_map: "setAndSave env d plugins = map (\<lambda>p. if is_mock p then saved_plugin env d p else p) plugins"
  by (simp add: setAndSave_def saved_plugin_def)

lemma saved_plugin_fields:
  assumes "is_mock p"
  shows "is_mock (saved_plugin env d p)"
    "jprop (jprop (saved_plugin env d p) ''config'') ''form_data'' = config_of d"
    "jprop (jprop (saved_plugin env d p) ''config'') ''responses'' = JArr (configToResponses env d)"
  using is_mock_obj [OF assms] assms by (auto simp: saved_plugin_def is_mock_def jprop_def)

lemma find_map_if: "(\<And>x. P x \<Longrightarrow> P (f x)) \<Longrightarrow> List.find P (map (\<lambda>x. if P x then f x else x) xs) = map_option f (List.find P xs)"
  by (induction xs) auto

lemma state_saved:
  assumes "\<exists>p \<in> set plugins. is_mock p" and "plain_endpoints d"
  shows "getState (setAndSave env d plugins) = d"
proof -
  obtain p where p: "List.find is_mock plugins = Some p"
    using assms(1) by (cases "List.find is_mock plugins") (auto simp: find_None_iff_all)
  then have "List.find is_mock (setAndSave env d plugins) = Some (saved_plugin env d p)"
    by (simp add: setAndSave_map find_map_if saved_plugin_fields)
  with find_SomeD [OF p] show ?thesis
    by (simp add: getState_def saved_plugin_fields) (simp add: config_of_def jprop_def array_or_empty_def migrated_plain [OF assms(2)])
qed

section \<open>What the designer promises\<close>

text \<open>
  The editor of models and endpoints the designer stands for, as a relation between what it holds before an event and after it,
  stated key by key and place by place.
\<close>

text \<open>An endpoint confirmed in the form: what was typed, with the name of the new model, and without the choices of the form.\<close>

definition stored_endpoint :: "js \<Rightarrow> js \<Rightarrow> bool" where
  "stored_endpoint v e \<longleftrightarrow> (\<forall>k. jprop e k =
     (if k = ''enabled_generation'' \<or> k = ''create_model'' then JBool False
      else if k = ''resource'' then JUndef
      else if k = ''model'' \<and> truthy (jprop (jprop v ''resource'') ''name'') then jprop (jprop v ''resource'') ''name''
      else if k = ''model'' then jprop v ''model''
      else obj_get (entries v) k))"

text \<open>The endpoints that come with it: the same, but for the path, the method and the status.\<close>

definition wanted :: "js \<Rightarrow> string \<Rightarrow> bool" where
  "wanted v f \<longleftrightarrow> truthy (jprop v ''enabled_generation'') \<and> (jprop v f = JUndef \<or> truthy (jprop v f))"

definition companions :: "js \<Rightarrow> (string \<times> string \<times> rat) list" where
  "companions v =
     (if wanted v ''find_one'' then [(''/:id'', ''GET'', 200)] else []) @
     (if wanted v ''put'' then [(''/:id'', ''PUT'', 204)] else []) @
     (if wanted v ''post'' then [([], ''POST'', 201)] else []) @
     (if wanted v ''delete'' then [(''/:id'', ''DELETE'', 202)] else [])"

fun companion_of :: "js \<Rightarrow> js \<Rightarrow> string \<times> string \<times> rat \<Rightarrow> js \<Rightarrow> bool" where
  "companion_of v e (suff, m, st) x \<longleftrightarrow> (\<forall>k. jprop x k =
     (if k = ''path'' then JStr (template_text (jprop v ''path'') @ suff)
      else if k = ''method'' then JStr m else if k = ''status'' then JNum st else jprop e k))"

text \<open>An endpoint whose body was set, and one whose data was generated unless it had a body.\<close>

definition same_but_body :: "js \<Rightarrow> js \<Rightarrow> bool" where
  "same_but_body e e' \<longleftrightarrow> (\<forall>k. k \<noteq> ''body'' \<longrightarrow> jprop e' k = jprop e k)"

definition generated :: "mock_env \<Rightarrow> js list \<Rightarrow> nat \<Rightarrow> js \<Rightarrow> js \<Rightarrow> bool" where
  "generated env models n e e' \<longleftrightarrow> same_but_body e e' \<and>
     (if truthy (jprop e ''body'') then jprop e' ''body'' = jprop e ''body''
      else generateFakerValues env models n e = Inr (jprop e' ''body''))"

definition all_generated :: "mock_env \<Rightarrow> nat \<Rightarrow> mock_data \<Rightarrow> mock_data \<Rightarrow> bool" where
  "all_generated env n d d' \<longleftrightarrow> md_resources d' = md_resources d \<and>
     (if \<exists>e \<in> set (md_endpoints d). \<not> truthy (jprop e ''body'') \<and> isl (generateFakerValues env (md_resources d) n e)
      then md_endpoints d' = md_endpoints d
      else list_all2 (generated env (md_resources d) n) (md_endpoints d) (md_endpoints d'))"

definition emptied :: "mock_data \<Rightarrow> mock_data \<Rightarrow> bool" where
  "emptied d d' \<longleftrightarrow> md_resources d' = md_resources d \<and>
     list_all2 (\<lambda>e e'. same_but_body e e' \<and> jprop e' ''body'' = JNull) (md_endpoints d) (md_endpoints d')"

definition without_place :: "nat \<Rightarrow> 'a list \<Rightarrow> 'a list" where
  "without_place i xs = take i xs @ drop (Suc i) xs"

definition model_in_use :: "nat \<Rightarrow> mock_data \<Rightarrow> bool" where
  "model_in_use i d \<longleftrightarrow> i < length (md_resources d) \<and>
     jprop (md_resources d ! i) ''name'' \<in> (\<lambda>e. jprop e ''model'') ` set (md_endpoints d)"

fun mock_change :: "mock_env \<Rightarrow> mock_data \<Rightarrow> mock_event \<Rightarrow> mock_data \<Rightarrow> bool" where
  "mock_change env d (Confirm_endpoint i v) d' \<longleftrightarrow>
     md_resources d' = md_resources d @ (if truthy (jprop v ''resource'') then [jprop v ''resource''] else []) \<and>
     (\<exists>e xs. stored_endpoint v e \<and> list_all2 (companion_of v e) (companions v) xs \<and>
        md_endpoints d' = (case i of Some k \<Rightarrow> (md_endpoints d)[k := e] | None \<Rightarrow> md_endpoints d @ e # xs))"
| "mock_change env d (Confirm_resource i v) d' \<longleftrightarrow> md_endpoints d' = md_endpoints d \<and>
     md_resources d' = (case i of Some k \<Rightarrow> (md_resources d)[k := v] | None \<Rightarrow> md_resources d @ [v])"
| "mock_change env d (Remove_endpoint i) d' \<longleftrightarrow> md_resources d' = md_resources d \<and>
     md_endpoints d' = without_place i (md_endpoints d)"
| "mock_change env d (Remove_resource i) d' \<longleftrightarrow> md_endpoints d' = md_endpoints d \<and>
     md_resources d' = (if model_in_use i d then md_resources d else without_place i (md_resources d))"
| "mock_change env d (Generate n) d' \<longleftrightarrow> all_generated env n d d'"
| "mock_change env d (Reset n) d' \<longleftrightarrow> (\<exists>c. emptied d c \<and> all_generated env n c d')"

text \<open>What a mock plugin serves: one response for each endpoint, in order, an object or an array printed as its body.\<close>

definition response_of :: "mock_env \<Rightarrow> js \<Rightarrow> js \<Rightarrow> bool" where
  "response_of env e r \<longleftrightarrow>
     (\<forall>k \<in> {''path'', ''method'', ''status'', ''headers''}. jprop r k = jprop e k) \<and>
     jprop r ''body'' = (if is_object (jprop e ''body'') \<or> is_array (jprop e ''body'')
       then JStr (mk_stringify env (jprop e ''body'')) else jprop e ''body'')"

definition serves :: "mock_env \<Rightarrow> js list \<Rightarrow> js \<Rightarrow> bool" where
  "serves env endpoints p \<longleftrightarrow>
     (\<exists>rs. jprop (jprop p ''config'') ''responses'' = JArr rs \<and> list_all2 (response_of env) endpoints rs)"

lemma config_serves:
  "jprop (jprop p ''config'') ''responses'' = JArr (configToResponses env d) \<Longrightarrow> serves env (md_endpoints d) p"
  by (auto simp: serves_def configToResponses_def response_of_def list_all2_conv_all_nth stringify_body_def is_object_def is_array_def
      split: js.splits)

section \<open>The designer keeps its promise\<close>

lemma confirmed_stored: "stored_endpoint v (confirmed_endpoint v)"
  by (simp add: stored_endpoint_def confirmed_endpoint_def spread_def js_or_def)

lemma companion_stored:
  "companion_of v e (suff, m, st) (JObj (spread (entries e) [(''path'', JStr (template_text (jprop v ''path'') @ suff)),
     (''status'', JNum st), (''method'', JStr m)]))" if "\<exists>fs. e = JObj fs"
  using that by (auto simp: spread_def)

lemma companions_stored: "list_all2 (companion_of v (confirmed_endpoint v)) (companions v) (additional_endpoints v)"
proof -
  have obj: "\<exists>fs. confirmed_endpoint v = JObj fs" by (simp add: confirmed_endpoint_def)
  note stored = companion_stored [OF obj, of v "''/:id''" "''GET''" 200] companion_stored [OF obj, of v "''/:id''" "''PUT''" 204]
    companion_stored [OF obj, of v "[]" "''POST''" 201] companion_stored [OF obj, of v "''/:id''" "''DELETE''" 202]
  show ?thesis
  proof (cases "truthy (jprop v ''enabled_generation'')")
    case True
    then have w: "(jprop v f = JUndef \<or> truthy (jprop v f)) = wanted v f" for f by (simp add: wanted_def)
    show ?thesis
      using True stored [unfolded append_Nil2]
      by (simp add: additional_endpoints_def generated_endpoints_def companions_def w Let_def del: companion_of.simps)
  qed (simp add: additional_endpoints_def companions_def wanted_def)
qed

lemma map_place: "map (\<lambda>(j, e). if j = i then v else e) (enumerate 0 xs) = xs[i := v]"
  by (rule nth_equalityI) (auto simp: nth_enumerate_eq nth_list_update)

lemma filter_place: "map snd (filter (\<lambda>(j, _). j \<noteq> i) (enumerate 0 xs)) = without_place i xs"
  using drop_at_parts [of i xs] by (simp add: drop_at_def without_place_def)

lemma emap_all2: "emap f xs = Inr ys \<Longrightarrow> list_all2 (\<lambda>x y. f x = Inr y) xs ys"
  by (induction xs arbitrary: ys) auto

lemma emap_fails: "emap f xs = Inl err \<Longrightarrow> \<exists>x \<in> set xs. f x = Inl err"
proof (induction xs)
  case (Cons x xs)
  then show ?case by (cases "f x"; cases "emap f xs") auto
qed simp

lemma confirmed_plain: "\<exists>fs. confirmed_endpoint v = JObj fs \<and> \<not> truthy (obj_get fs ''resource'')"
  by (simp add: confirmed_endpoint_def spread_def)

lemma additional_plain: "e \<in> set (additional_endpoints v) \<Longrightarrow> \<exists>fs. e = JObj fs \<and> \<not> truthy (obj_get fs ''resource'')"
  by (auto simp: additional_endpoints_def confirmed_endpoint_def spread_def split: if_splits prod.splits)

lemma in_enumerate: "x \<in> snd ` set (enumerate n xs) \<longleftrightarrow> x \<in> set xs"
  by (metis map_snd_enumerate set_map)

lemma in_enumerateD: "(j, x) \<in> set (enumerate n xs) \<Longrightarrow> x \<in> set xs"
  by (metis in_enumerate snd_conv image_eqI)

lemma with_body_plain: "\<not> truthy (obj_get fs ''resource'') \<Longrightarrow> \<exists>gs. with_body v (JObj fs) = JObj gs \<and> \<not> truthy (obj_get gs ''resource'')"
  by (simp add: with_body_def)

lemma emap_out: "emap f xs = Inr ys \<Longrightarrow> y \<in> set ys \<Longrightarrow> \<exists>x \<in> set xs. f x = Inr y"
  by (induction xs arbitrary: ys) auto

lemma generate_plain: "plain_endpoints d \<Longrightarrow> generateData env n d = Inr d' \<Longrightarrow> plain_endpoints d'"
  unfolding plain_endpoints_def
  by (auto simp: generateData_def dest!: emap_out split: if_splits) (metis with_body_plain)+

lemma endpoints_stay_plain:
  assumes "plain_endpoints d"
  shows "plain_endpoints (confirm_endpoint i v d)" "plain_endpoints (confirm_resource i v d)"
    "plain_endpoints (removeEndpoint k d)" "removeResource k d = Some d' \<Longrightarrow> plain_endpoints d'" "plain_endpoints (cleared d)"
  using assms confirmed_plain [of v] additional_plain [of _ v] with_body_plain
  by (auto simp: confirm_endpoint_def confirm_resource_def removeEndpoint_def removeResource_def cleared_def plain_endpoints_def
      in_enumerate split: option.splits if_splits dest: in_enumerateD)

lemma body_kept: "(\<exists>fs. e = JObj fs) \<Longrightarrow> same_but_body e (with_body v e) \<and> jprop (with_body v e) ''body'' = v"
  by (auto simp: same_but_body_def with_body_def)

lemma plain_objects: "plain_endpoints d \<Longrightarrow> e \<in> set (md_endpoints d) \<Longrightarrow> \<exists>fs. e = JObj fs"
  by (auto simp: plain_endpoints_def)

text \<open>The data generated for the endpoints, when it is and when it is not.\<close>

lemma generate_sim:
  assumes "plain_endpoints d"
  shows "all_generated env n d (case generateData env n d of Inl _ \<Rightarrow> d | Inr d' \<Rightarrow> d')"
proof -
  define g where "g e = (if truthy (jprop e ''body'') then Inr (with_body (jprop e ''body'') e)
      else ebind (generateFakerValues env (md_resources d) n e) (\<lambda>v. Inr (with_body v e)))" for e
  have gen: "generateData env n d = ebind (emap g (md_endpoints d)) (\<lambda>es. Inr (d\<lparr>md_endpoints := es\<rparr>))"
    by (simp add: generateData_def g_def [abs_def])
  have fails: "(\<exists>e \<in> set (md_endpoints d). \<not> truthy (jprop e ''body'') \<and> isl (generateFakerValues env (md_resources d) n e)) \<longleftrightarrow>
      (\<exists>e \<in> set (md_endpoints d). isl (g e))"
    by (rule bex_cong [OF refl]) (auto simp: g_def isl_def ebind_def split: sum.splits)
  show ?thesis
  proof (cases "emap g (md_endpoints d)")
    case (Inl err)
    with emap_fails [OF Inl] have "\<exists>e \<in> set (md_endpoints d). isl (g e)" by (auto simp: isl_def)
    with fails Inl show ?thesis by (simp add: all_generated_def gen)
  next
    case (Inr es)
    have step: "generated env (md_resources d) n e e'" if "e \<in> set (md_endpoints d)" "g e = Inr e'" for e e'
    proof -
      note obj = plain_objects [OF assms that(1)]
      show ?thesis
      proof (cases "truthy (jprop e ''body'')")
        case True
        with that(2) have "e' = with_body (jprop e ''body'') e" by (simp add: g_def)
        with True body_kept [OF obj, of "jprop e ''body''"] show ?thesis by (simp add: generated_def)
      next
        case False
        with that(2) obtain v where "generateFakerValues env (md_resources d) n e = Inr v" "e' = with_body v e"
          by (auto simp: g_def)
        with False body_kept [OF obj, of v] show ?thesis by (simp add: generated_def)
      qed
    qed
    have "list_all2 (generated env (md_resources d) n) (md_endpoints d) es"
      using emap_all2 [OF Inr] step by (auto simp: list_all2_conv_all_nth)
    moreover have "\<not> (\<exists>e \<in> set (md_endpoints d). isl (g e))"
      using emap_in [OF Inr] by fastforce
    then have "\<not> (\<exists>e \<in> set (md_endpoints d). \<not> truthy (jprop e ''body'') \<and> isl (generateFakerValues env (md_resources d) n e))"
      by (simp only: fails not_False_eq_True)
    ultimately show ?thesis using Inr by (simp add: all_generated_def gen if_not_P del: bex_simps)
  qed
qed

lemma cleared_sim: "plain_endpoints d \<Longrightarrow> emptied d (cleared d)"
  using body_kept [OF plain_objects] by (auto simp: emptied_def cleared_def list_all2_map2 intro!: list.rel_refl_strong)

text \<open>
  What holds between the events, in terms of the plugins the route had at the start: there is a plugin, its endpoints are plain,
  nothing was saved yet or every mock plugin serves the endpoints, and the other plugins are as they were.
\<close>

definition mock_inv :: "mock_env \<Rightarrow> js list \<Rightarrow> js list \<Rightarrow> bool" where
  "mock_inv env start plugins \<longleftrightarrow> (\<exists>p \<in> set plugins. is_mock p) \<and> plain_endpoints (getState plugins) \<and>
     (plugins = start \<or> (\<forall>p \<in> set plugins. is_mock p \<longrightarrow> serves env (md_endpoints (getState plugins)) p)) \<and>
     list_all2 (\<lambda>p p'. if is_mock p then is_mock p' else p' = p) start plugins"

lemma saved_inv:
  assumes "mock_inv env start plugins" and "plain_endpoints d"
  shows "mock_inv env start (setAndSave env d plugins)" and "getState (setAndSave env d plugins) = d"
proof -
  have m: "\<exists>p \<in> set plugins. is_mock p" using assms(1) by (simp add: mock_inv_def)
  show reads: "getState (setAndSave env d plugins) = d" by (rule state_saved [OF m assms(2)])
  obtain p where "p \<in> set plugins" "is_mock p" using m by blast
  then have "\<exists>q \<in> set (setAndSave env d plugins). is_mock q"
    by (auto simp: setAndSave_map saved_plugin_fields intro!: bexI [of _ "saved_plugin env d p"])
  moreover have "\<forall>q \<in> set (setAndSave env d plugins). is_mock q \<longrightarrow> serves env (md_endpoints d) q"
    by (auto simp: setAndSave_map saved_plugin_fields intro!: config_serves)
  moreover have "list_all2 (\<lambda>p p'. if is_mock p then is_mock p' else p' = p) start (setAndSave env d plugins)"
    using assms(1) by (auto simp: mock_inv_def setAndSave_map list_all2_map2 saved_plugin_fields elim!: list_all2_mono)
  ultimately show "mock_inv env start (setAndSave env d plugins)"
    using assms(2) by (simp add: mock_inv_def reads)
qed

lemma removeResource_place:
  "removeResource k d = (if model_in_use k d \<or> length (md_resources d) \<le> k \<and> md_endpoints d \<noteq> [] then None
     else Some (d\<lparr>md_resources := without_place k (md_resources d)\<rparr>))"
proof -
  have "(\<exists>e \<in> set (md_endpoints d). k < length (md_resources d) \<longrightarrow> jprop e ''model'' = jprop (md_resources d ! k) ''name'') \<longleftrightarrow>
      model_in_use k d \<or> length (md_resources d) \<le> k \<and> md_endpoints d \<noteq> []"
    unfolding model_in_use_def image_iff by (cases "k < length (md_resources d)"; cases "md_endpoints d") (auto dest: sym)
  then show ?thesis by (simp add: removeResource_def filter_place)
qed

lemma plain_changes:
  "mock_change env d (Confirm_endpoint i v) (confirm_endpoint i v d)"
  "mock_change env d (Confirm_resource i v) (confirm_resource i v d)"
  "mock_change env d (Remove_endpoint k) (removeEndpoint k d)"
  "mock_change env d (Remove_resource k) (case removeResource k d of None \<Rightarrow> d | Some d' \<Rightarrow> d')"
proof -
  show "mock_change env d (Confirm_endpoint i v) (confirm_endpoint i v d)"
    unfolding mock_change.simps
    by (intro conjI exI [of _ "confirmed_endpoint v"] exI [of _ "additional_endpoints v"])
      (simp_all add: confirm_endpoint_def confirmed_stored companions_stored map_place split: option.split)
  show "mock_change env d (Confirm_resource i v) (confirm_resource i v d)"
    by (simp add: confirm_resource_def map_place split: option.split)
  show "mock_change env d (Remove_endpoint k) (removeEndpoint k d)"
    by (simp add: removeEndpoint_def filter_place)
  show "mock_change env d (Remove_resource k) (case removeResource k d of None \<Rightarrow> d | Some d' \<Rightarrow> d')"
    using removeResource_place [of k d] by (auto simp: without_place_def model_in_use_def)
qed

lemma step_simulates:
  assumes inv: "mock_inv env start plugins"
  shows "mock_inv env start (mock_step env plugins e) \<and> mock_change env (getState plugins) e (getState (mock_step env plugins e))"
proof -
  let ?d = "getState plugins"
  have d: "plain_endpoints ?d" using inv by (simp add: mock_inv_def)
  note plain = endpoints_stay_plain [OF d] and save = saved_inv [OF inv] and changes = plain_changes [of env ?d]
  show ?thesis
  proof (cases e)
    case (Confirm_endpoint i v)
    with save [OF plain(1)] changes(1) show ?thesis by (simp add: mock_step_def Let_def del: mock_change.simps)
  next
    case (Confirm_resource i v)
    with save [OF plain(2)] changes(2) show ?thesis by (simp add: mock_step_def Let_def del: mock_change.simps)
  next
    case (Remove_endpoint i)
    with save [OF plain(3)] changes(3) show ?thesis by (simp add: mock_step_def Let_def del: mock_change.simps)
  next
    case (Remove_resource i)
    with inv save [OF plain(4)] changes(4) [of i] show ?thesis
      by (cases "removeResource i ?d") (simp_all add: mock_step_def Let_def del: mock_change.simps)
  next
    case (Generate n)
    with inv generate_sim [OF d, of env n] save [OF generate_plain [OF d]] show ?thesis
      by (cases "generateData env n ?d") (simp_all add: mock_step_def save_result_def Let_def)
  next
    case (Reset n)
    note again = save [OF plain(5)]
    have c: "plain_endpoints (cleared ?d)" by (rule plain(5))
    note twice = saved_inv [OF again(1) generate_plain [OF c]] and sim = generate_sim [OF c, of env n] cleared_sim [OF d]
    show ?thesis
    proof (cases "generateData env n (cleared ?d)")
      case (Inl err)
      with again sim Reset show ?thesis by (auto simp: mock_step_def save_result_def Let_def)
    next
      case (Inr d')
      with twice [OF Inr] again sim Reset show ?thesis by (auto simp: mock_step_def save_result_def Let_def)
    qed
  qed
qed

interpretation mocks: simulates "mock_step env" "mock_change env" getState "mock_inv env start" for env start
  by unfold_locales (simp_all add: step_simulates)

lemma objects_are_plain: "list_all is_object (md_endpoints (getState plugins)) \<Longrightarrow> plain_endpoints (getState plugins)"
proof -
  assume o': "list_all is_object (md_endpoints (getState plugins))"
  have "\<exists>fs. migrated e = JObj fs \<and> \<not> truthy (obj_get fs ''resource'')" if "is_object (migrated e)" for e
  proof (cases e)
    case (JObj gs)
    then show ?thesis using migrated_is_plain by simp
  qed (use that in \<open>auto simp: migrated_def jprop_def is_object_def split: if_splits\<close>)
  with o' show ?thesis by (auto simp: plain_endpoints_def getState_def Let_def list_all_iff split: if_splits)
qed

text \<open>
  C10. The designer of mocks keeps the plugin in step with what it shows. On a route that has the plugin, with stored endpoints
  that are objects, every sequence of its operations changes the models and the endpoints it shows as the editor does;
  as soon as something was saved each mock plugin serves one response for each endpoint shown, in order; and the other plugins of
  the route are as they were.
\<close>
theorem mocks_refine_editor:
  assumes "\<exists>p \<in> set plugins. is_mock p" and "list_all is_object (md_endpoints (getState plugins))"
    and "after = foldl (mock_step env) plugins es"
  shows "runs_to (mock_change env) (getState plugins) es (getState after) \<and>
    (after = plugins \<or> (\<forall>p \<in> set after. is_mock p \<longrightarrow> serves env (md_endpoints (getState after)) p)) \<and>
    list_all2 (\<lambda>p p'. if is_mock p then is_mock p' else p' = p) plugins after"
proof -
  have inv: "mock_inv env plugins plugins"
    using assms(1) objects_are_plain [OF assms(2)] by (auto simp: mock_inv_def intro: list.rel_refl_strong)
  show ?thesis
    using mocks.run_follows [OF inv] mocks.run_stays [OF inv] unfolding assms(3) mock_inv_def by blast
qed

definition plain_mocks :: mock_env where
  "plain_mocks = \<lparr>mk_faker = (\<lambda>s. if s = ''name.firstName'' then Some (JStr ''Ada'') else None),
     mk_parse = (\<lambda>s. if s = ''{}'' then Some (JObj []) else None), mk_stringify = (\<lambda>_. ''json''),
     mk_rank = (\<lambda>s. case s of [] \<Rightarrow> 0 | c # t \<Rightarrow> (case t of [] \<Rightarrow> 0 | d # _ \<Rightarrow> of_nat (of_char d)))\<rparr>"

definition fresh_route :: "js list" where
  "fresh_route = [JObj [(''plugin'', JStr ''cp:otoroshi.next.plugins.MockResponses''),
     (''config'', JObj [(''responses'', JArr [])])]]"

definition user_model :: js where
  "user_model = JObj [(''name'', JStr ''user''), (''schema'', JArr [JObj [(''field_name'', JStr ''first''),
     (''field_type'', JStr ''String''), (''value'', JStr ''name.firstName'')]])]"

lemma mocks_refine_editor_witness:
  "md_resources (getState (foldl (mock_step plain_mocks) fresh_route [Confirm_resource None user_model, Remove_endpoint 0])) =
     [user_model]"
proof -
  have start: "getState fresh_route = \<lparr>md_resources = [], md_endpoints = []\<rparr>"
    by (simp add: getState_def fresh_route_def is_mock_def jprop_def)
  have a: "\<exists>p \<in> set fresh_route. is_mock p" by (simp add: fresh_route_def is_mock_def jprop_def)
  have b: "list_all is_object (md_endpoints (getState fresh_route))" by (simp add: start)
  from mocks_refine_editor [OF a b refl, of plain_mocks "[Confirm_resource None user_model, Remove_endpoint 0]"] show ?thesis
    by (auto simp: start)
qed

section \<open>The generation ends, or does not\<close>

text \<open>The models a model uses; a rank of the models that decreases along the uses bounds the depth.\<close>

definition uses :: "js list \<Rightarrow> js \<Rightarrow> js \<Rightarrow> bool" where
  "uses resources r r' \<longleftrightarrow> (\<exists>item \<in> set (array_or_empty (jprop r ''schema'')).
     jprop item ''field_type'' = JStr ''Model'' \<and> find_model resources (jprop item ''value'') = Some r')"

lemma ebind_not_deep: "m \<noteq> Inl Too_deep \<Longrightarrow> (\<And>x. m = Inr x \<Longrightarrow> f x \<noteq> Inl Too_deep) \<Longrightarrow> ebind m f \<noteq> Inl Too_deep"
  by (cases m) auto

lemma emap_not_deep: "(\<And>x. x \<in> set xs \<Longrightarrow> f x \<noteq> Inl Too_deep) \<Longrightarrow> emap f xs \<noteq> Inl Too_deep"
proof (induction xs)
  case (Cons x xs)
  then have "f x \<noteq> Inl Too_deep" and "emap f xs \<noteq> Inl Too_deep" by simp_all
  then show ?case unfolding emap.simps by (intro ebind_not_deep) simp_all
qed simp

lemma raw_fields_not_deep: "raw_fields env r \<noteq> Inl Too_deep"
  by (auto simp: raw_fields_def Let_def split: js.splits option.splits)

lemma resource_ends:
  assumes "\<And>a b. uses resources a b \<Longrightarrow> rank b < (rank a :: nat)" and "rank r < n"
  shows "calculateResource env resources n r \<noteq> Inl Too_deep"
  using assms(2)
proof (induction n arbitrary: r)
  case (Suc n)
  have "(if jprop item ''field_type'' = JStr ''Model''
         then (case find_model resources (jprop item ''value'') of None \<Rightarrow> Inl Not_an_object
               | Some r' \<Rightarrow> calculateResource env resources n r')
         else Inr (fakeValue env item)) \<noteq> Inl Too_deep"
    if "item \<in> set (array_or_empty (jprop r ''schema''))" for item
  proof -
    have "calculateResource env resources n r' \<noteq> Inl Too_deep"
      if "jprop item ''field_type'' = JStr ''Model''" "find_model resources (jprop item ''value'') = Some r'" for r'
    proof (rule Suc.IH)
      have "uses resources r r'" using that \<open>item \<in> _\<close> by (auto simp: uses_def)
      with assms(1) Suc.prems show "rank r' < n" by (metis less_Suc_eq_le order_less_le_trans)
    qed
    then show ?thesis by (auto split: option.splits)
  qed
  then show ?case
    by (simp only: calculateResource.simps) (intro ebind_not_deep raw_fields_not_deep emap_not_deep; simp)
qed simp

text \<open>
  C27. The generation of the data ends, with the depth of the models as bound, when no model uses itself, directly or
  through others; what it then throws is only for a model that is missing or raw fields that are not JSON.
\<close>
theorem generation_ends:
  assumes "\<And>a b. uses (md_resources d) a b \<Longrightarrow> rank b < (rank a :: nat)" and "\<forall>r \<in> set (md_resources d). rank r < n"
  shows "generateData env n d \<noteq> Inl Too_deep"
proof -
  have "calculateResource env (md_resources d) n r \<noteq> Inl Too_deep" if "find_model (md_resources d) v = Some r" for v r
    using resource_ends [of "md_resources d" rank, OF assms(1)] assms(2) find_SomeD [OF that [unfolded find_model_def]] by blast
  moreover from this have "ebind (emap (\<lambda>i. ebind (calculateResource env (md_resources d) n r) (\<lambda>x. Inr (JObj (entries x)))) ks)
      (\<lambda>xs. Inr (JArr xs)) \<noteq> Inl Too_deep"
    if "find_model (md_resources d) v = Some r" for v r and ks :: "nat list"
    using that by (intro ebind_not_deep emap_not_deep) simp_all
  ultimately have faked: "generateFakerValues env (md_resources d) n e \<noteq> Inl Too_deep" for e
    by (auto simp: generateFakerValues_def Let_def split: option.splits)
  have "(if truthy (jprop e ''body'') then Inr (with_body (jprop e ''body'') e)
      else ebind (generateFakerValues env (md_resources d) n e) (\<lambda>v. Inr (with_body v e))) \<noteq> Inl Too_deep" for e
    using ebind_not_deep [OF faked [of e], of "\<lambda>v. Inr (with_body v e)"] by simp
  then show ?thesis unfolding generateData_def by (intro ebind_not_deep emap_not_deep) simp_all
qed

lemma generation_ends_witness:
  "generateData plain_mocks 1 \<lparr>md_resources = [user_model], md_endpoints = [JObj [(''model'', JStr ''user'')]]\<rparr> \<noteq> Inl Too_deep"
proof (rule generation_ends [where rank = "\<lambda>r. if r = user_model then 0 else 1"])
  fix a b assume u: "uses (md_resources \<lparr>md_resources = [user_model], md_endpoints = [JObj [(''model'', JStr ''user'')]]\<rparr>) a b"
  then have "b = user_model" by (auto simp: uses_def find_model_def split: if_splits)
  moreover have "a \<noteq> user_model" using u by (auto simp: uses_def user_model_def jprop_def array_or_empty_def)
  ultimately show "(if b = user_model then 0 else 1) < (if a = user_model then 0 else 1 :: nat)" by simp
qed simp

text \<open>A model that uses itself exhausts the stack, whatever its size.\<close>

lemma self_model_overflows:
  assumes "jprop r ''schema'' = JArr [item]" and "jprop item ''field_type'' = JStr ''Model''"
    and "find_model resources (jprop item ''value'') = Some r" and "raw_fields env r = Inr base"
  shows "calculateResource env resources n r = Inl Too_deep"
  by (induction n) (use assms in \<open>simp_all add: array_or_empty_def\<close>)

text \<open>A model that only other models use can be removed; the generation then throws.\<close>

definition order_model :: js where
  "order_model = JObj [(''name'', JStr ''order''), (''schema'', JArr [JObj [(''field_name'', JStr ''buyer''),
     (''field_type'', JStr ''Model''), (''value'', JStr ''user'')]])]"

lemma used_model_removed:
  defines "d \<equiv> \<lparr>md_resources = [user_model, order_model], md_endpoints = [JObj [(''model'', JStr ''order'')]]\<rparr>"
  shows "\<exists>d'. removeResource 0 d = Some d' \<and> generateData plain_mocks 5 d' = Inl Not_an_object"
  by (simp add: d_def removeResource_def user_model_def order_model_def jprop_def generateData_def generateFakerValues_def
      find_model_def eval_nat_numeral raw_fields_def plain_mocks_def array_or_empty_def)

text \<open>The model of an endpoint whose creation was discarded is added all the same.\<close>

lemma discarded_model_added:
  "jprop v ''create_model'' = JBool False \<Longrightarrow> truthy (jprop v ''resource'') \<Longrightarrow>
   jprop v ''resource'' \<in> set (md_resources (confirm_endpoint idx v d))"
  by (simp add: confirm_endpoint_def)

section \<open>The endpoint a click removes\<close>

text \<open>
  The endpoints are listed by path, and removed by their place in the list: it is the place the configuration has them at only when
  they are stored in that order.
\<close>
lemma removed_when_sorted:
  assumes "sorted (map (\<lambda>e. mk_rank env (template_text (jprop e ''path''))) (md_endpoints d))" and "i < length (md_endpoints d)"
  shows "mset (md_endpoints (removeEndpoint i d)) + {#listed_endpoints env d ! i#} = mset (md_endpoints d)"
proof -
  have gen: "mset (map snd (filter (\<lambda>(j, _). j \<noteq> n + k) (enumerate n xs))) + {#xs ! k#} = mset xs" if "k < length xs" for k n and xs :: "js list"
    using that
  proof (induction xs arbitrary: n k)
    case (Cons x xs)
    show ?case
    proof (cases k)
      case 0
      have "filter (\<lambda>(j, _). j \<noteq> n) (enumerate (Suc n) xs) = enumerate (Suc n) xs"
        by (auto simp: filter_id_conv in_set_enumerate_eq)
      with 0 show ?thesis by simp
    next
      case (Suc k')
      with Cons.IH [of k' "Suc n"] Cons.prems show ?thesis by simp
    qed
  qed simp
  have "listed_endpoints env d = md_endpoints d" using assms(1) by (simp add: listed_endpoints_def sort_key_id_if_sorted)
  with gen [OF assms(2), of 0] show ?thesis by (simp add: removeEndpoint_def)
qed

lemma other_endpoint_removed:
  defines "b \<equiv> JObj [(''path'', JStr ''/b'')]" and "a \<equiv> JObj [(''path'', JStr ''/a'')]"
  shows "listed_endpoints plain_mocks \<lparr>md_resources = [], md_endpoints = [b, a]\<rparr> ! 0 = a \<and>
    md_endpoints (removeEndpoint 0 \<lparr>md_resources = [], md_endpoints = [b, a]\<rparr>) = [a]"
  by (simp add: a_def b_def listed_endpoints_def plain_mocks_def jprop_def removeEndpoint_def)

end
