(* ===== verification/Graphql_Form.thy ===== *)
theory Graphql_Form
  imports Input_Lists Api_Client
begin

text \<open>
  The editor of the GraphQL schema of a route (\<open>pages/RouteDesigner/GraphQLForm.js\<close>): the types of the schema with their fields,
  the field being edited, and the text of the schema.

  \<^item> \<open>gql_env\<close> has the two conversions of the server (\<open>graphql_to_json\<close> and \<open>json_to_graphql_schema\<close>) and \<open>JSON.parse\<close>. A request
    is answered before the next event, and the delay before a typed text is converted is over.
  \<^item> \<open>gql_form\<close> is the state of \<open>GraphQLForm\<close>, that of its \<open>SideView\<close> (the position selected), the plugins of the route, and
    whether the panel is closed. The handlers of the buttons see the types of the last drawing: React 17 groups the changes a
    click makes.
  \<^item> A drawing that throws unmounts the page: \<open>gql_step\<close> is then \<open>Inl TypeError\<close>.
\<close>

section \<open>The types of a schema\<close>

record gql_env =
  graphqlSchemaToJson :: "js \<Rightarrow> js"
  jsonToGraphqlSchema :: "js \<Rightarrow> js list \<Rightarrow> js"
  gq_parse :: "string \<Rightarrow> js option"

definition parsed_value :: "gql_env \<Rightarrow> js \<Rightarrow> js" where
  "parsed_value env v =
     (if is_array v then v else case gq_parse env (template_text v) of Some x \<Rightarrow> x | None \<Rightarrow> v)"

definition put_prop :: "string \<Rightarrow> js \<Rightarrow> js \<Rightarrow> js" where
  "put_prop k v x = JObj (AList.update k v (entries x))"

definition read_arguments :: "gql_env \<Rightarrow> js \<Rightarrow> js" where
  "read_arguments env directive =
     JObj (foldl (\<lambda>acc a. AList.update (template_text (jprop a ''name'')) (parsed_value env (jprop a ''value'')) acc) []
       (array_or_empty (jprop directive ''arguments'')))"

definition read_directive :: "gql_env \<Rightarrow> js \<Rightarrow> js" where
  "read_directive env d = put_prop ''arguments'' (read_arguments env d) d"

definition read_field :: "gql_env \<Rightarrow> js \<Rightarrow> js" where
  "read_field env f =
     put_prop ''directives'' (JArr (map (read_directive env) (array_or_empty (jprop f ''directives'')))) f"

definition read_type :: "gql_env \<Rightarrow> js \<Rightarrow> js" where
  "read_type env t = put_prop ''fields'' (JArr (map (read_field env) (array_or_empty (jprop t ''fields'')))) t"

definition sent_arguments :: "js \<Rightarrow> js" where
  "sent_arguments d = JArr (map (\<lambda>e. JObj [e]) (own_entries (entries (jprop d ''arguments''))))"

definition sent_directive :: "js \<Rightarrow> js" where
  "sent_directive d = put_prop ''arguments'' (sent_arguments d) d"

definition sent_field :: "js \<Rightarrow> js" where
  "sent_field f = put_prop ''directives'' (JArr (map sent_directive (array_or_empty (jprop f ''directives'')))) f"

definition sent_type :: "js \<Rightarrow> js" where
  "sent_type t = put_prop ''fields'' (JArr (map sent_field (array_or_empty (jprop t ''fields'')))) t"

definition transformTypes :: "js list \<Rightarrow> js list" where
  "transformTypes types = map sent_type types"

section \<open>The route\<close>

record gql_form =
  gf_plugins :: "js list"
  gf_types :: "js list"
  gf_error :: js
  gf_schemaView :: bool
  gf_tmpSchema :: js
  gf_selected :: "(int \<times> int) option"
  gf_hidden :: bool

definition is_graphql :: "js \<Rightarrow> bool" where
  "is_graphql p \<longleftrightarrow> jprop p ''plugin'' = JStr ''cp:otoroshi.next.plugins.GraphQLBackend''"

text \<open>The schema the plugin of the route has; without the plugin the read throws.\<close>

definition plugin_schema :: "js list \<Rightarrow> js res" where
  "plugin_schema plugins =
     (case List.find is_graphql plugins of Some p \<Rightarrow> fld (jprop p ''config'') ''schema'' | None \<Rightarrow> Inl TypeError)"

definition save_schema :: "js \<Rightarrow> js list \<Rightarrow> js list" where
  "save_schema schema plugins =
     map (\<lambda>p. if is_graphql p then put_prop ''config'' (put_prop ''schema'' schema (jprop p ''config'')) p else p) plugins"

text \<open>The conversion of a text, and whether what waits for it goes on.\<close>

definition schemaToJson :: "gql_env \<Rightarrow> js \<Rightarrow> gql_form \<Rightarrow> gql_form \<times> bool" where
  "schemaToJson env schema s =
     (let answer = graphqlSchemaToJson env schema
      in if truthy (jprop answer ''error'') then (s\<lparr>gf_error := jprop answer ''error''\<rparr>, False)
         else (s\<lparr>gf_error := JUndef, gf_types := map (read_type env) (array_or_empty (jprop answer ''types''))\<rparr>, True))"

definition mount_gql :: "gql_env \<Rightarrow> js list \<Rightarrow> gql_form res" where
  "mount_gql env plugins =
     rbind (plugin_schema plugins) (\<lambda>schema.
       Inr (fst (schemaToJson env schema \<lparr>gf_plugins = plugins, gf_types = [], gf_error = JUndef, gf_schemaView = False,
         gf_tmpSchema = schema, gf_selected = None, gf_hidden = False\<rparr>)))"

definition savePlugin :: "gql_env \<Rightarrow> gql_form \<Rightarrow> gql_form res" where
  "savePlugin env s =
     rbind (plugin_schema (gf_plugins s)) (\<lambda>schema.
       let answer = jsonToGraphqlSchema env schema (transformTypes (gf_types s))
       in Inr (if truthy (jprop answer ''error'') then s\<lparr>gf_error := jprop answer ''error''\<rparr>
               else s\<lparr>gf_error := JUndef, gf_plugins := save_schema (jprop answer ''schema'') (gf_plugins s)\<rparr>))"

definition hide_form :: "gql_env \<Rightarrow> gql_form \<Rightarrow> gql_form res" where
  "hide_form env s = rbind (savePlugin env s) (\<lambda>t. Inr (t\<lparr>gf_hidden := True\<rparr>))"

definition onSchemaChanges :: "gql_env \<Rightarrow> js \<Rightarrow> gql_form \<Rightarrow> gql_form" where
  "onSchemaChanges env e s =
     (case schemaToJson env e s of
        (t, True) \<Rightarrow> t\<lparr>gf_plugins := save_schema e (gf_plugins t), gf_tmpSchema := e, gf_error := JUndef\<rparr>
      | (t, False) \<Rightarrow> t)"

text \<open>Leaving the form unmounts \<open>SideView\<close>: the selection is forgotten.\<close>

definition toggleSchema :: "gql_env \<Rightarrow> bool \<Rightarrow> gql_form \<Rightarrow> gql_form res" where
  "toggleSchema env v s =
     (if v then rbind (plugin_schema (gf_plugins s)) (\<lambda>schema.
        Inr (s\<lparr>gf_schemaView := True, gf_tmpSchema := schema, gf_selected := None\<rparr>))
      else case schemaToJson env (gf_tmpSchema s) s of
             (t, True) \<Rightarrow> Inr (t\<lparr>gf_schemaView := False\<rparr>) | (t, False) \<Rightarrow> Inr t)"

section \<open>The form\<close>

definition fields_of :: "js \<Rightarrow> js list" where
  "fields_of t = array_or_empty (jprop t ''fields'')"

definition put_fields :: "js list \<Rightarrow> js \<Rightarrow> js" where
  "put_fields fs t = put_prop ''fields'' (JArr fs) t"

text \<open>The selection, from the types of the last drawing; it throws on a type that is not there.\<close>

definition onSelectField :: "js list \<Rightarrow> int \<Rightarrow> int \<Rightarrow> gql_form \<Rightarrow> gql_form res" where
  "onSelectField types i j s =
     (case at_int types i of None \<Rightarrow> Inl TypeError | Some t \<Rightarrow> Inr (s\<lparr>gf_selected := Some (i, j)\<rparr>))"

definition removeField :: "nat \<Rightarrow> nat \<Rightarrow> gql_form \<Rightarrow> gql_form" where
  "removeField i j s = s\<lparr>gf_types := map_at i (\<lambda>t. put_fields (drop_at j (fields_of t)) t) (gf_types s)\<rparr>"

definition removeType :: "nat \<Rightarrow> gql_form \<Rightarrow> gql_form" where
  "removeType i s = s\<lparr>gf_types := drop_at i (gf_types s)\<rparr>"

definition new_field :: "string \<Rightarrow> js" where
  "new_field name = JObj [(''name'', JStr name), (''fieldType'', JObj [(''type'', JStr ''String''), (''isList'', JBool False)]),
     (''arguments'', JArr []), (''directives'', JArr [])]"

text \<open>
  The two creations select with the types before the change. What a handler throws is reported by the browser, and what it
  changed before stays.
\<close>

definition unless_thrown :: "gql_form \<Rightarrow> gql_form res \<Rightarrow> gql_form" where
  "unless_thrown s r = (case r of Inr t \<Rightarrow> t | Inl e \<Rightarrow> s)"

definition createField :: "string \<Rightarrow> nat \<Rightarrow> gql_form \<Rightarrow> gql_form" where
  "createField name i s =
     (let types = gf_types s; t = s\<lparr>gf_types := map_at i (\<lambda>t. put_fields (fields_of t @ [new_field name]) t) types\<rparr>
      in case at_int types (int i) of
           None \<Rightarrow> t
         | Some x \<Rightarrow> unless_thrown t (onSelectField types (int i) (int (length (fields_of x)) - 1) t))"

definition createType :: "string \<Rightarrow> gql_form \<Rightarrow> gql_form" where
  "createType name s =
     (let types = gf_types s;
          t = s\<lparr>gf_types := types @ [JObj [(''name'', JStr name), (''directives'', JArr []), (''fields'', JArr [new_field ''foo''])]]\<rparr>
      in unless_thrown t (onSelectField types (int (length types) - 1) 0 t))"

definition set_field :: "int \<Rightarrow> int \<Rightarrow> js \<Rightarrow> js list \<Rightarrow> js list" where
  "set_field i j v types =
     map (\<lambda>(k, t). if int k = i
        then put_fields (map (\<lambda>(l, f). if int l = j then v else f) (enumerate 0 (fields_of t))) t else t) (enumerate 0 types)"

definition edit_field :: "js \<Rightarrow> gql_form \<Rightarrow> gql_form" where
  "edit_field v s =
     (case gf_selected s of None \<Rightarrow> s | Some (i, j) \<Rightarrow> s\<lparr>gf_types := set_field i j v (gf_types s)\<rparr>)"

text \<open>The field in the panel: \<open>undefined\<close> shows nothing, a type that is not there throws.\<close>

definition panel :: "gql_form \<Rightarrow> js res" where
  "panel s =
     (case gf_selected s of
        None \<Rightarrow> Inr JUndef
      | Some (i, j) \<Rightarrow> (case at_int (gf_types s) i of
            None \<Rightarrow> Inl TypeError
          | Some t \<Rightarrow> Inr (case at_int (fields_of t) j of None \<Rightarrow> JUndef | Some f \<Rightarrow> f)))"

definition panel_types :: "js list \<Rightarrow> int \<Rightarrow> js list" where
  "panel_types types i =
     (case at_int types i of
        None \<Rightarrow> []
      | Some s \<Rightarrow> map (\<lambda>t. jprop t ''name'')
          (filter (\<lambda>t. jprop t ''name'' \<noteq> JStr ''Query'' \<and> jprop t ''name'' \<noteq> jprop s ''name'') types))"

definition field_type_options :: "js list \<Rightarrow> int \<Rightarrow> js list" where
  "field_type_options types i = map JStr [''Int'', ''String'', ''Boolean'', ''Float''] @ panel_types types i"

datatype gql_event =
    Toggle_schema bool
  | Type_schema js
  | Hide_form
  | New_type string
  | New_field string nat
  | Select_field nat nat
  | Remove_field bool nat nat
  | Remove_type bool nat
  | Edit_field js

fun gql_handle :: "gql_env \<Rightarrow> gql_form \<Rightarrow> gql_event \<Rightarrow> gql_form" where
  "gql_handle env s (Toggle_schema v) = unless_thrown s (toggleSchema env v s)"
| "gql_handle env s (Type_schema e) = onSchemaChanges env e s"
| "gql_handle env s Hide_form = unless_thrown s (hide_form env s)"
| "gql_handle env s (New_type name) = createType name s"
| "gql_handle env s (New_field name i) = createField name i s"
| "gql_handle env s (Select_field i j) = unless_thrown s (onSelectField (gf_types s) (int i) (int j) s)"
| "gql_handle env s (Remove_field ok i j) = (if ok then removeField i j s else s)"
| "gql_handle env s (Remove_type ok i) = (if ok then removeType i s else s)"
| "gql_handle env s (Edit_field v) = edit_field v s"

text \<open>An event, and the drawing of the state it leaves.\<close>

definition drawn_form :: "gql_form \<Rightarrow> gql_form res" where
  "drawn_form s = (if gf_schemaView s \<or> gf_hidden s then Inr s else rbind (panel s) (\<lambda>f. Inr s))"

definition gql_step :: "gql_env \<Rightarrow> gql_form \<Rightarrow> gql_event \<Rightarrow> gql_form res" where
  "gql_step env s e = drawn_form (gql_handle env s e)"

text \<open>
  The button that changes the view (\<open>PillButton\<close>) tells its parent of \<open>True\<close> for its left text, and its cursor is on the left
  text when its right is enabled.
\<close>

definition pill_click :: "string \<Rightarrow> string \<Rightarrow> bool" where
  "pill_click leftText clicked = (clicked = leftText)"

definition pill_cursor :: "bool \<Rightarrow> string \<Rightarrow> string \<Rightarrow> string" where
  "pill_cursor rightEnabled leftText rightText = (if rightEnabled then leftText else rightText)"

definition gql_header :: "bool \<Rightarrow> string" where
  "gql_header schemaView = pill_cursor schemaView ''Form'' ''Schema''"

definition gql_header_click :: "string \<Rightarrow> gql_event" where
  "gql_header_click text = Toggle_schema (pill_click ''Form'' text)"

section \<open>The button of a creation\<close>

record creation_button =
  cb_open :: bool
  cb_fieldname :: string
  cb_typed :: string

definition open_creation :: "creation_button \<Rightarrow> creation_button" where
  "open_creation b = b\<lparr>cb_open := True, cb_typed := []\<rparr>"

definition type_creation :: "string \<Rightarrow> creation_button \<Rightarrow> creation_button" where
  "type_creation s b = b\<lparr>cb_fieldname := s, cb_typed := s\<rparr>"

definition cancel_creation :: "creation_button \<Rightarrow> creation_button" where
  "cancel_creation b = b\<lparr>cb_open := False\<rparr>"

definition confirm_creation :: "creation_button \<Rightarrow> creation_button \<times> string option" where
  "confirm_creation b =
     (if length (cb_fieldname b) \<le> 0 then (b, None) else (b\<lparr>cb_open := False\<rparr>, Some (cb_fieldname b)))"

section \<open>The arguments of a directive\<close>

definition DIRECTIVES :: "string list" where
  "DIRECTIVES = [''rest'', ''wasm'', ''graphql'', ''json'', ''soap'', ''mock'', ''permission'', ''allpermissions'',
     ''onePermissionsOf'', ''authorize'', ''otoroshi (soon)'']"

definition directive_flows :: "(string \<times> string list) list" where
  "directive_flows =
     [(''rest'', [''url'', ''method'', ''headers'', ''timeout'', ''paginate'']),
      (''wasm'', [''wasm_raw_source'', ''wasm_function_name'']),
      (''graphql'', [''url'', ''query'', ''headers'', ''timeout'', ''method'', ''response_path_arg'', ''response_filter_arg'']),
      (''json'', [''path'']),
      (''mock'', [''url'']),
      (''permission'', [''value'', ''unauthorized_value'']),
      (''allpermissions'', [''values'', ''unauthorized_value'']),
      (''onePermissionsOf'', [''values'', ''unauthorized_value'']),
      (''authorize'', [''path'', ''value'', ''unauthorized_value'']),
      (''soap'', [''url'', ''envelope'', ''action'', ''preserve_query'', ''charset'', ''jq_request_filter'', ''jq_response_filter'']),
      (''undefined'', [])]"

definition directive_flow :: "js \<Rightarrow> string list option" where
  "directive_flow name = map_of directive_flows (template_text name)"

definition argument_types :: "(string \<times> string) list" where
  "argument_types =
     [(''url'', ''string''), (''method'', ''dots''), (''headers'', ''object''), (''timeout'', ''number''),
      (''paginate'', ''bool''), (''query'', ''code''), (''response_path_arg'', ''string''),
      (''response_filter_arg'', ''string''), (''path'', ''string''), (''value'', ''string''), (''values'', ''array''),
      (''unauthorized_value'', ''string''), (''envelope'', ''string''), (''action'', ''string''),
      (''preserve_query'', ''bool''), (''charset'', ''string''), (''jq_request_filter'', ''string''),
      (''jq_response_filter'', ''string''), (''wasm_raw_source'', ''string''), (''wasm_function_name'', ''string'')]"


section \<open>The types read and sent\<close>

lemma entries_put_prop [simp]: "entries (put_prop k v x) = AList.update k v (entries x)"
  by (simp add: put_prop_def)

lemma jprop_put_prop [simp]: "jprop (put_prop k v x) n = (if k = n then v else obj_get (entries x) n)"
  by (simp add: put_prop_def)

lemma update_twice [simp]: "AList.update k v (AList.update k w o') = AList.update k v o'"
  by (induction o') auto

lemma put_prop_twice [simp]: "put_prop k v (put_prop k w x) = put_prop k v x"
  by (simp add: put_prop_def)

lemma array_or_empty_JArr [simp]: "array_or_empty (JArr xs) = xs"
  by (simp add: array_or_empty_def)

lemma fields_with_fields [simp]: "fields_of (put_fields fs t) = fs"
  by (simp add: fields_of_def put_fields_def)

lemma objects_of_entries:
  "distinct (map f xs) \<Longrightarrow> \<forall>x \<in> set xs. \<not> obj_has acc (f x) \<Longrightarrow>
     foldl (\<lambda>acc x. AList.update (f x) (g x) acc) acc xs = acc @ map (\<lambda>x. (f x, g x)) xs"
proof (induction xs arbitrary: acc)
  case (Cons x xs)
  from Cons.prems have "\<forall>y \<in> set xs. \<not> obj_has (acc @ [(f x, g x)]) (f y)"
    by (auto simp: obj_has_def) (metis image_eqI)
  with Cons show ?case by (simp add: update_new obj_has_def)
qed simp

text \<open>The names of the arguments of a directive, and what the server is sent back for a schema that was not edited.\<close>

definition argument_name :: "js \<Rightarrow> string" where
  "argument_name a = template_text (jprop a ''name'')"

definition wire_directive :: "gql_env \<Rightarrow> js \<Rightarrow> js" where
  "wire_directive env d =
     put_prop ''arguments'' (JArr (map (\<lambda>a. JObj [(argument_name a, parsed_value env (jprop a ''value''))])
       (array_or_empty (jprop d ''arguments'')))) d"

definition wire_field :: "gql_env \<Rightarrow> js \<Rightarrow> js" where
  "wire_field env f = put_prop ''directives'' (JArr (map (wire_directive env) (array_or_empty (jprop f ''directives'')))) f"

definition wire_type :: "gql_env \<Rightarrow> js \<Rightarrow> js" where
  "wire_type env t = put_fields (map (wire_field env) (fields_of t)) t"

definition names_ok :: "js \<Rightarrow> bool" where
  "names_ok d \<longleftrightarrow>
     (let ns = map argument_name (array_or_empty (jprop d ''arguments'')) in distinct ns \<and> list_all (\<lambda>n. \<not> index_key n) ns)"

definition schema_ok :: "js list \<Rightarrow> bool" where
  "schema_ok ts \<longleftrightarrow> list_all (\<lambda>t. list_all (\<lambda>f. list_all names_ok (array_or_empty (jprop f ''directives''))) (fields_of t)) ts"

lemma own_entries_plain: "\<forall>e \<in> set o'. \<not> index_key (fst e) \<Longrightarrow> own_entries o' = o'"
  by (auto simp: own_entries_def filter_empty_conv cong: filter_cong)

lemma directive_sent_back: "names_ok d \<Longrightarrow> sent_directive (read_directive env d) = wire_directive env d"
  by (auto simp: sent_directive_def read_directive_def sent_arguments_def read_arguments_def wire_directive_def names_ok_def
      objects_of_entries argument_name_def [abs_def] Let_def list_all_iff own_entries_plain o_def)

lemma field_sent_back:
  "list_all names_ok (array_or_empty (jprop f ''directives'')) \<Longrightarrow> sent_field (read_field env f) = wire_field env f"
  by (simp add: sent_field_def read_field_def wire_field_def list_all_iff directive_sent_back cong: map_cong)

lemma type_sent_back:
  "list_all (\<lambda>f. list_all names_ok (array_or_empty (jprop f ''directives''))) (fields_of t) \<Longrightarrow>
     sent_type (read_type env t) = wire_type env t"
  by (simp add: sent_type_def read_type_def wire_type_def put_fields_def fields_of_def list_all_iff
      field_sent_back cong: map_cong)

text \<open>
  C23. The round trip of a schema: the types the server gave, loaded into the form and sent back, are the types it gave in another
  writing: each argument of a directive becomes an object with its name and its parsed value, in order, and a type
  without fields, a field without directives or a directive without arguments gets an empty list. This is when no directive has the
  same argument twice, nor one whose name looks like the index of an array.
\<close>
theorem schema_sent_back:
  assumes "schema_ok ts"
  shows "transformTypes (map (read_type env) ts) = map (wire_type env) ts"
  using assms by (simp add: transformTypes_def schema_ok_def list_all_iff type_sent_back)

section \<open>The drawing\<close>

text \<open>A selection is of a type that is there, and there is none while the schema is shown.\<close>

definition selection_ok :: "gql_form \<Rightarrow> bool" where
  "selection_ok s \<longleftrightarrow> (case gf_selected s of
       None \<Rightarrow> True
     | Some (i, j) \<Rightarrow> \<not> gf_schemaView s \<and> at_int (gf_types s) i \<noteq> None)"

lemma panel_throws: "panel s = Inl e \<longleftrightarrow> e = TypeError \<and> (\<exists>i j. gf_selected s = Some (i, j) \<and> at_int (gf_types s) i = None)"
  by (auto simp: panel_def split: option.splits)

lemma gql_drawing_throws:
  "drawn_form s = Inl e \<longleftrightarrow> e = TypeError \<and> \<not> gf_schemaView s \<and> \<not> gf_hidden s \<and>
     (\<exists>i j. gf_selected s = Some (i, j) \<and> at_int (gf_types s) i = None)"
  by (auto simp: drawn_form_def rbind_eq_Inl panel_throws)

lemma selection_draws: "selection_ok s \<Longrightarrow> drawn_form s = Inr s"
  by (auto simp: drawn_form_def panel_def selection_ok_def split: option.splits)

lemma at_int_longer: "at_int xs k \<noteq> None \<Longrightarrow> length xs \<le> length ys \<Longrightarrow> at_int ys k \<noteq> None"
  by (auto simp: at_int_None)

lemma length_set_field [simp]: "length (set_field i j v ts) = length ts"
  by (simp add: set_field_def)

lemma onSelectField_Inr:
  "onSelectField types i j s = Inr t \<longleftrightarrow> at_int types i \<noteq> None \<and> t = s\<lparr>gf_selected := Some (i, j)\<rparr>"
  by (auto simp: onSelectField_def split: option.splits)

lemma select_keeps:
  assumes "selection_ok s" and "\<not> gf_schemaView s" and "length types \<le> length (gf_types s)"
  shows "selection_ok (unless_thrown s (onSelectField types i j s))"
  using assms at_int_longer [of types i "gf_types s"]
  by (auto simp: onSelectField_def unless_thrown_def selection_ok_def split: option.splits)

lemma more_types_keep:
  "selection_ok s \<Longrightarrow> length (gf_types s) \<le> length ts \<Longrightarrow> selection_ok (s\<lparr>gf_types := ts\<rparr>)"
  using at_int_longer [of "gf_types s" _ ts] by (auto simp: selection_ok_def split: option.splits)

lemma save_keeps: "selection_ok s \<Longrightarrow> hide_form env s = Inr t \<Longrightarrow> selection_ok t"
  by (auto simp: hide_form_def savePlugin_def Let_def selection_ok_def split: if_splits option.splits)

definition types_after :: "gql_env \<Rightarrow> js \<Rightarrow> js list \<Rightarrow> js list" where
  "types_after env schema ts =
     (let answer = graphqlSchemaToJson env schema
      in if truthy (jprop answer ''error'') then ts else map (read_type env) (array_or_empty (jprop answer ''types'')))"

lemma schemaToJson_types [simp]: "gf_types (fst (schemaToJson env schema s)) = types_after env schema (gf_types s)"
  by (simp add: schemaToJson_def types_after_def Let_def)

lemma schemaToJson_rest:
  "gf_selected (fst (schemaToJson env schema s)) = gf_selected s"
  "gf_hidden (fst (schemaToJson env schema s)) = gf_hidden s"
  "gf_schemaView (fst (schemaToJson env schema s)) = gf_schemaView s"
  "gf_plugins (fst (schemaToJson env schema s)) = gf_plugins s"
  by (simp_all add: schemaToJson_def Let_def)

lemma typed_keeps: "selection_ok s \<Longrightarrow> gf_schemaView s \<Longrightarrow> selection_ok (onSchemaChanges env e s)"
  by (auto simp: onSchemaChanges_def schemaToJson_def selection_ok_def Let_def split: option.splits prod.splits if_splits)

text \<open>The events a user can make: those of the form while it is shown, those of the text while it is.\<close>

fun offered :: "gql_form \<Rightarrow> gql_event \<Rightarrow> bool" where
  "offered s (Toggle_schema v) = True"
| "offered s Hide_form = True"
| "offered s (Type_schema e) = gf_schemaView s"
| "offered s (Remove_type ok i) = (\<not> gf_schemaView s \<and> i < length (gf_types s))"
| "offered s e = (\<not> gf_schemaView s)"

text \<open>The events after which the panel reads a type that is not there.\<close>

fun breaks :: "gql_env \<Rightarrow> gql_form \<Rightarrow> gql_event \<Rightarrow> bool" where
  "breaks env s (Remove_type ok i) = (ok \<and> (\<exists>j. gf_selected s = Some (int (length (gf_types s)) - 1, j)))"
| "breaks env s (Toggle_schema v) =
     (\<not> v \<and> (\<exists>i j. gf_selected s = Some (i, j) \<and> int (length (types_after env (gf_tmpSchema s) (gf_types s))) \<le> i))"
| "breaks env s e = False"

lemma toggle_off_throws:
  assumes "selection_ok s" and "\<not> gf_hidden s"
  shows "drawn_form (unless_thrown s (toggleSchema env False s)) = Inl TypeError \<longleftrightarrow> breaks env s (Toggle_schema False)"
proof -
  obtain t ok where t: "schemaToJson env (gf_tmpSchema s) s = (t, ok)" by fastforce
  have rest: "gf_types t = types_after env (gf_tmpSchema s) (gf_types s)" "gf_selected t = gf_selected s"
      "gf_hidden t = gf_hidden s" "gf_schemaView t = gf_schemaView s"
    using t schemaToJson_types [of env "gf_tmpSchema s" s] schemaToJson_rest [of env "gf_tmpSchema s" s] by auto
  show ?thesis
    using assms rest
    by (cases ok; cases "gf_selected s")
      (auto simp: t toggleSchema_def unless_thrown_def gql_drawing_throws selection_ok_def at_int_None)
qed

lemma toggle_on_draws:
  assumes "selection_ok s"
  shows "drawn_form (unless_thrown s (toggleSchema env True s)) \<noteq> Inl e"
  using assms
  by (cases "plugin_schema (gf_plugins s)") (auto simp: toggleSchema_def unless_thrown_def gql_drawing_throws selection_ok_def)

lemma remove_type_throws:
  assumes "selection_ok s" and "\<not> gf_schemaView s" and "\<not> gf_hidden s" and "i < length (gf_types s)"
  shows "drawn_form (removeType i s) = Inl TypeError \<longleftrightarrow> (\<exists>j. gf_selected s = Some (int (length (gf_types s)) - 1, j))"
  using assms
  by (cases "gf_selected s") (auto simp: removeType_def gql_drawing_throws selection_ok_def at_int_None length_drop_at)

lemma create_type_keeps: "selection_ok s \<Longrightarrow> \<not> gf_schemaView s \<Longrightarrow> selection_ok (createType name s)"
  by (auto simp: createType_def Let_def intro!: select_keeps more_types_keep)

lemma create_field_keeps: "selection_ok s \<Longrightarrow> \<not> gf_schemaView s \<Longrightarrow> selection_ok (createField name i s)"
  by (auto simp: createField_def Let_def split: option.splits intro!: select_keeps more_types_keep)

lemma edit_field_keeps: "selection_ok s \<Longrightarrow> selection_ok (edit_field v s)"
  by (auto simp: edit_field_def split: option.splits intro!: more_types_keep)

lemma remove_field_keeps: "selection_ok s \<Longrightarrow> selection_ok (removeField i j s)"
  by (auto simp: removeField_def intro!: more_types_keep)

text \<open>
  C13. The form fails to draw, and the page with it, after exactly two of the events a user can make: the removal of any
  type while the field selected is one of the last type, and a click on the button of the view that loads a schema with too
  few types for the selection.
\<close>
theorem form_breaks_iff:
  assumes "selection_ok s" and "\<not> gf_hidden s" and "offered s e"
  shows "gql_step env s e = Inl TypeError \<longleftrightarrow> breaks env s e"
proof (cases e)
  case (Toggle_schema v)
  with assms show ?thesis
    using toggle_on_draws [of s env] toggle_off_throws [of s env] by (cases v) (auto simp: gql_step_def)
next
  case Hide_form
  with assms show ?thesis
    by (cases "hide_form env s") (auto simp: gql_step_def unless_thrown_def selection_draws save_keeps)
qed (use assms in \<open>auto simp: gql_step_def remove_type_throws selection_draws typed_keeps create_type_keeps create_field_keeps
    edit_field_keeps remove_field_keeps select_keeps\<close>)

lemma toggle_keeps:
  assumes "selection_ok s" and "\<not> gf_hidden s" and "\<not> breaks env s (Toggle_schema v)"
  shows "selection_ok (gql_handle env s (Toggle_schema v))"
proof (cases v)
  case True
  with assms show ?thesis
    by (cases "plugin_schema (gf_plugins s)") (auto simp: toggleSchema_def unless_thrown_def selection_ok_def)
next
  case False
  obtain t ok where t: "schemaToJson env (gf_tmpSchema s) s = (t, ok)" by fastforce
  have "gf_types t = types_after env (gf_tmpSchema s) (gf_types s)" "gf_selected t = gf_selected s" "gf_schemaView t = gf_schemaView s"
    using t schemaToJson_types [of env "gf_tmpSchema s" s] schemaToJson_rest [of env "gf_tmpSchema s" s] by auto
  with assms False show ?thesis
    by (cases ok) (auto simp: t toggleSchema_def unless_thrown_def selection_ok_def at_int_None split: option.splits)
qed

lemma remove_type_keeps:
  assumes "selection_ok s" and "\<not> breaks env s (Remove_type True i)"
  shows "selection_ok (removeType i s)"
  using assms by (auto simp: removeType_def selection_ok_def at_int_None length_drop_at split: option.splits)

text \<open>Between these events the selection stays one of a type that is there.\<close>

lemma form_step_keeps:
  assumes "selection_ok s" and "\<not> gf_hidden s" and "offered s e" and "\<not> breaks env s e"
  shows "selection_ok (gql_handle env s e)"
proof (cases e)
  case (Toggle_schema v)
  with assms toggle_keeps show ?thesis by blast
next
  case Hide_form
  with assms(1) show ?thesis by (cases "hide_form env s") (auto simp: unless_thrown_def save_keeps)
next
  case (Remove_type ok i)
  with assms remove_type_keeps [of s env i] show ?thesis by (cases ok) auto
qed (use assms in \<open>auto simp: typed_keeps create_type_keeps create_field_keeps edit_field_keeps remove_field_keeps select_keeps\<close>)

section \<open>The field in the panel\<close>

definition field_at :: "js list \<Rightarrow> int \<Rightarrow> int \<Rightarrow> js option" where
  "field_at types i j = (case at_int types i of None \<Rightarrow> None | Some t \<Rightarrow> at_int (fields_of t) j)"

lemma edited_at:
  "at_int (map (\<lambda>(l, f). if int l = j then v else f) (enumerate 0 fs)) l =
     map_option (\<lambda>f. if l = j then v else f) (at_int fs l)"
  by (auto simp: at_int_def nth_enumerate_eq)

lemma set_field_at:
  "at_int (set_field i j v ts) k = map_option (\<lambda>t. if k = i
     then put_fields (map (\<lambda>(l, f). if int l = j then v else f) (enumerate 0 (fields_of t))) t else t) (at_int ts k)"
  by (auto simp: set_field_def at_int_def nth_enumerate_eq)

lemma field_at_set_field:
  "field_at (set_field i j v ts) k l =
     (if k = i \<and> l = j \<and> field_at ts i j \<noteq> None then Some v else field_at ts k l)"
proof (cases "at_int ts k")
  case (Some t)
  then show ?thesis by (cases "at_int (fields_of t) l") (auto simp: field_at_def set_field_at edited_at)
qed (auto simp: field_at_def set_field_at)

lemma panel_field: "panel s = Inr f \<Longrightarrow> gf_selected s = Some (i, j) \<Longrightarrow>
    f = (case field_at (gf_types s) i j of None \<Rightarrow> JUndef | Some x \<Rightarrow> x)"
  by (auto simp: panel_def field_at_def split: option.splits)

text \<open>
  An edit in the panel is an edit of the field it shows: the panel then shows the new field, the other fields of the other
  types and of the same one are as they were, and so are the number of the types and the selection.
\<close>
lemma panel_edits_its_field:
  assumes "gf_selected s = Some (i, j)" and "field_at (gf_types s) i j \<noteq> None"
  shows "panel (edit_field v s) = Inr v \<and> gf_selected (edit_field v s) = Some (i, j) \<and>
     length (gf_types (edit_field v s)) = length (gf_types s) \<and>
     (\<forall>k l. (k, l) \<noteq> (i, j) \<longrightarrow> field_at (gf_types (edit_field v s)) k l = field_at (gf_types s) k l)"
proof -
  have types: "gf_types (edit_field v s) = set_field i j v (gf_types s)" "gf_selected (edit_field v s) = Some (i, j)"
    using assms(1) by (simp_all add: edit_field_def)
  have "field_at (gf_types (edit_field v s)) i j = Some v"
    using assms(2) by (simp add: types field_at_set_field)
  then have "panel (edit_field v s) = Inr v"
    by (auto simp: panel_def types field_at_def split: option.splits)
  then show ?thesis by (auto simp: types field_at_set_field)
qed

text \<open>A field just created is not the one in the panel: the one before it is, or none.\<close>

lemma new_field_not_shown:
  assumes "i < length (gf_types s)"
  shows "panel (createField name i s) =
     Inr (if fields_of (gf_types s ! i) = [] then JUndef else last (fields_of (gf_types s ! i)))"
proof -
  have i: "at_int (gf_types s) (int i) = Some (gf_types s ! i)" using assms by (simp add: at_int_def)
  show ?thesis
    using assms
    by (cases "fields_of (gf_types s ! i)" rule: rev_cases)
      (auto simp: createField_def i Let_def unless_thrown_def onSelectField_def panel_def at_int_def nth_map_at nth_append)
qed

text \<open>A type just created is not either; the first one of a schema is created, and nothing is selected.\<close>

lemma new_type_not_shown:
  "gf_selected (createType name s) =
     (if gf_types s = [] then gf_selected s else Some (int (length (gf_types s)) - 1, 0))"
  by (simp add: createType_def Let_def unless_thrown_def onSelectField_def at_int_def)

section \<open>Saving\<close>

lemma find_map_keep: "(\<And>x. P (f x) = P x) \<Longrightarrow> List.find P (map f xs) = map_option f (List.find P xs)"
  by (simp add: find_map)

lemma saved_schema_read:
  assumes "\<exists>p \<in> set plugins. is_graphql p"
  shows "plugin_schema (save_schema schema plugins) = Inr schema"
proof -
  from assms obtain p where p: "List.find is_graphql plugins = Some p"
    by (cases "List.find is_graphql plugins") (auto simp: find_None_iff_all)
  have keep: "is_graphql (if is_graphql q then put_prop ''config'' c q else q) = is_graphql q" for q c
    by (cases q) (auto simp: is_graphql_def put_prop_def jprop_def)
  have "List.find is_graphql (save_schema schema plugins) = Some (put_prop ''config'' (put_prop ''schema'' schema (jprop p ''config'')) p)"
    using p find_SomeD [OF p] unfolding save_schema_def by (subst find_map_keep) (auto simp: keep)
  then show ?thesis by (simp add: plugin_schema_def put_prop_def fld_def nullish_def)
qed

lemma other_plugins_kept: "i < length plugins \<Longrightarrow> \<not> is_graphql (plugins ! i) \<Longrightarrow> save_schema schema plugins ! i = plugins ! i"
  by (simp add: save_schema_def)

text \<open>When the server accepts the types the route has the schema it made; when it does not the form is closed all the same.\<close>

lemma hidden_saves:
  assumes "plugin_schema (gf_plugins s) = Inr schema"
    and "r = jsonToGraphqlSchema env schema (transformTypes (gf_types s))"
  shows "\<exists>t. hide_form env s = Inr t \<and> gf_hidden t \<and>
     gf_plugins t = (if truthy (jprop r ''error'') then gf_plugins s
       else save_schema (jprop r ''schema'') (gf_plugins s))"
  using assms by (simp add: hide_form_def savePlugin_def Let_def)

text \<open>Showing the schema and the form again gives the types of the saved schema: the edits in between are lost.\<close>

lemma shown_schema_reloads:
  assumes "plugin_schema (gf_plugins s) = Inr schema" and "\<not> truthy (jprop (graphqlSchemaToJson env schema) ''error'')"
  shows "gf_types (gql_handle env (gql_handle env s (Toggle_schema True)) (Toggle_schema False)) =
     map (read_type env) (array_or_empty (jprop (graphqlSchemaToJson env schema) ''types''))"
  using assms by (simp add: toggleSchema_def unless_thrown_def schemaToJson_def Let_def)

text \<open>The text \<open>Form\<close> of the button shows the schema, and is the one marked while the schema is shown.\<close>

lemma header_texts_swapped:
  assumes "plugin_schema (gf_plugins s) = Inr schema"
  shows "gf_schemaView (gql_handle env s (gql_header_click ''Form''))" and "gql_header True = ''Form''"
  using assms by (simp_all add: gql_header_click_def pill_click_def toggleSchema_def unless_thrown_def gql_header_def pill_cursor_def)

text \<open>A creation confirmed once can be confirmed again with the input empty, and gives the same name.\<close>

lemma creation_keeps_name:
  assumes "name \<noteq> []"
  shows "let b = fst (confirm_creation (type_creation name (open_creation b0)))
     in cb_typed (open_creation b) = [] \<and> snd (confirm_creation (open_creation b)) = Some name"
  using assms by (simp add: confirm_creation_def open_creation_def type_creation_def)

text \<open>Every kind of directive offered has a form, apart from the one that is announced, and every argument of a form is known.\<close>

lemma directives_have_forms:
  "list_all (\<lambda>d. d = ''otoroshi (soon)'' \<or> directive_flow (JStr d) \<noteq> None) DIRECTIVES"
  "directive_flow (JStr ''otoroshi (soon)'') = None"
  by (simp_all add: DIRECTIVES_def directive_flow_def directive_flows_def)

lemma arguments_known: "list_all (\<lambda>(d, as). list_all (\<lambda>a. map_of argument_types a \<noteq> None) as) directive_flows"
  by (simp add: directive_flows_def argument_types_def)

section \<open>A schema\<close>

definition user_types :: "js list" where
  "user_types =
     [JObj [(''name'', JStr ''Query''), (''fields'', JArr [JObj [(''name'', JStr ''users''),
        (''directives'', JArr [JObj [(''name'', JStr ''rest''), (''arguments'', JArr
           [JObj [(''name'', JStr ''url''), (''value'', JStr ''http://users'')],
            JObj [(''name'', JStr ''timeout''), (''value'', JStr ''5'')]])]])]])],
      JObj [(''name'', JStr ''User''), (''fields'', JArr [JObj [(''name'', JStr ''email''), (''directives'', JArr [])]])]]"

definition user_env :: gql_env where
  "user_env = \<lparr>graphqlSchemaToJson = (\<lambda>s. JObj [(''types'', JArr user_types)]),
     jsonToGraphqlSchema = (\<lambda>s ts. JObj [(''schema'', s)]), gq_parse = (\<lambda>s. if s = ''5'' then Some (JNum 5) else None)\<rparr>"

definition user_form :: gql_form where
  "user_form = \<lparr>gf_plugins = [], gf_types = user_types, gf_error = JUndef, gf_schemaView = False, gf_tmpSchema = JUndef,
     gf_selected = Some (1, 0), gf_hidden = False\<rparr>"

lemma form_breaks_iff_witness: "gql_step user_env user_form (Remove_type True 0) = Inl TypeError"
proof -
  have "selection_ok user_form" "\<not> gf_hidden user_form" "offered user_form (Remove_type True 0)"
      "breaks user_env user_form (Remove_type True 0)"
    by (simp_all add: selection_ok_def user_form_def user_types_def at_int_def)
  then show ?thesis using form_breaks_iff by blast
qed

lemma schema_sent_back_witness:
  "transformTypes (map (read_type user_env) user_types) = map (wire_type user_env) user_types \<and>
   jprop (wire_directive user_env (JObj [(''arguments'', JArr [JObj [(''name'', JStr ''timeout''), (''value'', JStr ''5'')]])]))
     ''arguments'' = JArr [JObj [(''timeout'', JNum 5)]]"
proof
  have "schema_ok user_types"
    by (simp add: schema_ok_def user_types_def fields_of_def names_ok_def argument_name_def index_key_def is_digit_def)
  then show "transformTypes (map (read_type user_env) user_types) = map (wire_type user_env) user_types"
    by (rule schema_sent_back)
qed (simp add: wire_directive_def argument_name_def parsed_value_def is_array_def user_env_def)

lemma panel_edits_its_field_witness: "panel (edit_field (JStr ''new'') user_form) = Inr (JStr ''new'')"
proof -
  have "gf_selected user_form = Some (1, 0)" "field_at (gf_types user_form) 1 0 \<noteq> None"
    by (simp_all add: user_form_def user_types_def field_at_def at_int_def fields_of_def)
  then show ?thesis using panel_edits_its_field by blast
qed

end
