(* ===== verification/Plugins_Chain.thy ===== *)
theory Plugins_Chain
  imports Route_Designer_Facts Input_Lists Api_Client
begin

text \<open>
  The drawer that edits a chain of plugins outside of a route (\<open>components/PluginsChainDrawer.js\<close>): the route designer, opened
  on a route made of the chain, in a panel of a width the user chooses.

  \<^item> The designer is that of \<open>Route_Designer\<close>: a chain is a list of \<open>ref\<close>, and an event of the designer is a \<open>d_event\<close>. The
    parent is told of the plugins of its route each time it changes.
  \<^item> A width is a number of pixels, and \<open>win\<close> is the width of the window. The local storage is a text, or throws. The
    products by 0.95 and 0.75 are exact.
\<close>

section \<open>The width\<close>

definition MIN_WIDTH :: int where
  "MIN_WIDTH = 600"

definition clampWidth :: "int \<Rightarrow> int \<Rightarrow> int" where
  "clampWidth win w = min (max w MIN_WIDTH) (js_round (of_int win * (95 / 100)))"

definition initialWidth :: "int \<Rightarrow> string option res \<Rightarrow> int" where
  "initialWidth win stored =
     (case stored of
        Inr (Some s) \<Rightarrow> (case read_int s of Some w \<Rightarrow> clampWidth win w | None \<Rightarrow> js_round (of_int win * (75 / 100)))
      | _ \<Rightarrow> js_round (of_int win * (75 / 100)))"

section \<open>The chain\<close>

definition shortName :: "string option \<Rightarrow> string" where
  "shortName pluginId = spaced (List.last (split_on CHR ''.'' (case pluginId of None \<Rightarrow> [] | Some i \<Rightarrow> i)))"

definition toInstance :: "(string \<Rightarrow> string) \<Rightarrow> ref \<Rightarrow> ref" where
  "toInstance snake r = r\<lparr>r_nodeId := None, r_index := map_option (snake_index snake) (r_index r)\<rparr>"

text \<open>The form engine gives an empty object for a value that is absent.\<close>

definition chain_slots :: "js + ref list \<Rightarrow> ref list" where
  "chain_slots v = (case v of Inr slots \<Rightarrow> slots | Inl _ \<Rightarrow> [])"

definition designerValue :: "string option \<Rightarrow> string option \<Rightarrow> ref list \<Rightarrow> route" where
  "designerValue entityId clientId slots =
     \<lparr>rt_id = (case entityId of Some i \<Rightarrow> if i = [] then (case clientId of Some c \<Rightarrow> if c = [] then ''plugins-chain'' else c | None \<Rightarrow> ''plugins-chain'') else i
        | None \<Rightarrow> (case clientId of Some c \<Rightarrow> if c = [] then ''plugins-chain'' else c | None \<Rightarrow> ''plugins-chain'')),
      rt_frontend = JUndef, rt_backend = JUndef, rt_backend_ref = None,
      rt_plugins = map (\<lambda>p. p\<lparr>r_config := js_or (r_config p) (JObj [])\<rparr>) slots\<rparr>"

text \<open>What the parent is told when the designer changes its route.\<close>

definition chain_told :: "(string \<Rightarrow> string) \<Rightarrow> designer \<Rightarrow> ref list" where
  "chain_told snake s = map (toInstance snake) (rt_plugins (d_route s))"

definition open_chain :: "(string \<Rightarrow> string) \<Rightarrow> plugin list \<Rightarrow> string option \<Rightarrow> string option \<Rightarrow> ref list \<Rightarrow> designer res" where
  "open_chain camel palette entityId clientId slots =
     loadData camel [] palette None (designerValue entityId clientId slots)"

definition summary :: "ref list \<Rightarrow> (nat \<times> string \<times> bool \<times> bool) list" where
  "summary slots = map (\<lambda>(i, r). (i, shortName (r_plugin r),
     r_plugin r \<notin> {None, Some []} \<and> \<not> truthy (obj_get (r_rest r) ''enabled''),
     r_plugin r \<notin> {None, Some []} \<and> truthy (obj_get (r_rest r) ''debug''))) (enumerate 1 slots)"

section \<open>The drawer\<close>

record drawer =
  dw_open :: bool
  dw_width :: int
  dw_ref :: int
  dw_resizing :: bool
  dw_stored :: "string option res"

definition mount_drawer :: "int \<Rightarrow> string option res \<Rightarrow> drawer" where
  "mount_drawer win stored =
     (let w = initialWidth win stored
      in \<lparr>dw_open = False, dw_width = w, dw_ref = w, dw_resizing = False, dw_stored = stored\<rparr>)"

datatype drawer_event =
    Open_drawer
  | Close_drawer
  | Key_down string
  | Start_resize
  | Mouse_move int int
  | Mouse_up bool

fun drawer_step :: "drawer \<Rightarrow> drawer_event \<Rightarrow> drawer" where
  "drawer_step d Open_drawer = d\<lparr>dw_open := True\<rparr>"
| "drawer_step d Close_drawer = d\<lparr>dw_open := False\<rparr>"
| "drawer_step d (Key_down k) = (if dw_open d \<and> k = ''Escape'' then d\<lparr>dw_open := False\<rparr> else d)"
| "drawer_step d Start_resize = (if dw_open d then d\<lparr>dw_resizing := True\<rparr> else d)"
| "drawer_step d (Mouse_move win x) =
     (if dw_resizing d then d\<lparr>dw_width := clampWidth win (win - x), dw_ref := clampWidth win (win - x)\<rparr> else d)"
| "drawer_step d (Mouse_up writes) =
     (if dw_resizing d
      then d\<lparr>dw_resizing := False, dw_stored := (if writes then Inr (Some (num_str (of_int (dw_ref d)))) else dw_stored d)\<rparr>
      else d)"

section \<open>The width kept\<close>

lemma clamp_bounds: "clampWidth win w \<le> js_round (of_int win * (95 / 100))"
  "MIN_WIDTH \<le> js_round (of_int win * (95 / 100)) \<Longrightarrow> MIN_WIDTH \<le> clampWidth win w"
  by (simp_all add: clampWidth_def)

lemma clamp_again [simp]: "clampWidth win (clampWidth win w) = clampWidth win w"
  by (auto simp: clampWidth_def)

text \<open>The first width of a small window is below the least one.\<close>

lemma first_width_below: "initialWidth 700 (Inr None) = 525"
  by (simp add: initialWidth_def js_round_def floor_eq_iff)

lemma clamp_nonneg: "0 \<le> win \<Longrightarrow> 0 \<le> clampWidth win w"
  by (simp add: clampWidth_def MIN_WIDTH_def js_round_def)

lemma whole_num_str: "0 \<le> w \<Longrightarrow> num_str (of_int w) = nat_str (nat w)"
  by (simp add: num_str_def Let_def)

lemma stored_width: "0 \<le> win \<Longrightarrow> initialWidth win (Inr (Some (num_str (of_int (clampWidth win w))))) = clampWidth win w"
  by (simp add: initialWidth_def whole_num_str clamp_nonneg parse_nat_str)

lemma moves_keep:
  "foldl drawer_step d (map (Mouse_move win) xs) =
     (if dw_resizing d \<and> xs \<noteq> []
      then d\<lparr>dw_width := clampWidth win (win - last xs), dw_ref := clampWidth win (win - last xs)\<rparr> else d)"
  by (induction xs arbitrary: d) auto

text \<open>
  The width a resize ends with is the width of the drawer the next time, in a window as large, and it is kept between the least
  width and the window.
\<close>

lemma resize_remembered:
  assumes "0 \<le> win" and "dw_open d" and "xs \<noteq> []"
  shows "let e = foldl drawer_step d (Start_resize # map (Mouse_move win) xs @ [Mouse_up True])
     in dw_width (mount_drawer win (dw_stored e)) = dw_width e \<and> dw_width e = clampWidth win (win - last xs)"
  using assms by (simp add: moves_keep Let_def mount_drawer_def stored_width)

section \<open>The chain kept\<close>

text \<open>An entry of a chain as it is stored: no identifier of the designer, an index with the keys of the backend.\<close>

definition stored_ref :: "(string \<Rightarrow> string) \<Rightarrow> ref \<Rightarrow> bool" where
  "stored_ref snake r \<longleftrightarrow> r_nodeId r = None \<and> truthy (r_config r) \<and>
     (\<forall>ix. r_index r = Some ix \<longrightarrow> distinct (map fst ix) \<and> (\<forall>k \<in> fst ` set ix. snake k = k))"

lemma from_entries_distinct: "distinct (map fst ix) \<Longrightarrow> from_entries ix = ix"
proof -
  have "distinct (map fst (acc @ ix)) \<Longrightarrow> fold (\<lambda>(k, v). AList.update k v) ix acc = acc @ ix" for acc
  proof (induction ix arbitrary: acc)
    case (Cons e ix)
    obtain k v where e: "e = (k, v)" by (cases e)
    have "AList.update k v acc = acc @ [(k, v)]" if "k \<notin> fst ` set acc" for acc :: index
      using that by (induction acc) auto
    with Cons e show ?case by (auto simp: image_iff)
  qed simp
  from this [of "[]"] show "distinct (map fst ix) \<Longrightarrow> from_entries ix = ix" by (simp add: from_entries_def)
qed

lemma snake_stored: "distinct (map fst ix) \<Longrightarrow> \<forall>k \<in> fst ` set ix. snake k = k \<Longrightarrow> snake_index snake ix = ix"
proof -
  assume d: "distinct (map fst ix)" and k: "\<forall>k \<in> fst ` set ix. snake k = k"
  have "map (\<lambda>(k, v). (snake k, v)) ix = ix" using k by (auto intro!: map_idI)
  then show "snake_index snake ix = ix" by (simp add: snake_index_def from_entries_distinct [OF d])
qed

lemma instance_stored: "stored_ref snake r \<Longrightarrow> toInstance snake (r\<lparr>r_nodeId := i\<rparr>) = r"
  by (cases r; cases "r_index r") (auto simp: toInstance_def stored_ref_def snake_stored)

lemma loaded_refs:
  assumes "loadData camel backends palette location route = Inr s"
  shows "\<exists>ids. length ids = length (rt_plugins route) \<and>
     rt_plugins (d_route s) = map (\<lambda>(r, i). r\<lparr>r_nodeId := i\<rparr>) (zip (rt_plugins route) ids)"
proof -
  from assms obtain ns ms where "rmap (route_node palette) (rt_plugins route) = Inr ns" "generateInternalNodeId ns = Inr ms"
    and s: "rt_plugins (d_route s) = map (\<lambda>(r, n). r\<lparr>r_nodeId := n_nodeId n\<rparr>) (zip (rt_plugins route) ms)"
    unfolding loadData_def Let_def by fastforce
  moreover have "length (rt_plugins (d_route s)) = length (rt_plugins route)"
    by (rule loadData_nodes [OF assms]) (metis length_map)
  with s have "length (rt_plugins route) \<le> length ms" by simp
  ultimately show ?thesis
    by (intro exI [of _ "map n_nodeId (take (length (rt_plugins route)) ms)"])
      (auto simp: list_eq_iff_nth_eq)
qed

lemma chain_opened:
  assumes "open_chain camel palette entityId clientId slots = Inr s" and "list_all (stored_ref snake) slots"
  shows "chain_told snake s = slots"
proof -
  have same: "rt_plugins (designerValue entityId clientId slots) = slots"
    using assms(2) by (auto simp: designerValue_def js_or_def stored_ref_def list_all_iff intro!: map_idI)
  from loaded_refs [OF assms(1) [unfolded open_chain_def]] obtain ids
    where l: "length ids = length slots" and r: "rt_plugins (d_route s) = map (\<lambda>(r, i). r\<lparr>r_nodeId := i\<rparr>) (zip slots ids)"
    by (auto simp: same)
  show ?thesis
    using assms(2) l by (auto simp: chain_told_def r list_all_iff instance_stored list_eq_iff_nth_eq)
qed

text \<open>The chain the parent is told of has one entry for each plugin the designer draws.\<close>

lemma chain_entries_drawn:
  assumes "open_chain camel palette entityId clientId slots = Inr s"
  shows "length (chain_told snake (foldl (d_step camel snake) s es)) = length (d_nodes (foldl (d_step camel snake) s es))"
  using route_machine.run_inv [OF loadData_match [OF assms [unfolded open_chain_def]], of camel snake es]
  by (auto simp: chain_told_def nodes_match_def dest: map_eq_imp_length_eq)

lemma told_has_no_ids: "r \<in> set (chain_told snake s) \<Longrightarrow> r_nodeId r = None"
  by (auto simp: chain_told_def toInstance_def)

text \<open>
  The round trip of a chain: opening the drawer on a stored chain and adding a plugin tells the parent of the chain with one
  more entry, that of the plugin, the stored entries being as they were.
\<close>
lemma chain_grows_at_end:
  assumes "open_chain camel palette entityId clientId slots = Inr s" and "list_all (stored_ref snake) slots"
  shows "\<exists>r. r_nodeId r = None \<and> chain_told snake (d_step camel snake s (AddPlugin p)) = slots @ [r] \<and>
     r_plugin r = (if pl_legacy p then r_plugin r else Some (pl_id p))"
proof -
  obtain r where r: "rt_plugins (d_route (addNode p s)) = rt_plugins (d_route s) @ [r]"
      "\<not> pl_legacy p \<Longrightarrow> r_plugin r = Some (pl_id p)"
    by (auto simp: addNode_def Let_def with_plugins_def updateRoute_def added_ref_def plugin_name_def
        palette_node_def)
  show ?thesis
    using chain_opened [OF assms] r
    by (intro exI [of _ "toInstance snake r"]) (auto simp: d_step_def chain_told_def toInstance_def)
qed

definition cache_slots :: "ref list" where
  "cache_slots = [\<lparr>r_plugin = Some ''cp:cache'', r_nodeId = None, r_index = Some [(''pre_route'', 0)], r_config = JObj [], r_rest = []\<rparr>]"

definition cache_palette :: "plugin list" where
  "cache_palette = [\<lparr>pl_id = ''cp:cache'', pl_name = None, pl_steps = [''PreRoute''], pl_categories = [], pl_visibility = None,
     pl_multi_inst = True, pl_legacy = False, pl_type = None, pl_config = JObj [], pl_rest = [], pl_selected = False, pl_filtered = False\<rparr>]"

lemma chain_grows_at_end_witness:
  "\<exists>s r. open_chain id cache_palette None None cache_slots = Inr s \<and>
     chain_told id (d_step id id s (AddPlugin (hd cache_palette))) = cache_slots @ [r] \<and> r_plugin r = Some ''cp:cache''"
proof -
  have "\<exists>s. open_chain id cache_palette None None cache_slots = Inr s"
    by (simp add: open_chain_def loadData_def designerValue_def cache_slots_def cache_palette_def route_node_def js_or_def
        generateInternalNodeId_def known_node_def Let_def)
  then obtain s where s: "open_chain id cache_palette None None cache_slots = Inr s" ..
  have "list_all (stored_ref id) cache_slots" by (simp add: cache_slots_def stored_ref_def)
  from chain_grows_at_end [OF s this, of "hd cache_palette"] show ?thesis
    using s by (auto simp: cache_palette_def)
qed

end
