(* ===== verification/Sidebar.thy ===== *)
theory Sidebar
  imports Api_Client "HOL-Library.Multiset"
begin

text \<open>
  The side bar of the console (\<open>components/DefaultSidebar.js\<close>): the shortcuts of the user, drawn, moved with the mouse, removed,
  and added from the categories of features.

  \<^item> A shortcut is the lower case title of a feature, or an object of the user's own; \<open>JUndef\<close> is an empty place. The features
    are given, with their titles in lower case, in the order of the categories. Icons are left out.
  \<^item> The bar is drawn after each event, and the drawing completes the objects in place: the shortcuts of a state are completed.
    \<open>save\<close> is what the server answers when the shortcuts are written; it is answered before the next event.
\<close>

section \<open>The shortcuts drawn\<close>

definition shortcut_link :: "js \<Rightarrow> js" where
  "shortcut_link s = js_or (jprop s ''link'') (jprop s ''path'')"

definition completed :: "js \<Rightarrow> js" where
  "completed s =
     (if is_object s
      then JObj (AList.update ''custom'' (JBool True) (AList.update ''link'' (shortcut_link s) (entries s))) else s)"

definition title_of :: "js \<Rightarrow> string" where
  "title_of f = template_text (jprop f ''title'')"

definition resolved :: "js list \<Rightarrow> js \<Rightarrow> js option" where
  "resolved features s =
     (if is_object s then Some (completed s)
      else List.find (\<lambda>f. includes_str (title_of f) (template_text s)) features)"

definition drawn_shortcuts :: "js list \<Rightarrow> js list \<Rightarrow> js list" where
  "drawn_shortcuts features shortcuts = List.map_filter (resolved features) shortcuts"

definition rootClassName :: "string \<Rightarrow> string \<Rightarrow> string" where
  "rootClassName pathname part =
     (let active = (if startsWith pathname (''/bo/dashboard/'' @ part) then ''active'' else '''')
      in if startsWith pathname ''/bo/dashboard/routes''
         then (if startsWith pathname ''/bo/dashboard/routes/new'' \<or> pathname = ''/bo/dashboard/routes'' then active else '''')
         else active)"

definition onRouteTab :: "string \<Rightarrow> bool" where
  "onRouteTab pathname \<longleftrightarrow> startsWith pathname ''/bo/dashboard/routes/'' \<or> startsWith pathname ''/bo/dashboard/apis/''"

definition sidebar_hidden :: "string \<Rightarrow> bool" where
  "sidebar_hidden pathname \<longleftrightarrow>
     startsWith pathname ''/bo/dashboard/extensions/workflows/'' \<and> pathname \<noteq> ''/bo/dashboard/extensions/workflows/workflows''"

text \<open>The link of a shortcut: one of the console, one of another site, or none.\<close>

datatype sidebar_link = Inside string | Outside string | No_link

fun one_slash :: "string \<Rightarrow> string" where
  "one_slash (a # b # s) = (if a = CHR ''/'' \<and> b = CHR ''/'' then b # s else a # one_slash (b # s))"
| "one_slash s = s"

definition link_path :: "js \<Rightarrow> string" where
  "link_path s = template_text (js_or (jprop s ''path'') (jprop s ''link''))"

definition shortcut_drawn :: "js \<Rightarrow> sidebar_link" where
  "shortcut_drawn s =
     (let path = link_path s
      in if \<not> includes_str path ''http'' then Inside (one_slash (CHR ''/'' # path))
         else if startsWith path ''http'' then Outside path else No_link)"

section \<open>The operations\<close>

record sidebar =
  sb_shortcuts :: "js list"
  sb_start :: int
  sb_client :: int
  sb_dragging :: "int option"

definition set_shortcuts :: "js list \<Rightarrow> sidebar \<Rightarrow> sidebar" where
  "set_shortcuts xs s = s\<lparr>sb_shortcuts := map completed xs\<rparr>"

definition mount_sidebar :: "js list \<Rightarrow> sidebar" where
  "mount_sidebar stored =
     set_shortcuts stored \<lparr>sb_shortcuts = [], sb_start = 0, sb_client = 0, sb_dragging = Some (-1)\<rparr>"

definition reloadStorage :: "nat \<Rightarrow> js list \<Rightarrow> sidebar \<Rightarrow> sidebar" where
  "reloadStorage status stored s = set_shortcuts (if status = 200 then stored else []) s"

text \<open>The list after the removal of a drawn shortcut; it throws on an empty place.\<close>

definition removed :: "js \<Rightarrow> js list \<Rightarrow> js list res" where
  "removed item shortcuts =
     (if truthy (jprop item ''custom'')
      then Inr (filter (\<lambda>f. is_object f \<longrightarrow> jprop f ''link'' \<noteq> jprop item ''link'') shortcuts)
      else if JUndef \<in> set shortcuts then Inl TypeError
      else Inr (filter (\<lambda>f. is_object f \<or> \<not> includes_str (template_text f) (title_of item)) shortcuts))"

definition writeStorage :: "(js list \<Rightarrow> js list) \<Rightarrow> js list \<Rightarrow> sidebar \<Rightarrow> sidebar" where
  "writeStorage save xs s = set_shortcuts (save xs) s"

definition removeShortcut :: "(js list \<Rightarrow> js list) \<Rightarrow> js \<Rightarrow> sidebar \<Rightarrow> sidebar" where
  "removeShortcut save item s =
     (case removed item (sb_shortcuts s) of Inl e \<Rightarrow> s | Inr xs \<Rightarrow> writeStorage save xs s)"

text \<open>An assignment to an index of an array, which grows with empty places when it is past its end.\<close>

definition assign :: "int \<Rightarrow> js \<Rightarrow> js list \<Rightarrow> js list" where
  "assign k v xs =
     (if k < 0 then xs
      else if nat k < length xs then xs[nat k := v] else xs @ replicate (nat k - length xs) JUndef @ [v])"

definition read_at :: "js list \<Rightarrow> int \<Rightarrow> js" where
  "read_at xs k = (case at_int xs k of None \<Rightarrow> JUndef | Some v \<Rightarrow> v)"

definition moved_index :: "int \<Rightarrow> rat \<Rightarrow> int" where
  "moved_index k offset = js_round (of_int k + offset)"

definition setPosition :: "int \<Rightarrow> rat \<Rightarrow> sidebar \<Rightarrow> sidebar" where
  "setPosition k offset s =
     (let index = moved_index k offset; xs = sb_shortcuts s
      in s\<lparr>sb_dragging := Some index, sb_shortcuts := assign index (read_at xs k) (assign k (read_at xs index) xs)\<rparr>)"

definition onMouseMove :: "int \<Rightarrow> sidebar \<Rightarrow> sidebar" where
  "onMouseMove y s =
     (case sb_dragging s of
        None \<Rightarrow> s
      | Some k \<Rightarrow>
          if k = -1 then s
          else if sb_start s = 0 then s\<lparr>sb_start := y\<rparr>
          else
            let t = s\<lparr>sb_client := y\<rparr>; offset = of_int (y - sb_start s) / 32; index = moved_index k offset
            in if (offset < -1 \<or> offset \<ge> 1) \<and> \<not> (index < 0 \<or> index > int (length (sb_shortcuts s)) - 1 \<or> index = k)
               then setPosition k offset (t\<lparr>sb_start := y\<rparr>) else t)"

text \<open>The timer of the button is over.\<close>

definition onMouseUp :: "(js list \<Rightarrow> js list) \<Rightarrow> sidebar \<Rightarrow> sidebar" where
  "onMouseUp save s =
     (case sb_dragging s of
        None \<Rightarrow> s
      | Some k \<Rightarrow>
          if k = -1 then s else writeStorage save (filter truthy (sb_shortcuts s)) (s\<lparr>sb_dragging := None\<rparr>))"

definition startDragging :: "int \<Rightarrow> nat \<Rightarrow> sidebar \<Rightarrow> sidebar" where
  "startDragging y i s = s\<lparr>sb_start := y, sb_dragging := Some (int i)\<rparr>"

text \<open>\<open>[...new Set(xs)]\<close>: a text is kept once, two objects are never the same.\<close>

fun new_set :: "js list \<Rightarrow> js list \<Rightarrow> js list" where
  "new_set seen [] = []"
| "new_set seen (x # xs) =
     (if \<not> is_object x \<and> x \<in> set seen then new_set seen xs else x # new_set (x # seen) xs)"

definition alreadyInShortcuts :: "string \<Rightarrow> sidebar \<Rightarrow> bool" where
  "alreadyInShortcuts title s \<longleftrightarrow> JStr (toLowerCase title) \<in> set (sb_shortcuts s)"

definition add_shortcut :: "(js list \<Rightarrow> js list) \<Rightarrow> string \<Rightarrow> sidebar \<Rightarrow> sidebar" where
  "add_shortcut save title s =
     (if alreadyInShortcuts title s then s
      else writeStorage save (new_set [] (sb_shortcuts s @ [JStr (toLowerCase title)])) s)"

section \<open>Moving a shortcut\<close>

lemma swap_in_range:
  assumes "0 \<le> i" and "nat i < length xs" and "0 \<le> j" and "nat j < length xs"
  shows "assign j (read_at xs i) (assign i (read_at xs j) xs) = xs[nat i := xs ! nat j, nat j := xs ! nat i]"
  using assms by (simp add: assign_def read_at_def at_int_def nat_less_iff)

text \<open>The shortcut dragged from a place is \<open>x\<close>, and the shortcuts are those of \<open>M\<close>.\<close>

definition dragged :: "js \<Rightarrow> js multiset \<Rightarrow> sidebar \<Rightarrow> bool" where
  "dragged x M s \<longleftrightarrow> mset (sb_shortcuts s) = M \<and>
     (\<exists>k. sb_dragging s = Some k \<and> at_int (sb_shortcuts s) k = Some x)"

lemma dragged_move:
  assumes "dragged x M s"
  shows "dragged x M (onMouseMove y s)"
proof -
  obtain k where k: "sb_dragging s = Some k" "0 \<le> k" "nat k < length (sb_shortcuts s)" "sb_shortcuts s ! nat k = x"
      and M: "mset (sb_shortcuts s) = M"
    using assms by (auto simp: dragged_def at_int_Some)
  define index where "index = moved_index k ((of_int y - of_int (sb_start s)) / 32)"
  show ?thesis
  proof (cases "sb_start s \<noteq> 0 \<and> 0 \<le> index \<and> index < int (length (sb_shortcuts s)) \<and>
      (of_int (y - sb_start s) / 32 < (-1 :: rat) \<or> of_int (y - sb_start s) / 32 \<ge> (1 :: rat)) \<and> index \<noteq> k")
    case True
    then have move: "onMouseMove y s = setPosition k (of_int (y - sb_start s) / 32) (s\<lparr>sb_client := y, sb_start := y\<rparr>)"
      using k by (simp add: onMouseMove_def Let_def index_def)
    have i: "nat index < length (sb_shortcuts s)" "0 \<le> index" using True by linarith+
    have "sb_shortcuts (onMouseMove y s) = (sb_shortcuts s)[nat k := sb_shortcuts s ! nat index, nat index := x]"
      using k i by (simp add: move setPosition_def Let_def index_def [symmetric] swap_in_range)
    moreover have "sb_dragging (onMouseMove y s) = Some index"
      by (simp add: move setPosition_def Let_def index_def)
    ultimately show ?thesis
      using k i M by (auto simp: dragged_def at_int_Some mset_swap)
  next
    case False
    then have "sb_shortcuts (onMouseMove y s) = sb_shortcuts s" "sb_dragging (onMouseMove y s) = sb_dragging s"
      using k by (auto simp: onMouseMove_def Let_def index_def)
    then show ?thesis using assms by (simp add: dragged_def)
  qed
qed

interpretation dragging: machine "\<lambda>s y. onMouseMove y s" "dragged x M" for x M
  by unfold_locales (rule dragged_move)

text \<open>Every shortcut is drawn when each one is of a feature or the user's own; the place of a drawn one is then its index.\<close>

lemma all_drawn:
  assumes "\<forall>v \<in> set shortcuts. resolved features v \<noteq> None"
  shows "drawn_shortcuts features shortcuts = map (\<lambda>v. the (resolved features v)) shortcuts"
  using assms by (auto simp: drawn_shortcuts_def map_filter_def)

text \<open>
  C31. Moving a shortcut with the mouse permutes the shortcuts, and the one under the mouse stays the one whose handle was taken,
  whatever the moves, when every shortcut is drawn.
\<close>
theorem moves_permute_shortcuts:
  assumes "\<forall>v \<in> set (sb_shortcuts s). resolved features v \<noteq> None" and "i < length (drawn_shortcuts features (sb_shortcuts s))"
  shows "\<exists>k. let t = foldl (\<lambda>s y. onMouseMove y s) (startDragging y i s) ys
     in mset (sb_shortcuts t) = mset (sb_shortcuts s) \<and> sb_dragging t = Some k \<and>
        resolved features (read_at (sb_shortcuts t) k) = Some (drawn_shortcuts features (sb_shortcuts s) ! i)"
proof -
  have i: "i < length (sb_shortcuts s)" using assms(2) by (simp add: all_drawn [OF assms(1)])
  then have "dragged (sb_shortcuts s ! i) (mset (sb_shortcuts s)) (startDragging y i s)"
    by (simp add: dragged_def startDragging_def at_int_def)
  from dragging.run_inv [OF this, of ys] obtain k
    where t: "mset (sb_shortcuts (foldl (\<lambda>s y. onMouseMove y s) (startDragging y i s) ys)) = mset (sb_shortcuts s)"
      "sb_dragging (foldl (\<lambda>s y. onMouseMove y s) (startDragging y i s) ys) = Some k"
      "at_int (sb_shortcuts (foldl (\<lambda>s y. onMouseMove y s) (startDragging y i s) ys)) k = Some (sb_shortcuts s ! i)"
    by (auto simp: dragged_def)
  moreover have "resolved features (sb_shortcuts s ! i) = Some (drawn_shortcuts features (sb_shortcuts s) ! i)"
    using assms(1) i by (auto simp: all_drawn [OF assms(1)])
  ultimately show ?thesis by (intro exI [of _ k]) (simp add: Let_def read_at_def)
qed

section \<open>Adding and removing\<close>

lemma new_set_mem: "set (new_set seen xs) \<union> set seen \<supseteq> set xs"
proof (induction seen xs rule: new_set.induct)
  case (2 seen x xs)
  then show ?case by (cases "\<not> is_object x \<and> x \<in> set seen") auto
qed simp

lemma completed_text [simp]: "completed (JStr s) = JStr s" "is_object (JStr s) = False"
  by (simp_all add: completed_def is_object_def)

lemma added_is_there: "alreadyInShortcuts title (add_shortcut (\<lambda>xs. xs) title s)"
proof (cases "alreadyInShortcuts title s")
  case False
  have "JStr (toLowerCase title) \<in> set (new_set [] (sb_shortcuts s @ [JStr (toLowerCase title)]))"
    using new_set_mem [of "sb_shortcuts s @ [JStr (toLowerCase title)]" "[]"] by auto
  then have "completed (JStr (toLowerCase title)) \<in> set (map completed (new_set [] (sb_shortcuts s @ [JStr (toLowerCase title)])))"
    by (simp only: set_map image_eqI)
  with False show ?thesis by (simp add: add_shortcut_def alreadyInShortcuts_def writeStorage_def set_shortcuts_def)
qed (simp add: add_shortcut_def)

text \<open>
  A shortcut is removed with its button when it is the title of its feature; so are those of the features whose title
  has it in it.
\<close>

lemma removed_texts:
  assumes "\<not> truthy (jprop item ''custom'')" and "JUndef \<notin> set (sb_shortcuts s)"
  shows "JStr t \<in> set (sb_shortcuts (removeShortcut (\<lambda>xs. xs) item s)) \<longleftrightarrow>
     JStr t \<in> set (sb_shortcuts s) \<and> \<not> includes_str t (title_of item)"
proof -
  have same: "completed v = JStr t \<longleftrightarrow> v = JStr t" for v by (cases v) (auto simp: completed_def is_object_def)
  show ?thesis
    using assms by (auto simp: removeShortcut_def removed_def writeStorage_def set_shortcuts_def image_iff same)
      (metis same completed_text(2) template_text.simps(5))+
qed

definition console_features :: "js list" where
  "console_features = map (\<lambda>t. JObj [(''title'', JStr t)])
     [''services'', ''tcp services'', ''admins sessions'', ''auth. module sessions'', ''sessions'']"

text \<open>Two features of the console: the shortcut of one shows another and cannot be removed, the other takes a third with it.\<close>

lemma sessions_shows_another:
  "resolved console_features (JStr ''sessions'') = Some (JObj [(''title'', JStr ''admins sessions'')])"
  "removed (JObj [(''title'', JStr ''admins sessions'')]) [JStr ''sessions''] = Inr [JStr ''sessions'']"
  by (simp_all add: resolved_def console_features_def title_of_def removed_def startsWith_def)

lemma services_takes_another:
  "removed (the (resolved console_features (JStr ''services''))) [JStr ''services'', JStr ''tcp services''] = Inr []"
  by (simp add: resolved_def console_features_def title_of_def removed_def startsWith_def)

text \<open>A feature of the console with the text http inside its path has a shortcut without a link.\<close>

lemma listeners_without_link: "shortcut_drawn (JObj [(''link'', JStr ''/extensions/http-listeners'')]) = No_link"
  by (simp add: shortcut_drawn_def link_path_def js_or_def startsWith_def)

text \<open>With a shortcut that is not drawn, the one moved is not the one whose handle was taken.\<close>

lemma other_shortcut_dragged:
  "drawn_shortcuts console_features [JStr ''gone'', JStr ''services''] ! 0 = JObj [(''title'', JStr ''services'')] \<and>
   read_at (sb_shortcuts (startDragging 1 0 (mount_sidebar [JStr ''gone'', JStr ''services'']))) 0 = JStr ''gone''"
  by (simp add: drawn_shortcuts_def resolved_def console_features_def title_of_def startsWith_def map_filter_def
      mount_sidebar_def set_shortcuts_def startDragging_def read_at_def at_int_def)

lemma moves_permute_shortcuts_witness:
  "mset (sb_shortcuts (foldl (\<lambda>s y. onMouseMove y s) (startDragging 10 0 (mount_sidebar [JStr ''services'', JStr ''tcp services''])) [60]))
     = {#JStr ''services'', JStr ''tcp services''#}"
proof -
  let ?s = "mount_sidebar [JStr ''services'', JStr ''tcp services'']"
  have "\<forall>v \<in> set (sb_shortcuts ?s). resolved console_features v \<noteq> None"
      "0 < length (drawn_shortcuts console_features (sb_shortcuts ?s))" "mset (sb_shortcuts ?s) = {#JStr ''services'', JStr ''tcp services''#}"
    by (simp_all add: drawn_shortcuts_def resolved_def console_features_def title_of_def startsWith_def map_filter_def
        mount_sidebar_def set_shortcuts_def)
  then show ?thesis using moves_permute_shortcuts [of ?s console_features 0 10 "[60]"] by (metis (no_types, lifting))
qed


end
