(* ===== verification/Report_View.thy ===== *)
theory Report_View
  imports Analytics_Charts
begin

text \<open>
  The report of a request or of a workflow (\<open>components/ReportView.js\<close>): its steps with the plugins each one ran, the flow and the
  search that filter them, the durations shown, and the step or the plugin selected. Then the history of the health of a service
  (\<open>Uptime\<close> of \<open>components/Status.js\<close>).

  \<^item> Durations are whole numbers of nanoseconds, so \<open>round\<close> is the identity on them. A text \<open>toFixed\<close> gives is that of
    \<open>Analytics_Charts\<close>, for the exact quotients.
  \<^item> \<open>by_duration\<close> is the order the browser's sort gives with the comparison by duration, which never says that two steps are
    equal: it is a parameter. By flow, the order is that of the report.
\<close>

section \<open>The steps\<close>

record rplugin =
  rp_name :: string
  rp_duration :: int

text \<open>\<open>None\<close>: the step has no context, or a context without plugins.\<close>

record rstep =
  rs_task :: string
  rs_duration :: int
  rs_plugins :: "rplugin list option"
  rs_open :: bool

definition plugins_of :: "rstep \<Rightarrow> rplugin list" where
  "plugins_of s = (case rs_plugins s of Some ps \<Rightarrow> ps | None \<Rightarrow> [])"

definition isOnFlow :: "string \<Rightarrow> rstep \<Rightarrow> bool" where
  "isOnFlow flow s =
     (if flow = ''all'' then True
      else if flow = ''internal'' then (rs_task s \<noteq> [] \<or> rs_plugins s = None) \<and> rs_task s \<noteq> ''call-backend''
      else plugins_of s \<noteq> [] \<or> rs_task s = ''call-backend'')"

definition isPluginNameMatchingSearch :: "string \<Rightarrow> rplugin \<Rightarrow> bool" where
  "isPluginNameMatchingSearch search p \<longleftrightarrow> (if length search \<le> 0 then True else includes_str (rp_name p) search)"

definition isMatchingSearchWords :: "string \<Rightarrow> rstep \<Rightarrow> bool" where
  "isMatchingSearchWords search s \<longleftrightarrow>
     (if length search \<le> 0 then True
      else includes_str (rs_task s) search \<or> List.find (isPluginNameMatchingSearch search) (plugins_of s) \<noteq> None)"

definition roundNsTo :: "int \<Rightarrow> string" where
  "roundNsTo ns = toFixed (of_int ns / 1000000) 0"

definition durationInPercentage :: "int \<Rightarrow> int \<Rightarrow> string" where
  "durationInPercentage pluginDuration totalDuration =
     (if totalDuration = 0
      then (if pluginDuration = 0 then ''NaN'' else if pluginDuration > 0 then ''Infinity'' else ''-Infinity'')
      else toFixed (of_int pluginDuration / of_int totalDuration * 100) 3)"

definition userPluginsFlow :: "string \<Rightarrow> rstep \<Rightarrow> int" where
  "userPluginsFlow search s = sum_list (map rp_duration (filter (isPluginNameMatchingSearch search) (plugins_of s)))"

definition kept_steps :: "string \<Rightarrow> string \<Rightarrow> rstep list \<Rightarrow> rstep list" where
  "kept_steps flow search steps = filter (isMatchingSearchWords search) (filter (isOnFlow flow) steps)"

definition flow_value :: "string \<Rightarrow> string \<Rightarrow> rstep list \<Rightarrow> int" where
  "flow_value flow search steps =
     foldl (\<lambda>acc s.
       if flow = ''user'' then acc + (if rs_task s = ''call-backend'' then rs_duration s else 0) + userPluginsFlow search s
       else acc + rs_duration s - userPluginsFlow search s) 0 (kept_steps flow search steps)"

definition in_unit :: "string \<Rightarrow> int \<Rightarrow> string \<Rightarrow> string" where
  "in_unit unit d percentage =
     (if unit = ''ms'' then roundNsTo d else if unit = ''ns'' then num_str (of_int d) else percentage)"

definition reportDuration :: "string \<Rightarrow> string \<Rightarrow> string \<Rightarrow> int \<Rightarrow> rstep list \<Rightarrow> string" where
  "reportDuration unit flow search spent steps =
     (if flow = ''all'' then in_unit unit spent ''100''
      else let v = flow_value flow search steps
           in if unit = ''%'' then durationInPercentage v spent
              else if unit = ''ns'' then num_str (of_int v) else roundNsTo v)"

definition step_text :: "string \<Rightarrow> int \<Rightarrow> int \<Rightarrow> string" where
  "step_text unit spent d = in_unit unit d (durationInPercentage d spent)"

definition sorted_by :: "string \<Rightarrow> ('a list \<Rightarrow> 'a list) \<Rightarrow> 'a list \<Rightarrow> 'a list" where
  "sorted_by order by_duration xs = (if order = ''flow'' then xs else by_duration xs)"

definition dashes_to_spaces :: "string \<Rightarrow> string" where
  "dashes_to_spaces s = map (\<lambda>c. if c = CHR ''-'' then CHR '' '' else c) s"

definition plugin_label :: "string \<Rightarrow> string" where
  "plugin_label name = List.last (split_on CHR ''.'' (dashes_to_spaces name))"

definition displaySubList :: "string \<Rightarrow> rstep \<Rightarrow> bool" where
  "displaySubList flow s \<longleftrightarrow> plugins_of s \<noteq> [] \<and> flow \<noteq> ''internal''"

text \<open>The rows of the plugins under a step, when it is open.\<close>

definition listed_plugins :: "(rplugin list \<Rightarrow> rplugin list) \<Rightarrow> string \<Rightarrow> string \<Rightarrow> string \<Rightarrow> rstep \<Rightarrow> rplugin list" where
  "listed_plugins by_duration order flow search s =
     (if (rs_open s \<or> flow = ''user'') \<and> flow \<noteq> ''internal''
      then sorted_by order by_duration (filter (isPluginNameMatchingSearch search) (plugins_of s)) else [])"

section \<open>The selection\<close>

record report_view =
  rv_steps :: "rstep list"
  rv_step :: "string option"
  rv_plugin :: "string option"

datatype report_shown =
    Show_error
  | Show_informations
  | Show_step "rstep option"
  | Show_plugin "rplugin option"

definition show_report :: "rstep list \<Rightarrow> report_view \<Rightarrow> report_view" where
  "show_report steps v = v\<lparr>rv_steps := steps\<rparr>"

definition show_error :: "report_view \<Rightarrow> report_view" where
  "show_error v = v\<lparr>rv_plugin := Some ''error''\<rparr>"

definition click_report :: "report_view \<Rightarrow> report_view" where
  "click_report v = v\<lparr>rv_step := None, rv_plugin := None\<rparr>"

definition click_step :: "rstep \<Rightarrow> report_view \<Rightarrow> report_view" where
  "click_step s v = v\<lparr>rv_step := Some (rs_task s), rv_plugin := None\<rparr>"

definition click_plugin :: "rstep \<Rightarrow> rplugin \<Rightarrow> report_view \<Rightarrow> report_view" where
  "click_plugin s p v = v\<lparr>rv_step := Some (rs_task s), rv_plugin := Some (rp_name p)\<rparr>"

text \<open>A click on the arrow of a step is a click on the step too.\<close>

definition toggle_report_step :: "rstep \<Rightarrow> report_view \<Rightarrow> report_view" where
  "toggle_report_step s v = click_step s
     (v\<lparr>rv_steps := map (\<lambda>t. if rs_task t = rs_task s then t\<lparr>rs_open := \<not> rs_open s\<rparr> else t) (rv_steps v)\<rparr>)"

definition shown_in_report :: "report_view \<Rightarrow> report_shown" where
  "shown_in_report v =
     (case rv_plugin v of
        None \<Rightarrow> (case rv_step v of
             None \<Rightarrow> Show_informations
           | Some t \<Rightarrow> Show_step (List.find (\<lambda>s. rs_task s = t) (rv_steps v)))
      | Some p \<Rightarrow> if p = ''error'' then Show_error
          else Show_plugin (case rv_step v of
               None \<Rightarrow> None
             | Some t \<Rightarrow> (case List.find (\<lambda>s. rs_task s = t) (rv_steps v) of
                   None \<Rightarrow> None | Some s \<Rightarrow> List.find (\<lambda>q. rp_name q = p) (plugins_of s))))"

section \<open>The health of a service\<close>

record health_status =
  hs_health :: string
  hs_percentage :: rat

definition available :: "health_status list \<Rightarrow> rat" where
  "available ss = sum_list (map hs_percentage (filter (\<lambda>s. hs_health s = ''GREEN'' \<or> hs_health s = ''YELLOW'') ss))"

definition uptime_avg :: "bool \<Rightarrow> health_status list list \<Rightarrow> rat" where
  "uptime_avg stopTheCountUnknownStatus dates =
     (let days = filter (\<lambda>ss. \<not> stopTheCountUnknownStatus \<or> ss \<noteq> []) dates
      in foldl (\<lambda>avg ss. avg + available ss / of_nat (length days)) 0 days)"

text \<open>The availability of a day: two decimals, or unknown. Compared with a number, its text is read as one.\<close>

definition two_decimals :: "rat \<Rightarrow> rat" where
  "two_decimals q = (if q < 0 then -1 else 1) * of_nat (fixed_digits q 2) / 100"

definition availability :: "health_status list \<Rightarrow> rat option" where
  "availability ss = (if ss = [] then None else Some (two_decimals (available ss)))"

definition day_classes :: "health_status list \<Rightarrow> string list" where
  "day_classes ss = map fst (filter snd (case availability ss of
       None \<Rightarrow> [(''gray'', True)]
     | Some a \<Rightarrow> [(''green'', a \<ge> 100), (''light-green'', a \<ge> 99 \<and> a < 100), (''orange'', a \<ge> 95 \<and> a < 99), (''red'', a < 95)]))"

section \<open>The flows\<close>

lemma no_search [simp]: "isMatchingSearchWords [] = (\<lambda>s. True)" "isPluginNameMatchingSearch [] = (\<lambda>p. True)"
  by (simp_all add: isMatchingSearchWords_def isPluginNameMatchingSearch_def fun_eq_iff)

definition plugins_duration :: "rstep \<Rightarrow> int" where
  "plugins_duration s = sum_list (map rp_duration (plugins_of s))"

definition flow_part :: "string \<Rightarrow> string \<Rightarrow> rstep \<Rightarrow> int" where
  "flow_part flow search s =
     (if flow = ''user'' then (if rs_task s = ''call-backend'' then rs_duration s else 0) + userPluginsFlow search s
      else rs_duration s - userPluginsFlow search s)"

lemma flow_value_sum: "flow_value flow search steps = sum_list (map (flow_part flow search) (kept_steps flow search steps))"
proof -
  have "foldl (\<lambda>acc s.
       if flow = ''user'' then acc + (if rs_task s = ''call-backend'' then rs_duration s else 0) + userPluginsFlow search s
       else acc + rs_duration s - userPluginsFlow search s) a xs = a + sum_list (map (flow_part flow search) xs)" for a xs
    by (induction xs arbitrary: a) (simp_all add: flow_part_def)
  from this [of 0] show ?thesis by (simp add: flow_value_def)
qed

lemma sum_kept: "sum_list (map f (filter P xs)) = sum_list (map (\<lambda>x. if P x then f x else (0 :: int)) xs)"
  by (induction xs) auto

text \<open>A step of a report: named, and the call of the backend runs no plugin.\<close>

definition step_ok :: "rstep \<Rightarrow> bool" where
  "step_ok s \<longleftrightarrow> rs_task s \<noteq> [] \<and> (rs_task s = ''call-backend'' \<longrightarrow> plugins_of s = [])"

lemma on_flows:
  "step_ok s \<Longrightarrow> isOnFlow ''internal'' s \<longleftrightarrow> rs_task s \<noteq> ''call-backend''"
  "isOnFlow ''user'' s \<longleftrightarrow> plugins_of s \<noteq> [] \<or> rs_task s = ''call-backend''"
  by (simp_all add: isOnFlow_def step_ok_def)

lemma flow_parts:
  "flow_part ''internal'' [] s = rs_duration s - plugins_duration s"
  "flow_part ''user'' [] s = (if rs_task s = ''call-backend'' then rs_duration s else 0) + plugins_duration s"
  by (simp_all add: flow_part_def userPluginsFlow_def plugins_duration_def)

lemma step_parts:
  assumes "step_ok s"
  shows "(if isOnFlow ''internal'' s then flow_part ''internal'' [] s else 0)
      + (if isOnFlow ''user'' s then flow_part ''user'' [] s else 0) = rs_duration s"
proof (cases "plugins_of s = []")
  case True
  then have "plugins_duration s = 0" by (simp add: plugins_duration_def)
  with True show ?thesis by (simp only: on_flows(1) [OF assms] on_flows(2) flow_parts) simp
next
  case False
  with assms have "rs_task s \<noteq> ''call-backend''" unfolding step_ok_def by metis
  with False show ?thesis by (simp only: on_flows(1) [OF assms] on_flows(2) flow_parts) simp
qed

text \<open>
  Without a search, the durations of the internal flow and of the flow of the user add up to those of the steps: no time is
  counted twice, and none is lost.
\<close>
lemma flows_add_up:
  assumes "list_all step_ok steps"
  shows "flow_value ''internal'' [] steps + flow_value ''user'' [] steps = sum_list (map rs_duration steps)"
proof -
  have "(if isOnFlow ''internal'' s then flow_part ''internal'' [] s else 0)
      + (if isOnFlow ''user'' s then flow_part ''user'' [] s else 0) = rs_duration s" if "step_ok s" for s
    using that by (rule step_parts)
  then have parts: "map (\<lambda>s. (if isOnFlow ''internal'' s then flow_part ''internal'' [] s else 0)
      + (if isOnFlow ''user'' s then flow_part ''user'' [] s else 0)) steps = map rs_duration steps"
    using assms by (auto simp: list_all_iff)
  have "flow_value f [] steps = sum_list (map (\<lambda>s. if isOnFlow f s then flow_part f [] s else 0) steps)" for f
    by (simp add: flow_value_sum kept_steps_def sum_kept)
  then show ?thesis by (simp only: sum_list_addf [symmetric] parts)
qed

text \<open>With a search, the internal duration of a step leaves out of the subtraction the plugins that do not match.\<close>

lemma search_counts_plugins_internal:
  fixes s defines "s \<equiv> \<lparr>rs_task = ''transform-request'', rs_duration = 10,
    rs_plugins = Some [\<lparr>rp_name = ''a'', rp_duration = 4\<rparr>, \<lparr>rp_name = ''b'', rp_duration = 5\<rparr>], rs_open = False\<rparr>"
  shows "flow_value ''internal'' [] [s] = 1" and "flow_value ''internal'' ''transform'' [s] = 10"
  by (simp_all add: s_def flow_value_def kept_steps_def isOnFlow_def isMatchingSearchWords_def startsWith_def
      userPluginsFlow_def plugins_of_def isPluginNameMatchingSearch_def)

section \<open>What is shown\<close>

lemma find_task: "distinct (map rs_task steps) \<Longrightarrow> s \<in> set steps \<Longrightarrow> List.find (\<lambda>t. rs_task t = rs_task s) steps = Some s"
  by (rule find_unique) (auto simp: distinct_map inj_on_def)

text \<open>A click on a step shows it, and a click on a plugin the plugin, when the names are distinct and none is \<open>error\<close>.\<close>

lemma clicked_is_shown:
  assumes "distinct (map rs_task (rv_steps v))" and "s \<in> set (rv_steps v)"
  shows "shown_in_report (click_step s v) = Show_step (Some s)"
    and "p \<in> set (plugins_of s) \<Longrightarrow> distinct (map rp_name (plugins_of s)) \<Longrightarrow> rp_name p \<noteq> ''error'' \<Longrightarrow>
      shown_in_report (click_plugin s p v) = Show_plugin (Some p)"
proof -
  show "shown_in_report (click_step s v) = Show_step (Some s)"
    using find_task [OF assms] by (simp add: shown_in_report_def click_step_def)
  assume p: "p \<in> set (plugins_of s)" "distinct (map rp_name (plugins_of s))" "rp_name p \<noteq> ''error''"
  have "List.find (\<lambda>q. rp_name q = rp_name p) (plugins_of s) = Some p"
    using p by (intro find_unique) (auto simp: distinct_map inj_on_def)
  then show "shown_in_report (click_plugin s p v) = Show_plugin (Some p)"
    using find_task [OF assms] p(3) by (simp add: shown_in_report_def click_plugin_def)
qed

lemma error_named_plugin: "rp_name p = ''error'' \<Longrightarrow> shown_in_report (click_plugin s p v) = Show_error"
  by (simp add: shown_in_report_def click_plugin_def)

text \<open>A new report closes the steps and keeps the selection, which may then show nothing.\<close>

lemma stale_selection: "s \<notin> set (map rs_task steps) \<Longrightarrow> rv_step v = Some s \<Longrightarrow> rv_plugin v = None \<Longrightarrow>
    shown_in_report (show_report steps v) = Show_step None"
  by (auto simp: shown_in_report_def show_report_def find_None_iff_all)

section \<open>The days\<close>

text \<open>Every day has one class.\<close>

lemma one_class: "length (day_classes ss) = 1"
  by (auto simp: day_classes_def split: option.splits)

text \<open>A day that was down for a moment is shown as one that never was.\<close>

lemma almost_green: "day_classes [\<lparr>hs_health = ''GREEN'', hs_percentage = 99996 / 1000\<rparr>, \<lparr>hs_health = ''RED'', hs_percentage = 4 / 1000\<rparr>] = [''green'']"
proof -
  have "\<lfloor>(99996 / 1000) * 10 ^ 2 + 1 / 2 :: rat\<rfloor> = 10000" by (rule floor_unique) auto
  then show ?thesis by (simp add: day_classes_def availability_def available_def two_decimals_def fixed_digits_def)
qed

lemma foldl_add: "foldl (\<lambda>a x. a + f x) (b :: rat) xs = b + sum_list (map f xs)"
  by (induction xs arbitrary: b) (simp_all add: add.assoc)

lemma average_bounded:
  assumes "\<forall>ss \<in> set dates. available ss \<le> c" and "0 \<le> c"
  shows "uptime_avg stop dates \<le> c"
proof -
  define days where "days = filter (\<lambda>ss. \<not> stop \<or> ss \<noteq> []) dates"
  have "sum_list (map (\<lambda>ss. available ss / of_nat (length days)) days) \<le> sum_list (map (\<lambda>ss. c / of_nat (length days)) days)"
    using assms(1) by (intro sum_list_mono divide_right_mono) (auto simp: days_def)
  also have "\<dots> \<le> c" using assms(2) by (cases "days = []") (simp_all add: sum_list_triv)
  finally show ?thesis by (simp add: uptime_avg_def days_def Let_def foldl_add)
qed

definition plain_step :: "string \<Rightarrow> int \<Rightarrow> rplugin list \<Rightarrow> rstep" where
  "plain_step task d ps = \<lparr>rs_task = task, rs_duration = d, rs_plugins = Some ps, rs_open = False\<rparr>"

lemma flows_add_up_witness:
  "flow_value ''internal'' [] [plain_step ''transform'' 10 [\<lparr>rp_name = ''a'', rp_duration = 4\<rparr>], plain_step ''call-backend'' 7 []]
     + flow_value ''user'' [] [plain_step ''transform'' 10 [\<lparr>rp_name = ''a'', rp_duration = 4\<rparr>], plain_step ''call-backend'' 7 []] = 17"
  using flows_add_up [of "[plain_step ''transform'' 10 [\<lparr>rp_name = ''a'', rp_duration = 4\<rparr>], plain_step ''call-backend'' 7 []]"]
  by (simp add: plain_step_def step_ok_def plugins_of_def)


end
