(* ===== verification/Spec2Isabelle.thy ===== *)
theory Spec2Isabelle
  imports Workflow_Debugger Sidecar Drafts_Compare Api_Quality Route_Patterns
    Form_Validation Table_View Draft_Editor Analytics_Dashboard
    Analytics_Wizard Release_Facts Release_Changelog Api_Facts Input_Lists
    Event_Stream_Facts Analytics_Charts Green_Groups Mocks
    Graphql_Form Plugins_Chain Sidebar Report_View
begin

text \<open>
  A verification library of the JavaScript programs of Otoroshi: the admin console
  (\<open>otoroshi/javascript/src\<close>, below \<open>src/\<close>), the sidecar of the service mesh
  (\<open>tools/sidecar/src\<close>) and the script of the releases (\<open>scripts/release\<close>).
\<close>

section \<open>The programs and their parts\<close>

text \<open>
  The console is a React application that reads and writes the entities of the gateway. A page asks
  for them through the client of the admin API, shows them in a table, and edits one in a form. The form is drawn by
  the form engine, or is a designer of its own: that of the routes, whose plugins it orders, and
  that of the workflows, whose steps it draws as a graph. An entity may have a draft next to what is published. Beside
  the entities there are the dashboards of the analytics and the stream of the events of a node.
  The sidecar stands next to a pod: it reads its configuration once and gives it to two proxies. The release
  script runs the steps of a release, and writes its changelog.

  \<^item> \<open>Prelude\<close>: JavaScript values, objects, strings and failures; the interfaces the
    components instantiate.
  \<^item> \<open>Api_Client\<close>, \<open>Api_Endpoints\<close> (\<open>src/services/BackOfficeServices.js\<close>): one definition for each function of
    the file, the request it sends and what it does with the answer. \<open>Api_Facts\<close>: the operations on an
    entity refine updates of a map, the pages of a table are read back from the URL, every request is well formed.
  \<^item> \<open>Table_View\<close> (\<open>src/components/inputs/Table.js\<close>): rows shown, requests, forms, exports.
  \<^item> \<open>Form_Engine\<close>, \<open>Form_Validation\<close> (\<open>src/components/nginputs/form.js\<close>): the drawing of a form from
    its schema and its flow, reads and edits by path, and the machine that collects the reports of the steps.
    \<open>Form_Facts\<close>: edits read back, when they throw, which steps are drawn.
  \<^item> \<open>Input_Lists\<close> (\<open>src/components/inputs\<close>): the inputs for objects, lists, numbers and addresses.
  \<^item> \<open>Draft_Editor\<close> (\<open>src/components/Drafts/DraftEditor.js\<close>, \<open>DraftEditorSignal.js\<close>): the draft as signals, hooks
    and a timer; it refines two buffers. \<open>Drafts_Compare\<close> (\<open>src/components/Drafts/Compare/utils.js\<close>): the
    tree of the compared lines.
  \<^item> \<open>Route_Designer\<close>, \<open>Route_Patterns\<close> (\<open>src/pages/RouteDesigner/Designer.js\<close>, \<open>DesignerConfig.js\<close>, \<open>patterns.js\<close>,
    \<open>src/util.js\<close>): the plugins of a route. \<open>Route_Designer_Facts\<close>: their order, and the agreement of
    what is drawn with what will be saved.
  \<^item> \<open>Mocks\<close> (\<open>src/pages/RouteDesigner/MocksDesigner.js\<close>): the designer of mocked responses, which refines an editor of models
    and endpoints, and the data it generates. \<open>Graphql_Form\<close> (\<open>GraphQLForm.js\<close> beside it): the types of a GraphQL schema, read,
    edited and sent back, and when the drawing of the form fails.
  \<^item> \<open>Plugins_Chain\<close> (\<open>src/components/PluginsChainDrawer.js\<close>): the route designer in a drawer, on a chain of plugins.
    \<open>Sidebar\<close> (\<open>src/components/DefaultSidebar.js\<close>): the shortcuts of the user, which moves permute.
  \<^item> \<open>Report_View\<close> (\<open>src/components/ReportView.js\<close>, \<open>Status.js\<close>): the steps and the flows of a report, which add up to
    its time, and the history of the health of a service.
  \<^item> \<open>Api_Quality\<close> (\<open>src/pages/ApiEditor/quality\<close>): rules, score, grades and report of an API.
  \<^item> \<open>Workflow_Catalog\<close>, \<open>Workflow_Graph\<close>, \<open>Workflow_Json\<close>, \<open>Workflow_Editor\<close>, \<open>Workflow_Debugger\<close>
    (\<open>src/extensions/workflows\<close>): the catalogue of the nodes, the graph drawn for a workflow, the workflow read back
    from the graph, the handlers of the designer as a machine, the terminal and the picker. The \<open>_Facts\<close> and
    \<open>Workflow_Roundtrip\<close> have the fuel, the edges, and loading then saving.
  \<^item> \<open>Analytics_Filters\<close>, \<open>Analytics_Widget\<close>, \<open>Analytics_Dashboard\<close>, \<open>Analytics_Wizard\<close>, \<open>Analytics_Charts\<close>
    (\<open>src/pages/analytics\<close>): times and filters, the requests of a widget with their cancellation, the actions on
    a dashboard and the answers of the server, the wizard, the rows and texts of the charts.
  \<^item> \<open>Event_Stream\<close>, \<open>Event_Stream_Facts\<close> (\<open>src/pages/GlobalNodeEventStreamPage.js\<close>): the language of the filters,
    its grammar, and the memory of the page.
  \<^item> \<open>Green_Score\<close>, \<open>Green_Groups\<close> (\<open>src/extensions/greenscore\<close>): grades and figures of the routes, the table of the
    groups, the histogram of the hits; the rules a route follows day by day and the editor of a group.
  \<^item> \<open>Sidecar\<close> (\<open>tools/sidecar/src/sidecar.js\<close>, \<open>proxy.js\<close>): configuration, the two request handlers, the relay.
  \<^item> \<open>Release\<close>, \<open>Release_Facts\<close>, \<open>Release_Changelog\<close> (\<open>scripts/release\<close>): the steps with their journal, killed and
    resumed; the changelog.
\<close>

section \<open>How the code is modelled\<close>

text \<open>
  \<^item> A function of the source is a definition of the same name where the name is free; a handler of a component is a function of
    the state the component keeps, a record, and of what the handler is given. A component whose handlers interleave with answers,
    timers or other handlers has an inductive predicate of the states it can reach.
  \<^item> An exception is a value: \<open>'a res\<close> of \<open>Prelude\<close> for the errors of the engine, an error type of the component for its own,
    and \<open>option\<close> where there is one kind only.
  \<^item> Numbers are rationals, which finite doubles are. Integers the code cuts to 32 bits are words.
  \<^item> What the sources rely on and do not hold (lodash, React Flow, JSON Web Tokens, the clock, the locale, the
    server, the commands of the release) is a field of a record \<open>..._env\<close>, or an argument. The properties that need something
    of it say so as a hypothesis, and a witness gives an instance.
  \<^item> What only draws (JSX, styles, heights) is left out.
\<close>

text \<open>
  Recursions that JavaScript does not bound take fuel, one unit a call.

  \<^item> \<open>buildGraph\<close>: any fuel above \<open>steps_weight\<close>, the number of values in the steps, is enough
    (\<open>buildGraph_terminates\<close>).
  \<^item> \<open>nodeToJson\<close> follows the edges and does not stop on a cycle, which is then never saved
    (\<open>cycle_never_saved\<close>); on plain steps it returns (\<open>load_save_plain\<close>).
  \<^item> The drawing of a form: any fuel above the size of the flow is enough when the flow has no function
    (\<open>static_flow_drawn\<close>); a function in a flow may call for itself.
  \<^item> The data generated from a model: any fuel above the rank of the models is enough when they have one
    (\<open>generation_ends\<close>); a model that uses itself exhausts any (\<open>self_model_overflows\<close>).
  \<^item> The step of the histogram of hits: six calls (\<open>rounding_ends\<close>).
  \<^item> The parser of the filters: five units a token and four more (\<open>parse_fuel_enough\<close>).

  More fuel does not change a result: locale \<open>fueled\<close> of \<open>Prelude\<close>, instantiated on the first three.
\<close>

section \<open>What is shown\<close>

text \<open>
  \<^item> Round trips: workflows loaded and saved, edits of a form, pages of a table in a URL, widgets in the wizard, filters in
    the address, addresses typed, texts of filters, series of a chart, types of a GraphQL schema, chains of plugins.
  \<^item> Refinements: the clients of the API and a map, rows and an object, the draft editor and two buffers, the
    reports of a form and a map, the memory of events and the last events, an interrupted release and an uninterrupted one; the
    designer of mocks and the actions of a dashboard against relations on lists and keys that use none of the operations of the
    code (the data generated apart). Locales \<open>implements\<close> and \<open>simulates\<close> have the simulations, once.
  \<^item> Invariants of machines (locale \<open>machine\<close>): edges that join nodes, nodes that match the plugins, the validity of a form, the status
    of a widget, the one form of a table, the journal of a release, the group of a green score, the shortcuts being moved.
  \<^item> Equivalences: the parser of filters and the grammar, the search of a text and the question asked of every report, the
    pages and the filtered rows.
  \<^item> Errors, bounds, termination and progress: when an edit throws, when the form of a schema cannot be drawn, exit codes nobody reads, sizes of the memory and of
    the pages, recursions that end, loadings that end, releases that finish.

  Where the code does not do what it means to, a lemma next to the model shows it on an instance.
\<close>

section \<open>Not modelled\<close>

text \<open>
  \<^item> The gateway (\<open>otoroshi/app\<close>), in Scala, and the tools in Rust, Go and shell.
  \<^item> The schemas of the forms of the plugins and of the entities (\<open>src/forms\<close>) and the forms of the workflow nodes: data. The pages
    of the console that only fetch, show and send an entity back, and the optional extensions, but for the pages above.
  \<^item> The rendering of every component, the layout of the graphs, the advanced editors.
  \<^item> The login and the web authentication: calls to the browser. The generated site, the manual, the demos, the
    browser tests and the code of third parties under \<open>docs\<close> and \<open>public\<close>.
\<close>

end
